(* ===== verification/Prelude.thy ===== *)
theory Prelude
  imports Main "HOL-Library.Word"
begin

text \<open>
  Shared vocabulary of the development: machine bytes and words, the outcome type of a C
  function (a fault, an error code, or a value), memory reads and writes with their bounds
  made explicit, little-endian integers, and the lemmas every component proof uses.

  A buffer \<^verbatim>\<open>(ptr, len)\<close> of the C code is the list of its \<^verbatim>\<open>len\<close> bytes; a pointer the code
  compares with \<^verbatim>\<open>NULL\<close> is an \<open>option\<close>. An access outside the object is undefined behaviour in C
  and is the outcome \<open>Fault\<close> here, so that \<open>\<noteq> Fault\<close> is memory safety.
\<close>

unbundle bit_operations_syntax

named_theorems mem_simps \<open>reads and writes of buffers\<close>
named_theorems le_simps \<open>little-endian integers\<close>
named_theorems wf_defs \<open>well-formedness of the structs of the code\<close>

type_synonym byte = "8 word"
type_synonym u16 = "16 word"
type_synonym u32 = "32 word"
type_synonym u64 = "64 word"

subsection \<open>Outcomes of a C function\<close>

datatype ('e, 'a) cres = Fault | Fail 'e | Ret 'a

primrec bnd :: "('e, 'a) cres \<Rightarrow> ('a \<Rightarrow> ('e, 'b) cres) \<Rightarrow> ('e, 'b) cres" where
  "bnd Fault f = Fault"
| "bnd (Fail e) f = Fail e"
| "bnd (Ret a) f = f a"

text \<open>\<^verbatim>\<open>for (x in xs) { ...; if (err) return err; }\<close>\<close>

fun loop :: "('x \<Rightarrow> 's \<Rightarrow> ('e, 's) cres) \<Rightarrow> 'x list \<Rightarrow> 's \<Rightarrow> ('e, 's) cres" where
  "loop f [] s = Ret s"
| "loop f (x # xs) s = bnd (f x s) (loop f xs)"

lemma bnd_assoc: "bnd (bnd m f) g = bnd m (\<lambda>a. bnd (f a) g)"
  by (cases m) auto

lemma bnd_Ret [simp]: "bnd m Ret = m"
  by (cases m) auto

lemma bnd_eq_Ret_iff: "bnd m f = Ret b \<longleftrightarrow> (\<exists>a. m = Ret a \<and> f a = Ret b)"
  by (cases m) auto

lemma bnd_eq_Fail_iff: "bnd m f = Fail e \<longleftrightarrow> m = Fail e \<or> (\<exists>a. m = Ret a \<and> f a = Fail e)"
  by (cases m) auto

lemma bnd_eq_Fault_iff: "bnd m f = Fault \<longleftrightarrow> m = Fault \<or> (\<exists>a. m = Ret a \<and> f a = Fault)"
  by (cases m) auto

lemmas bnd_iffs = bnd_eq_Ret_iff bnd_eq_Fail_iff bnd_eq_Fault_iff

lemma bnd_cong [fundef_cong]:
  "m = m' \<Longrightarrow> (\<And>a. m' = Ret a \<Longrightarrow> f a = g a) \<Longrightarrow> bnd m f = bnd m' g"
  by (cases m') auto

lemma loop_append: "loop f (xs @ ys) s = bnd (loop f xs s) (loop f ys)"
proof (induction xs arbitrary: s)
  case (Cons x xs)
  show ?case by (cases "f x s") (simp_all add: Cons.IH)
qed simp

text \<open>A loop whose body keeps an invariant and never faults or fails.\<close>

lemma loop_invariant:
  assumes "I s" and "\<And>x s. x \<in> set xs \<Longrightarrow> I s \<Longrightarrow> \<exists>s'. f x s = Ret s' \<and> I s'"
  shows "\<exists>s'. loop f xs s = Ret s' \<and> I s'"
  using assms
proof (induction xs arbitrary: s)
  case Nil
  then show ?case by simp
next
  case (Cons x xs)
  from Cons.prems obtain s1 where "f x s = Ret s1" and s1: "I s1"
    by (metis list.set_intros(1))
  moreover have "\<exists>s'. loop f xs s1 = Ret s' \<and> I s'"
    using Cons.IH [OF s1] Cons.prems(2) by simp
  ultimately show ?case by simp
qed

text \<open>A counting loop that returns keeps every indexed invariant of its body.\<close>

lemma loop_upt_invariant:
  assumes "loop f [0..<n] s = Ret s'" and "I 0 s"
    and "\<And>i s s1. i < n \<Longrightarrow> I i s \<Longrightarrow> f i s = Ret s1 \<Longrightarrow> I (Suc i) s1"
  shows "I n s'"
  using assms
proof (induction n arbitrary: s')
  case (Suc n)
  from Suc.prems(1) obtain t where t: "loop f [0..<n] s = Ret t" "f n t = Ret s'"
    by (auto simp: loop_append bnd_iffs)
  have "I n t" by (rule Suc.IH [OF t(1) Suc.prems(2)]) (use Suc.prems(3) in simp)
  then show ?case using Suc.prems(3) [of n t s'] t(2) by simp
qed simp

text \<open>A loop whose body always succeeds is a fold.\<close>

lemma loop_Ret:
  assumes "\<And>x s. x \<in> set xs \<Longrightarrow> f x s = Ret (g x s)"
  shows "loop f xs s = Ret (fold g xs s)"
  using assms by (induction xs arbitrary: s) simp_all

subsection \<open>Memory\<close>

text \<open>\<^verbatim>\<open>buf[i]\<close>, \<^verbatim>\<open>buf[i] = v\<close>, \<^verbatim>\<open>memcpy(dst, buf + off, n)\<close> and \<^verbatim>\<open>memcpy(buf + off, src, n)\<close>.\<close>

definition rd :: "byte list \<Rightarrow> nat \<Rightarrow> ('e, byte) cres" where
  "rd buf i = (if i < length buf then Ret (buf ! i) else Fault)"

definition wr :: "byte list \<Rightarrow> nat \<Rightarrow> byte \<Rightarrow> ('e, byte list) cres" where
  "wr buf i v = (if i < length buf then Ret (buf[i := v]) else Fault)"

definition rdn :: "byte list \<Rightarrow> nat \<Rightarrow> nat \<Rightarrow> ('e, byte list) cres" where
  "rdn buf off n = (if off + n \<le> length buf then Ret (take n (drop off buf)) else Fault)"

definition wrn :: "byte list \<Rightarrow> nat \<Rightarrow> byte list \<Rightarrow> nat \<Rightarrow> ('e, byte list) cres" where
  "wrn buf off src n =
     (if n \<le> length src \<and> off + n \<le> length buf
      then Ret (take off buf @ take n src @ drop (off + n) buf) else Fault)"

lemma rd_Ret [mem_simps]: "i < length buf \<Longrightarrow> rd buf i = Ret (buf ! i)"
  by (simp add: rd_def)

lemma rdn_Ret [mem_simps]: "off + n \<le> length buf \<Longrightarrow> rdn buf off n = Ret (take n (drop off buf))"
  by (simp add: rdn_def)

text \<open>
  The writers of the code fill a buffer from the front: what has been written is \<open>pre\<close> and
  the rest of the buffer is untouched.
\<close>

lemma wrn_front [mem_simps]:
  assumes "off = length pre" and "length src = n" and "length pre + n \<le> length pre + (length buf - k)"
  shows "wrn (pre @ drop k buf) off src n = Ret ((pre @ src) @ drop (k + n) buf)"
  using assms by (simp add: wrn_def add.commute)

lemma wr_front [mem_simps]:
  assumes "off = length pre" and "k < length buf"
  shows "wr (pre @ drop k buf) off v = Ret ((pre @ [v]) @ drop (Suc k) buf)"
  using assms by (simp add: wr_def list_update_append Cons_nth_drop_Suc [symmetric])

lemma wrn_length: "wrn buf off src n = Ret buf' \<Longrightarrow> length buf' = length buf"
  by (auto simp: wrn_def split: if_splits)

lemma wr_length: "wr buf i v = Ret buf' \<Longrightarrow> length buf' = length buf"
  by (auto simp: wr_def split: if_splits)

lemma take_drop_mid [mem_simps]:
  "length xs = i \<Longrightarrow> length ys = n \<Longrightarrow> take n (drop i (xs @ ys @ zs)) = ys"
  by simp

subsection \<open>A write cursor\<close>

text \<open>
  The state \<^verbatim>\<open>(buf, off)\<close> of an encoder: \<^verbatim>\<open>buf[off++] = v\<close>, and \<^verbatim>\<open>memcpy(buf + off, src, n)\<close>
  followed by \<^verbatim>\<open>off += n\<close>. \<open>cur buf pre\<close> is the cursor of an encoder that started on
  \<open>buf\<close> and has written exactly \<open>pre\<close>.
\<close>

type_synonym cursor = "byte list \<times> nat"

definition putb :: "byte \<Rightarrow> cursor \<Rightarrow> ('e, cursor) cres" where
  "putb v c = bnd (wr (fst c) (snd c) v) (\<lambda>buf. Ret (buf, snd c + 1))"

definition putn :: "byte list \<Rightarrow> nat \<Rightarrow> cursor \<Rightarrow> ('e, cursor) cres" where
  "putn src n c = bnd (wrn (fst c) (snd c) src n) (\<lambda>buf. Ret (buf, snd c + n))"

definition cur :: "byte list \<Rightarrow> byte list \<Rightarrow> cursor" where
  "cur buf pre = (pre @ drop (length pre) buf, length pre)"

lemma cur_start: "(buf, 0) = cur buf []"
  by (simp add: cur_def)

lemma snd_cur [simp]: "snd (cur buf pre) = length pre"
  by (simp add: cur_def)

lemma length_fst_cur [simp]: "length pre \<le> length buf \<Longrightarrow> length (fst (cur buf pre)) = length buf"
  by (simp add: cur_def)

lemma cur_Nil [simp]: "fst (cur buf []) = buf"
  by (simp add: cur_def)

lemma wr_cur [mem_simps]:
  "off = length pre \<Longrightarrow> off < length buf \<Longrightarrow>
   wr (fst (cur buf pre)) off v = Ret (fst (cur buf (pre @ [v])))"
  by (simp add: cur_def wr_front)

lemma wrn_cur [mem_simps]:
  "off = length pre \<Longrightarrow> n \<le> length src \<Longrightarrow> off + n \<le> length buf \<Longrightarrow>
   wrn (fst (cur buf pre)) off src n = Ret (fst (cur buf (pre @ take n src)))"
  by (simp add: cur_def wrn_def add.commute)

text \<open>The first write starts from the plain buffer.\<close>

lemma wr_cur_0 [mem_simps]: "buf \<noteq> [] \<Longrightarrow> wr buf 0 v = Ret (fst (cur buf [v]))"
  using wr_cur [of 0 "[]" buf v] by simp

lemma length_ge_not_Nil: "n \<le> length xs \<Longrightarrow> 0 < n \<Longrightarrow> xs \<noteq> []"
  by auto

lemma wrn_cur_0 [mem_simps]:
  "n \<le> length src \<Longrightarrow> n \<le> length buf \<Longrightarrow> wrn buf 0 src n = Ret (fst (cur buf (take n src)))"
  using wrn_cur [of 0 "[]" n src buf] by simp

lemma cur_eqI: "length pre = n \<Longrightarrow> (fst (cur buf pre), n) = cur buf pre"
  by (simp add: cur_def)

lemma putb_cur [mem_simps]:
  "length pre < length buf \<Longrightarrow> putb v (cur buf pre) = Ret (cur buf (pre @ [v]))"
  by (simp add: putb_def cur_def wr_front)

lemma putn_cur [mem_simps]:
  "n \<le> length src \<Longrightarrow> length pre + n \<le> length buf \<Longrightarrow>
   putn src n (cur buf pre) = Ret (cur buf (pre @ take n src))"
  by (simp add: putn_def cur_def wrn_def add.commute)

lemma loop_putb_cur:
  "length pre + length xs \<le> length buf \<Longrightarrow>
   loop (\<lambda>i. putb (f i)) xs (cur buf pre) = Ret (cur buf (pre @ map f xs))"
  by (induction xs arbitrary: pre) (simp_all add: putb_cur)

text \<open>Reading a list laid out as consecutive fields.\<close>

fun chunks :: "nat list \<Rightarrow> 'a list \<Rightarrow> 'a list list" where
  "chunks [] bs = [bs]"
| "chunks (n # ns) bs = take n bs # chunks ns (drop n bs)"

lemma concat_chunks: "concat (chunks ns bs) = bs"
  by (induction ns arbitrary: bs) simp_all

lemma take_2_nth: "2 \<le> length xs \<Longrightarrow> take 2 xs = [xs ! 0, xs ! 1]"
  by (cases xs; cases "tl xs") auto

lemma take_take_drop: "take m (drop i xs) @ take n (drop (i + m) xs) = take (m + n) (drop i xs)"
  by (simp add: take_add add.commute)

lemma take_append_drop_all: "take m xs @ take n (drop m xs) = take (m + n) xs"
  by (simp add: take_add)

subsection \<open>Little-endian integers\<close>

text \<open>The \<open>n\<close> low bytes of a word, least significant first, and the word read back.\<close>

definition le_bytes :: "nat \<Rightarrow> 'a::len word \<Rightarrow> byte list" where
  "le_bytes n w = map (\<lambda>i. ucast (drop_bit (8 * i) w)) [0..<n]"

fun le_word :: "byte list \<Rightarrow> 'a::len word" where
  "le_word [] = 0"
| "le_word (b # bs) = ucast b OR push_bit 8 (le_word bs)"

lemma length_le_bytes [simp]: "length (le_bytes n w) = n"
  by (simp add: le_bytes_def)

lemma nth_le_bytes [le_simps]: "i < n \<Longrightarrow> le_bytes n w ! i = ucast (drop_bit (8 * i) w)"
  by (simp add: le_bytes_def)

lemma bit_le_word:
  "bit (le_word bs :: 'a::len word) k \<longleftrightarrow>
     k < LENGTH('a) \<and> k div 8 < length bs \<and> bit (bs ! (k div 8)) (k mod 8)"
proof (induction bs arbitrary: k)
  case Nil
  then show ?case by simp
next
  case (Cons b bs)
  show ?case
  proof (cases "k < 8")
    case True
    then show ?thesis by (auto simp: bit_simps)
  next
    case False
    then obtain j where k: "k = j + 8" by (metis add.commute le_Suc_ex not_less)
    then have "(j + 8) div 8 = Suc (j div 8)" and "(j + 8) mod 8 = j mod 8" by simp_all
    moreover have "\<not> bit b (j + 8)" by (auto dest: bit_imp_le_length)
    ultimately show ?thesis
      by (auto simp: k bit_simps Cons.IH dest: bit_imp_le_length)
  qed
qed

lemma le_word_le_bytes:
  assumes "LENGTH('a::len) \<le> 8 * n"
  shows "le_word (le_bytes n w) = (w :: 'a word)"
proof (rule bit_word_eqI)
  fix k assume k: "k < LENGTH('a)"
  then have "k div 8 < n" using assms by (simp add: less_mult_imp_div_less)
  moreover have "8 * (k div 8) + k mod 8 = k" by simp
  ultimately show "bit (le_word (le_bytes n w) :: 'a word) k = bit w k"
    using k by (auto simp: bit_le_word nth_le_bytes bit_simps)
qed

lemma le_bytes_le_word:
  assumes "length bs = n" and "8 * n \<le> LENGTH('a::len)"
  shows "le_bytes n (le_word bs :: 'a word) = bs"
proof (rule nth_equalityI)
  show "length (le_bytes n (le_word bs :: 'a word)) = length bs" using assms by simp
next
  fix i assume "i < length (le_bytes n (le_word bs :: 'a word))"
  then have i: "i < n" by simp
  have "le_bytes n (le_word bs :: 'a word) ! i = ucast (drop_bit (8 * i) (le_word bs :: 'a word))"
    by (rule nth_le_bytes [OF i])
  also have "\<dots> = bs ! i"
  proof (rule bit_word_eqI)
    fix k assume k: "k < LENGTH(8)"
    then have "(8 * i + k) div 8 = i" and "(8 * i + k) mod 8 = k" by simp_all
    moreover have "8 * i + k < LENGTH('a)" using i k assms by simp
    ultimately show "bit (ucast (drop_bit (8 * i) (le_word bs :: 'a word)) :: byte) k = bit (bs ! i) k"
      using i k assms by (simp add: bit_simps bit_le_word)
  qed
  finally show "le_bytes n (le_word bs :: 'a word) ! i = bs ! i" .
qed

lemma le_bytes_inj:
  "LENGTH('a::len) \<le> 8 * n \<Longrightarrow> le_bytes n (v :: 'a word) = le_bytes n w \<longleftrightarrow> v = w"
  by (metis le_word_le_bytes)

text \<open>The straight-line forms the code writes for 16, 32 and 64 bits.\<close>

lemma le_bytes_2: "le_bytes 2 w = [ucast w, ucast (drop_bit 8 w)]"
  by (simp add: le_bytes_def numeral_2_eq_2)

lemma le_bytes_4:
  "le_bytes 4 w = [ucast w, ucast (drop_bit 8 w), ucast (drop_bit 16 w), ucast (drop_bit 24 w)]"
  by (simp add: le_bytes_def upt_rec)

lemma le_word_2: "le_word [a, b] = ucast a OR push_bit 8 (ucast b)"
  by simp

lemma le_word_4:
  "le_word [a, b, c, d] =
     ucast a OR push_bit 8 (ucast b) OR push_bit 16 (ucast c) OR push_bit 24 (ucast d)"
  by (simp add: push_bit_or ac_simps)

text \<open>\<^verbatim>\<open>(uint8_t)(w & 0xff)\<close>\<close>

lemma ucast_and_ff [simp]: "(ucast (w AND 0xff) :: byte) = ucast (w :: 'a::len word)"
proof -
  have "(0xff :: 'a word) = mask 8" by (simp add: mask_eq_exp_minus_1)
  then show ?thesis
    unfolding \<open>0xff = mask 8\<close>
    by (intro bit_word_eqI) (simp add: bit_simps, metis bit_imp_le_length)
qed

text \<open>The eight-byte loop \<^verbatim>\<open>v |= (uint64_t)p[i] << (8 * i)\<close>.\<close>

definition or_loop :: "nat \<Rightarrow> byte list \<Rightarrow> 'a::len word" where
  "or_loop n p = fold (\<lambda>i v. v OR push_bit (8 * i) (ucast (p ! i))) [0..<n] 0"

lemma bit_or_fold:
  "bit (fold (\<lambda>i v. v OR push_bit (8 * i) (ucast (p ! i :: byte))) is (v0 :: 'a::len word)) k \<longleftrightarrow>
     bit v0 k \<or> (\<exists>i\<in>set is. bit (push_bit (8 * i) (ucast (p ! i)) :: 'a word) k)"
  by (induction "is" arbitrary: v0) (auto simp: bit_simps)

lemma or_loop_le_word:
  assumes "length p = n"
  shows "or_loop n p = (le_word p :: 'a::len word)"
proof (rule bit_word_eqI)
  fix k assume k: "k < LENGTH('a)"
  have "(\<exists>i\<in>set [0..<n]. bit (push_bit (8 * i) (ucast (p ! i)) :: 'a word) k) \<longleftrightarrow>
        k div 8 < n \<and> bit (p ! (k div 8)) (k mod 8)" (is "?l \<longleftrightarrow> ?r")
  proof
    assume ?l
    then obtain i where i: "i < n" "8 * i \<le> k" "bit (p ! i) (k - 8 * i)"
      by (auto simp: bit_simps)
    then have "k - 8 * i < 8" using bit_imp_le_length [of "p ! i" "k - 8 * i"] by simp
    with i(2) obtain j where "k = 8 * i + j" and "j < 8" by (metis le_add_diff_inverse)
    with i show ?r by simp
  next
    assume r: ?r
    have "k - 8 * (k div 8) = k mod 8" by (simp add: minus_mult_div_eq_mod)
    with r k show ?l
      by (intro bexI [of _ "k div 8"]) (auto simp: bit_simps)
  qed
  then show "bit (or_loop n p :: 'a word) k = bit (le_word p :: 'a word) k"
    using assms k by (simp add: or_loop_def bit_or_fold bit_le_word)
qed

end
