(* ===== verification/Errors.thy ===== *)
theory Errors
  imports Prelude
begin

text \<open>
  The structured error codes of \<^verbatim>\<open>c/include/auth/auth.h\<close>, their wire values and names
  (\<^verbatim>\<open>auth_strerror\<close>, \<^verbatim>\<open>auth_err_is_wire\<close> of \<^verbatim>\<open>crypto.c\<close>) and the fail-closed reading of a code
  received from a peer (\<^verbatim>\<open>normalize_wire_error_code\<close> of \<^verbatim>\<open>wire.c\<close>), with the fixed sizes of
  the same header.
\<close>

subsection \<open>Fixed sizes\<close>

abbreviation (input) AUTH_SETUP_CHALLENGE_LEN :: nat where "AUTH_SETUP_CHALLENGE_LEN \<equiv> 16"
abbreviation (input) AUTH_SESSION_ID_LEN :: nat where "AUTH_SESSION_ID_LEN \<equiv> 16"
abbreviation (input) AUTH_HEADER_LEN :: nat where "AUTH_HEADER_LEN \<equiv> 24"
abbreviation (input) AUTH_MAX_DATAGRAM :: nat where "AUTH_MAX_DATAGRAM \<equiv> 2048"
abbreviation (input) AUTH_MAX_PAYLOAD :: nat where "AUTH_MAX_PAYLOAD \<equiv> 2024"
abbreviation (input) AUTH_MAX_PAIRING_TOKEN :: nat where "AUTH_MAX_PAIRING_TOKEN \<equiv> 128"
abbreviation (input) AUTH_MAX_ROLES :: nat where "AUTH_MAX_ROLES \<equiv> 8"

subsection \<open>Error codes\<close>

datatype auth_err =
    AUTH_OK
  | AUTH_ERR_INVALID_ARGUMENT
  | AUTH_ERR_BUFFER_TOO_SMALL
  | AUTH_ERR_NOT_INITIALIZED
  | AUTH_ERR_IO
  | AUTH_ERR_TIMEOUT
  | AUTH_ERR_UNSUPPORTED_VERSION
  | AUTH_ERR_UNSUPPORTED_SUITE
  | AUTH_ERR_CAP_MISMATCH
  | AUTH_ERR_MALFORMED_PACKET
  | AUTH_ERR_UNKNOWN_PKT_TYPE
  | AUTH_ERR_PAYLOAD_TOO_LARGE
  | AUTH_ERR_PAYLOAD_TOO_SHORT
  | AUTH_ERR_INVALID_ENCODING
  | AUTH_ERR_INVALID_POINT
  | AUTH_ERR_NONCANONICAL_SCALAR
  | AUTH_ERR_IDENTITY_POINT
  | AUTH_ERR_PROOF_VERIFY
  | AUTH_ERR_KEY_CONFIRM
  | AUTH_ERR_PEER_KEY_MISMATCH
  | AUTH_ERR_UNKNOWN_SESSION
  | AUTH_ERR_SESSION_EXPIRED
  | AUTH_ERR_REPLAY_DETECTED
  | AUTH_ERR_SEQ_OUT_OF_ORDER
  | AUTH_ERR_UNKNOWN_DEVICE
  | AUTH_ERR_DEVICE_NOT_ENROLLED
  | AUTH_ERR_ROLE_NOT_PERMITTED
  | AUTH_ERR_PAIRING_TOKEN_BAD
  | AUTH_ERR_RATE_LIMITED
  | AUTH_ERR_SERVER_BUSY
  | AUTH_ERR_TOO_MANY_ACTIVE
  | AUTH_ERR_STORAGE_FAILURE
  | AUTH_ERR_CREDENTIAL_MISSING
  | AUTH_ERR_REGISTRY_CORRUPT
  | AUTH_ERR_UNSPECIFIED

text \<open>The wire-stable \<^verbatim>\<open>u16\<close> value of an enumerator.\<close>

primrec err_code :: "auth_err \<Rightarrow> u16" where
  "err_code AUTH_OK = 0x0000"
| "err_code AUTH_ERR_INVALID_ARGUMENT = 0x0001"
| "err_code AUTH_ERR_BUFFER_TOO_SMALL = 0x0002"
| "err_code AUTH_ERR_NOT_INITIALIZED = 0x0003"
| "err_code AUTH_ERR_IO = 0x0004"
| "err_code AUTH_ERR_TIMEOUT = 0x0005"
| "err_code AUTH_ERR_UNSUPPORTED_VERSION = 0x0101"
| "err_code AUTH_ERR_UNSUPPORTED_SUITE = 0x0102"
| "err_code AUTH_ERR_CAP_MISMATCH = 0x0103"
| "err_code AUTH_ERR_MALFORMED_PACKET = 0x0201"
| "err_code AUTH_ERR_UNKNOWN_PKT_TYPE = 0x0202"
| "err_code AUTH_ERR_PAYLOAD_TOO_LARGE = 0x0203"
| "err_code AUTH_ERR_PAYLOAD_TOO_SHORT = 0x0204"
| "err_code AUTH_ERR_INVALID_ENCODING = 0x0205"
| "err_code AUTH_ERR_INVALID_POINT = 0x0301"
| "err_code AUTH_ERR_NONCANONICAL_SCALAR = 0x0302"
| "err_code AUTH_ERR_IDENTITY_POINT = 0x0303"
| "err_code AUTH_ERR_PROOF_VERIFY = 0x0304"
| "err_code AUTH_ERR_KEY_CONFIRM = 0x0305"
| "err_code AUTH_ERR_PEER_KEY_MISMATCH = 0x0306"
| "err_code AUTH_ERR_UNKNOWN_SESSION = 0x0401"
| "err_code AUTH_ERR_SESSION_EXPIRED = 0x0402"
| "err_code AUTH_ERR_REPLAY_DETECTED = 0x0403"
| "err_code AUTH_ERR_SEQ_OUT_OF_ORDER = 0x0404"
| "err_code AUTH_ERR_UNKNOWN_DEVICE = 0x0501"
| "err_code AUTH_ERR_DEVICE_NOT_ENROLLED = 0x0502"
| "err_code AUTH_ERR_ROLE_NOT_PERMITTED = 0x0503"
| "err_code AUTH_ERR_PAIRING_TOKEN_BAD = 0x0504"
| "err_code AUTH_ERR_RATE_LIMITED = 0x0601"
| "err_code AUTH_ERR_SERVER_BUSY = 0x0602"
| "err_code AUTH_ERR_TOO_MANY_ACTIVE = 0x0603"
| "err_code AUTH_ERR_STORAGE_FAILURE = 0x0701"
| "err_code AUTH_ERR_CREDENTIAL_MISSING = 0x0702"
| "err_code AUTH_ERR_REGISTRY_CORRUPT = 0x0703"
| "err_code AUTH_ERR_UNSPECIFIED = 0x7FFF"

primrec auth_strerror :: "auth_err \<Rightarrow> string" where
  "auth_strerror AUTH_OK = ''OK''"
| "auth_strerror AUTH_ERR_INVALID_ARGUMENT = ''invalid argument''"
| "auth_strerror AUTH_ERR_BUFFER_TOO_SMALL = ''buffer too small''"
| "auth_strerror AUTH_ERR_NOT_INITIALIZED = ''not initialized''"
| "auth_strerror AUTH_ERR_IO = ''I/O error''"
| "auth_strerror AUTH_ERR_TIMEOUT = ''timeout''"
| "auth_strerror AUTH_ERR_UNSUPPORTED_VERSION = ''unsupported protocol version''"
| "auth_strerror AUTH_ERR_UNSUPPORTED_SUITE = ''unsupported cipher suite''"
| "auth_strerror AUTH_ERR_CAP_MISMATCH = ''capability mismatch''"
| "auth_strerror AUTH_ERR_MALFORMED_PACKET = ''malformed packet''"
| "auth_strerror AUTH_ERR_UNKNOWN_PKT_TYPE = ''unknown packet type''"
| "auth_strerror AUTH_ERR_PAYLOAD_TOO_LARGE = ''payload too large''"
| "auth_strerror AUTH_ERR_PAYLOAD_TOO_SHORT = ''payload too short''"
| "auth_strerror AUTH_ERR_INVALID_ENCODING = ''invalid encoding''"
| "auth_strerror AUTH_ERR_INVALID_POINT = ''invalid Ristretto255 point''"
| "auth_strerror AUTH_ERR_NONCANONICAL_SCALAR = ''non-canonical scalar''"
| "auth_strerror AUTH_ERR_IDENTITY_POINT = ''identity point rejected''"
| "auth_strerror AUTH_ERR_PROOF_VERIFY = ''proof verification failed''"
| "auth_strerror AUTH_ERR_KEY_CONFIRM = ''key confirmation failed''"
| "auth_strerror AUTH_ERR_PEER_KEY_MISMATCH = ''peer key mismatch''"
| "auth_strerror AUTH_ERR_UNKNOWN_SESSION = ''unknown session''"
| "auth_strerror AUTH_ERR_SESSION_EXPIRED = ''session expired''"
| "auth_strerror AUTH_ERR_REPLAY_DETECTED = ''replay detected''"
| "auth_strerror AUTH_ERR_SEQ_OUT_OF_ORDER = ''sequence number out of order''"
| "auth_strerror AUTH_ERR_UNKNOWN_DEVICE = ''unknown device''"
| "auth_strerror AUTH_ERR_DEVICE_NOT_ENROLLED = ''device not enrolled''"
| "auth_strerror AUTH_ERR_ROLE_NOT_PERMITTED = ''role not permitted''"
| "auth_strerror AUTH_ERR_PAIRING_TOKEN_BAD = ''pairing token invalid''"
| "auth_strerror AUTH_ERR_RATE_LIMITED = ''rate limited''"
| "auth_strerror AUTH_ERR_SERVER_BUSY = ''server busy''"
| "auth_strerror AUTH_ERR_TOO_MANY_ACTIVE = ''too many active sessions''"
| "auth_strerror AUTH_ERR_STORAGE_FAILURE = ''storage failure''"
| "auth_strerror AUTH_ERR_CREDENTIAL_MISSING = ''credential missing''"
| "auth_strerror AUTH_ERR_REGISTRY_CORRUPT = ''registry corrupt''"
| "auth_strerror AUTH_ERR_UNSPECIFIED = ''unspecified''"

definition auth_err_is_wire :: "auth_err \<Rightarrow> bool" where
  "auth_err_is_wire e = (let code = err_code e in 0x0100 \<le> code \<and> code \<le> 0x07FF)"

text \<open>The case labels of \<^verbatim>\<open>normalize_wire_error_code\<close>, in the order of the switch.\<close>

definition wire_error_cases :: "auth_err list" where
  "wire_error_cases =
     [AUTH_ERR_UNSUPPORTED_VERSION,
      AUTH_ERR_UNSUPPORTED_SUITE,
      AUTH_ERR_CAP_MISMATCH,
      AUTH_ERR_MALFORMED_PACKET,
      AUTH_ERR_UNKNOWN_PKT_TYPE,
      AUTH_ERR_PAYLOAD_TOO_LARGE,
      AUTH_ERR_PAYLOAD_TOO_SHORT,
      AUTH_ERR_INVALID_ENCODING,
      AUTH_ERR_INVALID_POINT,
      AUTH_ERR_NONCANONICAL_SCALAR,
      AUTH_ERR_IDENTITY_POINT,
      AUTH_ERR_PROOF_VERIFY,
      AUTH_ERR_KEY_CONFIRM,
      AUTH_ERR_PEER_KEY_MISMATCH,
      AUTH_ERR_UNKNOWN_SESSION,
      AUTH_ERR_SESSION_EXPIRED,
      AUTH_ERR_REPLAY_DETECTED,
      AUTH_ERR_SEQ_OUT_OF_ORDER,
      AUTH_ERR_UNKNOWN_DEVICE,
      AUTH_ERR_DEVICE_NOT_ENROLLED,
      AUTH_ERR_ROLE_NOT_PERMITTED,
      AUTH_ERR_PAIRING_TOKEN_BAD,
      AUTH_ERR_RATE_LIMITED,
      AUTH_ERR_SERVER_BUSY,
      AUTH_ERR_TOO_MANY_ACTIVE,
      AUTH_ERR_STORAGE_FAILURE,
      AUTH_ERR_CREDENTIAL_MISSING,
      AUTH_ERR_REGISTRY_CORRUPT,
      AUTH_ERR_UNSPECIFIED]"

definition normalize_wire_error_code :: "u16 \<Rightarrow> auth_err" where
  "normalize_wire_error_code code =
     (case find (\<lambda>e. err_code e = code) wire_error_cases of
        Some e \<Rightarrow> e
      | None \<Rightarrow> AUTH_ERR_UNSPECIFIED)"

lemma err_code_inject: "err_code a = err_code b \<longleftrightarrow> a = b"
  by (cases a; cases b) simp_all

lemma find_err_code:
  "e \<in> set es \<Longrightarrow> find (\<lambda>e'. err_code e' = err_code e) es = Some e"
  by (induction es) (auto simp: err_code_inject)

lemma normalize_known:
  "e \<in> set wire_error_cases \<Longrightarrow> normalize_wire_error_code (err_code e) = e"
  by (simp add: normalize_wire_error_code_def find_err_code)

lemma normalize_unknown:
  assumes "code \<notin> err_code ` set wire_error_cases"
  shows "normalize_wire_error_code code = AUTH_ERR_UNSPECIFIED"
proof -
  have "find (\<lambda>e. err_code e = code) wire_error_cases = None"
    using assms by (auto simp: find_None_iff)
  then show ?thesis by (simp add: normalize_wire_error_code_def)
qed

lemma normalize_in_cases: "normalize_wire_error_code code \<in> set wire_error_cases"
proof (cases "code \<in> err_code ` set wire_error_cases")
  case True
  then show ?thesis by (auto simp: normalize_known)
next
  case False
  then show ?thesis by (simp add: normalize_unknown wire_error_cases_def)
qed

lemma wire_error_cases_is_wire:
  "e \<in> set wire_error_cases \<longleftrightarrow> auth_err_is_wire e \<or> e = AUTH_ERR_UNSPECIFIED"
  by (cases e) (simp_all add: wire_error_cases_def auth_err_is_wire_def word_le_nat_alt)

end
