(* ===== verification/Sodium.thy ===== *)
theory Sodium
  imports Errors
begin

text \<open>
  libsodium, the library \<^verbatim>\<open>c/src/crypto\<close> is written against, as a parameter: a record of the
  functions the code calls, with what the code relies on as the predicate \<open>ristretto255\<close>
  (the group and scalar laws documented for \<^verbatim>\<open>crypto_core_ristretto255_*\<close> and
  \<^verbatim>\<open>crypto_scalarmult_ristretto255*\<close>) and \<open>digest_lengths\<close>. The incremental hash interfaces
  (init, update, final) are functions of the concatenated input.

  \<open>toy_sodium\<close> is a concrete instance that satisfies the laws, with points represented by
  their discrete logarithm; it shows that the hypotheses can hold and lets examples compute.
\<close>

record sodium =
  sd_sha256 :: "byte list \<Rightarrow> byte list"
  sd_sha512 :: "byte list \<Rightarrow> byte list"
  sd_hmacsha256 :: "byte list \<Rightarrow> byte list \<Rightarrow> byte list"
  sd_generichash :: "nat \<Rightarrow> byte list \<Rightarrow> byte list"
  sd_scalar_reduce :: "byte list \<Rightarrow> byte list"
  sd_scalar_add :: "byte list \<Rightarrow> byte list \<Rightarrow> byte list"
  sd_scalar_sub :: "byte list \<Rightarrow> byte list \<Rightarrow> byte list"
  sd_scalar_mul :: "byte list \<Rightarrow> byte list \<Rightarrow> byte list"
  sd_scalarmult_base :: "byte list \<Rightarrow> byte list option"
  sd_scalarmult :: "byte list \<Rightarrow> byte list \<Rightarrow> byte list option"
  sd_add :: "byte list \<Rightarrow> byte list \<Rightarrow> byte list option"
  sd_sub :: "byte list \<Rightarrow> byte list \<Rightarrow> byte list option"
  sd_is_valid_point :: "byte list \<Rightarrow> bool"
  sd_from_hash :: "byte list \<Rightarrow> byte list option"

subsection \<open>Integers as little-endian byte strings\<close>

fun le_int :: "byte list \<Rightarrow> int" where
  "le_int [] = 0"
| "le_int (b # bs) = uint b + 256 * le_int bs"

primrec le_enc :: "nat \<Rightarrow> int \<Rightarrow> byte list" where
  "le_enc 0 k = []"
| "le_enc (Suc n) k = word_of_int k # le_enc n (k div 256)"

lemma length_le_enc [simp]: "length (le_enc n k) = n"
  by (induction n arbitrary: k) simp_all

lemma le_int_le_enc: "le_int (le_enc n k) = k mod 256 ^ n"
proof (induction n arbitrary: k)
  case (Suc n)
  have "uint (word_of_int k :: byte) = k mod 256" by (simp add: uint_word_of_int)
  moreover have "k mod (256 * 256 ^ n) = 256 * (k div 256 mod 256 ^ n) + k mod 256"
    by (rule zmod_zmult2_eq) simp
  ultimately show ?case by (simp add: Suc)
qed simp

lemma le_int_nonneg: "0 \<le> le_int bs"
  by (induction bs) simp_all

lemma le_int_less: "le_int bs < 256 ^ length bs"
proof (induction bs)
  case (Cons b bs)
  have "uint b < 256" using uint_lt2p [of b] by simp
  then show ?case using Cons by simp
qed simp

lemma le_enc_le_int: "length bs = n \<Longrightarrow> le_enc n (le_int bs) = bs"
proof (induction n arbitrary: bs)
  case (Suc n)
  then obtain b r where bs: "bs = b # r" and r: "length r = n" by (auto simp: length_Suc_conv)
  have b: "0 \<le> uint b" "uint b < 256" using uint_lt2p [of b] by simp_all
  have "(uint b + 256 * le_int r) div 256 = le_int r" using b by simp
  moreover have "word_of_int (uint b + 256 * le_int r) = b"
  proof (rule word_uint_eqI)
    show "uint (word_of_int (uint b + 256 * le_int r) :: byte) = uint b"
      unfolding uint_word_of_int using b by simp
  qed
  ultimately show ?case using Suc.IH [OF r] by (simp add: bs)
qed simp

lemma le_int_inject: "length a = length b \<Longrightarrow> le_int a = le_int b \<longleftrightarrow> a = b"
  by (metis le_enc_le_int)

subsection \<open>Scalars\<close>

text \<open>The group order, canonical scalar encodings, and the value the scalar multiplications
  use: libsodium ignores the top bit of the 32-byte scalar.\<close>

definition group_order :: int where
  "group_order = 2 ^ 252 + 27742317777372353535851937790883648493"

definition sc :: "int \<Rightarrow> byte list" where
  "sc k = le_enc 32 (k mod group_order)"

definition canonical :: "byte list \<Rightarrow> bool" where
  "canonical s \<longleftrightarrow> length s = 32 \<and> le_int s < group_order"

definition sval :: "byte list \<Rightarrow> int" where
  "sval s = le_int s mod 2 ^ 255"

lemma group_order_bounds: "0 < group_order" "group_order < 2 ^ 253" "2 ^ 252 < group_order"
  by (simp_all add: group_order_def)

lemma length_sc [simp]: "length (sc k) = 32"
  by (simp add: sc_def)

lemma mod_group_order_small:
  "k mod group_order < 256 ^ 32" "k mod group_order < 2 ^ 255" "0 \<le> k mod group_order"
proof -
  have "k mod group_order < group_order" and nn: "0 \<le> k mod group_order"
    using group_order_bounds by simp_all
  moreover have "(2 :: int) ^ 253 \<le> 256 ^ 32" and "(2 :: int) ^ 253 \<le> 2 ^ 255" by simp_all
  ultimately show "k mod group_order < 256 ^ 32" "k mod group_order < 2 ^ 255"
    using group_order_bounds(2) by linarith+
  show "0 \<le> k mod group_order" by (rule nn)
qed

lemma le_int_sc [simp]: "le_int (sc k) = k mod group_order"
  using mod_group_order_small [of k] by (simp add: sc_def le_int_le_enc)

lemma sval_sc [simp]: "sval (sc k) = k mod group_order"
  using mod_group_order_small [of k] by (simp add: sval_def)

lemma sc_eq_iff: "sc j = sc k \<longleftrightarrow> j mod group_order = k mod group_order"
  using le_int_sc by (metis sc_def)

lemma canonical_sc [simp]: "canonical (sc k)"
  using group_order_bounds by (simp add: canonical_def)

lemma canonical_iff: "canonical s \<longleftrightarrow> (\<exists>k. s = sc k)"
proof
  assume "canonical s"
  then have "s = sc (le_int s)"
    by (simp add: canonical_def sc_def le_enc_le_int le_int_nonneg)
  then show "\<exists>k. s = sc k" ..
qed auto

lemma sval_canonical: "canonical s \<Longrightarrow> sval s = le_int s"
  by (auto simp: canonical_iff)

subsection \<open>Laws\<close>

definition digest_lengths :: "sodium \<Rightarrow> bool" where
  "digest_lengths S \<longleftrightarrow>
     (\<forall>m. length (sd_sha256 S m) = 32) \<and> (\<forall>m. length (sd_sha512 S m) = 64) \<and>
     (\<forall>k m. length (sd_hmacsha256 S k m) = 32) \<and> (\<forall>n m. length (sd_generichash S n m) = n)"

text \<open>\<open>enc k\<close> is the encoding of the \<open>k\<close>-fold multiple of the base point. Multiplication fails
  on an invalid point and when the result is the identity; addition and subtraction fail on
  invalid points only.\<close>

definition encoding_laws :: "sodium \<Rightarrow> (int \<Rightarrow> byte list) \<Rightarrow> bool" where
  "encoding_laws S enc \<longleftrightarrow>
     (\<forall>k. length (enc k) = 32) \<and> enc 0 = replicate 32 0 \<and>
     (\<forall>j k. enc j = enc k \<longleftrightarrow> j mod group_order = k mod group_order) \<and>
     (\<forall>p. sd_is_valid_point S p \<longleftrightarrow> p \<in> range enc)"

definition multiplication_laws :: "sodium \<Rightarrow> (int \<Rightarrow> byte list) \<Rightarrow> bool" where
  "multiplication_laws S enc \<longleftrightarrow>
     (\<forall>s. length s = 32 \<longrightarrow>
        sd_scalarmult_base S s = (if enc (sval s) = enc 0 then None else Some (enc (sval s)))) \<and>
     (\<forall>s k. length s = 32 \<longrightarrow>
        sd_scalarmult S s (enc k) = (if enc (sval s * k) = enc 0 then None else Some (enc (sval s * k)))) \<and>
     (\<forall>s p. p \<notin> range enc \<longrightarrow> sd_scalarmult S s p = None)"

definition addition_laws :: "sodium \<Rightarrow> (int \<Rightarrow> byte list) \<Rightarrow> bool" where
  "addition_laws S enc \<longleftrightarrow>
     (\<forall>j k. sd_add S (enc j) (enc k) = Some (enc (j + k))) \<and>
     (\<forall>j k. sd_sub S (enc j) (enc k) = Some (enc (j - k))) \<and>
     (\<forall>p q. p \<notin> range enc \<or> q \<notin> range enc \<longrightarrow> sd_add S p q = None \<and> sd_sub S p q = None) \<and>
     (\<forall>w. \<exists>k. sd_from_hash S w = Some (enc k))"

definition scalar_laws :: "sodium \<Rightarrow> bool" where
  "scalar_laws S \<longleftrightarrow>
     (\<forall>w. length w = 64 \<longrightarrow> sd_scalar_reduce S w = sc (le_int w)) \<and>
     (\<forall>a b. length a = 32 \<longrightarrow> length b = 32 \<longrightarrow> le_int a + le_int b < 2 ^ 256 \<longrightarrow>
        sd_scalar_add S a b = sc (le_int a + le_int b)) \<and>
     (\<forall>a b. canonical a \<longrightarrow> canonical b \<longrightarrow> sd_scalar_sub S a b = sc (le_int a - le_int b)) \<and>
     (\<forall>a b. length a = 32 \<longrightarrow> length b = 32 \<longrightarrow> sd_scalar_mul S a b = sc (le_int a * le_int b))"

definition ristretto255 :: "sodium \<Rightarrow> (int \<Rightarrow> byte list) \<Rightarrow> bool" where
  "ristretto255 S enc \<longleftrightarrow>
     digest_lengths S \<and> encoding_laws S enc \<and> multiplication_laws S enc \<and> addition_laws S enc \<and>
     scalar_laws S"

lemma ristretto255_digests: "ristretto255 S enc \<Longrightarrow> digest_lengths S"
  and ristretto255_encoding: "ristretto255 S enc \<Longrightarrow> encoding_laws S enc"
  and ristretto255_mult: "ristretto255 S enc \<Longrightarrow> multiplication_laws S enc"
  and ristretto255_addition: "ristretto255 S enc \<Longrightarrow> addition_laws S enc"
  and ristretto255_scalars: "ristretto255 S enc \<Longrightarrow> scalar_laws S"
  by (simp_all add: ristretto255_def)

subsection \<open>An instance\<close>

definition toy_enc :: "int \<Rightarrow> byte list" where
  "toy_enc k = sc k"

definition toy_valid :: "byte list \<Rightarrow> bool" where
  "toy_valid p \<longleftrightarrow> length p = 32 \<and> le_int p < group_order"

definition toy_nonzero :: "byte list \<Rightarrow> byte list option" where
  "toy_nonzero p = (if p = replicate 32 0 then None else Some p)"

text \<open>A stand-in for a hash function: position-weighted sums of the input, of the right length.\<close>

definition toy_hash :: "nat \<Rightarrow> byte list \<Rightarrow> byte list" where
  "toy_hash n m = le_enc n (foldl (\<lambda>h b. h * 257 + uint b + 1) 5 m)"

definition toy_sodium :: sodium where
  "toy_sodium =
     \<lparr>sd_sha256 = toy_hash 32, sd_sha512 = toy_hash 64,
      sd_hmacsha256 = (\<lambda>k m. toy_hash 32 (k @ m)), sd_generichash = toy_hash,
      sd_scalar_reduce = (\<lambda>w. sc (le_int w)),
      sd_scalar_add = (\<lambda>a b. sc (le_int a + le_int b)),
      sd_scalar_sub = (\<lambda>a b. sc (le_int a - le_int b)),
      sd_scalar_mul = (\<lambda>a b. sc (le_int a * le_int b)),
      sd_scalarmult_base = (\<lambda>s. toy_nonzero (toy_enc (sval s))),
      sd_scalarmult = (\<lambda>s p. if toy_valid p then toy_nonzero (toy_enc (sval s * le_int p)) else None),
      sd_add = (\<lambda>p q. if toy_valid p \<and> toy_valid q then Some (toy_enc (le_int p + le_int q)) else None),
      sd_sub = (\<lambda>p q. if toy_valid p \<and> toy_valid q then Some (toy_enc (le_int p - le_int q)) else None),
      sd_is_valid_point = toy_valid,
      sd_from_hash = (\<lambda>w. Some (toy_enc 9))\<rparr>"

lemma toy_valid_iff: "toy_valid p \<longleftrightarrow> p \<in> range toy_enc"
  using canonical_iff [of p] by (auto simp: canonical_def toy_valid_def toy_enc_def)

lemma replicate_zero_sc: "replicate 32 0 = sc 0"
proof -
  have "le_enc n 0 = replicate n 0" for n by (induction n) simp_all
  then show ?thesis by (simp add: sc_def)
qed

lemma toy_ristretto255: "ristretto255 toy_sodium toy_enc"
proof -
  have "digest_lengths toy_sodium" by (simp add: digest_lengths_def toy_sodium_def toy_hash_def)
  moreover have "encoding_laws toy_sodium toy_enc"
    by (auto simp: encoding_laws_def toy_sodium_def toy_valid_iff toy_enc_def replicate_zero_sc sc_eq_iff)
  moreover have "sc (sval s * (k mod group_order)) = sc (sval s * k)" for s k
    by (simp add: sc_eq_iff mod_mult_right_eq)
  then have "multiplication_laws toy_sodium toy_enc"
    by (auto simp: multiplication_laws_def toy_sodium_def toy_valid_iff toy_nonzero_def toy_enc_def
        replicate_zero_sc)
  moreover have "addition_laws toy_sodium toy_enc"
    by (auto simp: addition_laws_def toy_sodium_def toy_valid_iff toy_enc_def sc_eq_iff mod_add_eq
        mod_diff_eq)
  moreover have "scalar_laws toy_sodium" by (simp add: scalar_laws_def toy_sodium_def)
  ultimately show ?thesis by (simp add: ristretto255_def)
qed

end
