(* ===== verification/Crypto.thy ===== *)
theory Crypto
  imports Sodium
begin

text \<open>
  \<^verbatim>\<open>c/src/crypto/crypto.c\<close>: validation of points and scalars, point and scalar arithmetic,
  hash-to-point, HKDF-SHA256 composed from HMAC, MAC tags and the device derivations, over the
  libsodium parameter \<open>S\<close>. Bytes drawn from the random generator are an argument. Wiping of
  local secrets has no functional effect and is not represented.
\<close>

definition ascii :: "string \<Rightarrow> byte list" where
  "ascii s = map of_char s"

subsection \<open>Initialisation and randomness\<close>

text \<open>\<^verbatim>\<open>g_initialized\<close> is the state; \<open>sodium_init_ok\<close> says that \<^verbatim>\<open>sodium_init()\<close> is not negative.\<close>

definition auth_init :: "bool \<Rightarrow> bool \<Rightarrow> auth_err \<times> bool" where
  "auth_init sodium_init_ok g_initialized =
     (if g_initialized then (AUTH_OK, g_initialized)
      else if \<not> sodium_init_ok then (AUTH_ERR_UNSPECIFIED, g_initialized)
      else (AUTH_OK, True))"

definition auth_scalar_from_wide :: "sodium \<Rightarrow> byte list \<Rightarrow> byte list" where
  "auth_scalar_from_wide S wide = sd_scalar_reduce S wide"

definition auth_random_scalar :: "sodium \<Rightarrow> byte list \<Rightarrow> byte list" where
  "auth_random_scalar S wide = sd_scalar_reduce S wide"

subsection \<open>Validation\<close>

definition auth_check_point :: "sodium \<Rightarrow> byte list \<Rightarrow> (auth_err, unit) cres" where
  "auth_check_point S point =
     (if point = replicate 32 0 then Fail AUTH_ERR_IDENTITY_POINT
      else if \<not> sd_is_valid_point S point then Fail AUTH_ERR_INVALID_POINT
      else Ret ())"

definition auth_check_scalar :: "sodium \<Rightarrow> byte list \<Rightarrow> (auth_err, unit) cres" where
  "auth_check_scalar S scalar =
     (let wide = take 32 scalar @ replicate 32 0; reduced = sd_scalar_reduce S wide
      in if reduced = scalar then Ret () else Fail AUTH_ERR_NONCANONICAL_SCALAR)"

subsection \<open>Arithmetic\<close>

definition point_result :: "byte list option \<Rightarrow> (auth_err, byte list) cres" where
  "point_result r = (case r of None \<Rightarrow> Fail AUTH_ERR_INVALID_POINT | Some p \<Rightarrow> Ret p)"

definition auth_scalarmult_base :: "sodium \<Rightarrow> byte list \<Rightarrow> (auth_err, byte list) cres" where
  "auth_scalarmult_base S scalar = point_result (sd_scalarmult_base S scalar)"

definition auth_scalarmult :: "sodium \<Rightarrow> byte list \<Rightarrow> byte list \<Rightarrow> (auth_err, byte list) cres" where
  "auth_scalarmult S scalar point = point_result (sd_scalarmult S scalar point)"

definition auth_point_add :: "sodium \<Rightarrow> byte list \<Rightarrow> byte list \<Rightarrow> (auth_err, byte list) cres" where
  "auth_point_add S a b = point_result (sd_add S a b)"

definition auth_point_sub :: "sodium \<Rightarrow> byte list \<Rightarrow> byte list \<Rightarrow> (auth_err, byte list) cres" where
  "auth_point_sub S a b = point_result (sd_sub S a b)"

definition auth_scalar_add :: "sodium \<Rightarrow> byte list \<Rightarrow> byte list \<Rightarrow> byte list" where
  "auth_scalar_add S a b = sd_scalar_add S a b"

definition auth_scalar_sub :: "sodium \<Rightarrow> byte list \<Rightarrow> byte list \<Rightarrow> byte list" where
  "auth_scalar_sub S a b = sd_scalar_sub S a b"

definition auth_scalar_mul :: "sodium \<Rightarrow> byte list \<Rightarrow> byte list \<Rightarrow> byte list" where
  "auth_scalar_mul S a b = sd_scalar_mul S a b"

definition auth_scalar_from_u64 :: "u64 \<Rightarrow> byte list" where
  "auth_scalar_from_u64 v =
     foldl (\<lambda>out i. out[i := ucast (drop_bit (8 * i) v)]) (replicate 32 0) [0..<8]"

subsection \<open>Hash to point\<close>

definition auth_hash_to_point :: "sodium \<Rightarrow> byte list \<Rightarrow> (auth_err, byte list) cres" where
  "auth_hash_to_point S label =
     (let wide = sd_sha512 S (ascii ''ristretto-hash-to-point-v1'' @ label)
      in point_result (sd_from_hash S wide))"

definition auth_attr_h :: "sodium \<Rightarrow> (auth_err, byte list) cres" where
  "auth_attr_h S = auth_hash_to_point S (ascii ''iot-auth/attr-h/v1'')"

subsection \<open>HKDF-SHA256\<close>

text \<open>\<^verbatim>\<open>if (len) update(&st, p, len)\<close>: the bytes the pointer contributes to the hash input.\<close>

definition feed :: "byte list option \<Rightarrow> nat \<Rightarrow> (auth_err, byte list) cres" where
  "feed p n =
     (if n = 0 then Ret [] else case p of None \<Rightarrow> Fault | Some b \<Rightarrow> rdn b 0 n)"

text \<open>The loop \<^verbatim>\<open>while (written < okm_len)\<close>; \<open>t\<close> is \<^verbatim>\<open>t[0 .. t_len)\<close>.\<close>

function hkdf_expand ::
    "sodium \<Rightarrow> byte list \<Rightarrow> byte list \<Rightarrow> byte list \<Rightarrow> nat \<Rightarrow> byte list \<Rightarrow> byte \<Rightarrow> (auth_err, byte list) cres" where
  "hkdf_expand S prk info okm written t counter =
     (if written < length okm then
        let t' = sd_hmacsha256 S prk (t @ info @ [counter]);
            to_copy = (if length okm - written < 32 then length okm - written else 32)
        in (case wrn okm written t' to_copy of
              Ret okm' \<Rightarrow> hkdf_expand S prk info okm' (written + to_copy) t' (counter + 1)
            | Fail e \<Rightarrow> Fail e
            | Fault \<Rightarrow> Fault)
      else Ret okm)"
  by pat_completeness auto
termination
  by (relation "measure (\<lambda>(S, prk, info, okm, written, t, counter). length okm - written)")
    (auto dest: wrn_length split: if_splits)

definition auth_hkdf_sha256 ::
    "sodium \<Rightarrow> byte list option \<Rightarrow> byte list option \<Rightarrow> nat \<Rightarrow> byte list option \<Rightarrow> nat \<Rightarrow>
     byte list option \<Rightarrow> nat \<Rightarrow> (auth_err, byte list) cres" where
  "auth_hkdf_sha256 S okm salt salt_len ikm ikm_len info info_len =
     (if okm = None \<or> length (the okm) = 0 then Fail AUTH_ERR_INVALID_ARGUMENT
      else if ikm = None \<and> ikm_len > 0 then Fail AUTH_ERR_INVALID_ARGUMENT
      else if info = None \<and> info_len > 0 then Fail AUTH_ERR_INVALID_ARGUMENT
      else if length (the okm) > 255 * 32 then Fail AUTH_ERR_INVALID_ARGUMENT
      else
        bnd (if salt = None \<or> salt_len = 0 then Ret (replicate 32 0)
             else rdn (the salt) 0 salt_len) (\<lambda>salt.
        bnd (feed ikm ikm_len) (\<lambda>ikm.
        bnd (feed info info_len) (\<lambda>info.
        let prk = sd_hmacsha256 S salt ikm
        in hkdf_expand S prk info (the okm) 0 [] 1))))"

definition auth_hmac_tag :: "sodium \<Rightarrow> byte list \<Rightarrow> byte list \<Rightarrow> byte list \<Rightarrow> byte list" where
  "auth_hmac_tag S key label th = sd_hmacsha256 S key (label @ th)"

subsection \<open>Device derivations\<close>

definition auth_derive_device_id :: "sodium \<Rightarrow> byte list \<Rightarrow> byte list" where
  "auth_derive_device_id S root = sd_generichash S 32 (ascii ''device-id'' @ root)"

definition auth_derive_device_scalar :: "sodium \<Rightarrow> byte list \<Rightarrow> byte list" where
  "auth_derive_device_scalar S root =
     (let wide = sd_generichash S 64 (ascii ''device-auth-v1'' @ root) in sd_scalar_reduce S wide)"

subsection \<open>The group laws at the level of the wrappers\<close>

named_theorems group_simps \<open>arithmetic of points and scalars under the libsodium laws\<close>

lemma of_char_inject_byte: "(of_char a :: byte) = of_char b \<longleftrightarrow> a = b"
proof
  assume "(of_char a :: byte) = of_char b"
  then have "(word_of_nat (of_char a) :: byte) = word_of_nat (of_char b)" by (simp only: of_nat_of_char)
  then have "(of_char a :: nat) mod 256 = of_char b mod 256"
    by (simp add: word_of_nat_eq_iff take_bit_eq_mod)
  then show "a = b" by simp
qed simp

lemma ascii_inject [simp]: "ascii s = ascii t \<longleftrightarrow> s = t"
  by (simp add: ascii_def inj_map_eq_map inj_def of_char_inject_byte)

lemma length_ascii [simp]: "length (ascii s) = length s"
  by (simp add: ascii_def)

text \<open>Reductions nested inside a sum of products.\<close>

lemma mod_nested:
  "(x + a * (y mod n)) mod n = (x + a * y) mod n"
  "(x + (y mod n) * a) mod n = (x + y * a) mod n"
  "(a * (y mod n) + x) mod n = (a * y + x) mod n"
  "((y mod n) * a + x) mod n = (y * a + x) mod n" for n :: int
  by (metis mod_add_right_eq mod_mult_right_eq, metis mod_add_right_eq mod_mult_left_eq,
      metis mod_add_left_eq mod_mult_right_eq, metis mod_add_left_eq mod_mult_left_eq)

lemma base_mult [group_simps]:
  "ristretto255 S enc \<Longrightarrow> length s = 32 \<Longrightarrow>
   auth_scalarmult_base S s =
     (if enc (sval s) = enc 0 then Fail AUTH_ERR_INVALID_POINT else Ret (enc (sval s)))"
  by (drule ristretto255_mult) (simp add: multiplication_laws_def auth_scalarmult_base_def point_result_def)

lemma point_mult [group_simps]:
  "ristretto255 S enc \<Longrightarrow> length s = 32 \<Longrightarrow>
   auth_scalarmult S s (enc k) =
     (if enc (sval s * k) = enc 0 then Fail AUTH_ERR_INVALID_POINT else Ret (enc (sval s * k)))"
  by (drule ristretto255_mult) (simp add: multiplication_laws_def auth_scalarmult_def point_result_def)

lemma point_mult_invalid:
  "ristretto255 S enc \<Longrightarrow> p \<notin> range enc \<Longrightarrow> auth_scalarmult S s p = Fail AUTH_ERR_INVALID_POINT"
  by (drule ristretto255_mult) (simp add: multiplication_laws_def auth_scalarmult_def point_result_def)

lemma points_add [group_simps]:
  "ristretto255 S enc \<Longrightarrow> auth_point_add S (enc j) (enc k) = Ret (enc (j + k))"
  by (drule ristretto255_addition) (simp add: addition_laws_def auth_point_add_def point_result_def)

lemma points_sub [group_simps]:
  "ristretto255 S enc \<Longrightarrow> auth_point_sub S (enc j) (enc k) = Ret (enc (j - k))"
  by (drule ristretto255_addition) (simp add: addition_laws_def auth_point_sub_def point_result_def)

lemma points_add_invalid:
  "ristretto255 S enc \<Longrightarrow> p \<notin> range enc \<or> q \<notin> range enc \<Longrightarrow>
   auth_point_add S p q = Fail AUTH_ERR_INVALID_POINT"
  by (drule ristretto255_addition) (simp add: addition_laws_def auth_point_add_def point_result_def)

lemma points_sub_invalid:
  "ristretto255 S enc \<Longrightarrow> p \<notin> range enc \<or> q \<notin> range enc \<Longrightarrow>
   auth_point_sub S p q = Fail AUTH_ERR_INVALID_POINT"
  by (drule ristretto255_addition) (simp add: addition_laws_def auth_point_sub_def point_result_def)

lemma enc_eq_iff:
  "ristretto255 S enc \<Longrightarrow> enc j = enc k \<longleftrightarrow> j mod group_order = k mod group_order"
  by (drule ristretto255_encoding) (simp add: encoding_laws_def)

lemma length_enc [simp]: "ristretto255 S enc \<Longrightarrow> length (enc k) = 32"
  by (drule ristretto255_encoding) (simp add: encoding_laws_def)

lemma enc_zero: "ristretto255 S enc \<Longrightarrow> enc 0 = replicate 32 0"
  by (drule ristretto255_encoding) (simp add: encoding_laws_def)

lemma valid_point_iff: "ristretto255 S enc \<Longrightarrow> sd_is_valid_point S p \<longleftrightarrow> p \<in> range enc"
  by (drule ristretto255_encoding) (simp add: encoding_laws_def)

lemma reduce_sc [group_simps]:
  "ristretto255 S enc \<Longrightarrow> length w = 64 \<Longrightarrow> sd_scalar_reduce S w = sc (le_int w)"
  by (drule ristretto255_scalars) (simp add: scalar_laws_def)

lemma scalar_mul_sc [group_simps]:
  "ristretto255 S enc \<Longrightarrow> length a = 32 \<Longrightarrow> length b = 32 \<Longrightarrow>
   auth_scalar_mul S a b = sc (le_int a * le_int b)"
  by (drule ristretto255_scalars) (simp add: scalar_laws_def auth_scalar_mul_def)

lemma canonical_sum_small: "canonical a \<Longrightarrow> canonical b \<Longrightarrow> le_int a + le_int b < 2 ^ 256"
  by (simp add: canonical_def group_order_def)

lemma scalar_add_sc [group_simps]:
  assumes "ristretto255 S enc" and "canonical a" and "canonical b"
  shows "auth_scalar_add S a b = sc (le_int a + le_int b)"
  using ristretto255_scalars [OF assms(1)] canonical_sum_small [OF assms(2,3)] assms(2,3)
  by (simp only: scalar_laws_def auth_scalar_add_def canonical_def)

lemma scalar_sub_sc [group_simps]:
  "ristretto255 S enc \<Longrightarrow> canonical a \<Longrightarrow> canonical b \<Longrightarrow>
   auth_scalar_sub S a b = sc (le_int a - le_int b)"
  by (drule ristretto255_scalars) (simp add: scalar_laws_def auth_scalar_sub_def)

lemma sodium_digests:
  "ristretto255 S enc \<Longrightarrow> length (sd_sha512 S m) = 64"
  "ristretto255 S enc \<Longrightarrow> length (sd_sha256 S m) = 32"
  "ristretto255 S enc \<Longrightarrow> length (sd_hmacsha256 S k m) = 32"
  "ristretto255 S enc \<Longrightarrow> length (sd_generichash S n m) = n"
  by (drule ristretto255_digests, simp add: digest_lengths_def)+

lemma attr_h_enc:
  assumes "ristretto255 S enc"
  obtains k where "auth_attr_h S = Ret (enc k)"
proof -
  let ?w = "sd_sha512 S (ascii ''ristretto-hash-to-point-v1'' @ ascii ''iot-auth/attr-h/v1'')"
  obtain k where "sd_from_hash S ?w = Some (enc k)"
    using ristretto255_addition [OF assms] unfolding addition_laws_def by blast
  then have "auth_attr_h S = Ret (enc k)"
    by (simp add: auth_attr_h_def auth_hash_to_point_def point_result_def)
  then show thesis by (rule that)
qed

lemma from_u64_eq: "auth_scalar_from_u64 v = le_bytes 8 v @ replicate 24 0"
proof -
  have *: "foldl (\<lambda>out i. out[i := f i]) (replicate n 0) [0..<k] = map f [0..<k] @ replicate (n - k) 0"
    if "k \<le> n" for f :: "nat \<Rightarrow> byte" and n k
    using that
  proof (induction k)
    case (Suc k)
    then have "n - k = Suc (n - Suc k)" by simp
    then show ?case using Suc by (simp add: list_update_append)
  qed simp
  show ?thesis unfolding auth_scalar_from_u64_def le_bytes_def by (subst *) simp_all
qed

subsection \<open>HKDF\<close>

text \<open>RFC 5869: \<open>T(0)\<close> is empty, \<open>T(i) = HMAC(PRK, T(i-1) | info | i)\<close>, and the output is the
  first \<open>n\<close> bytes of \<open>T(1) | T(2) | \<dots>\<close>.\<close>

primrec hkdf_T :: "sodium \<Rightarrow> byte list \<Rightarrow> byte list \<Rightarrow> nat \<Rightarrow> byte list" where
  "hkdf_T S prk info 0 = []"
| "hkdf_T S prk info (Suc i) = sd_hmacsha256 S prk (hkdf_T S prk info i @ info @ [of_nat (Suc i)])"

definition rfc5869 :: "sodium \<Rightarrow> byte list \<Rightarrow> byte list \<Rightarrow> byte list \<Rightarrow> nat \<Rightarrow> byte list" where
  "rfc5869 S salt ikm info n =
     take n (concat (map (hkdf_T S (sd_hmacsha256 S salt ikm) info) [1..<Suc ((n + 31) div 32)]))"

declare hkdf_expand.simps [simp del]

lemma hkdf_expand_blocks:
  assumes hmac: "\<And>k m. length (sd_hmacsha256 S k m) = 32"
    and "32 * n \<le> length okm" and "length okm \<le> 32 * (n + m)"
  shows "hkdf_expand S prk info okm (32 * n) (hkdf_T S prk info n) (of_nat (Suc n)) =
    Ret (take (32 * n) okm @
         take (length okm - 32 * n) (concat (map (hkdf_T S prk info) [Suc n..<Suc (n + m)])))"
  using assms(2,3)
proof (induction m arbitrary: n okm)
  case 0
  then show ?case by (subst hkdf_expand.simps) simp
next
  case (Suc m)
  let ?T = "hkdf_T S prk info"
  have len: "length (?T (Suc n)) = 32" by (simp add: hmac)
  have cat: "concat (map ?T [Suc n..<Suc (n + Suc m)]) =
      ?T (Suc n) @ concat (map ?T [Suc (Suc n)..<Suc (Suc n + m)])"
    by (subst upt_conv_Cons) simp_all
  consider "length okm = 32 * n" | "32 * n < length okm" "length okm < 32 * Suc n"
    | "32 * Suc n \<le> length okm" using Suc.prems by linarith
  then show ?case
  proof cases
    case 1
    then show ?thesis by (subst hkdf_expand.simps) simp
  next
    case 2
    let ?k = "length okm - 32 * n"
    have "wrn okm (32 * n) (?T (Suc n)) ?k =
        (Ret (take (32 * n) okm @ take ?k (?T (Suc n))) :: (auth_err, byte list) cres)"
      using 2 len by (simp add: wrn_def)
    moreover have "?k < 32" using 2 by simp
    ultimately show ?thesis
      using 2 len unfolding cat
      by (subst hkdf_expand.simps) (simp add: Let_def, simp add: hkdf_expand.simps)
  next
    case 3
    let ?okm = "take (32 * n) okm @ ?T (Suc n) @ drop (32 * Suc n) okm"
    have "wrn okm (32 * n) (?T (Suc n)) 32 = (Ret ?okm :: (auth_err, byte list) cres)"
      using 3 len by (simp add: wrn_def add.commute)
    moreover have "\<not> length okm - 32 * n < 32" using 3 by simp
    ultimately have "hkdf_expand S prk info okm (32 * n) (?T n) (of_nat (Suc n)) =
        hkdf_expand S prk info ?okm (32 * Suc n) (?T (Suc n)) (of_nat (Suc (Suc n)))"
      using 3 by (subst hkdf_expand.simps) (simp add: Let_def add.commute)
    also have "\<dots> = Ret (take (32 * Suc n) ?okm @ take (length ?okm - 32 * Suc n)
        (concat (map ?T [Suc (Suc n)..<Suc (Suc n + m)])))"
      using 3 len Suc.prems by (intro Suc.IH) simp_all
    finally show ?thesis using 3 len unfolding cat
      by (simp add: add.commute del: upt_Suc hkdf_T.simps)
  qed
qed

lemma hkdf_rfc5869:
  assumes "digest_lengths S" and "okm \<noteq> []" and "length okm \<le> 255 * 32" and "salt \<noteq> []"
  shows "auth_hkdf_sha256 S (Some okm) (Some salt) (length salt) (Some ikm) (length ikm)
      (Some info) (length info) = Ret (rfc5869 S salt ikm info (length okm))"
proof -
  let ?m = "(length okm + 31) div 32"
  have "hkdf_expand S (sd_hmacsha256 S salt ikm) info okm 0 [] 1 =
      Ret (take (length okm) (concat (map (hkdf_T S (sd_hmacsha256 S salt ikm) info) [1..<Suc ?m])))"
    using hkdf_expand_blocks [of S 0 okm ?m "sd_hmacsha256 S salt ikm" info] assms(1)
    by (simp add: digest_lengths_def)
  moreover have "feed (Some b) (length b) = Ret b" for b by (simp add: feed_def rdn_def)
  ultimately show ?thesis
    using assms by (simp add: auth_hkdf_sha256_def rdn_def rfc5869_def Let_def del: upt_Suc)
qed

lemma length_rfc5869:
  assumes "digest_lengths S"
  shows "length (rfc5869 S salt ikm info n) = n"
proof -
  have "length (concat (map (hkdf_T S prk info) [1..<Suc m])) = 32 * m" for prk m
    using assms by (induction m) (simp_all add: digest_lengths_def)
  then show ?thesis by (simp add: rfc5869_def)
qed

end
