(* ===== verification/Transcript.thy ===== *)
theory Transcript
  imports Crypto
begin

text \<open>
  \<^verbatim>\<open>c/src/crypto/transcript.c\<close>: the append-only Fiat-Shamir transcript in a fixed buffer, its
  challenge and hash, and the pseudonymous identifier. A call returns its error code together
  with the transcript it leaves, because a failed append changes the transcript too (the
  sticky overflow flag).
\<close>

abbreviation (input) AUTH_TRANSCRIPT_CAP :: nat where "AUTH_TRANSCRIPT_CAP \<equiv> 4096"

record auth_transcript =
  tr_buf :: "byte list"
  tr_len :: nat
  tr_overflow :: bool

type_synonym tr_result = "(auth_err, auth_err \<times> auth_transcript) cres"

subsection \<open>Domain separators\<close>

definition auth_ds_setup :: "byte list" where "auth_ds_setup = ascii ''setup_client_schnorr_v1''"
definition auth_ds_setup_server :: "byte list" where "auth_ds_setup_server = ascii ''setup_server_schnorr_v1''"
definition auth_ds_server :: "byte list" where "auth_ds_server = ascii ''server_schnorr_v1''"
definition auth_ds_pid :: "byte list" where "auth_ds_pid = ascii ''iot-auth/pid/v1''"
definition auth_ds_client_v2 :: "byte list" where "auth_ds_client_v2 = ascii ''client_schnorr_v2''"
definition auth_ds_kc_v2 :: "byte list" where "auth_ds_kc_v2 = ascii ''kc_v2''"
definition auth_ds_role_set :: "byte list" where "auth_ds_role_set = ascii ''client_role_set_v1''"
definition auth_ds_role_rerand :: "byte list" where "auth_ds_role_rerand = ascii ''client_role_rerand_v1''"

lemmas domain_defs = auth_ds_setup_def auth_ds_setup_server_def auth_ds_server_def auth_ds_pid_def
  auth_ds_client_v2_def auth_ds_kc_v2_def auth_ds_role_set_def auth_ds_role_rerand_def

subsection \<open>Appending\<close>

definition append_bytes ::
    "auth_transcript \<Rightarrow> byte list \<Rightarrow> nat \<Rightarrow> (auth_err, bool \<times> auth_transcript) cres" where
  "append_bytes t b n =
     (if tr_overflow t then Ret (False, t)
      else if tr_len t + n > AUTH_TRANSCRIPT_CAP then Ret (False, t\<lparr>tr_overflow := True\<rparr>)
      else bnd (wrn (tr_buf t) (tr_len t) b n) (\<lambda>buf.
           Ret (True, t\<lparr>tr_buf := buf, tr_len := tr_len t + n\<rparr>)))"

definition auth_transcript_init :: "auth_transcript \<Rightarrow> byte list option \<Rightarrow> nat \<Rightarrow> tr_result" where
  "auth_transcript_init t domain domain_len =
     (if (domain = None \<and> domain_len > 0) \<or> domain_len > 255 then Ret (AUTH_ERR_INVALID_ARGUMENT, t)
      else
        bnd (append_bytes (t\<lparr>tr_len := 0, tr_overflow := False\<rparr>) [of_nat domain_len] 1) (\<lambda>(ok, t).
        if \<not> ok then Ret (AUTH_ERR_BUFFER_TOO_SMALL, t)
        else bnd (if domain_len \<noteq> 0 then append_bytes t (the domain) domain_len else Ret (True, t)) (\<lambda>(ok, t).
        if \<not> ok then Ret (AUTH_ERR_BUFFER_TOO_SMALL, t) else Ret (AUTH_OK, t))))"

definition auth_transcript_append ::
    "auth_transcript \<Rightarrow> byte list option \<Rightarrow> nat \<Rightarrow> byte list option \<Rightarrow> nat \<Rightarrow> tr_result" where
  "auth_transcript_append t label label_len msg msg_len =
     (if label = None \<or> label_len > 255 then Ret (AUTH_ERR_INVALID_ARGUMENT, t)
      else if msg_len > 0xFFFFFFFF then Ret (AUTH_ERR_INVALID_ARGUMENT, t)
      else if msg = None \<and> msg_len > 0 then Ret (AUTH_ERR_INVALID_ARGUMENT, t)
      else
        let n = (of_nat msg_len :: u64);
            len_le = [ucast (n AND 0xff), ucast (drop_bit 8 n AND 0xff),
                      ucast (drop_bit 16 n AND 0xff), ucast (drop_bit 24 n AND 0xff)] in
        bnd (append_bytes t [of_nat label_len] 1) (\<lambda>(ok, t).
        if \<not> ok then Ret (AUTH_ERR_BUFFER_TOO_SMALL, t) else
        bnd (if label_len \<noteq> 0 then append_bytes t (the label) label_len else Ret (True, t)) (\<lambda>(ok, t).
        if \<not> ok then Ret (AUTH_ERR_BUFFER_TOO_SMALL, t) else
        bnd (append_bytes t len_le 4) (\<lambda>(ok, t).
        if \<not> ok then Ret (AUTH_ERR_BUFFER_TOO_SMALL, t) else
        bnd (if msg_len \<noteq> 0 then append_bytes t (the msg) msg_len else Ret (True, t)) (\<lambda>(ok, t).
        if \<not> ok then Ret (AUTH_ERR_BUFFER_TOO_SMALL, t) else Ret (AUTH_OK, t))))))"

definition auth_transcript_append_u8 :: "auth_transcript \<Rightarrow> byte list \<Rightarrow> byte \<Rightarrow> tr_result" where
  "auth_transcript_append_u8 t label v =
     auth_transcript_append t (Some label) (length label) (Some [v]) 1"

definition auth_transcript_append_u64 :: "auth_transcript \<Rightarrow> byte list \<Rightarrow> u64 \<Rightarrow> tr_result" where
  "auth_transcript_append_u64 t label v =
     auth_transcript_append t (Some label) (length label)
       (Some (map (\<lambda>i. ucast (drop_bit (8 * i) v)) [0..<8])) 8"

definition auth_transcript_append_point :: "auth_transcript \<Rightarrow> byte list \<Rightarrow> byte list \<Rightarrow> tr_result" where
  "auth_transcript_append_point t label point =
     auth_transcript_append t (Some label) (length label) (Some point) 32"

definition auth_transcript_append_scalar :: "auth_transcript \<Rightarrow> byte list \<Rightarrow> byte list \<Rightarrow> tr_result" where
  "auth_transcript_append_scalar t label scalar =
     auth_transcript_append t (Some label) (length label) (Some scalar) 32"

text \<open>\<^verbatim>\<open>err = ...; if (err) return err;\<close>\<close>

definition tr_then :: "tr_result \<Rightarrow> (auth_transcript \<Rightarrow> (auth_err, 'b) cres) \<Rightarrow> (auth_err, 'b) cres" where
  "tr_then r k = bnd r (\<lambda>(err, t). if err \<noteq> AUTH_OK then Fail err else k t)"

subsection \<open>Challenge, hash and pseudonym\<close>

definition auth_transcript_challenge :: "sodium \<Rightarrow> auth_transcript \<Rightarrow> (auth_err, byte list) cres" where
  "auth_transcript_challenge S t =
     (if tr_overflow t then Fail AUTH_ERR_BUFFER_TOO_SMALL
      else bnd (rdn (tr_buf t) 0 (tr_len t)) (\<lambda>b. Ret (sd_scalar_reduce S (sd_sha512 S b))))"

definition auth_transcript_hash_sha256 :: "sodium \<Rightarrow> auth_transcript \<Rightarrow> (auth_err, byte list) cres" where
  "auth_transcript_hash_sha256 S t =
     (if tr_overflow t then Fail AUTH_ERR_BUFFER_TOO_SMALL
      else bnd (rdn (tr_buf t) 0 (tr_len t)) (\<lambda>b. Ret (sd_sha256 S b)))"

definition auth_compute_pid ::
    "sodium \<Rightarrow> byte list \<Rightarrow> byte list \<Rightarrow> byte list \<Rightarrow> byte list \<Rightarrow> byte list" where
  "auth_compute_pid S device_pub nonce_c eph_c server_pub =
     (let n = (of_nat (length auth_ds_pid) :: u64);
          len_le = [ucast (n AND 0xff), ucast (drop_bit 8 n AND 0xff),
                    ucast (drop_bit 16 n AND 0xff), ucast (drop_bit 24 n AND 0xff)]
      in sd_sha256 S (len_le @ auth_ds_pid @ device_pub @ nonce_c @ eph_c @ server_pub))"

subsection \<open>What a transcript holds\<close>

definition tr_item :: "byte list \<Rightarrow> byte list \<Rightarrow> byte list" where
  "tr_item label msg =
     [of_nat (length label)] @ label @ le_bytes 4 (of_nat (length msg) :: u64) @ msg"

definition tr_encode :: "byte list \<Rightarrow> (byte list \<times> byte list) list \<Rightarrow> byte list" where
  "tr_encode domain items = [of_nat (length domain)] @ domain @ concat (map (\<lambda>(l, m). tr_item l m) items)"

text \<open>The transcript, in a buffer that held \<open>buf\<close>, whose content is \<open>bs\<close>.\<close>

definition tr_of :: "byte list \<Rightarrow> byte list \<Rightarrow> auth_transcript" where
  "tr_of buf bs = \<lparr>tr_buf = bs @ drop (length bs) buf, tr_len = length bs, tr_overflow = False\<rparr>"

definition tr_fresh :: auth_transcript where
  "tr_fresh = \<lparr>tr_buf = replicate AUTH_TRANSCRIPT_CAP 0, tr_len = 0, tr_overflow = False\<rparr>"

lemma append_bytes_of:
  assumes "length buf = 4096" and "length bs \<le> 4096"
  shows "append_bytes (tr_of buf bs) b (length b) =
    (if length bs + length b \<le> 4096 then Ret (True, tr_of buf (bs @ b))
     else Ret (False, (tr_of buf bs)\<lparr>tr_overflow := True\<rparr>))"
  using assms by (simp add: append_bytes_def tr_of_def wrn_def add.commute)

lemma append_item:
  assumes "length buf = 4096" and "length label \<le> 255" and "length msg \<le> 0xFFFFFFFF"
    and fits: "length (bs @ tr_item label msg) \<le> 4096" and n: "n = length label" "m = length msg"
  shows "auth_transcript_append (tr_of buf bs) (Some label) n (Some msg) m =
    Ret (AUTH_OK, tr_of buf (bs @ tr_item label msg))"
proof -
  let ?len = "le_bytes 4 (of_nat (length msg) :: u64)"
  have bound: "length bs + length label + length msg + 5 \<le> 4096" using fits by (simp add: tr_item_def)
  have "append_bytes (tr_of buf bs) [of_nat (length label)] 1 =
      Ret (True, tr_of buf (bs @ [of_nat (length label)]))"
    using append_bytes_of [of buf bs "[of_nat (length label)]"] assms bound by simp
  moreover have "append_bytes (tr_of buf (bs @ [of_nat (length label)])) label (length label) =
      Ret (True, tr_of buf (bs @ [of_nat (length label)] @ label))"
    using append_bytes_of [of buf "bs @ [of_nat (length label)]" label] assms bound by simp
  moreover have "append_bytes (tr_of buf (bs @ [of_nat (length label)] @ label)) ?len 4 =
      Ret (True, tr_of buf (bs @ [of_nat (length label)] @ label @ ?len))"
    using append_bytes_of [of buf "bs @ [of_nat (length label)] @ label" ?len] assms bound by simp
  moreover have "append_bytes (tr_of buf (bs @ [of_nat (length label)] @ label @ ?len)) msg (length msg) =
      Ret (True, tr_of buf (bs @ tr_item label msg))"
    using append_bytes_of [of buf "bs @ [of_nat (length label)] @ label @ ?len" msg] assms bound
    by (simp add: tr_item_def)
  ultimately show ?thesis
    using assms(2,3)
    by (cases "label = []"; cases "msg = []")
      (simp_all add: n auth_transcript_append_def le_bytes_4 Let_def tr_item_def)
qed

lemma init_of:
  assumes "length (tr_buf t) = 4096" and "length domain \<le> 255" and "n = length domain"
  shows "auth_transcript_init t (Some domain) n = Ret (AUTH_OK, tr_of (tr_buf t) (tr_encode domain []))"
proof -
  have "t\<lparr>tr_len := 0, tr_overflow := False\<rparr> = tr_of (tr_buf t) []" by (simp add: tr_of_def)
  moreover have "append_bytes (tr_of (tr_buf t) []) [of_nat (length domain)] 1 =
      Ret (True, tr_of (tr_buf t) [of_nat (length domain)])"
    using append_bytes_of [of "tr_buf t" "[]" "[of_nat (length domain)]"] assms by simp
  moreover have "append_bytes (tr_of (tr_buf t) [of_nat (length domain)]) domain (length domain) =
      Ret (True, tr_of (tr_buf t) (of_nat (length domain) # domain))"
    using append_bytes_of [of "tr_buf t" "[of_nat (length domain)]" domain] assms by simp
  ultimately show ?thesis
    using assms by (cases "domain = []") (simp_all add: auth_transcript_init_def tr_encode_def)
qed

lemma tr_encode_snoc: "tr_encode d (is @ [(l, m)]) = tr_encode d is @ tr_item l m"
  by (simp add: tr_encode_def)

lemma challenge_of:
  "length bs \<le> 4096 \<Longrightarrow> length buf = 4096 \<Longrightarrow>
   auth_transcript_challenge S (tr_of buf bs) = Ret (sd_scalar_reduce S (sd_sha512 S bs))"
  by (simp add: auth_transcript_challenge_def tr_of_def rdn_def)

lemma hash_of:
  "length bs \<le> 4096 \<Longrightarrow> length buf = 4096 \<Longrightarrow>
   auth_transcript_hash_sha256 S (tr_of buf bs) = Ret (sd_sha256 S bs)"
  by (simp add: auth_transcript_hash_sha256_def tr_of_def rdn_def)

subsection \<open>Unambiguity\<close>

lemma of_nat_byte_inject: "m \<le> 255 \<Longrightarrow> n \<le> 255 \<Longrightarrow> (of_nat m :: byte) = of_nat n \<longleftrightarrow> m = n"
  by (simp add: word_of_nat_eq_iff take_bit_eq_mod)

lemma le_bytes_4_inject:
  assumes "m \<le> 0xFFFFFFFF" and "n \<le> 0xFFFFFFFF"
  shows "le_bytes 4 (of_nat m :: u64) = le_bytes 4 (of_nat n :: u64) \<longleftrightarrow> m = n"
proof
  assume eq: "le_bytes 4 (of_nat m :: u64) = le_bytes 4 (of_nat n :: u64)"
  have *: "(le_word (le_bytes 4 (of_nat k :: u64)) :: u32) = of_nat k" for k
  proof (rule bit_word_eqI)
    fix i assume i: "i < LENGTH(32)"
    then have "i div 8 < 4" by (simp add: less_mult_imp_div_less)
    moreover have "8 * (i div 8) + i mod 8 = i" by simp
    ultimately show "bit (le_word (le_bytes 4 (of_nat k :: u64)) :: u32) i = bit (of_nat k :: u32) i"
      using i by (auto simp: bit_le_word nth_le_bytes bit_simps)
  qed
  have "(of_nat m :: u32) = of_nat n" using eq * [of m] * [of n] by simp
  then show "m = n" using assms by (simp add: word_of_nat_eq_iff take_bit_eq_mod)
qed simp

lemma tr_item_inject:
  assumes "length l \<le> 255" "length l' \<le> 255" "length m \<le> 0xFFFFFFFF" "length m' \<le> 0xFFFFFFFF"
  shows "tr_item l m @ r = tr_item l' m' @ r' \<longleftrightarrow> l = l' \<and> m = m' \<and> r = r'"
proof
  assume eq: "tr_item l m @ r = tr_item l' m' @ r'"
  then have "(of_nat (length l) :: byte) = of_nat (length l')" by (simp add: tr_item_def)
  then have ll: "length l = length l'" using assms by (simp only: of_nat_byte_inject)
  with eq have l: "l = l'"
    and "le_bytes 4 (of_nat (length m) :: u64) = le_bytes 4 (of_nat (length m') :: u64)"
    and mr: "m @ r = m' @ r'"
    by (simp_all add: tr_item_def)
  then have "length m = length m'" using assms by (simp only: le_bytes_4_inject)
  then show "l = l' \<and> m = m' \<and> r = r'" using l mr by simp
qed simp

definition tr_items_ok :: "(byte list \<times> byte list) list \<Rightarrow> bool" where
  "tr_items_ok items \<longleftrightarrow> list_all (\<lambda>(l, m). length l \<le> 255 \<and> length m \<le> 0xFFFFFFFF) items"

lemma tr_items_inject:
  "tr_items_ok is \<Longrightarrow> tr_items_ok js \<Longrightarrow>
   concat (map (\<lambda>(l, m). tr_item l m) is) = concat (map (\<lambda>(l, m). tr_item l m) js) \<Longrightarrow> is = js"
proof (induction "is" arbitrary: js)
  case Nil
  then show ?case by (cases js) (auto simp: tr_item_def)
next
  case (Cons i "is")
  obtain l m where i: "i = (l, m)" by (cases i)
  with Cons.prems obtain j js' where js: "js = j # js'" by (cases js) (auto simp: tr_item_def)
  obtain l' m' where j: "j = (l', m')" by (cases j)
  have ok: "tr_items_ok is" "tr_items_ok js'" "length l \<le> 255" "length l' \<le> 255"
      "length m \<le> 0xFFFFFFFF" "length m' \<le> 0xFFFFFFFF"
    using Cons.prems(1,2) by (simp_all add: i j js tr_items_ok_def)
  have "tr_item l m @ concat (map (\<lambda>(l, m). tr_item l m) is) =
      tr_item l' m' @ concat (map (\<lambda>(l, m). tr_item l m) js')"
    using Cons.prems(3) by (simp add: i j js)
  then have "l = l'" "m = m'"
      "concat (map (\<lambda>(l, m). tr_item l m) is) = concat (map (\<lambda>(l, m). tr_item l m) js')"
    by (simp_all only: tr_item_inject [OF ok(3-6)])
  then show ?case using Cons.IH [OF ok(1,2)] by (simp add: i j js)
qed

lemma tr_encode_inject:
  assumes "length d \<le> 255" "length d' \<le> 255" "tr_items_ok is" "tr_items_ok js"
  shows "tr_encode d is = tr_encode d' js \<longleftrightarrow> d = d' \<and> is = js"
proof
  assume eq: "tr_encode d is = tr_encode d' js"
  then have "(of_nat (length d) :: byte) = of_nat (length d')" by (simp add: tr_encode_def)
  then have "length d = length d'" using assms by (simp only: of_nat_byte_inject)
  then show "d = d' \<and> is = js" using eq tr_items_inject [OF assms(3,4)] by (simp add: tr_encode_def)
qed simp

subsection \<open>Overflow\<close>

lemma append_bytes_overflow: "tr_overflow t \<Longrightarrow> append_bytes t b n = Ret (False, t)"
  by (simp add: append_bytes_def)

lemma append_bytes_full:
  "length buf = 4096 \<Longrightarrow> length bs \<le> 4096 \<Longrightarrow> append_bytes (tr_of buf bs) b (length b) = Ret (ok, t) \<Longrightarrow>
   if ok then t = tr_of buf (bs @ b) \<and> length (bs @ b) \<le> 4096 else tr_overflow t"
  by (auto simp: append_bytes_of split: if_splits)

lemma append_overflows:
  assumes "length buf = 4096" and "length bs \<le> 4096" and "length label \<le> 255"
    and "length msg \<le> 0xFFFFFFFF" and full: "4096 < length (bs @ tr_item label msg)"
  shows "\<exists>t. auth_transcript_append (tr_of buf bs) (Some label) (length label) (Some msg) (length msg) =
    Ret (AUTH_ERR_BUFFER_TOO_SMALL, t) \<and> tr_overflow t"
proof -
  define b1 b2 b3 where "b1 = bs @ [of_nat (length label)]" and "b2 = b1 @ label"
    and "b3 = b2 @ le_bytes 4 (of_nat (length msg) :: u64)"
  have l1: "append_bytes (tr_of buf bs) [of_nat (length label)] (Suc 0) =
      (if length b1 \<le> 4096 then Ret (True, tr_of buf b1)
       else Ret (False, (tr_of buf bs)\<lparr>tr_overflow := True\<rparr>))"
    using append_bytes_of [OF assms(1,2), of "[of_nat (length label)]"] by (simp add: b1_def)
  have l2: "length b1 \<le> 4096 \<Longrightarrow> append_bytes (tr_of buf b1) label (length label) =
      (if length b2 \<le> 4096 then Ret (True, tr_of buf b2)
       else Ret (False, (tr_of buf b1)\<lparr>tr_overflow := True\<rparr>))"
    using append_bytes_of [OF assms(1), of b1 label] by (simp add: b2_def)
  have l3: "length b2 \<le> 4096 \<Longrightarrow>
      append_bytes (tr_of buf b2) (le_bytes 4 (of_nat (length msg) :: u64)) 4 =
      (if length b3 \<le> 4096 then Ret (True, tr_of buf b3)
       else Ret (False, (tr_of buf b2)\<lparr>tr_overflow := True\<rparr>))"
    using append_bytes_of [OF assms(1), of b2 "le_bytes 4 (of_nat (length msg) :: u64)"]
    by (simp add: b3_def)
  have l4: "length b3 \<le> 4096 \<Longrightarrow> append_bytes (tr_of buf b3) msg (length msg) =
      Ret (False, (tr_of buf b3)\<lparr>tr_overflow := True\<rparr>)"
    using append_bytes_of [OF assms(1), of b3 msg] full by (simp add: b3_def b2_def b1_def tr_item_def)
  have nil: "label = [] \<Longrightarrow> b2 = b1" "msg = [] \<Longrightarrow> \<not> length b3 \<le> 4096"
    using full by (simp_all add: b3_def b2_def b1_def tr_item_def)
  show ?thesis
    using assms(3,4) l1 l2 l3 l4 nil
    by (auto simp: auth_transcript_append_def Let_def le_bytes_4)
qed

end
