(* ===== verification/Codec.thy ===== *)
theory Codec
  imports Errors
begin

text \<open>
  The contract of an encoder and a decoder of one message format, and what a client of the
  pair may rely on. Every message of \<^verbatim>\<open>wire.c\<close> and \<^verbatim>\<open>payloads.c\<close> interprets it, and so does the
  authorization context of \<^verbatim>\<open>auth_v3_iot_core_authz.c\<close>, which has error codes of its own:
  \<open>small\<close> is the code of the encoder for a buffer that is too small.
\<close>

type_synonym 'm encoder = "'m option \<Rightarrow> byte list option \<Rightarrow> (auth_err, cursor) cres"
type_synonym 'm decoder = "byte list option \<Rightarrow> (auth_err, 'm) cres"

locale format_codec =
  fixes enc :: "'m option \<Rightarrow> byte list option \<Rightarrow> ('e, cursor) cres" and dec :: "byte list option \<Rightarrow> ('d, 'm) cres"
    and wf :: "'m \<Rightarrow> bool" and norm :: "'m \<Rightarrow> 'm" and layout :: "'m \<Rightarrow> byte list" and small :: 'e
  assumes enc_fits:
      "wf m \<Longrightarrow> length (layout m) \<le> length buf \<Longrightarrow> enc (Some m) (Some buf) = Ret (cur buf (layout m))"
    and enc_small:
      "wf m \<Longrightarrow> length buf < length (layout m) \<Longrightarrow>
       enc (Some m) (Some buf) = Fail small"
    and dec_layout: "wf m \<Longrightarrow> dec (Some (layout m)) = Ret (norm m)"
    and dec_no_fault: "dec b \<noteq> Fault"
begin

text \<open>Encoding into a large enough buffer, then decoding the bytes written, gives the message
  back; the rest of the buffer is untouched.\<close>

lemma roundtrip:
  assumes "wf m" and "length (layout m) \<le> length buf"
  shows "\<exists>buf' n. enc (Some m) (Some buf) = Ret (buf', n) \<and> n \<le> length buf \<and>
           length buf' = length buf \<and> drop n buf' = drop n buf \<and> dec (Some (take n buf')) = Ret (norm m)"
  using assms by (simp add: enc_fits cur_def dec_layout)

lemma enc_no_fault: "wf m \<Longrightarrow> enc (Some m) (Some buf) \<noteq> Fault"
  by (cases "length (layout m) \<le> length buf") (simp_all add: enc_fits enc_small)

lemma enc_Ret_iff:
  "wf m \<Longrightarrow> (\<exists>c. enc (Some m) (Some buf) = Ret c) \<longleftrightarrow> length (layout m) \<le> length buf"
  by (cases "length (layout m) \<le> length buf") (simp_all add: enc_fits enc_small)

lemma layout_inj: "wf m \<Longrightarrow> wf m' \<Longrightarrow> layout m = layout m' \<Longrightarrow> norm m = norm m'"
  using dec_layout [of m] dec_layout [of m'] by simp

end

text \<open>A format with one encoding per message: trailing bytes and alternative encodings are
  rejected, so that an accepted packet is the packet an honest peer would have sent.\<close>

locale canonical_format = format_codec +
  assumes dec_sound: "dec (Some bs) = Ret m \<Longrightarrow> wf m \<and> norm m = m \<and> layout m = bs"
begin

lemma dec_iff: "dec (Some bs) = Ret m \<longleftrightarrow> wf m \<and> norm m = m \<and> layout m = bs"
proof
  assume "wf m \<and> norm m = m \<and> layout m = bs"
  then show "dec (Some bs) = Ret m" using dec_layout [of m] by simp
qed (rule dec_sound)

lemma dec_inj: "dec (Some bs) = Ret m \<Longrightarrow> dec (Some bs') = Ret m \<Longrightarrow> bs = bs'"
  using dec_sound [of bs m] dec_sound [of bs' m] by simp

lemma dec_prefix_free: "dec (Some bs) = Ret m \<Longrightarrow> dec (Some (bs @ xs)) = Ret m \<Longrightarrow> xs = []"
  using dec_inj [of bs m "bs @ xs"] by simp

end

text \<open>The messages of the protocol: the formats whose functions return \<^typ>\<open>auth_err\<close>.\<close>

locale codec = format_codec enc dec wf norm layout AUTH_ERR_BUFFER_TOO_SMALL
  for enc :: "'m encoder" and dec :: "'m decoder"
    and wf :: "'m \<Rightarrow> bool" and norm :: "'m \<Rightarrow> 'm" and layout :: "'m \<Rightarrow> byte list"

locale canonical_codec = codec + canonical_format enc dec wf norm layout AUTH_ERR_BUFFER_TOO_SMALL

end
