(* ===== verification/ProofTypes.thy ===== *)
theory ProofTypes
  imports Codec
begin

text \<open>
  The proof structs of \<^verbatim>\<open>c/include/auth/proofs.h\<close> that the message structs embed: a Schnorr proof
  \<^verbatim>\<open>(a, s)\<close> and one branch \<^verbatim>\<open>(a, c, s)\<close> of a role set-membership proof. A C array is the list of
  its elements; a struct is well formed when its arrays have the declared sizes.
\<close>

record auth_schnorr_proof =
  prf_a :: "byte list"
  prf_s :: "byte list"

record auth_set_branch =
  br_a :: "byte list"
  br_c :: "byte list"
  br_s :: "byte list"

definition wf_proof :: "auth_schnorr_proof \<Rightarrow> bool" where
  [wf_defs]: "wf_proof p \<longleftrightarrow> length (prf_a p) = 32 \<and> length (prf_s p) = 32"

definition wf_branch :: "auth_set_branch \<Rightarrow> bool" where
  [wf_defs]: "wf_branch b \<longleftrightarrow> length (br_a b) = 32 \<and> length (br_c b) = 32 \<and> length (br_s b) = 32"

definition zero_proof :: auth_schnorr_proof where
  "zero_proof = \<lparr>prf_a = replicate 32 0, prf_s = replicate 32 0\<rparr>"

definition zero_branch :: auth_set_branch where
  "zero_branch = \<lparr>br_a = replicate 32 0, br_c = replicate 32 0, br_s = replicate 32 0\<rparr>"

lemma wf_zero_branch [simp]: "wf_branch zero_branch"
  by (simp add: wf_branch_def zero_branch_def)

definition proof_layout :: "auth_schnorr_proof \<Rightarrow> byte list" where
  "proof_layout p = prf_a p @ prf_s p"

definition branch_layout :: "auth_set_branch \<Rightarrow> byte list" where
  "branch_layout b = br_a b @ br_c b @ br_s b"

lemma length_branch_layout [simp]: "wf_branch b \<Longrightarrow> length (branch_layout b) = 96"
  by (simp add: branch_layout_def wf_branch_def)

end
