(* ===== verification/Proofs.thy ===== *)
theory Proofs
  imports Transcript ProofTypes
begin

text \<open>
  \<^verbatim>\<open>c/src/crypto/proofs.c\<close>, lines 18 to 416: the Schnorr proofs of enrolment (client and server) and
  of authentication (client and server). The randomness of a prover is the argument \<open>wide\<close>,
  the 64 bytes its \<^verbatim>\<open>_with_bytes\<close> variant takes. The four pairs of prover and verifier interpret
  the locale \<open>schnorr_scheme\<close>, which derives completeness, the exact acceptance condition,
  special soundness and malleability once.
\<close>

subsection \<open>Helpers\<close>

definition points_equal :: "byte list \<Rightarrow> byte list \<Rightarrow> bool" where
  "points_equal a b \<longleftrightarrow> a = b"

definition g_times :: "sodium \<Rightarrow> byte list \<Rightarrow> (auth_err, byte list) cres" where
  "g_times S s = auth_scalarmult_base S s"

definition p_times :: "sodium \<Rightarrow> byte list \<Rightarrow> byte list \<Rightarrow> (auth_err, byte list) cres" where
  "p_times S s p = auth_scalarmult S s p"

text \<open>\<^verbatim>\<open>if (f(...) != AUTH_OK) return 0;\<close>\<close>

definition or_zero :: "(auth_err, 'a) cres \<Rightarrow> ('a \<Rightarrow> (auth_err, bool) cres) \<Rightarrow> (auth_err, bool) cres" where
  "or_zero r k = (case r of Fault \<Rightarrow> Fault | Fail e \<Rightarrow> Ret False | Ret x \<Rightarrow> k x)"

subsection \<open>Setup, client\<close>

definition setup_client_challenge ::
    "sodium \<Rightarrow> byte list \<Rightarrow> byte list \<Rightarrow> byte list \<Rightarrow> byte list \<Rightarrow> byte list \<Rightarrow> byte list \<Rightarrow> byte list \<Rightarrow>
     (auth_err, byte list) cres" where
  "setup_client_challenge S device_id device_pub server_pub a client_nonce server_nonce setup_challenge =
     tr_then (auth_transcript_init tr_fresh (Some auth_ds_setup) (length auth_ds_setup)) (\<lambda>t.
     tr_then (auth_transcript_append t (Some (ascii ''role'')) 4 (Some (ascii ''client'')) 6) (\<lambda>t.
     tr_then (auth_transcript_append t (Some (ascii ''device_id'')) 9 (Some device_id) 32) (\<lambda>t.
     tr_then (auth_transcript_append_point t (ascii ''device_pub'') device_pub) (\<lambda>t.
     tr_then (auth_transcript_append_point t (ascii ''server_pub'') server_pub) (\<lambda>t.
     tr_then (auth_transcript_append_point t (ascii ''a'') a) (\<lambda>t.
     tr_then (auth_transcript_append t (Some (ascii ''client_nonce'')) 12 (Some client_nonce) 32) (\<lambda>t.
     tr_then (auth_transcript_append t (Some (ascii ''server_nonce'')) 12 (Some server_nonce) 32) (\<lambda>t.
     tr_then (auth_transcript_append t (Some (ascii ''setup_challenge'')) 15 (Some setup_challenge) AUTH_SETUP_CHALLENGE_LEN) (\<lambda>t.
     auth_transcript_challenge S t)))))))))"

definition auth_prove_setup_client_with_bytes ::
    "sodium \<Rightarrow> byte list \<Rightarrow> byte list \<Rightarrow> byte list \<Rightarrow> byte list \<Rightarrow> byte list \<Rightarrow> byte list \<Rightarrow> byte list \<Rightarrow> byte list \<Rightarrow>
     (auth_err, auth_schnorr_proof) cres" where
  "auth_prove_setup_client_with_bytes S wide_r x device_id device_pub server_pub client_nonce server_nonce setup_challenge =
     (let r = auth_scalar_from_wide S wide_r in
      bnd (g_times S r) (\<lambda>a.
      bnd (setup_client_challenge S device_id device_pub server_pub a client_nonce server_nonce setup_challenge) (\<lambda>c.
      let cx = auth_scalar_mul S c x
      in Ret \<lparr>prf_a = a, prf_s = auth_scalar_add S r cx\<rparr>)))"

definition auth_prove_setup_client ::
    "sodium \<Rightarrow> byte list \<Rightarrow> byte list \<Rightarrow> byte list \<Rightarrow> byte list \<Rightarrow> byte list \<Rightarrow> byte list \<Rightarrow> byte list \<Rightarrow> byte list \<Rightarrow>
     (auth_err, auth_schnorr_proof) cres" where
  "auth_prove_setup_client S wide x device_id device_pub server_pub client_nonce server_nonce setup_challenge = auth_prove_setup_client_with_bytes S wide x device_id device_pub server_pub client_nonce server_nonce setup_challenge"

definition auth_verify_setup_client ::
    "sodium \<Rightarrow> auth_schnorr_proof \<Rightarrow> byte list \<Rightarrow> byte list \<Rightarrow> byte list \<Rightarrow> byte list \<Rightarrow> byte list \<Rightarrow> byte list \<Rightarrow>
     (auth_err, bool) cres" where
  "auth_verify_setup_client S prf device_id device_pub server_pub client_nonce server_nonce setup_challenge =
     or_zero (setup_client_challenge S device_id device_pub server_pub (prf_a prf) client_nonce server_nonce setup_challenge) (\<lambda>c.
     or_zero (g_times S (prf_s prf)) (\<lambda>gs.
     or_zero (p_times S c device_pub) (\<lambda>pc.
     or_zero (auth_point_add S (prf_a prf) pc) (\<lambda>rhs.
     Ret (points_equal gs rhs)))))"

subsection \<open>Setup, server\<close>

definition setup_server_challenge ::
    "sodium \<Rightarrow> byte list \<Rightarrow> byte list \<Rightarrow> byte list \<Rightarrow> byte list \<Rightarrow> byte list \<Rightarrow> byte list \<Rightarrow> byte list \<Rightarrow>
     (auth_err, byte list) cres" where
  "setup_server_challenge S device_id device_pub server_pub a client_nonce server_nonce setup_challenge =
     tr_then (auth_transcript_init tr_fresh (Some auth_ds_setup_server) (length auth_ds_setup_server)) (\<lambda>t.
     tr_then (auth_transcript_append t (Some (ascii ''role'')) 4 (Some (ascii ''server'')) 6) (\<lambda>t.
     tr_then (auth_transcript_append t (Some (ascii ''device_id'')) 9 (Some device_id) 32) (\<lambda>t.
     tr_then (auth_transcript_append_point t (ascii ''device_pub'') device_pub) (\<lambda>t.
     tr_then (auth_transcript_append_point t (ascii ''server_pub'') server_pub) (\<lambda>t.
     tr_then (auth_transcript_append_point t (ascii ''a'') a) (\<lambda>t.
     tr_then (auth_transcript_append t (Some (ascii ''client_nonce'')) 12 (Some client_nonce) 32) (\<lambda>t.
     tr_then (auth_transcript_append t (Some (ascii ''server_nonce'')) 12 (Some server_nonce) 32) (\<lambda>t.
     tr_then (auth_transcript_append t (Some (ascii ''setup_challenge'')) 15 (Some setup_challenge) AUTH_SETUP_CHALLENGE_LEN) (\<lambda>t.
     auth_transcript_challenge S t)))))))))"

definition auth_prove_setup_server_with_bytes ::
    "sodium \<Rightarrow> byte list \<Rightarrow> byte list \<Rightarrow> byte list \<Rightarrow> byte list \<Rightarrow> byte list \<Rightarrow> byte list \<Rightarrow> byte list \<Rightarrow> byte list \<Rightarrow>
     (auth_err, auth_schnorr_proof) cres" where
  "auth_prove_setup_server_with_bytes S wide_r server_sk device_id device_pub server_pub client_nonce server_nonce setup_challenge =
     (let r = auth_scalar_from_wide S wide_r in
      bnd (g_times S r) (\<lambda>a.
      bnd (setup_server_challenge S device_id device_pub server_pub a client_nonce server_nonce setup_challenge) (\<lambda>c.
      let cx = auth_scalar_mul S c server_sk
      in Ret \<lparr>prf_a = a, prf_s = auth_scalar_add S r cx\<rparr>)))"

definition auth_prove_setup_server ::
    "sodium \<Rightarrow> byte list \<Rightarrow> byte list \<Rightarrow> byte list \<Rightarrow> byte list \<Rightarrow> byte list \<Rightarrow> byte list \<Rightarrow> byte list \<Rightarrow> byte list \<Rightarrow>
     (auth_err, auth_schnorr_proof) cres" where
  "auth_prove_setup_server S wide server_sk device_id device_pub server_pub client_nonce server_nonce setup_challenge = auth_prove_setup_server_with_bytes S wide server_sk device_id device_pub server_pub client_nonce server_nonce setup_challenge"

definition auth_verify_setup_server ::
    "sodium \<Rightarrow> auth_schnorr_proof \<Rightarrow> byte list \<Rightarrow> byte list \<Rightarrow> byte list \<Rightarrow> byte list \<Rightarrow> byte list \<Rightarrow> byte list \<Rightarrow>
     (auth_err, bool) cres" where
  "auth_verify_setup_server S prf server_pub device_id device_pub client_nonce server_nonce setup_challenge =
     or_zero (setup_server_challenge S device_id device_pub server_pub (prf_a prf) client_nonce server_nonce setup_challenge) (\<lambda>c.
     or_zero (g_times S (prf_s prf)) (\<lambda>gs.
     or_zero (p_times S c server_pub) (\<lambda>pc.
     or_zero (auth_point_add S (prf_a prf) pc) (\<lambda>rhs.
     Ret (points_equal gs rhs)))))"

subsection \<open>Authentication, client\<close>

definition auth_client_challenge ::
    "sodium \<Rightarrow> byte list \<Rightarrow> byte list \<Rightarrow> byte list \<Rightarrow> byte list \<Rightarrow> byte list \<Rightarrow>
     (auth_err, byte list) cres" where
  "auth_client_challenge S pubkey a pid nonce_c eph_c =
     tr_then (auth_transcript_init tr_fresh (Some auth_ds_client_v2) (length auth_ds_client_v2)) (\<lambda>t.
     tr_then (auth_transcript_append t (Some (ascii ''pid'')) 3 (Some pid) 32) (\<lambda>t.
     tr_then (auth_transcript_append_point t (ascii ''pubkey'') pubkey) (\<lambda>t.
     tr_then (auth_transcript_append_point t (ascii ''a'') a) (\<lambda>t.
     tr_then (auth_transcript_append t (Some (ascii ''nonce_c'')) 7 (Some nonce_c) 32) (\<lambda>t.
     tr_then (auth_transcript_append_point t (ascii ''eph_c'') eph_c) (\<lambda>t.
     auth_transcript_challenge S t))))))"

definition auth_prove_auth_client_with_bytes ::
    "sodium \<Rightarrow> byte list \<Rightarrow> byte list \<Rightarrow> byte list \<Rightarrow> byte list \<Rightarrow> byte list \<Rightarrow>
     (auth_err, auth_schnorr_proof) cres" where
  "auth_prove_auth_client_with_bytes S wide_r x pid nonce_c eph_c =
     (let r = auth_scalar_from_wide S wide_r in
      bnd (g_times S r) (\<lambda>a.
      bnd (g_times S x) (\<lambda>pubkey.
      bnd (auth_client_challenge S pubkey a pid nonce_c eph_c) (\<lambda>c.
      let cx = auth_scalar_mul S c x
      in Ret \<lparr>prf_a = a, prf_s = auth_scalar_add S r cx\<rparr>))))"

definition auth_prove_auth_client ::
    "sodium \<Rightarrow> byte list \<Rightarrow> byte list \<Rightarrow> byte list \<Rightarrow> byte list \<Rightarrow> byte list \<Rightarrow>
     (auth_err, auth_schnorr_proof) cres" where
  "auth_prove_auth_client S wide x pid nonce_c eph_c = auth_prove_auth_client_with_bytes S wide x pid nonce_c eph_c"

definition auth_verify_auth_client ::
    "sodium \<Rightarrow> auth_schnorr_proof \<Rightarrow> byte list \<Rightarrow> byte list \<Rightarrow> byte list \<Rightarrow> byte list \<Rightarrow>
     (auth_err, bool) cres" where
  "auth_verify_auth_client S prf device_pub pid nonce_c eph_c =
     or_zero (auth_client_challenge S device_pub (prf_a prf) pid nonce_c eph_c) (\<lambda>c.
     or_zero (g_times S (prf_s prf)) (\<lambda>gs.
     or_zero (p_times S c device_pub) (\<lambda>pc.
     or_zero (auth_point_add S (prf_a prf) pc) (\<lambda>rhs.
     Ret (points_equal gs rhs)))))"

subsection \<open>Authentication, server\<close>

definition auth_server_challenge ::
    "sodium \<Rightarrow> byte list \<Rightarrow> byte list \<Rightarrow> byte list \<Rightarrow> byte list \<Rightarrow>
     (auth_err, byte list) cres" where
  "auth_server_challenge S server_pub a nonce_s eph_s =
     tr_then (auth_transcript_init tr_fresh (Some auth_ds_server) (length auth_ds_server)) (\<lambda>t.
     tr_then (auth_transcript_append_point t (ascii ''pubkey'') server_pub) (\<lambda>t.
     tr_then (auth_transcript_append_point t (ascii ''a'') a) (\<lambda>t.
     tr_then (auth_transcript_append t (Some (ascii ''nonce_s'')) 7 (Some nonce_s) 32) (\<lambda>t.
     tr_then (auth_transcript_append_point t (ascii ''eph_s'') eph_s) (\<lambda>t.
     auth_transcript_challenge S t)))))"

definition auth_prove_auth_server_with_bytes ::
    "sodium \<Rightarrow> byte list \<Rightarrow> byte list \<Rightarrow> byte list \<Rightarrow> byte list \<Rightarrow>
     (auth_err, auth_schnorr_proof) cres" where
  "auth_prove_auth_server_with_bytes S wide_r server_sk nonce_s eph_s =
     (let r = auth_scalar_from_wide S wide_r in
      bnd (g_times S r) (\<lambda>a.
      bnd (g_times S server_sk) (\<lambda>server_pub.
      bnd (auth_server_challenge S server_pub a nonce_s eph_s) (\<lambda>c.
      let cx = auth_scalar_mul S c server_sk
      in Ret \<lparr>prf_a = a, prf_s = auth_scalar_add S r cx\<rparr>))))"

definition auth_prove_auth_server ::
    "sodium \<Rightarrow> byte list \<Rightarrow> byte list \<Rightarrow> byte list \<Rightarrow> byte list \<Rightarrow>
     (auth_err, auth_schnorr_proof) cres" where
  "auth_prove_auth_server S wide server_sk nonce_s eph_s = auth_prove_auth_server_with_bytes S wide server_sk nonce_s eph_s"

definition auth_verify_auth_server ::
    "sodium \<Rightarrow> auth_schnorr_proof \<Rightarrow> byte list \<Rightarrow> byte list \<Rightarrow> byte list \<Rightarrow>
     (auth_err, bool) cres" where
  "auth_verify_auth_server S prf server_pub nonce_s eph_s =
     or_zero (auth_server_challenge S server_pub (prf_a prf) nonce_s eph_s) (\<lambda>c.
     or_zero (g_times S (prf_s prf)) (\<lambda>gs.
     or_zero (p_times S c server_pub) (\<lambda>pc.
     or_zero (auth_point_add S (prf_a prf) pc) (\<lambda>rhs.
     Ret (points_equal gs rhs)))))"

subsection \<open>Challenges\<close>

lemma tr_then_append:
  assumes "n = length l" and "k = length m" and "length l \<le> 255" and "length m \<le> 4000"
    and "length (tr_encode d (is @ [(l, m)])) \<le> 4096"
  shows "tr_then (auth_transcript_append (tr_of (replicate 4096 0) (tr_encode d is)) (Some l) n (Some m) k) f =
    f (tr_of (replicate 4096 0) (tr_encode d (is @ [(l, m)])))"
  using assms append_item [of "replicate 4096 0" l m "tr_encode d is" n k]
  by (simp add: tr_then_def tr_encode_snoc)

lemma tr_then_init:
  "n = length d \<Longrightarrow> length d \<le> 255 \<Longrightarrow>
   tr_then (auth_transcript_init tr_fresh (Some d) n) f = f (tr_of (replicate 4096 0) (tr_encode d []))"
  using init_of [of tr_fresh d n] by (simp add: tr_then_def tr_fresh_def)

lemma challenge_encode:
  "length (tr_encode d is) \<le> 4096 \<Longrightarrow>
   auth_transcript_challenge S (tr_of (replicate 4096 0) (tr_encode d is)) =
     Ret (sd_scalar_reduce S (sd_sha512 S (tr_encode d is)))"
  by (simp add: challenge_of)

lemma length_tr_encode:
  "length (tr_encode d is) = 1 + length d + sum_list (map (\<lambda>(l, m). 5 + length l + length m) is)"
  by (induction "is") (auto simp: tr_encode_def tr_item_def)

lemmas transcript_simps = tr_then_append tr_then_init challenge_encode length_tr_encode
  auth_transcript_append_point_def auth_transcript_append_scalar_def

text \<open>The byte strings the four challenges hash.\<close>

definition tr_setup_client :: "byte list \<Rightarrow> byte list \<Rightarrow> byte list \<Rightarrow> byte list \<Rightarrow> byte list \<Rightarrow> byte list \<Rightarrow> byte list \<Rightarrow> byte list" where
  "tr_setup_client device_id device_pub server_pub a client_nonce server_nonce setup_challenge =
     tr_encode auth_ds_setup
     [(ascii ''role'', (ascii ''client'')),
      (ascii ''device_id'', device_id),
      (ascii ''device_pub'', device_pub),
      (ascii ''server_pub'', server_pub),
      (ascii ''a'', a),
      (ascii ''client_nonce'', client_nonce),
      (ascii ''server_nonce'', server_nonce),
      (ascii ''setup_challenge'', setup_challenge)]"

definition tr_setup_server :: "byte list \<Rightarrow> byte list \<Rightarrow> byte list \<Rightarrow> byte list \<Rightarrow> byte list \<Rightarrow> byte list \<Rightarrow> byte list \<Rightarrow> byte list" where
  "tr_setup_server device_id device_pub server_pub a client_nonce server_nonce setup_challenge =
     tr_encode auth_ds_setup_server
     [(ascii ''role'', (ascii ''server'')),
      (ascii ''device_id'', device_id),
      (ascii ''device_pub'', device_pub),
      (ascii ''server_pub'', server_pub),
      (ascii ''a'', a),
      (ascii ''client_nonce'', client_nonce),
      (ascii ''server_nonce'', server_nonce),
      (ascii ''setup_challenge'', setup_challenge)]"

definition tr_auth_client :: "byte list \<Rightarrow> byte list \<Rightarrow> byte list \<Rightarrow> byte list \<Rightarrow> byte list \<Rightarrow> byte list" where
  "tr_auth_client pubkey a pid nonce_c eph_c =
     tr_encode auth_ds_client_v2
     [(ascii ''pid'', pid),
      (ascii ''pubkey'', pubkey),
      (ascii ''a'', a),
      (ascii ''nonce_c'', nonce_c),
      (ascii ''eph_c'', eph_c)]"

definition tr_auth_server :: "byte list \<Rightarrow> byte list \<Rightarrow> byte list \<Rightarrow> byte list \<Rightarrow> byte list" where
  "tr_auth_server server_pub a nonce_s eph_s =
     tr_encode auth_ds_server
     [(ascii ''pubkey'', server_pub),
      (ascii ''a'', a),
      (ascii ''nonce_s'', nonce_s),
      (ascii ''eph_s'', eph_s)]"

lemma setup_client_challenge_eq:
  "length device_id = 32 \<Longrightarrow> length device_pub = 32 \<Longrightarrow> length server_pub = 32 \<Longrightarrow> length a = 32 \<Longrightarrow> length client_nonce = 32 \<Longrightarrow> length server_nonce = 32 \<Longrightarrow> length setup_challenge = 16 \<Longrightarrow>
   setup_client_challenge S device_id device_pub server_pub a client_nonce server_nonce setup_challenge = Ret (sd_scalar_reduce S (sd_sha512 S (tr_setup_client device_id device_pub server_pub a client_nonce server_nonce setup_challenge)))"
  by (simp add: setup_client_challenge_def tr_setup_client_def transcript_simps domain_defs)

lemma setup_server_challenge_eq:
  "length device_id = 32 \<Longrightarrow> length device_pub = 32 \<Longrightarrow> length server_pub = 32 \<Longrightarrow> length a = 32 \<Longrightarrow> length client_nonce = 32 \<Longrightarrow> length server_nonce = 32 \<Longrightarrow> length setup_challenge = 16 \<Longrightarrow>
   setup_server_challenge S device_id device_pub server_pub a client_nonce server_nonce setup_challenge = Ret (sd_scalar_reduce S (sd_sha512 S (tr_setup_server device_id device_pub server_pub a client_nonce server_nonce setup_challenge)))"
  by (simp add: setup_server_challenge_def tr_setup_server_def transcript_simps domain_defs)

lemma auth_client_challenge_eq:
  "length pubkey = 32 \<Longrightarrow> length a = 32 \<Longrightarrow> length pid = 32 \<Longrightarrow> length nonce_c = 32 \<Longrightarrow> length eph_c = 32 \<Longrightarrow>
   auth_client_challenge S pubkey a pid nonce_c eph_c = Ret (sd_scalar_reduce S (sd_sha512 S (tr_auth_client pubkey a pid nonce_c eph_c)))"
  by (simp add: auth_client_challenge_def tr_auth_client_def transcript_simps domain_defs)

lemma auth_server_challenge_eq:
  "length server_pub = 32 \<Longrightarrow> length a = 32 \<Longrightarrow> length nonce_s = 32 \<Longrightarrow> length eph_s = 32 \<Longrightarrow>
   auth_server_challenge S server_pub a nonce_s eph_s = Ret (sd_scalar_reduce S (sd_sha512 S (tr_auth_server server_pub a nonce_s eph_s)))"
  by (simp add: auth_server_challenge_def tr_auth_server_def transcript_simps domain_defs)

subsection \<open>The Schnorr equation\<close>

definition tr_challenge :: "sodium \<Rightarrow> byte list \<Rightarrow> byte list" where
  "tr_challenge S t = sd_scalar_reduce S (sd_sha512 S t)"

lemma tr_challenge_sc:
  "ristretto255 S enc \<Longrightarrow> tr_challenge S t = sc (le_int (sd_sha512 S t))"
  by (simp add: tr_challenge_def reduce_sc sodium_digests)

lemma canonical_tr_challenge [simp]: "ristretto255 S enc \<Longrightarrow> canonical (tr_challenge S t)"
  by (simp add: tr_challenge_sc)

text \<open>The check all verifiers end with: \<^verbatim>\<open>g*s == a + pub*c\<close>.\<close>

definition schnorr_check ::
    "sodium \<Rightarrow> byte list \<Rightarrow> byte list \<Rightarrow> auth_schnorr_proof \<Rightarrow> (auth_err, bool) cres" where
  "schnorr_check S c pub prf =
     or_zero (g_times S (prf_s prf)) (\<lambda>gs.
     or_zero (p_times S c pub) (\<lambda>pc.
     or_zero (auth_point_add S (prf_a prf) pc) (\<lambda>rhs.
     Ret (points_equal gs rhs))))"

lemma schnorr_check_enc:
  assumes R: "ristretto255 S enc" and "canonical c" and "wf_proof prf" and a: "prf_a prf = enc j"
  shows "schnorr_check S c (enc k) prf =
    Ret (enc (sval (prf_s prf)) \<noteq> enc 0 \<and> enc (le_int c * k) \<noteq> enc 0 \<and>
         enc (sval (prf_s prf)) = enc (j + le_int c * k))"
proof -
  have "length c = 32" and "sval c = le_int c" using assms(2) by (simp_all add: canonical_def sval_canonical)
  then show ?thesis
    using assms(3)
    by (simp add: schnorr_check_def g_times_def p_times_def or_zero_def base_mult [OF R] point_mult [OF R]
        points_add [OF R] points_equal_def a wf_proof_def)
qed

lemma schnorr_check_invalid:
  assumes R: "ristretto255 S enc" and "wf_proof prf" and "canonical c"
    and "pub \<notin> range enc \<or> prf_a prf \<notin> range enc"
  shows "schnorr_check S c pub prf = Ret False"
proof (cases "pub \<in> range enc")
  case True
  then obtain k where k: "pub = enc k" by blast
  then have "prf_a prf \<notin> range enc" using assms(4) by blast
  then show ?thesis
    using assms(2,3)
    by (simp add: k schnorr_check_def g_times_def p_times_def or_zero_def base_mult [OF R] point_mult [OF R]
        points_add_invalid [OF R] wf_proof_def canonical_def)
next
  case False
  then show ?thesis
    using assms(2)
    by (simp add: schnorr_check_def g_times_def p_times_def or_zero_def base_mult [OF R]
        point_mult_invalid [OF R] wf_proof_def)
qed

lemma schnorr_check_iff:
  assumes R: "ristretto255 S enc" and "canonical c" and "wf_proof prf"
  shows "schnorr_check S c pub prf =
    Ret (\<exists>j k. pub = enc k \<and> prf_a prf = enc j \<and> enc (sval (prf_s prf)) \<noteq> enc 0 \<and>
           enc (le_int c * k) \<noteq> enc 0 \<and> enc (sval (prf_s prf)) = enc (j + le_int c * k))"
proof (cases "pub \<in> range enc \<and> prf_a prf \<in> range enc")
  case True
  then obtain j k where jk: "pub = enc k" "prf_a prf = enc j" by blast
  have cong: "enc (le_int c * k') = enc (le_int c * k)" "enc (j' + le_int c * k') = enc (j + le_int c * k)"
    if "enc k = enc k'" "enc j = enc j'" for j' k'
    using that by (auto simp: enc_eq_iff [OF R] intro!: mod_mult_cong mod_add_cong)
  let ?P = "\<lambda>j k. enc (sval (prf_s prf)) \<noteq> enc 0 \<and> enc (le_int c * k) \<noteq> enc 0 \<and>
      enc (sval (prf_s prf)) = enc (j + le_int c * k)"
  have "(\<exists>j' k'. pub = enc k' \<and> prf_a prf = enc j' \<and> ?P j' k') \<longleftrightarrow> ?P j k" (is "?l \<longleftrightarrow> _")
  proof
    assume ?l
    then obtain j' k' where eq: "enc k = enc k'" "enc j = enc j'" and P: "?P j' k'"
      using jk by auto
    show "?P j k" using P unfolding cong [OF eq] by blast
  next
    assume "?P j k"
    then show ?l using jk by blast
  qed
  then show ?thesis using schnorr_check_enc [OF R assms(2,3) jk(2), of k] jk(1) by simp
next
  case False
  then show ?thesis using schnorr_check_invalid [OF R assms(3,2), of pub] by auto
qed

subsection \<open>The contract of a prover and its verifier\<close>

text \<open>\<open>tr x pub a\<close> is the transcript hashed for the session data \<open>x\<close>, the public key and the
  commitment.\<close>

locale schnorr_scheme =
  fixes prove :: "sodium \<Rightarrow> byte list \<Rightarrow> byte list \<Rightarrow> 'c \<Rightarrow> byte list \<Rightarrow> (auth_err, auth_schnorr_proof) cres"
    and verify :: "sodium \<Rightarrow> auth_schnorr_proof \<Rightarrow> 'c \<Rightarrow> byte list \<Rightarrow> (auth_err, bool) cres"
    and tr :: "'c \<Rightarrow> byte list \<Rightarrow> byte list \<Rightarrow> byte list" and wf_ctx :: "'c \<Rightarrow> bool"
  assumes prove_eq:
      "ristretto255 S enc \<Longrightarrow> wf_ctx x \<Longrightarrow> length sk = 32 \<Longrightarrow> length wide = 64 \<Longrightarrow>
       auth_scalarmult_base S sk = Ret pub \<Longrightarrow>
       prove S wide sk x pub =
         bnd (auth_scalarmult_base S (sd_scalar_reduce S wide)) (\<lambda>a.
         Ret \<lparr>prf_a = a, prf_s = auth_scalar_add S (sd_scalar_reduce S wide)
                (auth_scalar_mul S (tr_challenge S (tr x pub a)) sk)\<rparr>)"
    and verify_eq:
      "wf_proof prf \<Longrightarrow> wf_ctx x \<Longrightarrow> length pub = 32 \<Longrightarrow>
       verify S prf x pub = schnorr_check S (tr_challenge S (tr x pub (prf_a prf))) pub prf"
begin

lemma complete:
  assumes R: "ristretto255 S enc" and x: "wf_ctx x" and sk: "canonical sk" and wide: "length wide = 64"
    and pub: "auth_scalarmult_base S sk = Ret pub" and r: "le_int wide mod group_order \<noteq> 0"
  shows "\<exists>prf. prove S wide sk x pub = Ret prf \<and> wf_proof prf \<and> canonical (prf_s prf) \<and>
    verify S prf x pub =
      Ret (prf_s prf \<noteq> sc 0 \<and>
           (le_int (tr_challenge S (tr x pub (prf_a prf))) * le_int sk) mod group_order \<noteq> 0)"
proof -
  let ?r = "le_int wide mod group_order" and ?k = "le_int sk"
  have sk32: "length sk = 32" and svk: "sval sk = ?k"
    using sk by (simp_all add: canonical_def sval_canonical)
  have pub': "pub = enc ?k"
    using pub sk32 svk by (simp add: base_mult [OF R] split: if_splits)
  let ?c = "tr_challenge S (tr x pub (enc ?r))"
  let ?pr = "\<lparr>prf_a = enc ?r, prf_s = sc (?r + le_int ?c * ?k)\<rparr>"
  have a: "auth_scalarmult_base S (sd_scalar_reduce S wide) = Ret (enc ?r)"
    using r by (simp add: reduce_sc [OF R wide] base_mult [OF R] enc_eq_iff [OF R])
  have "auth_scalar_add S (sd_scalar_reduce S wide) (auth_scalar_mul S ?c sk) =
      sc (le_int (sc (le_int wide)) + le_int (sc (le_int ?c * ?k)))"
    using canonical_tr_challenge [OF R, of "tr x pub (enc ?r)"] sk32
    by (simp add: reduce_sc [OF R wide] scalar_mul_sc [OF R] scalar_add_sc [OF R] canonical_def
        [of "tr_challenge S (tr x pub (enc ?r))"])
  also have "\<dots> = sc (?r + le_int ?c * ?k)" by (simp add: sc_eq_iff mod_simps)
  finally have prov: "prove S wide sk x pub = Ret ?pr"
    using prove_eq [OF R x sk32 wide pub] by (simp add: a)
  have wf: "wf_proof ?pr" by (simp add: wf_proof_def length_enc [OF R])
  have "verify S ?pr x pub = schnorr_check S ?c (enc ?k) ?pr"
    using verify_eq [OF wf x, of pub S] by (simp add: pub' length_enc [OF R])
  also have "\<dots> = Ret (enc (sval (sc (?r + le_int ?c * ?k))) \<noteq> enc 0 \<and> enc (le_int ?c * ?k) \<noteq> enc 0 \<and>
      enc (sval (sc (?r + le_int ?c * ?k))) = enc (?r + le_int ?c * ?k))"
    using schnorr_check_enc [OF R _ wf, of ?c ?r ?k] R by simp
  also have "\<dots> = Ret (sc (?r + le_int ?c * ?k) \<noteq> sc 0 \<and> (le_int ?c * ?k) mod group_order \<noteq> 0)"
    by (simp add: enc_eq_iff [OF R] sc_eq_iff)
  finally show ?thesis using prov wf by (intro exI [of _ ?pr]) simp
qed

lemma prove_fails:
  assumes R: "ristretto255 S enc" and x: "wf_ctx x" and sk: "length sk = 32" and wide: "length wide = 64"
    and pub: "auth_scalarmult_base S sk = Ret pub" and r: "le_int wide mod group_order = 0"
  shows "prove S wide sk x pub = Fail AUTH_ERR_INVALID_POINT"
  using prove_eq [OF R x sk wide pub] r
  by (simp add: reduce_sc [OF R wide] base_mult [OF R] enc_eq_iff [OF R])

lemma accepts_iff:
  assumes R: "ristretto255 S enc" and "wf_ctx x" and "wf_proof prf" and "length pub = 32"
  shows "verify S prf x pub =
    Ret (let c = le_int (tr_challenge S (tr x pub (prf_a prf))) in
         \<exists>j k. pub = enc k \<and> prf_a prf = enc j \<and> enc (sval (prf_s prf)) \<noteq> enc 0 \<and>
           enc (c * k) \<noteq> enc 0 \<and> enc (sval (prf_s prf)) = enc (j + c * k))"
  using schnorr_check_iff [OF R canonical_tr_challenge [OF R] assms(3)] verify_eq [OF assms(3,2,4)]
  by (simp add: Let_def)

text \<open>Two accepting proofs with one commitment and different challenges (the same hash input
  answered differently, as in rewinding) give the secret key.\<close>

lemma special_sound:
  assumes R: "ristretto255 S enc" and R': "ristretto255 S' enc"
    and x: "wf_ctx x" and wfp: "wf_proof prf" "wf_proof prf'" "prf_a prf' = prf_a prf"
    and pub: "length pub = 32"
    and acc: "verify S prf x pub = Ret True" "verify S' prf' x pub = Ret True"
    and c: "c = le_int (tr_challenge S (tr x pub (prf_a prf)))"
    and c': "c' = le_int (tr_challenge S' (tr x pub (prf_a prf)))"
    and u: "(u * (c - c')) mod group_order = 1"
  shows "auth_scalarmult_base S (sc (u * (sval (prf_s prf) - sval (prf_s prf')))) = Ret pub"
proof -
  let ?s = "sval (prf_s prf)" and ?s' = "sval (prf_s prf')"
  obtain j k where 1: "pub = enc k" "prf_a prf = enc j" "enc (c * k) \<noteq> enc 0" "enc ?s = enc (j + c * k)"
    using accepts_iff [OF R x wfp(1) pub] acc(1) by (auto simp: c Let_def)
  obtain j' k' where 2: "enc k = enc k'" "enc j = enc j'" "enc ?s' = enc (j' + c' * k')"
    using accepts_iff [OF R' x wfp(2) pub] acc(2) 1 wfp(3) by (auto simp: c' Let_def)
  have "?s' mod group_order = (j + c' * k) mod group_order"
    using 2 by (simp add: enc_eq_iff [OF R] mod_simps) (metis mod_add_cong mod_mult_right_eq)
  moreover have "?s mod group_order = (j + c * k) mod group_order"
    using 1 by (simp add: enc_eq_iff [OF R])
  ultimately have "(?s - ?s') mod group_order = ((j + c * k) - (j + c' * k)) mod group_order"
    by (rule mod_diff_cong [rotated])
  then have "(u * (?s - ?s')) mod group_order = (u * ((c - c') * k)) mod group_order"
    by (intro mod_mult_cong) (simp_all add: algebra_simps)
  also have "\<dots> = (u * (c - c') * k) mod group_order" by (simp only: mult.assoc)
  also have "\<dots> = k mod group_order"
    using u by (metis mod_mult_left_eq mult_1)
  finally have eq: "enc (sval (sc (u * (?s - ?s')))) = enc k" by (simp add: enc_eq_iff [OF R])
  have "enc k \<noteq> enc 0"
  proof
    assume "enc k = enc 0"
    then have "enc (c * k) = enc (c * 0)"
      by (simp add: enc_eq_iff [OF R]) (metis mod_mult_right_eq mult_zero_right mod_0)
    then show False using 1 by simp
  qed
  then show ?thesis using eq 1 by (simp add: base_mult [OF R])
qed

text \<open>A second proof for the same statement, with the non-canonical response \<open>s + L\<close>.\<close>

lemma malleable:
  assumes R: "ristretto255 S enc" and x: "wf_ctx x" and wfp: "wf_proof prf" and pub: "length pub = 32"
    and acc: "verify S prf x pub = Ret True" and s: "canonical (prf_s prf)"
  shows "\<exists>prf'. wf_proof prf' \<and> prf_a prf' = prf_a prf \<and> prf_s prf' \<noteq> prf_s prf \<and>
    \<not> canonical (prf_s prf') \<and> verify S prf' x pub = Ret True"
proof -
  let ?v = "le_int (prf_s prf) + group_order"
  let ?pr = "prf\<lparr>prf_s := le_enc 32 ?v\<rparr>"
  have v: "0 \<le> ?v" "?v < 2 ^ 255" "?v < 256 ^ 32" "group_order \<le> ?v"
    using s group_order_bounds le_int_nonneg [of "prf_s prf"] by (simp_all add: canonical_def)
  then have le: "le_int (prf_s ?pr) = ?v" by (simp add: le_int_le_enc)
  then have sv: "sval (prf_s ?pr) = ?v" using v by (simp add: sval_def)
  have nc: "\<not> canonical (prf_s ?pr)" using v(4) le unfolding canonical_def by linarith
  have wf: "wf_proof ?pr" using wfp by (simp add: wf_proof_def)
  have "enc (sval (prf_s ?pr)) = enc (sval (prf_s prf))"
    unfolding sv using s by (simp add: enc_eq_iff [OF R] sval_canonical)
  then have "verify S ?pr x pub = verify S prf x pub"
    using accepts_iff [OF R x wf pub] accepts_iff [OF R x wfp pub] by simp
  then show ?thesis using acc s nc wf by (intro exI [of _ ?pr]) auto
qed

end

subsection \<open>The four schemes\<close>

lemma base_mult_length:
  "ristretto255 S enc \<Longrightarrow> length s = 32 \<Longrightarrow> auth_scalarmult_base S s = Ret a \<Longrightarrow> length a = 32"
  by (auto simp: base_mult split: if_splits)

lemma length_reduce: "ristretto255 S enc \<Longrightarrow> length w = 64 \<Longrightarrow> length (sd_scalar_reduce S w) = 32"
  by (simp add: reduce_sc)

lemma base_mult_cong:
  assumes "ristretto255 S enc" and "length wide = 64"
    and "\<And>a. length a = 32 \<Longrightarrow> f a = g a"
  shows "bnd (auth_scalarmult_base S (sd_scalar_reduce S wide)) f =
         bnd (auth_scalarmult_base S (sd_scalar_reduce S wide)) g"
  using assms base_mult_length [OF assms(1) length_reduce [OF assms(1,2)]] by (intro bnd_cong) auto

type_synonym setup_ctx = "byte list \<times> byte list \<times> byte list \<times> byte list \<times> byte list"

fun wf_setup_ctx :: "setup_ctx \<Rightarrow> bool" where
  "wf_setup_ctx (device_id, peer_pub, client_nonce, server_nonce, setup_challenge) \<longleftrightarrow>
     length device_id = 32 \<and> length peer_pub = 32 \<and> length client_nonce = 32 \<and>
     length server_nonce = 32 \<and> length setup_challenge = 16"

interpretation setup_client: schnorr_scheme
  "\<lambda>S wide x (device_id, server_pub, client_nonce, server_nonce, setup_challenge) device_pub.
     auth_prove_setup_client S wide x device_id device_pub server_pub client_nonce server_nonce setup_challenge"
  "\<lambda>S prf (device_id, server_pub, client_nonce, server_nonce, setup_challenge) device_pub.
     auth_verify_setup_client S prf device_id device_pub server_pub client_nonce server_nonce setup_challenge"
  "\<lambda>(device_id, server_pub, client_nonce, server_nonce, setup_challenge) device_pub a.
     tr_setup_client device_id device_pub server_pub a client_nonce server_nonce setup_challenge"
  wf_setup_ctx
proof (unfold_locales, goal_cases)
  case (1 S enc x sk wide pub)
  have "length pub = 32" using base_mult_length [OF 1(1,3,5)] .
  with 1 show ?case
    by (cases x) (auto simp: auth_prove_setup_client_def auth_prove_setup_client_with_bytes_def
        auth_scalar_from_wide_def g_times_def setup_client_challenge_eq tr_challenge_def Let_def
        intro!: base_mult_cong [OF 1(1,4)])
next
  case (2 p x pub S)
  then show ?case
    by (cases x) (auto simp: auth_verify_setup_client_def schnorr_check_def setup_client_challenge_eq
        or_zero_def [of "Ret _"] tr_challenge_def wf_proof_def)
qed

interpretation setup_server: schnorr_scheme
  "\<lambda>S wide server_sk (device_id, device_pub, client_nonce, server_nonce, setup_challenge) server_pub.
     auth_prove_setup_server S wide server_sk device_id device_pub server_pub client_nonce server_nonce setup_challenge"
  "\<lambda>S prf (device_id, device_pub, client_nonce, server_nonce, setup_challenge) server_pub.
     auth_verify_setup_server S prf server_pub device_id device_pub client_nonce server_nonce setup_challenge"
  "\<lambda>(device_id, device_pub, client_nonce, server_nonce, setup_challenge) server_pub a.
     tr_setup_server device_id device_pub server_pub a client_nonce server_nonce setup_challenge"
  wf_setup_ctx
proof (unfold_locales, goal_cases)
  case (1 S enc x sk wide pub)
  have "length pub = 32" using base_mult_length [OF 1(1,3,5)] .
  with 1 show ?case
    by (cases x) (auto simp: auth_prove_setup_server_def auth_prove_setup_server_with_bytes_def
        auth_scalar_from_wide_def g_times_def setup_server_challenge_eq tr_challenge_def Let_def
        intro!: base_mult_cong [OF 1(1,4)])
next
  case (2 p x pub S)
  then show ?case
    by (cases x) (auto simp: auth_verify_setup_server_def schnorr_check_def setup_server_challenge_eq
        or_zero_def [of "Ret _"] tr_challenge_def wf_proof_def)
qed

interpretation auth_client: schnorr_scheme
  "\<lambda>S wide x (pid, nonce_c, eph_c) pub. auth_prove_auth_client S wide x pid nonce_c eph_c"
  "\<lambda>S prf (pid, nonce_c, eph_c) device_pub. auth_verify_auth_client S prf device_pub pid nonce_c eph_c"
  "\<lambda>(pid, nonce_c, eph_c) device_pub a. tr_auth_client device_pub a pid nonce_c eph_c"
  "\<lambda>(pid, nonce_c, eph_c). length pid = 32 \<and> length nonce_c = 32 \<and> length eph_c = 32"
proof (unfold_locales, goal_cases)
  case (1 S enc x sk wide pub)
  have "length pub = 32" using base_mult_length [OF 1(1,3,5)] .
  with 1 show ?case
    by (cases x) (auto simp: auth_prove_auth_client_def auth_prove_auth_client_with_bytes_def
        auth_scalar_from_wide_def g_times_def auth_client_challenge_eq tr_challenge_def Let_def
        intro!: base_mult_cong [OF 1(1,4)])
next
  case (2 p x pub S)
  then show ?case
    by (cases x) (auto simp: auth_verify_auth_client_def schnorr_check_def auth_client_challenge_eq
        or_zero_def [of "Ret _"] tr_challenge_def wf_proof_def)
qed

interpretation auth_server: schnorr_scheme
  "\<lambda>S wide server_sk (nonce_s, eph_s) pub. auth_prove_auth_server S wide server_sk nonce_s eph_s"
  "\<lambda>S prf (nonce_s, eph_s) server_pub. auth_verify_auth_server S prf server_pub nonce_s eph_s"
  "\<lambda>(nonce_s, eph_s) server_pub a. tr_auth_server server_pub a nonce_s eph_s"
  "\<lambda>(nonce_s, eph_s). length nonce_s = 32 \<and> length eph_s = 32"
proof (unfold_locales, goal_cases)
  case (1 S enc x sk wide pub)
  have "length pub = 32" using base_mult_length [OF 1(1,3,5)] .
  with 1 show ?case
    by (cases x) (auto simp: auth_prove_auth_server_def auth_prove_auth_server_with_bytes_def
        auth_scalar_from_wide_def g_times_def auth_server_challenge_eq tr_challenge_def Let_def
        intro!: base_mult_cong [OF 1(1,4)])
next
  case (2 p x pub S)
  then show ?case
    by (cases x) (auto simp: auth_verify_auth_server_def schnorr_check_def auth_server_challenge_eq
        or_zero_def [of "Ret _"] tr_challenge_def wf_proof_def)
qed

subsection \<open>Properties\<close>

lemma ristretto255_rehash:
  "ristretto255 S enc \<Longrightarrow> (\<And>m. length (H m) = 64) \<Longrightarrow> ristretto255 (S\<lparr>sd_sha512 := H\<rparr>) enc"
proof -
  assume R: "ristretto255 S enc" and H: "\<And>m. length (H m) = 64"
  have "encoding_laws (S\<lparr>sd_sha512 := H\<rparr>) enc = encoding_laws S enc" by (simp add: encoding_laws_def)
  moreover have "multiplication_laws (S\<lparr>sd_sha512 := H\<rparr>) enc = multiplication_laws S enc"
    by (simp add: multiplication_laws_def)
  moreover have "addition_laws (S\<lparr>sd_sha512 := H\<rparr>) enc = addition_laws S enc"
    by (simp add: addition_laws_def)
  moreover have "scalar_laws (S\<lparr>sd_sha512 := H\<rparr>) = scalar_laws S" by (simp add: scalar_laws_def)
  moreover have "digest_lengths (S\<lparr>sd_sha512 := H\<rparr>)"
    using ristretto255_digests [OF R] H by (simp add: digest_lengths_def)
  ultimately show ?thesis using R by (simp add: ristretto255_def)
qed

lemma toy_base: "k mod group_order \<noteq> 0 \<Longrightarrow> auth_scalarmult_base toy_sodium (sc k) = Ret (toy_enc k)"
  by (simp add: base_mult [OF toy_ristretto255] enc_eq_iff [OF toy_ristretto255])

text \<open>A client that knows the secret behind its public key convinces the server: the proof it
  builds verifies, except in the event that the challenge times the key or the response is zero
  modulo the group order, which the verifier refuses because libsodium rejects identity results.\<close>

theorem auth_client_completeness:
  assumes "ristretto255 S enc" and "canonical x" and "auth_scalarmult_base S x = Ret pub"
    and "length wide = 64" and "le_int wide mod group_order \<noteq> 0"
    and "length pid = 32" and "length nonce_c = 32" and "length eph_c = 32"
  shows "\<exists>prf. auth_prove_auth_client S wide x pid nonce_c eph_c = Ret prf \<and> wf_proof prf \<and>
    auth_verify_auth_client S prf pub pid nonce_c eph_c =
      Ret (prf_s prf \<noteq> sc 0 \<and>
           (le_int (tr_challenge S (tr_auth_client pub (prf_a prf) pid nonce_c eph_c)) * le_int x)
             mod group_order \<noteq> 0)"
  using auth_client.complete [OF assms(1) _ assms(2,4,3,5), of "(pid, nonce_c, eph_c)"] assms(6-8)
  by auto

theorem auth_client_completeness_witness:
  "\<exists>prf. auth_prove_auth_client toy_sodium (le_enc 64 7) (sc 5) (replicate 32 1) (replicate 32 2) (replicate 32 3) =
      Ret prf \<and> wf_proof prf \<and>
    auth_verify_auth_client toy_sodium prf (toy_enc 5) (replicate 32 1) (replicate 32 2) (replicate 32 3) =
      Ret (prf_s prf \<noteq> sc 0 \<and>
           (le_int (tr_challenge toy_sodium
              (tr_auth_client (toy_enc 5) (prf_a prf) (replicate 32 1) (replicate 32 2) (replicate 32 3))) *
            le_int (sc 5)) mod group_order \<noteq> 0)"
proof (rule auth_client_completeness [OF toy_ristretto255])
  show "auth_scalarmult_base toy_sodium (sc 5) = Ret (toy_enc 5)"
    by (rule toy_base) (simp add: group_order_def)
qed (simp_all add: le_int_le_enc group_order_def)

text \<open>C14: Special soundness of the client proof: from two accepting proofs with the same commitment
  whose challenges differ by an invertible amount, the secret key of the device is computed, so
  nobody without it can answer more than one challenge.\<close>

theorem auth_client_special_soundness:
  assumes "ristretto255 S enc" and "ristretto255 S' enc"
    and "wf_proof p" and "wf_proof p'" and "prf_a p' = prf_a p"
    and "length pub = 32" and "length pid = 32" and "length nonce_c = 32" and "length eph_c = 32"
    and "auth_verify_auth_client S p pub pid nonce_c eph_c = Ret True"
    and "auth_verify_auth_client S' p' pub pid nonce_c eph_c = Ret True"
    and "c = le_int (tr_challenge S (tr_auth_client pub (prf_a p) pid nonce_c eph_c))"
    and "c' = le_int (tr_challenge S' (tr_auth_client pub (prf_a p) pid nonce_c eph_c))"
    and "(u * (c - c')) mod group_order = 1"
  shows "auth_scalarmult_base S (sc (u * (sval (prf_s p) - sval (prf_s p')))) = Ret pub"
  using auth_client.special_sound [of S enc S' "(pid, nonce_c, eph_c)" p p' pub c c' u] assms
  by simp

definition rewound_sodium :: "int \<Rightarrow> sodium" where
  "rewound_sodium c = toy_sodium\<lparr>sd_sha512 := \<lambda>_. le_enc 64 c\<rparr>"

lemma rewound_ristretto: "ristretto255 (rewound_sodium c) toy_enc"
  unfolding rewound_sodium_def by (rule ristretto255_rehash [OF toy_ristretto255]) simp

lemma rewound_challenge: "0 \<le> c \<Longrightarrow> c < group_order \<Longrightarrow> le_int (tr_challenge (rewound_sodium c) t) = c"
proof -
  assume c: "0 \<le> c" "c < group_order"
  then have "c < 256 ^ 64" by (simp add: group_order_def)
  then have "le_int (le_enc 64 c) = c" using c by (simp add: le_int_le_enc)
  then show ?thesis using c by (simp add: tr_challenge_sc [OF rewound_ristretto]) (simp add: rewound_sodium_def)
qed

lemma rewound_accepts:
  assumes "0 < c" and "c < 100"
  shows "auth_verify_auth_client (rewound_sodium c) \<lparr>prf_a = toy_enc 3, prf_s = sc (3 + c * 5)\<rparr> (toy_enc 5)
    (replicate 32 1) (replicate 32 2) (replicate 32 3) = Ret True"
proof -
  have wf: "wf_proof \<lparr>prf_a = toy_enc 3, prf_s = sc (3 + c * 5)\<rparr>"
    by (simp add: wf_proof_def toy_enc_def)
  have small: "c < group_order" "3 + c * 5 < group_order" using assms by (simp_all add: group_order_def)
  show ?thesis
    using auth_client.verify_eq [OF wf, of "(replicate 32 1, replicate 32 2, replicate 32 3)" "toy_enc 5"
        "rewound_sodium c"] assms small
      schnorr_check_enc [OF rewound_ristretto canonical_tr_challenge [OF rewound_ristretto] wf, of 3]
    by (simp add: rewound_challenge enc_eq_iff [OF toy_ristretto255] length_enc [OF toy_ristretto255])
qed

theorem auth_client_special_soundness_witness:
  "auth_scalarmult_base (rewound_sodium 1) (sc (- 1 * (sval (sc 8) - sval (sc 13)))) = Ret (toy_enc 5)"
proof (rule auth_client_special_soundness [OF rewound_ristretto rewound_ristretto, where
      p = "\<lparr>prf_a = toy_enc 3, prf_s = sc 8\<rparr>" and p' = "\<lparr>prf_a = toy_enc 3, prf_s = sc 13\<rparr>"
      and c = 1 and c' = 2 and u = "- 1", simplified auth_schnorr_proof.select_convs])
  show "auth_verify_auth_client (rewound_sodium 1) \<lparr>prf_a = toy_enc 3, prf_s = sc 8\<rparr> (toy_enc 5)
      (replicate 32 1) (replicate 32 2) (replicate 32 3) = Ret True"
    using rewound_accepts [of 1] by simp
  show "auth_verify_auth_client (rewound_sodium 2) \<lparr>prf_a = toy_enc 3, prf_s = sc 13\<rparr> (toy_enc 5)
      (replicate 32 1) (replicate 32 2) (replicate 32 3) = Ret True"
    using rewound_accepts [of 2] by simp
  have "1 < group_order" "2 < group_order" by (simp_all add: group_order_def)
  then show "1 = le_int (tr_challenge (rewound_sodium 1) (tr_auth_client (toy_enc 5) (toy_enc 3)
      (replicate 32 1) (replicate 32 2) (replicate 32 3)))"
    and "2 = le_int (tr_challenge (rewound_sodium 2) (tr_auth_client (toy_enc 5) (toy_enc 3)
      (replicate 32 1) (replicate 32 2) (replicate 32 3)))"
    by (simp_all add: rewound_challenge)
qed (simp_all add: wf_proof_def toy_enc_def group_order_def)

lemma tr_setup_client_inject:
  assumes "list_all (\<lambda>b. length b = 32) [d, p, q, a, n, m, d', p', q', a', n', m']"
    and "length h = 16" and "length h' = 16"
  shows "tr_setup_client d p q a n m h = tr_setup_client d' p' q' a' n' m' h' \<longleftrightarrow>
    (d, p, q, a, n, m, h) = (d', p', q', a', n', m', h')"
  using assms unfolding tr_setup_client_def
  by (subst tr_encode_inject) (simp_all add: tr_items_ok_def domain_defs)

lemma tr_setup_server_inject:
  assumes "list_all (\<lambda>b. length b = 32) [d, p, q, a, n, m, d', p', q', a', n', m']"
    and "length h = 16" and "length h' = 16"
  shows "tr_setup_server d p q a n m h = tr_setup_server d' p' q' a' n' m' h' \<longleftrightarrow>
    (d, p, q, a, n, m, h) = (d', p', q', a', n', m', h')"
  using assms unfolding tr_setup_server_def
  by (subst tr_encode_inject) (simp_all add: tr_items_ok_def domain_defs)

lemma tr_auth_client_inject:
  assumes "list_all (\<lambda>b. length b = 32) [p, a, i, n, e, p', a', i', n', e']"
  shows "tr_auth_client p a i n e = tr_auth_client p' a' i' n' e' \<longleftrightarrow> (p, a, i, n, e) = (p', a', i', n', e')"
  using assms unfolding tr_auth_client_def
  by (subst tr_encode_inject) (auto simp: tr_items_ok_def domain_defs)

lemma tr_auth_server_inject:
  assumes "list_all (\<lambda>b. length b = 32) [p, a, n, e, p', a', n', e']"
  shows "tr_auth_server p a n e = tr_auth_server p' a' n' e' \<longleftrightarrow> (p, a, n, e) = (p', a', n', e')"
  using assms unfolding tr_auth_server_def
  by (subst tr_encode_inject) (simp_all add: tr_items_ok_def domain_defs)

text \<open>A transcript starts with the length of its domain separator and the separator, so
  transcripts with different separators differ whatever follows.\<close>

lemma tr_encode_domain_neq:
  assumes "length d \<le> 255" and "length d' \<le> 255" and "d \<noteq> d'"
  shows "tr_encode d is \<noteq> tr_encode d' js"
proof
  assume eq: "tr_encode d is = tr_encode d' js"
  then have "(of_nat (length d) :: byte) = of_nat (length d')" by (simp add: tr_encode_def)
  then have "length d = length d'" using assms by (simp only: of_nat_byte_inject)
  then show False using eq assms by (simp add: tr_encode_def)
qed

text \<open>The challenge of every Schnorr proof binds its whole statement: the hashed transcript
  determines the key, the commitment, the identities, nonces and challenges that went into it, and
  transcripts of different proof kinds never coincide, so a proof made for one message of the
  protocol is never a proof for another.\<close>

theorem schnorr_challenges_bind:
  assumes "list_all (\<lambda>b. length b = 32) [d, p, q, a, n, m, i, e, d', p', q', a', n', m', i', e']"
    and "length h = 16" and "length h' = 16"
  shows "(tr_setup_client d p q a n m h = tr_setup_client d' p' q' a' n' m' h' \<longleftrightarrow>
       (d, p, q, a, n, m, h) = (d', p', q', a', n', m', h')) \<and>
    (tr_setup_server d p q a n m h = tr_setup_server d' p' q' a' n' m' h' \<longleftrightarrow>
       (d, p, q, a, n, m, h) = (d', p', q', a', n', m', h')) \<and>
    (tr_auth_client p a i n e = tr_auth_client p' a' i' n' e' \<longleftrightarrow>
       (p, a, i, n, e) = (p', a', i', n', e')) \<and>
    (tr_auth_server p a n e = tr_auth_server p' a' n' e' \<longleftrightarrow> (p, a, n, e) = (p', a', n', e')) \<and>
    distinct [tr_setup_client d p q a n m h, tr_setup_server d' p' q' a' n' m' h',
              tr_auth_client p a i n e, tr_auth_server p' a' n' e']"
proof -
  have "distinct [tr_setup_client d p q a n m h, tr_setup_server d' p' q' a' n' m' h',
      tr_auth_client p a i n e, tr_auth_server p' a' n' e']"
    by (simp add: tr_setup_client_def tr_setup_server_def tr_auth_client_def tr_auth_server_def
        tr_encode_domain_neq domain_defs)
  then show ?thesis
    using assms by (simp add: tr_setup_client_inject tr_setup_server_inject tr_auth_client_inject
        tr_auth_server_inject del: distinct.simps)
qed

theorem schnorr_challenges_bind_witness:
  "tr_auth_client (replicate 32 1) (replicate 32 2) (replicate 32 3) (replicate 32 4) (replicate 32 5) \<noteq>
   tr_auth_client (replicate 32 1) (replicate 32 2) (replicate 32 3) (replicate 32 4) (replicate 32 6)"
  using schnorr_challenges_bind [of "replicate 32 0" "replicate 32 1" "replicate 32 0" "replicate 32 2"
      "replicate 32 4" "replicate 32 0" "replicate 32 3" "replicate 32 5" "replicate 32 0" "replicate 32 1"
      "replicate 32 0" "replicate 32 2" "replicate 32 4" "replicate 32 0" "replicate 32 3" "replicate 32 6"
      "replicate 16 0" "replicate 16 0"]
  by (simp add: replicate_eq_replicate)

text \<open>Verification does not pin down the encoding of the response: an accepted client proof with a
  canonical response is also accepted with the response \<open>s + L\<close>, a different packet that is
  not a canonical scalar. The handlers never call \<^verbatim>\<open>auth_check_scalar\<close>.\<close>

theorem auth_client_malleable:
  assumes "ristretto255 S enc" and "wf_proof p" and "canonical (prf_s p)"
    and "length pub = 32" and "length pid = 32" and "length nonce_c = 32" and "length eph_c = 32"
    and "auth_verify_auth_client S p pub pid nonce_c eph_c = Ret True"
  shows "\<exists>p'. wf_proof p' \<and> prf_a p' = prf_a p \<and> prf_s p' \<noteq> prf_s p \<and> \<not> canonical (prf_s p') \<and>
    auth_verify_auth_client S p' pub pid nonce_c eph_c = Ret True"
  using auth_client.malleable [of S enc "(pid, nonce_c, eph_c)" p pub] assms by simp

theorem auth_client_malleable_witness:
  "\<exists>p'. wf_proof p' \<and> prf_a p' = toy_enc 3 \<and> prf_s p' \<noteq> sc 8 \<and> \<not> canonical (prf_s p') \<and>
    auth_verify_auth_client (rewound_sodium 1) p' (toy_enc 5) (replicate 32 1) (replicate 32 2)
      (replicate 32 3) = Ret True"
  using auth_client_malleable [OF rewound_ristretto, of "\<lparr>prf_a = toy_enc 3, prf_s = sc 8\<rparr>" "toy_enc 5"
      "replicate 32 1" "replicate 32 2" "replicate 32 3" 1] rewound_accepts [of 1]
  by (simp add: wf_proof_def toy_enc_def)

text \<open>The enrolment proofs of client and server and the authentication proof of the server are
  complete in the same sense: built with the secret key they verify, unless the response or the
  product of challenge and key is zero modulo the group order.\<close>

theorem other_proofs_completeness:
  assumes "ristretto255 S enc" and "canonical sk" and "auth_scalarmult_base S sk = Ret pub"
    and "length wide = 64" and "le_int wide mod group_order \<noteq> 0"
    and "list_all (\<lambda>b. length b = 32) [device_id, peer, nonce_c, nonce_s, eph_s]" and "length ch = 16"
  shows "(\<exists>prf. auth_prove_setup_client S wide sk device_id pub peer nonce_c nonce_s ch = Ret prf \<and> wf_proof prf \<and>
      auth_verify_setup_client S prf device_id pub peer nonce_c nonce_s ch =
        Ret (prf_s prf \<noteq> sc 0 \<and> (le_int (tr_challenge S
          (tr_setup_client device_id pub peer (prf_a prf) nonce_c nonce_s ch)) * le_int sk) mod group_order \<noteq> 0)) \<and>
    (\<exists>prf. auth_prove_setup_server S wide sk device_id peer pub nonce_c nonce_s ch = Ret prf \<and> wf_proof prf \<and>
      auth_verify_setup_server S prf pub device_id peer nonce_c nonce_s ch =
        Ret (prf_s prf \<noteq> sc 0 \<and> (le_int (tr_challenge S
          (tr_setup_server device_id peer pub (prf_a prf) nonce_c nonce_s ch)) * le_int sk) mod group_order \<noteq> 0)) \<and>
    (\<exists>prf. auth_prove_auth_server S wide sk nonce_s eph_s = Ret prf \<and> wf_proof prf \<and>
      auth_verify_auth_server S prf pub nonce_s eph_s =
        Ret (prf_s prf \<noteq> sc 0 \<and> (le_int (tr_challenge S
          (tr_auth_server pub (prf_a prf) nonce_s eph_s)) * le_int sk) mod group_order \<noteq> 0))"
proof (intro conjI)
qed (use setup_client.complete [OF assms(1) _ assms(2,4,3,5), of "(device_id, peer, nonce_c, nonce_s, ch)"]
      setup_server.complete [OF assms(1) _ assms(2,4,3,5), of "(device_id, peer, nonce_c, nonce_s, ch)"]
      auth_server.complete [OF assms(1) _ assms(2,4,3,5), of "(nonce_s, eph_s)"] assms(6,7) in auto)

theorem other_proofs_completeness_witness:
  "\<exists>prf. auth_prove_auth_server toy_sodium (le_enc 64 7) (sc 5) (replicate 32 2) (replicate 32 3) = Ret prf \<and>
      wf_proof prf"
proof -
  have "auth_scalarmult_base toy_sodium (sc 5) = Ret (toy_enc 5)"
    by (rule toy_base) (simp add: group_order_def)
  moreover have "le_int (le_enc 64 7) mod group_order \<noteq> 0" by (simp add: le_int_le_enc group_order_def)
  ultimately show ?thesis
    using other_proofs_completeness [OF toy_ristretto255 canonical_sc [of 5], of "toy_enc 5" "le_enc 64 7"
        "replicate 32 1" "replicate 32 1" "replicate 32 1" "replicate 32 2" "replicate 32 3" "replicate 16 0"]
    by auto
qed

end
