(* ===== verification/RoleProofs.thy ===== *)
theory RoleProofs
  imports Proofs
begin

text \<open>
  \<^verbatim>\<open>c/src/crypto/proofs.c\<close>, lines 418 to 798: Pedersen commitments to a role, their
  rerandomisation and its proof, and the CDS-OR proof that the committed role is one of a
  permitted list. Local arrays that the code fills from index 0 upwards are lists that grow at
  the end.
\<close>

subsection \<open>Role commitments\<close>

definition auth_make_role_commitment :: "sodium \<Rightarrow> u64 \<Rightarrow> byte list \<Rightarrow> (auth_err, byte list) cres" where
  "auth_make_role_commitment S role_code blind =
     (let role_s = auth_scalar_from_u64 role_code in
      bnd (auth_attr_h S) (\<lambda>h.
      bnd (auth_scalarmult_base S role_s) (\<lambda>g_role.
      bnd (auth_scalarmult S blind h) (\<lambda>h_blind.
      auth_point_add S g_role h_blind))))"

definition auth_rerandomize_commitment ::
    "sodium \<Rightarrow> byte list \<Rightarrow> byte list \<Rightarrow> byte list \<Rightarrow> (auth_err, byte list \<times> byte list) cres" where
  "auth_rerandomize_commitment S stored_c stored_blind delta =
     bnd (auth_attr_h S) (\<lambda>h.
     bnd (auth_scalarmult S delta h) (\<lambda>h_delta.
     bnd (auth_point_add S stored_c h_delta) (\<lambda>c_prime.
     Ret (c_prime, auth_scalar_add S stored_blind delta))))"

subsection \<open>Rerandomisation proof\<close>

definition rerand_challenge ::
    "sodium \<Rightarrow> byte list \<Rightarrow> byte list \<Rightarrow> byte list \<Rightarrow> byte list \<Rightarrow> byte list \<Rightarrow> byte list \<Rightarrow>
     (auth_err, byte list) cres" where
  "rerand_challenge S pid nonce_c eph_c stored_c c_prime a =
     tr_then (auth_transcript_init tr_fresh (Some auth_ds_role_rerand) (length auth_ds_role_rerand)) (\<lambda>t.
     tr_then (auth_transcript_append t (Some (ascii ''pid'')) 3 (Some pid) 32) (\<lambda>t.
     tr_then (auth_transcript_append t (Some (ascii ''nonce_c'')) 7 (Some nonce_c) 32) (\<lambda>t.
     tr_then (auth_transcript_append_point t (ascii ''eph_c'') eph_c) (\<lambda>t.
     tr_then (auth_transcript_append_point t (ascii ''stored_c'') stored_c) (\<lambda>t.
     tr_then (auth_transcript_append_point t (ascii ''c_prime'') c_prime) (\<lambda>t.
     tr_then (auth_transcript_append_point t (ascii ''a'') a) (\<lambda>t.
     auth_transcript_challenge S t)))))))"

definition auth_prove_rerandomization_with_bytes ::
    "sodium \<Rightarrow> byte list \<Rightarrow> byte list \<Rightarrow> byte list \<Rightarrow> byte list \<Rightarrow> byte list \<Rightarrow> byte list \<Rightarrow> byte list \<Rightarrow>
     (auth_err, auth_schnorr_proof) cres" where
  "auth_prove_rerandomization_with_bytes S wide_r stored_c c_prime delta pid nonce_c eph_c =
     bnd (auth_attr_h S) (\<lambda>h.
     let r = auth_scalar_from_wide S wide_r in
     bnd (auth_scalarmult S r h) (\<lambda>a.
     bnd (rerand_challenge S pid nonce_c eph_c stored_c c_prime a) (\<lambda>c.
     let cd = auth_scalar_mul S c delta
     in Ret \<lparr>prf_a = a, prf_s = auth_scalar_add S r cd\<rparr>)))"

definition auth_prove_rerandomization ::
    "sodium \<Rightarrow> byte list \<Rightarrow> byte list \<Rightarrow> byte list \<Rightarrow> byte list \<Rightarrow> byte list \<Rightarrow> byte list \<Rightarrow> byte list \<Rightarrow>
     (auth_err, auth_schnorr_proof) cres" where
  "auth_prove_rerandomization S wide stored_c c_prime delta pid nonce_c eph_c =
     auth_prove_rerandomization_with_bytes S wide stored_c c_prime delta pid nonce_c eph_c"

definition auth_verify_rerandomization ::
    "sodium \<Rightarrow> auth_schnorr_proof \<Rightarrow> byte list \<Rightarrow> byte list \<Rightarrow> byte list \<Rightarrow> byte list \<Rightarrow> byte list \<Rightarrow>
     (auth_err, bool) cres" where
  "auth_verify_rerandomization S prf stored_c c_prime pid nonce_c eph_c =
     or_zero (auth_attr_h S) (\<lambda>h.
     or_zero (rerand_challenge S pid nonce_c eph_c stored_c c_prime (prf_a prf)) (\<lambda>c.
     or_zero (auth_scalarmult S (prf_s prf) h) (\<lambda>hs.
     or_zero (auth_point_sub S c_prime stored_c) (\<lambda>diff.
     or_zero (auth_scalarmult S c diff) (\<lambda>diff_c.
     or_zero (auth_point_add S (prf_a prf) diff_c) (\<lambda>rhs.
     Ret (points_equal hs rhs)))))))"

subsection \<open>Role set membership\<close>

text \<open>\<^verbatim>\<open>snprintf(label, sizeof label, "x_%zu", i)\<close>\<close>

fun show_nat :: "nat \<Rightarrow> string" where
  "show_nat n =
     (if n < 10 then [char_of (48 + n)] else show_nat (n div 10) @ [char_of (48 + n mod 10)])"

declare show_nat.simps [simp del]

definition indexed_label :: "string \<Rightarrow> nat \<Rightarrow> byte list" where
  "indexed_label prefix i = ascii (prefix @ show_nat i)"

definition u64_get :: "u64 list \<Rightarrow> nat \<Rightarrow> (auth_err, u64) cres" where
  "u64_get xs i = (if i < length xs then Ret (xs ! i) else Fault)"

definition role_set_master_challenge ::
    "sodium \<Rightarrow> u64 list \<Rightarrow> nat \<Rightarrow> byte list \<Rightarrow> byte list \<Rightarrow> byte list \<Rightarrow> byte list \<Rightarrow> byte list \<Rightarrow>
     (auth_err, byte list) cres" where
  "role_set_master_challenge S roles n c_prime A_points pid nonce_c eph_c =
     tr_then (auth_transcript_init tr_fresh (Some auth_ds_role_set) (length auth_ds_role_set)) (\<lambda>t.
     tr_then (auth_transcript_append t (Some (ascii ''pid'')) 3 (Some pid) 32) (\<lambda>t.
     tr_then (auth_transcript_append t (Some (ascii ''nonce_c'')) 7 (Some nonce_c) 32) (\<lambda>t.
     tr_then (auth_transcript_append_point t (ascii ''eph_c'') eph_c) (\<lambda>t.
     tr_then (auth_transcript_append_point t (ascii ''c_prime'') c_prime) (\<lambda>t.
     bnd (loop (\<lambda>i t.
            let label = indexed_label ''r_'' i in
            if length label \<ge> 16 then Fail AUTH_ERR_INVALID_ARGUMENT
            else bnd (u64_get roles i) (\<lambda>r. tr_then (auth_transcript_append_u64 t label r) Ret))
          [0..<n] t) (\<lambda>t.
     bnd (loop (\<lambda>i t.
            let label = indexed_label ''A_'' i in
            if length label \<ge> 16 then Fail AUTH_ERR_INVALID_ARGUMENT
            else bnd (rdn A_points (32 * i) 32) (\<lambda>A. tr_then (auth_transcript_append_point t label A) Ret))
          [0..<n] t) (\<lambda>t.
     auth_transcript_challenge S t)))))))"

text \<open>\<^verbatim>\<open>Y_i = c_prime - g*r_i\<close>\<close>

definition role_Y :: "sodium \<Rightarrow> u64 list \<Rightarrow> byte list \<Rightarrow> nat \<Rightarrow> (auth_err, byte list) cres" where
  "role_Y S roles c_prime i =
     bnd (u64_get roles i) (\<lambda>r.
     bnd (auth_scalarmult_base S (auth_scalar_from_u64 r)) (\<lambda>gr.
     auth_point_sub S c_prime gr))"

fun true_index :: "u64 list \<Rightarrow> u64 \<Rightarrow> nat" where
  "true_index [] code = 0"
| "true_index (r # rs) code = (if r = code then 0 else Suc (true_index rs code))"

text \<open>One round of the loop that builds the branches; the state is
  \<^verbatim>\<open>(consumed, w_true, branches, A_all)\<close>.\<close>

type_synonym set_state = "nat \<times> byte list \<times> auth_set_branch list \<times> byte list"

definition set_branch_step ::
    "sodium \<Rightarrow> byte list \<Rightarrow> byte list \<Rightarrow> byte list list \<Rightarrow> nat \<Rightarrow> nat \<Rightarrow> set_state \<Rightarrow> (auth_err, set_state) cres" where
  "set_branch_step S wide_bytes h Y true_idx i = (\<lambda>(consumed, w_true, branches, A_all).
     if i = true_idx then
       bnd (rdn wide_bytes consumed 64) (\<lambda>wide.
       let w = auth_scalar_from_wide S wide in
       bnd (auth_scalarmult S w h) (\<lambda>a.
       Ret (consumed + 64, w, branches @ [zero_branch\<lparr>br_a := a\<rparr>], A_all @ a)))
     else
       bnd (rdn wide_bytes consumed 64) (\<lambda>wide_c.
       bnd (rdn wide_bytes (consumed + 64) 64) (\<lambda>wide_s.
       let ci = auth_scalar_from_wide S wide_c; si = auth_scalar_from_wide S wide_s in
       bnd (auth_scalarmult S si h) (\<lambda>hs.
       bnd (auth_scalarmult S ci (Y ! i)) (\<lambda>yc.
       bnd (auth_point_sub S hs yc) (\<lambda>a.
       Ret (consumed + 128, w_true, branches @ [\<lparr>br_a = a, br_c = ci, br_s = si\<rparr>], A_all @ a)))))))"

definition auth_prove_role_set_membership_with_bytes ::
    "sodium \<Rightarrow> byte list \<Rightarrow> u64 list option \<Rightarrow> nat \<Rightarrow> byte list \<Rightarrow> u64 \<Rightarrow> byte list \<Rightarrow> byte list \<Rightarrow>
     byte list \<Rightarrow> byte list \<Rightarrow> (auth_err, auth_set_branch list) cres" where
  "auth_prove_role_set_membership_with_bytes S wide_bytes roles n c_prime role_code blind_prime
       pid nonce_c eph_c =
     (if roles = None \<or> n = 0 \<or> n > AUTH_MAX_ROLES then Fail AUTH_ERR_INVALID_ARGUMENT
      else
        bnd (if n \<le> length (the roles) then Ret (take n (the roles)) else Fault) (\<lambda>roles.
        let true_idx = true_index roles role_code in
        if true_idx = n then Fail AUTH_ERR_ROLE_NOT_PERMITTED
        else if length wide_bytes < 64 + 2 * 64 * (n - 1) then Fail AUTH_ERR_INVALID_ARGUMENT
        else
          bnd (auth_attr_h S) (\<lambda>h.
          bnd (loop (\<lambda>i Y. bnd (role_Y S roles c_prime i) (\<lambda>y. Ret (Y @ [y]))) [0..<n] []) (\<lambda>Y.
          bnd (loop (set_branch_step S wide_bytes h Y true_idx) [0..<n] (0, replicate 32 0, [], []))
            (\<lambda>(consumed, w_true, branches, A_all).
          bnd (role_set_master_challenge S roles n c_prime A_all pid nonce_c eph_c) (\<lambda>master_c.
          let sum_sim = fold (\<lambda>i sum. if i \<noteq> true_idx then auth_scalar_add S sum (br_c (branches ! i))
                                      else sum) [0..<n] (replicate 32 0);
              c_true = auth_scalar_sub S master_c sum_sim;
              cb = auth_scalar_mul S c_true blind_prime
          in Ret (branches[true_idx := (branches ! true_idx)
                    \<lparr>br_s := auth_scalar_add S w_true cb, br_c := c_true\<rparr>])))))))"

definition auth_prove_role_set_membership ::
    "sodium \<Rightarrow> byte list \<Rightarrow> u64 list option \<Rightarrow> nat \<Rightarrow> byte list \<Rightarrow> u64 \<Rightarrow> byte list \<Rightarrow> byte list \<Rightarrow>
     byte list \<Rightarrow> byte list \<Rightarrow> (auth_err, auth_set_branch list) cres" where
  "auth_prove_role_set_membership S buf roles n c_prime role_code blind_prime pid nonce_c eph_c =
     (if n = 0 \<or> n > AUTH_MAX_ROLES then Fail AUTH_ERR_INVALID_ARGUMENT
      else auth_prove_role_set_membership_with_bytes S (take (64 + 2 * 64 * (n - 1)) buf) roles n c_prime
             role_code blind_prime pid nonce_c eph_c)"

text \<open>The check \<^verbatim>\<open>h*s_i == A_i + Y_i*c_i\<close> of one branch.\<close>

definition branch_check :: "sodium \<Rightarrow> byte list \<Rightarrow> byte list \<Rightarrow> auth_set_branch \<Rightarrow> (auth_err, bool) cres" where
  "branch_check S h y b =
     or_zero (auth_scalarmult S (br_s b) h) (\<lambda>hs.
     or_zero (auth_scalarmult S (br_c b) y) (\<lambda>yc.
     or_zero (auth_point_add S (br_a b) yc) (\<lambda>rhs.
     Ret (points_equal hs rhs))))"

text \<open>\<^verbatim>\<open>for (...) { ...; if (!ok) return 0; } return 1;\<close>\<close>

fun branches_check :: "sodium \<Rightarrow> byte list \<Rightarrow> byte list list \<Rightarrow> auth_set_branch list \<Rightarrow> (auth_err, bool) cres" where
  "branches_check S h (y # ys) (b # bs) =
     bnd (branch_check S h y b) (\<lambda>ok. if ok then branches_check S h ys bs else Ret False)"
| "branches_check S h _ _ = Ret True"

definition auth_verify_role_set_membership ::
    "sodium \<Rightarrow> auth_set_branch list option \<Rightarrow> nat \<Rightarrow> u64 list option \<Rightarrow> nat \<Rightarrow> byte list \<Rightarrow> byte list \<Rightarrow>
     byte list \<Rightarrow> byte list \<Rightarrow> (auth_err, bool) cres" where
  "auth_verify_role_set_membership S branches n_branches roles n_roles c_prime pid nonce_c eph_c =
     (if branches = None \<or> roles = None \<or> n_branches \<noteq> n_roles \<or> n_roles = 0 \<or> n_roles > AUTH_MAX_ROLES
      then Ret False
      else
        bnd (if n_roles \<le> length (the branches) \<and> n_roles \<le> length (the roles)
             then Ret (take n_roles (the branches), take n_roles (the roles)) else Fault)
          (\<lambda>(branches, roles).
        or_zero (auth_attr_h S) (\<lambda>h.
        or_zero (loop (\<lambda>i Y. bnd (role_Y S roles c_prime i) (\<lambda>y. Ret (Y @ [y]))) [0..<n_roles] []) (\<lambda>Y.
        let A_all = concat (map br_a branches) in
        or_zero (role_set_master_challenge S roles n_roles c_prime A_all pid nonce_c eph_c) (\<lambda>master_c.
        let sum = fold (\<lambda>b sum. auth_scalar_add S sum (br_c b)) branches (replicate 32 0) in
        if \<not> points_equal sum master_c then Ret False
        else branches_check S h Y branches)))))"

subsection \<open>Scalars of roles\<close>

lemma le_int_append: "le_int (a @ b) = le_int a + 256 ^ length a * le_int b"
  by (induction a) (simp_all add: algebra_simps)

lemma le_int_replicate_0 [simp]: "le_int (replicate n 0) = 0"
  by (induction n) simp_all

lemma le_int_le_bytes:
  "8 * n \<le> LENGTH('a::len) \<Longrightarrow> le_int (le_bytes n (w :: 'a word)) = uint w mod 256 ^ n"
proof (induction n arbitrary: w)
  case 0
  then show ?case by (simp add: le_bytes_def)
next
  case (Suc n)
  have "le_bytes (Suc n) w = ucast w # le_bytes n (drop_bit 8 w)"
    by (simp add: le_bytes_def upt_conv_Cons map_Suc_upt [symmetric] drop_bit_drop_bit add.commute
        del: upt_Suc map_Suc_upt)
  moreover have "uint (drop_bit 8 w) = uint w div 256"
    by (simp only: unsigned_drop_bit_eq) (simp add: drop_bit_eq_div take_bit_int_eq_self)
  moreover have "uint (ucast w :: byte) = uint w mod 256" by (simp add: unsigned_ucast_eq take_bit_eq_mod)
  moreover have "uint w mod (256 * 256 ^ n) = 256 * (uint w div 256 mod 256 ^ n) + uint w mod 256"
    by (rule zmod_zmult2_eq) simp
  ultimately show ?case using Suc by simp
qed

lemma from_u64_scalar:
  "length (auth_scalar_from_u64 r) = 32" "le_int (auth_scalar_from_u64 r) = uint r"
  "sval (auth_scalar_from_u64 r) = uint r" "uint r mod group_order = uint r"
proof -
  have lt: "uint r < 2 ^ 64" using uint_lt2p [of r] by simp
  show 1: "le_int (auth_scalar_from_u64 r) = uint r"
    using lt by (simp add: from_u64_eq le_int_append le_int_le_bytes)
  show "length (auth_scalar_from_u64 r) = 32" by (simp add: from_u64_eq)
  show "sval (auth_scalar_from_u64 r) = uint r" using lt by (simp add: sval_def 1)
  show "uint r mod group_order = uint r"
    using lt by (simp add: group_order_def)
qed

lemma role_Y_enc:
  assumes R: "ristretto255 S enc" and "i < length roles"
  shows "role_Y S roles (enc C) i =
    (if roles ! i = 0 then Fail AUTH_ERR_INVALID_POINT else Ret (enc (C - uint (roles ! i))))"
proof -
  have "enc (uint (roles ! i)) = enc 0 \<longleftrightarrow> roles ! i = 0"
    by (simp add: enc_eq_iff [OF R] from_u64_scalar uint_0_iff)
  then show ?thesis
    using assms by (simp add: role_Y_def u64_get_def base_mult [OF R] points_sub [OF R] from_u64_scalar)
qed

lemma role_Y_invalid:
  assumes R: "ristretto255 S enc" and "i < length roles" and "c_prime \<notin> range enc"
  shows "role_Y S roles c_prime i = Fail AUTH_ERR_INVALID_POINT"
  using assms by (simp add: role_Y_def u64_get_def base_mult [OF R] points_sub_invalid [OF R] from_u64_scalar)

lemma role_Ys:
  assumes R: "ristretto255 S enc" and "n \<le> length roles"
  shows "loop (\<lambda>i Y. bnd (role_Y S roles (enc C) i) (\<lambda>y. Ret (Y @ [y]))) [0..<n] [] =
    (if 0 \<in> set (take n roles) then Fail AUTH_ERR_INVALID_POINT
     else Ret (map (\<lambda>r. enc (C - uint r)) (take n roles)))"
  using assms(2)
proof (induction n)
  case (Suc n)
  then show ?case
    by (cases "roles ! n = 0") (auto simp: loop_append role_Y_enc [OF R] take_Suc_conv_app_nth)
qed simp

subsection \<open>Rerandomisation\<close>

definition tr_rerand ::
    "byte list \<Rightarrow> byte list \<Rightarrow> byte list \<Rightarrow> byte list \<Rightarrow> byte list \<Rightarrow> byte list \<Rightarrow> byte list" where
  "tr_rerand pid nonce_c eph_c stored_c c_prime a =
     tr_encode auth_ds_role_rerand
     [(ascii ''pid'', pid), (ascii ''nonce_c'', nonce_c), (ascii ''eph_c'', eph_c),
      (ascii ''stored_c'', stored_c), (ascii ''c_prime'', c_prime), (ascii ''a'', a)]"

lemma rerand_challenge_eq:
  "length pid = 32 \<Longrightarrow> length nonce_c = 32 \<Longrightarrow> length eph_c = 32 \<Longrightarrow> length stored_c = 32 \<Longrightarrow>
   length c_prime = 32 \<Longrightarrow> length a = 32 \<Longrightarrow>
   rerand_challenge S pid nonce_c eph_c stored_c c_prime a =
     Ret (tr_challenge S (tr_rerand pid nonce_c eph_c stored_c c_prime a))"
  by (simp add: rerand_challenge_def tr_rerand_def tr_challenge_def transcript_simps domain_defs)

text \<open>The verifier on points whose logarithms are \<open>i\<close> (stored commitment), \<open>j\<close> (rerandomised
  commitment) and \<open>l\<close> (proof commitment), with \<open>e\<close> the logarithm of the generator \<open>h\<close>.\<close>

lemma rerand_verify_enc:
  assumes R: "ristretto255 S enc" and h: "auth_attr_h S = Ret (enc e)" and "wf_proof prf"
    and a: "prf_a prf = enc l" and len: "length pid = 32" "length nonce_c = 32" "length eph_c = 32"
    and c: "c = tr_challenge S (tr_rerand pid nonce_c eph_c (enc i) (enc j) (enc l))"
  shows "auth_verify_rerandomization S prf (enc i) (enc j) pid nonce_c eph_c =
    Ret (enc (sval (prf_s prf) * e) \<noteq> enc 0 \<and> enc (le_int c * (j - i)) \<noteq> enc 0 \<and>
         enc (sval (prf_s prf) * e) = enc (l + le_int c * (j - i)))"
proof -
  have "canonical c" using canonical_tr_challenge [OF R] by (simp add: c)
  then have "length c = 32" "sval c = le_int c" by (simp_all add: canonical_def sval_canonical)
  moreover have "rerand_challenge S pid nonce_c eph_c (enc i) (enc j) (enc l) = Ret c"
    using len by (simp add: rerand_challenge_eq length_enc [OF R] c)
  ultimately show ?thesis
    using assms(3)
    by (simp add: auth_verify_rerandomization_def h or_zero_def point_mult [OF R] points_sub [OF R]
        points_add [OF R] points_equal_def a wf_proof_def)
qed

lemma rerand_verify_invalid:
  assumes R: "ristretto255 S enc" and h: "auth_attr_h S = Ret (enc e)" and "wf_proof prf"
    and len: "length pid = 32" "length nonce_c = 32" "length eph_c = 32" "length stored_c = 32" "length c_prime = 32"
    and "stored_c \<notin> range enc \<or> c_prime \<notin> range enc \<or> prf_a prf \<notin> range enc"
  shows "auth_verify_rerandomization S prf stored_c c_prime pid nonce_c eph_c = Ret False"
proof -
  define c where "c = tr_challenge S (tr_rerand pid nonce_c eph_c stored_c c_prime (prf_a prf))"
  have c32: "length c = 32" using canonical_tr_challenge [OF R] by (simp add: c_def canonical_def)
  have chal: "rerand_challenge S pid nonce_c eph_c stored_c c_prime (prf_a prf) = Ret c"
    using len assms(3) by (simp add: rerand_challenge_eq c_def wf_proof_def)
  show ?thesis
  proof (cases "stored_c \<in> range enc \<and> c_prime \<in> range enc")
    case True
    then obtain i j where ij: "stored_c = enc i" "c_prime = enc j" by blast
    then have "prf_a prf \<notin> range enc" using assms(9) by blast
    then show ?thesis
      using chal c32 assms(3)
      by (simp add: auth_verify_rerandomization_def h or_zero_def ij point_mult [OF R] points_sub [OF R]
          points_add_invalid [OF R] wf_proof_def)
  next
    case False
    then have "auth_point_sub S c_prime stored_c = Fail AUTH_ERR_INVALID_POINT"
      using points_sub_invalid [OF R] by blast
    then show ?thesis
      using chal assms(3)
      by (simp add: auth_verify_rerandomization_def h or_zero_def point_mult [OF R] wf_proof_def)
  qed
qed

lemma rerand_accepts:
  assumes R: "ristretto255 S enc" and h: "auth_attr_h S = Ret (enc e)" and wf: "wf_proof prf"
    and len: "length pid = 32" "length nonce_c = 32" "length eph_c = 32" "length stored_c = 32" "length c_prime = 32"
    and acc: "auth_verify_rerandomization S prf stored_c c_prime pid nonce_c eph_c = Ret True"
  obtains i j l where "stored_c = enc i" "c_prime = enc j" "prf_a prf = enc l"
    "enc (sval (prf_s prf) * e) =
     enc (l + le_int (tr_challenge S (tr_rerand pid nonce_c eph_c stored_c c_prime (prf_a prf))) * (j - i))"
proof -
  have "stored_c \<in> range enc \<and> c_prime \<in> range enc \<and> prf_a prf \<in> range enc"
    using rerand_verify_invalid [OF R h wf len] acc by auto
  then obtain i j l where ijl: "stored_c = enc i" "c_prime = enc j" "prf_a prf = enc l" by blast
  then show thesis
    using that [OF ijl] acc rerand_verify_enc [OF R h wf ijl(3) len(1-3) refl, of i j] by simp
qed

lemma h_mult_enc:
  "ristretto255 S enc \<Longrightarrow> length s = 32 \<Longrightarrow> auth_scalarmult S s (enc e) = Ret p \<Longrightarrow>
   p = enc (sval s * e) \<and> enc (sval s * e) \<noteq> enc 0"
  by (simp add: point_mult split: if_splits)

lemma rerandomize_enc:
  assumes R: "ristretto255 S enc" and h: "auth_attr_h S = Ret (enc e)"
    and "canonical stored_blind" and "canonical delta" and "stored_c = enc i"
    and "auth_rerandomize_commitment S stored_c stored_blind delta = Ret (c_prime, blind_prime)"
  shows "c_prime = enc (i + le_int delta * e) \<and> blind_prime = sc (le_int stored_blind + le_int delta)"
  using assms
  by (auto simp: auth_rerandomize_commitment_def bnd_iffs point_mult [OF R] points_add [OF R]
      scalar_add_sc [OF R] sval_canonical canonical_def [of delta] split: if_splits)

lemma commitment_enc:
  assumes R: "ristretto255 S enc" and h: "auth_attr_h S = Ret (enc e)" and "length blind = 32"
  shows "auth_make_role_commitment S role blind =
    (if role = 0 \<or> enc (sval blind * e) = enc 0 then Fail AUTH_ERR_INVALID_POINT
     else Ret (enc (uint role + sval blind * e)))"
proof -
  have "enc (uint role) = enc 0 \<longleftrightarrow> role = 0"
    by (simp add: enc_eq_iff [OF R] from_u64_scalar uint_0_iff)
  then show ?thesis
    using assms(3)
    by (simp add: auth_make_role_commitment_def h base_mult [OF R] point_mult [OF R] points_add [OF R]
        from_u64_scalar)
qed

lemma rerand_prove_enc:
  assumes R: "ristretto255 S enc" and h: "auth_attr_h S = Ret (enc e)" and "canonical delta"
    and wide: "length wide = 64" and len: "length pid = 32" "length nonce_c = 32" "length eph_c = 32"
    and r: "r = le_int wide mod group_order"
    and c: "c = tr_challenge S (tr_rerand pid nonce_c eph_c (enc i) (enc j) (enc (r * e)))"
  shows "auth_prove_rerandomization S wide (enc i) (enc j) delta pid nonce_c eph_c =
    (if enc (r * e) = enc 0 then Fail AUTH_ERR_INVALID_POINT
     else Ret \<lparr>prf_a = enc (r * e), prf_s = sc (r + le_int c * le_int delta)\<rparr>)"
proof -
  have c': "canonical c" using canonical_tr_challenge [OF R] by (simp add: c)
  have "rerand_challenge S pid nonce_c eph_c (enc i) (enc j) (enc (r * e)) = Ret c"
    using len by (simp add: rerand_challenge_eq length_enc [OF R] c)
  moreover have "auth_scalar_add S (sc (le_int wide)) (auth_scalar_mul S c delta) =
      sc (r + le_int c * le_int delta)"
    using c' assms(3)
    by (simp add: scalar_mul_sc [OF R] scalar_add_sc [OF R] canonical_def [of c] canonical_def [of delta]
        r sc_eq_iff mod_simps)
  ultimately show ?thesis
    by (simp add: auth_prove_rerandomization_def auth_prove_rerandomization_with_bytes_def h
        auth_scalar_from_wide_def reduce_sc [OF R wide] point_mult [OF R] r [symmetric])
qed

lemma rerand_complete:
  assumes R: "ristretto255 S enc" and h: "auth_attr_h S = Ret (enc e)" and d: "canonical delta"
    and wide: "length wide = 64" and len: "length pid = 32" "length nonce_c = 32" "length eph_c = 32"
    and j: "j = i + le_int delta * e"
    and prov: "auth_prove_rerandomization S wide (enc i) (enc j) delta pid nonce_c eph_c = Ret prf"
  shows "wf_proof prf \<and> canonical (prf_s prf) \<and>
    auth_verify_rerandomization S prf (enc i) (enc j) pid nonce_c eph_c =
      Ret (enc (le_int (prf_s prf) * e) \<noteq> enc 0 \<and>
           enc (le_int (tr_challenge S (tr_rerand pid nonce_c eph_c (enc i) (enc j) (prf_a prf))) *
                (le_int delta * e)) \<noteq> enc 0)"
proof -
  let ?r = "le_int wide mod group_order"
  let ?c = "tr_challenge S (tr_rerand pid nonce_c eph_c (enc i) (enc j) (enc (?r * e)))"
  have p: "prf = \<lparr>prf_a = enc (?r * e), prf_s = sc (?r + le_int ?c * le_int delta)\<rparr>"
    using prov rerand_prove_enc [OF R h d wide len refl refl, of i j] by (auto split: if_splits)
  have wf: "wf_proof prf" by (simp add: p wf_proof_def length_enc [OF R])
  have "enc ((?r + le_int ?c * le_int delta) mod group_order * e) = enc ((?r + le_int ?c * le_int delta) * e)"
    by (simp only: enc_eq_iff [OF R] mod_mult_left_eq)
  also have "(?r + le_int ?c * le_int delta) * e = ?r * e + le_int ?c * (le_int delta * e)"
    by (simp only: distrib_right mult.assoc)
  finally have "enc ((?r + le_int ?c * le_int delta) mod group_order * e) =
      enc (?r * e + le_int ?c * (le_int delta * e))" .
  then show ?thesis
    using rerand_verify_enc [OF R h wf _ len, of "?r * e" ?c i j] wf by (simp add: p j)
qed

subsection \<open>Properties of commitments and rerandomisation\<close>

text \<open>Rerandomising a commitment keeps the role: the new commitment is the commitment to the same
  role under the new blinding factor that the function returns, whenever that factor gives a
  commitment at all.\<close>

theorem rerandomize_keeps_role:
  assumes "ristretto255 S enc" and "canonical blind" and "canonical delta"
    and "auth_make_role_commitment S role blind = Ret stored_c"
    and "auth_rerandomize_commitment S stored_c blind delta = Ret (c_prime, blind_prime)"
    and "auth_make_role_commitment S role blind_prime = Ret c"
  shows "c = c_prime"
proof -
  obtain e where h: "auth_attr_h S = Ret (enc e)" by (rule attr_h_enc [OF assms(1)])
  have len: "length blind = 32" and sv: "sval blind = le_int blind"
    using assms(2) by (simp_all add: canonical_def sval_canonical)
  have C: "stored_c = enc (uint role + le_int blind * e)"
    using assms(4) commitment_enc [OF assms(1) h len, of role] sv by (auto split: if_splits)
  have cp: "c_prime = enc (uint role + le_int blind * e + le_int delta * e)"
    and bp: "blind_prime = sc (le_int blind + le_int delta)"
    using rerandomize_enc [OF assms(1) h assms(2,3) C assms(5)] by simp_all
  have "c = enc (uint role + sval blind_prime * e)"
    using assms(6) commitment_enc [OF assms(1) h, of blind_prime role] bp by (auto split: if_splits)
  then show ?thesis
    by (simp add: cp bp enc_eq_iff [OF assms(1)] mod_nested distrib_right add.assoc)
qed

lemma toy_h: "auth_attr_h toy_sodium = Ret (toy_enc 9)"
  by (simp add: auth_attr_h_def auth_hash_to_point_def point_result_def toy_sodium_def)

lemma toy_commitment:
  "role \<noteq> 0 \<Longrightarrow> k mod group_order * 9 mod group_order \<noteq> 0 \<Longrightarrow>
   auth_make_role_commitment toy_sodium role (sc k) = Ret (toy_enc (uint role + k mod group_order * 9))"
  using commitment_enc [OF toy_ristretto255 toy_h, of "sc k" role]
  by (simp add: enc_eq_iff [OF toy_ristretto255])

theorem rerandomize_keeps_role_witness:
  "auth_make_role_commitment toy_sodium 2 (sc 5) = Ret (toy_enc 47) \<and>
   auth_rerandomize_commitment toy_sodium (toy_enc 47) (sc 5) (sc 6) = Ret (toy_enc 101, sc 11) \<and>
   auth_make_role_commitment toy_sodium 2 (sc 11) = Ret (toy_enc 101)"
proof -
  have small: "5 mod group_order = 5" "6 mod group_order = 6" "11 mod group_order = 11"
    "45 mod group_order = 45" "99 mod group_order = 99" "54 mod group_order = 54"
    by (simp_all add: group_order_def)
  have 1: "auth_make_role_commitment toy_sodium 2 (sc 5) = Ret (toy_enc 47)"
    using toy_commitment [of 2 5] small by simp
  have 2: "auth_rerandomize_commitment toy_sodium (toy_enc 47) (sc 5) (sc 6) = Ret (toy_enc 101, sc 11)"
    using small
    by (simp add: auth_rerandomize_commitment_def toy_h point_mult [OF toy_ristretto255]
        points_add [OF toy_ristretto255] scalar_add_sc [OF toy_ristretto255] enc_eq_iff [OF toy_ristretto255])
  have 3: "auth_make_role_commitment toy_sodium 2 (sc 11) = Ret (toy_enc (2 + 11 * 9))"
    using toy_commitment [of 2 11] small by simp
  have "toy_enc (2 + 11 * 9) = toy_enc 101"
    by (rule rerandomize_keeps_role [OF toy_ristretto255 canonical_sc canonical_sc 1 2 3])
  then show ?thesis using 1 2 3 by simp
qed

text \<open>The rerandomisation proof is complete: proving for the commitment that
  \<^verbatim>\<open>auth_rerandomize_commitment\<close> returns gives a proof that verifies, except when the response or the
  challenge times the blinding difference is a multiple of the group order on the generator
  \<open>h\<close>.\<close>

theorem rerandomization_completeness:
  assumes "ristretto255 S enc" and "auth_attr_h S = Ret (enc e)" and "canonical stored_blind" and "canonical delta"
    and "length wide = 64" and "length pid = 32" and "length nonce_c = 32" and "length eph_c = 32"
    and "sd_is_valid_point S stored_c"
    and "auth_rerandomize_commitment S stored_c stored_blind delta = Ret (c_prime, blind_prime)"
    and "auth_prove_rerandomization S wide stored_c c_prime delta pid nonce_c eph_c = Ret prf"
  shows "auth_verify_rerandomization S prf stored_c c_prime pid nonce_c eph_c =
      Ret ((le_int (prf_s prf) * e) mod group_order \<noteq> 0 \<and>
           (le_int (tr_challenge S (tr_rerand pid nonce_c eph_c stored_c c_prime (prf_a prf))) *
             (le_int delta * e)) mod group_order \<noteq> 0)"
proof -
  obtain i where i: "stored_c = enc i" using assms(1,9) valid_point_iff by blast
  have cp: "c_prime = enc (i + le_int delta * e)"
    using rerandomize_enc [OF assms(1-4) i assms(10)] by simp
  show ?thesis
    using rerand_complete [OF assms(1,2,4,5,6,7,8) refl, where i = i] assms(11)
    by (simp add: i cp enc_eq_iff [OF assms(1)])
qed

theorem rerandomization_completeness_witness:
  "\<exists>prf. auth_prove_rerandomization toy_sodium (le_enc 64 7) (toy_enc 47) (toy_enc 101) (sc 6)
      (replicate 32 1) (replicate 32 2) (replicate 32 3) = Ret prf \<and>
    auth_verify_rerandomization toy_sodium prf (toy_enc 47) (toy_enc 101)
      (replicate 32 1) (replicate 32 2) (replicate 32 3) =
      Ret ((le_int (prf_s prf) * 9) mod group_order \<noteq> 0 \<and>
           (le_int (tr_challenge toy_sodium (tr_rerand (replicate 32 1) (replicate 32 2) (replicate 32 3)
             (toy_enc 47) (toy_enc 101) (prf_a prf))) * (le_int (sc 6) * 9)) mod group_order \<noteq> 0)"
proof -
  have small: "6 mod group_order = 6" "54 mod group_order = 54" "5 mod group_order = 5"
      "11 mod group_order = 11" "7 mod group_order = 7" "63 mod group_order = 63"
      "le_int (le_enc 64 7) mod group_order = 7"
    by (simp_all add: group_order_def le_int_le_enc)
  have re: "auth_rerandomize_commitment toy_sodium (toy_enc 47) (sc 5) (sc 6) = Ret (toy_enc 101, sc 11)"
    using small
    by (simp add: auth_rerandomize_commitment_def toy_h point_mult [OF toy_ristretto255]
        points_add [OF toy_ristretto255] scalar_add_sc [OF toy_ristretto255] enc_eq_iff [OF toy_ristretto255])
  obtain q where q: "auth_prove_rerandomization toy_sodium (le_enc 64 7) (toy_enc 47) (toy_enc 101) (sc 6)
      (replicate 32 1) (replicate 32 2) (replicate 32 3) = Ret q"
    using rerand_prove_enc [OF toy_ristretto255 toy_h canonical_sc [of 6], of "le_enc 64 7" "replicate 32 1"
        "replicate 32 2" "replicate 32 3" 7 _ 47 101] small
    by (simp add: enc_eq_iff [OF toy_ristretto255])
  show ?thesis
    using rerandomization_completeness [OF toy_ristretto255 toy_h canonical_sc canonical_sc _ _ _ _ _ re q]
      q valid_point_iff [OF toy_ristretto255, of "toy_enc 47"] by simp
qed

text \<open>Special soundness of the rerandomisation proof: two accepting proofs with one commitment and
  challenges that differ by an invertible amount give the rerandomisation factor, so the new
  commitment carries the role of the stored one.\<close>

theorem rerandomization_special_soundness:
  assumes R: "ristretto255 S enc" and R': "ristretto255 S' enc"
    and h: "auth_attr_h S = Ret h" "auth_attr_h S' = Ret h"
    and wf: "wf_proof p" "wf_proof p'" "prf_a p' = prf_a p"
    and len: "length pid = 32" "length nonce_c = 32" "length eph_c = 32" "length stored_c = 32" "length c_prime = 32"
    and acc: "auth_verify_rerandomization S p stored_c c_prime pid nonce_c eph_c = Ret True"
      "auth_verify_rerandomization S' p' stored_c c_prime pid nonce_c eph_c = Ret True"
    and c: "c = le_int (tr_challenge S (tr_rerand pid nonce_c eph_c stored_c c_prime (prf_a p)))"
    and c': "c' = le_int (tr_challenge S' (tr_rerand pid nonce_c eph_c stored_c c_prime (prf_a p)))"
    and u: "(u * (c - c')) mod group_order = 1"
    and re: "auth_rerandomize_commitment S stored_c blind (sc (u * (sval (prf_s p) - sval (prf_s p')))) =
      Ret (c2, blind2)"
  shows "c2 = c_prime"
proof -
  let ?s = "sval (prf_s p)" and ?s' = "sval (prf_s p')"
  obtain e where e: "auth_attr_h S = Ret (enc e)" by (rule attr_h_enc [OF R])
  then have e': "auth_attr_h S' = Ret (enc e)" using h by simp
  obtain i j l where 1: "stored_c = enc i" "c_prime = enc j" "prf_a p = enc l"
    "enc (?s * e) = enc (l + c * (j - i))"
    using rerand_accepts [OF R e wf(1) len acc(1)] c by metis
  have 2: "enc (?s' * e) = enc (l + c' * (j - i))"
    using rerand_verify_enc [OF R' e' wf(2) _ len(1-3) refl, of l i j] acc(2) 1 wf(3) c' by simp
  have "(?s * e - ?s' * e) mod group_order = ((l + c * (j - i)) - (l + c' * (j - i))) mod group_order"
    using 1(4) 2 by (intro mod_diff_cong) (simp_all add: enc_eq_iff [OF R])
  then have "(u * (?s * e - ?s' * e)) mod group_order = (u * ((c - c') * (j - i))) mod group_order"
    by (intro mod_mult_cong) (simp_all add: algebra_simps)
  also have "\<dots> = ((u * (c - c')) mod group_order * (j - i)) mod group_order"
    by (simp only: mod_mult_left_eq mult.assoc)
  finally have ext: "(u * (?s - ?s') * e) mod group_order = (j - i) mod group_order"
    unfolding u by (simp add: algebra_simps)
  have "c2 = enc (i + (u * (?s - ?s')) mod group_order * e)"
    using re by (auto simp: auth_rerandomize_commitment_def e 1 bnd_iffs point_mult [OF R] points_add [OF R]
        split: if_splits)
  moreover have "(i + (u * (?s - ?s')) mod group_order * e) mod group_order = (i + (j - i)) mod group_order"
    unfolding mod_nested by (rule mod_add_cong [OF refl ext])
  ultimately show ?thesis by (simp add: 1(2) enc_eq_iff [OF R])
qed

lemma rewound_h: "auth_attr_h (rewound_sodium c) = Ret (toy_enc 9)"
  by (simp add: auth_attr_h_def auth_hash_to_point_def point_result_def toy_sodium_def rewound_sodium_def)

lemma rewound_rerand_accepts:
  assumes "0 < c" and "c < 100"
  shows "auth_verify_rerandomization (rewound_sodium c) \<lparr>prf_a = toy_enc 27, prf_s = sc (3 + c * 6)\<rparr>
    (toy_enc 47) (toy_enc 101) (replicate 32 1) (replicate 32 2) (replicate 32 3) = Ret True"
proof -
  have wf: "wf_proof \<lparr>prf_a = toy_enc 27, prf_s = sc (3 + c * 6)\<rparr>" by (simp add: wf_proof_def toy_enc_def)
  have "c < group_order" "3 + c * 6 < group_order" "(3 + c * 6) * 9 < group_order" "c * 54 < group_order"
    using assms by (simp_all add: group_order_def)
  then show ?thesis
    using rerand_verify_enc [OF rewound_ristretto [of c] rewound_h wf _ _ _ _ refl, where l = 27 and i = 47
        and j = 101 and pid = "replicate 32 1" and nonce_c = "replicate 32 2" and eph_c = "replicate 32 3"] assms
    by (simp add: rewound_challenge enc_eq_iff [OF toy_ristretto255])
qed

theorem rerandomization_special_soundness_witness:
  "auth_rerandomize_commitment (rewound_sodium 1) (toy_enc 47) (sc 5) (sc (- 1 * (sval (sc 9) - sval (sc 15)))) =
     Ret (toy_enc 101, sc 11)"
proof -
  have small: "9 mod group_order = 9" "15 mod group_order = 15" "6 mod group_order = 6" "5 mod group_order = 5"
      "54 mod group_order = 54" "11 mod group_order = 11" "1 < group_order" "2 < group_order"
      "- 1 * (1 - 2) mod group_order = 1"
    by (simp_all add: group_order_def)
  obtain c2 where re: "auth_rerandomize_commitment (rewound_sodium 1) (toy_enc 47) (sc 5)
      (sc (- 1 * (sval (sc 9) - sval (sc 15)))) = Ret (c2, sc 11)"
    using small by (simp add: auth_rerandomize_commitment_def rewound_h point_mult [OF rewound_ristretto]
        points_add [OF rewound_ristretto] scalar_add_sc [OF rewound_ristretto] enc_eq_iff [OF toy_ristretto255])
  have "c2 = toy_enc 101"
    using rerandomization_special_soundness [OF rewound_ristretto [of 1] rewound_ristretto [of 2] rewound_h rewound_h,
        of "\<lparr>prf_a = toy_enc 27, prf_s = sc 9\<rparr>" "\<lparr>prf_a = toy_enc 27, prf_s = sc 15\<rparr>" "replicate 32 1"
          "replicate 32 2" "replicate 32 3" "toy_enc 47" "toy_enc 101" 1 2 "- 1" "sc 5" c2 "sc 11"]
      rewound_rerand_accepts [of 1] rewound_rerand_accepts [of 2] small re
    by (simp add: wf_proof_def toy_enc_def rewound_challenge)
  then show ?thesis using re by simp
qed

subsection \<open>The master challenge\<close>

definition role_set_items ::
    "u64 list \<Rightarrow> byte list \<Rightarrow> byte list list \<Rightarrow> byte list \<Rightarrow> byte list \<Rightarrow> byte list \<Rightarrow> (byte list \<times> byte list) list" where
  "role_set_items roles c_prime As pid nonce_c eph_c =
     [(ascii ''pid'', pid), (ascii ''nonce_c'', nonce_c), (ascii ''eph_c'', eph_c), (ascii ''c_prime'', c_prime)] @
     map (\<lambda>i. (indexed_label ''r_'' i, le_bytes 8 (roles ! i))) [0..<length roles] @
     map (\<lambda>i. (indexed_label ''A_'' i, As ! i)) [0..<length As]"

definition tr_role_set ::
    "u64 list \<Rightarrow> byte list \<Rightarrow> byte list list \<Rightarrow> byte list \<Rightarrow> byte list \<Rightarrow> byte list \<Rightarrow> byte list" where
  "tr_role_set roles c_prime As pid nonce_c eph_c =
     tr_encode auth_ds_role_set (role_set_items roles c_prime As pid nonce_c eph_c)"

lemma length_indexed_label [simp]: "i < 10 \<Longrightarrow> length (indexed_label p i) = length p + 1"
  by (simp add: indexed_label_def show_nat.simps)

lemma length_tr_encode_append:
  "length (tr_encode d (is @ js)) = length (tr_encode d is) + sum_list (map (\<lambda>(l, m). 5 + length l + length m) js)"
  by (simp add: length_tr_encode)

lemma loop_items:
  assumes step: "\<And>i js. i < n \<Longrightarrow> length (tr_encode d (js @ [g i])) \<le> 4096 \<Longrightarrow>
      f i (tr_of b (tr_encode d js)) = Ret (tr_of b (tr_encode d (js @ [g i])))"
    and "length (tr_encode d (is @ map g [0..<n])) \<le> 4096"
  shows "loop f [0..<n] (tr_of b (tr_encode d is)) = Ret (tr_of b (tr_encode d (is @ map g [0..<n])))"
  using assms
proof (induction n)
  case (Suc n)
  have "length (tr_encode d (is @ map g [0..<n])) \<le> 4096"
    using Suc.prems(2) by (simp add: length_tr_encode)
  then have "loop f [0..<n] (tr_of b (tr_encode d is)) = Ret (tr_of b (tr_encode d (is @ map g [0..<n])))"
    using Suc.IH Suc.prems(1) by simp
  moreover have "f n (tr_of b (tr_encode d (is @ map g [0..<n]))) =
      Ret (tr_of b (tr_encode d ((is @ map g [0..<n]) @ [g n])))"
    by (rule Suc.prems(1)) (use Suc.prems(2) in simp_all)
  ultimately show ?case by (simp add: loop_append)
qed simp

lemma concat_slice:
  assumes "\<forall>a \<in> set As. length a = n" and "i < length As"
  shows "take n (drop (n * i) (concat As)) = As ! i"
  using assms
proof (induction As arbitrary: i)
  case (Cons a As)
  then show ?case by (cases i) (simp_all add: algebra_simps)
qed simp

lemma length_concat_fixed: "\<forall>a \<in> set As. length a = n \<Longrightarrow> length (concat As) = n * length As"
  by (induction As) simp_all

lemma sum_list_upt_bound: "(\<And>i. i < n \<Longrightarrow> f i \<le> k) \<Longrightarrow> sum_list (map f [0..<n]) \<le> n * (k :: nat)"
proof (induction n)
  case (Suc n)
  have "sum_list (map f [0..<n]) \<le> n * k" using Suc by simp
  moreover have "f n \<le> k" using Suc.prems by simp
  ultimately show ?case by simp
qed simp

lemma role_set_fits:
  assumes "length roles \<le> 8" and "length As \<le> 8" and "\<forall>a \<in> set As. length a = 32"
    and "length pid = 32" "length nonce_c = 32" "length eph_c = 32" "length c_prime = 32"
  shows "length (tr_role_set roles c_prime As pid nonce_c eph_c) \<le> 637"
proof -
  have "sum_list (map (\<lambda>i. 5 + length (indexed_label ''r_'' i) + length (le_bytes 8 (roles ! i))) [0..<length roles])
      \<le> length roles * 16"
    using assms(1) by (intro sum_list_upt_bound) simp
  moreover have "sum_list (map (\<lambda>i. 5 + length (indexed_label ''A_'' i) + length (As ! i)) [0..<length As])
      \<le> length As * 40"
    using assms(2,3) by (intro sum_list_upt_bound) simp
  ultimately show ?thesis
    using assms by (simp add: tr_role_set_def role_set_items_def length_tr_encode domain_defs comp_def)
qed

lemma master_challenge_eq:
  assumes "length roles = n" and "length As = n" and "n \<le> 8" and As: "\<forall>a \<in> set As. length a = 32"
    and len: "length pid = 32" "length nonce_c = 32" "length eph_c = 32" "length c_prime = 32"
  shows "role_set_master_challenge S roles n c_prime (concat As) pid nonce_c eph_c =
    Ret (tr_challenge S (tr_role_set roles c_prime As pid nonce_c eph_c))"
proof -
  let ?b = "replicate 4096 (0 :: byte)" and ?d = auth_ds_role_set
  let ?hd = "[(ascii ''pid'', pid), (ascii ''nonce_c'', nonce_c), (ascii ''eph_c'', eph_c), (ascii ''c_prime'', c_prime)]"
  let ?r = "\<lambda>i. (indexed_label ''r_'' i, le_bytes 8 (roles ! i))" and ?a = "\<lambda>i. (indexed_label ''A_'' i, As ! i)"
  have items: "role_set_items roles c_prime As pid nonce_c eph_c = (?hd @ map ?r [0..<n]) @ map ?a [0..<n]"
    using assms by (simp add: role_set_items_def)
  have fits: "length (tr_encode ?d ((?hd @ map ?r [0..<n]) @ map ?a [0..<n])) \<le> 4096"
    using role_set_fits [of roles As pid nonce_c eph_c c_prime] assms
    by (simp add: tr_role_set_def items del: append_assoc)
  then have fits': "length (tr_encode ?d (?hd @ map ?r [0..<n])) \<le> 4096"
    unfolding length_tr_encode_append by simp
  have 1: "loop (\<lambda>i t. let label = indexed_label ''r_'' i in
        if length label \<ge> 16 then Fail AUTH_ERR_INVALID_ARGUMENT
        else bnd (u64_get roles i) (\<lambda>r. tr_then (auth_transcript_append_u64 t label r) Ret)) [0..<n]
      (tr_of ?b (tr_encode ?d ?hd)) = Ret (tr_of ?b (tr_encode ?d (?hd @ map ?r [0..<n])))"
  proof (rule loop_items [OF _ fits'])
    fix i js assume "i < n" and "length (tr_encode ?d (js @ [?r i])) \<le> 4096"
    then show "(let label = indexed_label ''r_'' i in
        if length label \<ge> 16 then Fail AUTH_ERR_INVALID_ARGUMENT
        else bnd (u64_get roles i) (\<lambda>r. tr_then (auth_transcript_append_u64 (tr_of ?b (tr_encode ?d js)) label r) Ret)) =
      Ret (tr_of ?b (tr_encode ?d (js @ [?r i])))"
      using assms(1,3)
      by (simp add: u64_get_def auth_transcript_append_u64_def le_bytes_def [symmetric] tr_then_append)
  qed
  have 2: "loop (\<lambda>i t. let label = indexed_label ''A_'' i in
        if length label \<ge> 16 then Fail AUTH_ERR_INVALID_ARGUMENT
        else bnd (rdn (concat As) (32 * i) 32) (\<lambda>A. tr_then (auth_transcript_append_point t label A) Ret)) [0..<n]
      (tr_of ?b (tr_encode ?d (?hd @ map ?r [0..<n]))) =
      Ret (tr_of ?b (tr_encode ?d ((?hd @ map ?r [0..<n]) @ map ?a [0..<n])))"
  proof (rule loop_items [OF _ fits])
    fix i js assume i: "i < n" and "length (tr_encode ?d (js @ [?a i])) \<le> 4096"
    moreover have "length (concat As) = 32 * n" using length_concat_fixed [OF As] assms by simp
    moreover have "take 32 (drop (32 * i) (concat As)) = As ! i" using concat_slice [OF As] i assms by simp
    ultimately show "(let label = indexed_label ''A_'' i in
        if length label \<ge> 16 then Fail AUTH_ERR_INVALID_ARGUMENT
        else bnd (rdn (concat As) (32 * i) 32)
          (\<lambda>A. tr_then (auth_transcript_append_point (tr_of ?b (tr_encode ?d js)) label A) Ret)) =
      Ret (tr_of ?b (tr_encode ?d (js @ [?a i])))"
      using assms by (simp add: rdn_def auth_transcript_append_point_def tr_then_append)
  qed
  have "role_set_master_challenge S roles n c_prime (concat As) pid nonce_c eph_c =
      auth_transcript_challenge S (tr_of ?b (tr_encode ?d ((?hd @ map ?r [0..<n]) @ map ?a [0..<n])))"
    unfolding role_set_master_challenge_def using len 1 2
    by (simp add: transcript_simps domain_defs del: append_assoc)
  then show ?thesis
    using fits by (simp add: challenge_encode tr_role_set_def items tr_challenge_def del: append_assoc)
qed

subsection \<open>What the set-membership verifier accepts\<close>

definition branch_ok :: "(int \<Rightarrow> byte list) \<Rightarrow> int \<Rightarrow> int \<Rightarrow> u64 \<Rightarrow> auth_set_branch \<Rightarrow> bool" where
  "branch_ok enc e C r b \<longleftrightarrow>
     (\<exists>l. br_a b = enc l \<and> enc (sval (br_s b) * e) \<noteq> enc 0 \<and> enc (sval (br_c b) * (C - uint r)) \<noteq> enc 0 \<and>
          enc (sval (br_s b) * e) = enc (l + sval (br_c b) * (C - uint r)))"

lemma branch_check_eq:
  assumes R: "ristretto255 S enc" and "wf_branch b"
  shows "branch_check S (enc e) (enc (C - uint r)) b = Ret (branch_ok enc e C r b)"
proof (cases "br_a b \<in> range enc")
  case True
  then obtain l where l: "br_a b = enc l" by blast
  have cong: "enc (l' + x) = enc (l + x)" if "enc l = enc l'" for l' x
  proof -
    have "l' mod group_order = l mod group_order" using that by (simp add: enc_eq_iff [OF R])
    then show ?thesis unfolding enc_eq_iff [OF R] by (rule mod_add_cong) simp
  qed
  have "branch_ok enc e C r b \<longleftrightarrow>
      enc (sval (br_s b) * e) \<noteq> enc 0 \<and> enc (sval (br_c b) * (C - uint r)) \<noteq> enc 0 \<and>
      enc (sval (br_s b) * e) = enc (l + sval (br_c b) * (C - uint r))"
    (is "_ \<longleftrightarrow> ?P l")
  proof
    assume "branch_ok enc e C r b"
    then obtain l' where "br_a b = enc l'" and P: "?P l'" unfolding branch_ok_def by blast
    then have "enc l = enc l'" using l by simp
    then show "?P l" using P unfolding cong [OF \<open>enc l = enc l'\<close>] by blast
  next
    assume "?P l"
    then show "branch_ok enc e C r b" unfolding branch_ok_def using l by blast
  qed
  then show ?thesis
    using assms(2)
    by (simp add: branch_check_def or_zero_def point_mult [OF R] points_add [OF R] points_equal_def l wf_branch_def)
next
  case False
  then have "\<not> branch_ok enc e C r b" by (auto simp: branch_ok_def)
  then show ?thesis
    using assms(2) False
    by (simp add: branch_check_def or_zero_def point_mult [OF R] points_add_invalid [OF R] wf_branch_def)
qed

lemma branches_check_eq:
  assumes R: "ristretto255 S enc" and "length bs = length roles" and "\<forall>b \<in> set bs. wf_branch b"
  shows "branches_check S (enc e) (map (\<lambda>r. enc (C - uint r)) roles) bs =
    Ret (list_all2 (branch_ok enc e C) roles bs)"
  using assms(2,3)
proof (induction bs arbitrary: roles)
  case (Cons b bs)
  then obtain r rs where "roles = r # rs" by (cases roles) auto
  then show ?case using Cons branch_check_eq [OF R, of b e C r] by simp
qed simp

definition branch_sum :: "sodium \<Rightarrow> auth_set_branch list \<Rightarrow> byte list" where
  "branch_sum S bs = fold (\<lambda>b sum. auth_scalar_add S sum (br_c b)) bs (replicate 32 0)"

lemma verify_set_eq:
  assumes R: "ristretto255 S enc" and h: "auth_attr_h S = Ret (enc e)"
    and n: "length roles = n" "length bs = n" "0 < n" "n \<le> 8" and wf: "\<forall>b \<in> set bs. wf_branch b"
    and len: "length pid = 32" "length nonce_c = 32" "length eph_c = 32"
  shows "auth_verify_role_set_membership S (Some bs) n (Some roles) n (enc C) pid nonce_c eph_c =
    Ret (0 \<notin> set roles \<and>
         branch_sum S bs = tr_challenge S (tr_role_set roles (enc C) (map br_a bs) pid nonce_c eph_c) \<and>
         list_all2 (branch_ok enc e C) roles bs)"
proof -
  have "\<forall>a \<in> set (map br_a bs). length a = 32" using wf by (auto simp: wf_branch_def)
  then have m: "role_set_master_challenge S roles n (enc C) (concat (map br_a bs)) pid nonce_c eph_c =
      Ret (tr_challenge S (tr_role_set roles (enc C) (map br_a bs) pid nonce_c eph_c))"
    using n len length_enc [OF R] by (intro master_challenge_eq) simp_all
  show ?thesis
    using n role_Ys [OF R, of n roles C] branches_check_eq [OF R, of bs roles e C] wf m
    by (simp add: auth_verify_role_set_membership_def h or_zero_def branch_sum_def points_equal_def Let_def)
qed

lemma verify_set_invalid:
  assumes R: "ristretto255 S enc" and h: "auth_attr_h S = Ret (enc e)"
    and n: "length roles = n" "length bs = n" "0 < n" "n \<le> 8" and "c_prime \<notin> range enc"
  shows "auth_verify_role_set_membership S (Some bs) n (Some roles) n c_prime pid nonce_c eph_c = Ret False"
proof -
  have "[0..<n] = 0 # [1..<n]" using n by (simp add: upt_conv_Cons)
  then show ?thesis
    using n role_Y_invalid [OF R, of 0 roles c_prime] assms(7)
    by (simp add: auth_verify_role_set_membership_def h or_zero_def)
qed

lemma branch_sum_canonical:
  assumes R: "ristretto255 S enc" and "\<forall>b \<in> set bs. canonical (br_c b)"
  shows "branch_sum S bs = sc (sum_list (map (\<lambda>b. le_int (br_c b)) bs))"
proof -
  have "fold (\<lambda>b sum. auth_scalar_add S sum (br_c b)) bs (sc z) = sc (z + sum_list (map (\<lambda>b. le_int (br_c b)) bs))" for z
    using assms(2)
  proof (induction bs arbitrary: z)
    case (Cons b bs)
    have "auth_scalar_add S (sc z) (br_c b) = sc (z + le_int (br_c b))"
      using Cons.prems by (simp add: scalar_add_sc [OF R] sc_eq_iff mod_simps)
    then show ?case using Cons by (simp add: add.assoc)
  qed simp
  then show ?thesis by (simp add: branch_sum_def replicate_zero_sc)
qed

subsection \<open>What the set-membership prover builds\<close>

definition sim_ok :: "(int \<Rightarrow> byte list) \<Rightarrow> int \<Rightarrow> int \<Rightarrow> auth_set_branch \<Rightarrow> bool" where
  "sim_ok enc e y b \<longleftrightarrow> canonical (br_c b) \<and> canonical (br_s b) \<and>
     br_a b = enc (le_int (br_s b) * e - le_int (br_c b) * y) \<and>
     enc (le_int (br_s b) * e) \<noteq> enc 0 \<and> enc (le_int (br_c b) * y) \<noteq> enc 0"

definition true_ok :: "(int \<Rightarrow> byte list) \<Rightarrow> int \<Rightarrow> byte list \<Rightarrow> auth_set_branch \<Rightarrow> bool" where
  "true_ok enc e w b \<longleftrightarrow> canonical w \<and> br_a b = enc (le_int w * e)"

fun set_inv :: "(int \<Rightarrow> byte list) \<Rightarrow> int \<Rightarrow> int \<Rightarrow> u64 list \<Rightarrow> nat \<Rightarrow> nat \<Rightarrow> set_state \<Rightarrow> bool" where
  "set_inv enc e C roles k i (consumed, w, bs, A) \<longleftrightarrow>
     length bs = i \<and> A = concat (map br_a bs) \<and>
     (\<forall>j<i. j \<noteq> k \<longrightarrow> sim_ok enc e (C - uint (roles ! j)) (bs ! j)) \<and>
     (k < i \<longrightarrow> true_ok enc e w (bs ! k))"

lemma sim_ok_branch_ok:
  assumes R: "ristretto255 S enc" and "sim_ok enc e (C - uint r) b"
  shows "branch_ok enc e C r b \<and> wf_branch b \<and> canonical (br_c b)"
  using assms unfolding sim_ok_def branch_ok_def
  by (auto simp: sval_canonical wf_branch_def canonical_def length_enc [OF R]
      intro!: exI [of _ "le_int (br_s b) * e - le_int (br_c b) * (C - uint r)"])

lemma wide_scalar:
  "ristretto255 S enc \<Longrightarrow> rdn b off 64 = Ret w \<Longrightarrow>
   \<exists>k. auth_scalar_from_wide S w = sc k"
  by (auto simp: rdn_def auth_scalar_from_wide_def reduce_sc split: if_splits)

lemma set_inv_step:
  assumes R: "ristretto255 S enc" and Y: "Y = map (\<lambda>r. enc (C - uint r)) roles" and i: "i < length roles"
    and inv: "set_inv enc e C roles k i st" and step: "set_branch_step S wide (enc e) Y k i st = Ret st'"
  shows "set_inv enc e C roles k (Suc i) st'"
proof -
  obtain consumed w bs A where st: "st = (consumed, w, bs, A)" by (cases st)
  show ?thesis
  proof (cases "i = k")
    case True
    then obtain wd a where rd: "rdn wide consumed 64 = (Ret wd :: (auth_err, byte list) cres)"
      and a: "auth_scalarmult S (auth_scalar_from_wide S wd) (enc e) = Ret a"
      and st': "st' = (consumed + 64, auth_scalar_from_wide S wd, bs @ [zero_branch\<lparr>br_a := a\<rparr>], A @ a)"
      using step by (auto simp: st set_branch_step_def bnd_iffs Let_def)
    obtain z where z: "auth_scalar_from_wide S wd = sc z" using wide_scalar [OF R rd] by blast
    have "a = enc (le_int (sc z) * e)" using h_mult_enc [OF R _ a] by (simp add: z)
    then show ?thesis using inv True by (auto simp: st st' z nth_append true_ok_def less_Suc_eq)
  next
    case False
    then obtain wc ws hs yc a where rd: "rdn wide consumed 64 = (Ret wc :: (auth_err, byte list) cres)"
        "rdn wide (consumed + 64) 64 = (Ret ws :: (auth_err, byte list) cres)"
      and hs: "auth_scalarmult S (auth_scalar_from_wide S ws) (enc e) = Ret hs"
      and yc: "auth_scalarmult S (auth_scalar_from_wide S wc) (Y ! i) = Ret yc"
      and a: "auth_point_sub S hs yc = Ret a"
      and st': "st' = (consumed + 128, w, bs @ [\<lparr>br_a = a, br_c = auth_scalar_from_wide S wc,
          br_s = auth_scalar_from_wide S ws\<rparr>], A @ a)"
      using step by (auto simp: st set_branch_step_def bnd_iffs Let_def)
    obtain c s where cs: "auth_scalar_from_wide S wc = sc c" "auth_scalar_from_wide S ws = sc s"
      using wide_scalar [OF R rd(1)] wide_scalar [OF R rd(2)] by blast
    have 1: "hs = enc (le_int (sc s) * e)" "enc (le_int (sc s) * e) \<noteq> enc 0"
      using h_mult_enc [OF R _ hs] by (simp_all add: cs)
    have 2: "yc = enc (le_int (sc c) * (C - uint (roles ! i)))" "enc (le_int (sc c) * (C - uint (roles ! i))) \<noteq> enc 0"
      using h_mult_enc [OF R, of "sc c" "C - uint (roles ! i)" yc] yc i by (simp_all add: cs Y)
    have "sim_ok enc e (C - uint (roles ! i)) \<lparr>br_a = a, br_c = sc c, br_s = sc s\<rparr>"
      using a 1 2 by (simp add: sim_ok_def points_sub [OF R])
    then show ?thesis using inv False by (auto simp: st st' cs nth_append less_Suc_eq)
  qed
qed

lemma true_index_nth:
  "true_index roles code < length roles \<Longrightarrow> roles ! true_index roles code = code"
  by (induction roles) auto

lemma true_index_le: "true_index roles code \<le> length roles"
  by (induction roles) auto

lemma true_index_eq_length: "true_index roles code = length roles \<longleftrightarrow> code \<notin> set roles"
  by (induction roles) auto

lemma fold_others:
  assumes R: "ristretto255 S enc" and "\<And>i. i < n \<Longrightarrow> i \<noteq> k \<Longrightarrow> canonical (f i)"
  shows "fold (\<lambda>i sum. if i \<noteq> k then auth_scalar_add S sum (f i) else sum) [0..<n] (replicate 32 0) =
    sc (\<Sum>i \<in> {..<n} - {k}. le_int (f i))"
  using assms(2)
proof (induction n)
  case 0
  then show ?case by (simp add: replicate_zero_sc)
next
  case (Suc n)
  let ?g = "\<lambda>i sum. if i \<noteq> k then auth_scalar_add S sum (f i) else sum"
  have IH: "fold ?g [0..<n] (replicate 32 0) = sc (\<Sum>i \<in> {..<n} - {k}. le_int (f i))" using Suc by simp
  show ?case
  proof (cases "n = k")
    case True
    then have "{..<Suc n} - {k} = {..<n} - {k}" by auto
    then show ?thesis using IH True by simp
  next
    case False
    then have "{..<Suc n} - {k} = insert n ({..<n} - {k})" by auto
    moreover have "canonical (f n)" using Suc.prems False by simp
    ultimately show ?thesis
      using IH False by (simp add: scalar_add_sc [OF R] sc_eq_iff mod_simps add.commute)
  qed
qed

lemma prove_set_shape:
  assumes R: "ristretto255 S enc" and h: "auth_attr_h S = Ret (enc e)" and n: "length roles = n"
    and prov: "auth_prove_role_set_membership_with_bytes S wide (Some roles) n (enc C) code blind pid nonce_c eph_c = Ret bs"
    and k: "k = true_index roles code"
  obtains consumed w brs master c where
    "k < n" "0 \<notin> set roles" "0 < n" "n \<le> 8"
    "set_inv enc e C roles k n (consumed, w, brs, concat (map br_a brs))"
    "role_set_master_challenge S roles n (enc C) (concat (map br_a brs)) pid nonce_c eph_c = Ret master"
    "c = auth_scalar_sub S master (sc (\<Sum>i \<in> {..<n} - {k}. le_int (br_c (brs ! i))))"
    "bs = brs[k := (brs ! k)\<lparr>br_s := auth_scalar_add S w (auth_scalar_mul S c blind), br_c := c\<rparr>]"
proof -
  have n': "0 < n" "n \<le> 8" using prov by (auto simp: auth_prove_role_set_membership_with_bytes_def split: if_splits)
  have z: "0 \<notin> set roles"
    using prov n role_Ys [OF R, of n roles C]
    by (auto simp: auth_prove_role_set_membership_with_bytes_def h Let_def bnd_iffs split: if_splits)
  let ?Y = "map (\<lambda>r. enc (C - uint r)) roles"
  have kn: "k \<noteq> n" and unf: "bnd (loop (set_branch_step S wide (enc e) ?Y k) [0..<n] (0, replicate 32 0, [], []))
      (\<lambda>(consumed, w_true, branches, A_all).
        bnd (role_set_master_challenge S roles n (enc C) A_all pid nonce_c eph_c) (\<lambda>master_c.
        let sum_sim = fold (\<lambda>i sum. if i \<noteq> k then auth_scalar_add S sum (br_c (branches ! i)) else sum)
              [0..<n] (replicate 32 0);
            c_true = auth_scalar_sub S master_c sum_sim;
            cb = auth_scalar_mul S c_true blind
        in Ret (branches[k := (branches ! k)\<lparr>br_s := auth_scalar_add S w_true cb, br_c := c_true\<rparr>]))) = Ret bs"
    using prov n n' z role_Ys [OF R, of n roles C]
    by (auto simp: auth_prove_role_set_membership_with_bytes_def h k Let_def split: if_splits)
  obtain consumed w brs A where loop: "loop (set_branch_step S wide (enc e) ?Y k) [0..<n] (0, replicate 32 0, [], []) =
      Ret (consumed, w, brs, A)"
    using unf by (auto simp: bnd_iffs)
  have inv: "set_inv enc e C roles k n (consumed, w, brs, A)"
    by (rule loop_upt_invariant [OF loop, where I = "set_inv enc e C roles k"])
      (use n set_inv_step [OF R refl, of _ roles e C k] in \<open>auto\<close>)
  then have A: "A = concat (map br_a brs)" by simp
  have "canonical (br_c (brs ! i))" if "i < n" "i \<noteq> k" for i
    using inv that by (simp add: sim_ok_def)
  note sum = fold_others [OF R this]
  have "k < n" using kn true_index_le [of roles code] n k by simp
  then show thesis
    using that [OF _ z n'] inv unf loop A sum by (auto simp: bnd_iffs Let_def)
qed

lemma sum_updated:
  assumes "k < n" and "length bs = n"
  shows "sum_list (map f (bs[k := b])) = f b + (\<Sum>i \<in> {..<n} - {k}. f (bs ! i) :: int)"
proof -
  have "sum_list (map f (bs[k := b])) = (\<Sum>i<n. f (bs[k := b] ! i))"
    using assms by (simp add: sum_list_sum_nth atLeast0LessThan)
  also have "\<dots> = f (bs[k := b] ! k) + (\<Sum>i \<in> {..<n} - {k}. f (bs[k := b] ! i))"
    using assms by (intro sum.remove) auto
  also have "\<dots> = f b + (\<Sum>i \<in> {..<n} - {k}. f (bs ! i))"
    using assms by (intro arg_cong2 [where f = "(+)"] sum.cong) auto
  finally show ?thesis .
qed

lemma true_branch_ok:
  assumes R: "ristretto255 S enc" and w: "canonical w" and c: "canonical c" and b: "canonical blind"
    and C: "C = uint r + le_int blind * e"
    and s: "s = auth_scalar_add S w (auth_scalar_mul S c blind)"
  shows "canonical s \<and> (branch_ok enc e C r \<lparr>br_a = enc (le_int w * e), br_c = c, br_s = s\<rparr> \<longleftrightarrow>
    enc (le_int s * e) \<noteq> enc 0 \<and> enc (le_int c * (le_int blind * e)) \<noteq> enc 0)"
proof -
  have len: "length c = 32" "length blind = 32" using c b by (simp_all add: canonical_def)
  have s': "s = sc (le_int w + le_int c * le_int blind)"
    using w by (simp add: s scalar_mul_sc [OF R len] scalar_add_sc [OF R] sc_eq_iff mod_simps)
  have "enc (le_int s * e) = enc ((le_int w + le_int c * le_int blind) * e)"
    by (simp add: s' enc_eq_iff [OF R] mod_mult_left_eq)
  also have "(le_int w + le_int c * le_int blind) * e = le_int w * e + le_int c * (le_int blind * e)"
    by (simp only: distrib_right mult.assoc)
  finally have eq: "enc (le_int s * e) = enc (le_int w * e + le_int c * (le_int blind * e))" .
  have cong: "enc (l + x) = enc (l' + x)" if "enc l = enc l'" for l l' x
    using that unfolding enc_eq_iff [OF R] by (rule mod_add_cong) simp
  have cs: "canonical s" by (simp add: s')
  let ?b = "\<lparr>br_a = enc (le_int w * e), br_c = c, br_s = s\<rparr>"
  have Cr: "C - uint r = le_int blind * e" by (simp add: C)
  have "branch_ok enc e C r ?b \<longleftrightarrow>
      (\<exists>l. enc (le_int w * e) = enc l \<and> enc (le_int s * e) \<noteq> enc 0 \<and> enc (le_int c * (le_int blind * e)) \<noteq> enc 0 \<and>
        enc (le_int s * e) = enc (l + le_int c * (le_int blind * e)))"
    unfolding branch_ok_def Cr using c cs by (simp add: sval_canonical)
  also have "\<dots> \<longleftrightarrow> enc (le_int s * e) \<noteq> enc 0 \<and> enc (le_int c * (le_int blind * e)) \<noteq> enc 0"
    using eq cong by blast
  finally show ?thesis using cs by blast
qed

lemma set_complete:
  assumes R: "ristretto255 S enc" and h: "auth_attr_h S = Ret (enc e)" and n: "length roles = n"
    and b: "canonical blind" and len: "length pid = 32" "length nonce_c = 32" "length eph_c = 32"
    and C: "C = uint code + le_int blind * e" and k: "k = true_index roles code"
    and prov: "auth_prove_role_set_membership_with_bytes S wide (Some roles) n (enc C) code blind pid nonce_c eph_c = Ret bs"
  shows "length bs = n \<and> k < n \<and> (\<forall>x \<in> set bs. wf_branch x) \<and>
    auth_verify_role_set_membership S (Some bs) n (Some roles) n (enc C) pid nonce_c eph_c =
      Ret (enc (le_int (br_s (bs ! k)) * e) \<noteq> enc 0 \<and>
           enc (le_int (br_c (bs ! k)) * (le_int blind * e)) \<noteq> enc 0)"
proof -
  obtain consumed w brs master c where kn: "k < n" and z: "0 \<notin> set roles" and n': "0 < n" "n \<le> 8"
    and inv: "set_inv enc e C roles k n (consumed, w, brs, concat (map br_a brs))"
    and m: "role_set_master_challenge S roles n (enc C) (concat (map br_a brs)) pid nonce_c eph_c = Ret master"
    and c: "c = auth_scalar_sub S master (sc (\<Sum>i \<in> {..<n} - {k}. le_int (br_c (brs ! i))))"
    and bs: "bs = brs[k := (brs ! k)\<lparr>br_s := auth_scalar_add S w (auth_scalar_mul S c blind), br_c := c\<rparr>]"
    by (rule prove_set_shape [OF R h n prov k])
  let ?s = "auth_scalar_add S w (auth_scalar_mul S c blind)"
  let ?bk = "\<lparr>br_a = enc (le_int w * e), br_c = c, br_s = ?s\<rparr>"
  have w: "canonical w" and ak: "br_a (brs ! k) = enc (le_int w * e)" and lb: "length brs = n"
    and sim: "\<And>i. i < n \<Longrightarrow> i \<noteq> k \<Longrightarrow> sim_ok enc e (C - uint (roles ! i)) (brs ! i)"
    using inv kn by (auto simp: true_ok_def)
  have bk: "(brs ! k)\<lparr>br_s := ?s, br_c := c\<rparr> = ?bk" using ak by (cases "brs ! k") simp
  have ok: "branch_ok enc e C (roles ! i) (bs ! i) \<and> wf_branch (bs ! i) \<and> canonical (br_c (bs ! i))"
    if "i < n" "i \<noteq> k" for i
    using sim_ok_branch_ok [OF R sim [OF that]] that kn lb by (simp add: bs)
  have As: "map br_a bs = map br_a brs"
    using ak lb kn by (intro nth_equalityI) (auto simp: bs bk nth_list_update)
  have a32: "\<forall>a \<in> set (map br_a brs). length a = 32"
  proof -
    have "length (br_a (brs ! i)) = 32" if "i < n" for i
      using that sim_ok_branch_ok [OF R sim, of i] ak by (cases "i = k") (auto simp: wf_branch_def length_enc [OF R])
    then show ?thesis using lb by (auto simp: in_set_conv_nth)
  qed
  have master: "master = tr_challenge S (tr_role_set roles (enc C) (map br_a bs) pid nonce_c eph_c)"
    using m master_challenge_eq [OF n _ n'(2) a32 len, of "enc C" S] lb by (simp add: length_enc [OF R] As)
  have cm: "canonical master" using canonical_tr_challenge [OF R] by (simp add: master)
  have c': "c = sc (le_int master - (\<Sum>i \<in> {..<n} - {k}. le_int (br_c (brs ! i))))"
    using cm by (simp add: c scalar_sub_sc [OF R] sc_eq_iff mod_simps)
  have cc: "canonical c" by (simp add: c')
  note tb = true_branch_ok [OF R w cc b, of C code e ?s] 
  have rk: "roles ! k = code" using kn n k true_index_nth [of roles code] by simp
  have wfs: "\<forall>x \<in> set bs. wf_branch x" and cans: "\<forall>x \<in> set bs. canonical (br_c x)"
  proof -
    have "wf_branch (bs ! i) \<and> canonical (br_c (bs ! i))" if "i < n" for i
      using that ok [of i] kn lb tb cc C
      by (cases "i = k") (auto simp: bs bk wf_branch_def canonical_def length_enc [OF R])
    then show "\<forall>x \<in> set bs. wf_branch x" "\<forall>x \<in> set bs. canonical (br_c x)"
      using lb bs by (auto simp: in_set_conv_nth)
  qed
  have "branch_sum S bs = sc (le_int c + (\<Sum>i \<in> {..<n} - {k}. le_int (br_c (brs ! i))))"
    unfolding branch_sum_canonical [OF R cans] unfolding bs sum_updated [OF kn lb] by simp
  also have "\<dots> = sc (le_int master)" by (simp add: c' sc_eq_iff mod_simps)
  also have "\<dots> = master" using cm canonical_iff [of master] by (auto simp: sc_eq_iff)
  finally have sum: "branch_sum S bs = master" .
  have "list_all2 (branch_ok enc e C) roles bs \<longleftrightarrow> branch_ok enc e C code ?bk"
    using ok kn lb n rk bs by (auto simp: list_all2_conv_all_nth bk nth_list_update)
  also have "\<dots> \<longleftrightarrow> enc (le_int ?s * e) \<noteq> enc 0 \<and> enc (le_int c * (le_int blind * e)) \<noteq> enc 0"
    using tb C by simp
  finally show ?thesis
    using verify_set_eq [OF R h n _ n' wfs len, of C] z sum wfs kn lb by (simp add: master bs bk)
qed

subsection \<open>Properties of the set-membership proof\<close>

text \<open>The role set-membership proof is complete: for a commitment to a role of the list, the branches
  the prover builds are accepted by the verifier, except when the response of the true branch or its
  challenge times the blinding factor vanishes on the generator \<open>h\<close>; a role outside the
  list is refused by the prover.\<close>

theorem role_set_completeness:
  assumes "ristretto255 S enc" and "auth_attr_h S = Ret (enc e)" and "canonical blind"
    and "auth_make_role_commitment S code blind = Ret c_prime"
    and "length pid = 32" and "length nonce_c = 32" and "length eph_c = 32" and "length roles = n"
  shows "(auth_prove_role_set_membership S wide (Some roles) n c_prime code blind pid nonce_c eph_c = Ret bs \<longrightarrow>
      code \<in> set roles \<and> (let k = true_index roles code in
      auth_verify_role_set_membership S (Some bs) n (Some roles) n c_prime pid nonce_c eph_c =
        Ret ((le_int (br_s (bs ! k)) * e) mod group_order \<noteq> 0 \<and>
             (le_int (br_c (bs ! k)) * (le_int blind * e)) mod group_order \<noteq> 0))) \<and>
    (code \<notin> set roles \<and> 0 < n \<and> n \<le> AUTH_MAX_ROLES \<longrightarrow>
      auth_prove_role_set_membership S wide (Some roles) n c_prime code blind pid nonce_c eph_c =
        Fail AUTH_ERR_ROLE_NOT_PERMITTED)"
proof -
  have len: "length blind = 32" "sval blind = le_int blind"
    using assms(3) by (simp_all add: canonical_def sval_canonical)
  have cp: "c_prime = enc (uint code + le_int blind * e)"
    using assms(4) commitment_enc [OF assms(1,2) len(1), of code] len by (auto split: if_splits)
  have "auth_prove_role_set_membership S wide (Some roles) n c_prime code blind pid nonce_c eph_c = Ret bs \<longrightarrow>
      code \<in> set roles \<and> (let k = true_index roles code in
      auth_verify_role_set_membership S (Some bs) n (Some roles) n c_prime pid nonce_c eph_c =
        Ret ((le_int (br_s (bs ! k)) * e) mod group_order \<noteq> 0 \<and>
             (le_int (br_c (bs ! k)) * (le_int blind * e)) mod group_order \<noteq> 0))"
  proof
    assume "auth_prove_role_set_membership S wide (Some roles) n c_prime code blind pid nonce_c eph_c = Ret bs"
    then have "auth_prove_role_set_membership_with_bytes S (take (64 + 2 * 64 * (n - 1)) wide) (Some roles) n
        (enc (uint code + le_int blind * e)) code blind pid nonce_c eph_c = Ret bs"
      by (simp add: auth_prove_role_set_membership_def cp split: if_splits)
    from set_complete [OF assms(1,2,8,3,5,6,7) refl refl this] true_index_eq_length [of roles code] assms(8)
    show "code \<in> set roles \<and> (let k = true_index roles code in
      auth_verify_role_set_membership S (Some bs) n (Some roles) n c_prime pid nonce_c eph_c =
        Ret ((le_int (br_s (bs ! k)) * e) mod group_order \<noteq> 0 \<and>
             (le_int (br_c (bs ! k)) * (le_int blind * e)) mod group_order \<noteq> 0))"
      by (auto simp: cp enc_eq_iff [OF assms(1)] Let_def)
  qed
  moreover have "code \<notin> set roles \<and> 0 < n \<and> n \<le> AUTH_MAX_ROLES \<longrightarrow>
      auth_prove_role_set_membership S wide (Some roles) n c_prime code blind pid nonce_c eph_c =
        Fail AUTH_ERR_ROLE_NOT_PERMITTED"
    using true_index_eq_length [of roles code] assms(8)
    by (auto simp: auth_prove_role_set_membership_def auth_prove_role_set_membership_with_bytes_def Let_def)
  ultimately show ?thesis by blast
qed

text \<open>A concrete run with one permitted role.\<close>

definition set_sample :: "int \<Rightarrow> auth_set_branch list" where
  "set_sample c = [\<lparr>br_a = toy_enc 63, br_c = sc c, br_s = sc (7 + c * 5)\<rparr>]"

lemma small_mods:
  "0 \<le> k \<Longrightarrow> k < 10000 \<Longrightarrow> k mod group_order = k"
  by (simp add: group_order_def)

lemma toy_uint2: "uint (2 :: u64) = 2" by simp

lemma set_sample_proved:
  "auth_prove_role_set_membership (rewound_sodium 1) (le_enc 64 7) (Some [2]) 1 (toy_enc 47) 2 (sc 5)
     (replicate 32 1) (replicate 32 2) (replicate 32 3) = Ret (set_sample 1)"
proof -
  note R = rewound_ristretto [of 1]
  have Ys: "role_Y (rewound_sodium 1) [2] (toy_enc 47) 0 = Ret (toy_enc (47 - 2))"
    using role_Y_enc [OF R, of 0 "[2]" 47] by simp
  have wide: "auth_scalar_from_wide (rewound_sodium 1) (le_enc 64 7) = sc 7"
    using reduce_sc [OF R, of "le_enc 64 7"] by (simp add: auth_scalar_from_wide_def le_int_le_enc)
  have a: "auth_scalarmult (rewound_sodium 1) (sc 7) (toy_enc 9) = Ret (toy_enc 63)"
    by (simp add: point_mult [OF R] small_mods enc_eq_iff [OF R])
  have "canonical (tr_challenge (rewound_sodium 1) t)" for t using canonical_tr_challenge [OF R] .
  moreover have "1 < group_order" by (simp add: group_order_def)
  then have "le_int (tr_challenge (rewound_sodium 1) t) = le_int (sc 1)" for t
    by (simp add: rewound_challenge small_mods)
  ultimately have chal: "tr_challenge (rewound_sodium 1) t = sc 1" for t
    by (metis canonical_def canonical_sc le_int_inject)
  have m: "role_set_master_challenge (rewound_sodium 1) [2] 1 (toy_enc 47) (toy_enc 63)
      (replicate 32 1) (replicate 32 2) (replicate 32 3) = Ret (sc 1)"
    using master_challenge_eq [of "[2]" 1 "[toy_enc 63]" "replicate 32 1" "replicate 32 2" "replicate 32 3"
        "toy_enc 47" "rewound_sodium 1"]
    by (simp add: length_enc [OF R] chal)
  have c: "auth_scalar_sub (rewound_sodium 1) (sc 1) (replicate 32 0) = sc 1"
    by (simp add: replicate_zero_sc scalar_sub_sc [OF R] sc_eq_iff)
  have s: "auth_scalar_add (rewound_sodium 1) (sc 7) (auth_scalar_mul (rewound_sodium 1) (sc 1) (sc 5)) = sc 12"
    by (simp add: scalar_mul_sc [OF R] scalar_add_sc [OF R] sc_eq_iff small_mods)
  show ?thesis
    using Ys wide a m c s
    by (simp add: auth_prove_role_set_membership_def auth_prove_role_set_membership_with_bytes_def rewound_h
        set_branch_step_def rdn_def zero_branch_def set_sample_def Let_def)
qed

theorem role_set_completeness_witness:
  "auth_verify_role_set_membership (rewound_sodium 1) (Some (set_sample 1)) 1 (Some [2]) 1 (toy_enc 47)
     (replicate 32 1) (replicate 32 2) (replicate 32 3) = Ret True"
proof -
  have C: "auth_make_role_commitment (rewound_sodium 1) 2 (sc 5) = Ret (toy_enc 47)"
    using commitment_enc [OF rewound_ristretto [of 1] rewound_h, of "sc 5" 2]
    by (simp add: enc_eq_iff [OF toy_ristretto255] small_mods)
  show ?thesis
    using role_set_completeness [OF rewound_ristretto [of 1] rewound_h canonical_sc C, of "replicate 32 1"
        "replicate 32 2" "replicate 32 3" "[2]" 1 "le_enc 64 7" "set_sample 1"] set_sample_proved
    by (simp add: set_sample_def small_mods)
qed

text \<open>The branch equation of one role, extracted from two accepted responses.\<close>

lemma branch_extract:
  assumes R: "ristretto255 S enc" and a: "br_a b' = br_a b"
    and ok: "branch_ok enc e C r b" "branch_ok enc e C r b'" and u: "(u * (sval (br_c b) - sval (br_c b'))) mod group_order = 1"
  shows "enc C = enc (uint r + u * (sval (br_s b) - sval (br_s b')) * e)"
proof -
  let ?c = "sval (br_c b)" and ?c' = "sval (br_c b')" and ?s = "sval (br_s b)" and ?s' = "sval (br_s b')" and ?y = "C - uint r"
  obtain l l' where "br_a b = enc l" "enc (?s * e) = enc (l + ?c * ?y)" "br_a b' = enc l'" "enc (?s' * e) = enc (l' + ?c' * ?y)"
    using ok by (auto simp: branch_ok_def)
  then have eq: "?s * e mod group_order = (l + ?c * ?y) mod group_order" "?s' * e mod group_order = (l + ?c' * ?y) mod group_order"
    using a by (simp_all add: enc_eq_iff [OF R]) (metis mod_add_left_eq)
  have "(?s * e - ?s' * e) mod group_order = ((l + ?c * ?y) - (l + ?c' * ?y)) mod group_order"
    by (rule mod_diff_cong [OF eq])
  then have "(u * (?s * e - ?s' * e)) mod group_order = (u * ((?c - ?c') * ?y)) mod group_order"
    by (intro mod_mult_cong) (simp_all add: algebra_simps)
  also have "\<dots> = ((u * (?c - ?c')) mod group_order * ?y) mod group_order"
    by (simp only: mod_mult_left_eq mult.assoc)
  finally have "(u * (?s - ?s') * e) mod group_order = ?y mod group_order"
    unfolding u by (simp add: algebra_simps)
  then have "(uint r + u * (?s - ?s') * e) mod group_order = (uint r + ?y) mod group_order"
    by (rule mod_add_cong [OF refl])
  then show ?thesis by (simp add: enc_eq_iff [OF R])
qed

text \<open>Two canonical encodings of the same scalar are equal.\<close>

lemma canonical_same:
  assumes "canonical a" and "canonical b" and "sval a mod group_order = sval b mod group_order"
  shows "a = b"
  using assms by (auto simp: canonical_iff sc_eq_iff)

text \<open>C15: Special soundness of the set-membership proof, for whatever bytes the verifier accepts: from two accepted proofs
  with the same branch commitments and different master challenges (under hash functions that may differ, and the same
  scalar addition) a role of the list is computed that the commitment opens to, with the blinding factor from the two
  responses, for a branch in which the two challenges are different scalars. The one exception is the one the code leaves
  open by not checking scalars: a branch whose two challenges are different bytes for the same scalar, of which at least one
  is not canonical.\<close>

theorem role_set_special_soundness:
  assumes R: "ristretto255 S enc" and R': "ristretto255 S' enc" and add: "sd_scalar_add S' = sd_scalar_add S"
    and h: "auth_attr_h S = Ret (enc e)" "auth_attr_h S' = Ret (enc e)"
    and n: "length roles = n" "length bs = n" "length bs' = n"
    and wf: "list_all wf_branch (bs @ bs')" and As: "map br_a bs' = map br_a bs"
    and len: "length pid = 32" "length nonce_c = 32" "length eph_c = 32"
    and acc: "auth_verify_role_set_membership S (Some bs) n (Some roles) n c_prime pid nonce_c eph_c = Ret True"
      "auth_verify_role_set_membership S' (Some bs') n (Some roles) n c_prime pid nonce_c eph_c = Ret True"
    and c: "tr_challenge S (tr_role_set roles c_prime (map br_a bs) pid nonce_c eph_c) \<noteq>
            tr_challenge S' (tr_role_set roles c_prime (map br_a bs) pid nonce_c eph_c)"
  shows "(\<exists>i<n. sval (br_c (bs ! i)) mod group_order \<noteq> sval (br_c (bs' ! i)) mod group_order \<and>
      (\<forall>u. (u * (sval (br_c (bs ! i)) - sval (br_c (bs' ! i)))) mod group_order = 1 \<longrightarrow>
         c_prime = enc (uint (roles ! i) + u * (sval (br_s (bs ! i)) - sval (br_s (bs' ! i))) * e))) \<or>
    (\<exists>i<n. br_c (bs ! i) \<noteq> br_c (bs' ! i) \<and> sval (br_c (bs ! i)) mod group_order = sval (br_c (bs' ! i)) mod group_order \<and>
      \<not> (canonical (br_c (bs ! i)) \<and> canonical (br_c (bs' ! i))))"
proof -
  have n': "0 < n" "n \<le> 8" using acc(1) by (auto simp: auth_verify_role_set_membership_def split: if_splits)
  have "c_prime \<in> range enc"
    using verify_set_invalid [OF R h(1) n(1,2) n', of c_prime pid nonce_c eph_c] acc(1) by auto
  then obtain C where C: "c_prime = enc C" by blast
  have wfs: "\<forall>b \<in> set bs. wf_branch b" "\<forall>b \<in> set bs'. wf_branch b" using wf by (auto simp: list_all_iff)
  have 1: "branch_sum S bs = tr_challenge S (tr_role_set roles (enc C) (map br_a bs) pid nonce_c eph_c)"
    "list_all2 (branch_ok enc e C) roles bs"
    using verify_set_eq [OF R h(1) n(1,2) n' wfs(1) len, of C] acc(1) by (simp_all add: C)
  have 2: "branch_sum S' bs' = tr_challenge S' (tr_role_set roles (enc C) (map br_a bs) pid nonce_c eph_c)"
    "list_all2 (branch_ok enc e C) roles bs'"
    using verify_set_eq [OF R' h(2) n(1,3) n' wfs(2) len, of C] acc(2) by (simp_all add: C As)
  have "branch_sum S bs \<noteq> branch_sum S' bs'" using 1(1) 2(1) c by (simp add: C)
  moreover have "branch_sum T xs = fold (\<lambda>c sum. auth_scalar_add T sum c) (map br_c xs) (replicate 32 0)" for T xs
    by (simp add: branch_sum_def fold_map comp_def)
  ultimately have "map br_c bs \<noteq> map br_c bs'" using add by (auto simp: auth_scalar_add_def)
  then obtain i where i: "i < n" "br_c (bs ! i) \<noteq> br_c (bs' ! i)"
    using n by (metis length_map nth_equalityI nth_map)
  show ?thesis
  proof (cases "sval (br_c (bs ! i)) mod group_order = sval (br_c (bs' ! i)) mod group_order")
    case True
    then show ?thesis using i canonical_same [of "br_c (bs ! i)" "br_c (bs' ! i)"] by blast
  next
    case False
    have a: "br_a (bs' ! i) = br_a (bs ! i)" using As i n by (metis nth_map)
    have "branch_ok enc e C (roles ! i) (bs ! i)" "branch_ok enc e C (roles ! i) (bs' ! i)"
      using 1(2) 2(2) i n by (simp_all add: list_all2_conv_all_nth)
    then show ?thesis using branch_extract [OF R a] False i C by blast
  qed
qed

lemma set_sample_accepted:
  assumes "0 < c" and "c < 100"
  shows "auth_verify_role_set_membership (rewound_sodium c) (Some (set_sample c)) 1 (Some [2]) 1 (toy_enc 47)
    (replicate 32 1) (replicate 32 2) (replicate 32 3) = Ret True"
proof -
  note R = rewound_ristretto [of c]
  have c: "c < group_order" using assms by (simp add: group_order_def)
  have wf: "\<forall>b \<in> set (set_sample c). wf_branch b" "\<forall>b \<in> set (set_sample c). canonical (br_c b)"
    by (simp_all add: set_sample_def wf_branch_def length_enc [OF R])
  have "tr_challenge (rewound_sodium c) t = sc c" for t
    using canonical_tr_challenge [OF R, of t] rewound_challenge [of c t] assms c canonical_iff
    by (metis le_int_sc mod_pos_pos_trivial less_imp_le sc_eq_iff)
  moreover have "branch_sum (rewound_sodium c) (set_sample c) = sc c"
    using branch_sum_canonical [OF R wf(2)] assms c by (simp add: set_sample_def sc_eq_iff)
  moreover have "branch_ok toy_enc 9 47 2 (hd (set_sample c))"
    using assms by (simp add: branch_ok_def set_sample_def enc_eq_iff [OF R] small_mods exI [of _ 63])
  ultimately show ?thesis
    using verify_set_eq [OF R rewound_h _ _ _ _ wf(1), of "[2]" 1 "replicate 32 1" "replicate 32 2" "replicate 32 3" 47]
    by (simp add: set_sample_def)
qed

theorem role_set_special_soundness_witness:
  "\<exists>i<1. br_c (set_sample 1 ! i) \<noteq> br_c (set_sample 2 ! i) \<and>
     toy_enc 47 = toy_enc (uint ([2 :: u64] ! i) + - 1 * (sval (sc 12) - sval (sc 17)) * 9)"
proof -
  have small: "1 mod group_order = 1" "2 mod group_order = 2" "- 1 * (1 - 2) mod group_order = 1"
      "1 < group_order" "2 < group_order"
    by (simp_all add: group_order_def)
  have neq: "br_c (set_sample 1 ! 0) \<noteq> br_c (set_sample 2 ! 0)" using small by (simp add: set_sample_def sc_eq_iff)
  have "tr_challenge (rewound_sodium 1) t \<noteq> tr_challenge (rewound_sodium 2) t" for t
    using rewound_challenge [of 1 t] rewound_challenge [of 2 t] small by force
  then have "(\<exists>i<1. sval (br_c (set_sample 1 ! i)) mod group_order \<noteq> sval (br_c (set_sample 2 ! i)) mod group_order \<and>
      (\<forall>u. (u * (sval (br_c (set_sample 1 ! i)) - sval (br_c (set_sample 2 ! i)))) mod group_order = 1 \<longrightarrow>
        toy_enc 47 = toy_enc (uint ([2 :: u64] ! i) + u * (sval (br_s (set_sample 1 ! i)) - sval (br_s (set_sample 2 ! i))) * 9))) \<or>
    (\<exists>i<1. br_c (set_sample 1 ! i) \<noteq> br_c (set_sample 2 ! i) \<and>
      sval (br_c (set_sample 1 ! i)) mod group_order = sval (br_c (set_sample 2 ! i)) mod group_order \<and>
      \<not> (canonical (br_c (set_sample 1 ! i)) \<and> canonical (br_c (set_sample 2 ! i))))"
    using role_set_special_soundness [OF rewound_ristretto [of 1] rewound_ristretto [of 2] _ rewound_h rewound_h,
        of "[2]" 1 "set_sample 1" "set_sample 2" "replicate 32 1" "replicate 32 2" "replicate 32 3" "toy_enc 47"]
      set_sample_accepted [of 1] set_sample_accepted [of 2]
    by (simp add: set_sample_def wf_branch_def length_enc [OF toy_ristretto255] rewound_sodium_def)
  then have "\<forall>u. (u * (sval (br_c (set_sample 1 ! 0)) - sval (br_c (set_sample 2 ! 0)))) mod group_order = 1 \<longrightarrow>
      toy_enc 47 = toy_enc (uint ([2 :: u64] ! 0) + u * (sval (br_s (set_sample 1 ! 0)) - sval (br_s (set_sample 2 ! 0))) * 9)"
    by (simp add: set_sample_def)
  then show ?thesis using neq small by (auto simp: set_sample_def intro!: exI [of _ 0] dest!: spec [of _ "- 1"])
qed

end
