(* ===== verification/KeySchedule.thy ===== *)
theory KeySchedule
  imports Proofs
begin

text \<open>
  \<^verbatim>\<open>c/src/crypto/proofs.c\<close>, lines 800 to 879: the Diffie-Hellman session key, the key-confirmation
  transcript and the two confirmation keys.
\<close>

definition auth_derive_session_key ::
    "sodium \<Rightarrow> byte list \<Rightarrow> byte list \<Rightarrow> byte list \<Rightarrow> byte list \<Rightarrow> byte list \<Rightarrow> byte list \<Rightarrow> byte list \<Rightarrow>
     (auth_err, byte list) cres" where
  "auth_derive_session_key S eph_secret peer_eph_pub nonce_c nonce_s pid eph_c eph_s =
     bnd (auth_scalarmult S eph_secret peer_eph_pub) (\<lambda>shared.
     bnd (wrn (replicate 64 0) 0 nonce_c 32) (\<lambda>salt.
     bnd (wrn salt 32 nonce_s 32) (\<lambda>salt.
     bnd (wrn (replicate 110 0) 0 (ascii ''session key v2'') 14) (\<lambda>info.
     bnd (wrn info 14 pid 32) (\<lambda>info.
     bnd (wrn info 46 eph_c 32) (\<lambda>info.
     bnd (wrn info 78 eph_s 32) (\<lambda>info.
     auth_hkdf_sha256 S (Some (replicate 32 0)) (Some salt) 64 (Some shared) 32 (Some info) 110)))))))"

definition auth_kc_transcript_hash ::
    "sodium \<Rightarrow> byte list \<Rightarrow> auth_schnorr_proof \<Rightarrow> byte list \<Rightarrow> byte list \<Rightarrow> byte list \<Rightarrow> auth_schnorr_proof \<Rightarrow> byte list \<Rightarrow> byte list \<Rightarrow>
     (auth_err, byte list) cres" where
  "auth_kc_transcript_hash S pid cp nonce_c eph_c server_pub sp nonce_s eph_s =
     tr_then (auth_transcript_init tr_fresh (Some auth_ds_kc_v2) (length auth_ds_kc_v2)) (\<lambda>t.
     tr_then (auth_transcript_append t (Some (ascii ''pid'')) 3 (Some pid) 32) (\<lambda>t.
     tr_then (auth_transcript_append_point t (ascii ''a_c'') (prf_a cp)) (\<lambda>t.
     tr_then (auth_transcript_append_scalar t (ascii ''s_c'') (prf_s cp)) (\<lambda>t.
     tr_then (auth_transcript_append t (Some (ascii ''nonce_c'')) 7 (Some nonce_c) 32) (\<lambda>t.
     tr_then (auth_transcript_append_point t (ascii ''eph_c'') eph_c) (\<lambda>t.
     tr_then (auth_transcript_append_point t (ascii ''server_pub'') server_pub) (\<lambda>t.
     tr_then (auth_transcript_append_point t (ascii ''a_s'') (prf_a sp)) (\<lambda>t.
     tr_then (auth_transcript_append_scalar t (ascii ''s_s'') (prf_s sp)) (\<lambda>t.
     tr_then (auth_transcript_append t (Some (ascii ''nonce_s'')) 7 (Some nonce_s) 32) (\<lambda>t.
     tr_then (auth_transcript_append_point t (ascii ''eph_s'') eph_s) (\<lambda>t.
     auth_transcript_hash_sha256 S t)))))))))))"

text \<open>The results of the two calls are ignored by the code; they cannot fail on these sizes
  (lemma \<open>kc_keys_eq\<close>).\<close>

definition auth_derive_kc_keys ::
    "sodium \<Rightarrow> byte list \<Rightarrow> byte list \<Rightarrow> (auth_err, byte list \<times> byte list) cres" where
  "auth_derive_kc_keys S session_key th =
     bnd (auth_hkdf_sha256 S (Some (replicate 32 0)) (Some th) 32 (Some session_key) 32
            (Some (ascii ''kc s2c'')) 6) (\<lambda>k_s2c.
     bnd (auth_hkdf_sha256 S (Some (replicate 32 0)) (Some th) 32 (Some session_key) 32
            (Some (ascii ''kc c2s'')) 6) (\<lambda>k_c2s.
     Ret (k_s2c, k_c2s)))"

subsection \<open>What they compute\<close>

lemma session_key_eq:
  assumes "digest_lengths S" and "auth_scalarmult S eph_secret peer_eph_pub = Ret shared"
    and "length shared = 32" and "length nonce_c = 32" "length nonce_s = 32" "length pid = 32" "length eph_c = 32" "length eph_s = 32"
  shows "auth_derive_session_key S eph_secret peer_eph_pub nonce_c nonce_s pid eph_c eph_s =
    Ret (rfc5869 S (nonce_c @ nonce_s) shared (ascii ''session key v2'' @ pid @ eph_c @ eph_s) 32)"
proof -
  let ?salt = "nonce_c @ nonce_s" and ?info = "ascii ''session key v2'' @ pid @ eph_c @ eph_s"
  have len: "length ?salt = 64" "length ?info = 110" using assms by simp_all
  have "?salt \<noteq> []" using len(1) by (metis list.size(3) zero_neq_numeral)
  then have "auth_hkdf_sha256 S (Some (replicate 32 0)) (Some ?salt) 64 (Some shared) 32 (Some ?info) 110 =
      Ret (rfc5869 S ?salt shared ?info 32)"
    using hkdf_rfc5869 [OF assms(1), of "replicate 32 0" ?salt shared ?info] assms(3) len by simp
  then show ?thesis
    using assms(2-) by (simp add: auth_derive_session_key_def wrn_def)
qed

lemma kc_keys_eq:
  assumes "digest_lengths S" and "length session_key = 32" and "length th = 32"
  shows "auth_derive_kc_keys S session_key th =
    Ret (rfc5869 S th session_key (ascii ''kc s2c'') 32, rfc5869 S th session_key (ascii ''kc c2s'') 32)"
proof -
  have th: "th \<noteq> []" using assms(3) by (metis list.size(3) zero_neq_numeral)
  have "auth_hkdf_sha256 S (Some (replicate 32 0)) (Some th) 32 (Some session_key) 32 (Some info) 6 =
      Ret (rfc5869 S th session_key info 32)" if "length info = 6" for info
    using hkdf_rfc5869 [OF assms(1), of "replicate 32 0" th session_key info] th assms that by simp
  then show ?thesis by (simp add: auth_derive_kc_keys_def)
qed

definition tr_kc ::
    "byte list \<Rightarrow> auth_schnorr_proof \<Rightarrow> byte list \<Rightarrow> byte list \<Rightarrow> byte list \<Rightarrow> auth_schnorr_proof \<Rightarrow> byte list \<Rightarrow>
     byte list \<Rightarrow> byte list" where
  "tr_kc pid cp nonce_c eph_c server_pub sp nonce_s eph_s =
     tr_encode auth_ds_kc_v2
     [(ascii ''pid'', pid), (ascii ''a_c'', prf_a cp), (ascii ''s_c'', prf_s cp), (ascii ''nonce_c'', nonce_c),
      (ascii ''eph_c'', eph_c), (ascii ''server_pub'', server_pub), (ascii ''a_s'', prf_a sp),
      (ascii ''s_s'', prf_s sp), (ascii ''nonce_s'', nonce_s), (ascii ''eph_s'', eph_s)]"

lemma kc_transcript_eq:
  assumes "length pid = 32" "wf_proof cp" "length nonce_c = 32" "length eph_c = 32" "length server_pub = 32"
    "wf_proof sp" "length nonce_s = 32" "length eph_s = 32"
  shows "auth_kc_transcript_hash S pid cp nonce_c eph_c server_pub sp nonce_s eph_s =
    Ret (sd_sha256 S (tr_kc pid cp nonce_c eph_c server_pub sp nonce_s eph_s))"
  using assms
  by (simp add: auth_kc_transcript_hash_def tr_kc_def transcript_simps domain_defs wf_proof_def hash_of)

lemma tr_kc_inject:
  assumes "list_all (\<lambda>b. length b = 32) [pid, nc, ec, pk, ns, es, pid', nc', ec', pk', ns', es']"
    and "wf_proof cp" "wf_proof sp" "wf_proof cp'" "wf_proof sp'"
  shows "tr_kc pid cp nc ec pk sp ns es = tr_kc pid' cp' nc' ec' pk' sp' ns' es' \<longleftrightarrow>
    (pid, cp, nc, ec, pk, sp, ns, es) = (pid', cp', nc', ec', pk', sp', ns', es')"
proof -
  have "p = q \<longleftrightarrow> prf_a p = prf_a q \<and> prf_s p = prf_s q" for p q :: auth_schnorr_proof
    by (cases p; cases q) simp
  then show ?thesis
    using assms unfolding tr_kc_def
    by (subst tr_encode_inject) (auto simp: tr_items_ok_def domain_defs wf_proof_def)
qed

subsection \<open>Properties\<close>

text \<open>Client and server derive the same session key: with ephemeral secrets \<open>a\<close> and \<open>b\<close> and
  the public values computed from them, the client's derivation from the server's value and the
  server's derivation from the client's value give one 32-byte key, the HKDF of the shared point
  salted with both nonces and bound to the pseudonym and both ephemeral values.\<close>

theorem session_key_agreement:
  assumes "ristretto255 S enc" and "length a = 32" and "length b = 32"
    and "auth_scalarmult_base S a = Ret eph_c" and "auth_scalarmult_base S b = Ret eph_s"
    and "(sval a * sval b) mod group_order \<noteq> 0"
    and "length nonce_c = 32" and "length nonce_s = 32" and "length pid = 32"
  shows "\<exists>key. length key = 32 \<and>
    auth_derive_session_key S a eph_s nonce_c nonce_s pid eph_c eph_s = Ret key \<and>
    auth_derive_session_key S b eph_c nonce_c nonce_s pid eph_c eph_s = Ret key"
proof -
  note R = assms(1)
  have ec: "eph_c = enc (sval a)" and es: "eph_s = enc (sval b)"
    using assms(2-5) by (auto simp: base_mult [OF R] split: if_splits)
  have "auth_scalarmult S a eph_s = Ret (enc (sval a * sval b))"
    and "auth_scalarmult S b eph_c = Ret (enc (sval a * sval b))"
    using assms(2,3,6) by (simp_all add: ec es point_mult [OF R] enc_eq_iff [OF R] mult.commute)
  then show ?thesis
    using session_key_eq [OF ristretto255_digests [OF R], of a eph_s] session_key_eq [OF ristretto255_digests [OF R], of b eph_c]
      length_rfc5869 [OF ristretto255_digests [OF R]] assms(7-9)
    by (simp add: ec es length_enc [OF R])
qed

theorem session_key_agreement_witness:
  "\<exists>key. length key = 32 \<and>
    auth_derive_session_key toy_sodium (sc 3) (toy_enc 4) (replicate 32 1) (replicate 32 2) (replicate 32 5)
      (toy_enc 3) (toy_enc 4) = Ret key \<and>
    auth_derive_session_key toy_sodium (sc 4) (toy_enc 3) (replicate 32 1) (replicate 32 2) (replicate 32 5)
      (toy_enc 3) (toy_enc 4) = Ret key"
proof (rule session_key_agreement [OF toy_ristretto255])
  show "auth_scalarmult_base toy_sodium (sc 3) = Ret (toy_enc 3)" "auth_scalarmult_base toy_sodium (sc 4) = Ret (toy_enc 4)"
    by (rule toy_base, simp add: group_order_def)+
qed (simp_all add: group_order_def)

text \<open>The key-confirmation hash input determines the whole handshake: pseudonym, both proofs, both
  nonces, both ephemeral values and the server key, so peers that confirm the same hash (of a
  collision-free hash) have seen the same handshake.\<close>

theorem kc_transcript_binds:
  assumes "list_all (\<lambda>b. length b = 32) [pid, nc, ec, pk, ns, es, pid', nc', ec', pk', ns', es']"
    and "wf_proof cp" and "wf_proof sp" and "wf_proof cp'" and "wf_proof sp'"
    and "inj_on (sd_sha256 S) {tr_kc pid cp nc ec pk sp ns es, tr_kc pid' cp' nc' ec' pk' sp' ns' es'}"
  shows "auth_kc_transcript_hash S pid cp nc ec pk sp ns es = auth_kc_transcript_hash S pid' cp' nc' ec' pk' sp' ns' es' \<longleftrightarrow>
    (pid, cp, nc, ec, pk, sp, ns, es) = (pid', cp', nc', ec', pk', sp', ns', es')"
proof -
  have "auth_kc_transcript_hash S pid cp nc ec pk sp ns es = auth_kc_transcript_hash S pid' cp' nc' ec' pk' sp' ns' es' \<longleftrightarrow>
      sd_sha256 S (tr_kc pid cp nc ec pk sp ns es) = sd_sha256 S (tr_kc pid' cp' nc' ec' pk' sp' ns' es')"
    using assms by (simp add: kc_transcript_eq)
  also have "\<dots> \<longleftrightarrow> tr_kc pid cp nc ec pk sp ns es = tr_kc pid' cp' nc' ec' pk' sp' ns' es'"
    using assms(6) by (auto dest: inj_onD)
  finally show ?thesis by (simp only: tr_kc_inject [OF assms(1-5)])
qed

theorem kc_transcript_binds_witness:
  "auth_kc_transcript_hash (toy_sodium\<lparr>sd_sha256 := id\<rparr>) (replicate 32 0) zero_proof (replicate 32 1)
      (replicate 32 2) (replicate 32 3) zero_proof (replicate 32 4) (replicate 32 5) \<noteq>
   auth_kc_transcript_hash (toy_sodium\<lparr>sd_sha256 := id\<rparr>) (replicate 32 0) zero_proof (replicate 32 1)
      (replicate 32 2) (replicate 32 3) zero_proof (replicate 32 4) (replicate 32 6)"
proof -
  have wf: "wf_proof zero_proof" by (simp add: wf_proof_def zero_proof_def)
  show ?thesis
    using kc_transcript_binds [of "replicate 32 0" "replicate 32 1" "replicate 32 2" "replicate 32 3"
        "replicate 32 4" "replicate 32 5" "replicate 32 0" "replicate 32 1" "replicate 32 2" "replicate 32 3"
        "replicate 32 4" "replicate 32 6" zero_proof zero_proof zero_proof zero_proof "toy_sodium\<lparr>sd_sha256 := id\<rparr>"] wf
    by (simp add: replicate_eq_replicate)
qed

end
