(* ===== verification/Wire.thy ===== *)
theory Wire
  imports Codec
begin

text \<open>
  \<^verbatim>\<open>c/src/wire/wire.c\<close>: the 24-byte packet header, packets and error packets, the TLV codec,
  HELLO messages and version/suite/capability negotiation. An output parameter is a component
  of the result; the pair \<^verbatim>\<open>(buf, *written)\<close> an encoder leaves behind is a \<^typ>\<open>cursor\<close>.
\<close>

subsection \<open>Constants\<close>

abbreviation (input) AUTH_PROTOCOL_VERSION :: byte where "AUTH_PROTOCOL_VERSION \<equiv> 0x02"
abbreviation (input) AUTH_MIN_SUPPORTED_VERSION :: byte where "AUTH_MIN_SUPPORTED_VERSION \<equiv> 0x02"

abbreviation (input) AUTH_PKT_HELLO :: byte where "AUTH_PKT_HELLO \<equiv> 0x01"
abbreviation (input) AUTH_PKT_HELLO_REPLY :: byte where "AUTH_PKT_HELLO_REPLY \<equiv> 0x02"
abbreviation (input) AUTH_PKT_SETUP_1 :: byte where "AUTH_PKT_SETUP_1 \<equiv> 0x11"
abbreviation (input) AUTH_PKT_SETUP_2 :: byte where "AUTH_PKT_SETUP_2 \<equiv> 0x12"
abbreviation (input) AUTH_PKT_SETUP_3 :: byte where "AUTH_PKT_SETUP_3 \<equiv> 0x13"
abbreviation (input) AUTH_PKT_SETUP_ACK :: byte where "AUTH_PKT_SETUP_ACK \<equiv> 0x14"
abbreviation (input) AUTH_PKT_AUTH_1 :: byte where "AUTH_PKT_AUTH_1 \<equiv> 0x21"
abbreviation (input) AUTH_PKT_AUTH_2 :: byte where "AUTH_PKT_AUTH_2 \<equiv> 0x22"
abbreviation (input) AUTH_PKT_AUTH_3 :: byte where "AUTH_PKT_AUTH_3 \<equiv> 0x23"
abbreviation (input) AUTH_PKT_AUTH_ACK :: byte where "AUTH_PKT_AUTH_ACK \<equiv> 0x24"
abbreviation (input) AUTH_PKT_ERROR :: byte where "AUTH_PKT_ERROR \<equiv> 0x7f"

abbreviation (input) AUTH_FLAG_NONE :: u16 where "AUTH_FLAG_NONE \<equiv> 0"

abbreviation (input) AUTH_TLV_MIN_VERSION :: u16 where "AUTH_TLV_MIN_VERSION \<equiv> 0x0001"
abbreviation (input) AUTH_TLV_MTU_HINT :: u16 where "AUTH_TLV_MTU_HINT \<equiv> 0x0004"
abbreviation (input) AUTH_TLV_VENDOR_ID :: u16 where "AUTH_TLV_VENDOR_ID \<equiv> 0x0100"
abbreviation (input) AUTH_TLV_DEVICE_MODEL :: u16 where "AUTH_TLV_DEVICE_MODEL \<equiv> 0x0101"

text \<open>\<^verbatim>\<open>AUTH_CAP_AUTH_V2 | AUTH_CAP_ROLE_RERAND | AUTH_CAP_ROLE_SET_MEMBERSHIP |
  AUTH_CAP_PROFILE_STANDARD\<close>\<close>

definition AUTH_CAPS_BASELINE :: u64 where
  "AUTH_CAPS_BASELINE = push_bit 0 1 OR push_bit 1 1 OR push_bit 2 1 OR push_bit 9 1"

subsection \<open>Header\<close>

record auth_header =
  hdr_version :: byte
  hdr_pkt_type :: byte
  hdr_flags :: u16
  hdr_session_id :: "byte list"
  hdr_seq :: u32

definition load_u16_le :: "byte list \<Rightarrow> nat \<Rightarrow> (auth_err, u16) cres" where
  "load_u16_le p off =
     bnd (rd p off) (\<lambda>b0. bnd (rd p (off + 1)) (\<lambda>b1. Ret (ucast b0 OR push_bit 8 (ucast b1))))"

definition auth_header_encode :: "auth_header encoder" where
  "auth_header_encode hdr buf =
     (case (hdr, buf) of
        (Some h, Some buf) \<Rightarrow>
          if length buf < AUTH_HEADER_LEN then Fail AUTH_ERR_BUFFER_TOO_SMALL
          else
            bnd (wr buf 0 (hdr_version h)) (\<lambda>buf.
            bnd (wr buf 1 (hdr_pkt_type h)) (\<lambda>buf.
            bnd (wr buf 2 (ucast (hdr_flags h AND 0xff))) (\<lambda>buf.
            bnd (wr buf 3 (ucast (drop_bit 8 (hdr_flags h) AND 0xff))) (\<lambda>buf.
            bnd (wrn buf 4 (hdr_session_id h) AUTH_SESSION_ID_LEN) (\<lambda>buf.
            bnd (wr buf 20 (ucast (hdr_seq h AND 0xff))) (\<lambda>buf.
            bnd (wr buf 21 (ucast (drop_bit 8 (hdr_seq h) AND 0xff))) (\<lambda>buf.
            bnd (wr buf 22 (ucast (drop_bit 16 (hdr_seq h) AND 0xff))) (\<lambda>buf.
            bnd (wr buf 23 (ucast (drop_bit 24 (hdr_seq h) AND 0xff))) (\<lambda>buf.
            Ret (buf, AUTH_HEADER_LEN))))))))))
      | _ \<Rightarrow> Fail AUTH_ERR_INVALID_ARGUMENT)"

definition auth_header_decode :: "byte list option \<Rightarrow> (auth_err, auth_header \<times> byte list) cres" where
  "auth_header_decode buf =
     (case buf of
        None \<Rightarrow> Fail AUTH_ERR_INVALID_ARGUMENT
      | Some buf \<Rightarrow>
          if length buf < AUTH_HEADER_LEN then Fail AUTH_ERR_PAYLOAD_TOO_SHORT
          else
            bnd (rd buf 0) (\<lambda>version.
            bnd (rd buf 1) (\<lambda>pkt_type.
            bnd (load_u16_le buf 2) (\<lambda>flags.
            bnd (rdn buf 4 AUTH_SESSION_ID_LEN) (\<lambda>session_id.
            bnd (rd buf 20) (\<lambda>q0. bnd (rd buf 21) (\<lambda>q1. bnd (rd buf 22) (\<lambda>q2. bnd (rd buf 23) (\<lambda>q3.
            let seq = ucast q0 OR push_bit 8 (ucast q1) OR push_bit 16 (ucast q2) OR push_bit 24 (ucast q3)
            in if version < AUTH_MIN_SUPPORTED_VERSION then Fail AUTH_ERR_UNSUPPORTED_VERSION
               else Ret (\<lparr>hdr_version = version, hdr_pkt_type = pkt_type, hdr_flags = flags,
                          hdr_session_id = session_id, hdr_seq = seq\<rparr>,
                         drop AUTH_HEADER_LEN buf))))))))))"

subsection \<open>Packets\<close>

definition auth_packet_build ::
    "byte \<Rightarrow> byte list option \<Rightarrow> u32 \<Rightarrow> byte list option \<Rightarrow> nat \<Rightarrow> byte list option \<Rightarrow>
     (auth_err, cursor) cres" where
  "auth_packet_build pkt_type session_id seq payload payload_len buf =
     (if buf = None \<or> (payload = None \<and> payload_len > 0) \<or> session_id = None
      then Fail AUTH_ERR_INVALID_ARGUMENT
      else if payload_len > AUTH_MAX_PAYLOAD then Fail AUTH_ERR_PAYLOAD_TOO_LARGE
      else let total = AUTH_HEADER_LEN + payload_len in
        if length (the buf) < total then Fail AUTH_ERR_BUFFER_TOO_SMALL
        else
          bnd (rdn (the session_id) 0 AUTH_SESSION_ID_LEN) (\<lambda>sid.
          let h = \<lparr>hdr_version = AUTH_PROTOCOL_VERSION, hdr_pkt_type = pkt_type,
                   hdr_flags = AUTH_FLAG_NONE, hdr_session_id = sid, hdr_seq = seq\<rparr> in
          bnd (auth_header_encode (Some h) buf) (\<lambda>c.
          bnd (if payload_len \<noteq> 0 then wrn (fst c) AUTH_HEADER_LEN (the payload) payload_len
               else Ret (fst c)) (\<lambda>buf.
          Ret (buf, total)))))"

text \<open>The local array \<^verbatim>\<open>payload\<close> starts with unspecified content; only the part that is
  written is sent. A C string is the list of its bytes without the final zero.\<close>

definition auth_packet_build_error ::
    "byte list option \<Rightarrow> u32 \<Rightarrow> auth_err \<Rightarrow> byte list option \<Rightarrow> byte list option \<Rightarrow>
     (auth_err, cursor) cres" where
  "auth_packet_build_error session_id seq code msg buf =
     (let msg_len = (case msg of Some m \<Rightarrow> length m | None \<Rightarrow> 0) in
      if msg_len > AUTH_MAX_PAYLOAD - 2 then Fail AUTH_ERR_PAYLOAD_TOO_LARGE
      else
        let code_u16 = err_code code; payload = replicate AUTH_MAX_PAYLOAD 0 in
        bnd (wr payload 0 (ucast (code_u16 AND 0xff))) (\<lambda>payload.
        bnd (wr payload 1 (ucast (drop_bit 8 code_u16 AND 0xff))) (\<lambda>payload.
        bnd (if msg_len \<noteq> 0 then wrn payload 2 (the msg) msg_len else Ret payload) (\<lambda>payload.
        auth_packet_build AUTH_PKT_ERROR session_id seq (Some payload) (2 + msg_len) buf))))"

definition auth_packet_parse_error ::
    "byte list option \<Rightarrow> (auth_err, auth_err \<times> byte list) cres" where
  "auth_packet_parse_error payload =
     (case payload of
        None \<Rightarrow> Fail AUTH_ERR_MALFORMED_PACKET
      | Some p \<Rightarrow>
          if length p < 2 then Fail AUTH_ERR_MALFORMED_PACKET
          else bnd (load_u16_le p 0) (\<lambda>code. Ret (normalize_wire_error_code code, drop 2 p)))"

subsection \<open>TLV\<close>

definition auth_tlv_write ::
    "byte list option \<Rightarrow> nat option \<Rightarrow> u16 \<Rightarrow> byte list \<Rightarrow> nat \<Rightarrow> (auth_err, cursor) cres" where
  "auth_tlv_write buf offset tag val value_len =
     (case (buf, offset) of
        (Some buf, Some off) \<Rightarrow>
          if value_len > 0xFFFF then Fail AUTH_ERR_PAYLOAD_TOO_LARGE
          else if off + 4 + value_len > length buf then Fail AUTH_ERR_BUFFER_TOO_SMALL
          else
            bnd (wr buf (off + 0) (ucast (tag AND 0xff))) (\<lambda>buf.
            bnd (wr buf (off + 1) (ucast (drop_bit 8 tag AND 0xff))) (\<lambda>buf.
            let len16 = (of_nat value_len :: u16) in
            bnd (wr buf (off + 2) (ucast (len16 AND 0xff))) (\<lambda>buf.
            bnd (wr buf (off + 3) (ucast (drop_bit 8 len16 AND 0xff))) (\<lambda>buf.
            bnd (if value_len \<noteq> 0 then wrn buf (off + 4) val value_len else Ret buf) (\<lambda>buf.
            Ret (buf, off + (4 + value_len)))))))
      | _ \<Rightarrow> Fail AUTH_ERR_INVALID_ARGUMENT)"

definition auth_tlv_read ::
    "byte list option \<Rightarrow> nat option \<Rightarrow> (auth_err, u16 \<times> byte list \<times> nat) cres" where
  "auth_tlv_read buf offset =
     (case (buf, offset) of
        (Some buf, Some off) \<Rightarrow>
          if off \<ge> length buf then Fail AUTH_ERR_PAYLOAD_TOO_SHORT
          else if length buf - off < 4 then Fail AUTH_ERR_MALFORMED_PACKET
          else
            bnd (load_u16_le buf off) (\<lambda>tag.
            bnd (load_u16_le buf (off + 2)) (\<lambda>len.
            if 4 + unat len > length buf - off then Fail AUTH_ERR_MALFORMED_PACKET
            else bnd (rdn buf (off + 4) (unat len)) (\<lambda>val.
                 Ret (tag, val, off + (4 + unat len)))))
      | _ \<Rightarrow> Fail AUTH_ERR_INVALID_ARGUMENT)"

subsection \<open>HELLO\<close>

record auth_hello =
  hello_version :: byte
  hello_min_version :: byte
  hello_suites :: "u16 list"
  hello_n_suites :: nat
  hello_caps :: u64
  hello_has_mtu_hint :: bool
  hello_mtu_hint :: u16
  hello_vendor_id :: "byte list"
  hello_vendor_id_len :: nat
  hello_device_model :: "byte list"
  hello_device_model_len :: nat

definition hello_zero :: auth_hello where
  "hello_zero =
     \<lparr>hello_version = 0, hello_min_version = 0, hello_suites = replicate 8 0, hello_n_suites = 0,
      hello_caps = 0, hello_has_mtu_hint = False, hello_mtu_hint = 0,
      hello_vendor_id = replicate 16 0, hello_vendor_id_len = 0,
      hello_device_model = replicate 64 0, hello_device_model_len = 0\<rparr>"

text \<open>The arrays of the struct have their declared sizes; an index outside one is a fault.\<close>

definition hello_suite_get :: "auth_hello \<Rightarrow> nat \<Rightarrow> (auth_err, u16) cres" where
  "hello_suite_get h i = (if i < length (hello_suites h) then Ret (hello_suites h ! i) else Fault)"

definition auth_hello_encode :: "auth_hello encoder" where
  "auth_hello_encode hello buf =
     (case (hello, buf) of
        (Some h, Some buf) \<Rightarrow>
          if hello_n_suites h > 8 then Fail AUTH_ERR_INVALID_ARGUMENT
          else if length buf < 1 + 2 + 2 * hello_n_suites h + 8 then Fail AUTH_ERR_BUFFER_TOO_SMALL
          else
            let nsu = (of_nat (hello_n_suites h) :: u16) in
            bnd (putb (hello_version h) (buf, 0)) (\<lambda>c.
            bnd (putb (ucast (nsu AND 0xff)) c) (\<lambda>c.
            bnd (putb (ucast (drop_bit 8 nsu AND 0xff)) c) (\<lambda>c.
            bnd (loop (\<lambda>i c. bnd (hello_suite_get h i) (\<lambda>s.
                   bnd (putb (ucast (s AND 0xff)) c) (putb (ucast (drop_bit 8 s AND 0xff)))))
                 [0..<hello_n_suites h] c) (\<lambda>c.
            bnd (loop (\<lambda>i. putb (ucast (drop_bit (8 * i) (hello_caps h) AND 0xff))) [0..<8] c) (\<lambda>c.
            bnd (auth_tlv_write (Some (fst c)) (Some (snd c)) AUTH_TLV_MIN_VERSION
                   [hello_min_version h] 1) (\<lambda>c.
            bnd (if hello_has_mtu_hint h
                 then auth_tlv_write (Some (fst c)) (Some (snd c)) AUTH_TLV_MTU_HINT
                        [ucast (hello_mtu_hint h AND 0xff),
                         ucast (drop_bit 8 (hello_mtu_hint h) AND 0xff)] 2
                 else Ret c) (\<lambda>c.
            bnd (if hello_vendor_id_len h \<noteq> 0
                 then auth_tlv_write (Some (fst c)) (Some (snd c)) AUTH_TLV_VENDOR_ID
                        (hello_vendor_id h) (hello_vendor_id_len h)
                 else Ret c) (\<lambda>c.
            bnd (if hello_device_model_len h \<noteq> 0
                 then auth_tlv_write (Some (fst c)) (Some (snd c)) AUTH_TLV_DEVICE_MODEL
                        (hello_device_model h) (hello_device_model_len h)
                 else Ret c) Ret))))))))
      | _ \<Rightarrow> Fail AUTH_ERR_INVALID_ARGUMENT)"

text \<open>The \<^verbatim>\<open>switch (tag)\<close> of the TLV walk, and the walk.\<close>

definition hello_tlv :: "u16 \<Rightarrow> byte list \<Rightarrow> auth_hello \<Rightarrow> (auth_err, auth_hello) cres" where
  "hello_tlv tag val h =
     (if tag = AUTH_TLV_MIN_VERSION then
        if length val \<noteq> 1 then Fail AUTH_ERR_MALFORMED_PACKET
        else bnd (rd val 0) (\<lambda>v. Ret (h\<lparr>hello_min_version := v\<rparr>))
      else if tag = AUTH_TLV_MTU_HINT then
        if length val \<noteq> 2 then Fail AUTH_ERR_MALFORMED_PACKET
        else bnd (load_u16_le val 0) (\<lambda>v.
             Ret (h\<lparr>hello_has_mtu_hint := True, hello_mtu_hint := v\<rparr>))
      else if tag = AUTH_TLV_VENDOR_ID then
        if length val > 16 then Ret h
        else bnd (wrn (hello_vendor_id h) 0 val (length val)) (\<lambda>v.
             Ret (h\<lparr>hello_vendor_id := v, hello_vendor_id_len := length val\<rparr>))
      else if tag = AUTH_TLV_DEVICE_MODEL then
        if length val > 64 then Ret h
        else bnd (wrn (hello_device_model h) 0 val (length val)) (\<lambda>v.
             Ret (h\<lparr>hello_device_model := v, hello_device_model_len := length val\<rparr>))
      else Ret h)"

lemma auth_tlv_read_advances:
  "auth_tlv_read (Some buf) (Some off) = Ret (tag, val, off') \<Longrightarrow> off + 4 \<le> off' \<and> off' \<le> length buf"
  by (auto simp: auth_tlv_read_def bnd_iffs split: if_splits)

function hello_tlvs :: "byte list \<Rightarrow> nat \<Rightarrow> auth_hello \<Rightarrow> (auth_err, auth_hello) cres" where
  "hello_tlvs buf off h =
     (if off < length buf then
        (case auth_tlv_read (Some buf) (Some off) of
           Fault \<Rightarrow> Fault
         | Fail e \<Rightarrow> if e = AUTH_ERR_PAYLOAD_TOO_SHORT then Ret h else Fail e
         | Ret (tag, val, off') \<Rightarrow> bnd (hello_tlv tag val h) (hello_tlvs buf off'))
      else Ret h)"
  by pat_completeness auto
termination
  by (relation "measure (\<lambda>(buf, off, h). length buf - off)")
    (auto dest: auth_tlv_read_advances)

definition auth_hello_decode :: "auth_hello decoder" where
  "auth_hello_decode buf =
     (case buf of
        None \<Rightarrow> Fail AUTH_ERR_INVALID_ARGUMENT
      | Some buf \<Rightarrow>
          if length buf < 3 then Fail AUTH_ERR_PAYLOAD_TOO_SHORT
          else
            bnd (rd buf 0) (\<lambda>version.
            bnd (load_u16_le buf 1) (\<lambda>nsu.
            if unat nsu > 8 then Fail AUTH_ERR_MALFORMED_PACKET
            else if length buf - 3 < unat nsu * 2 + 8 then Fail AUTH_ERR_PAYLOAD_TOO_SHORT
            else
              bnd (loop (\<lambda>i suites. bnd (load_u16_le buf (3 + 2 * i)) (\<lambda>s.
                     if i < length suites then Ret (suites[i := s]) else Fault))
                   [0..<unat nsu] (replicate 8 0)) (\<lambda>suites.
              bnd (loop (\<lambda>i caps. bnd (rd buf (3 + 2 * unat nsu + i)) (\<lambda>b.
                     Ret (caps OR push_bit (8 * i) (ucast b)))) [0..<8] 0) (\<lambda>caps.
              hello_tlvs buf (3 + 2 * unat nsu + 8)
                (hello_zero\<lparr>hello_version := version, hello_n_suites := unat nsu,
                            hello_suites := suites, hello_caps := caps,
                            hello_min_version := version\<rparr>))))))"

subsection \<open>Negotiation\<close>

record auth_negotiated =
  neg_version :: byte
  neg_suite :: u16
  neg_caps :: u64

text \<open>The inner and the outer loop of the suite choice.\<close>

fun suite_listed :: "u16 \<Rightarrow> u16 list \<Rightarrow> bool" where
  "suite_listed s [] = False"
| "suite_listed s (p # ps) = (if s = p then True else suite_listed s ps)"

fun choose_suite :: "u16 list \<Rightarrow> u16 list \<Rightarrow> u16 option" where
  "choose_suite [] peers = None"
| "choose_suite (s # ss) peers = (if suite_listed s peers then Some s else choose_suite ss peers)"

definition auth_negotiate ::
    "byte \<Rightarrow> byte \<Rightarrow> u16 list \<Rightarrow> u64 \<Rightarrow> byte \<Rightarrow> byte \<Rightarrow> u16 list \<Rightarrow> u64 \<Rightarrow>
     (auth_err, auth_negotiated) cres" where
  "auth_negotiate local_version local_min local_suites local_caps
                  peer_version peer_min peer_suites peer_caps =
     (let v = (if local_version < peer_version then local_version else peer_version);
          floor = (if local_min > peer_min then local_min else peer_min)
      in if v < floor then Fail AUTH_ERR_UNSUPPORTED_VERSION
      else case choose_suite local_suites peer_suites of
        None \<Rightarrow> Fail AUTH_ERR_UNSUPPORTED_SUITE
      | Some chosen \<Rightarrow>
          let caps = local_caps AND peer_caps in
          if caps AND AUTH_CAPS_BASELINE \<noteq> AUTH_CAPS_BASELINE then Fail AUTH_ERR_CAP_MISMATCH
          else Ret \<lparr>neg_version = v, neg_suite = chosen, neg_caps = caps\<rparr>)"

subsection \<open>Layouts\<close>

lemma load_u16_le_append [mem_simps]:
  "off = length pre \<Longrightarrow> length bs = 2 \<Longrightarrow> load_u16_le (pre @ bs @ rest) off = Ret (le_word bs)"
  by (auto simp: load_u16_le_def rd_def nth_append length_Suc_conv numeral_2_eq_2)

lemma load_u16_le_Ret [mem_simps]:
  assumes "off + 2 \<le> length p"
  shows "load_u16_le p off = Ret (le_word (take 2 (drop off p)))"
proof -
  have "take 2 (drop off p) = [p ! off, p ! (off + 1)]"
    using assms by (simp add: take_Suc_conv_app_nth numeral_2_eq_2)
  then show ?thesis using assms by (simp add: load_u16_le_def rd_def)
qed

definition wf_header :: "auth_header \<Rightarrow> bool" where
  [wf_defs]: "wf_header h \<longleftrightarrow> length (hdr_session_id h) = AUTH_SESSION_ID_LEN"

definition header_layout :: "auth_header \<Rightarrow> byte list" where
  "header_layout h = [hdr_version h, hdr_pkt_type h] @ le_bytes 2 (hdr_flags h) @
     hdr_session_id h @ le_bytes 4 (hdr_seq h)"

definition tlv_layout :: "u16 \<Rightarrow> byte list \<Rightarrow> byte list" where
  "tlv_layout tag val = le_bytes 2 tag @ le_bytes 2 (of_nat (length val) :: u16) @ val"

definition hello_fixed :: "auth_hello \<Rightarrow> byte list" where
  "hello_fixed h =
     [hello_version h] @ le_bytes 2 (of_nat (hello_n_suites h) :: u16) @
     concat (map (le_bytes 2) (take (hello_n_suites h) (hello_suites h))) @
     le_bytes 8 (hello_caps h)"

definition hello_exts :: "auth_hello \<Rightarrow> byte list" where
  "hello_exts h =
     tlv_layout AUTH_TLV_MIN_VERSION [hello_min_version h] @
     (if hello_has_mtu_hint h then tlv_layout AUTH_TLV_MTU_HINT (le_bytes 2 (hello_mtu_hint h)) else []) @
     (if hello_vendor_id_len h \<noteq> 0
      then tlv_layout AUTH_TLV_VENDOR_ID (take (hello_vendor_id_len h) (hello_vendor_id h)) else []) @
     (if hello_device_model_len h \<noteq> 0
      then tlv_layout AUTH_TLV_DEVICE_MODEL (take (hello_device_model_len h) (hello_device_model h))
      else [])"

definition hello_layout :: "auth_hello \<Rightarrow> byte list" where
  "hello_layout h = hello_fixed h @ hello_exts h"

lemmas hello_layout_defs = hello_layout_def hello_fixed_def hello_exts_def

lemma length_header_layout [simp]: "wf_header h \<Longrightarrow> length (header_layout h) = 24"
  by (simp add: header_layout_def wf_defs)

lemma length_tlv_layout [simp]: "length (tlv_layout tag val) = 4 + length val"
  by (simp add: tlv_layout_def)

subsection \<open>Headers and packets\<close>

lemma auth_header_encode_fits:
  assumes "wf_header h" and "24 \<le> length buf"
  shows "auth_header_encode (Some h) (Some buf) = Ret (cur buf (header_layout h))"
  using assms length_ge_not_Nil [OF assms(2)]
  by (simp add: auth_header_encode_def header_layout_def wf_defs le_bytes_2 le_bytes_4 mem_simps
      cur_eqI)

lemma auth_header_encode_small:
  "length buf < 24 \<Longrightarrow> auth_header_encode (Some h) (Some buf) = Fail AUTH_ERR_BUFFER_TOO_SMALL"
  by (simp add: auth_header_encode_def)

lemma header_decode_layout:
  assumes "wf_header h"
  shows "auth_header_decode (Some (header_layout h @ p)) =
    (if hdr_version h < AUTH_MIN_SUPPORTED_VERSION then Fail AUTH_ERR_UNSUPPORTED_VERSION
     else Ret (h, p))"
proof -
  have "le_word [ucast (hdr_flags h), ucast (drop_bit 8 (hdr_flags h))] = hdr_flags h"
    using le_word_le_bytes [of 2 "hdr_flags h"] by (simp add: le_bytes_2)
  moreover have "ucast (ucast (hdr_seq h) :: byte) OR
      (push_bit 8 (ucast (ucast (drop_bit 8 (hdr_seq h)) :: byte)) OR
      (push_bit 16 (ucast (ucast (drop_bit 16 (hdr_seq h)) :: byte)) OR
       push_bit 24 (ucast (ucast (drop_bit 24 (hdr_seq h)) :: byte)))) = hdr_seq h"
    using le_word_le_bytes [of 4 "hdr_seq h"] by (simp add: le_bytes_4 push_bit_or ac_simps)
  ultimately show ?thesis
    using assms
    by (simp add: auth_header_decode_def header_layout_def wf_defs rd_def rdn_def nth_append
        load_u16_le_def le_bytes_2 le_bytes_4 nth_Cons' or.assoc)
qed

lemma header_layout_surj:
  assumes "24 \<le> length bs"
  shows "\<exists>h p. wf_header h \<and> bs = header_layout h @ p"
proof -
  have bs: "take 2 bs @ take 2 (drop 2 bs) @ take 16 (drop 4 bs) @ take 4 (drop 20 bs) @ drop 24 bs = bs"
    using concat_chunks [of "[2, 2, 16, 4]" bs] by simp
  have vt: "take 2 bs = [bs ! 0, bs ! 1]" using assms by (simp add: take_2_nth)
  let ?h = "\<lparr>hdr_version = bs ! 0, hdr_pkt_type = bs ! 1, hdr_flags = le_word (take 2 (drop 2 bs)),
             hdr_session_id = take 16 (drop 4 bs), hdr_seq = le_word (take 4 (drop 20 bs))\<rparr>"
  have "wf_header ?h" using assms by (simp add: wf_defs)
  moreover have "header_layout ?h @ drop 24 bs = bs"
    using assms bs by (simp add: vt header_layout_def le_bytes_le_word)
  ultimately show ?thesis by metis
qed

lemma header_layout_inj:
  "wf_header h \<Longrightarrow> wf_header h' \<Longrightarrow> header_layout h @ p = header_layout h' @ p' \<longleftrightarrow> h = h' \<and> p = p'"
  by (cases h; cases h') (auto simp: header_layout_def wf_defs le_bytes_inj)

lemma header_decode_Ret_iff:
  "auth_header_decode (Some bs) = Ret (h, p) \<longleftrightarrow>
     wf_header h \<and> AUTH_MIN_SUPPORTED_VERSION \<le> hdr_version h \<and> bs = header_layout h @ p"
proof (cases "24 \<le> length bs")
  case True
  from header_layout_surj [OF this] obtain h' p' where
    h': "wf_header h'" and bs: "bs = header_layout h' @ p'" by blast
  show ?thesis
    using header_decode_layout [OF h', of p'] h' header_layout_inj [OF h', of h p' p]
    by (auto simp: bs header_layout_inj not_less)
next
  case False
  then show ?thesis by (auto simp: auth_header_decode_def)
qed

lemma header_decode_no_fault: "auth_header_decode b \<noteq> Fault"
  by (auto simp: auth_header_decode_def rd_def rdn_def load_u16_le_def Let_def split: option.splits)

definition packet_header :: "byte \<Rightarrow> byte list \<Rightarrow> u32 \<Rightarrow> auth_header" where
  "packet_header t sid seq =
     \<lparr>hdr_version = AUTH_PROTOCOL_VERSION, hdr_pkt_type = t, hdr_flags = AUTH_FLAG_NONE,
      hdr_session_id = sid, hdr_seq = seq\<rparr>"

lemma packet_header_sel [simp]:
  "hdr_version (packet_header t sid seq) = AUTH_PROTOCOL_VERSION"
  "hdr_pkt_type (packet_header t sid seq) = t"
  "hdr_session_id (packet_header t sid seq) = sid"
  "hdr_seq (packet_header t sid seq) = seq"
  "wf_header (packet_header t sid seq) \<longleftrightarrow> length sid = AUTH_SESSION_ID_LEN"
  by (simp_all add: packet_header_def wf_defs)

lemma packet_build_eq:
  assumes "length sid = AUTH_SESSION_ID_LEN" and "n \<le> length p"
  shows "auth_packet_build t (Some sid) seq (Some p) n (Some buf) =
    (if AUTH_MAX_PAYLOAD < n then Fail AUTH_ERR_PAYLOAD_TOO_LARGE
     else if length buf < 24 + n then Fail AUTH_ERR_BUFFER_TOO_SMALL
     else Ret (cur buf (header_layout (packet_header t sid seq) @ take n p)))"
proof -
  have "(fst (cur buf (header_layout (packet_header t sid seq) @ take n p)), 24 + n) =
        cur buf (header_layout (packet_header t sid seq) @ take n p)"
    by (rule cur_eqI) (use assms in simp)
  moreover have "(fst (cur buf (header_layout (packet_header t sid seq))), 24) =
        cur buf (header_layout (packet_header t sid seq))"
    by (rule cur_eqI) (use assms in simp)
  ultimately show ?thesis
    using assms auth_header_encode_fits [of "packet_header t sid seq" buf]
    by (cases "n = 0") (simp_all add: auth_packet_build_def packet_header_def [symmetric] mem_simps)
qed

lemma packet_parse:
  assumes "length sid = AUTH_SESSION_ID_LEN"
  shows "auth_header_decode (Some (header_layout (packet_header t sid seq) @ p)) =
    Ret (packet_header t sid seq, p)"
  using assms by (simp add: header_decode_layout)

definition error_payload :: "auth_err \<Rightarrow> byte list option \<Rightarrow> byte list" where
  "error_payload code msg = le_bytes 2 (err_code code) @ (case msg of Some m \<Rightarrow> m | None \<Rightarrow> [])"

lemma packet_build_error_eq:
  assumes "length sid = AUTH_SESSION_ID_LEN"
  shows "auth_packet_build_error (Some sid) seq code msg (Some buf) =
    (if AUTH_MAX_PAYLOAD < length (error_payload code msg) then Fail AUTH_ERR_PAYLOAD_TOO_LARGE
     else if length buf < 24 + length (error_payload code msg) then Fail AUTH_ERR_BUFFER_TOO_SMALL
     else Ret (cur buf (header_layout (packet_header AUTH_PKT_ERROR sid seq) @ error_payload code msg)))"
proof -
  let ?m = "case msg of Some m \<Rightarrow> m | None \<Rightarrow> []"
  have len: "(case msg of Some m \<Rightarrow> length m | None \<Rightarrow> 0) = length ?m"
    by (simp split: option.split)
  have ne: "replicate 2024 (0 :: byte) \<noteq> []" by (simp add: numeral_eq_Suc)
  have the: "length ?m \<noteq> 0 \<Longrightarrow> the msg = ?m" by (cases msg) simp_all
  show ?thesis
    using assms the ne unfolding auth_packet_build_error_def len Let_def error_payload_def
    by (cases "length ?m = 0")
      (simp_all add: mem_simps packet_build_eq le_bytes_2, simp_all add: cur_def)
qed

lemma parse_error_payload:
  "auth_packet_parse_error (Some (error_payload code msg)) =
   Ret (normalize_wire_error_code (err_code code), case msg of Some m \<Rightarrow> m | None \<Rightarrow> [])"
  using le_word_le_bytes [of 2 "err_code code"]
  by (simp add: auth_packet_parse_error_def error_payload_def load_u16_le_append [of 0 "[]", simplified])

subsection \<open>TLVs\<close>

lemma tlv_write_cur:
  assumes "n \<le> length val" and "n \<le> 0xFFFF" and "length pre \<le> length buf"
  shows "auth_tlv_write (Some (fst (cur buf pre))) (Some (length pre)) tag val n =
    (if length buf < length (pre @ tlv_layout tag (take n val)) then Fail AUTH_ERR_BUFFER_TOO_SMALL
     else Ret (cur buf (pre @ tlv_layout tag (take n val))))"
proof -
  have "(fst (cur buf (pre @ tlv_layout tag (take n val))), length pre + (4 + n)) =
        cur buf (pre @ tlv_layout tag (take n val))"
    by (rule cur_eqI) (use assms in simp)
  then show ?thesis
    using assms by (cases "n = 0")
      (simp_all add: auth_tlv_write_def mem_simps tlv_layout_def le_bytes_2 Let_def)
qed

lemma tlv_read_append:
  assumes "length val \<le> 0xFFFF" and "off = length pre"
  shows "auth_tlv_read (Some (pre @ tlv_layout tag val @ rest)) (Some off) =
    Ret (tag, val, length (pre @ tlv_layout tag val))"
proof -
  let ?l = "of_nat (length val) :: u16"
  have "unat ?l = length val" using assms by (simp add: unat_of_nat)
  moreover have "load_u16_le (pre @ tlv_layout tag val @ rest) off = Ret tag"
    using load_u16_le_append [of off pre "le_bytes 2 tag" "le_bytes 2 ?l @ val @ rest"]
      le_word_le_bytes [of 2 tag] assms by (simp add: tlv_layout_def)
  moreover have "load_u16_le (pre @ tlv_layout tag val @ rest) (off + 2) = Ret ?l"
    using load_u16_le_append [of "off + 2" "pre @ le_bytes 2 tag" "le_bytes 2 ?l" "val @ rest"]
      le_word_le_bytes [of 2 ?l] assms by (simp add: tlv_layout_def)
  ultimately show ?thesis
    using assms by (simp add: auth_tlv_read_def rdn_def tlv_layout_def)
qed

lemma tlv_read_no_fault: "auth_tlv_read b off \<noteq> Fault"
  by (auto simp: auth_tlv_read_def mem_simps split: option.splits)

subsection \<open>HELLO\<close>

definition wf_hello :: "auth_hello \<Rightarrow> bool" where
  [wf_defs]: "wf_hello h \<longleftrightarrow>
     length (hello_suites h) = 8 \<and> hello_n_suites h \<le> 8 \<and>
     length (hello_vendor_id h) = 16 \<and> hello_vendor_id_len h \<le> 16 \<and>
     length (hello_device_model h) = 64 \<and> hello_device_model_len h \<le> 64"

text \<open>The decoder zeroes what the length fields leave out.\<close>

definition hello_norm :: "auth_hello \<Rightarrow> auth_hello" where
  "hello_norm h = h\<lparr>
     hello_suites := take (hello_n_suites h) (hello_suites h) @ replicate (8 - hello_n_suites h) 0,
     hello_mtu_hint := (if hello_has_mtu_hint h then hello_mtu_hint h else 0),
     hello_vendor_id := take (hello_vendor_id_len h) (hello_vendor_id h) @
                        replicate (16 - hello_vendor_id_len h) 0,
     hello_device_model := take (hello_device_model_len h) (hello_device_model h) @
                           replicate (64 - hello_device_model_len h) 0\<rparr>"

lemma length_concat_le2 [simp]: "length (concat (map (le_bytes 2) ss)) = 2 * length ss"
  by (induction ss) simp_all

lemma hello_suites_encode:
  assumes "n \<le> length (hello_suites h)" and "length pre + 2 * n \<le> length buf"
  shows "loop (\<lambda>i c. bnd (hello_suite_get h i) (\<lambda>s.
           bnd (putb (ucast s) c) (putb (ucast (drop_bit 8 s))))) [0..<n] (cur buf pre) =
         Ret (cur buf (pre @ concat (map (le_bytes 2) (take n (hello_suites h)))))"
  using assms
  by (induction n)
    (simp_all add: loop_append hello_suite_get_def mem_simps take_Suc_conv_app_nth le_bytes_2)

text \<open>Every optional TLV either fits and is appended, or stops the encoder.\<close>

definition hello_ext :: "bool \<Rightarrow> u16 \<Rightarrow> byte list \<Rightarrow> nat \<Rightarrow> cursor \<Rightarrow> (auth_err, cursor) cres" where
  "hello_ext present tag val n c =
     (if present then auth_tlv_write (Some (fst c)) (Some (snd c)) tag val n else Ret c)"

lemma hello_ext_cur:
  assumes "n \<le> length val" and "n \<le> 0xFFFF" and "length pre \<le> length buf"
  shows "hello_ext present tag val n (cur buf pre) =
    (let out = pre @ (if present then tlv_layout tag (take n val) else []) in
     if length buf < length out then Fail AUTH_ERR_BUFFER_TOO_SMALL else Ret (cur buf out))"
  using assms by (simp add: hello_ext_def tlv_write_cur)

lemma hello_encode_eq:
  assumes wf: "wf_hello h"
  shows "auth_hello_encode (Some h) (Some buf) =
    (if length buf < length (hello_layout h) then Fail AUTH_ERR_BUFFER_TOO_SMALL
     else Ret (cur buf (hello_layout h)))"
proof (cases "length buf < 1 + 2 + 2 * hello_n_suites h + 8")
  case True
  then show ?thesis using wf by (simp add: auth_hello_encode_def hello_layout_defs wf_defs)
next
  case False
  let ?fixed = "[hello_version h] @ le_bytes 2 (of_nat (hello_n_suites h) :: u16) @
     concat (map (le_bytes 2) (take (hello_n_suites h) (hello_suites h))) @ le_bytes 8 (hello_caps h)"
  have "buf \<noteq> []" using False by auto
  then have "auth_hello_encode (Some h) (Some buf) =
    bnd (hello_ext True AUTH_TLV_MIN_VERSION [hello_min_version h] 1 (cur buf ?fixed)) (\<lambda>c.
    bnd (hello_ext (hello_has_mtu_hint h) AUTH_TLV_MTU_HINT
           [ucast (hello_mtu_hint h AND 0xff), ucast (drop_bit 8 (hello_mtu_hint h) AND 0xff)] 2 c) (\<lambda>c.
    bnd (hello_ext (hello_vendor_id_len h \<noteq> 0) AUTH_TLV_VENDOR_ID (hello_vendor_id h)
           (hello_vendor_id_len h) c) (\<lambda>c.
    hello_ext (hello_device_model_len h \<noteq> 0) AUTH_TLV_DEVICE_MODEL (hello_device_model h)
           (hello_device_model_len h) c)))"
    using False wf
    by (simp add: auth_hello_encode_def cur_start mem_simps hello_suites_encode loop_putb_cur
        hello_ext_def [abs_def] wf_defs le_bytes_2 le_bytes_def [of 8] Let_def cong: if_cong)
  also have "\<dots> = (if length buf < length (hello_layout h) then Fail AUTH_ERR_BUFFER_TOO_SMALL
     else Ret (cur buf (hello_layout h)))"
    using False wf by (auto simp: hello_ext_cur wf_defs hello_layout_defs Let_def le_bytes_2 [of "hello_mtu_hint h"])
  finally show ?thesis .
qed

declare hello_tlvs.simps [simp del]

lemma hello_tlvs_end: "off \<ge> length buf \<Longrightarrow> hello_tlvs buf off h = Ret h"
  by (subst hello_tlvs.simps) simp

text \<open>The walk only looks at what lies at and after its offset.\<close>

lemma load_u16_le_shift: "load_u16_le (pre @ rest) (length pre + off) = load_u16_le rest off"
  by (simp add: load_u16_le_def rd_def nth_append)

lemma tlv_read_shift:
  "auth_tlv_read (Some (pre @ rest)) (Some (length pre + off)) =
   bnd (auth_tlv_read (Some rest) (Some off)) (\<lambda>(tag, val, off'). Ret (tag, val, length pre + off'))"
  using load_u16_le_shift [of pre rest off] load_u16_le_shift [of pre rest "off + 2"]
  by (cases "load_u16_le rest off"; cases "load_u16_le rest (off + 2)")
    (simp_all add: auth_tlv_read_def rdn_def add.assoc)

lemma hello_tlvs_shift: "hello_tlvs (pre @ rest) (length pre + off) h = hello_tlvs rest off h"
proof (induction rest off h rule: hello_tlvs.induct)
  case (1 rest off h)
  show ?case
  proof (cases "auth_tlv_read (Some rest) (Some off)")
    case (Ret r)
    obtain tag val off' where r: "r = (tag, val, off')" by (cases r)
    show ?thesis
    proof (cases "hello_tlv tag val h")
      case (Ret h')
      then show ?thesis
        using "1.IH" [OF _ _ refl refl, of tag val off' h'] \<open>auth_tlv_read _ _ = Ret r\<close> r
        by (subst (1 2) hello_tlvs.simps) (simp add: tlv_read_shift)
    qed (use Ret r in \<open>subst (1 2) hello_tlvs.simps, simp add: tlv_read_shift\<close>)+
  qed (subst (1 2) hello_tlvs.simps, simp add: tlv_read_shift)+
qed

lemma hello_tlvs_Cons:
  assumes "length val \<le> 0xFFFF"
  shows "hello_tlvs (tlv_layout tag val @ rest) 0 h =
    bnd (hello_tlv tag val h) (\<lambda>h. hello_tlvs rest 0 h)"
proof -
  have "auth_tlv_read (Some (tlv_layout tag val @ rest)) (Some 0) =
      Ret (tag, val, length (tlv_layout tag val))"
    using tlv_read_append [OF assms, of 0 "[]"] by simp
  moreover have "tlv_layout tag val @ rest \<noteq> []" by (simp add: tlv_layout_def le_bytes_2)
  ultimately show ?thesis
    using hello_tlvs_shift [of "tlv_layout tag val" rest 0]
    by (subst hello_tlvs.simps, cases "hello_tlv tag val h") (simp_all del: length_tlv_layout)
qed

lemma hello_tlvs_last:
  "length val \<le> 0xFFFF \<Longrightarrow> hello_tlvs (tlv_layout tag val) 0 h = hello_tlv tag val h"
  using hello_tlvs_Cons [of val tag "[]" h] by (simp add: hello_tlvs_end)

lemma hello_tlvs_opt:
  assumes "present \<longrightarrow> length val \<le> 0xFFFF"
  shows "hello_tlvs ((if present then tlv_layout tag val else []) @ rest) 0 h =
    bnd (if present then hello_tlv tag val h else Ret h) (\<lambda>h. hello_tlvs rest 0 h)"
  using assms by (simp add: hello_tlvs_Cons)

lemma hello_suites_decode:
  assumes "n \<le> length ss" and "length ss \<le> 8" and "length pre = 3"
  shows "loop (\<lambda>i suites. bnd (load_u16_le (pre @ concat (map (le_bytes 2) ss) @ rest) (3 + 2 * i)) (\<lambda>s.
           if i < length suites then Ret (suites[i := s]) else Fault)) [0..<n] (replicate 8 0) =
         Ret (take n ss @ replicate (8 - n) 0)"
  using assms(1)
proof (induction n)
  case (Suc n)
  have "ss = take n ss @ ss ! n # drop (Suc n) ss" using Suc by (simp add: id_take_nth_drop)
  then have "concat (map (le_bytes 2) ss) =
      concat (map (le_bytes 2) (take n ss)) @ le_bytes 2 (ss ! n) @ concat (map (le_bytes 2) (drop (Suc n) ss))"
    by (metis concat.simps(2) concat_append list.simps(9) map_append)
  then have "load_u16_le (pre @ concat (map (le_bytes 2) ss) @ rest) (3 + 2 * n) = Ret (ss ! n)"
    using load_u16_le_append [of "3 + 2 * n" "pre @ concat (map (le_bytes 2) (take n ss))"
        "le_bytes 2 (ss ! n)" "concat (map (le_bytes 2) (drop (Suc n) ss)) @ rest"]
      le_word_le_bytes [of 2 "ss ! n"] assms Suc by simp
  moreover have "8 - n = Suc (8 - Suc n)" using Suc assms by simp
  ultimately show ?case
    using Suc assms by (simp add: loop_append take_Suc_conv_app_nth list_update_append)
qed simp

lemma caps_loop:
  assumes "off + 8 \<le> length buf"
  shows "loop (\<lambda>i caps. bnd (rd buf (off + i)) (\<lambda>b. Ret (caps OR push_bit (8 * i) (ucast b)))) [0..<8] 0 =
    Ret (le_word (take 8 (drop off buf)) :: u64)"
proof -
  have "loop (\<lambda>i caps. bnd (rd buf (off + i)) (\<lambda>b. Ret (caps OR push_bit (8 * i) (ucast b)))) [0..<8] 0 =
    Ret (or_loop 8 (take 8 (drop off buf)) :: u64)"
    unfolding or_loop_def using assms by (intro loop_Ret) (simp add: rd_def)
  then show ?thesis using assms by (simp add: or_loop_le_word)
qed

lemma hello_tlvs_layout:
  assumes wf: "wf_hello h" and "hello_vendor_id b = replicate 16 0" "hello_vendor_id_len b = 0"
    and "hello_device_model b = replicate 64 0" "hello_device_model_len b = 0"
  shows "hello_tlvs (hello_exts h) 0 b =
   Ret (b\<lparr>hello_min_version := hello_min_version h,
          hello_has_mtu_hint := hello_has_mtu_hint h \<or> hello_has_mtu_hint b,
          hello_mtu_hint := (if hello_has_mtu_hint h then hello_mtu_hint h else hello_mtu_hint b),
          hello_vendor_id := hello_vendor_id (hello_norm h),
          hello_vendor_id_len := hello_vendor_id_len h,
          hello_device_model := hello_device_model (hello_norm h),
          hello_device_model_len := hello_device_model_len h\<rparr>)"
proof -
  have "le_word (le_bytes 2 (hello_mtu_hint h)) = hello_mtu_hint h" by (simp add: le_word_le_bytes)
  then have mtu: "hello_tlv AUTH_TLV_MTU_HINT (le_bytes 2 (hello_mtu_hint h)) x =
      Ret (x\<lparr>hello_has_mtu_hint := True, hello_mtu_hint := hello_mtu_hint h\<rparr>)" for x
    by (simp add: hello_tlv_def load_u16_le_Ret)
  have ven: "hello_tlv AUTH_TLV_VENDOR_ID (take n v) x =
      Ret (x\<lparr>hello_vendor_id := take n v @ replicate (16 - n) 0, hello_vendor_id_len := n\<rparr>)"
    if "n \<le> 16" "length v = 16" "hello_vendor_id x = replicate 16 0" for n v x
    using that by (simp add: hello_tlv_def wrn_def)
  have dev: "hello_tlv AUTH_TLV_DEVICE_MODEL (take n v) x =
      Ret (x\<lparr>hello_device_model := take n v @ replicate (64 - n) 0, hello_device_model_len := n\<rparr>)"
    if "n \<le> 64" "length v = 64" "hello_device_model x = replicate 64 0" for n v x
    using that by (simp add: hello_tlv_def wrn_def)
  have mv: "hello_tlv AUTH_TLV_MIN_VERSION [v] x = Ret (x\<lparr>hello_min_version := v\<rparr>)" for v x
    by (simp add: hello_tlv_def rd_def)
  show ?thesis
    using assms
    by (cases b)
      (simp add: mv mtu ven dev wf_defs hello_exts_def hello_norm_def hello_tlvs_end hello_tlvs_Cons hello_tlvs_opt
        hello_tlvs_last)
qed

lemma hello_decode_layout:
  assumes wf: "wf_hello h"
  shows "auth_hello_decode (Some (hello_layout h)) = Ret (hello_norm h)"
proof -
  let ?n = "hello_n_suites h" and ?ss = "take (hello_n_suites h) (hello_suites h)"
  let ?head = "hello_version h # le_bytes 2 (of_nat ?n :: u16)"
  have n: "unat (of_nat ?n :: u16) = ?n" "length ?ss = ?n" "?n \<le> 8"
    using wf by (simp_all add: wf_defs unat_of_nat)
  define tl where "tl = hello_exts h"
  have lay: "hello_layout h = (?head @ concat (map (le_bytes 2) ?ss) @ le_bytes 8 (hello_caps h)) @ tl"
    by (simp add: tl_def hello_layout_def hello_fixed_def)
  let ?b = "hello_zero\<lparr>hello_version := hello_version h, hello_n_suites := ?n,
      hello_suites := ?ss @ replicate (8 - ?n) 0, hello_caps := hello_caps h,
      hello_min_version := hello_version h\<rparr>"
  have tlvs: "hello_tlvs (hello_layout h) (11 + 2 * ?n) ?b = Ret (hello_norm h)"
  proof -
    have "hello_tlvs (hello_layout h) (11 + 2 * ?n) ?b = hello_tlvs tl 0 ?b"
      using hello_tlvs_shift [of "?head @ concat (map (le_bytes 2) ?ss) @ le_bytes 8 (hello_caps h)" tl 0 ?b] n
      by (simp add: lay)
    moreover have "hello_tlvs tl 0 ?b = Ret (hello_norm h)"
      using hello_tlvs_layout [OF wf, of ?b] n
      by (cases h) (simp add: tl_def hello_zero_def hello_norm_def)
    ultimately show ?thesis by simp
  qed
  have nsu: "load_u16_le (hello_layout h) 1 = Ret (of_nat ?n)"
    using load_u16_le_append [of 1 "[hello_version h]" "le_bytes 2 (of_nat ?n :: u16)"
        "concat (map (le_bytes 2) ?ss) @ le_bytes 8 (hello_caps h) @ tl"]
      le_word_le_bytes [of 2 "of_nat ?n :: u16"] by (simp add: lay)
  have suites: "loop (\<lambda>i suites. bnd (load_u16_le (hello_layout h) (3 + 2 * i)) (\<lambda>s.
      if i < length suites then Ret (suites[i := s]) else Fault)) [0..<?n] (replicate 8 0) =
      Ret (?ss @ replicate (8 - ?n) 0)"
    using hello_suites_decode [of ?n ?ss ?head "le_bytes 8 (hello_caps h) @ tl"] n by (simp add: lay)
  have caps: "loop (\<lambda>i caps. bnd (rd (hello_layout h) (3 + 2 * ?n + i)) (\<lambda>b.
      Ret (caps OR push_bit (8 * i) (ucast b)))) [0..<8] 0 = (Ret (hello_caps h) :: (auth_err, u64) cres)"
  proof -
    have "take 8 (drop (3 + 2 * ?n) (hello_layout h)) = le_bytes 8 (hello_caps h)"
      using take_drop_mid [of "?head @ concat (map (le_bytes 2) ?ss)" "3 + 2 * ?n" _ 8 tl] n
      by (simp add: lay)
    moreover have "3 + 2 * ?n + 8 \<le> length (hello_layout h)" using n by (simp add: lay)
    ultimately show ?thesis
      using caps_loop [of "3 + 2 * ?n" "hello_layout h"] le_word_le_bytes [of 8 "hello_caps h"]
      by simp
  qed
  have "length (hello_layout h) \<ge> 11 + 2 * ?n" and "rd (hello_layout h) 0 = (Ret (hello_version h) :: (auth_err, byte) cres)"
    using n by (simp_all add: lay rd_def)
  then show ?thesis
    using n tlvs nsu by (simp add: auth_hello_decode_def suites caps)
qed

lemma hello_tlv_wf:
  "wf_hello h \<Longrightarrow> hello_tlv tag val h \<noteq> Fault \<and> (\<forall>h'. hello_tlv tag val h = Ret h' \<longrightarrow> wf_hello h')"
  by (auto simp: hello_tlv_def rd_def load_u16_le_def wrn_def wf_defs split: if_splits)

lemma hello_tlvs_wf:
  "wf_hello h \<Longrightarrow> hello_tlvs buf off h \<noteq> Fault \<and> (\<forall>h'. hello_tlvs buf off h = Ret h' \<longrightarrow> wf_hello h')"
proof (induction buf off h rule: hello_tlvs.induct)
  case (1 buf off h)
  show ?case
  proof (cases "auth_tlv_read (Some buf) (Some off)")
    case Fault
    then show ?thesis by (simp add: tlv_read_no_fault)
  next
    case (Fail e)
    then show ?thesis using 1 by (subst (1 2) hello_tlvs.simps) auto
  next
    case (Ret r)
    obtain tag val off' where r: "r = (tag, val, off')" by (cases r)
    show ?thesis
      using "1.IH" [OF _ Ret, unfolded r, OF _ refl refl] "1.prems" hello_tlv_wf [of h tag val] Ret
      by (cases "hello_tlv tag val h"; subst (1 2) hello_tlvs.simps) (auto simp: r)
  qed
qed

lemma hello_decode_wf:
  "auth_hello_decode b \<noteq> Fault \<and> (\<forall>h. auth_hello_decode b = Ret h \<longrightarrow> wf_hello h)"
proof (cases b)
  case (Some buf)
  let ?nsu = "le_word (take 2 (drop 1 buf)) :: u16"
  show ?thesis
  proof (cases "length buf < 3 \<or> unat ?nsu > 8 \<or> length buf - 3 < unat ?nsu * 2 + 8")
    case True
    moreover have "length buf < 3 \<or> buf \<noteq> []" by auto
    ultimately show ?thesis using Some
      by (cases "length buf < 3") (auto simp: auth_hello_decode_def mem_simps)
  next
    case False
    let ?suites = "loop (\<lambda>i suites. bnd (load_u16_le buf (3 + 2 * i)) (\<lambda>s.
          if i < length suites then Ret (suites[i := s]) else Fault))
        [0..<unat ?nsu] (replicate 8 (0 :: u16))"
    have "\<exists>s'. ?suites = Ret s' \<and> length s' = 8"
      by (rule loop_invariant) (use False in \<open>auto simp: load_u16_le_Ret\<close>)
    then obtain suites where suites: "?suites = Ret suites" "length suites = 8" by blast
    have caps: "loop (\<lambda>i caps. bnd (rd buf (3 + 2 * unat ?nsu + i)) (\<lambda>b.
        Ret (caps OR push_bit (8 * i) (ucast b)))) [0..<8] 0 =
        (Ret (le_word (take 8 (drop (3 + 2 * unat ?nsu) buf))) :: (auth_err, u64) cres)"
      by (rule caps_loop) (use False in arith)
    let ?h = "hello_zero\<lparr>hello_version := buf ! 0, hello_n_suites := unat ?nsu,
        hello_suites := suites, hello_caps := le_word (take 8 (drop (3 + 2 * unat ?nsu) buf)),
        hello_min_version := buf ! 0\<rparr>"
    have "auth_hello_decode b = hello_tlvs buf (3 + 2 * unat ?nsu + 8) ?h"
      using False suites(1) caps Some length_ge_not_Nil [of 3 buf]
      by (simp add: auth_hello_decode_def mem_simps)
    moreover have "wf_hello ?h" using suites False by (simp add: wf_defs hello_zero_def)
    ultimately show ?thesis using hello_tlvs_wf by presburger
  qed
qed (simp add: auth_hello_decode_def)

interpretation hello: codec auth_hello_encode auth_hello_decode wf_hello hello_norm hello_layout
  by unfold_locales (use hello_decode_wf in \<open>auto simp: hello_encode_eq hello_decode_layout\<close>)

subsection \<open>Negotiation\<close>

lemma suite_listed_iff [simp]: "suite_listed s ps \<longleftrightarrow> s \<in> set ps"
  by (induction ps) auto

lemma choose_suite_find: "choose_suite ls ps = find (\<lambda>s. s \<in> set ps) ls"
  by (induction ls) auto

lemma choose_suite_None_iff: "choose_suite ls ps = None \<longleftrightarrow> set ls \<inter> set ps = {}"
  by (auto simp: choose_suite_find find_None_iff)

lemma choose_suite_Some_iff:
  "choose_suite ls ps = Some s \<longleftrightarrow>
     (\<exists>i<length ls. s = ls ! i \<and> s \<in> set ps \<and> (\<forall>j<i. ls ! j \<notin> set ps))"
  by (auto simp: choose_suite_find find_Some_iff)

lemma and_eq_right_iff: "x AND z = z \<longleftrightarrow> (\<forall>n. bit z n \<longrightarrow> bit x n)" for x z :: "'a::len word"
  by (auto simp: bit_eq_iff bit_and_iff dest: bit_imp_le_length)

lemma baseline_iff:
  "(a AND b) AND AUTH_CAPS_BASELINE = AUTH_CAPS_BASELINE \<longleftrightarrow>
     a AND AUTH_CAPS_BASELINE = AUTH_CAPS_BASELINE \<and> b AND AUTH_CAPS_BASELINE = AUTH_CAPS_BASELINE"
  by (auto simp: and_eq_right_iff bit_and_iff)

subsection \<open>Properties\<close>

text \<open>A received packet decodes exactly when it is the 24-byte layout of a header with a
  supported version followed by its payload: the decoder accepts nothing else, drops nothing and
  returns the rest of the datagram as the payload.\<close>

theorem header_decode_exact:
  "auth_header_decode (Some bs) = Ret (h, p) \<longleftrightarrow>
     wf_header h \<and> AUTH_MIN_SUPPORTED_VERSION \<le> hdr_version h \<and> bs = header_layout h @ p"
  by (rule header_decode_Ret_iff)

text \<open>Building a packet with a 16-byte session id and decoding the bytes written gives back
  type, session id, sequence number and payload; the only failures are a payload over
  2024 bytes and a buffer too small for it, and no access is out of bounds.\<close>

theorem packet_roundtrip:
  assumes "length sid = AUTH_SESSION_ID_LEN"
  shows "auth_packet_build t (Some sid) seq (Some p) (length p) (Some buf) =
      (if AUTH_MAX_PAYLOAD < length p then Fail AUTH_ERR_PAYLOAD_TOO_LARGE
       else if length buf < AUTH_HEADER_LEN + length p then Fail AUTH_ERR_BUFFER_TOO_SMALL
       else Ret (header_layout (packet_header t sid seq) @ p @ drop (AUTH_HEADER_LEN + length p) buf,
                 AUTH_HEADER_LEN + length p)) \<and>
    auth_header_decode (Some (header_layout (packet_header t sid seq) @ p)) =
      Ret (packet_header t sid seq, p)"
  using packet_build_eq [OF assms, of "length p" p t seq buf] packet_parse [OF assms] assms
  by (simp add: cur_def)

theorem packet_roundtrip_witness:
  "auth_packet_build 0x11 (Some (replicate 16 7)) 5 (Some [1, 2]) 2 (Some (replicate 30 0)) =
     Ret (header_layout (packet_header 0x11 (replicate 16 7) 5) @ [1, 2] @ replicate 4 0, 26)"
  using packet_roundtrip [of "replicate 16 7" "0x11" 5 "[1, 2]" "replicate 30 0"]
  by (simp add: numeral_2_eq_2)

text \<open>An error packet carries the error code and message to the peer: parsing its payload
  returns the message and, fail-closed, the sent code when it is a wire code and
  \<^verbatim>\<open>AUTH_ERR_UNSPECIFIED\<close> when it is not (a local code never crosses the wire).\<close>

theorem error_packet_roundtrip:
  assumes "length sid = AUTH_SESSION_ID_LEN" and "length (error_payload code msg) \<le> AUTH_MAX_PAYLOAD"
    and "AUTH_MAX_DATAGRAM \<le> length buf"
  shows "\<exists>n. auth_packet_build_error (Some sid) seq code msg (Some buf) =
      Ret (header_layout (packet_header AUTH_PKT_ERROR sid seq) @ error_payload code msg @ drop n buf, n) \<and>
    auth_packet_parse_error (Some (error_payload code msg)) =
      Ret (if code \<in> set wire_error_cases then code else AUTH_ERR_UNSPECIFIED,
           case msg of Some m \<Rightarrow> m | None \<Rightarrow> [])"
proof -
  have "code \<notin> set wire_error_cases \<Longrightarrow> err_code code \<notin> err_code ` set wire_error_cases"
    by (auto simp: err_code_inject)
  then have "normalize_wire_error_code (err_code code) =
      (if code \<in> set wire_error_cases then code else AUTH_ERR_UNSPECIFIED)"
    by (simp add: normalize_known normalize_unknown)
  then show ?thesis
    using assms packet_build_error_eq [OF assms(1), of seq code msg buf]
    by (simp add: cur_def parse_error_payload)
qed

theorem error_packet_roundtrip_witness:
  "\<exists>n. auth_packet_build_error (Some (replicate 16 1)) 3 AUTH_ERR_PROOF_VERIFY (Some [65])
       (Some (replicate 2048 0)) =
      Ret (header_layout (packet_header AUTH_PKT_ERROR (replicate 16 1) 3) @
           error_payload AUTH_ERR_PROOF_VERIFY (Some [65]) @ drop n (replicate 2048 0), n) \<and>
    auth_packet_parse_error (Some (error_payload AUTH_ERR_PROOF_VERIFY (Some [65]))) =
      Ret (AUTH_ERR_PROOF_VERIFY, [65])"
  using error_packet_roundtrip [of "replicate 16 1" AUTH_ERR_PROOF_VERIFY "Some [65]"
      "replicate 2048 0" 3]
  by (simp add: error_payload_def wire_error_cases_def del: drop_replicate)

text \<open>A HELLO message whose arrays and counts are within their declared sizes is encoded into
  every large enough buffer and decoded back, with unused array tails zeroed; a smaller buffer is
  refused. The decoder never reads or writes out of bounds, on any input, and what it accepts
  has its counts within the arrays.\<close>

theorem hello_roundtrip:
  "(wf_hello h \<longrightarrow>
      (if length (hello_layout h) \<le> length buf
       then \<exists>buf' n. auth_hello_encode (Some h) (Some buf) = Ret (buf', n) \<and> drop n buf' = drop n buf \<and>
              auth_hello_decode (Some (take n buf')) = Ret (hello_norm h)
       else auth_hello_encode (Some h) (Some buf) = Fail AUTH_ERR_BUFFER_TOO_SMALL)) \<and>
   auth_hello_decode b \<noteq> Fault \<and> (\<forall>h'. auth_hello_decode b = Ret h' \<longrightarrow> wf_hello h')"
  using hello.roundtrip [of h buf] hello.enc_small [of h buf] hello_decode_wf [of b] by auto

definition hello_sample :: auth_hello where
  "hello_sample = hello_zero\<lparr>hello_version := 2, hello_min_version := 2, hello_n_suites := 1,
     hello_suites := 1 # replicate 7 0\<rparr>"

theorem hello_roundtrip_witness:
  "wf_hello hello_sample \<and>
   (\<exists>buf' n. auth_hello_encode (Some hello_sample) (Some (replicate 64 0)) = Ret (buf', n) \<and>
      drop n buf' = drop n (replicate 64 0) \<and> auth_hello_decode (Some (take n buf')) = Ret hello_sample)"
proof -
  have "wf_hello hello_sample" and "length (hello_layout hello_sample) \<le> length (replicate 64 (0 :: byte))"
    and "hello_norm hello_sample = hello_sample"
    by (simp_all add: hello_sample_def hello_zero_def wf_defs hello_layout_defs hello_norm_def
        numeral_eq_Suc)
  then show ?thesis using hello_roundtrip [of hello_sample "replicate 64 0" None] by simp
qed

text \<open>Negotiation succeeds exactly when the lower of the two versions meets both minimum
  versions, some local suite is offered by the peer, and both sides have every baseline
  capability; it then yields that version, the first local suite the peer lists and the common
  capabilities, and each way to fail has its own error.\<close>

theorem negotiate_exact:
  "auth_negotiate lv lm ls lc pv pm ps pc =
     (if min lv pv < max lm pm then Fail AUTH_ERR_UNSUPPORTED_VERSION
      else if set ls \<inter> set ps = {} then Fail AUTH_ERR_UNSUPPORTED_SUITE
      else if lc AND AUTH_CAPS_BASELINE = AUTH_CAPS_BASELINE \<and> pc AND AUTH_CAPS_BASELINE = AUTH_CAPS_BASELINE
      then Ret \<lparr>neg_version = min lv pv, neg_suite = hd (filter (\<lambda>s. s \<in> set ps) ls),
                neg_caps = lc AND pc\<rparr>
      else Fail AUTH_ERR_CAP_MISMATCH)"
proof -
  have v: "(if lv < pv then lv else pv) = min lv pv" "(if pm < lm then lm else pm) = max lm pm"
    by (auto simp: min_def max_def)
  have find_hd: "find P xs = Some (hd (filter P xs))" if "\<exists>x \<in> set xs. P x" for P and xs :: "u16 list"
    using that by (induction xs) auto
  show ?thesis
  proof (cases "set ls \<inter> set ps = {}")
    case True
    then show ?thesis
      using v choose_suite_None_iff [of ls ps] by (simp add: auth_negotiate_def Let_def)
  next
    case False
    then have "choose_suite ls ps = Some (hd (filter (\<lambda>s. s \<in> set ps) ls))"
      unfolding choose_suite_find by (intro find_hd) blast
    then show ?thesis
      using v False baseline_iff [of lc pc] by (simp add: auth_negotiate_def Let_def)
  qed
qed

end
