(* ===== verification/Payloads.thy ===== *)
theory Payloads
  imports ProofTypes Wire
begin

text \<open>
  \<^verbatim>\<open>c/src/wire/payloads.c\<close>: the payload of every packet, encoded and decoded. Each message
  interprets \<open>canonical_codec\<close>: the encoder writes exactly the documented layout, the
  decoder accepts exactly the layouts and faults on no input.
\<close>

subsection \<open>Read and write helpers\<close>

definition room_for :: "nat \<Rightarrow> nat \<Rightarrow> nat \<Rightarrow> bool" where
  "room_for off n cap \<longleftrightarrow> off + n \<le> cap"

definition take_fixed :: "byte list \<Rightarrow> nat \<Rightarrow> nat \<Rightarrow> (auth_err, byte list \<times> nat) cres" where
  "take_fixed buf off n =
     (if \<not> room_for off n (length buf) then Fail AUTH_ERR_PAYLOAD_TOO_SHORT
      else bnd (rdn buf off n) (\<lambda>out. Ret (out, off + n)))"

definition put_fixed :: "byte list \<Rightarrow> nat \<Rightarrow> cursor \<Rightarrow> (auth_err, cursor) cres" where
  "put_fixed src n c =
     (if \<not> room_for (snd c) n (length (fst c)) then Fail AUTH_ERR_BUFFER_TOO_SMALL
      else putn src n c)"

definition reject_trailing :: "nat \<Rightarrow> nat \<Rightarrow> 'm \<Rightarrow> (auth_err, 'm) cres" where
  "reject_trailing off buf_len m =
     (if off = buf_len then Ret m else Fail AUTH_ERR_MALFORMED_PACKET)"

subsection \<open>SETUP_1\<close>

record auth_setup1 =
  s1_pairing_token :: "byte list"
  s1_pairing_token_len :: nat
  s1_device_id :: "byte list"
  s1_device_pub :: "byte list"
  s1_client_nonce :: "byte list"
  s1_role_commitment :: "byte list"

definition auth_setup1_encode :: "auth_setup1 encoder" where
  "auth_setup1_encode m buf =
     (case (m, buf) of
        (Some m, Some buf) \<Rightarrow>
          if s1_pairing_token_len m > AUTH_MAX_PAIRING_TOKEN then Fail AUTH_ERR_INVALID_ARGUMENT
          else if length buf < 1 + s1_pairing_token_len m + 32 + 32 + 32 + 32
          then Fail AUTH_ERR_BUFFER_TOO_SMALL
          else
            bnd (putb (of_nat (s1_pairing_token_len m)) (buf, 0)) (\<lambda>c.
            bnd (if s1_pairing_token_len m \<noteq> 0
                 then putn (s1_pairing_token m) (s1_pairing_token_len m) c else Ret c) (\<lambda>c.
            bnd (putn (s1_device_id m) 32 c) (\<lambda>c.
            bnd (putn (s1_device_pub m) 32 c) (\<lambda>c.
            bnd (putn (s1_client_nonce m) 32 c) (\<lambda>c.
            putn (s1_role_commitment m) 32 c)))))
      | _ \<Rightarrow> Fail AUTH_ERR_INVALID_ARGUMENT)"

definition auth_setup1_decode :: "auth_setup1 decoder" where
  "auth_setup1_decode buf =
     (case buf of
        None \<Rightarrow> Fail AUTH_ERR_PAYLOAD_TOO_SHORT
      | Some buf \<Rightarrow>
          if length buf < 1 then Fail AUTH_ERR_PAYLOAD_TOO_SHORT
          else
            bnd (rd buf 0) (\<lambda>b.
            let tlen = unat b in
            if tlen > AUTH_MAX_PAIRING_TOKEN then Fail AUTH_ERR_MALFORMED_PACKET
            else if length buf - 1 < tlen + 32 + 32 + 32 + 32 then Fail AUTH_ERR_PAYLOAD_TOO_SHORT
            else
              bnd (if tlen \<noteq> 0
                   then bnd (rdn buf 1 tlen) (\<lambda>t. wrn (replicate AUTH_MAX_PAIRING_TOKEN 0) 0 t tlen)
                   else Ret (replicate AUTH_MAX_PAIRING_TOKEN 0)) (\<lambda>token.
              bnd (take_fixed buf (1 + tlen) 32) (\<lambda>(device_id, off).
              bnd (take_fixed buf off 32) (\<lambda>(device_pub, off).
              bnd (take_fixed buf off 32) (\<lambda>(client_nonce, off).
              bnd (take_fixed buf off 32) (\<lambda>(role_commitment, off).
              reject_trailing off (length buf)
                \<lparr>s1_pairing_token = token, s1_pairing_token_len = tlen, s1_device_id = device_id,
                 s1_device_pub = device_pub, s1_client_nonce = client_nonce,
                 s1_role_commitment = role_commitment\<rparr>)))))))"

subsection \<open>SETUP_2\<close>

record auth_setup2 =
  s2_server_nonce :: "byte list"
  s2_setup_challenge :: "byte list"
  s2_server_pub :: "byte list"
  s2_server_proof :: auth_schnorr_proof

definition auth_setup2_encode :: "auth_setup2 encoder" where
  "auth_setup2_encode m buf =
     (case (m, buf) of
        (Some m, Some buf) \<Rightarrow>
          if length buf < 32 + 16 + 32 + 32 + 32 then Fail AUTH_ERR_BUFFER_TOO_SMALL
          else
            bnd (put_fixed (s2_server_nonce m) 32 (buf, 0)) (\<lambda>c.
            bnd (put_fixed (s2_setup_challenge m) AUTH_SETUP_CHALLENGE_LEN c) (\<lambda>c.
            bnd (put_fixed (s2_server_pub m) 32 c) (\<lambda>c.
            bnd (put_fixed (prf_a (s2_server_proof m)) 32 c) (\<lambda>c.
            put_fixed (prf_s (s2_server_proof m)) 32 c))))
      | _ \<Rightarrow> Fail AUTH_ERR_INVALID_ARGUMENT)"

definition auth_setup2_decode :: "auth_setup2 decoder" where
  "auth_setup2_decode buf =
     (case buf of
        None \<Rightarrow> Fail AUTH_ERR_INVALID_ARGUMENT
      | Some buf \<Rightarrow>
          bnd (take_fixed buf 0 32) (\<lambda>(server_nonce, off).
          bnd (take_fixed buf off AUTH_SETUP_CHALLENGE_LEN) (\<lambda>(setup_challenge, off).
          bnd (take_fixed buf off 32) (\<lambda>(server_pub, off).
          bnd (take_fixed buf off 32) (\<lambda>(a, off).
          bnd (take_fixed buf off 32) (\<lambda>(s, off).
          reject_trailing off (length buf)
            \<lparr>s2_server_nonce = server_nonce, s2_setup_challenge = setup_challenge,
             s2_server_pub = server_pub, s2_server_proof = \<lparr>prf_a = a, prf_s = s\<rparr>\<rparr>))))))"

subsection \<open>SETUP_3\<close>

record auth_setup3 =
  s3_client_proof :: auth_schnorr_proof

definition auth_setup3_encode :: "auth_setup3 encoder" where
  "auth_setup3_encode m buf =
     (case (m, buf) of
        (Some m, Some buf) \<Rightarrow>
          if length buf < 64 then Fail AUTH_ERR_BUFFER_TOO_SMALL
          else bnd (wrn buf 0 (prf_a (s3_client_proof m)) 32) (\<lambda>buf.
               bnd (wrn buf 32 (prf_s (s3_client_proof m)) 32) (\<lambda>buf. Ret (buf, 64)))
      | _ \<Rightarrow> Fail AUTH_ERR_INVALID_ARGUMENT)"

definition auth_setup3_decode :: "auth_setup3 decoder" where
  "auth_setup3_decode buf =
     (case buf of
        None \<Rightarrow> Fail AUTH_ERR_INVALID_ARGUMENT
      | Some buf \<Rightarrow>
          if length buf < 64 then Fail AUTH_ERR_PAYLOAD_TOO_SHORT
          else bnd (rdn buf 0 32) (\<lambda>a. bnd (rdn buf 32 32) (\<lambda>s.
               reject_trailing 64 (length buf) \<lparr>s3_client_proof = \<lparr>prf_a = a, prf_s = s\<rparr>\<rparr>)))"

subsection \<open>AUTH_1\<close>

record auth_auth1 =
  a1_pid :: "byte list"
  a1_client_proof :: auth_schnorr_proof
  a1_nonce_c :: "byte list"
  a1_eph_c :: "byte list"
  a1_c_prime :: "byte list"
  a1_rerand_proof :: auth_schnorr_proof
  a1_branches :: "auth_set_branch list"
  a1_n_branches :: nat

definition branch_get :: "auth_set_branch list \<Rightarrow> nat \<Rightarrow> (auth_err, auth_set_branch) cres" where
  "branch_get bs i = (if i < length bs then Ret (bs ! i) else Fault)"

definition auth_auth1_encode :: "auth_auth1 encoder" where
  "auth_auth1_encode m buf =
     (case (m, buf) of
        (Some m, Some buf) \<Rightarrow>
          if a1_n_branches m > AUTH_MAX_ROLES then Fail AUTH_ERR_INVALID_ARGUMENT
          else if length buf < 32 * 8 + 2 + 96 * a1_n_branches m then Fail AUTH_ERR_BUFFER_TOO_SMALL
          else
            bnd (put_fixed (a1_pid m) 32 (buf, 0)) (\<lambda>c.
            bnd (put_fixed (prf_a (a1_client_proof m)) 32 c) (\<lambda>c.
            bnd (put_fixed (prf_s (a1_client_proof m)) 32 c) (\<lambda>c.
            bnd (put_fixed (a1_nonce_c m) 32 c) (\<lambda>c.
            bnd (put_fixed (a1_eph_c m) 32 c) (\<lambda>c.
            bnd (put_fixed (a1_c_prime m) 32 c) (\<lambda>c.
            bnd (put_fixed (prf_a (a1_rerand_proof m)) 32 c) (\<lambda>c.
            bnd (put_fixed (prf_s (a1_rerand_proof m)) 32 c) (\<lambda>c.
            let nb = (of_nat (a1_n_branches m) :: u16) in
            bnd (putb (ucast (nb AND 0xff)) c) (\<lambda>c.
            bnd (putb (ucast (drop_bit 8 nb AND 0xff)) c) (\<lambda>c.
            loop (\<lambda>i c.
                bnd (branch_get (a1_branches m) i) (\<lambda>b.
                bnd (put_fixed (br_a b) 32 c) (\<lambda>c.
                bnd (put_fixed (br_c b) 32 c) (\<lambda>c.
                put_fixed (br_s b) 32 c))))
              [0..<a1_n_branches m] c))))))))))
      | _ \<Rightarrow> Fail AUTH_ERR_INVALID_ARGUMENT)"

definition auth_auth1_decode :: "auth_auth1 decoder" where
  "auth_auth1_decode buf =
     (case buf of
        None \<Rightarrow> Fail AUTH_ERR_INVALID_ARGUMENT
      | Some buf \<Rightarrow>
          bnd (take_fixed buf 0 32) (\<lambda>(pid, off).
          bnd (take_fixed buf off 32) (\<lambda>(ca, off).
          bnd (take_fixed buf off 32) (\<lambda>(cs, off).
          bnd (take_fixed buf off 32) (\<lambda>(nonce_c, off).
          bnd (take_fixed buf off 32) (\<lambda>(eph_c, off).
          bnd (take_fixed buf off 32) (\<lambda>(c_prime, off).
          bnd (take_fixed buf off 32) (\<lambda>(ra, off).
          bnd (take_fixed buf off 32) (\<lambda>(rs, off).
          if length buf - off < 2 then Fail AUTH_ERR_PAYLOAD_TOO_SHORT
          else
            bnd (load_u16_le buf off) (\<lambda>nb.
            if unat nb > AUTH_MAX_ROLES then Fail AUTH_ERR_MALFORMED_PACKET
            else if length buf - (off + 2) < unat nb * 96 then Fail AUTH_ERR_PAYLOAD_TOO_SHORT
            else
              bnd (loop (\<lambda>i (branches, off).
                     bnd (take_fixed buf off 32) (\<lambda>(a, off).
                     bnd (take_fixed buf off 32) (\<lambda>(c, off).
                     bnd (take_fixed buf off 32) (\<lambda>(s, off).
                     if i < length branches
                     then Ret (branches[i := \<lparr>br_a = a, br_c = c, br_s = s\<rparr>], off) else Fault))))
                   [0..<unat nb] (replicate AUTH_MAX_ROLES zero_branch, off + 2)) (\<lambda>(branches, off).
              reject_trailing off (length buf)
                \<lparr>a1_pid = pid, a1_client_proof = \<lparr>prf_a = ca, prf_s = cs\<rparr>, a1_nonce_c = nonce_c,
                 a1_eph_c = eph_c, a1_c_prime = c_prime,
                 a1_rerand_proof = \<lparr>prf_a = ra, prf_s = rs\<rparr>,
                 a1_branches = branches, a1_n_branches = unat nb\<rparr>)))))))))))"

subsection \<open>AUTH_2\<close>

record auth_auth2 =
  a2_server_pub :: "byte list"
  a2_server_proof :: auth_schnorr_proof
  a2_nonce_s :: "byte list"
  a2_eph_s :: "byte list"
  a2_tag_s :: "byte list"

definition auth_auth2_encode :: "auth_auth2 encoder" where
  "auth_auth2_encode m buf =
     (case (m, buf) of
        (Some m, Some buf) \<Rightarrow>
          if length buf < 32 * 6 then Fail AUTH_ERR_BUFFER_TOO_SMALL
          else
            bnd (put_fixed (a2_server_pub m) 32 (buf, 0)) (\<lambda>c.
            bnd (put_fixed (prf_a (a2_server_proof m)) 32 c) (\<lambda>c.
            bnd (put_fixed (prf_s (a2_server_proof m)) 32 c) (\<lambda>c.
            bnd (put_fixed (a2_nonce_s m) 32 c) (\<lambda>c.
            bnd (put_fixed (a2_eph_s m) 32 c) (\<lambda>c.
            put_fixed (a2_tag_s m) 32 c)))))
      | _ \<Rightarrow> Fail AUTH_ERR_INVALID_ARGUMENT)"

definition auth_auth2_decode :: "auth_auth2 decoder" where
  "auth_auth2_decode buf =
     (case buf of
        None \<Rightarrow> Fail AUTH_ERR_INVALID_ARGUMENT
      | Some buf \<Rightarrow>
          bnd (take_fixed buf 0 32) (\<lambda>(server_pub, off).
          bnd (take_fixed buf off 32) (\<lambda>(a, off).
          bnd (take_fixed buf off 32) (\<lambda>(s, off).
          bnd (take_fixed buf off 32) (\<lambda>(nonce_s, off).
          bnd (take_fixed buf off 32) (\<lambda>(eph_s, off).
          bnd (take_fixed buf off 32) (\<lambda>(tag_s, off).
          reject_trailing off (length buf)
            \<lparr>a2_server_pub = server_pub, a2_server_proof = \<lparr>prf_a = a, prf_s = s\<rparr>,
             a2_nonce_s = nonce_s, a2_eph_s = eph_s, a2_tag_s = tag_s\<rparr>)))))))"

subsection \<open>AUTH_3 and the acknowledgements\<close>

record auth_auth3 =
  a3_tag_c :: "byte list"

definition auth_auth3_encode :: "auth_auth3 encoder" where
  "auth_auth3_encode m buf =
     (case (m, buf) of
        (Some m, Some buf) \<Rightarrow>
          if length buf < 32 then Fail AUTH_ERR_BUFFER_TOO_SMALL
          else bnd (wrn buf 0 (a3_tag_c m) 32) (\<lambda>buf. Ret (buf, 32))
      | _ \<Rightarrow> Fail AUTH_ERR_INVALID_ARGUMENT)"

definition auth_auth3_decode :: "auth_auth3 decoder" where
  "auth_auth3_decode buf =
     (case buf of
        None \<Rightarrow> Fail AUTH_ERR_INVALID_ARGUMENT
      | Some buf \<Rightarrow>
          if length buf < 32 then Fail AUTH_ERR_PAYLOAD_TOO_SHORT
          else bnd (rdn buf 0 32) (\<lambda>tag_c. reject_trailing 32 (length buf) \<lparr>a3_tag_c = tag_c\<rparr>))"

abbreviation (input) AUTH_ACK_BYTE :: byte where "AUTH_ACK_BYTE \<equiv> 0x01"

definition auth_ack_encode :: "byte list option \<Rightarrow> (auth_err, cursor) cres" where
  "auth_ack_encode buf =
     (case buf of
        None \<Rightarrow> Fail AUTH_ERR_INVALID_ARGUMENT
      | Some buf \<Rightarrow>
          if length buf < 1 then Fail AUTH_ERR_BUFFER_TOO_SMALL
          else bnd (wr buf 0 AUTH_ACK_BYTE) (\<lambda>buf. Ret (buf, 1)))"

definition auth_ack_decode :: "byte list option \<Rightarrow> (auth_err, unit) cres" where
  "auth_ack_decode buf =
     (case buf of
        None \<Rightarrow> Fail AUTH_ERR_MALFORMED_PACKET
      | Some buf \<Rightarrow>
          if length buf \<noteq> 1 then Fail AUTH_ERR_MALFORMED_PACKET
          else bnd (rd buf 0) (\<lambda>b.
               if b \<noteq> AUTH_ACK_BYTE then Fail AUTH_ERR_MALFORMED_PACKET else Ret ()))"

subsection \<open>Cursor lemmas\<close>

lemma put_fixed_cur [mem_simps]:
  "n \<le> length src \<Longrightarrow> length pre + n \<le> length buf \<Longrightarrow>
   put_fixed src n (cur buf pre) = Ret (cur buf (pre @ take n src))"
  by (simp add: put_fixed_def room_for_def putn_cur)

lemma take_fixed_Ret [mem_simps]:
  "off + n \<le> length buf \<Longrightarrow> take_fixed buf off n = Ret (take n (drop off buf), off + n)"
  by (simp add: take_fixed_def room_for_def rdn_def)

lemma take_fixed_short [mem_simps]:
  "length buf < off + n \<Longrightarrow> take_fixed buf off n = Fail AUTH_ERR_PAYLOAD_TOO_SHORT"
  by (simp add: take_fixed_def room_for_def)

lemma take_fixed_if:
  "take_fixed buf off n =
     (if off + n \<le> length buf then Ret (take n (drop off buf), off + n)
      else Fail AUTH_ERR_PAYLOAD_TOO_SHORT)"
  by (simp add: mem_simps)

subsection \<open>SETUP_2 and AUTH_2\<close>

definition wf_setup2 :: "auth_setup2 \<Rightarrow> bool" where
  [wf_defs]: "wf_setup2 m \<longleftrightarrow> length (s2_server_nonce m) = 32 \<and>
     length (s2_setup_challenge m) = AUTH_SETUP_CHALLENGE_LEN \<and> length (s2_server_pub m) = 32 \<and>
     wf_proof (s2_server_proof m)"

definition setup2_layout :: "auth_setup2 \<Rightarrow> byte list" where
  "setup2_layout m = s2_server_nonce m @ s2_setup_challenge m @ s2_server_pub m @
     proof_layout (s2_server_proof m)"

lemma setup2_encode_eq:
  "wf_setup2 m \<Longrightarrow> auth_setup2_encode (Some m) (Some buf) =
     (if length buf < length (setup2_layout m) then Fail AUTH_ERR_BUFFER_TOO_SMALL
      else Ret (cur buf (setup2_layout m)))"
  by (simp add: auth_setup2_encode_def wf_defs setup2_layout_def proof_layout_def mem_simps cur_start)

lemma setup2_decode_eq:
  "auth_setup2_decode (Some bs) =
     (if length bs < 144 then Fail AUTH_ERR_PAYLOAD_TOO_SHORT
      else if length bs \<noteq> 144 then Fail AUTH_ERR_MALFORMED_PACKET
      else Ret \<lparr>s2_server_nonce = take 32 bs, s2_setup_challenge = take 16 (drop 32 bs),
                s2_server_pub = take 32 (drop 48 bs),
                s2_server_proof = \<lparr>prf_a = take 32 (drop 80 bs), prf_s = drop 112 bs\<rparr>\<rparr>)"
  by (simp add: auth_setup2_decode_def take_fixed_if reject_trailing_def)

lemma setup2_decode_layout: "wf_setup2 m \<Longrightarrow> auth_setup2_decode (Some (setup2_layout m)) = Ret m"
  by (cases m; cases "s2_server_proof m")
    (simp add: setup2_decode_eq setup2_layout_def proof_layout_def wf_defs)

interpretation setup2: canonical_codec auth_setup2_encode auth_setup2_decode wf_setup2 id setup2_layout
proof unfold_locales
  fix bs m assume "auth_setup2_decode (Some bs) = Ret m"
  then show "wf_setup2 m \<and> id m = m \<and> setup2_layout m = bs"
    using concat_chunks [of "[32, 16, 32, 32]" bs]
    by (auto simp: setup2_decode_eq wf_defs setup2_layout_def proof_layout_def split: if_splits)
next
  fix b show "auth_setup2_decode b \<noteq> Fault"
    by (cases b) (simp_all add: setup2_decode_eq, simp add: auth_setup2_decode_def)
qed (simp_all add: setup2_encode_eq setup2_decode_layout)

definition wf_auth2 :: "auth_auth2 \<Rightarrow> bool" where
  [wf_defs]: "wf_auth2 m \<longleftrightarrow> length (a2_server_pub m) = 32 \<and> wf_proof (a2_server_proof m) \<and>
     length (a2_nonce_s m) = 32 \<and> length (a2_eph_s m) = 32 \<and> length (a2_tag_s m) = 32"

definition auth2_layout :: "auth_auth2 \<Rightarrow> byte list" where
  "auth2_layout m = a2_server_pub m @ proof_layout (a2_server_proof m) @
     a2_nonce_s m @ a2_eph_s m @ a2_tag_s m"

lemma auth2_encode_eq:
  "wf_auth2 m \<Longrightarrow> auth_auth2_encode (Some m) (Some buf) =
     (if length buf < length (auth2_layout m) then Fail AUTH_ERR_BUFFER_TOO_SMALL
      else Ret (cur buf (auth2_layout m)))"
  by (simp add: auth_auth2_encode_def wf_defs auth2_layout_def proof_layout_def mem_simps cur_start)

lemma auth2_decode_eq:
  "auth_auth2_decode (Some bs) =
     (if length bs < 192 then Fail AUTH_ERR_PAYLOAD_TOO_SHORT
      else if length bs \<noteq> 192 then Fail AUTH_ERR_MALFORMED_PACKET
      else Ret \<lparr>a2_server_pub = take 32 bs,
                a2_server_proof = \<lparr>prf_a = take 32 (drop 32 bs), prf_s = take 32 (drop 64 bs)\<rparr>,
                a2_nonce_s = take 32 (drop 96 bs), a2_eph_s = take 32 (drop 128 bs),
                a2_tag_s = drop 160 bs\<rparr>)"
  by (simp add: auth_auth2_decode_def take_fixed_if reject_trailing_def)

lemma auth2_decode_layout: "wf_auth2 m \<Longrightarrow> auth_auth2_decode (Some (auth2_layout m)) = Ret m"
  by (cases m; cases "a2_server_proof m")
    (simp add: auth2_decode_eq auth2_layout_def proof_layout_def wf_defs)

interpretation auth2: canonical_codec auth_auth2_encode auth_auth2_decode wf_auth2 id auth2_layout
proof unfold_locales
  fix bs m assume "auth_auth2_decode (Some bs) = Ret m"
  then show "wf_auth2 m \<and> id m = m \<and> auth2_layout m = bs"
    using concat_chunks [of "[32, 32, 32, 32, 32]" bs]
    by (auto simp: auth2_decode_eq wf_defs auth2_layout_def proof_layout_def split: if_splits)
next
  fix b show "auth_auth2_decode b \<noteq> Fault"
    by (cases b) (simp_all add: auth2_decode_eq, simp add: auth_auth2_decode_def)
qed (simp_all add: auth2_encode_eq auth2_decode_layout)

subsection \<open>SETUP_3, AUTH_3 and acknowledgements\<close>

definition wf_setup3 :: "auth_setup3 \<Rightarrow> bool" where
  [wf_defs]: "wf_setup3 m \<longleftrightarrow> wf_proof (s3_client_proof m)"

definition setup3_layout :: "auth_setup3 \<Rightarrow> byte list" where
  "setup3_layout m = proof_layout (s3_client_proof m)"

lemma setup3_encode_eq:
  "wf_setup3 m \<Longrightarrow> auth_setup3_encode (Some m) (Some buf) =
     (if length buf < length (setup3_layout m) then Fail AUTH_ERR_BUFFER_TOO_SMALL
      else Ret (cur buf (setup3_layout m)))"
  by (simp add: auth_setup3_encode_def wf_defs setup3_layout_def proof_layout_def mem_simps cur_eqI)

lemma setup3_decode_eq:
  "auth_setup3_decode (Some bs) =
     (if length bs < 64 then Fail AUTH_ERR_PAYLOAD_TOO_SHORT
      else if length bs \<noteq> 64 then Fail AUTH_ERR_MALFORMED_PACKET
      else Ret \<lparr>s3_client_proof = \<lparr>prf_a = take 32 bs, prf_s = drop 32 bs\<rparr>\<rparr>)"
  by (simp add: auth_setup3_decode_def rdn_def reject_trailing_def)

interpretation setup3: canonical_codec auth_setup3_encode auth_setup3_decode wf_setup3 id setup3_layout
proof unfold_locales
  fix bs m assume "auth_setup3_decode (Some bs) = Ret m"
  then show "wf_setup3 m \<and> id m = m \<and> setup3_layout m = bs"
    by (auto simp: setup3_decode_eq wf_defs setup3_layout_def proof_layout_def split: if_splits)
next
  fix m assume "wf_setup3 m"
  then show "auth_setup3_decode (Some (setup3_layout m)) = Ret (id m)"
    by (cases m; cases "s3_client_proof m")
      (simp add: setup3_decode_eq setup3_layout_def proof_layout_def wf_defs)
next
  fix b show "auth_setup3_decode b \<noteq> Fault"
    by (cases b) (simp_all add: setup3_decode_eq, simp add: auth_setup3_decode_def)
qed (simp_all add: setup3_encode_eq)

definition wf_auth3 :: "auth_auth3 \<Rightarrow> bool" where
  [wf_defs]: "wf_auth3 m \<longleftrightarrow> length (a3_tag_c m) = 32"

lemma auth3_decode_eq:
  "auth_auth3_decode (Some bs) =
     (if length bs < 32 then Fail AUTH_ERR_PAYLOAD_TOO_SHORT
      else if length bs \<noteq> 32 then Fail AUTH_ERR_MALFORMED_PACKET else Ret \<lparr>a3_tag_c = bs\<rparr>)"
  by (simp add: auth_auth3_decode_def rdn_def reject_trailing_def)

interpretation auth3: canonical_codec auth_auth3_encode auth_auth3_decode wf_auth3 id a3_tag_c
proof unfold_locales
  fix m and buf :: "byte list" assume "wf_auth3 m" "length (a3_tag_c m) \<le> length buf"
  then show "auth_auth3_encode (Some m) (Some buf) = Ret (cur buf (a3_tag_c m))"
    by (simp add: auth_auth3_encode_def wf_defs mem_simps cur_eqI)
next
  fix b show "auth_auth3_decode b \<noteq> Fault"
    by (cases b) (simp_all add: auth3_decode_eq, simp add: auth_auth3_decode_def)
qed (auto simp: auth_auth3_encode_def auth3_decode_eq wf_defs split: if_splits)

lemma ack_encode_eq: "buf \<noteq> [] \<Longrightarrow> auth_ack_encode (Some buf) = Ret (cur buf [AUTH_ACK_BYTE])"
  by (simp add: auth_ack_encode_def mem_simps cur_eqI Suc_le_eq)

lemma ack_decode_Ret_iff: "auth_ack_decode (Some bs) = Ret () \<longleftrightarrow> bs = [AUTH_ACK_BYTE]"
  by (auto simp: auth_ack_decode_def rd_def length_Suc_conv)

interpretation ack: canonical_codec "\<lambda>_. auth_ack_encode" auth_ack_decode "\<lambda>_. True" id
  "\<lambda>_. [AUTH_ACK_BYTE]"
proof unfold_locales
  fix b show "auth_ack_decode b \<noteq> Fault"
    by (auto simp: auth_ack_decode_def rd_def split: option.splits)
next
  fix buf :: "byte list" assume "length [AUTH_ACK_BYTE] \<le> length buf"
  then show "auth_ack_encode (Some buf) = Ret (cur buf [AUTH_ACK_BYTE])"
    by (intro ack_encode_eq) auto
next
  fix buf :: "byte list" assume "length buf < length [AUTH_ACK_BYTE]"
  then show "auth_ack_encode (Some buf) = Fail AUTH_ERR_BUFFER_TOO_SMALL"
    by (simp add: auth_ack_encode_def)
next
  fix bs and m :: unit assume "auth_ack_decode (Some bs) = Ret m"
  then show "True \<and> id m = m \<and> [AUTH_ACK_BYTE] = bs" using ack_decode_Ret_iff [of bs] by simp
qed (simp add: ack_decode_Ret_iff)

subsection \<open>SETUP_1\<close>

definition wf_setup1 :: "auth_setup1 \<Rightarrow> bool" where
  [wf_defs]: "wf_setup1 m \<longleftrightarrow> length (s1_pairing_token m) = AUTH_MAX_PAIRING_TOKEN \<and>
     s1_pairing_token_len m \<le> AUTH_MAX_PAIRING_TOKEN \<and> length (s1_device_id m) = 32 \<and>
     length (s1_device_pub m) = 32 \<and> length (s1_client_nonce m) = 32 \<and>
     length (s1_role_commitment m) = 32"

definition setup1_norm :: "auth_setup1 \<Rightarrow> auth_setup1" where
  "setup1_norm m = m\<lparr>s1_pairing_token :=
     take (s1_pairing_token_len m) (s1_pairing_token m) @
     replicate (AUTH_MAX_PAIRING_TOKEN - s1_pairing_token_len m) 0\<rparr>"

definition setup1_layout :: "auth_setup1 \<Rightarrow> byte list" where
  "setup1_layout m = [of_nat (s1_pairing_token_len m)] @
     take (s1_pairing_token_len m) (s1_pairing_token m) @
     s1_device_id m @ s1_device_pub m @ s1_client_nonce m @ s1_role_commitment m"

lemma setup1_encode_eq:
  "wf_setup1 m \<Longrightarrow> auth_setup1_encode (Some m) (Some buf) =
     (if length buf < length (setup1_layout m) then Fail AUTH_ERR_BUFFER_TOO_SMALL
      else Ret (cur buf (setup1_layout m)))"
  by (cases "buf = []"; cases "s1_pairing_token_len m = 0")
    (simp_all add: auth_setup1_encode_def wf_defs setup1_layout_def mem_simps cur_start)

lemma setup1_decode_eq:
  "auth_setup1_decode (Some bs) =
     (let t = unat (bs ! 0) in
      if length bs = 0 then Fail AUTH_ERR_PAYLOAD_TOO_SHORT
      else if t > AUTH_MAX_PAIRING_TOKEN then Fail AUTH_ERR_MALFORMED_PACKET
      else if length bs < 129 + t then Fail AUTH_ERR_PAYLOAD_TOO_SHORT
      else if length bs \<noteq> 129 + t then Fail AUTH_ERR_MALFORMED_PACKET
      else Ret \<lparr>s1_pairing_token = take t (drop 1 bs) @ replicate (128 - t) 0,
                s1_pairing_token_len = t, s1_device_id = take 32 (drop (1 + t) bs),
                s1_device_pub = take 32 (drop (33 + t) bs),
                s1_client_nonce = take 32 (drop (65 + t) bs),
                s1_role_commitment = drop (97 + t) bs\<rparr>)"
proof (cases bs)
  case (Cons b r)
  then show ?thesis
    by (cases "b = 0")
      (auto simp: auth_setup1_decode_def take_fixed_if reject_trailing_def rd_def rdn_def wrn_def
        unat_eq_zero Let_def)
qed (simp add: auth_setup1_decode_def Let_def)

lemma setup1_decode_layout:
  assumes "wf_setup1 m"
  shows "auth_setup1_decode (Some (setup1_layout m)) = Ret (setup1_norm m)"
proof -
  have "unat (of_nat (s1_pairing_token_len m) :: byte) = s1_pairing_token_len m"
    using assms by (simp add: unat_of_nat wf_defs)
  then show ?thesis
    using assms by (cases m) (simp add: setup1_decode_eq setup1_layout_def setup1_norm_def wf_defs drop_Cons')
qed

lemma setup1_decode_sound:
  assumes "auth_setup1_decode (Some bs) = Ret m"
  shows "wf_setup1 m \<and> setup1_norm m = m \<and> setup1_layout m = bs"
proof -
  let ?t = "unat (bs ! 0)"
  have len: "length bs = 129 + ?t" "?t \<le> 128"
    and m: "m = \<lparr>s1_pairing_token = take ?t (drop 1 bs) @ replicate (128 - ?t) 0,
                s1_pairing_token_len = ?t, s1_device_id = take 32 (drop (1 + ?t) bs),
                s1_device_pub = take 32 (drop (33 + ?t) bs),
                s1_client_nonce = take 32 (drop (65 + ?t) bs),
                s1_role_commitment = drop (97 + ?t) bs\<rparr>"
    using assms by (auto simp: setup1_decode_eq Let_def split: if_splits)
  have "[bs ! 0] = take 1 bs" using len by (cases bs) auto
  moreover have "take 1 bs @ take ?t (drop 1 bs) @ take 32 (drop (1 + ?t) bs) @
      take 32 (drop (33 + ?t) bs) @ take 32 (drop (65 + ?t) bs) @ drop (97 + ?t) bs = bs"
    using concat_chunks [of "[1, ?t, 32, 32, 32]" bs] by (simp add: add.commute)
  ultimately have "setup1_layout m = bs" using len by (simp add: m setup1_layout_def)
  then show ?thesis using len by (simp add: m wf_defs setup1_norm_def)
qed

interpretation setup1:
  canonical_codec auth_setup1_encode auth_setup1_decode wf_setup1 setup1_norm setup1_layout
proof unfold_locales
  fix b show "auth_setup1_decode b \<noteq> Fault"
    by (cases b) (simp_all add: setup1_decode_eq Let_def, simp add: auth_setup1_decode_def)
qed (use setup1_decode_sound in \<open>auto simp: setup1_encode_eq setup1_decode_layout\<close>)

subsection \<open>AUTH_1\<close>

definition wf_auth1 :: "auth_auth1 \<Rightarrow> bool" where
  [wf_defs]: "wf_auth1 m \<longleftrightarrow> length (a1_pid m) = 32 \<and> wf_proof (a1_client_proof m) \<and>
     length (a1_nonce_c m) = 32 \<and> length (a1_eph_c m) = 32 \<and> length (a1_c_prime m) = 32 \<and>
     wf_proof (a1_rerand_proof m) \<and> length (a1_branches m) = AUTH_MAX_ROLES \<and>
     (\<forall>b \<in> set (a1_branches m). wf_branch b) \<and> a1_n_branches m \<le> AUTH_MAX_ROLES"

definition auth1_norm :: "auth_auth1 \<Rightarrow> auth_auth1" where
  "auth1_norm m = m\<lparr>a1_branches :=
     take (a1_n_branches m) (a1_branches m) @ replicate (AUTH_MAX_ROLES - a1_n_branches m) zero_branch\<rparr>"

definition auth1_fixed :: "auth_auth1 \<Rightarrow> byte list" where
  "auth1_fixed m = a1_pid m @ proof_layout (a1_client_proof m) @ a1_nonce_c m @ a1_eph_c m @
     a1_c_prime m @ proof_layout (a1_rerand_proof m)"

definition auth1_layout :: "auth_auth1 \<Rightarrow> byte list" where
  "auth1_layout m = auth1_fixed m @ le_bytes 2 (of_nat (a1_n_branches m) :: u16) @
     concat (map branch_layout (take (a1_n_branches m) (a1_branches m)))"

lemma length_branches:
  "\<forall>b \<in> set bs. wf_branch b \<Longrightarrow> length (concat (map branch_layout bs)) = 96 * length bs"
  by (induction bs) simp_all

lemma length_branches_take:
  "\<forall>b \<in> set bs. wf_branch b \<Longrightarrow> n \<le> length bs \<Longrightarrow>
   length (concat (map branch_layout (take n bs))) = 96 * n"
  using length_branches [of "take n bs"] set_take_subset [of n bs] by auto

lemma branches_encode:
  assumes "n \<le> length bs" and "\<forall>b \<in> set bs. wf_branch b" and "length pre + 96 * n \<le> length buf"
  shows "loop (\<lambda>i c. bnd (branch_get bs i) (\<lambda>b.
           bnd (put_fixed (br_a b) 32 c) (\<lambda>c. bnd (put_fixed (br_c b) 32 c) (\<lambda>c.
           put_fixed (br_s b) 32 c)))) [0..<n] (cur buf pre) =
         Ret (cur buf (pre @ concat (map branch_layout (take n bs))))"
  using assms(1,3)
proof (induction n)
  case (Suc n)
  have "wf_branch (bs ! n)" using Suc.prems assms(2) by simp
  moreover have "length (concat (map branch_layout (take n bs))) = 96 * n"
    using assms(2) Suc.prems by (simp add: length_branches_take)
  ultimately show ?case
    using Suc by (simp add: loop_append branch_get_def mem_simps take_Suc_conv_app_nth
        branch_layout_def [of "bs ! n"] wf_branch_def)
qed simp

lemma length_auth1_fixed [simp]: "wf_auth1 m \<Longrightarrow> length (auth1_fixed m) = 256"
  by (simp add: auth1_fixed_def proof_layout_def wf_defs)

lemma length_auth1_layout:
  "wf_auth1 m \<Longrightarrow> length (auth1_layout m) = 258 + 96 * a1_n_branches m"
  using length_branches_take [of "a1_branches m" "a1_n_branches m"] length_auth1_fixed [of m]
  by (simp add: auth1_layout_def wf_auth1_def)

lemma auth1_encode_eq:
  assumes wf: "wf_auth1 m"
  shows "auth_auth1_encode (Some m) (Some buf) =
     (if length buf < length (auth1_layout m) then Fail AUTH_ERR_BUFFER_TOO_SMALL
      else Ret (cur buf (auth1_layout m)))"
proof (cases "length buf < length (auth1_layout m)")
  case True
  then show ?thesis
    using wf by (simp add: length_auth1_layout auth_auth1_encode_def wf_auth1_def)
next
  case False
  then have len: "258 + 96 * a1_n_branches m \<le> length buf" using wf by (simp add: length_auth1_layout)
  have fixed: "bnd (put_fixed (a1_pid m) 32 (buf, 0)) (\<lambda>c.
      bnd (put_fixed (prf_a (a1_client_proof m)) 32 c) (\<lambda>c.
      bnd (put_fixed (prf_s (a1_client_proof m)) 32 c) (\<lambda>c.
      bnd (put_fixed (a1_nonce_c m) 32 c) (\<lambda>c. bnd (put_fixed (a1_eph_c m) 32 c) (\<lambda>c.
      bnd (put_fixed (a1_c_prime m) 32 c) (\<lambda>c.
      bnd (put_fixed (prf_a (a1_rerand_proof m)) 32 c) (\<lambda>c.
      bnd (put_fixed (prf_s (a1_rerand_proof m)) 32 c) f))))))) = f (cur buf (auth1_fixed m))"
    for f :: "cursor \<Rightarrow> (auth_err, cursor) cres"
    using len wf
    by (simp add: wf_auth1_def wf_proof_def auth1_fixed_def proof_layout_def put_fixed_cur cur_start)
  have branches: "loop (\<lambda>i c. bnd (branch_get (a1_branches m) i) (\<lambda>b.
      bnd (put_fixed (br_a b) 32 c) (\<lambda>c. bnd (put_fixed (br_c b) 32 c) (\<lambda>c.
      put_fixed (br_s b) 32 c)))) [0..<a1_n_branches m]
        (cur buf (auth1_fixed m @ le_bytes 2 (of_nat (a1_n_branches m) :: u16))) =
      Ret (cur buf (auth1_layout m))"
    using wf len length_auth1_fixed [OF wf] by (subst branches_encode) (simp_all add: auth1_layout_def wf_auth1_def)
  then show ?thesis
    using False wf len length_auth1_fixed [OF wf]
    by (simp add: auth_auth1_encode_def fixed putb_cur le_bytes_2 Let_def wf_auth1_def)
qed

definition branch_at :: "byte list \<Rightarrow> nat \<Rightarrow> auth_set_branch" where
  "branch_at buf off =
     \<lparr>br_a = take 32 (drop off buf), br_c = take 32 (drop (off + 32) buf),
      br_s = take 32 (drop (off + 64) buf)\<rparr>"

lemma wf_branch_at: "off + 96 \<le> length buf \<Longrightarrow> wf_branch (branch_at buf off)"
  by (simp add: wf_branch_def branch_at_def)

lemma layout_branch_at: "branch_layout (branch_at buf off) = take 96 (drop off buf)"
  using take_take_drop [of 32 off buf 64] take_take_drop [of 32 "off + 32" buf 32]
  by (simp add: branch_layout_def branch_at_def add.commute)

lemma branches_decode:
  assumes "n \<le> 8" and "off + 96 * n \<le> length buf"
  shows "loop (\<lambda>i (branches, off).
           bnd (take_fixed buf off 32) (\<lambda>(a, off).
           bnd (take_fixed buf off 32) (\<lambda>(c, off).
           bnd (take_fixed buf off 32) (\<lambda>(s, off).
           if i < length branches
           then Ret (branches[i := \<lparr>br_a = a, br_c = c, br_s = s\<rparr>], off) else Fault))))
         [0..<n] (replicate 8 zero_branch, off) =
         Ret (map (\<lambda>i. branch_at buf (off + 96 * i)) [0..<n] @ replicate (8 - n) zero_branch, off + 96 * n)"
  using assms
proof (induction n)
  case (Suc n)
  then have "8 - n = Suc (8 - Suc n)" by simp
  then show ?case
    using Suc
    by (simp add: loop_append take_fixed_Ret list_update_append branch_at_def [of buf "off + 96 * n"] add.commute)
qed simp

lemma concat_branches_at:
  "off + 96 * n \<le> length buf \<Longrightarrow>
   concat (map branch_layout (map (\<lambda>i. branch_at buf (off + 96 * i)) [0..<n])) = take (96 * n) (drop off buf)"
proof (induction n)
  case (Suc n)
  then show ?case
    using take_take_drop [of "96 * n" off buf 96] by (simp add: layout_branch_at add.commute)
qed simp

lemma branch_at_layout:
  assumes "i < length bs" and "\<forall>b \<in> set bs. wf_branch b" and "off = length pre"
  shows "branch_at (pre @ concat (map branch_layout bs)) (off + 96 * i) = bs ! i"
proof -
  let ?pre = "pre @ concat (map branch_layout (take i bs))"
  have "bs = take i bs @ bs ! i # drop (Suc i) bs" using assms by (simp add: id_take_nth_drop)
  then have "concat (map branch_layout bs) = concat (map branch_layout (take i bs)) @
      branch_layout (bs ! i) @ concat (map branch_layout (drop (Suc i) bs))"
    by (metis concat.simps(2) concat_append list.simps(9) map_append)
  moreover have "length ?pre = off + 96 * i" using assms by (simp add: length_branches_take)
  moreover have "branch_at (?pre @ branch_layout b @ r) (length ?pre) = b" if "wf_branch b" for b r
    using that by (cases b) (simp add: branch_at_def branch_layout_def wf_branch_def)
  ultimately show ?thesis using assms by simp
qed

definition auth1_of :: "byte list \<Rightarrow> nat \<Rightarrow> auth_auth1" where
  "auth1_of bs n =
     \<lparr>a1_pid = take 32 bs,
      a1_client_proof = \<lparr>prf_a = take 32 (drop 32 bs), prf_s = take 32 (drop 64 bs)\<rparr>,
      a1_nonce_c = take 32 (drop 96 bs), a1_eph_c = take 32 (drop 128 bs),
      a1_c_prime = take 32 (drop 160 bs),
      a1_rerand_proof = \<lparr>prf_a = take 32 (drop 192 bs), prf_s = take 32 (drop 224 bs)\<rparr>,
      a1_branches = map (\<lambda>i. branch_at bs (258 + 96 * i)) [0..<n] @ replicate (8 - n) zero_branch,
      a1_n_branches = n\<rparr>"

definition auth1_count :: "byte list \<Rightarrow> nat" where
  "auth1_count bs = unat (le_word (take 2 (drop 256 bs)) :: u16)"

lemma auth1_decode_eq:
  "auth_auth1_decode (Some bs) =
     (let n = auth1_count bs in
      if length bs < 258 then Fail AUTH_ERR_PAYLOAD_TOO_SHORT
      else if n > AUTH_MAX_ROLES then Fail AUTH_ERR_MALFORMED_PACKET
      else if length bs < 258 + 96 * n then Fail AUTH_ERR_PAYLOAD_TOO_SHORT
      else if length bs \<noteq> 258 + 96 * n then Fail AUTH_ERR_MALFORMED_PACKET
      else Ret (auth1_of bs n))"
proof (cases "length bs < 256")
  case True
  then show ?thesis by (simp add: auth_auth1_decode_def take_fixed_if)
next
  case False
  let ?n = "auth1_count bs"
  have cnt: "unat (le_word (take 2 (drop 256 bs)) :: u16) = ?n" by (simp only: auth1_count_def)
  have short: "length bs - 256 < 2 \<longleftrightarrow> length bs < 258" using False by arith
  have few: "length bs - 258 < ?n * 96 \<longleftrightarrow> length bs < 258 + 96 * ?n" if "\<not> length bs < 258"
    using that by arith
  show ?thesis
  proof (cases "length bs < 258 \<or> ?n > 8 \<or> length bs < 258 + 96 * ?n")
    case True
    then show ?thesis
      using False short few
      by (auto simp add: auth_auth1_decode_def take_fixed_if load_u16_le_Ret cnt)
  next
    case ok: False
    then show ?thesis
      using False short few branches_decode [of ?n 258 bs]
      by (simp add: auth_auth1_decode_def take_fixed_if load_u16_le_Ret cnt reject_trailing_def
          auth1_of_def Let_def)
  qed
qed

lemma auth1_decode_layout:
  assumes wf: "wf_auth1 m"
  shows "auth_auth1_decode (Some (auth1_layout m)) = Ret (auth1_norm m)"
proof -
  let ?n = "a1_n_branches m" and ?bs = "take (a1_n_branches m) (a1_branches m)"
  have u: "unat (of_nat ?n :: u16) = ?n" and n: "length ?bs = ?n"
    using wf by (simp_all add: wf_auth1_def unat_of_nat)
  have wfb: "\<forall>b \<in> set ?bs. wf_branch b"
    using wf set_take_subset [of ?n "a1_branches m"] by (auto simp: wf_auth1_def)
  have "take 2 (drop 256 (auth1_layout m)) = le_bytes 2 (of_nat ?n :: u16)"
    using length_auth1_fixed [OF wf] by (simp add: auth1_layout_def)
  then have cnt: "auth1_count (auth1_layout m) = ?n"
    using le_word_le_bytes [of 2 "of_nat ?n :: u16"] u by (simp add: auth1_count_def)
  have "branch_at (auth1_layout m) (258 + 96 * i) = ?bs ! i" if "i < ?n" for i
    using branch_at_layout [OF _ wfb, of i 258 "auth1_fixed m @ le_bytes 2 (of_nat ?n :: u16)"]
      that n length_auth1_fixed [OF wf] by (simp add: auth1_layout_def)
  then have branches: "map (\<lambda>i. branch_at (auth1_layout m) (258 + 96 * i)) [0..<?n] = ?bs"
    using n by (intro nth_equalityI) simp_all
  have "auth1_of (auth1_layout m) ?n = auth1_norm m"
  proof -
    have "auth1_of (auth1_layout m) ?n =
        (auth1_of (auth1_layout m) 0)\<lparr>a1_branches := a1_branches (auth1_norm m), a1_n_branches := ?n\<rparr>"
      by (simp add: auth1_of_def branches auth1_norm_def)
    also have "\<dots> = auth1_norm m"
      using wf
      by (cases m; cases "a1_client_proof m"; cases "a1_rerand_proof m")
        (simp add: auth1_of_def auth1_norm_def auth1_layout_def auth1_fixed_def proof_layout_def
          wf_auth1_def wf_proof_def)
    finally show ?thesis .
  qed
  then show ?thesis
    using wf by (simp add: auth1_decode_eq cnt length_auth1_layout wf_auth1_def)
qed

lemma auth1_decode_sound:
  assumes "auth_auth1_decode (Some bs) = Ret m"
  shows "wf_auth1 m \<and> auth1_norm m = m \<and> auth1_layout m = bs"
proof -
  let ?n = "auth1_count bs"
  have len: "length bs = 258 + 96 * ?n" "?n \<le> 8" and m: "m = auth1_of bs ?n"
    using assms by (auto simp: auth1_decode_eq Let_def split: if_splits)
  have wf: "wf_auth1 m"
    using len by (auto simp: m auth1_of_def wf_auth1_def wf_proof_def intro: wf_branch_at)
  moreover have "auth1_norm m = m" by (simp add: m auth1_of_def auth1_norm_def)
  moreover have "auth1_layout m = bs"
  proof -
    have split: "concat (chunks [32, 32, 32, 32, 32, 32, 32, 32, 2] bs) = bs" by (rule concat_chunks)
    have "concat (map branch_layout (map (\<lambda>i. branch_at bs (258 + 96 * i)) [0..<?n])) = drop 258 bs"
      using concat_branches_at [of 258 ?n bs] len by simp
    moreover have "le_bytes 2 (of_nat ?n :: u16) = take 2 (drop 256 bs)"
    proof -
      have "of_nat ?n = (le_word (take 2 (drop 256 bs)) :: u16)"
        unfolding auth1_count_def by simp
      then show ?thesis using len by (simp add: le_bytes_le_word)
    qed
    ultimately have "auth1_layout m = concat (chunks [32, 32, 32, 32, 32, 32, 32, 32, 2] bs)"
      by (simp add: m auth1_of_def auth1_layout_def auth1_fixed_def proof_layout_def del: map_map)
    then show ?thesis by (simp only: split)
  qed
  ultimately show ?thesis by simp
qed

interpretation auth1:
  canonical_codec auth_auth1_encode auth_auth1_decode wf_auth1 auth1_norm auth1_layout
proof unfold_locales
  fix b show "auth_auth1_decode b \<noteq> Fault"
    by (cases b) (simp_all add: auth1_decode_eq Let_def, simp add: auth_auth1_decode_def)
qed (use auth1_decode_sound in \<open>auto simp: auth1_encode_eq auth1_decode_layout\<close>)

subsection \<open>Properties\<close>

text \<open>C38: Every payload decoder accepts exactly the documented layout of a message whose arrays
  have their declared sizes (unused tails zero): trailing bytes, short payloads, oversized
  counts and alternative encodings are all rejected, so each message has one encoding.\<close>

theorem payload_decoders_exact:
  "(auth_setup1_decode (Some bs) = Ret m1 \<longleftrightarrow> wf_setup1 m1 \<and> setup1_norm m1 = m1 \<and> setup1_layout m1 = bs) \<and>
   (auth_setup2_decode (Some bs) = Ret m2 \<longleftrightarrow> wf_setup2 m2 \<and> setup2_layout m2 = bs) \<and>
   (auth_setup3_decode (Some bs) = Ret m3 \<longleftrightarrow> wf_setup3 m3 \<and> setup3_layout m3 = bs) \<and>
   (auth_auth1_decode (Some bs) = Ret m4 \<longleftrightarrow> wf_auth1 m4 \<and> auth1_norm m4 = m4 \<and> auth1_layout m4 = bs) \<and>
   (auth_auth2_decode (Some bs) = Ret m5 \<longleftrightarrow> wf_auth2 m5 \<and> auth2_layout m5 = bs) \<and>
   (auth_auth3_decode (Some bs) = Ret m6 \<longleftrightarrow> wf_auth3 m6 \<and> a3_tag_c m6 = bs) \<and>
   (auth_ack_decode (Some bs) = Ret () \<longleftrightarrow> bs = [AUTH_ACK_BYTE])"
  using setup1.dec_iff [of bs m1] setup2.dec_iff [of bs m2] setup3.dec_iff [of bs m3]
    auth1.dec_iff [of bs m4] auth2.dec_iff [of bs m5] auth3.dec_iff [of bs m6]
    ack_decode_Ret_iff [of bs]
  by simp

text \<open>An AUTH_1 message with at most eight branches is encoded into every large enough buffer
  and decoded back; the encoder refuses a smaller buffer and neither direction touches memory
  outside its buffers.\<close>

theorem auth1_roundtrip:
  assumes "wf_auth1 m"
  shows "(if 258 + 96 * a1_n_branches m \<le> length buf
      then \<exists>buf' n. auth_auth1_encode (Some m) (Some buf) = Ret (buf', n) \<and>
             length buf' = length buf \<and> n = 258 + 96 * a1_n_branches m \<and> drop n buf' = drop n buf \<and>
             auth_auth1_decode (Some (take n buf')) = Ret (auth1_norm m)
      else auth_auth1_encode (Some m) (Some buf) = Fail AUTH_ERR_BUFFER_TOO_SMALL) \<and>
    auth_auth1_decode b \<noteq> Fault"
  using assms auth1.enc_fits [of m buf] auth1.enc_small [of m buf] auth1.dec_layout [of m]
    auth1.dec_no_fault [of b] length_auth1_layout [of m]
  by (auto simp: cur_def)

definition auth1_sample :: auth_auth1 where
  "auth1_sample = \<lparr>a1_pid = replicate 32 1, a1_client_proof = zero_proof, a1_nonce_c = replicate 32 2,
     a1_eph_c = replicate 32 3, a1_c_prime = replicate 32 4, a1_rerand_proof = zero_proof,
     a1_branches = replicate 8 zero_branch, a1_n_branches = 2\<rparr>"

theorem auth1_roundtrip_witness:
  "wf_auth1 auth1_sample \<and>
   (\<exists>buf'. auth_auth1_encode (Some auth1_sample) (Some (replicate 450 0)) = Ret (buf', 450) \<and>
      auth_auth1_decode (Some buf') = Ret auth1_sample)"
proof -
  have wf: "wf_auth1 auth1_sample" and n: "a1_n_branches auth1_sample = 2"
    and norm: "auth1_norm auth1_sample = auth1_sample"
    by (simp_all add: auth1_sample_def wf_auth1_def wf_proof_def zero_proof_def auth1_norm_def
        replicate_add [symmetric])
  show ?thesis using auth1_roundtrip [OF wf, of "replicate 450 0" None] wf by (auto simp: n norm)
qed

text \<open>A SETUP_1 message with a pairing token of at most 128 bytes is encoded into every large
  enough buffer and decoded back with the same token, identity, key, nonce and commitment.\<close>

theorem setup1_roundtrip:
  assumes "wf_setup1 m"
  shows "(if 129 + s1_pairing_token_len m \<le> length buf
      then \<exists>buf' n. auth_setup1_encode (Some m) (Some buf) = Ret (buf', n) \<and>
             length buf' = length buf \<and> drop n buf' = drop n buf \<and>
             auth_setup1_decode (Some (take n buf')) = Ret (setup1_norm m)
      else auth_setup1_encode (Some m) (Some buf) = Fail AUTH_ERR_BUFFER_TOO_SMALL) \<and>
    auth_setup1_decode b \<noteq> Fault"
proof -
  have "length (setup1_layout m) = 129 + s1_pairing_token_len m"
    using assms by (simp add: setup1_layout_def wf_defs)
  then show ?thesis
    using assms setup1.roundtrip [of m buf] setup1.enc_small [of m buf] setup1.dec_no_fault [of b]
    by auto
qed

definition setup1_sample :: auth_setup1 where
  "setup1_sample = \<lparr>s1_pairing_token = [7, 8] @ replicate 126 0, s1_pairing_token_len = 2,
     s1_device_id = replicate 32 1, s1_device_pub = replicate 32 2, s1_client_nonce = replicate 32 3,
     s1_role_commitment = replicate 32 4\<rparr>"

theorem setup1_roundtrip_witness:
  "wf_setup1 setup1_sample \<and>
   auth_setup1_encode (Some setup1_sample) (Some (replicate 100 0)) = Fail AUTH_ERR_BUFFER_TOO_SMALL \<and>
   (\<exists>buf' n. auth_setup1_encode (Some setup1_sample) (Some (replicate 131 0)) = Ret (buf', n) \<and>
      auth_setup1_decode (Some (take n buf')) = Ret setup1_sample)"
proof -
  have wf: "wf_setup1 setup1_sample" and n: "s1_pairing_token_len setup1_sample = 2"
    and norm: "setup1_norm setup1_sample = setup1_sample"
    by (simp_all add: setup1_sample_def wf_defs setup1_norm_def)
  show ?thesis
    using setup1_roundtrip [OF wf, of "replicate 131 0" None]
      setup1_roundtrip [OF wf, of "replicate 100 0" None] wf by (auto simp: n norm)
qed

end
