(* ===== verification/ClientProto.thy ===== *)
theory ClientProto
  imports RoleProofs KeySchedule Payloads
begin

text \<open>
  The client half of \<^verbatim>\<open>c/src/proto/proto.c\<close> (lines 23 to 362): one function per state-machine
  operation, from the context and an incoming packet to an outcome and the context it leaves.
  The context is returned on every path, because the code updates it field by field before
  checks that may still fail. Bytes drawn from the random generator are arguments. The context
  itself is never \<^verbatim>\<open>NULL\<close>; when a called function fails, the field it would have filled
  keeps its old value.
\<close>

subsection \<open>State\<close>

record auth_client_ctx =
  cc_device_root :: "byte list"
  cc_device_id :: "byte list"
  cc_device_sk :: "byte list"
  cc_device_pub :: "byte list"
  cc_server_pub_pinned :: "byte list"
  cc_has_pinned_server :: bool
  cc_role_commitment :: "byte list"
  cc_role_blind :: "byte list"
  cc_role_code :: u64
  cc_has_role :: bool
  cc_session_id :: "byte list"
  cc_seq :: u32
  cc_client_nonce :: "byte list"
  cc_eph_secret :: "byte list"
  cc_eph_c :: "byte list"
  cc_pending_client_proof :: auth_schnorr_proof
  cc_pending_server_pub :: "byte list"
  cc_pending_server_nonce :: "byte list"
  cc_pending_setup_challenge :: "byte list"
  cc_session_key :: "byte list"
  cc_kc_th :: "byte list"
  cc_kc_k_s2c :: "byte list"
  cc_kc_k_c2s :: "byte list"
  cc_auth_complete :: bool

text \<open>The arrays of the struct have their declared sizes.\<close>

definition wf_client :: "auth_client_ctx \<Rightarrow> bool" where
  [wf_defs]: "wf_client ctx \<longleftrightarrow>
     length (cc_device_id ctx) = 32 \<and> length (cc_device_sk ctx) = 32 \<and> length (cc_device_pub ctx) = 32 \<and>
     length (cc_server_pub_pinned ctx) = 32 \<and> length (cc_role_commitment ctx) = 32 \<and>
     length (cc_role_blind ctx) = 32 \<and> length (cc_session_id ctx) = 16 \<and>
     length (cc_client_nonce ctx) = 32 \<and> length (cc_eph_secret ctx) = 32 \<and> length (cc_eph_c ctx) = 32 \<and>
     wf_proof (cc_pending_client_proof ctx) \<and> length (cc_pending_server_pub ctx) = 32 \<and>
     length (cc_pending_server_nonce ctx) = 32 \<and> length (cc_pending_setup_challenge ctx) = 16 \<and>
     length (cc_session_key ctx) = 32 \<and> length (cc_kc_th ctx) = 32 \<and>
     length (cc_kc_k_s2c ctx) = 32 \<and> length (cc_kc_k_c2s ctx) = 32"

text \<open>\<^verbatim>\<open>err = f(...); if (err) return err;\<close> in a function that updates \<open>ctx\<close>.\<close>

definition try_c :: "(auth_err, 'a) cres \<Rightarrow> 'c \<Rightarrow> ('a \<Rightarrow> (auth_err, 'b) cres \<times> 'c) \<Rightarrow> (auth_err, 'b) cres \<times> 'c" where
  "try_c r ctx k = (case r of Fault \<Rightarrow> (Fault, ctx) | Fail e \<Rightarrow> (Fail e, ctx) | Ret a \<Rightarrow> k a)"

lemma try_c_simps [simp]:
  "try_c Fault ctx k = (Fault, ctx)" "try_c (Fail e) ctx k = (Fail e, ctx)" "try_c (Ret a) ctx k = k a"
  by (simp_all add: try_c_def)

lemma try_c_Ret_iff: "try_c r ctx k = (Ret b, ctx') \<longleftrightarrow> (\<exists>a. r = Ret a \<and> k a = (Ret b, ctx'))"
  by (cases r) auto

definition auth_client_ctx_init :: "byte list \<Rightarrow> auth_client_ctx \<Rightarrow> auth_client_ctx" where
  "auth_client_ctx_init random16 ctx =
     ctx\<lparr>cc_session_id := random16, cc_seq := 0, cc_has_pinned_server := False, cc_has_role := False,
         cc_auth_complete := False\<rparr>"

subsection \<open>Receiving a packet\<close>

text \<open>The opening of the four handlers: decode the header, turn an ERROR packet into the code it
  carries, and check the packet type.\<close>

definition client_open :: "byte \<Rightarrow> byte list option \<Rightarrow> (auth_err, auth_header \<times> byte list) cres" where
  "client_open pkt_type inp =
     (if inp = None then Fail AUTH_ERR_INVALID_ARGUMENT
      else
        bnd (auth_header_decode inp) (\<lambda>(hdr, payload).
        if hdr_pkt_type hdr = AUTH_PKT_ERROR then
          (case auth_packet_parse_error (Some payload) of
             Ret (code, msg) \<Rightarrow> Fail code
           | Fail e \<Rightarrow> Fail AUTH_ERR_UNSPECIFIED
           | Fault \<Rightarrow> Fault)
        else if hdr_pkt_type hdr \<noteq> pkt_type then Fail AUTH_ERR_UNKNOWN_PKT_TYPE
        else Ret (hdr, payload)))"

text \<open>The end of the four builders: encode into a local payload array, count the sequence
  number up, build the packet.\<close>

definition client_send ::
    "byte \<Rightarrow> 'm encoder \<Rightarrow> 'm \<Rightarrow> auth_client_ctx \<Rightarrow> byte list option \<Rightarrow>
     (auth_err, cursor) cres \<times> auth_client_ctx" where
  "client_send pkt_type encode m ctx out =
     try_c (encode (Some m) (Some (replicate AUTH_MAX_PAYLOAD 0))) ctx (\<lambda>(payload, payload_len).
     let ctx = ctx\<lparr>cc_seq := cc_seq ctx + 1\<rparr>
     in (auth_packet_build pkt_type (Some (cc_session_id ctx)) (cc_seq ctx) (Some payload) payload_len out, ctx))"

subsection \<open>Setup\<close>

definition auth_client_build_setup1 ::
    "sodium \<Rightarrow> byte list \<Rightarrow> byte list \<Rightarrow> auth_client_ctx \<Rightarrow> byte list option \<Rightarrow> nat \<Rightarrow> byte list option \<Rightarrow>
     (auth_err, cursor) cres \<times> auth_client_ctx" where
  "auth_client_build_setup1 S nonce wide_blind ctx pairing_token pairing_token_len out =
     (if out = None then (Fail AUTH_ERR_INVALID_ARGUMENT, ctx)
      else if pairing_token_len > AUTH_MAX_PAIRING_TOKEN then (Fail AUTH_ERR_INVALID_ARGUMENT, ctx)
      else if pairing_token_len \<noteq> 0 \<and> pairing_token = None then (Fail AUTH_ERR_INVALID_ARGUMENT, ctx)
      else
        let ctx = ctx\<lparr>cc_client_nonce := nonce\<rparr>;
            (r, ctx) =
              (if \<not> cc_has_role ctx then
                 let ctx = (if cc_role_code ctx = 0 then ctx\<lparr>cc_role_code := 1\<rparr> else ctx);
                     ctx = ctx\<lparr>cc_role_blind := auth_random_scalar S wide_blind\<rparr>
                 in try_c (auth_make_role_commitment S (cc_role_code ctx) (cc_role_blind ctx)) ctx (\<lambda>c.
                      (Ret (), ctx\<lparr>cc_role_commitment := c, cc_has_role := True\<rparr>))
               else (Ret (), ctx))
        in
        try_c r ctx (\<lambda>_.
        try_c (if pairing_token_len \<noteq> 0
               then wrn (replicate AUTH_MAX_PAIRING_TOKEN 0) 0 (the pairing_token) pairing_token_len
               else Ret (replicate AUTH_MAX_PAIRING_TOKEN 0)) ctx (\<lambda>token.
        client_send AUTH_PKT_SETUP_1 auth_setup1_encode
          \<lparr>s1_pairing_token = token, s1_pairing_token_len = pairing_token_len,
           s1_device_id = cc_device_id ctx, s1_device_pub = cc_device_pub ctx,
           s1_client_nonce = cc_client_nonce ctx, s1_role_commitment = cc_role_commitment ctx\<rparr> ctx out)))"

definition auth_client_handle_setup2 ::
    "sodium \<Rightarrow> auth_client_ctx \<Rightarrow> byte list option \<Rightarrow> bool \<Rightarrow> (auth_err, unit) cres \<times> auth_client_ctx" where
  "auth_client_handle_setup2 S ctx inp allow_tofu =
     try_c (client_open AUTH_PKT_SETUP_2 inp) ctx (\<lambda>(hdr, payload).
     if hdr_session_id hdr \<noteq> cc_session_id ctx then (Fail AUTH_ERR_UNKNOWN_SESSION, ctx)
     else
       try_c (auth_setup2_decode (Some payload)) ctx (\<lambda>s2.
       try_c (auth_check_point S (s2_server_pub s2)) ctx (\<lambda>_.
       let (r, ctx) =
         (if cc_has_pinned_server ctx then
            (if cc_server_pub_pinned ctx \<noteq> s2_server_pub s2 then Fail AUTH_ERR_PEER_KEY_MISMATCH
             else Ret (), ctx)
          else if \<not> allow_tofu then (Fail AUTH_ERR_PEER_KEY_MISMATCH, ctx)
          else (Ret (), ctx\<lparr>cc_server_pub_pinned := s2_server_pub s2, cc_has_pinned_server := True\<rparr>))
       in
       try_c r ctx (\<lambda>_.
       try_c (auth_verify_setup_server S (s2_server_proof s2) (s2_server_pub s2) (cc_device_id ctx)
                (cc_device_pub ctx) (cc_client_nonce ctx) (s2_server_nonce s2) (s2_setup_challenge s2)) ctx (\<lambda>ok.
       if \<not> ok then (Fail AUTH_ERR_PROOF_VERIFY, ctx)
       else (Ret (), ctx\<lparr>cc_pending_server_pub := s2_server_pub s2,
                         cc_pending_server_nonce := s2_server_nonce s2,
                         cc_pending_setup_challenge := s2_setup_challenge s2\<rparr>))))))"

definition auth_client_build_setup3 ::
    "sodium \<Rightarrow> byte list \<Rightarrow> auth_client_ctx \<Rightarrow> byte list option \<Rightarrow> (auth_err, cursor) cres \<times> auth_client_ctx" where
  "auth_client_build_setup3 S wide ctx out =
     try_c (auth_prove_setup_client S wide (cc_device_sk ctx) (cc_device_id ctx) (cc_device_pub ctx)
              (cc_pending_server_pub ctx) (cc_client_nonce ctx) (cc_pending_server_nonce ctx)
              (cc_pending_setup_challenge ctx)) ctx (\<lambda>prf.
     client_send AUTH_PKT_SETUP_3 auth_setup3_encode \<lparr>s3_client_proof = prf\<rparr> ctx out)"

definition auth_client_handle_setup_ack ::
    "auth_client_ctx \<Rightarrow> byte list option \<Rightarrow> (auth_err, unit) cres \<times> auth_client_ctx" where
  "auth_client_handle_setup_ack ctx inp =
     try_c (client_open AUTH_PKT_SETUP_ACK inp) ctx (\<lambda>(hdr, payload). (auth_ack_decode (Some payload), ctx))"

subsection \<open>Authentication\<close>

text \<open>The randomness of AUTH_1: nonce, ephemeral secret, rerandomisation factor and the bytes the
  three provers draw.\<close>

record auth1_random =
  rnd_nonce :: "byte list"
  rnd_eph :: "byte list"
  rnd_delta :: "byte list"
  rnd_client :: "byte list"
  rnd_rerand :: "byte list"
  rnd_set :: "byte list"

definition auth_client_build_auth1 ::
    "sodium \<Rightarrow> auth1_random \<Rightarrow> auth_client_ctx \<Rightarrow> u64 list option \<Rightarrow> nat \<Rightarrow> byte list option \<Rightarrow>
     (auth_err, cursor) cres \<times> auth_client_ctx" where
  "auth_client_build_auth1 S rnd ctx allowed_roles n_allowed out =
     (if allowed_roles = None then (Fail AUTH_ERR_INVALID_ARGUMENT, ctx)
      else if \<not> cc_has_pinned_server ctx then (Fail AUTH_ERR_DEVICE_NOT_ENROLLED, ctx)
      else if \<not> cc_has_role ctx then (Fail AUTH_ERR_ROLE_NOT_PERMITTED, ctx)
      else if n_allowed = 0 \<or> n_allowed > AUTH_MAX_ROLES then (Fail AUTH_ERR_INVALID_ARGUMENT, ctx)
      else
        let ctx = ctx\<lparr>cc_client_nonce := rnd_nonce rnd, cc_eph_secret := auth_random_scalar S (rnd_eph rnd)\<rparr> in
        try_c (auth_scalarmult_base S (cc_eph_secret ctx)) ctx (\<lambda>eph_c.
        let ctx = ctx\<lparr>cc_eph_c := eph_c\<rparr> in
        let pid = auth_compute_pid S (cc_device_pub ctx) (cc_client_nonce ctx) (cc_eph_c ctx)
                    (cc_server_pub_pinned ctx);
            delta = auth_random_scalar S (rnd_delta rnd) in
        try_c (auth_rerandomize_commitment S (cc_role_commitment ctx) (cc_role_blind ctx) delta) ctx
          (\<lambda>(c_prime, blind_prime).
        try_c (auth_prove_auth_client S (rnd_client rnd) (cc_device_sk ctx) pid (cc_client_nonce ctx)
                 (cc_eph_c ctx)) ctx (\<lambda>client_proof.
        let ctx = ctx\<lparr>cc_pending_client_proof := client_proof\<rparr> in
        try_c (auth_prove_rerandomization S (rnd_rerand rnd) (cc_role_commitment ctx) c_prime delta pid
                 (cc_client_nonce ctx) (cc_eph_c ctx)) ctx (\<lambda>rerand_proof.
        try_c (auth_prove_role_set_membership S (rnd_set rnd) allowed_roles n_allowed c_prime
                 (cc_role_code ctx) blind_prime pid (cc_client_nonce ctx) (cc_eph_c ctx)) ctx (\<lambda>branches.
        client_send AUTH_PKT_AUTH_1 auth_auth1_encode
          \<lparr>a1_pid = pid, a1_client_proof = client_proof, a1_nonce_c = cc_client_nonce ctx,
           a1_eph_c = cc_eph_c ctx, a1_c_prime = c_prime, a1_rerand_proof = rerand_proof,
           a1_branches = branches @ replicate (AUTH_MAX_ROLES - length branches) zero_branch,
           a1_n_branches = length branches\<rparr> ctx out))))))"

definition auth_client_handle_auth2 ::
    "sodium \<Rightarrow> auth_client_ctx \<Rightarrow> byte list option \<Rightarrow> (auth_err, unit) cres \<times> auth_client_ctx" where
  "auth_client_handle_auth2 S ctx inp =
     try_c (client_open AUTH_PKT_AUTH_2 inp) ctx (\<lambda>(hdr, payload).
     if hdr_session_id hdr \<noteq> cc_session_id ctx then (Fail AUTH_ERR_UNKNOWN_SESSION, ctx)
     else
       try_c (auth_auth2_decode (Some payload)) ctx (\<lambda>a2.
       try_c (auth_check_point S (a2_server_pub a2)) ctx (\<lambda>_.
       try_c (auth_check_point S (a2_eph_s a2)) ctx (\<lambda>_.
       if a2_server_pub a2 \<noteq> cc_server_pub_pinned ctx then (Fail AUTH_ERR_PEER_KEY_MISMATCH, ctx)
       else
         try_c (auth_verify_auth_server S (a2_server_proof a2) (a2_server_pub a2) (a2_nonce_s a2)
                  (a2_eph_s a2)) ctx (\<lambda>ok.
         if \<not> ok then (Fail AUTH_ERR_PROOF_VERIFY, ctx)
         else
           let pid = auth_compute_pid S (cc_device_pub ctx) (cc_client_nonce ctx) (cc_eph_c ctx)
                       (cc_server_pub_pinned ctx) in
           try_c (auth_derive_session_key S (cc_eph_secret ctx) (a2_eph_s a2) (cc_client_nonce ctx)
                    (a2_nonce_s a2) pid (cc_eph_c ctx) (a2_eph_s a2)) ctx (\<lambda>session_key.
           let ctx = ctx\<lparr>cc_session_key := session_key\<rparr> in
           try_c (auth_kc_transcript_hash S pid (cc_pending_client_proof ctx) (cc_client_nonce ctx)
                    (cc_eph_c ctx) (a2_server_pub a2) (a2_server_proof a2) (a2_nonce_s a2) (a2_eph_s a2)) ctx
             (\<lambda>kc_th.
           let ctx = ctx\<lparr>cc_kc_th := kc_th\<rparr> in
           try_c (auth_derive_kc_keys S (cc_session_key ctx) (cc_kc_th ctx)) ctx (\<lambda>(k_s2c, k_c2s).
           let ctx = ctx\<lparr>cc_kc_k_s2c := k_s2c, cc_kc_k_c2s := k_c2s\<rparr>;
               expect_tag = auth_hmac_tag S (cc_kc_k_s2c ctx) (ascii ''server finished'') (cc_kc_th ctx)
           in if expect_tag \<noteq> a2_tag_s a2 then (Fail AUTH_ERR_KEY_CONFIRM, ctx) else (Ret (), ctx)))))))))"

definition auth_client_build_auth3 ::
    "sodium \<Rightarrow> auth_client_ctx \<Rightarrow> byte list option \<Rightarrow> (auth_err, cursor) cres \<times> auth_client_ctx" where
  "auth_client_build_auth3 S ctx out =
     client_send AUTH_PKT_AUTH_3 auth_auth3_encode
       \<lparr>a3_tag_c = auth_hmac_tag S (cc_kc_k_c2s ctx) (ascii ''client finished'') (cc_kc_th ctx)\<rparr> ctx out"

definition auth_client_handle_auth_ack ::
    "auth_client_ctx \<Rightarrow> byte list option \<Rightarrow> (auth_err, unit) cres \<times> auth_client_ctx" where
  "auth_client_handle_auth_ack ctx inp =
     try_c (client_open AUTH_PKT_AUTH_ACK inp) ctx (\<lambda>(hdr, payload).
     try_c (auth_ack_decode (Some payload)) ctx (\<lambda>_. (Ret (), ctx\<lparr>cc_auth_complete := True\<rparr>)))"

subsection \<open>Packets in and out\<close>

text \<open>The bytes an encoder hands to the transport: \<^verbatim>\<open>out[0 .. out_len)\<close>.\<close>

definition sent :: "cursor \<Rightarrow> byte list" where
  "sent c = take (snd c) (fst c)"

lemma sent_cur [simp]: "length l \<le> length buf \<Longrightarrow> sent (cur buf l) = l"
  by (simp add: sent_def cur_def)

abbreviation (input) packet :: "byte \<Rightarrow> byte list \<Rightarrow> u32 \<Rightarrow> byte list \<Rightarrow> byte list" where
  "packet t sid seq p \<equiv> header_layout (packet_header t sid seq) @ p"

lemma packet_build_cur:
  assumes "length sid = 16" and "length l \<le> 2024"
  shows "auth_packet_build t (Some sid) seq (Some (fst (cur (replicate 2024 0) l))) (length l) (Some buf) =
    (if length buf < 24 + length l then Fail AUTH_ERR_BUFFER_TOO_SMALL else Ret (cur buf (packet t sid seq l)))"
  using assms packet_build_eq [of sid "length l" "fst (cur (replicate 2024 0) l)" t seq buf]
  by (simp add: cur_def)

context codec
begin

lemma client_send_eq:
  assumes "wf m" and "length (layout m) \<le> 2024" and "length (cc_session_id ctx) = 16"
  shows "client_send t enc m ctx (Some buf) =
    (if length buf < 24 + length (layout m) then Fail AUTH_ERR_BUFFER_TOO_SMALL
     else Ret (cur buf (packet t (cc_session_id ctx) (cc_seq ctx + 1) (layout m))),
     ctx\<lparr>cc_seq := cc_seq ctx + 1\<rparr>)"
  using assms packet_build_cur [of "cc_session_id ctx" "layout m" t "cc_seq ctx + 1" buf]
    enc_fits [of m "replicate 2024 0"]
  by (simp add: client_send_def cur_def split_beta Let_def)

lemma client_send_no_fault:
  assumes "wf m" and "length (layout m) \<le> 2024" and "length (cc_session_id ctx) = 16"
  shows "fst (client_send t enc m ctx out) \<noteq> Fault"
proof (cases out)
  case None
  then show ?thesis
    using assms enc_fits [of m "replicate 2024 0"]
    by (simp add: client_send_def cur_def Let_def auth_packet_build_def)
next
  case (Some buf)
  then show ?thesis using client_send_eq [OF assms] by simp
qed

lemma client_send_ctx:
  assumes "wf m" and "length (layout m) \<le> 2024"
  shows "snd (client_send t enc m ctx out) = ctx\<lparr>cc_seq := cc_seq ctx + 1\<rparr>"
  using assms enc_fits [of m "replicate 2024 0"] by (simp add: client_send_def cur_def Let_def)

end

lemma header_decode_not_ok: "auth_header_decode b = Fail e \<Longrightarrow> e \<noteq> AUTH_OK"
  by (auto simp: auth_header_decode_def rd_def rdn_def load_u16_le_def Let_def split: option.splits if_splits)

lemma normalize_not_ok: "normalize_wire_error_code code \<noteq> AUTH_OK"
  using normalize_in_cases [of code] by (auto simp: wire_error_cases_def)

lemma parse_error_no_fault: "auth_packet_parse_error p \<noteq> Fault"
  by (auto simp: auth_packet_parse_error_def load_u16_le_def rd_def split: option.splits)

lemma parse_error_not_ok: "auth_packet_parse_error p = Ret (code, msg) \<Longrightarrow> code \<noteq> AUTH_OK"
  using normalize_not_ok
  by (auto simp: auth_packet_parse_error_def bnd_iffs split: option.splits if_splits)

text \<open>The reading of an ERROR packet: an error code, whatever the payload.\<close>

lemma open_error_Fail:
  "\<exists>e. e \<noteq> AUTH_OK \<and>
     (case auth_packet_parse_error p of
        Ret (code, msg) \<Rightarrow> Fail code | Fail e \<Rightarrow> Fail AUTH_ERR_UNSPECIFIED | Fault \<Rightarrow> Fault) =
     (Fail e :: (auth_err, 'a) cres)"
  using parse_error_no_fault [of p] parse_error_not_ok [of p]
  by (cases "auth_packet_parse_error p") auto

lemma client_open_cases:
  assumes "t \<noteq> AUTH_PKT_ERROR"
  shows "(\<exists>e. e \<noteq> AUTH_OK \<and> client_open t inp = Fail e) \<and> (\<nexists>h p. auth_header_decode inp = Ret (h, p) \<and> hdr_pkt_type h = t) \<or>
    (\<exists>h p. auth_header_decode inp = Ret (h, p) \<and> hdr_pkt_type h = t \<and> client_open t inp = Ret (h, p))"
proof (cases "auth_header_decode inp")
  case Fault
  then show ?thesis using header_decode_no_fault by simp
next
  case (Fail e)
  then show ?thesis using header_decode_not_ok [OF Fail] by (simp add: client_open_def)
next
  case (Ret hp)
  obtain h p where hp: "hp = (h, p)" by fastforce
  have "inp \<noteq> None" using Ret by (cases inp) (simp_all add: auth_header_decode_def)
  then show ?thesis
    using Ret hp assms open_error_Fail [of "Some p"] by (auto simp: client_open_def)
qed

lemma client_open_Ret_iff:
  assumes "t \<noteq> AUTH_PKT_ERROR"
  shows "client_open t inp = Ret (h, p) \<longleftrightarrow>
    wf_header h \<and> AUTH_MIN_SUPPORTED_VERSION \<le> hdr_version h \<and> hdr_pkt_type h = t \<and>
    inp = Some (header_layout h @ p)"
proof -
  have "client_open t inp = Ret (h, p) \<longleftrightarrow> auth_header_decode inp = Ret (h, p) \<and> hdr_pkt_type h = t"
    using client_open_cases [OF assms, of inp] by auto
  then show ?thesis
    by (cases inp) (auto simp: header_decode_Ret_iff, simp add: auth_header_decode_def)
qed

lemma client_open_no_fault: "t \<noteq> AUTH_PKT_ERROR \<Longrightarrow> client_open t inp \<noteq> Fault"
  using client_open_cases [of t inp] by auto

lemma client_open_not_ok: "t \<noteq> AUTH_PKT_ERROR \<Longrightarrow> client_open t inp = Fail e \<Longrightarrow> e \<noteq> AUTH_OK"
  using client_open_cases [of t inp] by auto

lemma client_open_packet:
  "length sid = 16 \<Longrightarrow> t \<noteq> AUTH_PKT_ERROR \<Longrightarrow>
   client_open t (Some (packet t sid seq p)) = Ret (packet_header t sid seq, p)"
  by (simp add: client_open_Ret_iff)

subsection \<open>Sizes and memory safety of the pieces\<close>

lemma point_result_no_fault [simp]: "point_result r \<noteq> Fault"
  by (simp add: point_result_def split: option.split)

lemma group_ops_no_fault [simp]:
  "auth_scalarmult_base S s \<noteq> Fault" "auth_scalarmult S s p \<noteq> Fault" "auth_point_add S p q \<noteq> Fault"
  "auth_point_sub S p q \<noteq> Fault" "auth_attr_h S \<noteq> Fault"
  by (simp_all add: auth_scalarmult_base_def auth_scalarmult_def auth_point_add_def auth_point_sub_def
      auth_attr_h_def auth_hash_to_point_def)

lemma check_point_no_fault [simp]: "auth_check_point S p \<noteq> Fault"
  by (simp add: auth_check_point_def)

text \<open>A verifier returns an answer on every input of the right sizes.\<close>

lemma or_zero_Ret: "r \<noteq> Fault \<Longrightarrow> (\<And>x. r = Ret x \<Longrightarrow> \<exists>b. k x = Ret b) \<Longrightarrow> \<exists>b. or_zero r k = Ret b"
  by (cases r) (auto simp: or_zero_def)

lemma schnorr_check_Ret: "\<exists>b. schnorr_check S c pub p = Ret b"
  unfolding schnorr_check_def g_times_def p_times_def by (intro or_zero_Ret) simp_all

lemma verify_auth_server_Ret:
  "wf_proof p \<Longrightarrow> length pub = 32 \<Longrightarrow> length ns = 32 \<Longrightarrow> length es = 32 \<Longrightarrow>
   \<exists>b. auth_verify_auth_server S p pub ns es = Ret b"
  using auth_server.verify_eq [of p "(ns, es)" pub S] schnorr_check_Ret by simp

lemma verify_setup_server_Ret:
  "wf_proof p \<Longrightarrow> length pub = 32 \<Longrightarrow> wf_setup_ctx (did, dpub, nc, ns, ch) \<Longrightarrow>
   \<exists>b. auth_verify_setup_server S p pub did dpub nc ns ch = Ret b"
  using setup_server.verify_eq [of p "(did, dpub, nc, ns, ch)" pub S] schnorr_check_Ret by simp

lemma scalarmult_length:
  assumes R: "ristretto255 S enc" and "length s = 32" and "auth_scalarmult S s p = Ret q"
  shows "length q = 32"
proof (cases "p \<in> range enc")
  case True
  then show ?thesis using assms by (auto simp: point_mult [OF R] length_enc [OF R] split: if_splits)
next
  case False
  then show ?thesis using assms(3) by (simp add: point_mult_invalid [OF R])
qed

lemma length_pid [simp]: "ristretto255 S enc \<Longrightarrow> length (auth_compute_pid S dp nc ec sp) = 32"
  by (simp add: auth_compute_pid_def Let_def sodium_digests)

lemma length_hmac_tag [simp]: "ristretto255 S enc \<Longrightarrow> length (auth_hmac_tag S k l th) = 32"
  by (simp add: auth_hmac_tag_def sodium_digests)

lemma length_random_scalar [simp]:
  "ristretto255 S enc \<Longrightarrow> length wide = 64 \<Longrightarrow> length (auth_random_scalar S wide) = 32"
  by (simp add: auth_random_scalar_def reduce_sc)

text \<open>The keys both peers derive from the shared point.\<close>

definition session_key_of ::
    "sodium \<Rightarrow> byte list \<Rightarrow> byte list \<Rightarrow> byte list \<Rightarrow> byte list \<Rightarrow> byte list \<Rightarrow> byte list \<Rightarrow> byte list" where
  "session_key_of S shared nonce_c nonce_s pid eph_c eph_s =
     rfc5869 S (nonce_c @ nonce_s) shared (ascii ''session key v2'' @ pid @ eph_c @ eph_s) 32"

definition kc_key_of :: "sodium \<Rightarrow> string \<Rightarrow> byte list \<Rightarrow> byte list \<Rightarrow> byte list" where
  "kc_key_of S label key th = rfc5869 S th key (ascii label) 32"

lemma length_session_key_of [simp]:
  "ristretto255 S enc \<Longrightarrow> length (session_key_of S shared nc ns pid ec es) = 32"
  "ristretto255 S enc \<Longrightarrow> length (kc_key_of S label key th) = 32"
  by (simp_all add: session_key_of_def kc_key_of_def length_rfc5869 ristretto255_digests)

lemma derive_session_key_cases:
  assumes R: "ristretto255 S enc" and "length sk = 32" "length nc = 32" "length ns = 32" "length pid = 32"
    "length ec = 32" "length es = 32"
  shows "auth_derive_session_key S sk peer nc ns pid ec es =
    bnd (auth_scalarmult S sk peer) (\<lambda>shared. Ret (session_key_of S shared nc ns pid ec es))"
proof (cases "auth_scalarmult S sk peer")
  case (Ret shared)
  then show ?thesis
    using session_key_eq [OF ristretto255_digests [OF R] Ret scalarmult_length [OF R assms(2) Ret]] assms
    by (simp add: session_key_of_def)
qed (simp_all add: auth_derive_session_key_def)

lemma derive_kc_keys_of:
  "ristretto255 S enc \<Longrightarrow> length key = 32 \<Longrightarrow> length th = 32 \<Longrightarrow>
   auth_derive_kc_keys S key th = Ret (kc_key_of S ''kc s2c'' key th, kc_key_of S ''kc c2s'' key th)"
  by (simp add: kc_keys_eq ristretto255_digests kc_key_of_def)

subsection \<open>Receiving AUTH_2\<close>

text \<open>What the client checks of a decoded AUTH_2 message and the state it derives.\<close>

definition auth2_keys :: "sodium \<Rightarrow> auth_client_ctx \<Rightarrow> auth_auth2 \<Rightarrow> byte list \<Rightarrow> auth_client_ctx" where
  "auth2_keys S ctx a2 shared =
     (let pid = auth_compute_pid S (cc_device_pub ctx) (cc_client_nonce ctx) (cc_eph_c ctx) (cc_server_pub_pinned ctx);
          key = session_key_of S shared (cc_client_nonce ctx) (a2_nonce_s a2) pid (cc_eph_c ctx) (a2_eph_s a2);
          th = sd_sha256 S (tr_kc pid (cc_pending_client_proof ctx) (cc_client_nonce ctx) (cc_eph_c ctx)
                 (a2_server_pub a2) (a2_server_proof a2) (a2_nonce_s a2) (a2_eph_s a2))
      in ctx\<lparr>cc_session_key := key, cc_kc_th := th, cc_kc_k_s2c := kc_key_of S ''kc s2c'' key th,
             cc_kc_k_c2s := kc_key_of S ''kc c2s'' key th\<rparr>)"

definition auth2_valid :: "sodium \<Rightarrow> auth_client_ctx \<Rightarrow> auth_auth2 \<Rightarrow> bool" where
  "auth2_valid S ctx a2 \<longleftrightarrow>
     auth_check_point S (a2_server_pub a2) = Ret () \<and> auth_check_point S (a2_eph_s a2) = Ret () \<and>
     a2_server_pub a2 = cc_server_pub_pinned ctx \<and>
     auth_verify_auth_server S (a2_server_proof a2) (a2_server_pub a2) (a2_nonce_s a2) (a2_eph_s a2) = Ret True"

lemma handle_auth2_decoded:
  assumes R: "ristretto255 S enc" and ctx: "wf_client ctx" and a2: "wf_auth2 a2" and v: "auth2_valid S ctx a2"
    and inp: "client_open AUTH_PKT_AUTH_2 inp = Ret (h, auth2_layout a2)" and sid: "hdr_session_id h = cc_session_id ctx"
  shows "auth_client_handle_auth2 S ctx inp =
    try_c (auth_scalarmult S (cc_eph_secret ctx) (a2_eph_s a2)) ctx (\<lambda>shared.
      let ctx' = auth2_keys S ctx a2 shared in
      if a2_tag_s a2 = auth_hmac_tag S (cc_kc_k_s2c ctx') (ascii ''server finished'') (cc_kc_th ctx')
      then (Ret (), ctx') else (Fail AUTH_ERR_KEY_CONFIRM, ctx'))"
proof -
  have dec: "auth_auth2_decode (Some (auth2_layout a2)) = Ret a2" using auth2.dec_layout [OF a2] by simp
  show ?thesis
    using ctx a2 v
    by (cases "auth_scalarmult S (cc_eph_secret ctx) (a2_eph_s a2)")
      (auto simp: auth_client_handle_auth2_def inp dec sid auth2_valid_def derive_session_key_cases [OF R]
        length_pid [OF R] kc_transcript_eq derive_kc_keys_of [OF R] wf_client_def wf_auth2_def sodium_digests [OF R]
        length_session_key_of [OF R] auth2_keys_def Let_def)
qed

lemma handle_auth2_invalid:
  assumes "wf_client ctx" and "wf_auth2 a2" and "\<not> auth2_valid S ctx a2"
    and "client_open AUTH_PKT_AUTH_2 inp = Ret (h, auth2_layout a2)"
  shows "\<exists>e. e \<in> {AUTH_ERR_UNKNOWN_SESSION, AUTH_ERR_IDENTITY_POINT, AUTH_ERR_INVALID_POINT,
      AUTH_ERR_PEER_KEY_MISMATCH, AUTH_ERR_PROOF_VERIFY} \<and>
    auth_client_handle_auth2 S ctx inp = (Fail e, ctx)"
proof -
  have dec: "auth_auth2_decode (Some (auth2_layout a2)) = Ret a2" using auth2.dec_layout [OF assms(2)] by simp
  obtain b where b: "auth_verify_auth_server S (a2_server_proof a2) (a2_server_pub a2) (a2_nonce_s a2) (a2_eph_s a2) = Ret b"
    using verify_auth_server_Ret [of "a2_server_proof a2" "a2_server_pub a2" "a2_nonce_s a2" "a2_eph_s a2" S] assms(2)
    by (auto simp: wf_auth2_def)
  note open_dec = auth_client_handle_auth2_def assms(4) dec
  consider (session) "hdr_session_id h \<noteq> cc_session_id ctx"
    | (pub) e where "hdr_session_id h = cc_session_id ctx" "auth_check_point S (a2_server_pub a2) = Fail e"
    | (eph) e where "hdr_session_id h = cc_session_id ctx" "auth_check_point S (a2_server_pub a2) = Ret ()"
        "auth_check_point S (a2_eph_s a2) = Fail e"
    | (pin) "hdr_session_id h = cc_session_id ctx" "auth_check_point S (a2_server_pub a2) = Ret ()"
        "auth_check_point S (a2_eph_s a2) = Ret ()" "a2_server_pub a2 \<noteq> cc_server_pub_pinned ctx"
    | (verify) "hdr_session_id h = cc_session_id ctx" "auth_check_point S (a2_server_pub a2) = Ret ()"
        "auth_check_point S (a2_eph_s a2) = Ret ()" "a2_server_pub a2 = cc_server_pub_pinned ctx" "\<not> b"
    using assms(3) b
    by (cases "auth_check_point S (a2_server_pub a2)"; cases "auth_check_point S (a2_eph_s a2)";
        cases "a2_server_pub a2 = cc_server_pub_pinned ctx") (auto simp: auth2_valid_def)
  then show ?thesis
  proof cases
    case (pub e)
    then show ?thesis by (intro exI [of _ e]) (auto simp: open_dec auth_check_point_def split: if_splits)
  next
    case (eph e)
    then show ?thesis by (intro exI [of _ e]) (auto simp: open_dec auth_check_point_def split: if_splits)
  next
    case verify
    then show ?thesis using b by (simp add: open_dec)
  qed (simp_all add: open_dec)
qed

lemma wf_auth2_keys:
  "ristretto255 S enc \<Longrightarrow> wf_client ctx \<Longrightarrow> wf_client (auth2_keys S ctx a2 shared)"
  by (simp add: auth2_keys_def wf_client_def Let_def sodium_digests)

lemma handle_auth2_open_fails:
  "(\<nexists>h p. client_open AUTH_PKT_AUTH_2 inp = Ret (h, p)) \<Longrightarrow>
   \<exists>e. e \<noteq> AUTH_OK \<and> auth_client_handle_auth2 S ctx inp = (Fail e, ctx)"
  using client_open_cases [of AUTH_PKT_AUTH_2 inp] by (auto simp: auth_client_handle_auth2_def)

lemma auth2_decode_Ret_iff:
  "auth_auth2_decode (Some p) = Ret a2 \<longleftrightarrow> wf_auth2 a2 \<and> p = auth2_layout a2"
  using auth2.dec_iff [of p a2] by auto

lemma decoders_not_ok:
  "auth_setup2_decode (Some p) \<noteq> Fail AUTH_OK" "auth_auth2_decode (Some p) \<noteq> Fail AUTH_OK"
  "auth_check_point S q \<noteq> Fail AUTH_OK" "auth_scalarmult S k q \<noteq> Fail AUTH_OK"
  by (auto simp: auth_setup2_decode_def auth_auth2_decode_def take_fixed_def rdn_def reject_trailing_def
      auth_check_point_def auth_scalarmult_def point_result_def split: option.splits)

text \<open>Everything the handler can do with an AUTH_2 packet.\<close>

lemma handle_auth2_cases:
  assumes R: "ristretto255 S enc" and ctx: "wf_client ctx"
  shows "(\<exists>e. e \<noteq> AUTH_OK \<and> auth_client_handle_auth2 S ctx inp = (Fail e, ctx)) \<or>
    (\<exists>h a2 shared. client_open AUTH_PKT_AUTH_2 inp = Ret (h, auth2_layout a2) \<and>
       hdr_session_id h = cc_session_id ctx \<and> wf_auth2 a2 \<and> auth2_valid S ctx a2 \<and>
       auth_scalarmult S (cc_eph_secret ctx) (a2_eph_s a2) = Ret shared \<and>
       (let ctx' = auth2_keys S ctx a2 shared in
        auth_client_handle_auth2 S ctx inp =
          (if a2_tag_s a2 = auth_hmac_tag S (cc_kc_k_s2c ctx') (ascii ''server finished'') (cc_kc_th ctx')
           then (Ret (), ctx') else (Fail AUTH_ERR_KEY_CONFIRM, ctx'))))"
proof (cases "\<exists>h p. client_open AUTH_PKT_AUTH_2 inp = Ret (h, p)")
  case False
  then show ?thesis using handle_auth2_open_fails by blast
next
  case True
  then obtain h p where op: "client_open AUTH_PKT_AUTH_2 inp = Ret (h, p)" by blast
  show ?thesis
  proof (cases "hdr_session_id h = cc_session_id ctx \<and> (\<exists>a2. auth_auth2_decode (Some p) = Ret a2)")
    case False
    then show ?thesis
      using op auth2.dec_no_fault [of "Some p"] decoders_not_ok(2) [of p]
      by (cases "auth_auth2_decode (Some p)") (auto simp: auth_client_handle_auth2_def)
  next
    case True
    then obtain a2 where a2: "wf_auth2 a2" "p = auth2_layout a2" and sid: "hdr_session_id h = cc_session_id ctx"
      using auth2_decode_Ret_iff by blast
    show ?thesis
    proof (cases "auth2_valid S ctx a2")
      case False
      then show ?thesis using handle_auth2_invalid [OF ctx a2(1) False] op a2(2) by blast
    next
      case valid: True
      note dec = handle_auth2_decoded [OF R ctx a2(1) valid op [unfolded a2(2)] sid]
      then show ?thesis
        using a2 sid op valid decoders_not_ok(4) [of S "cc_eph_secret ctx" "a2_eph_s a2"]
        by (cases "auth_scalarmult S (cc_eph_secret ctx) (a2_eph_s a2)") auto
    qed
  qed
qed

subsection \<open>Receiving SETUP_2\<close>

definition tofu_pin :: "auth_client_ctx \<Rightarrow> auth_setup2 \<Rightarrow> auth_client_ctx" where
  "tofu_pin ctx s2 =
     (if cc_has_pinned_server ctx then ctx
      else ctx\<lparr>cc_server_pub_pinned := s2_server_pub s2, cc_has_pinned_server := True\<rparr>)"

lemma setup2_decode_Ret_iff:
  "auth_setup2_decode (Some p) = Ret s2 \<longleftrightarrow> wf_setup2 s2 \<and> p = setup2_layout s2"
  using setup2.dec_iff [of p s2] by auto

lemma handle_setup2_decoded:
  assumes ctx: "wf_client ctx" and s2: "wf_setup2 s2"
    and op: "client_open AUTH_PKT_SETUP_2 inp = Ret (h, setup2_layout s2)"
    and sid: "hdr_session_id h = cc_session_id ctx" and pt: "auth_check_point S (s2_server_pub s2) = Ret ()"
    and key: "cc_has_pinned_server ctx \<and> cc_server_pub_pinned ctx = s2_server_pub s2 \<or>
              \<not> cc_has_pinned_server ctx \<and> allow_tofu"
    and ok: "auth_verify_setup_server S (s2_server_proof s2) (s2_server_pub s2) (cc_device_id ctx) (cc_device_pub ctx)
       (cc_client_nonce ctx) (s2_server_nonce s2) (s2_setup_challenge s2) = Ret ok"
  shows "auth_client_handle_setup2 S ctx inp allow_tofu =
    (if ok then (Ret (), (tofu_pin ctx s2)\<lparr>cc_pending_server_pub := s2_server_pub s2,
                    cc_pending_server_nonce := s2_server_nonce s2,
                    cc_pending_setup_challenge := s2_setup_challenge s2\<rparr>)
     else (Fail AUTH_ERR_PROOF_VERIFY, tofu_pin ctx s2))"
proof -
  have dec: "auth_setup2_decode (Some (setup2_layout s2)) = Ret s2" using setup2.dec_layout [OF s2] by simp
  show ?thesis
    using key by (auto simp: auth_client_handle_setup2_def op dec sid pt ok tofu_pin_def)
qed

lemma wf_handle_setup2:
  assumes "wf_client ctx"
  shows "wf_client (snd (auth_client_handle_setup2 S ctx inp allow_tofu)) \<and>
    fst (auth_client_handle_setup2 S ctx inp allow_tofu) \<noteq> Fault \<and>
    fst (auth_client_handle_setup2 S ctx inp allow_tofu) \<noteq> Fail AUTH_OK"
proof (cases "\<exists>h s2. client_open AUTH_PKT_SETUP_2 inp = Ret (h, setup2_layout s2) \<and> wf_setup2 s2 \<and>
    hdr_session_id h = cc_session_id ctx \<and> auth_check_point S (s2_server_pub s2) = Ret () \<and>
    (cc_has_pinned_server ctx \<and> cc_server_pub_pinned ctx = s2_server_pub s2 \<or> \<not> cc_has_pinned_server ctx \<and> allow_tofu)")
  case True
  then obtain h s2 where op: "client_open AUTH_PKT_SETUP_2 inp = Ret (h, setup2_layout s2)" "wf_setup2 s2"
    "hdr_session_id h = cc_session_id ctx" "auth_check_point S (s2_server_pub s2) = Ret ()"
    "cc_has_pinned_server ctx \<and> cc_server_pub_pinned ctx = s2_server_pub s2 \<or> \<not> cc_has_pinned_server ctx \<and> allow_tofu"
    by blast
  obtain ok where ok: "auth_verify_setup_server S (s2_server_proof s2) (s2_server_pub s2) (cc_device_id ctx) (cc_device_pub ctx)
       (cc_client_nonce ctx) (s2_server_nonce s2) (s2_setup_challenge s2) = Ret ok"
    using verify_setup_server_Ret [of "s2_server_proof s2" "s2_server_pub s2" "cc_device_id ctx" "cc_device_pub ctx"
        "cc_client_nonce ctx" "s2_server_nonce s2" "s2_setup_challenge s2" S] op(2) assms
    by (auto simp: wf_setup2_def wf_client_def)
  show ?thesis
    using assms op(2) by (simp add: handle_setup2_decoded [OF assms op(2,1,3,4,5) ok] tofu_pin_def wf_client_def wf_setup2_def)
next
  case False
  show ?thesis
  proof (cases "client_open AUTH_PKT_SETUP_2 inp")
    case (Ret hp)
    obtain h p where hp: "hp = (h, p)" by fastforce
    show ?thesis
    proof (cases "auth_setup2_decode (Some p)")
      case (Ret s2)
      then have "wf_setup2 s2" "p = setup2_layout s2" using setup2_decode_Ret_iff by blast+
      then show ?thesis
        using assms False Ret \<open>client_open AUTH_PKT_SETUP_2 inp = Ret hp\<close> hp
          decoders_not_ok(3) [of S "s2_server_pub s2"]
        by (cases "auth_check_point S (s2_server_pub s2)") (auto simp: auth_client_handle_setup2_def)
    qed (use assms setup2.dec_no_fault [of "Some p"] decoders_not_ok(1) [of p] Ret hp in \<open>auto simp: auth_client_handle_setup2_def\<close>)
  qed (use assms client_open_cases [of AUTH_PKT_SETUP_2 inp] in \<open>auto simp: auth_client_handle_setup2_def\<close>)
qed

subsection \<open>Properties\<close>

text \<open>C26: The client accepts exactly the AUTH_2 packets of its session that carry the pinned server key with a
  verifying server proof, a usable ephemeral point, and the confirmation tag of the keys the client derives
  itself; the derived keys are then in the context, and nothing else of it has changed.\<close>

theorem auth2_accept_exact:
  assumes "ristretto255 S enc" and "wf_client ctx"
  shows "auth_client_handle_auth2 S ctx inp = (Ret (), ctx') \<longleftrightarrow>
    (\<exists>h a2 shared. inp = Some (header_layout h @ auth2_layout a2) \<and> wf_header h \<and>
       AUTH_MIN_SUPPORTED_VERSION \<le> hdr_version h \<and> hdr_pkt_type h = AUTH_PKT_AUTH_2 \<and>
       hdr_session_id h = cc_session_id ctx \<and> wf_auth2 a2 \<and> auth2_valid S ctx a2 \<and>
       auth_scalarmult S (cc_eph_secret ctx) (a2_eph_s a2) = Ret shared \<and> ctx' = auth2_keys S ctx a2 shared \<and>
       a2_tag_s a2 = auth_hmac_tag S (cc_kc_k_s2c ctx') (ascii ''server finished'') (cc_kc_th ctx'))"
    (is "?l \<longleftrightarrow> ?r")
proof
  assume ?l
  then show ?r
    using handle_auth2_cases [OF assms, of inp]
    by (auto simp: client_open_Ret_iff Let_def split: if_splits)
next
  assume ?r
  then obtain h a2 shared where *: "client_open AUTH_PKT_AUTH_2 inp = Ret (h, auth2_layout a2)"
      "hdr_session_id h = cc_session_id ctx" "wf_auth2 a2" "auth2_valid S ctx a2"
    and r: "auth_scalarmult S (cc_eph_secret ctx) (a2_eph_s a2) = Ret shared" "ctx' = auth2_keys S ctx a2 shared"
      "a2_tag_s a2 = auth_hmac_tag S (cc_kc_k_s2c ctx') (ascii ''server finished'') (cc_kc_th ctx')"
    by (auto simp: client_open_Ret_iff)
  show ?l using handle_auth2_decoded [OF assms *(3,4,1,2)] r by (simp add: Let_def)
qed

definition client_sample :: auth_client_ctx where
  "client_sample =
     \<lparr>cc_device_root = replicate 32 0, cc_device_id = replicate 32 1, cc_device_sk = sc 3, cc_device_pub = toy_enc 3,
      cc_server_pub_pinned = toy_enc 4, cc_has_pinned_server = True, cc_role_commitment = toy_enc 47,
      cc_role_blind = sc 5, cc_role_code = 2, cc_has_role = True, cc_session_id = replicate 16 7, cc_seq = 0,
      cc_client_nonce = replicate 32 2, cc_eph_secret = sc 6, cc_eph_c = toy_enc 6,
      cc_pending_client_proof = zero_proof, cc_pending_server_pub = toy_enc 4,
      cc_pending_server_nonce = replicate 32 3, cc_pending_setup_challenge = replicate 16 4,
      cc_session_key = replicate 32 0, cc_kc_th = replicate 32 0, cc_kc_k_s2c = replicate 32 0,
      cc_kc_k_c2s = replicate 32 0, cc_auth_complete = False\<rparr>"

lemma wf_client_sample: "wf_client client_sample"
  by (simp add: client_sample_def wf_client_def wf_proof_def zero_proof_def length_enc [OF toy_ristretto255])

text \<open>A Schnorr proof for the secret \<open>k\<close> and the commitment \<open>r\<close> when every challenge is 1.\<close>

lemma rewound_schnorr:
  assumes "0 < k" and "k < 1000" and "0 < r" and "r < 1000"
  shows "schnorr_check (rewound_sodium 1) (tr_challenge (rewound_sodium 1) t) (toy_enc k)
    \<lparr>prf_a = toy_enc r, prf_s = sc (r + k)\<rparr> = Ret True"
proof -
  have "1 < group_order" "(r + k) mod group_order = r + k" "k mod group_order = k"
    using assms by (simp_all add: group_order_def)
  moreover have wf: "wf_proof \<lparr>prf_a = toy_enc r, prf_s = sc (r + k)\<rparr>" by (simp add: wf_proof_def toy_enc_def)
  ultimately show ?thesis
    using assms schnorr_check_enc [OF rewound_ristretto canonical_tr_challenge [OF rewound_ristretto] wf, of r _ _ _ k]
    by (simp add: rewound_challenge enc_eq_iff [OF toy_ristretto255] wf_proof_def length_enc [OF toy_ristretto255])
qed

definition auth2_sample :: auth_auth2 where
  "auth2_sample =
     (let a2 = \<lparr>a2_server_pub = toy_enc 4, a2_server_proof = \<lparr>prf_a = toy_enc 2, prf_s = sc 6\<rparr>,
                a2_nonce_s = replicate 32 9, a2_eph_s = toy_enc 8, a2_tag_s = []\<rparr>;
          ctx = auth2_keys (rewound_sodium 1) client_sample a2 (toy_enc 48)
      in a2\<lparr>a2_tag_s := auth_hmac_tag (rewound_sodium 1) (cc_kc_k_s2c ctx) (ascii ''server finished'') (cc_kc_th ctx)\<rparr>)"

lemma toy_check_point: "k mod group_order \<noteq> 0 \<Longrightarrow> auth_check_point (rewound_sodium c) (toy_enc k) = Ret ()"
  using enc_zero [OF rewound_ristretto, symmetric] valid_point_iff [OF rewound_ristretto]
  by (simp add: auth_check_point_def enc_eq_iff [OF toy_ristretto255])

lemma auth2_sample_valid:
  "wf_auth2 auth2_sample" "auth2_valid (rewound_sodium 1) client_sample auth2_sample"
proof -
  have ord: "4 mod group_order \<noteq> 0" "8 mod group_order \<noteq> 0" by (simp_all add: group_order_def)
  have wf: "wf_proof \<lparr>prf_a = toy_enc 2, prf_s = sc 6\<rparr>" by (simp add: wf_proof_def toy_enc_def)
  show "wf_auth2 auth2_sample"
    using wf by (simp add: auth2_sample_def wf_auth2_def Let_def toy_enc_def length_hmac_tag [OF rewound_ristretto])
  have "auth_verify_auth_server (rewound_sodium 1) \<lparr>prf_a = toy_enc 2, prf_s = sc 6\<rparr> (toy_enc 4)
      (replicate 32 9) (toy_enc 8) = Ret True"
    using auth_server.verify_eq [OF wf, of "(replicate 32 9, toy_enc 8)" "toy_enc 4" "rewound_sodium 1"]
      rewound_schnorr [of 4 2] by (simp add: toy_enc_def)
  then show "auth2_valid (rewound_sodium 1) client_sample auth2_sample"
    by (simp add: auth2_valid_def auth2_sample_def Let_def client_sample_def toy_check_point ord)
qed

theorem auth2_accept_exact_witness:
  "auth_client_handle_auth2 (rewound_sodium 1) client_sample
     (Some (header_layout (packet_header AUTH_PKT_AUTH_2 (replicate 16 7) 1) @ auth2_layout auth2_sample)) =
   (Ret (), auth2_keys (rewound_sodium 1) client_sample auth2_sample (toy_enc 48))"
proof -
  have "48 mod group_order \<noteq> 0" "6 mod group_order = 6" by (simp_all add: group_order_def)
  then have "auth_scalarmult (rewound_sodium 1) (sc 6) (toy_enc 8) = Ret (toy_enc 48)"
    by (simp add: point_mult [OF rewound_ristretto] enc_eq_iff [OF toy_ristretto255])
  then have "auth_scalarmult (rewound_sodium 1) (cc_eph_secret client_sample) (a2_eph_s auth2_sample) = Ret (toy_enc 48)"
    by (simp add: client_sample_def auth2_sample_def Let_def)
  moreover have "cc_session_id client_sample = replicate 16 7" by (simp add: client_sample_def)
  moreover have "a2_tag_s auth2_sample = (let ctx = auth2_keys (rewound_sodium 1) client_sample auth2_sample (toy_enc 48)
      in auth_hmac_tag (rewound_sodium 1) (cc_kc_k_s2c ctx) (ascii ''server finished'') (cc_kc_th ctx))"
    by (simp add: auth2_sample_def auth2_keys_def Let_def)
  ultimately show ?thesis
    using auth2_accept_exact [OF rewound_ristretto wf_client_sample, of 1] auth2_sample_valid
    by (auto simp: Let_def intro!: exI [of _ "packet_header AUTH_PKT_AUTH_2 (replicate 16 7) 1"] exI [of _ auth2_sample])
qed

text \<open>C35: Whatever bytes the peer sends, the four client handlers run without an out-of-bounds access and keep
  every field of the context at its size, and the reading of a packet never turns an error into success.\<close>

theorem client_handlers_safe:
  assumes "ristretto255 S enc" and "wf_client ctx"
  shows "list_all (\<lambda>(r, ctx'). r \<noteq> Fault \<and> r \<noteq> Fail AUTH_OK \<and> wf_client ctx')
    [auth_client_handle_setup2 S ctx inp allow_tofu, auth_client_handle_setup_ack ctx inp,
     auth_client_handle_auth2 S ctx inp, auth_client_handle_auth_ack ctx inp]"
proof -
  have setup2: "case auth_client_handle_setup2 S ctx inp allow_tofu of (r, ctx') \<Rightarrow> r \<noteq> Fault \<and> r \<noteq> Fail AUTH_OK \<and> wf_client ctx'"
    using wf_handle_setup2 [OF assms(2), of S inp allow_tofu]
    by (auto simp: split_beta)
  have auth2: "case auth_client_handle_auth2 S ctx inp of (r, ctx') \<Rightarrow> r \<noteq> Fault \<and> r \<noteq> Fail AUTH_OK \<and> wf_client ctx'"
    using handle_auth2_cases [OF assms, of inp] assms(2) wf_auth2_keys [OF assms]
    by (auto simp: Let_def split: if_splits)
  have ack: "auth_ack_decode b \<noteq> Fault" "auth_ack_decode b \<noteq> Fail AUTH_OK" for b
    using ack.dec_no_fault [of b] by (auto simp: auth_ack_decode_def rd_def split: option.splits if_splits)
  have acks: "case auth_client_handle_setup_ack ctx inp of (r, ctx') \<Rightarrow> r \<noteq> Fault \<and> r \<noteq> Fail AUTH_OK \<and> wf_client ctx'"
    "case auth_client_handle_auth_ack ctx inp of (r, ctx') \<Rightarrow> r \<noteq> Fault \<and> r \<noteq> Fail AUTH_OK \<and> wf_client ctx'"
    using client_open_cases [of AUTH_PKT_SETUP_ACK inp] client_open_cases [of AUTH_PKT_AUTH_ACK inp] ack assms(2)
    by (auto simp: auth_client_handle_setup_ack_def auth_client_handle_auth_ack_def wf_client_def try_c_def
        split: cres.splits)
  show ?thesis using setup2 auth2 acks by simp
qed

theorem client_handlers_safe_witness:
  "list_all (\<lambda>(r, ctx'). r \<noteq> Fault \<and> r \<noteq> Fail AUTH_OK \<and> wf_client ctx')
    [auth_client_handle_setup2 toy_sodium client_sample (Some [0x02, 0x7f]) True,
     auth_client_handle_setup_ack client_sample (Some [0x02, 0x7f]),
     auth_client_handle_auth2 toy_sodium client_sample (Some [0x02, 0x7f]),
     auth_client_handle_auth_ack client_sample (Some [0x02, 0x7f])]"
  by (rule client_handlers_safe [OF toy_ristretto255 wf_client_sample])

text \<open>C40: With trust on first use, the server key of a SETUP_2 packet is pinned before its proof is checked: a
  packet whose proof does not verify is refused, but its key stays pinned in the context, and the packet of
  the real server, with another key, is then refused with a key mismatch.\<close>

theorem tofu_pins_before_proof:
  assumes "wf_client ctx" and "\<not> cc_has_pinned_server ctx" and "wf_setup2 s2"
    and "auth_check_point S (s2_server_pub s2) = Ret ()"
    and "auth_verify_setup_server S (s2_server_proof s2) (s2_server_pub s2) (cc_device_id ctx) (cc_device_pub ctx)
       (cc_client_nonce ctx) (s2_server_nonce s2) (s2_setup_challenge s2) = Ret False"
    and "wf_setup2 s2'" and "auth_check_point S (s2_server_pub s2') = Ret ()" and "s2_server_pub s2' \<noteq> s2_server_pub s2"
  shows "\<exists>ctx'. auth_client_handle_setup2 S ctx
        (Some (packet AUTH_PKT_SETUP_2 (cc_session_id ctx) seq (setup2_layout s2))) True = (Fail AUTH_ERR_PROOF_VERIFY, ctx') \<and>
      cc_has_pinned_server ctx' \<and> cc_server_pub_pinned ctx' = s2_server_pub s2 \<and>
      auth_client_handle_setup2 S ctx'
        (Some (packet AUTH_PKT_SETUP_2 (cc_session_id ctx) seq' (setup2_layout s2'))) True =
        (Fail AUTH_ERR_PEER_KEY_MISMATCH, ctx')"
proof -
  let ?ctx = "tofu_pin ctx s2"
  have sid: "length (cc_session_id ctx) = 16" using assms(1) by (simp add: wf_client_def)
  have op: "client_open AUTH_PKT_SETUP_2 (Some (packet AUTH_PKT_SETUP_2 (cc_session_id ctx) q p)) =
      Ret (packet_header AUTH_PKT_SETUP_2 (cc_session_id ctx) q, p)" for q p
    using client_open_packet [OF sid] by simp
  have "auth_client_handle_setup2 S ctx
      (Some (packet AUTH_PKT_SETUP_2 (cc_session_id ctx) seq (setup2_layout s2))) True = (Fail AUTH_ERR_PROOF_VERIFY, ?ctx)"
    using handle_setup2_decoded [OF assms(1,3) op _ assms(4) _ assms(5)] assms(2) by simp
  moreover have "auth_setup2_decode (Some (setup2_layout s2')) = Ret s2'" using setup2.dec_layout [OF assms(6)] by simp
  moreover have "cc_session_id ?ctx = cc_session_id ctx" by (simp add: tofu_pin_def)
  then have "auth_client_handle_setup2 S ?ctx
      (Some (packet AUTH_PKT_SETUP_2 (cc_session_id ctx) seq' (setup2_layout s2'))) True =
      (Fail AUTH_ERR_PEER_KEY_MISMATCH, ?ctx)"
    using assms(2,7,8) calculation by (simp add: auth_client_handle_setup2_def op) (simp add: tofu_pin_def)
  ultimately show ?thesis
    using assms(2) by (intro exI [of _ ?ctx]) (simp add: tofu_pin_def)
qed

definition setup2_sample :: "int \<Rightarrow> auth_setup2" where
  "setup2_sample k =
     \<lparr>s2_server_nonce = replicate 32 5, s2_setup_challenge = replicate 16 6, s2_server_pub = toy_enc k,
      s2_server_proof = zero_proof\<rparr>"

theorem tofu_pins_before_proof_witness:
  "\<exists>ctx'. auth_client_handle_setup2 (rewound_sodium 1) (client_sample\<lparr>cc_has_pinned_server := False\<rparr>)
        (Some (packet AUTH_PKT_SETUP_2 (replicate 16 7) 1 (setup2_layout (setup2_sample 666)))) True =
        (Fail AUTH_ERR_PROOF_VERIFY, ctx') \<and>
      cc_has_pinned_server ctx' \<and> cc_server_pub_pinned ctx' = toy_enc 666 \<and>
      auth_client_handle_setup2 (rewound_sodium 1) ctx'
        (Some (packet AUTH_PKT_SETUP_2 (replicate 16 7) 1 (setup2_layout (setup2_sample 4)))) True =
        (Fail AUTH_ERR_PEER_KEY_MISMATCH, ctx')"
proof -
  let ?ctx = "client_sample\<lparr>cc_has_pinned_server := False\<rparr>"
  have wf: "wf_client ?ctx" using wf_client_sample by (simp add: wf_client_def)
  have wfp: "wf_proof zero_proof" by (simp add: wf_proof_def zero_proof_def)
  then have wfs: "wf_setup2 (setup2_sample k)" for k by (simp add: setup2_sample_def wf_setup2_def toy_enc_def)
  have ord: "666 mod group_order \<noteq> 0" "4 mod group_order \<noteq> 0" "4 mod group_order \<noteq> 666 mod group_order"
    by (simp_all add: group_order_def)
  have "prf_a zero_proof = toy_enc 0" "prf_s zero_proof = sc 0"
    by (simp_all add: zero_proof_def toy_enc_def replicate_zero_sc)
  then have "schnorr_check (rewound_sodium 1) (tr_challenge (rewound_sodium 1) t) (toy_enc 666) zero_proof = Ret False" for t
    using schnorr_check_enc [OF rewound_ristretto canonical_tr_challenge [OF rewound_ristretto] wfp, of 0 1] by simp
  then have "auth_verify_setup_server (rewound_sodium 1) (s2_server_proof (setup2_sample 666)) (s2_server_pub (setup2_sample 666))
      (cc_device_id ?ctx) (cc_device_pub ?ctx) (cc_client_nonce ?ctx) (s2_server_nonce (setup2_sample 666))
      (s2_setup_challenge (setup2_sample 666)) = Ret False"
    using setup_server.verify_eq [OF wfp, of "(replicate 32 1, toy_enc 3, replicate 32 2, replicate 32 5, replicate 16 6)"
        "toy_enc 666" "rewound_sodium 1"]
    by (simp add: client_sample_def setup2_sample_def toy_enc_def)
  from tofu_pins_before_proof [OF wf _ wfs _ this wfs, of 4 1 1]
  show ?thesis
    using ord by (simp add: setup2_sample_def toy_check_point enc_eq_iff [OF toy_ristretto255] client_sample_def)
qed

end
