(* ===== verification/ServerProto.thy ===== *)
theory ServerProto
  imports ClientProto
begin

text \<open>
  The server half of \<^verbatim>\<open>c/src/proto/proto.c\<close> (lines 368 to 677). A handler takes the session id and
  sequence number of the packet header, the payload and the server key pair; it returns the
  reply packet and the pending-session record it leaves behind. The registry callback is a
  parameter.
\<close>

subsection \<open>Pending sessions\<close>

record auth_pending_setup =
  ps_session_id :: "byte list"
  ps_device_id :: "byte list"
  ps_device_pub :: "byte list"
  ps_role_commitment :: "byte list"
  ps_client_nonce :: "byte list"
  ps_server_nonce :: "byte list"
  ps_setup_challenge :: "byte list"
  ps_server_pub :: "byte list"
  ps_response_packet :: "byte list"
  ps_response_packet_len :: nat

record auth_pending_auth =
  pa_session_id :: "byte list"
  pa_device_id :: "byte list"
  pa_device_pub :: "byte list"
  pa_pid :: "byte list"
  pa_nonce_c :: "byte list"
  pa_nonce_s :: "byte list"
  pa_eph_c :: "byte list"
  pa_eph_s :: "byte list"
  pa_session_key :: "byte list"
  pa_kc_th :: "byte list"
  pa_kc_k_s2c :: "byte list"
  pa_kc_k_c2s :: "byte list"
  pa_response_packet :: "byte list"
  pa_response_packet_len :: nat

text \<open>\<^verbatim>\<open>memset(pending, 0, sizeof *pending)\<close>\<close>

definition pending_setup_zero :: auth_pending_setup where
  "pending_setup_zero =
     \<lparr>ps_session_id = replicate 16 0, ps_device_id = replicate 32 0, ps_device_pub = replicate 32 0,
      ps_role_commitment = replicate 32 0, ps_client_nonce = replicate 32 0,
      ps_server_nonce = replicate 32 0, ps_setup_challenge = replicate 16 0,
      ps_server_pub = replicate 32 0, ps_response_packet = replicate AUTH_MAX_DATAGRAM 0,
      ps_response_packet_len = 0\<rparr>"

definition pending_auth_zero :: auth_pending_auth where
  "pending_auth_zero =
     \<lparr>pa_session_id = replicate 16 0, pa_device_id = replicate 32 0, pa_device_pub = replicate 32 0,
      pa_pid = replicate 32 0, pa_nonce_c = replicate 32 0, pa_nonce_s = replicate 32 0,
      pa_eph_c = replicate 32 0, pa_eph_s = replicate 32 0, pa_session_key = replicate 32 0,
      pa_kc_th = replicate 32 0, pa_kc_k_s2c = replicate 32 0, pa_kc_k_c2s = replicate 32 0,
      pa_response_packet = replicate AUTH_MAX_DATAGRAM 0, pa_response_packet_len = 0\<rparr>"

text \<open>\<^verbatim>\<open>if (*out_len <= sizeof pending->response_packet) { memcpy(...); ... } return AUTH_OK;\<close>\<close>

definition cache_setup :: "auth_pending_setup \<Rightarrow> cursor \<Rightarrow> (auth_err, cursor) cres \<times> auth_pending_setup" where
  "cache_setup pending = (\<lambda>(out, out_len).
     if out_len \<le> AUTH_MAX_DATAGRAM then
       try_c (wrn (ps_response_packet pending) 0 out out_len) pending (\<lambda>resp.
         (Ret (out, out_len), pending\<lparr>ps_response_packet := resp, ps_response_packet_len := out_len\<rparr>))
     else (Ret (out, out_len), pending))"

definition cache_auth :: "auth_pending_auth \<Rightarrow> cursor \<Rightarrow> (auth_err, cursor) cres \<times> auth_pending_auth" where
  "cache_auth pending = (\<lambda>(out, out_len).
     if out_len \<le> AUTH_MAX_DATAGRAM then
       try_c (wrn (pa_response_packet pending) 0 out out_len) pending (\<lambda>resp.
         (Ret (out, out_len), pending\<lparr>pa_response_packet := resp, pa_response_packet_len := out_len\<rparr>))
     else (Ret (out, out_len), pending))"

subsection \<open>Setup\<close>

text \<open>\<^verbatim>\<open>if (err && err != AUTH_ERR_IDENTITY_POINT) return err;\<close>\<close>

definition check_point_or_identity :: "sodium \<Rightarrow> byte list \<Rightarrow> (auth_err, unit) cres" where
  "check_point_or_identity S p =
     (case auth_check_point S p of
        Fail e \<Rightarrow> if e \<noteq> AUTH_ERR_IDENTITY_POINT then Fail e else Ret ()
      | r \<Rightarrow> r)"

text \<open>\<^verbatim>\<open>memcmp(s1.pairing_token, require, strlen(require))\<close> after the lengths have compared equal.\<close>

definition pairing_token_ok :: "byte list option \<Rightarrow> auth_setup1 \<Rightarrow> bool" where
  "pairing_token_ok require s1 =
     (case require of
        None \<Rightarrow> True
      | Some tok \<Rightarrow>
          s1_pairing_token_len s1 = length tok \<and> take (length tok) (s1_pairing_token s1) = tok)"

definition auth_server_handle_setup1 ::
    "sodium \<Rightarrow> byte list \<Rightarrow> byte list \<Rightarrow> byte list \<Rightarrow> byte list \<Rightarrow> u32 \<Rightarrow> byte list option \<Rightarrow> byte list \<Rightarrow>
     byte list \<Rightarrow> byte list option \<Rightarrow> auth_pending_setup \<Rightarrow> byte list option \<Rightarrow>
     (auth_err, cursor) cres \<times> auth_pending_setup" where
  "auth_server_handle_setup1 S server_nonce setup_challenge wide session_id seq in_payload server_sk
     server_pub require_pairing_token pending out =
     (if in_payload = None \<or> out = None then (Fail AUTH_ERR_INVALID_ARGUMENT, pending)
      else
        try_c (auth_setup1_decode in_payload) pending (\<lambda>s1.
        if \<not> pairing_token_ok require_pairing_token s1 then (Fail AUTH_ERR_PAIRING_TOKEN_BAD, pending)
        else
          try_c (auth_check_point S (s1_device_pub s1)) pending (\<lambda>_.
          try_c (check_point_or_identity S (s1_role_commitment s1)) pending (\<lambda>_.
          let pending = pending_setup_zero
                \<lparr>ps_session_id := session_id, ps_device_id := s1_device_id s1,
                 ps_device_pub := s1_device_pub s1, ps_role_commitment := s1_role_commitment s1,
                 ps_client_nonce := s1_client_nonce s1, ps_server_pub := server_pub,
                 ps_server_nonce := server_nonce, ps_setup_challenge := setup_challenge\<rparr> in
          try_c (auth_prove_setup_server S wide server_sk (s1_device_id s1) (s1_device_pub s1) server_pub
                   (s1_client_nonce s1) (ps_server_nonce pending) (ps_setup_challenge pending)) pending
            (\<lambda>server_proof.
          try_c (auth_setup2_encode
                   (Some \<lparr>s2_server_nonce = ps_server_nonce pending,
                          s2_setup_challenge = ps_setup_challenge pending, s2_server_pub = server_pub,
                          s2_server_proof = server_proof\<rparr>)
                   (Some (replicate AUTH_MAX_PAYLOAD 0))) pending (\<lambda>(payload, payload_len).
          try_c (auth_packet_build AUTH_PKT_SETUP_2 (Some session_id) seq (Some payload) payload_len out)
            pending (cache_setup pending)))))))"

definition auth_server_handle_setup3 ::
    "sodium \<Rightarrow> auth_pending_setup \<Rightarrow> byte list \<Rightarrow> u32 \<Rightarrow> byte list option \<Rightarrow> byte list option \<Rightarrow>
     (auth_err, cursor) cres" where
  "auth_server_handle_setup3 S pending session_id seq in_payload out =
     (if in_payload = None \<or> out = None then Fail AUTH_ERR_INVALID_ARGUMENT
      else if session_id \<noteq> ps_session_id pending then Fail AUTH_ERR_UNKNOWN_SESSION
      else
        bnd (auth_setup3_decode in_payload) (\<lambda>s3.
        bnd (auth_verify_setup_client S (s3_client_proof s3) (ps_device_id pending) (ps_device_pub pending)
               (ps_server_pub pending) (ps_client_nonce pending) (ps_server_nonce pending)
               (ps_setup_challenge pending)) (\<lambda>ok.
        if \<not> ok then Fail AUTH_ERR_PROOF_VERIFY
        else
          bnd (auth_ack_encode (Some (replicate 1 0))) (\<lambda>(ack, ack_len).
          auth_packet_build AUTH_PKT_SETUP_ACK (Some session_id) seq (Some ack) ack_len out))))"

subsection \<open>Authentication\<close>

text \<open>The checks of AUTH_1: everything before the server draws its own randomness. The result is
  the decoded message with the public key of the candidate device.\<close>

definition auth1_checks ::
    "sodium \<Rightarrow> byte list option \<Rightarrow> byte list \<Rightarrow> (byte list option \<Rightarrow> (auth_err, byte list \<times> byte list) cres) \<Rightarrow>
     u64 list option \<Rightarrow> nat \<Rightarrow> (auth_err, auth_auth1 \<times> byte list) cres" where
  "auth1_checks S in_payload server_pub lookup_fn allowed_roles n_allowed =
     bnd (auth_auth1_decode in_payload) (\<lambda>a1.
     bnd (auth_check_point S (a1_eph_c a1)) (\<lambda>_.
     bnd (check_point_or_identity S (a1_c_prime a1)) (\<lambda>_.
     bnd (lookup_fn None) (\<lambda>(device_pub, stored_c).
     bnd (auth_verify_auth_client S (a1_client_proof a1) device_pub (a1_pid a1) (a1_nonce_c a1) (a1_eph_c a1)) (\<lambda>ok.
     if \<not> ok then Fail AUTH_ERR_PROOF_VERIFY
     else if auth_compute_pid S device_pub (a1_nonce_c a1) (a1_eph_c a1) server_pub \<noteq> a1_pid a1
     then Fail AUTH_ERR_PROOF_VERIFY
     else
       bnd (auth_verify_rerandomization S (a1_rerand_proof a1) stored_c (a1_c_prime a1) (a1_pid a1)
              (a1_nonce_c a1) (a1_eph_c a1)) (\<lambda>ok.
       if \<not> ok then Fail AUTH_ERR_PROOF_VERIFY
       else
         bnd (auth_verify_role_set_membership S (Some (a1_branches a1)) (a1_n_branches a1) allowed_roles
                n_allowed (a1_c_prime a1) (a1_pid a1) (a1_nonce_c a1) (a1_eph_c a1)) (\<lambda>ok.
         if \<not> ok then Fail AUTH_ERR_ROLE_NOT_PERMITTED else Ret (a1, device_pub))))))))"

text \<open>The randomness of AUTH_2: ephemeral secret, nonce and the bytes the prover draws.\<close>

record auth2_random =
  rnd_eph_s :: "byte list"
  rnd_nonce_s :: "byte list"
  rnd_server :: "byte list"

definition auth_server_handle_auth1 ::
    "sodium \<Rightarrow> auth2_random \<Rightarrow> byte list \<Rightarrow> u32 \<Rightarrow> byte list option \<Rightarrow> byte list \<Rightarrow> byte list \<Rightarrow>
     (byte list option \<Rightarrow> (auth_err, byte list \<times> byte list) cres) \<Rightarrow> u64 list option \<Rightarrow> nat \<Rightarrow>
     auth_pending_auth \<Rightarrow> byte list option \<Rightarrow> (auth_err, cursor) cres \<times> auth_pending_auth" where
  "auth_server_handle_auth1 S rnd session_id seq in_payload server_sk server_pub lookup_fn allowed_roles
     n_allowed pending out =
     (if in_payload = None \<or> allowed_roles = None \<or> out = None then (Fail AUTH_ERR_INVALID_ARGUMENT, pending)
      else
        try_c (auth1_checks S in_payload server_pub lookup_fn allowed_roles n_allowed) pending
          (\<lambda>(a1, device_pub).
        let eph_s_secret = auth_random_scalar S (rnd_eph_s rnd) in
        try_c (auth_scalarmult_base S eph_s_secret) pending (\<lambda>eph_s.
        let nonce_s = rnd_nonce_s rnd in
        try_c (auth_prove_auth_server S (rnd_server rnd) server_sk nonce_s eph_s) pending (\<lambda>server_proof.
        try_c (auth_derive_session_key S eph_s_secret (a1_eph_c a1) (a1_nonce_c a1) nonce_s (a1_pid a1)
                 (a1_eph_c a1) eph_s) pending (\<lambda>session_key.
        try_c (auth_kc_transcript_hash S (a1_pid a1) (a1_client_proof a1) (a1_nonce_c a1) (a1_eph_c a1)
                 server_pub server_proof nonce_s eph_s) pending (\<lambda>kc_th.
        try_c (auth_derive_kc_keys S session_key kc_th) pending (\<lambda>(k_s2c, k_c2s).
        let tag_s = auth_hmac_tag S k_s2c (ascii ''server finished'') kc_th in
        try_c (auth_auth2_encode
                 (Some \<lparr>a2_server_pub = server_pub, a2_server_proof = server_proof, a2_nonce_s = nonce_s,
                        a2_eph_s = eph_s, a2_tag_s = tag_s\<rparr>)
                 (Some (replicate AUTH_MAX_PAYLOAD 0))) pending (\<lambda>(payload, payload_len).
        try_c (auth_packet_build AUTH_PKT_AUTH_2 (Some session_id) seq (Some payload) payload_len out) pending
          (cache_auth (pending_auth_zero
              \<lparr>pa_session_id := session_id, pa_device_pub := device_pub, pa_pid := a1_pid a1,
               pa_nonce_c := a1_nonce_c a1, pa_nonce_s := nonce_s, pa_eph_c := a1_eph_c a1,
               pa_eph_s := eph_s, pa_session_key := session_key, pa_kc_th := kc_th,
               pa_kc_k_s2c := k_s2c, pa_kc_k_c2s := k_c2s\<rparr>))))))))))"

definition auth_server_handle_auth3 ::
    "sodium \<Rightarrow> auth_pending_auth \<Rightarrow> byte list \<Rightarrow> u32 \<Rightarrow> byte list option \<Rightarrow> byte list option \<Rightarrow>
     (auth_err, cursor) cres" where
  "auth_server_handle_auth3 S pending session_id seq in_payload out =
     (if in_payload = None \<or> out = None then Fail AUTH_ERR_INVALID_ARGUMENT
      else if session_id \<noteq> pa_session_id pending then Fail AUTH_ERR_UNKNOWN_SESSION
      else
        bnd (auth_auth3_decode in_payload) (\<lambda>a3.
        if auth_hmac_tag S (pa_kc_k_c2s pending) (ascii ''client finished'') (pa_kc_th pending) \<noteq> a3_tag_c a3
        then Fail AUTH_ERR_KEY_CONFIRM
        else
          bnd (auth_ack_encode (Some (replicate 1 0))) (\<lambda>(ack, ack_len).
          auth_packet_build AUTH_PKT_AUTH_ACK (Some session_id) seq (Some ack) ack_len out)))"

subsection \<open>Verifiers answer on every input\<close>

lemma verify_auth_client_Ret:
  "wf_proof p \<Longrightarrow> length pub = 32 \<Longrightarrow> length pid = 32 \<Longrightarrow> length nc = 32 \<Longrightarrow> length ec = 32 \<Longrightarrow>
   \<exists>b. auth_verify_auth_client S p pub pid nc ec = Ret b"
  using auth_client.verify_eq [of p "(pid, nc, ec)" pub S] schnorr_check_Ret by simp

lemma verify_setup_client_Ret:
  "wf_proof p \<Longrightarrow> length dpub = 32 \<Longrightarrow> wf_setup_ctx (did, spub, nc, ns, ch) \<Longrightarrow>
   \<exists>b. auth_verify_setup_client S p did dpub spub nc ns ch = Ret b"
  using setup_client.verify_eq [of p "(did, spub, nc, ns, ch)" dpub S] schnorr_check_Ret by simp

lemma verify_rerand_Ret:
  assumes "wf_proof p" and "length c = 32" and "length c' = 32" and "length pid = 32" and "length nc = 32" and "length ec = 32"
  shows "\<exists>b. auth_verify_rerandomization S p c c' pid nc ec = Ret b"
  unfolding auth_verify_rerandomization_def
  using assms by (intro or_zero_Ret) (simp_all add: rerand_challenge_eq wf_proof_def)

lemma loop_not_Fault: "(\<And>x s. x \<in> set xs \<Longrightarrow> f x s \<noteq> Fault) \<Longrightarrow> loop f xs s \<noteq> Fault"
  by (induction xs arbitrary: s) (auto simp: bnd_iffs)

lemma branches_check_Ret: "\<exists>b. branches_check S h ys bs = Ret b"
proof (induction S h ys bs rule: branches_check.induct)
  case (1 S h y ys b bs)
  have "\<exists>ok. branch_check S h y b = Ret ok"
    unfolding branch_check_def by (intro or_zero_Ret) simp_all
  then show ?case using 1 by auto
qed auto

lemma verify_set_Ret:
  assumes "n \<le> length roles" and "m \<le> length bs" and wf: "\<forall>b \<in> set bs. wf_branch b"
    and len: "length c' = 32" "length pid = 32" "length nc = 32" "length ec = 32"
  shows "\<exists>b. auth_verify_role_set_membership S (Some bs) m (Some roles) n c' pid nc ec = Ret b"
proof (cases "m = n \<and> 0 < n \<and> n \<le> 8")
  case True
  let ?bs = "take n bs" and ?rs = "take n roles"
  have "\<forall>a \<in> set (map br_a ?bs). length a = 32" using wf by (auto simp: wf_branch_def dest: in_set_takeD)
  then have ch: "role_set_master_challenge S ?rs n c' (concat (map br_a ?bs)) pid nc ec =
      Ret (tr_challenge S (tr_role_set ?rs c' (map br_a ?bs) pid nc ec))"
    using True assms by (intro master_challenge_eq) simp_all
  have "loop (\<lambda>i Y. bnd (role_Y S ?rs c' i) (\<lambda>y. Ret (Y @ [y]))) [0..<n] [] \<noteq> Fault"
    using True assms(1) by (intro loop_not_Fault) (auto simp: role_Y_def u64_get_def bnd_iffs)
  then have "\<exists>b. or_zero (auth_attr_h S) (\<lambda>h.
        or_zero (loop (\<lambda>i Y. bnd (role_Y S ?rs c' i) (\<lambda>y. Ret (Y @ [y]))) [0..<n] []) (\<lambda>Y.
        or_zero (role_set_master_challenge S ?rs n c' (concat (map br_a ?bs)) pid nc ec) (\<lambda>master_c.
        if \<not> points_equal (fold (\<lambda>b sum. auth_scalar_add S sum (br_c b)) ?bs (replicate 32 0)) master_c then Ret False
        else branches_check S h Y ?bs))) = Ret b"
    using branches_check_Ret by (intro or_zero_Ret) (auto simp: ch)
  then show ?thesis
    using True assms(1,2) by (simp add: auth_verify_role_set_membership_def Let_def)
qed (auto simp: auth_verify_role_set_membership_def)

subsection \<open>What the checks of AUTH_1 establish\<close>

lemma check_or_identity_no_fault [simp]: "check_point_or_identity S p \<noteq> Fault"
  by (auto simp: check_point_or_identity_def split: cres.splits)

lemma auth1_decode_Ret_iff:
  "auth_auth1_decode (Some p) = Ret a1 \<longleftrightarrow> wf_auth1 a1 \<and> auth1_norm a1 = a1 \<and> p = auth1_layout a1"
  using auth1.dec_iff [of p a1] by auto

lemma auth1_checks_Ret_iff:
  "auth1_checks S (Some p) server_pub lookup roles n = Ret (a1, dp) \<longleftrightarrow>
     wf_auth1 a1 \<and> auth1_norm a1 = a1 \<and> p = auth1_layout a1 \<and>
     auth_check_point S (a1_eph_c a1) = Ret () \<and> check_point_or_identity S (a1_c_prime a1) = Ret () \<and>
     (\<exists>stored_c. lookup None = Ret (dp, stored_c) \<and>
        auth_verify_auth_client S (a1_client_proof a1) dp (a1_pid a1) (a1_nonce_c a1) (a1_eph_c a1) = Ret True \<and>
        a1_pid a1 = auth_compute_pid S dp (a1_nonce_c a1) (a1_eph_c a1) server_pub \<and>
        auth_verify_rerandomization S (a1_rerand_proof a1) stored_c (a1_c_prime a1) (a1_pid a1) (a1_nonce_c a1)
          (a1_eph_c a1) = Ret True \<and>
        auth_verify_role_set_membership S (Some (a1_branches a1)) (a1_n_branches a1) roles n (a1_c_prime a1) (a1_pid a1)
          (a1_nonce_c a1) (a1_eph_c a1) = Ret True)" (is "?l \<longleftrightarrow> ?r")
proof
  assume ?l
  then show ?r by (auto simp: auth1_checks_def bnd_iffs auth1_decode_Ret_iff split: if_splits)
next
  assume r: ?r
  then have "auth_auth1_decode (Some p) = Ret a1" by (simp add: auth1_decode_Ret_iff)
  then show ?l using r by (auto simp: auth1_checks_def)
qed

subsection \<open>Replies\<close>

context codec
begin

lemma reply_eq:
  assumes "wf m" and "length (layout m) \<le> 2024" and "length sid = 16"
  shows "try_c (enc (Some m) (Some (replicate 2024 0))) x (\<lambda>(payload, k).
      try_c (auth_packet_build t (Some sid) seq (Some payload) k (Some buf)) x f) =
    (if length buf < 24 + length (layout m) then (Fail AUTH_ERR_BUFFER_TOO_SMALL, x)
     else f (cur buf (packet t sid seq (layout m))))"
  using assms packet_build_cur [of sid "layout m" t seq buf] enc_fits [of m "replicate 2024 0"]
  by (simp add: cur_def split_beta)

end

lemma ack_reply:
  "length sid = 16 \<Longrightarrow>
   bnd (auth_ack_encode (Some (replicate 1 0))) (\<lambda>(ack, k). auth_packet_build t (Some sid) seq (Some ack) k (Some buf)) =
   (if length buf < 25 then Fail AUTH_ERR_BUFFER_TOO_SMALL else Ret (cur buf (packet t sid seq [AUTH_ACK_BYTE])))"
  using packet_build_eq [of sid 1 "[AUTH_ACK_BYTE]" t seq buf] by (simp add: auth_ack_encode_def wr_def)

lemma length_auth2_layout: "wf_auth2 m \<Longrightarrow> length (auth2_layout m) = 160 + 32"
  by (simp add: auth2_layout_def wf_auth2_def wf_proof_def proof_layout_def)

text \<open>The cached copy of the reply: the packet, padded with the zeros of the array.\<close>

definition cached :: "byte list \<Rightarrow> byte list" where
  "cached pkt = pkt @ replicate (AUTH_MAX_DATAGRAM - length pkt) 0"

lemma wrn_cached:
  "length pkt \<le> 2048 \<Longrightarrow> length pkt \<le> length buf \<Longrightarrow>
   wrn (replicate 2048 0) 0 (fst (cur buf pkt)) (length pkt) = (Ret (cached pkt) :: (auth_err, byte list) cres)"
  by (simp add: wrn_def cur_def cached_def)

lemma cache_auth_cur:
  "length pkt \<le> 2048 \<Longrightarrow> length pkt \<le> length buf \<Longrightarrow> pa_response_packet pending = replicate 2048 0 \<Longrightarrow>
   cache_auth pending (cur buf pkt) =
     (Ret (cur buf pkt), pending\<lparr>pa_response_packet := cached pkt, pa_response_packet_len := length pkt\<rparr>)"
  using wrn_cached [of pkt buf] by (simp add: cache_auth_def split_beta) (simp add: cur_def)

lemma cache_setup_cur:
  "length pkt \<le> 2048 \<Longrightarrow> length pkt \<le> length buf \<Longrightarrow> ps_response_packet pending = replicate 2048 0 \<Longrightarrow>
   cache_setup pending (cur buf pkt) =
     (Ret (cur buf pkt), pending\<lparr>ps_response_packet := cached pkt, ps_response_packet_len := length pkt\<rparr>)"
  using wrn_cached [of pkt buf] by (simp add: cache_setup_def split_beta) (simp add: cur_def)

subsection \<open>Memory safety of the pieces\<close>

lemma try_c_no_fault: "r \<noteq> Fault \<Longrightarrow> (\<And>a. r = Ret a \<Longrightarrow> fst (k a) \<noteq> Fault) \<Longrightarrow> fst (try_c r x k) \<noteq> Fault"
  by (cases r) simp_all

lemma bnd_no_fault: "r \<noteq> Fault \<Longrightarrow> (\<And>a. r = Ret a \<Longrightarrow> k a \<noteq> Fault) \<Longrightarrow> bnd r k \<noteq> Fault"
  by (cases r) simp_all

lemma response_length:
  assumes R: "ristretto255 S enc" and "length wide = 64" and "length sk = 32"
  shows "length (auth_scalar_add S (sd_scalar_reduce S wide) (auth_scalar_mul S (tr_challenge S t) sk)) = 32"
  using assms canonical_tr_challenge [OF R, of t]
  by (simp add: reduce_sc [OF R] scalar_mul_sc [OF R] scalar_add_sc [OF R] canonical_def [of "tr_challenge S t"])

lemma prove_auth_server_cases:
  assumes R: "ristretto255 S enc" and "length wide = 64" "length sk = 32" "length ns = 32" "length es = 32"
  shows "auth_prove_auth_server S wide sk ns es \<noteq> Fault \<and> (\<forall>p. auth_prove_auth_server S wide sk ns es = Ret p \<longrightarrow> wf_proof p)"
proof -
  have w: "length (sd_scalar_reduce S wide) = 32" using assms by (simp add: length_reduce)
  note s = response_length [OF R assms(2,3)]
  have ch: "auth_server_challenge S pub a ns es = Ret (tr_challenge S (tr_auth_server pub a ns es))"
    if "auth_scalarmult_base S (sd_scalar_reduce S wide) = Ret a" "auth_scalarmult_base S sk = Ret pub" for pub a
    using base_mult_length [OF R w that(1)] base_mult_length [OF R assms(3) that(2)] assms(4,5)
    by (simp add: auth_server_challenge_eq tr_challenge_def)
  show ?thesis
    using base_mult_length [OF R w]
    by (auto simp: auth_prove_auth_server_def auth_prove_auth_server_with_bytes_def auth_scalar_from_wide_def g_times_def
        bnd_iffs ch s wf_proof_def Let_def)
qed

lemma prove_setup_server_cases:
  assumes R: "ristretto255 S enc" and "length wide = 64" "length sk = 32" "length pub = 32"
    and x: "wf_setup_ctx (did, dpub, nc, ns, ch)"
  shows "auth_prove_setup_server S wide sk did dpub pub nc ns ch \<noteq> Fault \<and>
    (\<forall>p. auth_prove_setup_server S wide sk did dpub pub nc ns ch = Ret p \<longrightarrow> wf_proof p)"
proof -
  have w: "length (sd_scalar_reduce S wide) = 32" using assms by (simp add: length_reduce)
  note s = response_length [OF R assms(2,3)]
  have chal: "setup_server_challenge S did dpub pub a nc ns ch = Ret (tr_challenge S (tr_setup_server did dpub pub a nc ns ch))"
    if "auth_scalarmult_base S (sd_scalar_reduce S wide) = Ret a" for a
    using base_mult_length [OF R w that] x assms(4) by (simp add: setup_server_challenge_eq tr_challenge_def)
  show ?thesis
    using base_mult_length [OF R w]
    by (auto simp: auth_prove_setup_server_def auth_prove_setup_server_with_bytes_def auth_scalar_from_wide_def g_times_def
        bnd_iffs chal s wf_proof_def Let_def)
qed

text \<open>Sizes of the arguments a server hands to its handlers.\<close>

definition wf_pending_setup :: "auth_pending_setup \<Rightarrow> bool" where
  [wf_defs]: "wf_pending_setup p \<longleftrightarrow> length (ps_session_id p) = 16 \<and> length (ps_device_pub p) = 32 \<and>
     length (ps_role_commitment p) = 32 \<and>
     wf_setup_ctx (ps_device_id p, ps_server_pub p, ps_client_nonce p, ps_server_nonce p, ps_setup_challenge p)"

definition wf_lookup :: "(byte list option \<Rightarrow> (auth_err, byte list \<times> byte list) cres) \<Rightarrow> bool" where
  "wf_lookup lookup \<longleftrightarrow>
     (case lookup None of Fault \<Rightarrow> False | Fail e \<Rightarrow> True | Ret (dp, c) \<Rightarrow> length dp = 32 \<and> length c = 32)"

lemma auth1_checks_no_fault:
  assumes "wf_lookup lookup" and "n \<le> length roles"
  shows "auth1_checks S (Some p) server_pub lookup (Some roles) n \<noteq> Fault"
proof (cases "auth_auth1_decode (Some p)")
  case (Ret a1)
  then have wf: "wf_auth1 a1" by (simp add: auth1_decode_Ret_iff)
  show ?thesis
  proof (cases "lookup None")
    case l: (Ret q)
    obtain dp c where q: "q = (dp, c)" by fastforce
    have len: "length dp = 32" "length c = 32" using assms(1) l q by (simp_all add: wf_lookup_def)
    obtain b1 where b1: "auth_verify_auth_client S (a1_client_proof a1) dp (a1_pid a1) (a1_nonce_c a1) (a1_eph_c a1) = Ret b1"
      using verify_auth_client_Ret [of "a1_client_proof a1" dp "a1_pid a1" "a1_nonce_c a1" "a1_eph_c a1" S] wf len
      by (auto simp: wf_auth1_def)
    obtain b2 where b2: "auth_verify_rerandomization S (a1_rerand_proof a1) c (a1_c_prime a1) (a1_pid a1) (a1_nonce_c a1)
        (a1_eph_c a1) = Ret b2"
      using verify_rerand_Ret [of "a1_rerand_proof a1" c "a1_c_prime a1" "a1_pid a1" "a1_nonce_c a1" "a1_eph_c a1" S] wf len
      by (auto simp: wf_auth1_def)
    obtain b3 where b3: "auth_verify_role_set_membership S (Some (a1_branches a1)) (a1_n_branches a1) (Some roles) n
        (a1_c_prime a1) (a1_pid a1) (a1_nonce_c a1) (a1_eph_c a1) = Ret b3"
      using verify_set_Ret [OF assms(2), of "a1_n_branches a1" "a1_branches a1" "a1_c_prime a1" "a1_pid a1"
          "a1_nonce_c a1" "a1_eph_c a1" S] wf
      by (auto simp: wf_auth1_def)
    show ?thesis using Ret l q b1 b2 b3 by (auto simp: auth1_checks_def bnd_iffs)
  qed (use assms(1) Ret in \<open>auto simp: auth1_checks_def wf_lookup_def bnd_iffs\<close>)
qed (use auth1.dec_no_fault in \<open>auto simp: auth1_checks_def\<close>)

lemma length_setup2_layout: "wf_setup2 m \<Longrightarrow> length (setup2_layout m) = 144"
  by (simp add: setup2_layout_def wf_setup2_def wf_proof_def proof_layout_def)

lemma handle_setup1_no_fault:
  assumes R: "ristretto255 S enc" and len: "length sid = 16" "length server_sk = 32" "length server_pub = 32"
    "length server_nonce = 32" "length setup_challenge = 16" "length wide = 64"
  shows "fst (auth_server_handle_setup1 S server_nonce setup_challenge wide sid seq inp server_sk server_pub tok pending out) \<noteq> Fault"
proof (cases "inp = None \<or> out = None")
  case False
  then obtain p buf where [simp]: "inp = Some p" "out = Some buf" by auto
  show ?thesis
  proof (cases "\<exists>s1. auth_setup1_decode (Some p) = Ret s1 \<and> pairing_token_ok tok s1 \<and>
      auth_check_point S (s1_device_pub s1) = Ret () \<and> check_point_or_identity S (s1_role_commitment s1) = Ret ()")
    case True
    then obtain s1 where s1: "auth_setup1_decode (Some p) = Ret s1" "pairing_token_ok tok s1"
      "auth_check_point S (s1_device_pub s1) = Ret ()" "check_point_or_identity S (s1_role_commitment s1) = Ret ()" by blast
    then have wf: "wf_setup1 s1" using setup1.dec_iff by blast
    let ?prove = "auth_prove_setup_server S wide server_sk (s1_device_id s1) (s1_device_pub s1) server_pub (s1_client_nonce s1)
      server_nonce setup_challenge"
    have P: "?prove \<noteq> Fault" "\<And>q. ?prove = Ret q \<Longrightarrow> wf_proof q"
      using prove_setup_server_cases [OF R len(6,2,3), of "s1_device_id s1" "s1_device_pub s1" "s1_client_nonce s1"
          server_nonce setup_challenge] wf len by (auto simp: wf_setup1_def)
    show ?thesis
    proof (cases ?prove)
      case (Ret q)
      let ?s2 = "\<lparr>s2_server_nonce = server_nonce, s2_setup_challenge = setup_challenge, s2_server_pub = server_pub,
                  s2_server_proof = q\<rparr>"
      let ?ps = "pending_setup_zero
                \<lparr>ps_session_id := sid, ps_device_id := s1_device_id s1,
                 ps_device_pub := s1_device_pub s1, ps_role_commitment := s1_role_commitment s1,
                 ps_client_nonce := s1_client_nonce s1, ps_server_pub := server_pub,
                 ps_server_nonce := server_nonce, ps_setup_challenge := setup_challenge\<rparr>"
      have wf2: "wf_setup2 ?s2" using P(2) [OF Ret] len by (simp add: wf_setup2_def)
      have "cache_setup ?ps (cur buf (packet AUTH_PKT_SETUP_2 sid seq (setup2_layout ?s2))) =
        (Ret (cur buf (packet AUTH_PKT_SETUP_2 sid seq (setup2_layout ?s2))), ?ps\<lparr>ps_response_packet :=
           cached (packet AUTH_PKT_SETUP_2 sid seq (setup2_layout ?s2)), ps_response_packet_len := 168\<rparr>)"
        if "168 \<le> length buf"
        using cache_setup_cur [of "packet AUTH_PKT_SETUP_2 sid seq (setup2_layout ?s2)" buf ?ps] that len(1)
          length_setup2_layout [OF wf2] by (simp add: pending_setup_zero_def)
      then show ?thesis
        using s1 Ret setup2.reply_eq [OF wf2 _ len(1), of ?ps AUTH_PKT_SETUP_2 seq buf "cache_setup ?ps"] length_setup2_layout [OF wf2]
        by (auto simp: auth_server_handle_setup1_def Let_def)
    qed (use s1 P(1) in \<open>auto simp: auth_server_handle_setup1_def Let_def\<close>)
  next
    case False
    then show ?thesis
      using setup1.dec_no_fault [of "Some p"]
      by (cases "auth_setup1_decode (Some p)")
        (auto simp: auth_server_handle_setup1_def try_c_def split: cres.splits)
  qed
qed (auto simp: auth_server_handle_setup1_def)

subsection \<open>The reply to an accepted AUTH_1\<close>

definition srv_key :: "sodium \<Rightarrow> auth_auth1 \<Rightarrow> byte list \<Rightarrow> byte list \<Rightarrow> byte list \<Rightarrow> byte list" where
  "srv_key S a1 shared ns es = session_key_of S shared (a1_nonce_c a1) ns (a1_pid a1) (a1_eph_c a1) es"

definition srv_th ::
    "sodium \<Rightarrow> auth_auth1 \<Rightarrow> byte list \<Rightarrow> auth_schnorr_proof \<Rightarrow> byte list \<Rightarrow> byte list \<Rightarrow> byte list" where
  "srv_th S a1 server_pub sp ns es =
     sd_sha256 S (tr_kc (a1_pid a1) (a1_client_proof a1) (a1_nonce_c a1) (a1_eph_c a1) server_pub sp ns es)"

definition srv_auth2 ::
    "sodium \<Rightarrow> auth_auth1 \<Rightarrow> byte list \<Rightarrow> byte list \<Rightarrow> auth_schnorr_proof \<Rightarrow> byte list \<Rightarrow> byte list \<Rightarrow> auth_auth2" where
  "srv_auth2 S a1 server_pub shared sp ns es =
     (let key = srv_key S a1 shared ns es; th = srv_th S a1 server_pub sp ns es in
      \<lparr>a2_server_pub = server_pub, a2_server_proof = sp, a2_nonce_s = ns, a2_eph_s = es,
       a2_tag_s = auth_hmac_tag S (kc_key_of S ''kc s2c'' key th) (ascii ''server finished'') th\<rparr>)"

definition srv_pending ::
    "sodium \<Rightarrow> byte list \<Rightarrow> byte list \<Rightarrow> auth_auth1 \<Rightarrow> byte list \<Rightarrow> byte list \<Rightarrow> auth_schnorr_proof \<Rightarrow> byte list \<Rightarrow> byte list \<Rightarrow>
     byte list \<Rightarrow> auth_pending_auth" where
  "srv_pending S sid dp a1 server_pub shared sp ns es pkt =
     (let key = srv_key S a1 shared ns es; th = srv_th S a1 server_pub sp ns es in
      \<lparr>pa_session_id = sid, pa_device_id = replicate 32 0, pa_device_pub = dp, pa_pid = a1_pid a1,
       pa_nonce_c = a1_nonce_c a1, pa_nonce_s = ns, pa_eph_c = a1_eph_c a1, pa_eph_s = es,
       pa_session_key = key, pa_kc_th = th, pa_kc_k_s2c = kc_key_of S ''kc s2c'' key th,
       pa_kc_k_c2s = kc_key_of S ''kc c2s'' key th, pa_response_packet = cached pkt,
       pa_response_packet_len = length pkt\<rparr>)"

lemma wf_srv_auth2:
  "ristretto255 S enc \<Longrightarrow> wf_proof sp \<Longrightarrow> length server_pub = 32 \<Longrightarrow> length ns = 32 \<Longrightarrow> length es = 32 \<Longrightarrow>
   wf_auth2 (srv_auth2 S a1 server_pub shared sp ns es)"
  by (simp add: srv_auth2_def wf_auth2_def Let_def length_hmac_tag)

lemma handle_auth1_eq:
  assumes R: "ristretto255 S enc" and len: "length sid = 16" "length (rnd_eph_s rnd) = 64" "length (rnd_nonce_s rnd) = 32"
      "length server_pub = 32"
    and chk: "auth1_checks S (Some p) server_pub lookup (Some roles) n = Ret (a1, dp)" and wf: "wf_auth1 a1"
    and eph: "auth_scalarmult_base S (auth_random_scalar S (rnd_eph_s rnd)) = Ret es"
    and sp: "auth_prove_auth_server S (rnd_server rnd) server_sk (rnd_nonce_s rnd) es = Ret sp" and wfp: "wf_proof sp"
    and sh: "auth_scalarmult S (auth_random_scalar S (rnd_eph_s rnd)) (a1_eph_c a1) = Ret shared"
  shows "auth_server_handle_auth1 S rnd sid seq (Some p) server_sk server_pub lookup (Some roles) n pending (Some buf) =
    (if length buf < 216 then (Fail AUTH_ERR_BUFFER_TOO_SMALL, pending)
     else let pkt = packet AUTH_PKT_AUTH_2 sid seq (auth2_layout (srv_auth2 S a1 server_pub shared sp (rnd_nonce_s rnd) es))
          in (Ret (cur buf pkt), srv_pending S sid dp a1 server_pub shared sp (rnd_nonce_s rnd) es pkt))"
proof -
  let ?rs = "auth_random_scalar S (rnd_eph_s rnd)" and ?ns = "rnd_nonce_s rnd"
  have r32: "length ?rs = 32" using len by (simp add: length_random_scalar [OF R])
  have es: "length es = 32" by (rule base_mult_length [OF R r32 eph])
  have a1: "length (a1_pid a1) = 32" "length (a1_nonce_c a1) = 32" "length (a1_eph_c a1) = 32" "wf_proof (a1_client_proof a1)"
    using wf by (simp_all add: wf_auth1_def)
  define key th where "key = srv_key S a1 shared ?ns es" and "th = srv_th S a1 server_pub sp ?ns es"
  let ?a2 = "srv_auth2 S a1 server_pub shared sp ?ns es" and ?k1 = "kc_key_of S ''kc s2c'' key th" and ?k2 = "kc_key_of S ''kc c2s'' key th"
  have sk: "auth_derive_session_key S ?rs (a1_eph_c a1) (a1_nonce_c a1) ?ns (a1_pid a1) (a1_eph_c a1) es = Ret key"
    using derive_session_key_cases [OF R r32 a1(2) len(3) a1(1,3) es] sh by (simp add: key_def srv_key_def)
  have kct: "auth_kc_transcript_hash S (a1_pid a1) (a1_client_proof a1) (a1_nonce_c a1) (a1_eph_c a1) server_pub sp ?ns es = Ret th"
    unfolding th_def srv_th_def using a1 wfp len es by (intro kc_transcript_eq)
  have kc: "auth_derive_kc_keys S key th = Ret (?k1, ?k2)"
    by (intro derive_kc_keys_of [OF R])
      (simp_all add: key_def th_def srv_key_def srv_th_def length_session_key_of [OF R] sodium_digests [OF R])
  have wf2: "wf_auth2 ?a2" using wf_srv_auth2 [OF R wfp len(4,3) es] .
  have a2: "\<lparr>a2_server_pub = server_pub, a2_server_proof = sp, a2_nonce_s = ?ns, a2_eph_s = es,
      a2_tag_s = auth_hmac_tag S ?k1 (ascii ''server finished'') th\<rparr> = ?a2"
    by (simp add: srv_auth2_def key_def th_def Let_def)
  define pend0 where "pend0 = pending_auth_zero
      \<lparr>pa_session_id := sid, pa_device_pub := dp, pa_pid := a1_pid a1, pa_nonce_c := a1_nonce_c a1, pa_nonce_s := ?ns,
       pa_eph_c := a1_eph_c a1, pa_eph_s := es, pa_session_key := key, pa_kc_th := th, pa_kc_k_s2c := ?k1, pa_kc_k_c2s := ?k2\<rparr>"
  let ?pkt = "packet AUTH_PKT_AUTH_2 sid seq (auth2_layout ?a2)"
  have l2: "length (auth2_layout ?a2) = 192" using length_auth2_layout [OF wf2] by simp
  have "auth_server_handle_auth1 S rnd sid seq (Some p) server_sk server_pub lookup (Some roles) n pending (Some buf) =
      try_c (auth_auth2_encode (Some ?a2) (Some (replicate 2024 0))) pending (\<lambda>(payload, k).
        try_c (auth_packet_build AUTH_PKT_AUTH_2 (Some sid) seq (Some payload) k (Some buf)) pending (cache_auth pend0))"
    unfolding auth_server_handle_auth1_def pend0_def a2 [symmetric] by (simp add: chk eph sp sk kct kc Let_def)
  also have "\<dots> = (if length buf < 216 then (Fail AUTH_ERR_BUFFER_TOO_SMALL, pending) else cache_auth pend0 (cur buf ?pkt))"
    using auth2.reply_eq [OF wf2 _ len(1), of pending AUTH_PKT_AUTH_2 seq buf "cache_auth pend0"] l2 by simp
  finally have eq: "auth_server_handle_auth1 S rnd sid seq (Some p) server_sk server_pub lookup (Some roles) n pending (Some buf) =
      (if length buf < 216 then (Fail AUTH_ERR_BUFFER_TOO_SMALL, pending) else cache_auth pend0 (cur buf ?pkt))" .
  have "\<not> length buf < 216 \<Longrightarrow> cache_auth pend0 (cur buf ?pkt) = (Ret (cur buf ?pkt), srv_pending S sid dp a1 server_pub shared sp ?ns es ?pkt)"
    using cache_auth_cur [of ?pkt buf pend0] l2 len(1)
    by (simp add: pend0_def pending_auth_zero_def srv_pending_def key_def [symmetric] th_def [symmetric])
  then show ?thesis by (simp add: eq Let_def)
qed

lemma handle_auth1_no_fault:
  assumes R: "ristretto255 S enc" and len: "length sid = 16" "length server_sk = 32" "length server_pub = 32"
      "length (rnd_eph_s rnd) = 64" "length (rnd_nonce_s rnd) = 32" "length (rnd_server rnd) = 64"
    and lk: "wf_lookup lookup" and n: "n \<le> length roles"
  shows "fst (auth_server_handle_auth1 S rnd sid seq inp server_sk server_pub lookup (Some roles) n pending out) \<noteq> Fault"
proof (cases "inp = None \<or> out = None")
  case False
  then obtain p buf where [simp]: "inp = Some p" "out = Some buf" by auto
  let ?rs = "auth_random_scalar S (rnd_eph_s rnd)"
  have r32: "length ?rs = 32" using len by (simp add: length_random_scalar [OF R])
  note eqs = auth_server_handle_auth1_def Let_def
  show ?thesis
  proof (cases "auth1_checks S (Some p) server_pub lookup (Some roles) n")
    case chk: (Ret q)
    obtain a1 dp where q: "q = (a1, dp)" by fastforce
    have wf: "wf_auth1 a1" using chk q by (simp add: auth1_checks_Ret_iff)
    show ?thesis
    proof (cases "auth_scalarmult_base S ?rs")
      case eph: (Ret es)
      have es: "length es = 32" by (rule base_mult_length [OF R r32 eph])
      note pc = prove_auth_server_cases [OF R len(6,2,5) es]
      show ?thesis
      proof (cases "auth_prove_auth_server S (rnd_server rnd) server_sk (rnd_nonce_s rnd) es")
        case sp: (Ret sp)
        note sk = derive_session_key_cases [OF R r32 _ len(5), of "a1_nonce_c a1" "a1_pid a1" "a1_eph_c a1" es "a1_eph_c a1"]
        show ?thesis
        proof (cases "auth_scalarmult S ?rs (a1_eph_c a1)")
          case sh: (Ret shared)
          then show ?thesis
            using handle_auth1_eq [OF R len(1,4,5,3) chk [unfolded q] wf eph sp _ sh, of seq pending buf] pc sp by (simp add: Let_def)
        qed (use chk q eph sp wf es sk in \<open>auto simp: eqs wf_auth1_def\<close>)
      qed (use chk q eph pc in \<open>auto simp: eqs\<close>)
    qed (use chk q in \<open>auto simp: eqs\<close>)
  qed (use auth1_checks_no_fault [OF lk n] in \<open>auto simp: eqs\<close>)
qed (auto simp: auth_server_handle_auth1_def)

lemma handle_setup3_no_fault:
  assumes "wf_pending_setup pending"
  shows "auth_server_handle_setup3 S pending sid seq inp out \<noteq> Fault"
proof (cases "inp = None \<or> out = None \<or> sid \<noteq> ps_session_id pending")
  case False
  then obtain p buf where [simp]: "inp = Some p" "out = Some buf" "sid = ps_session_id pending" by auto
  show ?thesis
  proof (cases "auth_setup3_decode (Some p)")
    case (Ret s3)
    then have "wf_setup3 s3" using setup3.dec_iff by blast
    then obtain b where "auth_verify_setup_client S (s3_client_proof s3) (ps_device_id pending) (ps_device_pub pending)
               (ps_server_pub pending) (ps_client_nonce pending) (ps_server_nonce pending)
               (ps_setup_challenge pending) = Ret b"
      using verify_setup_client_Ret [of "s3_client_proof s3" "ps_device_pub pending" "ps_device_id pending" "ps_server_pub pending"
          "ps_client_nonce pending" "ps_server_nonce pending" "ps_setup_challenge pending" S] assms
      by (auto simp: wf_setup3_def wf_pending_setup_def)
    then show ?thesis
      using Ret ack_reply [of "ps_session_id pending" AUTH_PKT_SETUP_ACK seq buf] assms
      by (simp add: auth_server_handle_setup3_def wf_pending_setup_def)
  qed (use setup3.dec_no_fault in \<open>auto simp: auth_server_handle_setup3_def\<close>)
qed (auto simp: auth_server_handle_setup3_def)

lemma handle_auth3_no_fault:
  assumes "length (pa_session_id pending) = 16"
  shows "auth_server_handle_auth3 S pending sid seq inp out \<noteq> Fault"
proof (cases "inp = None \<or> out = None \<or> sid \<noteq> pa_session_id pending")
  case False
  then obtain p buf where [simp]: "inp = Some p" "out = Some buf" "sid = pa_session_id pending" by auto
  show ?thesis
    using ack_reply [of "pa_session_id pending" AUTH_PKT_AUTH_ACK seq buf] assms auth3.dec_no_fault [of "Some p"]
    by (cases "auth_auth3_decode (Some p)") (simp_all add: auth_server_handle_auth3_def)
qed (auto simp: auth_server_handle_auth3_def)

lemma handle_auth1_checked:
  "auth_server_handle_auth1 S rnd sid seq (Some p) sk pub lookup roles n pending out = (Ret c, pend) \<Longrightarrow>
   \<exists>a1 dp. auth1_checks S (Some p) pub lookup roles n = Ret (a1, dp)"
  by (cases "auth1_checks S (Some p) pub lookup roles n") (auto simp: auth_server_handle_auth1_def split: if_splits)

lemma cache_auth_Ret:
  "cache_auth pending c0 = (Ret c, pend) \<Longrightarrow>
   pa_session_id pend = pa_session_id pending \<and> pa_pid pend = pa_pid pending \<and> pa_nonce_c pend = pa_nonce_c pending \<and>
   pa_eph_c pend = pa_eph_c pending \<and> pa_device_pub pend = pa_device_pub pending"
  by (cases c0) (auto simp: cache_auth_def try_c_Ret_iff split: if_splits)

lemma handle_auth1_pending:
  assumes "auth_server_handle_auth1 S rnd sid seq (Some p) sk pub lookup roles n pending out = (Ret c, pend)"
    and "auth1_checks S (Some p) pub lookup roles n = Ret (a1, dp)"
  shows "pa_session_id pend = sid \<and> pa_pid pend = a1_pid a1 \<and> pa_nonce_c pend = a1_nonce_c a1 \<and> pa_eph_c pend = a1_eph_c a1 \<and>
    pa_device_pub pend = dp"
  using assms
  by (auto simp: auth_server_handle_auth1_def try_c_Ret_iff Let_def split: if_splits dest!: cache_auth_Ret)

subsection \<open>Properties\<close>

text \<open>C36: The server handlers never access memory outside their buffers, whatever payload a peer sends: the four
  handlers of the protocol end with an error code or a reply for every input.\<close>

theorem server_handlers_safe:
  assumes "ristretto255 S enc" and "length sid = 16" and "length server_sk = 32" and "length server_pub = 32"
    and "length server_nonce = 32" and "length setup_challenge = 16" and "length wide = 64"
    and "length (rnd_eph_s rnd) = 64" and "length (rnd_nonce_s rnd) = 32" and "length (rnd_server rnd) = 64"
    and "wf_lookup lookup" and "n \<le> length roles" and "wf_pending_setup ps" and "length (pa_session_id pa) = 16"
  shows "fst (auth_server_handle_setup1 S server_nonce setup_challenge wide sid seq inp server_sk server_pub tok ps0 out) \<noteq> Fault \<and>
    auth_server_handle_setup3 S ps sid seq inp out \<noteq> Fault \<and>
    fst (auth_server_handle_auth1 S rnd sid seq inp server_sk server_pub lookup (Some roles) n pa0 out) \<noteq> Fault \<and>
    auth_server_handle_auth3 S pa sid seq inp out \<noteq> Fault"
  using assms handle_setup1_no_fault [OF assms(1-7)] handle_setup3_no_fault [OF assms(13)] handle_auth3_no_fault [OF assms(14)]
    handle_auth1_no_fault [OF assms(1-4,8-12)]
  by blast

definition pending_setup_sample :: auth_pending_setup where
  "pending_setup_sample = pending_setup_zero\<lparr>ps_device_pub := toy_enc 3, ps_server_pub := toy_enc 4\<rparr>"

theorem server_handlers_safe_witness:
  "fst (auth_server_handle_setup1 toy_sodium (replicate 32 1) (replicate 16 2) (le_enc 64 5) (replicate 16 7) 1
      (Some [0xff, 1]) (sc 4) (toy_enc 4) None pending_setup_zero (Some [])) \<noteq> Fault \<and>
   auth_server_handle_setup3 toy_sodium pending_setup_sample (replicate 16 7) 1 (Some [0xff, 1]) (Some []) \<noteq> Fault \<and>
   fst (auth_server_handle_auth1 toy_sodium \<lparr>rnd_eph_s = le_enc 64 8, rnd_nonce_s = replicate 32 9, rnd_server = le_enc 64 2\<rparr>
      (replicate 16 7) 1 (Some [0xff, 1]) (sc 4) (toy_enc 4) (\<lambda>_. Ret (toy_enc 3, toy_enc 47)) (Some [2]) 1
      pending_auth_zero (Some [])) \<noteq> Fault \<and>
   auth_server_handle_auth3 toy_sodium pending_auth_zero (replicate 16 7) 1 (Some [0xff, 1]) (Some []) \<noteq> Fault"
  by (rule server_handlers_safe [OF toy_ristretto255])
    (simp_all add: toy_enc_def wf_lookup_def wf_pending_setup_def pending_setup_sample_def pending_setup_zero_def
      pending_auth_zero_def)

text \<open>C13: The server answers AUTH_1 only after all checks: the payload is the encoding of a message with valid points
  whose Schnorr proof verifies for the public key the registry returned, whose pseudonym is the hash of that key with
  the fresh values and this server's key, whose rerandomisation proof links it to the stored commitment, and whose
  role lies in the permitted set; the pending session it leaves is for exactly this message.\<close>

theorem server_auth1_sound:
  assumes "auth_server_handle_auth1 S rnd sid seq (Some p) server_sk server_pub lookup roles n pending out = (Ret c, pend)"
  shows "\<exists>a1 stored_c. p = auth1_layout a1 \<and> wf_auth1 a1 \<and>
    lookup None = Ret (pa_device_pub pend, stored_c) \<and> auth_check_point S (a1_eph_c a1) = Ret () \<and>
    auth_verify_auth_client S (a1_client_proof a1) (pa_device_pub pend) (a1_pid a1) (a1_nonce_c a1) (a1_eph_c a1) = Ret True \<and>
    a1_pid a1 = auth_compute_pid S (pa_device_pub pend) (a1_nonce_c a1) (a1_eph_c a1) server_pub \<and>
    auth_verify_rerandomization S (a1_rerand_proof a1) stored_c (a1_c_prime a1) (a1_pid a1) (a1_nonce_c a1) (a1_eph_c a1) = Ret True \<and>
    auth_verify_role_set_membership S (Some (a1_branches a1)) (a1_n_branches a1) roles n (a1_c_prime a1) (a1_pid a1)
      (a1_nonce_c a1) (a1_eph_c a1) = Ret True \<and>
    pa_session_id pend = sid \<and> pa_pid pend = a1_pid a1 \<and> pa_nonce_c pend = a1_nonce_c a1 \<and> pa_eph_c pend = a1_eph_c a1"
proof -
  obtain a1 dp where chk: "auth1_checks S (Some p) server_pub lookup roles n = Ret (a1, dp)"
    using assms handle_auth1_checked by blast
  have "pa_session_id pend = sid \<and> pa_pid pend = a1_pid a1 \<and> pa_nonce_c pend = a1_nonce_c a1 \<and> pa_eph_c pend = a1_eph_c a1 \<and>
      pa_device_pub pend = dp"
    using assms handle_auth1_pending [OF assms chk] by simp
  then show ?thesis using chk unfolding auth1_checks_Ret_iff by blast
qed

end
