(* ===== verification/Store.thy ===== *)
theory Store
  imports ServerProto
begin

text \<open>
  The filesystem-backed stores of \<^verbatim>\<open>c/src/store/store_fs.c\<close>: atomic file replacement, the credential file of a
  client, the device registry of a server and the server key file.

  The file system is a map from paths to contents, and a call of the code is the sequence of operations it performs on
  it, so that a crash is a prefix of that sequence. What the operating system answers (a failing \<^verbatim>\<open>open\<close>, short or
  interrupted reads and writes, a failing \<^verbatim>\<open>fsync\<close>, \<^verbatim>\<open>close\<close> or \<^verbatim>\<open>rename\<close>) is an argument: the short, interrupted or
  failing answers that come first are listed, and the call after the list transfers all that is left.
\<close>

subsection \<open>Little-endian helpers\<close>

definition w32le :: "u32 \<Rightarrow> byte list" where
  "w32le v = [ucast (v AND 0xff), ucast (drop_bit 8 v AND 0xff), ucast (drop_bit 16 v AND 0xff), ucast (drop_bit 24 v AND 0xff)]"

definition r32le :: "byte list \<Rightarrow> u32" where
  "r32le p = ucast (p ! 0) OR push_bit 8 (ucast (p ! 1)) OR push_bit 16 (ucast (p ! 2)) OR push_bit 24 (ucast (p ! 3))"

definition w64le :: "u64 \<Rightarrow> byte list" where
  "w64le v = map (\<lambda>i. ucast (drop_bit (8 * i) v)) [0..<8]"

definition r64le :: "byte list \<Rightarrow> u64" where
  "r64le p = fold (\<lambda>i v. v OR push_bit (8 * i) (ucast (p ! i))) [0..<8] 0"

lemma w32le_eq: "w32le v = le_bytes 4 v"
  by (simp add: w32le_def le_bytes_4)

lemma r32le_eq: "length p = 4 \<Longrightarrow> r32le p = le_word p"
proof -
  assume "length p = 4"
  then obtain a b c d where "p = [a, b, c, d]" by (auto simp: numeral_eq_Suc length_Suc_conv)
  then show ?thesis by (simp add: r32le_def push_bit_or ac_simps)
qed

lemma w64le_eq: "w64le v = le_bytes 8 v"
  by (simp add: w64le_def le_bytes_def)

lemma r64le_eq: "length p = 8 \<Longrightarrow> r64le p = le_word p"
  using or_loop_le_word [of p 8, where 'a = 64] by (simp add: r64le_def or_loop_def)

lemma r32le_w32le [simp]: "r32le (w32le v) = v"
  by (simp add: r32le_eq w32le_eq le_word_le_bytes)

lemma r64le_w64le [simp]: "r64le (w64le v) = v"
  by (simp add: r64le_eq w64le_eq le_word_le_bytes)

lemma length_wle [simp]: "length (w32le v) = 4" "length (w64le u) = 8"
  by (simp_all add: w32le_eq w64le_eq)

subsection \<open>Files\<close>

type_synonym path = string
type_synonym fs = "path \<Rightarrow> byte list option"

datatype fs_op =
    Fs_create path
  | Fs_append path "byte list"
  | Fs_rename path path
  | Fs_unlink path

fun fs_do :: "fs_op \<Rightarrow> fs \<Rightarrow> fs" where
  "fs_do (Fs_create p) fs = fs(p \<mapsto> [])"
| "fs_do (Fs_append p bs) fs = (case fs p of None \<Rightarrow> fs | Some c \<Rightarrow> fs(p \<mapsto> c @ bs))"
| "fs_do (Fs_rename p q) fs = (case fs p of None \<Rightarrow> fs | Some c \<Rightarrow> fs(q \<mapsto> c, p := None))"
| "fs_do (Fs_unlink p) fs = fs(p := None)"

definition fs_run :: "fs_op list \<Rightarrow> fs \<Rightarrow> fs" where
  "fs_run ops fs = fold fs_do ops fs"

lemma fs_run_simps [simp]: "fs_run [] fs = fs" "fs_run (op # ops) fs = fs_run ops (fs_do op fs)"
  by (simp_all add: fs_run_def)

lemma fs_run_append: "fs_run (xs @ ys) fs = fs_run ys (fs_run xs fs)"
  by (simp add: fs_run_def)

datatype write_result = W_intr | W_error | W_wrote nat

record write_io =
  wio_open :: bool
  wio_writes :: "write_result list"
  wio_fsync :: bool
  wio_close :: bool
  wio_rename :: bool

text \<open>\<^verbatim>\<open>while (off < len) { ssize_t w = write(fd, data + off, len - off); ... }\<close>: the operations, and whether the loop
  ended without an error. A write transfers at most what is left.\<close>

fun write_loop :: "path \<Rightarrow> byte list \<Rightarrow> nat \<Rightarrow> write_result list \<Rightarrow> fs_op list \<times> bool" where
  "write_loop tmp data off ws =
     (if off \<ge> length data then ([], True)
      else
        case ws of
          [] \<Rightarrow> ([Fs_append tmp (drop off data)], True)
        | W_intr # ws \<Rightarrow> write_loop tmp data off ws
        | W_error # ws \<Rightarrow> ([], False)
        | W_wrote n # ws \<Rightarrow>
            let w = min n (length data - off); (ops, ok) = write_loop tmp data (off + w) ws
            in (Fs_append tmp (take w (drop off data)) # ops, ok))"

declare write_loop.simps [simp del]

definition atomic_write :: "write_io \<Rightarrow> path \<Rightarrow> byte list \<Rightarrow> nat \<Rightarrow> fs_op list \<times> (auth_err, unit) cres" where
  "atomic_write io path data len =
     (let tmp = path @ ''.tmp'' in
      if length tmp \<ge> 512 then ([], Fail AUTH_ERR_INVALID_ARGUMENT)
      else if \<not> wio_open io then ([], Fail AUTH_ERR_STORAGE_FAILURE)
      else if length data < len then ([], Fault)
      else
        let (ops, ok) = write_loop tmp (take len data) 0 (wio_writes io); ops = Fs_create tmp # ops in
        if \<not> ok then (ops @ [Fs_unlink tmp], Fail AUTH_ERR_STORAGE_FAILURE)
        else if \<not> wio_fsync io then (ops @ [Fs_unlink tmp], Fail AUTH_ERR_STORAGE_FAILURE)
        else if \<not> wio_close io then (ops @ [Fs_unlink tmp], Fail AUTH_ERR_STORAGE_FAILURE)
        else if \<not> wio_rename io then (ops @ [Fs_unlink tmp], Fail AUTH_ERR_STORAGE_FAILURE)
        else (ops @ [Fs_rename tmp path], Ret ()))"

text \<open>A read returns 0 only at the end of the file: \<open>R_got n\<close> offers \<open>n + 1\<close> bytes.\<close>

datatype read_result = R_intr | R_error | R_got nat

record read_io =
  rio_open :: bool
  rio_reads :: "read_result list"

text \<open>\<^verbatim>\<open>while (off < buf_cap) { ssize_t r = read(fd, buf + off, buf_cap - off); ... }\<close>: the number of bytes read.\<close>

fun read_loop :: "byte list \<Rightarrow> nat \<Rightarrow> nat \<Rightarrow> read_result list \<Rightarrow> (auth_err, nat) cres" where
  "read_loop content buf_cap off rs =
     (if off \<ge> buf_cap then Ret off
      else
        case rs of
          [] \<Rightarrow> Ret (off + min (buf_cap - off) (length content - off))
        | R_intr # rs \<Rightarrow> read_loop content buf_cap off rs
        | R_error # rs \<Rightarrow> Fail AUTH_ERR_STORAGE_FAILURE
        | R_got n # rs \<Rightarrow>
            let r = min (n + 1) (min (buf_cap - off) (length content - off))
            in if r = 0 then Ret off else read_loop content buf_cap (off + r) rs)"

declare read_loop.simps [simp del]

definition read_whole_file :: "read_io \<Rightarrow> fs \<Rightarrow> path \<Rightarrow> nat \<Rightarrow> (auth_err, byte list) cres" where
  "read_whole_file io fs path buf_cap =
     (case fs path of
        None \<Rightarrow> if rio_open io then Fail AUTH_ERR_CREDENTIAL_MISSING else Fail AUTH_ERR_STORAGE_FAILURE
      | Some content \<Rightarrow>
          if \<not> rio_open io then Fail AUTH_ERR_STORAGE_FAILURE
          else bnd (read_loop content buf_cap 0 (rio_reads io)) (\<lambda>n. Ret (take n content)))"

subsection \<open>What the file operations do\<close>

lemma write_loop_content:
  assumes "off \<le> length data" and "fs tmp = Some (take off data)" and "write_loop tmp data off ws = (ops, ok)"
    and "ops' = take k ops"
  shows "\<exists>m \<le> length data. fs_run ops' fs = fs(tmp \<mapsto> take m data) \<and> (ok \<longrightarrow> ops' = ops \<longrightarrow> m = length data)"
  using assms
proof (induction tmp data off ws arbitrary: fs ops ops' k rule: write_loop.induct)
  case (1 tmp data off ws)
  note prems = "1.prems"
  have upd: "fs(tmp \<mapsto> take off data) = fs" using prems(2) by auto
  show ?case
  proof (cases "off \<ge> length data")
    case True
    then have "ops = []" using prems(3) by (simp add: write_loop.simps)
    then show ?thesis using True prems upd by (intro exI [of _ off]) simp
  next
    case False
    show ?thesis
    proof (cases ws)
      case Nil
      then have ops: "ops = [Fs_append tmp (drop off data)]" using prems(3) False by (simp add: write_loop.simps)
      show ?thesis
      proof (cases k)
        case 0
        then show ?thesis using prems ops upd by (intro exI [of _ off]) simp
      next
        case (Suc k')
        then show ?thesis using prems ops by (intro exI [of _ "length data"]) simp
      qed
    next
      case (Cons w ws')
      show ?thesis
      proof (cases w)
        case W_intr
        then have "write_loop tmp data off ws' = (ops, ok)" using prems(3) False Cons by (simp add: write_loop.simps)
        then show ?thesis using "1.IH"(1) [OF False Cons W_intr prems(1), of fs] prems(2,4) by blast
      next
        case W_error
        then have "ops = []" "\<not> ok" using prems(3) False Cons by (simp_all add: write_loop.simps)
        then show ?thesis using prems upd by (intro exI [of _ off]) simp
      next
        case (W_wrote n)
        let ?w = "min n (length data - off)"
        obtain ops1 where rec: "write_loop tmp data (off + ?w) ws' = (ops1, ok)"
          and ops: "ops = Fs_append tmp (take ?w (drop off data)) # ops1"
          using prems(3) False Cons W_wrote by (auto simp: write_loop.simps [of _ _ off] Let_def split: prod.splits)
        show ?thesis
        proof (cases k)
          case 0
          then show ?thesis using prems ops upd by (intro exI [of _ off]) simp
        next
          case (Suc k')
          let ?fs = "fs(tmp \<mapsto> take (off + ?w) data)"
          have "\<exists>m \<le> length data. fs_run (take k' ops1) ?fs = ?fs(tmp \<mapsto> take m data) \<and>
              (ok \<longrightarrow> take k' ops1 = ops1 \<longrightarrow> m = length data)"
            by (rule "1.IH"(2) [OF False Cons W_wrote refl _ _ rec refl]) (use prems(1) in simp_all)
          moreover have "fs_do (Fs_append tmp (take ?w (drop off data))) fs = ?fs"
            using prems(2) by (simp add: take_add)
          ultimately show ?thesis using Suc ops prems(4) by (simp only: take_Suc_Cons fs_run_simps fun_upd_upd list.inject simp_thms)
        qed
      qed
    qed
  qed
qed

lemma fs_run_tmp:
  assumes "fs_run ops (fs(tmp \<mapsto> [])) = fs(tmp \<mapsto> c)" and "tmp \<noteq> path"
  shows "fs_run (Fs_create tmp # ops) fs path = fs path"
    and "fs_run ((Fs_create tmp # ops) @ [Fs_unlink tmp]) fs = fs(tmp := None)"
    and "fs_run ((Fs_create tmp # ops) @ [Fs_rename tmp path]) fs = fs(path \<mapsto> c, tmp := None)"
  using assms by (simp_all add: fs_run_append fun_upd_twist)

lemma atomic_write_loop:
  assumes "write_loop tmp data 0 ws = (ops, ok)"
  shows "\<exists>m. fs_run (take k ops) (fs(tmp \<mapsto> [])) = fs(tmp \<mapsto> take m data) \<and> (ok \<longrightarrow> length ops \<le> k \<longrightarrow> take m data = data)"
  using write_loop_content [OF _ _ assms refl, of "fs(tmp \<mapsto> [])" k] by auto

text \<open>The outcome of an atomic write: the new contents on success, the old contents after an error, and nothing else
  than these two at any point in between.\<close>

lemma atomic_write_cases:
  assumes "atomic_write io path data (length data) = (ops, r)"
  obtains (ok) "r = Ret ()" "fs_run ops fs = fs(path \<mapsto> data, path @ ''.tmp'' := None)"
  | (err) e where "r = Fail e" "e \<in> {AUTH_ERR_INVALID_ARGUMENT, AUTH_ERR_STORAGE_FAILURE}"
      "fs_run ops fs = fs \<or> fs_run ops fs = fs(path @ ''.tmp'' := None)"
proof (cases "length path < 508 \<and> wio_open io")
  case True
  let ?tmp = "path @ ''.tmp''"
  obtain ops1 wok where wl: "write_loop ?tmp data 0 (wio_writes io) = (ops1, wok)" by fastforce
  obtain m where m: "fs_run ops1 (fs(?tmp \<mapsto> [])) = fs(?tmp \<mapsto> take m data)" "wok \<longrightarrow> take m data = data"
    using atomic_write_loop [OF wl, of "length ops1" fs] by auto
  have ne: "?tmp \<noteq> path" by simp
  show thesis
  proof (cases "wok \<and> wio_fsync io \<and> wio_close io \<and> wio_rename io")
    case all: True
    then have "ops = (Fs_create ?tmp # ops1) @ [Fs_rename ?tmp path]" "r = Ret ()"
      using assms True wl by (auto simp: atomic_write_def Let_def)
    then show thesis using ok fs_run_tmp(3) [OF m(1) ne] m(2) all by simp
  next
    case False
    then have "ops = (Fs_create ?tmp # ops1) @ [Fs_unlink ?tmp]" "r = Fail AUTH_ERR_STORAGE_FAILURE"
      using assms True wl by (auto simp: atomic_write_def Let_def split: if_splits)
    then show thesis using err fs_run_tmp(2) [OF m(1) ne] by simp
  qed
next
  case False
  then have "ops = []" "r = Fail AUTH_ERR_INVALID_ARGUMENT \<or> r = Fail AUTH_ERR_STORAGE_FAILURE"
    using assms by (auto simp: atomic_write_def Let_def split: if_splits)
  then show thesis using err by auto
qed

lemma atomic_write_crash:
  assumes "atomic_write io path data (length data) = (ops, r)" and "q \<noteq> path @ ''.tmp''"
  shows "fs_run (take k ops) fs q = fs q \<or> q = path \<and> fs_run (take k ops) fs q = Some data"
proof (cases "ops = [] \<or> k = 0")
  case False
  let ?tmp = "path @ ''.tmp''"
  obtain ops1 wok where wl: "write_loop ?tmp data 0 (wio_writes io) = (ops1, wok)" by fastforce
  obtain last where ops: "ops = (Fs_create ?tmp # ops1) @ [last]" and last: "last = Fs_unlink ?tmp \<or> last = Fs_rename ?tmp path \<and> wok"
    using assms wl False by (auto simp: atomic_write_def Let_def split: if_splits)
  obtain k' where k: "k = Suc k'" using False by (cases k) auto
  have "q \<noteq> ?tmp" using assms(2) by simp
  obtain m where m: "fs_run (take k' ops1) (fs(?tmp \<mapsto> [])) = fs(?tmp \<mapsto> take m data)"
    "wok \<longrightarrow> length ops1 \<le> k' \<longrightarrow> take m data = data" using atomic_write_loop [OF wl] by blast
  show ?thesis
    using ops k last m \<open>q \<noteq> ?tmp\<close>
    by (cases "k' \<le> length ops1") (auto simp: fs_run_append take_Cons' split: if_splits)
qed auto

text \<open>A save that fails never shows the new contents, not even for a moment.\<close>

lemma atomic_write_error_crash:
  assumes "atomic_write io path data (length data) = (ops, r)" and "r \<noteq> Ret ()"
  shows "fs_run (take k ops) fs path = fs path"
proof (cases "ops = [] \<or> k = 0")
  case False
  let ?tmp = "path @ ''.tmp''"
  obtain ops1 wok where wl: "write_loop ?tmp data 0 (wio_writes io) = (ops1, wok)" by fastforce
  have ops: "ops = (Fs_create ?tmp # ops1) @ [Fs_unlink ?tmp]"
    using assms wl False by (auto simp: atomic_write_def Let_def split: if_splits)
  obtain k' where k: "k = Suc k'" using False by (cases k) auto
  obtain m where "fs_run (take k' ops1) (fs(?tmp \<mapsto> [])) = fs(?tmp \<mapsto> take m data)" using atomic_write_loop [OF wl] by blast
  then show ?thesis
    using ops k by (cases "k' \<le> length ops1") (auto simp: fs_run_append take_Cons' split: if_splits)
qed auto

lemma read_loop_cases:
  "off \<le> buf_cap \<Longrightarrow> off \<le> length content \<Longrightarrow>
   read_loop content buf_cap off rs = Fail AUTH_ERR_STORAGE_FAILURE \<or>
   read_loop content buf_cap off rs = Ret (min buf_cap (length content))"
proof (induction content buf_cap off rs rule: read_loop.induct)
  case (1 content buf_cap off rs)
  show ?case
  proof (cases "off \<ge> buf_cap")
    case True
    then show ?thesis using "1.prems" by (simp add: read_loop.simps)
  next
    case False
    show ?thesis
    proof (cases rs)
      case (Cons r rs')
      show ?thesis
      proof (cases r)
        case R_intr
        then show ?thesis
          using "1.IH"(1) [OF False Cons R_intr "1.prems"] False Cons by (simp add: read_loop.simps [of content buf_cap off])
      next
        case R_error
        then show ?thesis using False Cons by (simp add: read_loop.simps)
      next
        case (R_got n)
        let ?r = "min (n + 1) (min (buf_cap - off) (length content - off))"
        show ?thesis
        proof (cases "?r = 0")
          case True
          then have "off = length content" using False "1.prems" by (auto simp: min_def split: if_splits)
          then show ?thesis using False Cons R_got by (simp add: read_loop.simps)
        next
          case r: False
          have step: "read_loop content buf_cap off rs = read_loop content buf_cap (off + ?r) rs'"
            using False Cons R_got r by (subst read_loop.simps) (simp add: Let_def min_def split: if_splits)
          have "off + ?r \<le> buf_cap" "off + ?r \<le> length content" using "1.prems" by linarith+
          then show ?thesis using "1.IH"(2) [OF False Cons R_got refl r] step by simp
        qed
      qed
    qed (use False "1.prems" in \<open>auto simp: read_loop.simps\<close>)
  qed
qed

lemma read_whole_file_cases:
  obtains (missing) "fs path = None" "read_whole_file io fs path cap = Fail AUTH_ERR_CREDENTIAL_MISSING"
  | (failed) "read_whole_file io fs path cap = Fail AUTH_ERR_STORAGE_FAILURE"
  | (content) c where "fs path = Some c" "read_whole_file io fs path cap = Ret (take cap c)"
proof (cases "fs path")
  case None
  then show thesis using missing failed by (cases "rio_open io") (simp_all add: read_whole_file_def)
next
  case (Some c)
  have "take (min cap (length c)) c = take cap c" by (simp add: min_def)
  then show thesis
    using Some failed content read_loop_cases [of 0 cap c "rio_reads io"]
    by (cases "rio_open io") (auto simp: read_whole_file_def)
qed

text \<open>C25: Files are replaced atomically: wherever a save stops (a crash between any two file operations, a short or failing
  write, a failing fsync, close or rename), the target file holds its old contents or the complete new ones and no
  other file but the temporary one has changed; success means the new contents, an error the old ones.\<close>

theorem atomic_write_atomic:
  "(let (ops, r) = atomic_write io path data (length data) in
     (\<forall>k. fs_run (take k ops) fs path \<in> {fs path, Some data}) \<and>
     (\<forall>k q. q \<noteq> path \<longrightarrow> q \<noteq> path @ ''.tmp'' \<longrightarrow> fs_run (take k ops) fs q = fs q) \<and>
     (r = Ret () \<longrightarrow> fs_run ops fs path = Some data) \<and> (r \<noteq> Ret () \<longrightarrow> fs_run ops fs path = fs path) \<and> r \<noteq> Fault)"
proof -
  obtain ops r where w: "atomic_write io path data (length data) = (ops, r)" by fastforce
  have "fs_run (take k ops) fs path \<in> {fs path, Some data}" for k
    using atomic_write_crash [OF w, of path k fs] by auto
  moreover have "fs_run (take k ops) fs q = fs q" if "q \<noteq> path" "q \<noteq> path @ ''.tmp''" for k q
    using atomic_write_crash [OF w that(2), of k fs] that by auto
  moreover have "(r = Ret () \<longrightarrow> fs_run ops fs path = Some data) \<and> (r \<noteq> Ret () \<longrightarrow> fs_run ops fs path = fs path) \<and> r \<noteq> Fault"
    by (rule atomic_write_cases [OF w, of fs]) auto
  ultimately show ?thesis using w by simp
qed

theorem atomic_write_atomic_witness:
  "let (ops, r) = atomic_write \<lparr>wio_open = True, wio_writes = [W_intr, W_wrote 1, W_error], wio_fsync = True, wio_close = True,
       wio_rename = True\<rparr> ''f'' [1, 2, 3] (length [1, 2, 3 :: byte]) in
     (\<forall>k. fs_run (take k ops) [''f'' \<mapsto> [9]] ''f'' \<in> {Some [9], Some [1, 2, 3]}) \<and>
     (r \<noteq> Ret () \<longrightarrow> fs_run ops [''f'' \<mapsto> [9]] ''f'' = Some [9]) \<and> r = Fail AUTH_ERR_STORAGE_FAILURE"
  using atomic_write_atomic [of "\<lparr>wio_open = True, wio_writes = [W_intr, W_wrote 1, W_error], wio_fsync = True, wio_close = True,
       wio_rename = True\<rparr>" "''f''" "[1, 2, 3]" "[''f'' \<mapsto> [9]]"]
  by (simp add: atomic_write_def write_loop.simps Let_def)

subsection \<open>The credential file\<close>

record auth_credentials =
  cr_device_root :: "byte list"
  cr_has_pinned_server :: bool
  cr_server_pub_pinned :: "byte list"
  cr_has_role :: bool
  cr_role_commitment :: "byte list"
  cr_role_blind :: "byte list"
  cr_role_code :: u64

abbreviation (input) CRED_FILE_LEN :: nat where "CRED_FILE_LEN \<equiv> 154"

definition CRED_MAGIC :: "byte list" where
  "CRED_MAGIC = ascii ''IACRED'' @ [0x00, 0x01]"

definition auth_creds_zero :: auth_credentials where
  "auth_creds_zero =
     \<lparr>cr_device_root = replicate 32 0, cr_has_pinned_server = False, cr_server_pub_pinned = replicate 32 0,
      cr_has_role = False, cr_role_commitment = replicate 32 0, cr_role_blind = replicate 32 0, cr_role_code = 0\<rparr>"

definition auth_creds_init_fresh :: "byte list \<Rightarrow> auth_credentials" where
  "auth_creds_init_fresh random = auth_creds_zero\<lparr>cr_device_root := random\<rparr>"

definition auth_creds_load :: "read_io \<Rightarrow> fs \<Rightarrow> path option \<Rightarrow> (auth_err, auth_credentials) cres" where
  "auth_creds_load io fs path =
     (case path of
        None \<Rightarrow> Fail AUTH_ERR_INVALID_ARGUMENT
      | Some path \<Rightarrow>
          bnd (read_whole_file io fs path CRED_FILE_LEN) (\<lambda>buf.
          if length buf \<noteq> CRED_FILE_LEN then Fail AUTH_ERR_REGISTRY_CORRUPT
          else
            bnd (rdn buf 0 8) (\<lambda>magic.
            if magic \<noteq> CRED_MAGIC then Fail AUTH_ERR_REGISTRY_CORRUPT
            else
              bnd (rd buf 8) (\<lambda>version.
              if version \<noteq> 1 then Fail AUTH_ERR_REGISTRY_CORRUPT
              else
                bnd (rd buf 9) (\<lambda>flags.
                bnd (rdn buf 10 32) (\<lambda>device_root.
                bnd (rdn buf 42 32) (\<lambda>server_pub.
                bnd (rdn buf 74 32) (\<lambda>role_commitment.
                bnd (rdn buf 106 32) (\<lambda>role_blind.
                bnd (rdn buf 138 8) (\<lambda>role_code.
                Ret \<lparr>cr_device_root = device_root, cr_has_pinned_server = (flags AND 1 \<noteq> 0),
                     cr_server_pub_pinned = server_pub, cr_has_role = (flags AND 2 \<noteq> 0),
                     cr_role_commitment = role_commitment, cr_role_blind = role_blind,
                     cr_role_code = r64le role_code\<rparr>))))))))))"

text \<open>The buffer \<^verbatim>\<open>auth_creds_save\<close> fills.\<close>

definition creds_bytes :: "auth_credentials \<Rightarrow> (auth_err, byte list) cres" where
  "creds_bytes c =
     bnd (wrn (replicate CRED_FILE_LEN 0) 0 CRED_MAGIC 8) (\<lambda>buf.
     bnd (wr buf 8 1) (\<lambda>buf.
     bnd (wr buf 9 ((if cr_has_pinned_server c then 1 else 0) OR (if cr_has_role c then 2 else 0))) (\<lambda>buf.
     bnd (wrn buf 10 (cr_device_root c) 32) (\<lambda>buf.
     bnd (if cr_has_pinned_server c then wrn buf 42 (cr_server_pub_pinned c) 32 else Ret buf) (\<lambda>buf.
     if cr_has_role c then
       bnd (wrn buf 74 (cr_role_commitment c) 32) (\<lambda>buf.
       bnd (wrn buf 106 (cr_role_blind c) 32) (\<lambda>buf.
       wrn buf 138 (w64le (cr_role_code c)) 8))
     else Ret buf)))))"

definition auth_creds_save ::
    "write_io \<Rightarrow> auth_credentials option \<Rightarrow> path option \<Rightarrow> fs_op list \<times> (auth_err, unit) cres" where
  "auth_creds_save io c path =
     (case (c, path) of
        (Some c, Some path) \<Rightarrow>
          (case creds_bytes c of
             Fault \<Rightarrow> ([], Fault) | Fail e \<Rightarrow> ([], Fail e) | Ret buf \<Rightarrow> atomic_write io path buf CRED_FILE_LEN)
      | _ \<Rightarrow> ([], Fail AUTH_ERR_INVALID_ARGUMENT))"

definition wf_creds :: "auth_credentials \<Rightarrow> bool" where
  [wf_defs]: "wf_creds c \<longleftrightarrow> length (cr_device_root c) = 32 \<and> length (cr_server_pub_pinned c) = 32 \<and>
     length (cr_role_commitment c) = 32 \<and> length (cr_role_blind c) = 32"

text \<open>What the file keeps of the credentials: absent parts read back as zeros.\<close>

definition creds_norm :: "auth_credentials \<Rightarrow> auth_credentials" where
  "creds_norm c =
     (let c = (if cr_has_pinned_server c then c else c\<lparr>cr_server_pub_pinned := replicate 32 0\<rparr>) in
      if cr_has_role c then c
      else c\<lparr>cr_role_commitment := replicate 32 0, cr_role_blind := replicate 32 0, cr_role_code := 0\<rparr>)"

definition creds_flags :: "auth_credentials \<Rightarrow> byte" where
  "creds_flags c = (if cr_has_pinned_server c then 1 else 0) OR (if cr_has_role c then 2 else 0)"

definition creds_layout :: "auth_credentials \<Rightarrow> byte list" where
  "creds_layout c = CRED_MAGIC @ [1, creds_flags c] @ cr_device_root c @ cr_server_pub_pinned c @
     cr_role_commitment c @ cr_role_blind c @ w64le (cr_role_code c) @ replicate 8 0"

lemma length_CRED_MAGIC [simp]: "length CRED_MAGIC = 8"
  by (simp add: CRED_MAGIC_def)

lemma wf_creds_norm: "wf_creds c \<Longrightarrow> wf_creds (creds_norm c)"
  by (simp add: creds_norm_def wf_creds_def Let_def)

lemma length_creds_layout: "wf_creds c \<Longrightarrow> length (creds_layout c) = 154"
  by (simp add: creds_layout_def wf_creds_def)

lemma wr_wrn: "wr buf i v = wrn buf i [v] 1"
  by (simp add: wr_def wrn_def upd_conv_take_nth_drop)

lemma w64le_0: "w64le 0 = replicate 8 0"
  by (simp add: w64le_def map_replicate_const)

lemma creds_bytes_eq:
  assumes "wf_creds c"
  shows "creds_bytes c = Ret (creds_layout (creds_norm c))"
  using assms
  by (simp add: creds_bytes_def wr_wrn wrn_def wf_creds_def creds_layout_def creds_norm_def creds_flags_def Let_def w64le_0
      replicate_append_same replicate_add [symmetric])

lemma creds_flags_bits: "creds_flags c AND 1 \<noteq> 0 \<longleftrightarrow> cr_has_pinned_server c" "creds_flags c AND 2 \<noteq> 0 \<longleftrightarrow> cr_has_role c"
  by (simp_all add: creds_flags_def)

lemma creds_load_layout:
  assumes "wf_creds c" and "read_whole_file io fs path 154 = Ret (creds_layout c)"
  shows "auth_creds_load io fs (Some path) = Ret c"
  using assms creds_flags_bits [of c]
  by (simp add: auth_creds_load_def length_creds_layout rdn_def rd_def)
    (simp add: creds_layout_def wf_creds_def nth_append)

lemma creds_save_eq:
  "wf_creds c \<Longrightarrow> auth_creds_save io (Some c) (Some path) =
     atomic_write io path (creds_layout (creds_norm c)) (length (creds_layout (creds_norm c)))"
  by (simp add: auth_creds_save_def creds_bytes_eq length_creds_layout wf_creds_norm)

text \<open>Credentials survive a save: after a successful save the file loads as the saved credentials (parts whose flag is
  off read back as zeros), unless the operating system refuses the read; after a failed save the load answers as it
  would have before.\<close>

theorem creds_roundtrip:
  assumes "wf_creds c" and "auth_creds_save wio (Some c) (Some path) = (ops, r)"
  shows "(r = Ret () \<longrightarrow> auth_creds_load rio (fs_run ops fs) (Some path) \<in> {Ret (creds_norm c), Fail AUTH_ERR_STORAGE_FAILURE}) \<and>
    (r \<noteq> Ret () \<longrightarrow> auth_creds_load rio (fs_run ops fs) (Some path) = auth_creds_load rio fs (Some path))"
proof -
  have w: "atomic_write wio path (creds_layout (creds_norm c)) (length (creds_layout (creds_norm c))) = (ops, r)"
    using assms by (simp add: creds_save_eq)
  show ?thesis
  proof (cases rule: atomic_write_cases [OF w, of fs, case_names ok err])
    case ok
    then have fs: "fs_run ops fs path = Some (creds_layout (creds_norm c))" by simp
    have "read_whole_file rio (fs_run ops fs) path 154 = Fail AUTH_ERR_STORAGE_FAILURE \<or>
        read_whole_file rio (fs_run ops fs) path 154 = Ret (creds_layout (creds_norm c))"
      by (rule read_whole_file_cases [of "fs_run ops fs" path rio 154]) (use fs length_creds_layout [OF wf_creds_norm [OF assms(1)]] in auto)
    then show ?thesis
      using ok creds_load_layout [OF wf_creds_norm [OF assms(1)]] by (auto simp: auth_creds_load_def)
  next
    case (err e)
    then have "fs_run ops fs path = fs path" by auto
    then show ?thesis using err by (simp add: auth_creds_load_def read_whole_file_def)
  qed
qed

abbreviation (input) good_write :: write_io where
  "good_write \<equiv> \<lparr>wio_open = True, wio_writes = [], wio_fsync = True, wio_close = True, wio_rename = True\<rparr>"

lemma good_write_Ret: "length path < 508 \<Longrightarrow> snd (atomic_write good_write path data (length data)) = Ret ()"
  by (simp add: atomic_write_def Let_def write_loop.simps)

theorem creds_roundtrip_witness:
  "\<exists>ops. auth_creds_save good_write (Some (auth_creds_init_fresh (replicate 32 5))) (Some ''cred'') = (ops, Ret ()) \<and>
     auth_creds_load \<lparr>rio_open = True, rio_reads = []\<rparr> (fs_run ops Map.empty) (Some ''cred'') \<in>
       {Ret (creds_norm (auth_creds_init_fresh (replicate 32 5))), Fail AUTH_ERR_STORAGE_FAILURE}"
proof -
  have wf: "wf_creds (auth_creds_init_fresh (replicate 32 5))"
    by (simp add: wf_creds_def auth_creds_init_fresh_def auth_creds_zero_def)
  obtain ops r where w: "auth_creds_save good_write (Some (auth_creds_init_fresh (replicate 32 5))) (Some ''cred'') = (ops, r)"
    by fastforce
  then have "r = Ret ()"
    using wf good_write_Ret [of "''cred''" "creds_layout (creds_norm (auth_creds_init_fresh (replicate 32 5)))"] by (simp add: creds_save_eq)
  then show ?thesis using w creds_roundtrip [OF wf w] by blast
qed

end
