(* ===== verification/Registry.thy ===== *)
theory Registry
  imports Store
begin

text \<open>
  The server's persistent state in \<^verbatim>\<open>c/src/store/store_fs.c\<close>: the device registry (an array of 256 entries with its file)
  and the key file. The contract of a device store, a map from device ids to public key and role commitment, is stated
  as a locale and the registry meets it.
\<close>

subsection \<open>The device registry\<close>

record auth_registry_entry =
  re_device_id :: "byte list"
  re_device_pub :: "byte list"
  re_role_commitment :: "byte list"

abbreviation (input) AUTH_REGISTRY_MAX_ENTRIES :: nat where "AUTH_REGISTRY_MAX_ENTRIES \<equiv> 256"
abbreviation (input) REG_ENTRY_LEN :: nat where "REG_ENTRY_LEN \<equiv> 96"
abbreviation (input) REG_HEADER_LEN :: nat where "REG_HEADER_LEN \<equiv> 13"

definition REG_MAGIC :: "byte list" where
  "REG_MAGIC = ascii ''IAREG'' @ [0x00, 0x00, 0x01]"

record auth_registry =
  rg_entries :: "auth_registry_entry list"
  rg_n :: nat
  rg_path :: path

definition entry_zero :: auth_registry_entry where
  "entry_zero = \<lparr>re_device_id = replicate 32 0, re_device_pub = replicate 32 0, re_role_commitment = replicate 32 0\<rparr>"

definition registry_zero :: auth_registry where
  "registry_zero = \<lparr>rg_entries = replicate AUTH_REGISTRY_MAX_ENTRIES entry_zero, rg_n = 0, rg_path = []\<rparr>"

definition put_entry :: "auth_registry_entry list \<Rightarrow> nat \<Rightarrow> auth_registry_entry \<Rightarrow> (auth_err, auth_registry_entry list) cres" where
  "put_entry es i e = (if i < length es then Ret (es[i := e]) else Fault)"

definition get_entry :: "auth_registry_entry list \<Rightarrow> nat \<Rightarrow> (auth_err, auth_registry_entry) cres" where
  "get_entry es i = (if i < length es then Ret (es ! i) else Fault)"

text \<open>The body of the loop that reads entry \<open>i\<close> of the file.\<close>

definition read_entry :: "byte list \<Rightarrow> nat \<Rightarrow> auth_registry_entry list \<Rightarrow> (auth_err, auth_registry_entry list) cres" where
  "read_entry buf i es =
     (let p = REG_HEADER_LEN + i * REG_ENTRY_LEN in
      bnd (rdn buf p 32) (\<lambda>device_id.
      bnd (rdn buf (p + 32) 32) (\<lambda>device_pub.
      bnd (rdn buf (p + 64) 32) (\<lambda>role_commitment.
      put_entry es i \<lparr>re_device_id = device_id, re_device_pub = device_pub, re_role_commitment = role_commitment\<rparr>))))"

definition auth_registry_load :: "read_io \<Rightarrow> fs \<Rightarrow> path option \<Rightarrow> (auth_err, auth_registry) cres" where
  "auth_registry_load io fs path =
     (case path of
        None \<Rightarrow> Fail AUTH_ERR_INVALID_ARGUMENT
      | Some path \<Rightarrow>
          if length path + 1 > 256 then Fail AUTH_ERR_INVALID_ARGUMENT
          else
            let reg = registry_zero\<lparr>rg_path := path\<rparr> in
            (case read_whole_file io fs path (REG_HEADER_LEN + AUTH_REGISTRY_MAX_ENTRIES * REG_ENTRY_LEN) of
               Fault \<Rightarrow> Fault
             | Fail e \<Rightarrow> if e = AUTH_ERR_CREDENTIAL_MISSING then Ret reg else Fail e
             | Ret buf \<Rightarrow>
                 if length buf < REG_HEADER_LEN then Fail AUTH_ERR_REGISTRY_CORRUPT
                 else
                   bnd (rdn buf 0 8) (\<lambda>magic.
                   if magic \<noteq> REG_MAGIC then Fail AUTH_ERR_REGISTRY_CORRUPT
                   else
                     bnd (rd buf 8) (\<lambda>version.
                     if version \<noteq> 1 then Fail AUTH_ERR_REGISTRY_CORRUPT
                     else
                       bnd (rdn buf 9 4) (\<lambda>c4.
                       let count = unat (r32le c4) in
                       if count > AUTH_REGISTRY_MAX_ENTRIES then Fail AUTH_ERR_REGISTRY_CORRUPT
                       else if length buf < REG_HEADER_LEN + count * REG_ENTRY_LEN then Fail AUTH_ERR_REGISTRY_CORRUPT
                       else
                         bnd (loop (read_entry buf) [0..<count] (rg_entries reg)) (\<lambda>es.
                         Ret (reg\<lparr>rg_entries := es, rg_n := count\<rparr>)))))))"

definition write_entry :: "auth_registry_entry list \<Rightarrow> nat \<Rightarrow> byte list \<Rightarrow> (auth_err, byte list) cres" where
  "write_entry es i buf =
     (let p = REG_HEADER_LEN + i * REG_ENTRY_LEN in
      bnd (get_entry es i) (\<lambda>e.
      bnd (wrn buf p (re_device_id e) 32) (\<lambda>buf.
      bnd (wrn buf (p + 32) (re_device_pub e) 32) (\<lambda>buf.
      wrn buf (p + 64) (re_role_commitment e) 32))))"

text \<open>The buffer \<^verbatim>\<open>auth_registry_save\<close> fills; \<open>stack\<close> is what the uninitialised array holds.\<close>

definition registry_bytes :: "byte list \<Rightarrow> auth_registry \<Rightarrow> (auth_err, byte list) cres" where
  "registry_bytes stack reg =
     bnd (wrn stack 0 REG_MAGIC 8) (\<lambda>buf.
     bnd (wr buf 8 1) (\<lambda>buf.
     bnd (wrn buf 9 (w32le (of_nat (rg_n reg))) 4) (\<lambda>buf.
     loop (write_entry (rg_entries reg)) [0..<rg_n reg] buf)))"

definition auth_registry_save ::
    "write_io \<Rightarrow> byte list \<Rightarrow> auth_registry option \<Rightarrow> fs_op list \<times> (auth_err, unit) cres" where
  "auth_registry_save io stack reg =
     (case reg of
        None \<Rightarrow> ([], Fail AUTH_ERR_INVALID_ARGUMENT)
      | Some reg \<Rightarrow>
          if rg_path reg = [] then ([], Fail AUTH_ERR_INVALID_ARGUMENT)
          else
            (case registry_bytes stack reg of
               Fault \<Rightarrow> ([], Fault)
             | Fail e \<Rightarrow> ([], Fail e)
             | Ret buf \<Rightarrow> atomic_write io (rg_path reg) buf (REG_HEADER_LEN + rg_n reg * REG_ENTRY_LEN)))"

text \<open>\<^verbatim>\<open>for (i = 0; i < reg->n; ++i) if (memcmp(reg->entries[i].device_id, device_id, 32) == 0) ...\<close>: the index of the
  first match.\<close>

fun find_entry :: "auth_registry_entry list \<Rightarrow> byte list \<Rightarrow> nat \<Rightarrow> nat \<Rightarrow> (auth_err, nat option) cres" where
  "find_entry es device_id i 0 = Ret None"
| "find_entry es device_id i (Suc m) =
     bnd (get_entry es i) (\<lambda>e. if re_device_id e = device_id then Ret (Some i) else find_entry es device_id (Suc i) m)"

definition auth_registry_put ::
    "auth_registry option \<Rightarrow> byte list option \<Rightarrow> byte list option \<Rightarrow> byte list option \<Rightarrow> (auth_err, auth_registry) cres" where
  "auth_registry_put reg device_id device_pub role_commitment =
     (case (reg, device_id, device_pub, role_commitment) of
        (Some reg, Some did, Some dpub, Some rc) \<Rightarrow>
          bnd (find_entry (rg_entries reg) did 0 (rg_n reg)) (\<lambda>found.
          case found of
            Some i \<Rightarrow>
              bnd (get_entry (rg_entries reg) i) (\<lambda>e.
              bnd (put_entry (rg_entries reg) i (e\<lparr>re_device_pub := dpub, re_role_commitment := rc\<rparr>)) (\<lambda>es.
              Ret (reg\<lparr>rg_entries := es\<rparr>)))
          | None \<Rightarrow>
              if rg_n reg \<ge> AUTH_REGISTRY_MAX_ENTRIES then Fail AUTH_ERR_TOO_MANY_ACTIVE
              else
                bnd (put_entry (rg_entries reg) (rg_n reg)
                       \<lparr>re_device_id = did, re_device_pub = dpub, re_role_commitment = rc\<rparr>) (\<lambda>es.
                Ret (reg\<lparr>rg_entries := es, rg_n := rg_n reg + 1\<rparr>)))
      | _ \<Rightarrow> Fail AUTH_ERR_INVALID_ARGUMENT)"

definition auth_registry_get ::
    "auth_registry option \<Rightarrow> byte list option \<Rightarrow> (auth_err, byte list \<times> byte list) cres" where
  "auth_registry_get reg device_id =
     (case (reg, device_id) of
        (Some reg, Some did) \<Rightarrow>
          bnd (find_entry (rg_entries reg) did 0 (rg_n reg)) (\<lambda>found.
          case found of
            Some i \<Rightarrow> bnd (get_entry (rg_entries reg) i) (\<lambda>e. Ret (re_device_pub e, re_role_commitment e))
          | None \<Rightarrow> Fail AUTH_ERR_UNKNOWN_DEVICE)
      | _ \<Rightarrow> Fail AUTH_ERR_INVALID_ARGUMENT)"

text \<open>The scan with its callback: whether the callback accepted an entry, and its state at the end.\<close>

fun scan_from ::
    "('c \<Rightarrow> byte list \<Rightarrow> byte list \<Rightarrow> byte list \<Rightarrow> bool \<times> 'c) \<Rightarrow> auth_registry_entry list \<Rightarrow> nat \<Rightarrow> nat \<Rightarrow> 'c \<Rightarrow>
     (auth_err, bool \<times> 'c) cres" where
  "scan_from fn es i 0 ctx = Ret (False, ctx)"
| "scan_from fn es i (Suc m) ctx =
     bnd (get_entry es i) (\<lambda>e.
     let (r, ctx) = fn ctx (re_device_id e) (re_device_pub e) (re_role_commitment e) in
     if r then Ret (True, ctx) else scan_from fn es (Suc i) m ctx)"

definition auth_registry_scan ::
    "auth_registry option \<Rightarrow> ('c \<Rightarrow> byte list \<Rightarrow> byte list \<Rightarrow> byte list \<Rightarrow> bool \<times> 'c) option \<Rightarrow> 'c \<Rightarrow>
     (auth_err, bool \<times> 'c) cres" where
  "auth_registry_scan reg fn ctx =
     (case (reg, fn) of
        (Some reg, Some fn) \<Rightarrow> scan_from fn (rg_entries reg) 0 (rg_n reg) ctx
      | _ \<Rightarrow> Ret (False, ctx))"

subsection \<open>The server key file\<close>

abbreviation (input) SKEY_FILE_LEN :: nat where "SKEY_FILE_LEN \<equiv> 41"

definition SKEY_MAGIC :: "byte list" where
  "SKEY_MAGIC = ascii ''IASKEY'' @ [0x00, 0x01]"

definition skey_bytes :: "byte list \<Rightarrow> (auth_err, byte list) cres" where
  "skey_bytes server_sk =
     bnd (wrn (replicate SKEY_FILE_LEN 0) 0 SKEY_MAGIC 8) (\<lambda>fresh.
     bnd (wr fresh 8 1) (\<lambda>fresh.
     wrn fresh 9 server_sk 32))"

definition auth_server_key_load_or_create ::
    "sodium \<Rightarrow> byte list \<Rightarrow> read_io \<Rightarrow> write_io \<Rightarrow> fs \<Rightarrow> path option \<Rightarrow> fs_op list \<times> (auth_err, byte list) cres" where
  "auth_server_key_load_or_create S random rio wio fs path =
     (case path of
        None \<Rightarrow> ([], Fail AUTH_ERR_INVALID_ARGUMENT)
      | Some path \<Rightarrow>
          (case read_whole_file rio fs path SKEY_FILE_LEN of
             Ret buf \<Rightarrow>
               ([], if length buf \<noteq> SKEY_FILE_LEN then Fail AUTH_ERR_REGISTRY_CORRUPT
                    else
                      bnd (rdn buf 0 8) (\<lambda>magic.
                      if magic \<noteq> SKEY_MAGIC then Fail AUTH_ERR_REGISTRY_CORRUPT
                      else
                        bnd (rd buf 8) (\<lambda>version.
                        if version \<noteq> 1 then Fail AUTH_ERR_REGISTRY_CORRUPT else rdn buf 9 32)))
           | Fault \<Rightarrow> ([], Fault)
           | Fail e \<Rightarrow>
               if e \<noteq> AUTH_ERR_CREDENTIAL_MISSING then ([], Fail e)
               else
                 let server_sk = auth_random_scalar S random in
                 (case skey_bytes server_sk of
                    Fault \<Rightarrow> ([], Fault)
                  | Fail e \<Rightarrow> ([], Fail e)
                  | Ret fresh \<Rightarrow>
                      let (ops, r) = atomic_write wio path fresh SKEY_FILE_LEN in (ops, bnd r (\<lambda>_. Ret server_sk)))))"

subsection \<open>The contract of a device store\<close>

locale device_store =
  fixes cap :: nat and inv :: "'r \<Rightarrow> bool" and devices :: "'r \<Rightarrow> byte list \<Rightarrow> (byte list \<times> byte list) option"
    and used :: "'r \<Rightarrow> nat" and valid :: "byte list \<Rightarrow> bool"
    and put :: "'r option \<Rightarrow> byte list option \<Rightarrow> byte list option \<Rightarrow> byte list option \<Rightarrow> (auth_err, 'r) cres"
    and get :: "'r option \<Rightarrow> byte list option \<Rightarrow> (auth_err, byte list \<times> byte list) cres"
  assumes get_eq: "inv r \<Longrightarrow> get (Some r) (Some did) =
      (case devices r did of None \<Rightarrow> Fail AUTH_ERR_UNKNOWN_DEVICE | Some v \<Rightarrow> Ret v)"
    and put_full: "inv r \<Longrightarrow> devices r did = None \<Longrightarrow> cap \<le> used r \<Longrightarrow>
      put (Some r) (Some did) (Some dpub) (Some rc) = Fail AUTH_ERR_TOO_MANY_ACTIVE"
    and put_ok: "inv r \<Longrightarrow> devices r did \<noteq> None \<or> used r < cap \<Longrightarrow> valid did \<Longrightarrow> valid dpub \<Longrightarrow> valid rc \<Longrightarrow>
      \<exists>r'. put (Some r) (Some did) (Some dpub) (Some rc) = Ret r' \<and> inv r' \<and> devices r' = (devices r)(did \<mapsto> (dpub, rc)) \<and>
        used r' = (if devices r did = None then used r + 1 else used r)"
begin

text \<open>A put either refuses a new device because the store is full, or makes exactly this device known.\<close>

lemma put_cases:
  assumes "inv r" and "valid did" and "valid dpub" and "valid rc"
  obtains (full) "put (Some r) (Some did) (Some dpub) (Some rc) = Fail AUTH_ERR_TOO_MANY_ACTIVE"
      "devices r did = None" "cap \<le> used r"
  | (stored) r' where "put (Some r) (Some did) (Some dpub) (Some rc) = Ret r'" "inv r'"
      "devices r' = (devices r)(did \<mapsto> (dpub, rc))"
proof (cases "devices r did = None \<and> cap \<le> used r")
  case True
  then show thesis using full put_full [OF assms(1)] by simp
next
  case False
  then show thesis using stored put_ok [OF assms(1) _ assms(2-4)] by (metis not_le)
qed

lemma get_put:
  assumes "inv r" and "valid did" and "valid dpub" and "valid rc" and "put (Some r) (Some did) (Some dpub) (Some rc) = Ret r'"
  shows "inv r' \<and> get (Some r') (Some did') = (if did' = did then Ret (dpub, rc) else get (Some r) (Some did'))"
  by (cases rule: put_cases [OF assms(1-4)]) (use assms(1,5) in \<open>auto simp: get_eq\<close>)

end

subsection \<open>The registry meets the contract\<close>

definition wf_entry :: "auth_registry_entry \<Rightarrow> bool" where
  [wf_defs]: "wf_entry e \<longleftrightarrow> length (re_device_id e) = 32 \<and> length (re_device_pub e) = 32 \<and> length (re_role_commitment e) = 32"

definition wf_registry :: "auth_registry \<Rightarrow> bool" where
  [wf_defs]: "wf_registry reg \<longleftrightarrow> length (rg_entries reg) = 256 \<and> rg_n reg \<le> 256 \<and> (\<forall>e \<in> set (rg_entries reg). wf_entry e)"

definition entry_pair :: "auth_registry_entry \<Rightarrow> byte list \<times> byte list \<times> byte list" where
  "entry_pair e = (re_device_id e, re_device_pub e, re_role_commitment e)"

definition registry_map :: "auth_registry \<Rightarrow> byte list \<Rightarrow> (byte list \<times> byte list) option" where
  "registry_map reg = map_of (map entry_pair (take (rg_n reg) (rg_entries reg)))"

lemma find_entry_None:
  "i + m \<le> length es \<Longrightarrow> find_entry es did i m = Ret None \<Longrightarrow> j \<in> {i..<i + m} \<Longrightarrow> re_device_id (es ! j) \<noteq> did"
proof (induction m arbitrary: i)
  case (Suc m)
  then show ?case using Suc.IH [of "Suc i"] by (cases "j = i") (auto simp: get_entry_def split: if_splits)
qed simp

lemma find_entry_Some:
  "i + m \<le> length es \<Longrightarrow> find_entry es did i m = Ret (Some j) \<Longrightarrow>
   i \<le> j \<and> j < i + m \<and> re_device_id (es ! j) = did \<and> (\<forall>k \<in> {i..<j}. re_device_id (es ! k) \<noteq> did)"
proof (induction m arbitrary: i)
  case (Suc m)
  show ?case
  proof (cases "re_device_id (es ! i) = did")
    case True
    then show ?thesis using Suc.prems by (auto simp: get_entry_def)
  next
    case False
    then have IH: "Suc i \<le> j \<and> j < Suc i + m \<and> re_device_id (es ! j) = did \<and> (\<forall>k \<in> {Suc i..<j}. re_device_id (es ! k) \<noteq> did)"
      using Suc.IH [of "Suc i"] Suc.prems by (simp add: get_entry_def)
    have "{i..<j} \<subseteq> insert i {Suc i..<j}" by auto
    then show ?thesis using IH False by auto
  qed
qed simp

lemma find_entry_Ret: "i + m \<le> length es \<Longrightarrow> \<exists>r. find_entry es did i m = Ret r"
  by (induction m arbitrary: i) (simp_all add: get_entry_def)

lemma map_of_first:
  assumes "j < length xs" and "fst (xs ! j) = k" and "\<And>i. i < j \<Longrightarrow> fst (xs ! i) \<noteq> k"
  shows "map_of xs k = Some (snd (xs ! j))" and "map_of (xs[j := (k, v)]) = (map_of xs)(k \<mapsto> v)"
proof -
  have xs: "xs = take j xs @ xs ! j # drop (Suc j) xs" using assms(1) by (simp add: id_take_nth_drop)
  have no: "k \<notin> fst ` set (take j xs)" using assms(1,3) by (fastforce simp: in_set_conv_nth image_iff)
  then have none: "map_of (take j xs) k = None" by (simp add: map_of_eq_None_iff)
  have hd: "xs ! j = (k, snd (xs ! j))" using assms(2) by (metis prod.collapse)
  show "map_of xs k = Some (snd (xs ! j))"
    using none hd by (subst xs) (simp add: map_add_def split: option.splits, metis fst_conv)
  have "map_of xs = map_of (take j xs @ (k, snd (xs ! j)) # drop (Suc j) xs)" using xs hd by simp
  then have "map_of xs = ((map_of (drop (Suc j) xs))(k \<mapsto> snd (xs ! j))) ++ map_of (take j xs)" by simp
  moreover have "map_of (xs[j := (k, v)]) = ((map_of (drop (Suc j) xs))(k \<mapsto> v)) ++ map_of (take j xs)"
    using assms(1) by (simp add: upd_conv_take_nth_drop)
  ultimately show "map_of (xs[j := (k, v)]) = (map_of xs)(k \<mapsto> v)"
    using none by (auto simp: fun_eq_iff map_add_def split: option.splits)
qed

lemma wf_entry_nth: "wf_registry reg \<Longrightarrow> i < 256 \<Longrightarrow> wf_entry (rg_entries reg ! i)"
  by (simp add: wf_registry_def)

lemma registry_find:
  assumes wf: "wf_registry reg"
  obtains (none) "find_entry (rg_entries reg) did 0 (rg_n reg) = Ret None" "registry_map reg did = None"
  | (some) j where "find_entry (rg_entries reg) did 0 (rg_n reg) = Ret (Some j)" "j < rg_n reg"
      "get_entry (rg_entries reg) j = Ret (rg_entries reg ! j)" "re_device_id (rg_entries reg ! j) = did"
      "registry_map reg did = Some (re_device_pub (rg_entries reg ! j), re_role_commitment (rg_entries reg ! j))"
      "map_of ((map entry_pair (take (rg_n reg) (rg_entries reg)))[j := (did, v)]) = (registry_map reg)(did \<mapsto> v)"
proof -
  let ?es = "rg_entries reg" and ?xs = "map entry_pair (take (rg_n reg) (rg_entries reg))"
  have le: "0 + rg_n reg \<le> length ?es" using wf by (simp add: wf_registry_def)
  obtain r where r: "find_entry ?es did 0 (rg_n reg) = Ret r" using find_entry_Ret [OF le] by blast
  show thesis
  proof (cases r)
    case None
    have "re_device_id (?es ! j) \<noteq> did" if "j < rg_n reg" for j
      using find_entry_None [OF le, of did j] r None that by simp
    then have "did \<notin> fst ` set ?xs" using le by (fastforce simp: in_set_conv_nth entry_pair_def)
    then have "registry_map reg did = None" unfolding registry_map_def by (simp add: map_of_eq_None_iff)
    with none show thesis using r None by simp
  next
    case (Some j)
    then have j: "j < rg_n reg" "re_device_id (?es ! j) = did" "\<And>k. k < j \<Longrightarrow> re_device_id (?es ! k) \<noteq> did"
      using find_entry_Some [OF le, of did j] r by auto
    then have "j < length ?xs" "fst (?xs ! j) = did" "\<And>k. k < j \<Longrightarrow> fst (?xs ! k) \<noteq> did"
      using le by (auto simp: entry_pair_def)
    note mf = map_of_first [OF this]
    show thesis
      using some [of j] r Some j mf le by (simp add: registry_map_def get_entry_def entry_pair_def)
  qed
qed

lemma take_map_upd: "map f (take n (es[j := e])) = (map f (take n es))[j := f e]"
  by (simp add: take_update_swap map_update)

lemma wf_registry_put: "wf_registry reg \<Longrightarrow> wf_entry e \<Longrightarrow> wf_registry (reg\<lparr>rg_entries := (rg_entries reg)[i := e]\<rparr>)"
  by (auto simp: wf_registry_def dest: set_update_subset_insert [THEN subsetD])

lemma registry_put_new:
  assumes wf: "wf_registry reg" and n: "rg_n reg < 256" and none: "registry_map reg did = None"
    and f: "find_entry (rg_entries reg) did 0 (rg_n reg) = Ret None"
    and len: "length did = 32" "length dpub = 32" "length rc = 32"
  shows "\<exists>reg'. auth_registry_put (Some reg) (Some did) (Some dpub) (Some rc) = Ret reg' \<and> wf_registry reg' \<and>
    registry_map reg' = (registry_map reg)(did \<mapsto> (dpub, rc)) \<and> rg_n reg' = rg_n reg + 1 \<and> rg_path reg' = rg_path reg"
proof -
  let ?e = "\<lparr>re_device_id = did, re_device_pub = dpub, re_role_commitment = rc\<rparr>"
  let ?reg = "reg\<lparr>rg_entries := (rg_entries reg)[rg_n reg := ?e], rg_n := rg_n reg + 1\<rparr>"
  have l: "length (rg_entries reg) = 256" using wf by (simp add: wf_registry_def)
  have "wf_registry (reg\<lparr>rg_entries := (rg_entries reg)[rg_n reg := ?e]\<rparr>)"
    using wf_registry_put [OF wf, of ?e] len by (simp add: wf_entry_def)
  then have "wf_registry ?reg" using n by (simp add: wf_registry_def)
  moreover have "take (rg_n reg + 1) ((rg_entries reg)[rg_n reg := ?e]) = take (rg_n reg) (rg_entries reg) @ [?e]"
    using n l by (simp add: take_Suc_conv_app_nth)
  then have "registry_map ?reg = (registry_map reg)(did \<mapsto> (dpub, rc))"
    using none by (auto simp: registry_map_def entry_pair_def fun_eq_iff map_add_def split: option.splits)
  moreover have "auth_registry_put (Some reg) (Some did) (Some dpub) (Some rc) = Ret ?reg"
    using f n l by (simp add: auth_registry_put_def put_entry_def)
  ultimately show ?thesis by simp
qed

lemma registry_put_old:
  assumes wf: "wf_registry reg" and m: "registry_map reg did \<noteq> None"
    and len: "length did = 32" "length dpub = 32" "length rc = 32"
  shows "\<exists>reg'. auth_registry_put (Some reg) (Some did) (Some dpub) (Some rc) = Ret reg' \<and> wf_registry reg' \<and>
    registry_map reg' = (registry_map reg)(did \<mapsto> (dpub, rc)) \<and> rg_n reg' = rg_n reg \<and> rg_path reg' = rg_path reg"
proof (rule registry_find [OF wf, of did _ "(dpub, rc)"])
  fix j assume j: "find_entry (rg_entries reg) did 0 (rg_n reg) = Ret (Some j)" "j < rg_n reg"
      "get_entry (rg_entries reg) j = Ret (rg_entries reg ! j)" "re_device_id (rg_entries reg ! j) = did"
      "map_of ((map entry_pair (take (rg_n reg) (rg_entries reg)))[j := (did, (dpub, rc))]) = (registry_map reg)(did \<mapsto> (dpub, rc))"
  let ?e = "(rg_entries reg ! j)\<lparr>re_device_pub := dpub, re_role_commitment := rc\<rparr>"
  have l: "length (rg_entries reg) = 256" "rg_n reg \<le> 256" using wf by (simp_all add: wf_registry_def)
  have "wf_registry (reg\<lparr>rg_entries := (rg_entries reg)[j := ?e]\<rparr>)"
    using wf_registry_put [OF wf, of ?e j] len wf_entry_nth [OF wf, of j] j(2) l by (simp add: wf_entry_def)
  moreover have "registry_map (reg\<lparr>rg_entries := (rg_entries reg)[j := ?e]\<rparr>) = (registry_map reg)(did \<mapsto> (dpub, rc))"
    using j(4,5) by (simp add: registry_map_def take_map_upd entry_pair_def)
  moreover have "auth_registry_put (Some reg) (Some did) (Some dpub) (Some rc) = Ret (reg\<lparr>rg_entries := (rg_entries reg)[j := ?e]\<rparr>)"
    using j l by (simp add: auth_registry_put_def put_entry_def)
  ultimately show ?thesis by simp
qed (use m in simp)

interpretation registry: device_store 256 wf_registry registry_map rg_n "\<lambda>x. length x = 32" auth_registry_put auth_registry_get
proof unfold_locales
  fix reg did assume wf: "wf_registry reg"
  show "auth_registry_get (Some reg) (Some did) =
      (case registry_map reg did of None \<Rightarrow> Fail AUTH_ERR_UNKNOWN_DEVICE | Some v \<Rightarrow> Ret v)"
    by (rule registry_find [OF wf, of did]) (auto simp: auth_registry_get_def)
next
  fix reg did dpub rc assume wf: "wf_registry reg" and "registry_map reg did = None" "256 \<le> rg_n reg"
  then show "auth_registry_put (Some reg) (Some did) (Some dpub) (Some rc) = Fail AUTH_ERR_TOO_MANY_ACTIVE"
    by (cases rule: registry_find [OF wf, of did]) (auto simp: auth_registry_put_def)
next
  fix reg and did dpub rc :: "byte list"
  assume wf: "wf_registry reg" and room: "registry_map reg did \<noteq> None \<or> rg_n reg < 256"
    and len: "length did = 32" "length dpub = 32" "length rc = 32"
  show "\<exists>reg'. auth_registry_put (Some reg) (Some did) (Some dpub) (Some rc) = Ret reg' \<and> wf_registry reg' \<and>
      registry_map reg' = (registry_map reg)(did \<mapsto> (dpub, rc)) \<and>
      rg_n reg' = (if registry_map reg did = None then rg_n reg + 1 else rg_n reg)"
  proof (cases "registry_map reg did = None")
    case True
    then have "find_entry (rg_entries reg) did 0 (rg_n reg) = Ret None" by (cases rule: registry_find [OF wf, of did]) auto
    then show ?thesis using registry_put_new [OF wf _ True _ len] room True by auto
  next
    case False
    then show ?thesis using registry_put_old [OF wf _ len] by auto
  qed
qed

text \<open>The registry is a map from device ids to public key and role commitment: a put either refuses a device it does
  not know because 256 are enrolled, leaving everything as it was, or afterwards a get of this device returns exactly
  what was put and a get of any other device answers as before.\<close>

theorem registry_put_get:
  assumes "wf_registry reg" and "length did = 32" and "length dpub = 32" and "length rc = 32"
  shows "(\<exists>reg'. auth_registry_put (Some reg) (Some did) (Some dpub) (Some rc) = Ret reg' \<and> wf_registry reg' \<and>
       (\<forall>did'. auth_registry_get (Some reg') (Some did') =
          (if did' = did then Ret (dpub, rc) else auth_registry_get (Some reg) (Some did')))) \<or>
    (auth_registry_put (Some reg) (Some did) (Some dpub) (Some rc) = Fail AUTH_ERR_TOO_MANY_ACTIVE \<and> rg_n reg = 256 \<and>
       auth_registry_get (Some reg) (Some did) = Fail AUTH_ERR_UNKNOWN_DEVICE)"
proof (rule registry.put_cases [OF assms])
  assume "auth_registry_put (Some reg) (Some did) (Some dpub) (Some rc) = Fail AUTH_ERR_TOO_MANY_ACTIVE"
    "registry_map reg did = None" "256 \<le> rg_n reg"
  then show ?thesis using assms(1) registry.get_eq [OF assms(1), of did] by (simp add: wf_registry_def)
next
  fix reg' assume "auth_registry_put (Some reg) (Some did) (Some dpub) (Some rc) = Ret reg'"
  then show ?thesis using registry.get_put [OF assms, of reg'] by blast
qed

lemma wf_registry_zero: "wf_registry registry_zero"
  by (simp add: wf_registry_def registry_zero_def entry_zero_def wf_entry_def)

theorem registry_put_get_witness:
  "\<exists>reg'. auth_registry_put (Some registry_zero) (Some (replicate 32 1)) (Some (replicate 32 2)) (Some (replicate 32 3)) = Ret reg' \<and>
     auth_registry_get (Some reg') (Some (replicate 32 1)) = Ret (replicate 32 2, replicate 32 3)"
  using registry_put_get [OF wf_registry_zero, of "replicate 32 1" "replicate 32 2" "replicate 32 3"]
  by (auto simp: registry_zero_def)

subsection \<open>The registry file\<close>

definition entry_layout :: "auth_registry_entry \<Rightarrow> byte list" where
  "entry_layout e = re_device_id e @ re_device_pub e @ re_role_commitment e"

definition registry_header :: "nat \<Rightarrow> byte list" where
  "registry_header n = REG_MAGIC @ [1] @ w32le (of_nat n)"

definition registry_layout :: "auth_registry \<Rightarrow> byte list" where
  "registry_layout reg = registry_header (rg_n reg) @ concat (map entry_layout (take (rg_n reg) (rg_entries reg)))"

lemma length_registry_header [simp]: "length (registry_header n) = 13"
  by (simp add: registry_header_def REG_MAGIC_def)

lemma length_entry_layout [simp]: "wf_entry e \<Longrightarrow> length (entry_layout e) = 96"
  by (simp add: entry_layout_def wf_entry_def)

lemma length_entries: "\<forall>e \<in> set es. wf_entry e \<Longrightarrow> length (concat (map entry_layout es)) = 96 * length es"
  by (induction es) simp_all

lemma drop_entries: "\<forall>e \<in> set es. wf_entry e \<Longrightarrow> i \<le> length es \<Longrightarrow>
  drop (i * 96) (concat (map entry_layout es)) = concat (map entry_layout (drop i es))"
proof (induction es arbitrary: i)
  case (Cons e es)
  then show ?case by (cases i) simp_all
qed simp

lemma wf_take: "\<forall>e \<in> set es. wf_entry e \<Longrightarrow> \<forall>e \<in> set (take n es). wf_entry e"
  by (auto dest: in_set_takeD)

lemma length_registry_layout: "wf_registry reg \<Longrightarrow> length (registry_layout reg) = 13 + rg_n reg * 96"
  using length_entries [OF wf_take, of "rg_entries reg" "rg_n reg"] by (simp add: registry_layout_def wf_registry_def)

lemma write_entries:
  assumes that: "length hdr = 13" and "\<forall>e \<in> set es. wf_entry e" and "n \<le> length es" and "13 + n * 96 \<le> length stack"
  shows "loop (write_entry es) [0..<n] (fst (cur stack hdr)) = Ret (fst (cur stack (hdr @ concat (map entry_layout (take n es)))))"
  using assms(2-4)
proof (induction n)
  case (Suc n)
  let ?pre = "hdr @ concat (map entry_layout (take n es))"
  have pre: "length ?pre = 13 + n * 96" using length_entries [OF wf_take, of es n] Suc.prems that by simp
  have e: "wf_entry (es ! n)" "get_entry es n = Ret (es ! n)" using Suc.prems by (simp_all add: get_entry_def)
  then have len: "length (re_device_id (es ! n)) = 32" "length (re_device_pub (es ! n)) = 32" "length (re_role_commitment (es ! n)) = 32"
    by (simp_all add: wf_entry_def)
  have "write_entry es n (fst (cur stack ?pre)) = Ret (fst (cur stack (?pre @ entry_layout (es ! n))))"
    using e(2) len pre Suc.prems(3) by (simp add: write_entry_def wrn_cur entry_layout_def)
  moreover have "loop (write_entry es) [0..<n] (fst (cur stack hdr)) = Ret (fst (cur stack ?pre))"
    using Suc.IH Suc.prems by simp
  ultimately show ?case using Suc.prems by (simp add: loop_append take_Suc_conv_app_nth)
qed simp

lemma registry_bytes_eq:
  assumes wf: "wf_registry reg" and st: "13 + 256 * 96 \<le> length stack"
  shows "registry_bytes stack reg = Ret (fst (cur stack (registry_layout reg)))"
proof -
  have "\<forall>e \<in> set (rg_entries reg). wf_entry e" "rg_n reg \<le> length (rg_entries reg)" "13 + rg_n reg * 96 \<le> length stack"
    using wf st by (simp_all add: wf_registry_def)
  note we = write_entries [OF _ this, of "registry_header (rg_n reg)"]
  have "length REG_MAGIC = 8" by (simp add: REG_MAGIC_def)
  then show ?thesis
    using we st by (simp add: registry_bytes_def mem_simps registry_layout_def) (simp add: registry_header_def wrn_cur)
qed

lemma take_cur: "n = length pre \<Longrightarrow> take n (fst (cur buf pre)) = pre"
  by (simp add: cur_def)

lemma atomic_write_take:
  "n \<le> length data \<Longrightarrow> atomic_write io path data n = atomic_write io path (take n data) (length (take n data))"
  by (simp add: atomic_write_def Let_def)

lemma registry_save_eq:
  assumes "wf_registry reg" and "13 + 256 * 96 \<le> length stack" and "rg_path reg \<noteq> []"
  shows "auth_registry_save io stack (Some reg) =
    atomic_write io (rg_path reg) (registry_layout reg) (length (registry_layout reg))"
proof -
  have l: "length (registry_layout reg) = 13 + rg_n reg * 96" "13 + rg_n reg * 96 \<le> length stack"
    using length_registry_layout [OF assms(1)] assms by (simp_all add: wf_registry_def)
  have "13 + rg_n reg * 96 \<le> length (fst (cur stack (registry_layout reg)))" using l by (simp add: cur_def)
  note this [THEN atomic_write_take]
  moreover have "take (13 + rg_n reg * 96) (fst (cur stack (registry_layout reg))) = registry_layout reg"
    using l take_cur [of "13 + rg_n reg * 96" "registry_layout reg" stack] by simp
  ultimately have "atomic_write io path (fst (cur stack (registry_layout reg))) (13 + rg_n reg * 96) =
      atomic_write io path (registry_layout reg) (length (registry_layout reg))" for path by simp
  then show ?thesis using assms by (simp add: auth_registry_save_def registry_bytes_eq)
qed

text \<open>The registry a load of the saved file gives: the enrolled entries, the rest of the array zero.\<close>

definition registry_norm :: "auth_registry \<Rightarrow> auth_registry" where
  "registry_norm reg =
     reg\<lparr>rg_entries := take (rg_n reg) (rg_entries reg) @ replicate (256 - rg_n reg) entry_zero\<rparr>"

lemma registry_norm_map: "wf_registry reg \<Longrightarrow> registry_map (registry_norm reg) = registry_map reg"
  by (simp add: registry_map_def registry_norm_def wf_registry_def)

lemma read_entries:
  assumes "\<forall>e \<in> set es. wf_entry e" and "n \<le> length es" and "length zs = 256" and "n \<le> 256" and "length hdr = 13"
  shows "loop (read_entry (hdr @ concat (map entry_layout es))) [0..<n] zs = Ret (take n es @ drop n zs)"
  using assms(2,4)
proof (induction n)
  case (Suc n)
  have e: "wf_entry (es ! n)" using assms(1) Suc.prems by simp
  have "drop (n * 96) (concat (map entry_layout es)) = entry_layout (es ! n) @ concat (map entry_layout (drop (Suc n) es))"
    using drop_entries [OF assms(1), of n] Suc.prems by (simp add: Cons_nth_drop_Suc [symmetric])
  moreover have "(n + 1) * 96 \<le> length (concat (map entry_layout es))"
    using length_entries [OF assms(1)] Suc.prems by simp
  moreover have "put_entry ys n \<lparr>re_device_id = re_device_id (es ! n), re_device_pub = re_device_pub (es ! n),
      re_role_commitment = re_role_commitment (es ! n)\<rparr> = put_entry ys n (es ! n)" for ys by (rule arg_cong) simp
  ultimately have "read_entry (hdr @ concat (map entry_layout es)) n ys = put_entry ys n (es ! n)" for ys
    using e assms(5)
    by (simp add: read_entry_def rdn_def wf_entry_def Let_def drop_drop [symmetric] add.commute entry_layout_def del: drop_drop)
  moreover have "put_entry (take n es @ drop n zs) n (es ! n) = Ret (take (Suc n) es @ drop (Suc n) zs)"
    using Suc.prems assms(3)
    by (simp add: put_entry_def take_Suc_conv_app_nth list_update_append Cons_nth_drop_Suc [symmetric])
  ultimately show ?case using Suc by (simp add: loop_append)
qed simp

lemma registry_load_layout:
  assumes wf: "wf_registry reg" and p: "length (rg_path reg) < 256"
    and rd: "read_whole_file io fs (rg_path reg) (13 + 256 * 96) = Ret (registry_layout reg)"
  shows "auth_registry_load io fs (Some (rg_path reg)) = Ret (registry_norm reg)"
proof -
  let ?es = "take (rg_n reg) (rg_entries reg)"
  have n: "rg_n reg \<le> 256" "length (rg_entries reg) = 256" using wf by (simp_all add: wf_registry_def)
  have es: "\<forall>e \<in> set ?es. wf_entry e" using wf by (intro wf_take) (simp add: wf_registry_def)
  have cnt: "unat (of_nat (rg_n reg) :: u32) = rg_n reg" using n by (simp add: unat_of_nat)
  have fields: "take 8 (registry_layout reg) = REG_MAGIC" "registry_layout reg ! 8 = 1"
    "take 4 (drop 9 (registry_layout reg)) = w32le (of_nat (rg_n reg))"
    by (simp_all add: registry_layout_def registry_header_def REG_MAGIC_def nth_append)
  have "loop (read_entry (registry_layout reg)) [0..<rg_n reg] (replicate 256 entry_zero) =
      Ret (take (rg_n reg) (rg_entries reg) @ drop (rg_n reg) (replicate 256 entry_zero))"
    unfolding registry_layout_def
    using read_entries [OF es, of "rg_n reg" "replicate 256 entry_zero" "registry_header (rg_n reg)"] n by simp
  then show ?thesis
    using p rd fields length_registry_layout [OF wf] n cnt
    by (simp add: auth_registry_load_def rdn_def rd_def Let_def registry_zero_def registry_norm_def)
qed



text \<open>The server keeps its identity: once a call of load-or-create has returned a key, every later call on the
  resulting file system returns the same key and writes nothing, or reports a storage failure.\<close>

theorem server_key_stable:
  assumes "ristretto255 S enc" and "length random = 64"
    and "auth_server_key_load_or_create S random rio wio fs (Some path) = (ops, Ret sk)"
  shows "auth_server_key_load_or_create S random' rio' wio' (fs_run ops fs) (Some path) \<in>
    {([], Ret sk), ([], Fail AUTH_ERR_STORAGE_FAILURE)}"
proof -
  let ?load = "\<lambda>fs rio. read_whole_file rio fs path 41"
  let ?lay = "SKEY_MAGIC @ [1] @ sk"
  have m: "length SKEY_MAGIC = 8" by (simp add: SKEY_MAGIC_def)
  have final: ?thesis if c: "fs_run ops fs path = Some c" "length sk = 32" "take 41 c = ?lay" for c
  proof (rule read_whole_file_cases [of "fs_run ops fs" path rio' 41])
    fix c' assume "fs_run ops fs path = Some c'" "?load (fs_run ops fs) rio' = Ret (take 41 c')"
    then have "?load (fs_run ops fs) rio' = Ret ?lay" using c by simp
    then show ?thesis using c(2) m by (simp add: auth_server_key_load_or_create_def rdn_def rd_def nth_append)
  qed (use c(1) in \<open>simp_all add: auth_server_key_load_or_create_def\<close>)
  show ?thesis
  proof (rule read_whole_file_cases [of fs path rio 41])
    fix c assume c: "fs path = Some c" "?load fs rio = Ret (take 41 c)"
    have c9: "8 < length c \<Longrightarrow> take 8 c @ c ! 8 # take 32 (drop 9 c) = take 41 c"
      by (rule nth_equalityI) (auto simp: nth_append nth_Cons')
    have "ops = []" "length (take 41 c) = 41" "take 8 c = SKEY_MAGIC" "c ! 8 = 1" "sk = take 32 (drop 9 c)"
      using assms(3) c(2) by (auto simp: auth_server_key_load_or_create_def rdn_def rd_def drop_take split: if_splits)
    moreover from this have "take 41 c = ?lay" "length sk = 32" using c9 by auto
    ultimately show ?thesis using final [of c] c(1) by simp
  next
    assume "fs path = None" and ms: "?load fs rio = Fail AUTH_ERR_CREDENTIAL_MISSING"
    let ?k = "auth_random_scalar S random"
    have k: "length ?k = 32" using assms(1,2) by (simp add: length_random_scalar)
    have b: "skey_bytes ?k = Ret (SKEY_MAGIC @ [1] @ ?k)"
      using k m by (simp add: skey_bytes_def wr_wrn wrn_def)
    obtain ops' r where w: "atomic_write wio path (SKEY_MAGIC @ [1] @ ?k) 41 = (ops', r)" by fastforce
    then have w': "atomic_write wio path (SKEY_MAGIC @ [1] @ ?k) (length (SKEY_MAGIC @ [1] @ ?k)) = (ops', r)" using k m by simp
    have e: "ops' = ops" "bnd r (\<lambda>_. Ret ?k) = Ret sk"
      using assms(3) ms b w by (simp_all add: auth_server_key_load_or_create_def Let_def)
    show ?thesis
      by (rule atomic_write_cases [OF w', of fs]) (use e k m final [of ?lay] in auto)
  qed (use assms(3) in \<open>simp add: auth_server_key_load_or_create_def\<close>)
qed

theorem server_key_stable_witness:
  "\<exists>ops sk. auth_server_key_load_or_create toy_sodium (le_enc 64 5) \<lparr>rio_open = True, rio_reads = []\<rparr> good_write Map.empty (Some ''sk'') =
       (ops, Ret sk) \<and>
     auth_server_key_load_or_create toy_sodium (le_enc 64 6) \<lparr>rio_open = True, rio_reads = []\<rparr> good_write (fs_run ops Map.empty)
       (Some ''sk'') \<in> {([], Ret sk), ([], Fail AUTH_ERR_STORAGE_FAILURE)}"
proof -
  let ?k = "auth_random_scalar toy_sodium (le_enc 64 5)"
  have k: "length ?k = 32" by (simp add: length_random_scalar [OF toy_ristretto255])
  have b: "skey_bytes ?k = Ret (SKEY_MAGIC @ [1] @ ?k)" "length SKEY_MAGIC = 8"
    using k by (simp_all add: skey_bytes_def wr_wrn wrn_def SKEY_MAGIC_def)
  obtain ops where w: "auth_server_key_load_or_create toy_sodium (le_enc 64 5) \<lparr>rio_open = True, rio_reads = []\<rparr> good_write Map.empty
      (Some ''sk'') = (ops, Ret ?k)"
    using b k by (simp add: auth_server_key_load_or_create_def read_whole_file_def atomic_write_def write_loop.simps Let_def)
  then show ?thesis using server_key_stable [OF toy_ristretto255 _ w, of "le_enc 64 6"] by auto
qed

end
