(* ===== verification/Replay.thy ===== *)
theory Replay
  imports ServerProto
begin

text \<open>
  The replay cache of \<^verbatim>\<open>c/src/store/replay.c\<close>: the replay key of an AUTH_1 message, and a ring of 64 keys
  with the operations init, contains and insert. An abstract replay window (the last 64 entries of the log of
  accepted keys) is the contract a client of the cache relies on; the ring refines it.
\<close>

abbreviation (input) AUTH_REPLAY_KEY_LEN :: nat where "AUTH_REPLAY_KEY_LEN \<equiv> 32"
abbreviation (input) AUTH_REPLAY_CACHE_CAPACITY :: nat where "AUTH_REPLAY_CACHE_CAPACITY \<equiv> 64"

record auth_replay_cache =
  rc_keys :: "byte list list"
  rc_n :: nat
  rc_next_evict :: nat

definition auth_replay_key :: "sodium \<Rightarrow> byte list \<Rightarrow> byte list \<Rightarrow> byte list \<Rightarrow> byte list" where
  "auth_replay_key S pid nonce_c eph_c = sd_sha256 S (ascii ''iot-auth/replay-key/v2'' @ pid @ nonce_c @ eph_c)"

definition auth_replay_cache_zero :: auth_replay_cache where
  "auth_replay_cache_zero =
     \<lparr>rc_keys = replicate AUTH_REPLAY_CACHE_CAPACITY (replicate AUTH_REPLAY_KEY_LEN 0), rc_n = 0, rc_next_evict = 0\<rparr>"

definition auth_replay_cache_init :: "auth_replay_cache option \<Rightarrow> auth_replay_cache option" where
  "auth_replay_cache_init cache = (case cache of None \<Rightarrow> None | Some _ \<Rightarrow> Some auth_replay_cache_zero)"

text \<open>\<^verbatim>\<open>for (; i < n; ++i) if (sodium_memcmp(keys[i], key, 32) == 0) return 1;\<close> with \<open>m\<close> rounds to go.\<close>

fun replay_scan :: "byte list list \<Rightarrow> byte list \<Rightarrow> nat \<Rightarrow> nat \<Rightarrow> (auth_err, bool) cres" where
  "replay_scan keys key i 0 = Ret False"
| "replay_scan keys key i (Suc m) =
     (if i < length keys then (if keys ! i = key then Ret True else replay_scan keys key (Suc i) m) else Fault)"

definition auth_replay_cache_contains ::
    "auth_replay_cache option \<Rightarrow> byte list option \<Rightarrow> (auth_err, bool) cres" where
  "auth_replay_cache_contains cache key =
     (case (cache, key) of
        (Some cache, Some key) \<Rightarrow> replay_scan (rc_keys cache) key 0 (rc_n cache)
      | _ \<Rightarrow> Ret False)"

definition put_key :: "byte list list \<Rightarrow> nat \<Rightarrow> byte list \<Rightarrow> (auth_err, byte list list) cres" where
  "put_key keys i key = (if i < length keys then Ret (keys[i := key]) else Fault)"

definition auth_replay_cache_insert ::
    "auth_replay_cache option \<Rightarrow> byte list option \<Rightarrow> (auth_err, bool \<times> auth_replay_cache option) cres" where
  "auth_replay_cache_insert cache key =
     (case (cache, key) of
        (Some c, Some k) \<Rightarrow>
          bnd (auth_replay_cache_contains cache key) (\<lambda>found.
          if found then Ret (False, cache)
          else if rc_n c < AUTH_REPLAY_CACHE_CAPACITY then
            bnd (put_key (rc_keys c) (rc_n c) k) (\<lambda>keys.
            Ret (True, Some (c\<lparr>rc_keys := keys, rc_n := rc_n c + 1\<rparr>)))
          else
            bnd (put_key (rc_keys c) (rc_next_evict c) k) (\<lambda>keys.
            Ret (True, Some (c\<lparr>rc_keys := keys,
                               rc_next_evict := (rc_next_evict c + 1) mod AUTH_REPLAY_CACHE_CAPACITY\<rparr>))))
      | _ \<Rightarrow> Ret (False, cache))"

subsection \<open>The contract of a replay window\<close>

text \<open>The specification keeps the whole log of accepted keys and looks at its last \<open>cap\<close> entries.\<close>

definition recent :: "nat \<Rightarrow> 'k list \<Rightarrow> 'k list" where
  "recent cap log = drop (length log - cap) log"

definition log_accept :: "nat \<Rightarrow> 'k \<Rightarrow> 'k list \<Rightarrow> 'k list" where
  "log_accept cap k log = (if k \<in> set (recent cap log) then log else log @ [k])"

lemma length_recent [simp]: "length (recent cap log) = min cap (length log)"
  by (simp add: recent_def)

lemma recent_all: "length log \<le> cap \<Longrightarrow> recent cap log = log"
  by (simp add: recent_def)

lemma recent_snoc: "0 < cap \<Longrightarrow> recent cap (log @ [k]) = (if length log < cap then log @ [k] else tl (recent cap log) @ [k])"
  by (auto simp: recent_def Suc_diff_le drop_Suc tl_drop)

text \<open>A key of the window sits near the end of the log, and an accepted key was not there before.\<close>

lemma recent_append: "length ys < cap \<Longrightarrow> k \<in> set (recent cap (xs @ [k] @ ys))"
  by (simp add: recent_def)

lemma recent_set: "set (recent cap log) \<subseteq> set log"
  by (simp add: recent_def set_drop_subset)

text \<open>Two equal entries of a log are more than \<open>cap\<close> entries apart.\<close>

definition spaced :: "nat \<Rightarrow> 'k list \<Rightarrow> bool" where
  "spaced cap log \<longleftrightarrow> (\<forall>i j. i < j \<longrightarrow> j < length log \<longrightarrow> log ! i = log ! j \<longrightarrow> cap < j - i)"

lemma spaced_Nil: "spaced cap []"
  by (simp add: spaced_def)

lemma nth_recent: "i < length log \<Longrightarrow> length log - cap \<le> i \<Longrightarrow> log ! i \<in> set (recent cap log)"
  by (auto simp: recent_def in_set_conv_nth intro!: exI [of _ "i - (length log - cap)"])

lemma spaced_accept:
  assumes "spaced cap log"
  shows "spaced cap (log_accept cap k log)"
proof (cases "k \<in> set (recent cap log)")
  case False
  have "cap < j - i" if "i < j" "j < length (log @ [k])" "(log @ [k]) ! i = (log @ [k]) ! j" for i j
  proof (cases "j = length log")
    case True
    with that have "log ! i = k" "i < length log" by (simp_all add: nth_append)
    then have "\<not> length log - cap \<le> i" using nth_recent [of i log cap] False by auto
    then show ?thesis using True by simp
  qed (use assms that in \<open>auto simp: spaced_def nth_append split: if_splits\<close>)
  then show ?thesis using False by (auto simp: spaced_def log_accept_def)
qed (use assms in \<open>simp add: log_accept_def\<close>)

locale replay_window =
  fixes cap :: nat and inv :: "'c \<Rightarrow> bool" and window :: "'c \<Rightarrow> 'k list" and valid :: "'k \<Rightarrow> bool"
    and empty :: 'c and contains :: "'c \<Rightarrow> 'k \<Rightarrow> (auth_err, bool) cres"
    and add :: "'c \<Rightarrow> 'k \<Rightarrow> (auth_err, bool \<times> 'c) cres"
  assumes cap_pos: "0 < cap"
    and inv_empty: "inv empty" and window_empty: "window empty = []"
    and contains_eq: "inv c \<Longrightarrow> valid k \<Longrightarrow> contains c k = Ret (k \<in> set (window c))"
    and add_known: "inv c \<Longrightarrow> valid k \<Longrightarrow> k \<in> set (window c) \<Longrightarrow> add c k = Ret (False, c)"
    and add_fresh: "inv c \<Longrightarrow> valid k \<Longrightarrow> k \<notin> set (window c) \<Longrightarrow>
      \<exists>c'. add c k = Ret (True, c') \<and> inv c' \<and>
        window c' = (if length (window c) < cap then window c else tl (window c)) @ [k]"
begin

text \<open>The cache represents the log.\<close>

definition represents :: "'c \<Rightarrow> 'k list \<Rightarrow> bool" where
  "represents c log \<longleftrightarrow> inv c \<and> window c = recent cap log"

lemma represents_empty: "represents empty []"
  by (simp add: represents_def inv_empty window_empty recent_def)

lemma represents_contains: "represents c log \<Longrightarrow> valid k \<Longrightarrow> contains c k = Ret (k \<in> set (recent cap log))"
  by (simp add: represents_def contains_eq)

lemma represents_add:
  assumes "represents c log" and "valid k"
  shows "\<exists>c'. add c k = Ret (k \<notin> set (recent cap log), c') \<and> represents c' (log_accept cap k log)"
proof (cases "k \<in> set (window c)")
  case True
  then show ?thesis using assms by (auto simp: represents_def add_known log_accept_def)
next
  case False
  then obtain c' where c': "add c k = Ret (True, c')" "inv c'"
    "window c' = (if length (window c) < cap then window c else tl (window c)) @ [k]"
    using add_fresh [of c k] assms by (auto simp: represents_def)
  have "window c' = recent cap (log @ [k])"
    using assms(1) c'(3) cap_pos by (auto simp: represents_def recent_snoc recent_all)
  then show ?thesis using False assms c' by (auto simp: represents_def log_accept_def)
qed

text \<open>The contract of one step, ready for a client that only looks at outcomes.\<close>

lemma add_cases:
  assumes "represents c log" and "valid k" and "add c k = Ret (b, c')"
  shows "b = (k \<notin> set (recent cap log))" and "represents c' (log_accept cap k log)"
  using represents_add [OF assms(1,2)] assms(3) by auto

end

subsection \<open>The ring of keys meets the contract\<close>

definition wf_replay_cache :: "auth_replay_cache \<Rightarrow> bool" where
  [wf_defs]: "wf_replay_cache c \<longleftrightarrow> length (rc_keys c) = 64 \<and> rc_n c \<le> 64 \<and> rc_next_evict c < 64 \<and>
     (rc_n c < 64 \<longrightarrow> rc_next_evict c = 0) \<and> (\<forall>k \<in> set (rc_keys c). length k = 32)"

text \<open>The keys from the oldest to the newest.\<close>

definition replay_ring :: "auth_replay_cache \<Rightarrow> byte list list" where
  "replay_ring c =
     (if rc_n c < 64 then take (rc_n c) (rc_keys c)
      else drop (rc_next_evict c) (rc_keys c) @ take (rc_next_evict c) (rc_keys c))"

lemma replay_scan_eq:
  "i + m \<le> length keys \<Longrightarrow> replay_scan keys key i m = Ret (key \<in> set (take m (drop i keys)))"
proof (induction keys key i m rule: replay_scan.induct)
  case (2 keys key i m)
  then show ?case by (auto simp: Cons_nth_drop_Suc [symmetric])
qed simp

lemma length_replay_ring: "wf_replay_cache c \<Longrightarrow> length (replay_ring c) = rc_n c"
  by (auto simp: wf_replay_cache_def replay_ring_def)

lemma set_replay_ring: "wf_replay_cache c \<Longrightarrow> set (replay_ring c) = set (take (rc_n c) (rc_keys c))"
  by (auto simp: wf_replay_cache_def replay_ring_def) (metis Un_iff append_take_drop_id set_append)+

lemma cache_contains_eq:
  "wf_replay_cache c \<Longrightarrow> auth_replay_cache_contains (Some c) (Some k) = Ret (k \<in> set (replay_ring c))"
  by (simp add: auth_replay_cache_contains_def replay_scan_eq set_replay_ring) (simp add: wf_replay_cache_def replay_scan_eq)

lemma ring_overwrite:
  assumes "length ks = n" and "e < n"
  shows "drop ((e + 1) mod n) (ks[e := k]) @ take ((e + 1) mod n) (ks[e := k]) = tl (drop e ks @ take e ks) @ [k]"
proof -
  have ks: "ks = take e ks @ ks ! e # drop (Suc e) ks" using assms by (simp add: id_take_nth_drop)
  have up: "ks[e := k] = take e ks @ k # drop (Suc e) ks" using assms by (simp add: upd_conv_take_nth_drop)
  have tl: "tl (drop e ks @ take e ks) = drop (Suc e) ks @ take e ks"
    using assms by (simp add: Cons_nth_drop_Suc [symmetric])
  show ?thesis
  proof (cases "e + 1 = n")
    case True
    then show ?thesis using assms by (simp add: up tl)
  next
    case False
    then have "(e + 1) mod n = Suc e" using assms by simp
    then show ?thesis using assms by (simp add: up tl min_def)
  qed
qed

lemma cache_insert_known:
  "wf_replay_cache c \<Longrightarrow> k \<in> set (replay_ring c) \<Longrightarrow> auth_replay_cache_insert (Some c) (Some k) = Ret (False, Some c)"
  by (simp add: auth_replay_cache_insert_def cache_contains_eq)

lemma cache_insert_fresh:
  assumes wf: "wf_replay_cache c" and k: "k \<notin> set (replay_ring c)" "length k = 32"
  shows "\<exists>c'. auth_replay_cache_insert (Some c) (Some k) = Ret (True, Some c') \<and> wf_replay_cache c' \<and>
    replay_ring c' = (if length (replay_ring c) < 64 then replay_ring c else tl (replay_ring c)) @ [k]"
proof (cases "rc_n c < 64")
  case True
  let ?c = "c\<lparr>rc_keys := (rc_keys c)[rc_n c := k], rc_n := rc_n c + 1\<rparr>"
  have "wf_replay_cache ?c" using wf k True by (auto simp: wf_replay_cache_def dest: set_update_subset_insert [THEN subsetD])
  moreover have "replay_ring ?c = replay_ring c @ [k]"
    using True wf
    by (cases "rc_n c = 63") (auto simp: replay_ring_def wf_replay_cache_def take_Suc_conv_app_nth upd_conv_take_nth_drop)
  moreover have "auth_replay_cache_insert (Some c) (Some k) = Ret (True, Some ?c)"
    using wf k True by (simp add: auth_replay_cache_insert_def cache_contains_eq put_key_def) (simp add: wf_replay_cache_def)
  ultimately show ?thesis using True length_replay_ring [OF wf] by (intro exI [of _ ?c]) simp
next
  case False
  let ?c = "c\<lparr>rc_keys := (rc_keys c)[rc_next_evict c := k], rc_next_evict := (rc_next_evict c + 1) mod 64\<rparr>"
  have "wf_replay_cache ?c" using wf k False by (auto simp: wf_replay_cache_def dest: set_update_subset_insert [THEN subsetD])
  moreover have "replay_ring ?c = tl (replay_ring c) @ [k]"
    using ring_overwrite [of "rc_keys c" 64 "rc_next_evict c" k] wf False by (simp add: replay_ring_def wf_replay_cache_def)
  moreover have "auth_replay_cache_insert (Some c) (Some k) = Ret (True, Some ?c)"
    using wf k False by (simp add: auth_replay_cache_insert_def cache_contains_eq put_key_def) (simp add: wf_replay_cache_def)
  ultimately show ?thesis using False length_replay_ring [OF wf] by (intro exI [of _ ?c]) simp
qed

lemma wf_cache_zero: "wf_replay_cache auth_replay_cache_zero" "replay_ring auth_replay_cache_zero = []"
  by (simp_all add: wf_replay_cache_def auth_replay_cache_zero_def replay_ring_def)

definition wf_cache_ptr :: "auth_replay_cache option \<Rightarrow> bool" where
  "wf_cache_ptr c \<longleftrightarrow> (case c of None \<Rightarrow> False | Some c \<Rightarrow> wf_replay_cache c)"

definition ring_ptr :: "auth_replay_cache option \<Rightarrow> byte list list" where
  "ring_ptr c = (case c of None \<Rightarrow> [] | Some c \<Rightarrow> replay_ring c)"

interpretation ring: replay_window 64 wf_cache_ptr ring_ptr "\<lambda>k. length k = 32" "Some auth_replay_cache_zero"
  "\<lambda>c k. auth_replay_cache_contains c (Some k)" "\<lambda>c k. auth_replay_cache_insert c (Some k)"
proof unfold_locales
  fix c k assume c: "wf_cache_ptr c" and k: "length (k :: byte list) = 32"
  then obtain c0 where c0: "c = Some c0" "wf_replay_cache c0" by (auto simp: wf_cache_ptr_def split: option.splits)
  show "auth_replay_cache_contains c (Some k) = Ret (k \<in> set (ring_ptr c))"
    using c0 by (simp add: cache_contains_eq ring_ptr_def)
  show "auth_replay_cache_insert c (Some k) = Ret (False, c)" if "k \<in> set (ring_ptr c)"
    using c0 that by (simp add: cache_insert_known ring_ptr_def)
  show "\<exists>c'. auth_replay_cache_insert c (Some k) = Ret (True, c') \<and> wf_cache_ptr c' \<and>
      ring_ptr c' = (if length (ring_ptr c) < 64 then ring_ptr c else tl (ring_ptr c)) @ [k]" if "k \<notin> set (ring_ptr c)"
    using cache_insert_fresh [OF c0(2) _ k] that c0(1) by (auto simp: ring_ptr_def wf_cache_ptr_def)
qed (simp_all add: wf_cache_zero wf_cache_ptr_def ring_ptr_def)

text \<open>A sequence of insert calls on one cache: the answers and the final cache.\<close>

fun replay_inserts ::
    "auth_replay_cache option \<Rightarrow> byte list list \<Rightarrow> (auth_err, bool list \<times> auth_replay_cache option) cres" where
  "replay_inserts cache [] = Ret ([], cache)"
| "replay_inserts cache (k # ks) =
     bnd (auth_replay_cache_insert cache (Some k)) (\<lambda>(b, cache).
     bnd (replay_inserts cache ks) (\<lambda>(bs, cache). Ret (b # bs, cache)))"

fun log_answers :: "nat \<Rightarrow> 'k list \<Rightarrow> 'k list \<Rightarrow> bool list" where
  "log_answers cap log [] = []"
| "log_answers cap log (k # ks) = (k \<notin> set (recent cap log)) # log_answers cap (log_accept cap k log) ks"

lemma replay_inserts_refine:
  "ring.represents c log \<Longrightarrow> \<forall>k \<in> set ks. length k = 32 \<Longrightarrow>
   \<exists>c'. replay_inserts c ks = Ret (log_answers 64 log ks, c') \<and> ring.represents c' (fold (log_accept 64) ks log)"
proof (induction ks arbitrary: c log)
  case (Cons k ks)
  obtain c1 where c1: "auth_replay_cache_insert c (Some k) = Ret (k \<notin> set (recent 64 log), c1)"
    "ring.represents c1 (log_accept 64 k log)"
    using ring.represents_add [OF Cons.prems(1), of k] Cons.prems(2) by auto
  then show ?case using Cons.IH [OF c1(2)] Cons.prems(2) by auto
qed simp

text \<open>C20: The replay cache refines the log of accepted keys: for any sequence of insert calls on a fresh cache, no call
  faults, each answers whether its key is absent from the last 64 accepted keys, and afterwards the lookup answers
  whether a key is among the last 64 accepted ones. Equal accepted keys are more than 64 accepted keys apart.\<close>

theorem replay_cache_refines_log:
  assumes "\<forall>k \<in> set ks. length k = 32"
  shows "\<exists>c. replay_inserts (auth_replay_cache_init (Some c0)) ks = Ret (log_answers 64 [] ks, c) \<and>
    (\<forall>k. length k = 32 \<longrightarrow>
       auth_replay_cache_contains c (Some k) = Ret (k \<in> set (recent 64 (fold (log_accept 64) ks [])))) \<and>
    spaced 64 (fold (log_accept 64) ks [])"
proof -
  obtain c where "replay_inserts (auth_replay_cache_init (Some c0)) ks = Ret (log_answers 64 [] ks, c)"
    and r: "ring.represents c (fold (log_accept 64) ks [])"
    using replay_inserts_refine [OF ring.represents_empty assms] by (auto simp: auth_replay_cache_init_def)
  moreover have "spaced 64 (fold (log_accept 64) xs log)" if "spaced 64 log" for xs and log :: "byte list list"
    using that by (induction xs arbitrary: log) (simp_all add: spaced_accept)
  ultimately show ?thesis using ring.represents_contains [OF r] spaced_Nil by blast
qed

theorem replay_cache_refines_log_witness:
  "\<exists>c. replay_inserts (Some auth_replay_cache_zero) [replicate 32 1, replicate 32 2, replicate 32 1] =
        Ret ([True, True, False], c) \<and>
     auth_replay_cache_contains c (Some (replicate 32 2)) = Ret True \<and>
     auth_replay_cache_contains c (Some (replicate 32 3)) = Ret False"
proof -
  have "log_answers 64 [] [replicate 32 1, replicate 32 2, replicate 32 1 :: byte list] = [True, True, False]"
    "fold (log_accept 64) [replicate 32 1, replicate 32 2, replicate 32 1 :: byte list] [] = [replicate 32 1, replicate 32 2]"
    by (simp_all add: log_accept_def recent_def numeral_eq_Suc)
  then show ?thesis
    using replay_cache_refines_log [of "[replicate 32 1, replicate 32 2, replicate 32 1]" auth_replay_cache_zero]
    by (auto simp: auth_replay_cache_init_def recent_def numeral_eq_Suc)
qed

end
