(* ===== verification/Handshake.thy ===== *)
theory Handshake
  imports ServerProto
begin

text \<open>
  Client and server together: an honest client and an honest server that run the messages of
  \<^verbatim>\<open>proto.c\<close> one after the other. The only way such a run can fail after the client has built its
  packet is a proof whose response or whose challenge times the secret vanishes modulo the group
  order, which libsodium's refusal of identity results makes visible; the statements name that event
  exactly.
\<close>

subsection \<open>Honest participants\<close>

definition enrolled_client :: "sodium \<Rightarrow> auth_client_ctx \<Rightarrow> byte list \<Rightarrow> bool" where
  "enrolled_client S ctx server_pub \<longleftrightarrow>
     wf_client ctx \<and> canonical (cc_device_sk ctx) \<and> auth_scalarmult_base S (cc_device_sk ctx) = Ret (cc_device_pub ctx) \<and>
     cc_has_pinned_server ctx \<and> cc_server_pub_pinned ctx = server_pub \<and> cc_has_role ctx \<and>
     canonical (cc_role_blind ctx) \<and>
     auth_make_role_commitment S (cc_role_code ctx) (cc_role_blind ctx) = Ret (cc_role_commitment ctx)"

definition wf_auth1_random :: "auth1_random \<Rightarrow> bool" where
  "wf_auth1_random rnd \<longleftrightarrow> length (rnd_nonce rnd) = 32 \<and> length (rnd_eph rnd) = 64 \<and> length (rnd_delta rnd) = 64 \<and>
     length (rnd_client rnd) = 64 \<and> length (rnd_rerand rnd) = 64"

definition wf_auth2_random :: "auth2_random \<Rightarrow> bool" where
  "wf_auth2_random rnd \<longleftrightarrow> length (rnd_eph_s rnd) = 64 \<and> length (rnd_nonce_s rnd) = 32 \<and> length (rnd_server rnd) = 64"

text \<open>A Schnorr response and challenge that the verifier's scalar multiplications accept.\<close>

definition schnorr_nonzero :: "sodium \<Rightarrow> byte list \<Rightarrow> byte list \<Rightarrow> auth_schnorr_proof \<Rightarrow> bool" where
  "schnorr_nonzero S t sk prf \<longleftrightarrow>
     prf_s prf \<noteq> sc 0 \<and> (le_int (tr_challenge S t) * le_int sk) mod group_order \<noteq> 0"

text \<open>The same for the three proofs of AUTH_1; \<open>e\<close> is the discrete logarithm of the generator \<open>h\<close>.\<close>

definition auth1_nonzero ::
    "sodium \<Rightarrow> int \<Rightarrow> auth1_random \<Rightarrow> auth_client_ctx \<Rightarrow> u64 list \<Rightarrow> auth_auth1 \<Rightarrow> bool" where
  "auth1_nonzero S e rnd ctx roles a1 \<longleftrightarrow>
     (let delta = le_int (auth_random_scalar S (rnd_delta rnd)); blind = (le_int (cc_role_blind ctx) + delta) mod group_order;
          b = a1_branches a1 ! true_index roles (cc_role_code ctx);
          t = tr_rerand (a1_pid a1) (a1_nonce_c a1) (a1_eph_c a1) (cc_role_commitment ctx) (a1_c_prime a1)
                (prf_a (a1_rerand_proof a1))
      in schnorr_nonzero S (tr_auth_client (cc_device_pub ctx) (prf_a (a1_client_proof a1)) (a1_pid a1) (a1_nonce_c a1)
             (a1_eph_c a1)) (cc_device_sk ctx) (a1_client_proof a1) \<and>
         (le_int (prf_s (a1_rerand_proof a1)) * e) mod group_order \<noteq> 0 \<and>
         (le_int (tr_challenge S t) * (delta * e)) mod group_order \<noteq> 0 \<and>
         (le_int (br_s b) * e) mod group_order \<noteq> 0 \<and> (le_int (br_c b) * (blind * e)) mod group_order \<noteq> 0)"

context schnorr_scheme
begin

lemma honest:
  assumes R: "ristretto255 S enc" and x: "wf_ctx x" and sk: "canonical sk" and wide: "length wide = 64"
    and pub: "auth_scalarmult_base S sk = Ret pub" and p: "prove S wide sk x pub = Ret p"
  shows "wf_proof p \<and> verify S p x pub = Ret (schnorr_nonzero S (tr x pub (prf_a p)) sk p)"
proof -
  have "le_int wide mod group_order \<noteq> 0"
    using prove_fails [OF R x _ wide pub] sk p by (auto simp: canonical_def)
  then show ?thesis using complete [OF R x sk wide pub] p by (auto simp: schnorr_nonzero_def)
qed

end

lemma verify_set_prefix:
  "length bs = n \<Longrightarrow>
   auth_verify_role_set_membership S (Some (bs @ xs)) n roles n c_prime pid nonce_c eph_c =
   auth_verify_role_set_membership S (Some bs) n roles n c_prime pid nonce_c eph_c"
  by (simp add: auth_verify_role_set_membership_def)

lemma commitment_valid:
  assumes R: "ristretto255 S enc" and "canonical blind" and "auth_make_role_commitment S code blind = Ret c"
    and h: "auth_attr_h S = Ret (enc e)"
  shows "c = enc (uint code + le_int blind * e)"
  using commitment_enc [OF R h, of blind code] assms(2,3)
  by (auto simp: canonical_def sval_canonical split: if_splits)

lemma check_base_mult:
  assumes R: "ristretto255 S enc" and "length s = 32" and "auth_scalarmult_base S s = Ret p"
  shows "auth_check_point S p = Ret ()"
proof -
  have "p = enc (sval s)" "enc (sval s) \<noteq> enc 0" using assms(2,3) by (auto simp: base_mult [OF R] split: if_splits)
  then show ?thesis using enc_zero [OF R] valid_point_iff [OF R] by (simp add: auth_check_point_def)
qed

lemma check_or_identity_enc: "ristretto255 S enc \<Longrightarrow> check_point_or_identity S (enc k) = Ret ()"
  using valid_point_iff [of S enc "enc k"] by (simp add: check_point_or_identity_def auth_check_point_def)

subsection \<open>The honest AUTH_1 packet\<close>

text \<open>What \<^verbatim>\<open>auth_client_build_auth1\<close> has computed when it returns a packet.\<close>

lemma build_auth1_Ret:
  assumes "auth_client_build_auth1 S rnd ctx (Some roles) n out = (Ret c, ctx')"
  obtains eph_c pid delta c_prime blind_prime cp rp bs a1 ctx1 where
    "0 < n" "n \<le> AUTH_MAX_ROLES" "auth_scalarmult_base S (auth_random_scalar S (rnd_eph rnd)) = Ret eph_c"
    "pid = auth_compute_pid S (cc_device_pub ctx) (rnd_nonce rnd) eph_c (cc_server_pub_pinned ctx)"
    "delta = auth_random_scalar S (rnd_delta rnd)"
    "auth_rerandomize_commitment S (cc_role_commitment ctx) (cc_role_blind ctx) delta = Ret (c_prime, blind_prime)"
    "auth_prove_auth_client S (rnd_client rnd) (cc_device_sk ctx) pid (rnd_nonce rnd) eph_c = Ret cp"
    "auth_prove_rerandomization S (rnd_rerand rnd) (cc_role_commitment ctx) c_prime delta pid (rnd_nonce rnd) eph_c = Ret rp"
    "auth_prove_role_set_membership S (rnd_set rnd) (Some roles) n c_prime (cc_role_code ctx) blind_prime pid
       (rnd_nonce rnd) eph_c = Ret bs"
    "a1 = \<lparr>a1_pid = pid, a1_client_proof = cp, a1_nonce_c = rnd_nonce rnd, a1_eph_c = eph_c, a1_c_prime = c_prime,
           a1_rerand_proof = rp, a1_branches = bs @ replicate (AUTH_MAX_ROLES - length bs) zero_branch,
           a1_n_branches = length bs\<rparr>"
    "ctx1 = ctx\<lparr>cc_client_nonce := rnd_nonce rnd, cc_eph_secret := auth_random_scalar S (rnd_eph rnd),
                cc_eph_c := eph_c, cc_pending_client_proof := cp\<rparr>"
    "client_send AUTH_PKT_AUTH_1 auth_auth1_encode a1 ctx1 out = (Ret c, ctx')"
  using assms that
  by (auto simp: auth_client_build_auth1_def try_c_Ret_iff Let_def split: if_splits)

lemma auth1_layout_fits: "wf_auth1 m \<Longrightarrow> length (auth1_layout m) \<le> 1026"
  by (simp add: length_auth1_layout wf_auth1_def)

lemma honest_auth1:
  assumes R: "ristretto255 S enc" and h: "auth_attr_h S = Ret (enc e)" and ec: "enrolled_client S ctx server_pub"
    and rnd: "wf_auth1_random rnd" and n: "length roles = n"
    and b: "auth_client_build_auth1 S rnd ctx (Some roles) n (Some buf) = (Ret c, ctx')"
  obtains a1 where "wf_auth1 a1" "auth1_norm a1 = a1" "a1_n_branches a1 = n"
    "sent c = packet AUTH_PKT_AUTH_1 (cc_session_id ctx) (cc_seq ctx + 1) (auth1_layout a1)"
    "ctx' = ctx\<lparr>cc_client_nonce := a1_nonce_c a1, cc_eph_secret := auth_random_scalar S (rnd_eph rnd),
                cc_eph_c := a1_eph_c a1, cc_pending_client_proof := a1_client_proof a1, cc_seq := cc_seq ctx + 1\<rparr>"
    "auth_scalarmult_base S (auth_random_scalar S (rnd_eph rnd)) = Ret (a1_eph_c a1)"
    "a1_pid a1 = auth_compute_pid S (cc_device_pub ctx) (a1_nonce_c a1) (a1_eph_c a1) server_pub"
    "a1_c_prime a1 \<in> range enc"
    "(auth_verify_auth_client S (a1_client_proof a1) (cc_device_pub ctx) (a1_pid a1) (a1_nonce_c a1) (a1_eph_c a1) = Ret True \<and>
      auth_verify_rerandomization S (a1_rerand_proof a1) (cc_role_commitment ctx) (a1_c_prime a1) (a1_pid a1)
        (a1_nonce_c a1) (a1_eph_c a1) = Ret True \<and>
      auth_verify_role_set_membership S (Some (a1_branches a1)) n (Some roles) n (a1_c_prime a1) (a1_pid a1)
        (a1_nonce_c a1) (a1_eph_c a1) = Ret True) \<longleftrightarrow> auth1_nonzero S e rnd ctx roles a1"
    "c = cur buf (packet AUTH_PKT_AUTH_1 (cc_session_id ctx) (cc_seq ctx + 1) (auth1_layout a1))"
    "length (packet AUTH_PKT_AUTH_1 (cc_session_id ctx) (cc_seq ctx + 1) (auth1_layout a1)) \<le> 2048"
proof -
  from b obtain eph_c pid delta c_prime blind_prime cp rp bs a1 ctx1 where
    n': "0 < n" "n \<le> AUTH_MAX_ROLES" and eph: "auth_scalarmult_base S (auth_random_scalar S (rnd_eph rnd)) = Ret eph_c"
    and pid: "pid = auth_compute_pid S (cc_device_pub ctx) (rnd_nonce rnd) eph_c (cc_server_pub_pinned ctx)"
    and delta: "delta = auth_random_scalar S (rnd_delta rnd)"
    and re: "auth_rerandomize_commitment S (cc_role_commitment ctx) (cc_role_blind ctx) delta = Ret (c_prime, blind_prime)"
    and cp: "auth_prove_auth_client S (rnd_client rnd) (cc_device_sk ctx) pid (rnd_nonce rnd) eph_c = Ret cp"
    and rp: "auth_prove_rerandomization S (rnd_rerand rnd) (cc_role_commitment ctx) c_prime delta pid (rnd_nonce rnd) eph_c = Ret rp"
    and bs: "auth_prove_role_set_membership S (rnd_set rnd) (Some roles) n c_prime (cc_role_code ctx) blind_prime pid
       (rnd_nonce rnd) eph_c = Ret bs"
    and a1: "a1 = \<lparr>a1_pid = pid, a1_client_proof = cp, a1_nonce_c = rnd_nonce rnd, a1_eph_c = eph_c, a1_c_prime = c_prime,
           a1_rerand_proof = rp, a1_branches = bs @ replicate (AUTH_MAX_ROLES - length bs) zero_branch,
           a1_n_branches = length bs\<rparr>"
    and ctx1: "ctx1 = ctx\<lparr>cc_client_nonce := rnd_nonce rnd, cc_eph_secret := auth_random_scalar S (rnd_eph rnd),
                cc_eph_c := eph_c, cc_pending_client_proof := cp\<rparr>"
    and snd': "client_send AUTH_PKT_AUTH_1 auth_auth1_encode a1 ctx1 (Some buf) = (Ret c, ctx')"
    by (rule build_auth1_Ret)
  have len: "length pid = 32" "length (rnd_nonce rnd) = 32" "length eph_c = 32" and sid: "length (cc_session_id ctx) = 16"
    using base_mult_length [OF R _ eph] rnd ec
    by (simp_all add: pid length_pid [OF R] wf_auth1_random_def length_random_scalar [OF R] enrolled_client_def wf_client_def)
  have dc: "canonical delta" using rnd by (simp add: delta auth_random_scalar_def wf_auth1_random_def reduce_sc [OF R])
  let ?i = "uint (cc_role_code ctx) + le_int (cc_role_blind ctx) * e"
  have blind: "canonical (cc_role_blind ctx)" and C: "cc_role_commitment ctx = enc ?i"
    using ec commitment_valid [OF R _ _ h] by (auto simp: enrolled_client_def)
  have cpr: "c_prime = enc (?i + le_int delta * e)" and bp: "blind_prime = sc (le_int (cc_role_blind ctx) + le_int delta)"
    using rerandomize_enc [OF R h blind dc C re] by simp_all
  have P: "wf_proof cp" "auth_verify_auth_client S cp (cc_device_pub ctx) pid (rnd_nonce rnd) eph_c =
      Ret (schnorr_nonzero S (tr_auth_client (cc_device_pub ctx) (prf_a cp) pid (rnd_nonce rnd) eph_c) (cc_device_sk ctx) cp)"
    using auth_client.honest [OF R, of "(pid, rnd_nonce rnd, eph_c)" "cc_device_sk ctx" "rnd_client rnd" "cc_device_pub ctx" cp]
      ec cp len rnd by (simp_all add: enrolled_client_def wf_auth1_random_def)
  have Q: "wf_proof rp" "auth_verify_rerandomization S rp (cc_role_commitment ctx) c_prime pid (rnd_nonce rnd) eph_c =
      Ret ((le_int (prf_s rp) * e) mod group_order \<noteq> 0 \<and>
        (le_int (tr_challenge S (tr_rerand pid (rnd_nonce rnd) eph_c (cc_role_commitment ctx) c_prime (prf_a rp))) *
          (le_int delta * e)) mod group_order \<noteq> 0)"
    using rerand_complete [OF R h dc _ len refl, of "rnd_rerand rnd" ?i rp] rp rnd
    by (simp_all add: C cpr wf_auth1_random_def enc_eq_iff [OF R])
  let ?b = "(le_int (cc_role_blind ctx) + le_int delta) mod group_order"
  have cp': "c_prime = enc (uint (cc_role_code ctx) + le_int blind_prime * e)"
    by (simp add: cpr bp enc_eq_iff [OF R] mod_nested distrib_right add.assoc)
  have bs': "auth_prove_role_set_membership_with_bytes S (take (64 + 2 * 64 * (n - 1)) (rnd_set rnd)) (Some roles) n
      c_prime (cc_role_code ctx) blind_prime pid (rnd_nonce rnd) eph_c = Ret bs"
    using bs n' by (simp add: auth_prove_role_set_membership_def)
  have B: "length bs = n" "true_index roles (cc_role_code ctx) < n" "\<forall>x \<in> set bs. wf_branch x"
    "auth_verify_role_set_membership S (Some bs) n (Some roles) n c_prime pid (rnd_nonce rnd) eph_c =
      Ret ((le_int (br_s (bs ! true_index roles (cc_role_code ctx))) * e) mod group_order \<noteq> 0 \<and>
           (le_int (br_c (bs ! true_index roles (cc_role_code ctx))) * (?b * e)) mod group_order \<noteq> 0)"
    using set_complete [OF R h n _ len refl refl bs' [unfolded cp']] bp
    by (simp_all add: cp' enc_eq_iff [OF R])
  have wf: "wf_auth1 a1"
    using P(1) Q(1) B n' len by (auto simp: a1 wf_auth1_def cpr length_enc [OF R])
  have norm: "auth1_norm a1 = a1" using B n' by (simp add: a1 auth1_norm_def)
  have "client_send AUTH_PKT_AUTH_1 auth_auth1_encode a1 ctx1 (Some buf) =
      (if length buf < 24 + length (auth1_layout a1) then Fail AUTH_ERR_BUFFER_TOO_SMALL
       else Ret (cur buf (packet AUTH_PKT_AUTH_1 (cc_session_id ctx) (cc_seq ctx + 1) (auth1_layout a1))),
       ctx1\<lparr>cc_seq := cc_seq ctx + 1\<rparr>)"
    using auth1.client_send_eq [OF wf, of ctx1] auth1_layout_fits [OF wf] sid by (simp add: ctx1)
  then have c: "c = cur buf (packet AUTH_PKT_AUTH_1 (cc_session_id ctx) (cc_seq ctx + 1) (auth1_layout a1))"
    and sent: "sent c = packet AUTH_PKT_AUTH_1 (cc_session_id ctx) (cc_seq ctx + 1) (auth1_layout a1)"
    and ctx': "ctx' = ctx1\<lparr>cc_seq := cc_seq ctx + 1\<rparr>"
    using snd' sid by (auto split: if_splits)
  have fits: "length (packet AUTH_PKT_AUTH_1 (cc_session_id ctx) (cc_seq ctx + 1) (auth1_layout a1)) \<le> 2048"
    using auth1_layout_fits [OF wf] sid by simp
  show thesis
  proof (rule that [of a1, OF _ _ _ _ _ _ _ _ _ c fits])
    show "(auth_verify_auth_client S (a1_client_proof a1) (cc_device_pub ctx) (a1_pid a1) (a1_nonce_c a1) (a1_eph_c a1) = Ret True \<and>
      auth_verify_rerandomization S (a1_rerand_proof a1) (cc_role_commitment ctx) (a1_c_prime a1) (a1_pid a1)
        (a1_nonce_c a1) (a1_eph_c a1) = Ret True \<and>
      auth_verify_role_set_membership S (Some (a1_branches a1)) n (Some roles) n (a1_c_prime a1) (a1_pid a1)
        (a1_nonce_c a1) (a1_eph_c a1) = Ret True) \<longleftrightarrow> auth1_nonzero S e rnd ctx roles a1"
      using P(2) Q(2) B by (simp add: a1 verify_set_prefix auth1_nonzero_def Let_def nth_append delta [symmetric])
  qed (use wf norm sent ctx' ec eph B cpr in \<open>simp_all add: a1 ctx1 pid enrolled_client_def\<close>)
qed

subsection \<open>Replies of the server\<close>

lemma server_auth1_Ret:
  assumes R: "ristretto255 S enc" and rnd: "wf_auth2_random rnd" and sid: "length sid = 16"
    and ssk: "canonical server_sk" "auth_scalarmult_base S server_sk = Ret server_pub"
    and chk: "auth1_checks S (Some p) server_pub lookup (Some roles) k = Ret (a1, device_pub)" and wf: "wf_auth1 a1"
    and r: "auth_server_handle_auth1 S rnd sid seq (Some p) server_sk server_pub lookup (Some roles) k pending (Some buf) =
      (Ret c, pend)"
  obtains es sp shared where
    "auth_scalarmult_base S (auth_random_scalar S (rnd_eph_s rnd)) = Ret es"
    "auth_prove_auth_server S (rnd_server rnd) server_sk (rnd_nonce_s rnd) es = Ret sp"
    "wf_auth2 (srv_auth2 S a1 server_pub shared sp (rnd_nonce_s rnd) es)"
    "auth_verify_auth_server S sp server_pub (rnd_nonce_s rnd) es =
       Ret (schnorr_nonzero S (tr_auth_server server_pub (prf_a sp) (rnd_nonce_s rnd) es) server_sk sp)"
    "auth_scalarmult S (auth_random_scalar S (rnd_eph_s rnd)) (a1_eph_c a1) = Ret shared"
    "sent c = packet AUTH_PKT_AUTH_2 sid seq (auth2_layout (srv_auth2 S a1 server_pub shared sp (rnd_nonce_s rnd) es))"
    "pend = srv_pending S sid device_pub a1 server_pub shared sp (rnd_nonce_s rnd) es (sent c)"
proof -
  let ?rs = "auth_random_scalar S (rnd_eph_s rnd)" and ?ns = "rnd_nonce_s rnd"
  have len: "length ?rs = 32" "length ?ns = 32" "length server_pub = 32"
    using rnd base_mult_length [OF R _ ssk(2)] ssk(1)
    by (simp_all add: wf_auth2_random_def length_random_scalar [OF R] canonical_def)
  from r obtain es sp where eph: "auth_scalarmult_base S ?rs = Ret es"
    and sp: "auth_prove_auth_server S (rnd_server rnd) server_sk ?ns es = Ret sp"
    by (auto simp: auth_server_handle_auth1_def chk try_c_Ret_iff Let_def)
  have es: "length es = 32" by (rule base_mult_length [OF R len(1) eph])
  have P: "wf_proof sp" "auth_verify_auth_server S sp server_pub ?ns es =
      Ret (schnorr_nonzero S (tr_auth_server server_pub (prf_a sp) ?ns es) server_sk sp)"
    using auth_server.honest [OF R, of "(?ns, es)" server_sk "rnd_server rnd" server_pub sp] ssk sp len es rnd
    by (simp_all add: wf_auth2_random_def)
  have a1: "length (a1_pid a1) = 32" "length (a1_nonce_c a1) = 32" "length (a1_eph_c a1) = 32"
    using wf by (simp_all add: wf_auth1_def)
  from r obtain shared where sh: "auth_scalarmult S ?rs (a1_eph_c a1) = Ret shared"
    by (auto simp: auth_server_handle_auth1_def chk try_c_Ret_iff Let_def eph sp bnd_iffs
        derive_session_key_cases [OF R len(1) a1(2) len(2) a1(1,3) es])
  have eq: "(Ret c, pend) = (if length buf < 216 then (Fail AUTH_ERR_BUFFER_TOO_SMALL, pending)
     else let pkt = packet AUTH_PKT_AUTH_2 sid seq (auth2_layout (srv_auth2 S a1 server_pub shared sp ?ns es))
          in (Ret (cur buf pkt), srv_pending S sid device_pub a1 server_pub shared sp ?ns es pkt))"
    using handle_auth1_eq [OF R sid _ len(2,3) chk wf eph sp P(1) sh] r rnd by (simp add: wf_auth2_random_def)
  have wf2: "wf_auth2 (srv_auth2 S a1 server_pub shared sp ?ns es)" by (rule wf_srv_auth2 [OF R P(1) len(3,2) es])
  show thesis
    using eq length_auth2_layout [OF wf2] sid
    by (intro that [OF eph sp wf2 P(2) sh]) (auto simp: Let_def split: if_splits)
qed

subsection \<open>Authentication runs\<close>

lemma client_handlers_safe_auth2:
  assumes "ristretto255 S enc" and "wf_client ctx" and "auth_client_handle_auth2 S ctx inp = (r, ctx')"
  shows "wf_client ctx'"
  using handle_auth2_cases [OF assms(1,2), of inp] assms(2,3) wf_auth2_keys [OF assms(1,2)]
  by (auto simp: Let_def split: if_splits)

lemma scalarmult_shared:
  assumes R: "ristretto255 S enc" and "length a = 32" "length b = 32"
    and "auth_scalarmult_base S a = Ret p" and "auth_scalarmult_base S b = Ret q"
  shows "auth_scalarmult S a q = auth_scalarmult S b p"
proof -
  have "p = enc (sval a)" "q = enc (sval b)" using assms(2-5) by (auto simp: base_mult [OF R] split: if_splits)
  then show ?thesis using assms(2,3) by (simp add: point_mult [OF R] mult.commute)
qed

text \<open>The last two messages, once both sides hold the same confirmation keys.\<close>

lemma auth3_completes:
  assumes R: "ristretto255 S enc" and ctx: "wf_client ctx" and sid: "pa_session_id pend = cc_session_id ctx"
    and keys: "pa_kc_k_c2s pend = cc_kc_k_c2s ctx" "pa_kc_th pend = cc_kc_th ctx"
    and buf: "56 \<le> length buf3" "25 \<le> length buf4"
  shows "\<exists>c3 ctx3 p3 c4. auth_client_build_auth3 S ctx (Some buf3) = (Ret c3, ctx3) \<and>
    sent c3 = packet AUTH_PKT_AUTH_3 (cc_session_id ctx) (cc_seq ctx + 1) p3 \<and>
    auth_server_handle_auth3 S pend (cc_session_id ctx) (cc_seq ctx + 1) (Some p3) (Some buf4) = Ret c4 \<and>
    auth_client_handle_auth_ack ctx3 (Some (sent c4)) = (Ret (), ctx3\<lparr>cc_auth_complete := True\<rparr>)"
proof -
  let ?tag = "auth_hmac_tag S (cc_kc_k_c2s ctx) (ascii ''client finished'') (cc_kc_th ctx)"
  let ?ctx3 = "ctx\<lparr>cc_seq := cc_seq ctx + 1\<rparr>" and ?sid = "cc_session_id ctx" and ?seq = "cc_seq ctx + 1"
  have s16: "length ?sid = 16" using ctx by (simp add: wf_client_def)
  have wf: "wf_auth3 \<lparr>a3_tag_c = ?tag\<rparr>" by (simp add: wf_auth3_def length_hmac_tag [OF R])
  have len: "length ?tag = 32" by (simp add: length_hmac_tag [OF R])
  have 1: "auth_client_build_auth3 S ctx (Some buf3) = (Ret (cur buf3 (packet AUTH_PKT_AUTH_3 ?sid ?seq ?tag)), ?ctx3)"
    using auth3.client_send_eq [OF wf _ s16, of AUTH_PKT_AUTH_3 buf3] buf(1) len by (simp add: auth_client_build_auth3_def)
  have 2: "auth_server_handle_auth3 S pend ?sid ?seq (Some ?tag) (Some buf4) =
      Ret (cur buf4 (packet AUTH_PKT_AUTH_ACK ?sid ?seq [AUTH_ACK_BYTE]))"
    using auth3.dec_layout [OF wf] ack_reply [OF s16, of AUTH_PKT_AUTH_ACK ?seq buf4] buf(2) keys sid
    by (simp add: auth_server_handle_auth3_def)
  have 3: "auth_client_handle_auth_ack ?ctx3 (Some (packet AUTH_PKT_AUTH_ACK ?sid ?seq [AUTH_ACK_BYTE])) =
      (Ret (), ?ctx3\<lparr>cc_auth_complete := True\<rparr>)"
    using client_open_packet [OF s16, of AUTH_PKT_AUTH_ACK ?seq "[AUTH_ACK_BYTE]"] ack.dec_layout
    by (simp add: auth_client_handle_auth_ack_def)
  have sent: "sent (cur buf3 (packet AUTH_PKT_AUTH_3 ?sid ?seq ?tag)) = packet AUTH_PKT_AUTH_3 ?sid ?seq ?tag"
    "sent (cur buf4 (packet AUTH_PKT_AUTH_ACK ?sid ?seq [AUTH_ACK_BYTE])) = packet AUTH_PKT_AUTH_ACK ?sid ?seq [AUTH_ACK_BYTE]"
    using s16 len buf by simp_all
  show ?thesis using 1 2 3 sent by metis
qed

subsection \<open>A concrete run\<close>

text \<open>An enrolled client and a server over \<^term>\<open>rewound_sodium 1\<close>, where every challenge is 1 and points are
  their discrete logarithms.\<close>

lemma chal_one: "tr_challenge (rewound_sodium 1) t = sc 1"
proof -
  have "1 < group_order" by (simp add: group_order_def)
  then have "le_int (tr_challenge (rewound_sodium 1) t) = le_int (sc 1)" by (simp add: rewound_challenge)
  then show ?thesis
    using canonical_tr_challenge [OF rewound_ristretto, of 1 t] le_int_inject [of "tr_challenge (rewound_sodium 1) t" "sc 1"]
    by (simp add: canonical_def)
qed

lemma wide_sc: "0 \<le> k \<Longrightarrow> k < 1000 \<Longrightarrow> sd_scalar_reduce (rewound_sodium c) (le_enc 64 k) = sc k"
  by (simp add: reduce_sc [OF rewound_ristretto] le_int_le_enc)

lemma rewound_base:
  "k mod group_order \<noteq> 0 \<Longrightarrow> auth_scalarmult_base (rewound_sodium c) (sc k) = Ret (toy_enc k)"
  by (simp add: base_mult [OF rewound_ristretto] enc_eq_iff [OF toy_ristretto255])

lemma rewound_set:
  assumes len: "length pid = 32" "length nonce_c = 32" "length eph_c = 32"
  shows "auth_prove_role_set_membership (rewound_sodium 1) (le_enc 64 7) (Some [2]) 1 (toy_enc 101) 2 (sc 11)
     pid nonce_c eph_c = Ret [\<lparr>br_a = toy_enc 63, br_c = sc 1, br_s = sc 18\<rparr>]"
proof -
  note R = rewound_ristretto [of 1]
  have Ys: "role_Y (rewound_sodium 1) [2] (toy_enc 101) 0 = Ret (toy_enc (101 - 2))"
    using role_Y_enc [OF R, of 0 "[2]" 101] by simp
  have a: "auth_scalarmult (rewound_sodium 1) (sc 7) (toy_enc 9) = Ret (toy_enc 63)"
    by (simp add: point_mult [OF R] small_mods enc_eq_iff [OF R])
  have m: "role_set_master_challenge (rewound_sodium 1) [2] 1 (toy_enc 101) (toy_enc 63) pid nonce_c eph_c = Ret (sc 1)"
    using master_challenge_eq [of "[2]" 1 "[toy_enc 63]" pid nonce_c eph_c "toy_enc 101" "rewound_sodium 1"] len
    by (simp add: length_enc [OF R] chal_one)
  have c: "auth_scalar_sub (rewound_sodium 1) (sc 1) (replicate 32 0) = sc 1"
    by (simp add: replicate_zero_sc scalar_sub_sc [OF R] sc_eq_iff)
  have s: "auth_scalar_add (rewound_sodium 1) (sc 7) (auth_scalar_mul (rewound_sodium 1) (sc 1) (sc 11)) = sc 18"
    by (simp add: scalar_mul_sc [OF R] scalar_add_sc [OF R] sc_eq_iff small_mods)
  show ?thesis
    using Ys a m c s wide_sc [of 7]
    by (simp add: auth_prove_role_set_membership_def auth_prove_role_set_membership_with_bytes_def rewound_h
        set_branch_step_def rdn_def zero_branch_def Let_def auth_scalar_from_wide_def)
qed

definition rnd_sample :: auth1_random where
  "rnd_sample = \<lparr>rnd_nonce = replicate 32 1, rnd_eph = le_enc 64 6, rnd_delta = le_enc 64 6, rnd_client = le_enc 64 7,
     rnd_rerand = le_enc 64 3, rnd_set = le_enc 64 7\<rparr>"

definition rnd2_sample :: auth2_random where
  "rnd2_sample = \<lparr>rnd_eph_s = le_enc 64 8, rnd_nonce_s = replicate 32 9, rnd_server = le_enc 64 2\<rparr>"

definition pid_sample :: "byte list" where
  "pid_sample = auth_compute_pid (rewound_sodium 1) (toy_enc 3) (replicate 32 1) (toy_enc 6) (toy_enc 4)"

definition auth1_run :: auth_auth1 where
  "auth1_run = \<lparr>a1_pid = pid_sample, a1_client_proof = \<lparr>prf_a = toy_enc 7, prf_s = sc 10\<rparr>, a1_nonce_c = replicate 32 1,
     a1_eph_c = toy_enc 6, a1_c_prime = toy_enc 101, a1_rerand_proof = \<lparr>prf_a = toy_enc 27, prf_s = sc 9\<rparr>,
     a1_branches = \<lparr>br_a = toy_enc 63, br_c = sc 1, br_s = sc 18\<rparr> # replicate 7 zero_branch, a1_n_branches = 1\<rparr>"

definition client_run :: auth_client_ctx where
  "client_run = client_sample\<lparr>cc_client_nonce := replicate 32 1, cc_eph_secret := sc 6, cc_eph_c := toy_enc 6,
     cc_pending_client_proof := \<lparr>prf_a = toy_enc 7, prf_s = sc 10\<rparr>, cc_seq := 1\<rparr>"

abbreviation (input) packet_run :: "byte list" where
  "packet_run \<equiv> packet AUTH_PKT_AUTH_1 (replicate 16 7) 1 (auth1_layout auth1_run)"

lemma enrolled_sample: "enrolled_client (rewound_sodium 1) client_sample (toy_enc 4)"
proof -
  have "3 mod group_order \<noteq> 0" by (simp add: group_order_def)
  moreover have "auth_make_role_commitment (rewound_sodium 1) 2 (sc 5) = Ret (toy_enc 47)"
    using commitment_enc [OF rewound_ristretto [of 1] rewound_h, of "sc 5" 2]
    by (simp add: enc_eq_iff [OF toy_ristretto255] small_mods)
  ultimately show ?thesis
    using wf_client_sample rewound_base [of 3 1] by (simp add: enrolled_client_def) (simp add: client_sample_def)
qed

lemma auth1_run_wf: "wf_auth1 auth1_run" "auth1_norm auth1_run = auth1_run"
  by (simp_all add: auth1_run_def wf_auth1_def wf_proof_def wf_branch_def zero_branch_def auth1_norm_def
      pid_sample_def length_pid [OF rewound_ristretto] length_enc [OF rewound_ristretto])

text \<open>The AUTH_1 of a toy client with the secret \<open>k\<close> and the role commitment of the sample.\<close>

definition toy_auth1 :: "byte list \<Rightarrow> int \<Rightarrow> auth_auth1" where
  "toy_auth1 pid k = auth1_run\<lparr>a1_pid := pid, a1_client_proof := \<lparr>prf_a = toy_enc 7, prf_s = sc (7 + k)\<rparr>\<rparr>"

lemma toy_build_auth1:
  assumes wf: "wf_client ctx" and sk: "cc_device_sk ctx = sc k" "k mod group_order \<noteq> 0"
    and role: "cc_role_code ctx = 2" "cc_role_blind ctx = sc 5" "cc_role_commitment ctx = toy_enc 47" "cc_has_role ctx" "cc_has_pinned_server ctx"
    and pid: "pid = auth_compute_pid (rewound_sodium 1) (cc_device_pub ctx) (replicate 32 1) (toy_enc 6) (cc_server_pub_pinned ctx)"
  shows "auth_client_build_auth1 (rewound_sodium 1) rnd_sample ctx (Some [2]) 1 (Some (replicate 2048 0)) =
    (Ret (cur (replicate 2048 0) (packet AUTH_PKT_AUTH_1 (cc_session_id ctx) (cc_seq ctx + 1) (auth1_layout (toy_auth1 pid k)))),
     ctx\<lparr>cc_client_nonce := replicate 32 1, cc_eph_secret := sc 6, cc_eph_c := toy_enc 6,
       cc_pending_client_proof := \<lparr>prf_a = toy_enc 7, prf_s = sc (7 + k)\<rparr>, cc_seq := cc_seq ctx + 1\<rparr>)"
    and "length (packet AUTH_PKT_AUTH_1 (cc_session_id ctx) (cc_seq ctx + 1) (auth1_layout (toy_auth1 pid k))) \<le> 2048"
proof -
  note R = rewound_ristretto [of 1]
  have ord: "6 mod group_order \<noteq> 0" "7 mod group_order \<noteq> 0" by (simp_all add: group_order_def)
  have len: "length pid = 32" "length (toy_enc j) = 32" for j by (simp_all add: pid length_pid [OF R] length_enc [OF R])
  have eph: "auth_scalarmult_base (rewound_sodium 1) (sc 6) = Ret (toy_enc 6)" using ord rewound_base by simp
  have re: "auth_rerandomize_commitment (rewound_sodium 1) (toy_enc 47) (sc 5) (sc 6) = Ret (toy_enc 101, sc 11)"
    by (simp add: auth_rerandomize_commitment_def rewound_h point_mult [OF R] points_add [OF R] scalar_add_sc [OF R]
        enc_eq_iff [OF R] sc_eq_iff small_mods)
  have cp: "auth_prove_auth_client (rewound_sodium 1) (le_enc 64 7) (sc k) pid (replicate 32 1) (toy_enc 6) = Ret \<lparr>prf_a = toy_enc 7, prf_s = sc (7 + k)\<rparr>"
    using auth_client.prove_eq [OF R, of "(pid, replicate 32 1, toy_enc 6)" "sc k" "le_enc 64 7" "toy_enc k"]
      len ord sk(2) rewound_base wide_sc [of 7]
    by (simp add: chal_one scalar_mul_sc [OF R] scalar_add_sc [OF R] sc_eq_iff mod_simps)
  have rp: "auth_prove_rerandomization (rewound_sodium 1) (le_enc 64 3) (toy_enc 47) (toy_enc 101) (sc 6) pid
      (replicate 32 1) (toy_enc 6) = Ret \<lparr>prf_a = toy_enc 27, prf_s = sc 9\<rparr>"
    using rerand_prove_enc [OF R rewound_h canonical_sc [of 6], of "le_enc 64 3" pid "replicate 32 1" "toy_enc 6" 3 _ 47 101]
      len by (simp add: chal_one enc_eq_iff [OF R] small_mods le_int_le_enc)
  have wf1: "wf_auth1 (toy_auth1 pid k)" using auth1_run_wf(1) len by (simp add: toy_auth1_def wf_auth1_def wf_proof_def)
  have fits: "length (auth1_layout (toy_auth1 pid k)) = 354"
    using length_auth1_layout [OF wf1] by (simp add: toy_auth1_def auth1_run_def)
  have sid: "length (cc_session_id ctx) = 16" using wf by (simp add: wf_client_def)
  then show "length (packet AUTH_PKT_AUTH_1 (cc_session_id ctx) (cc_seq ctx + 1) (auth1_layout (toy_auth1 pid k))) \<le> 2048"
    using fits by simp
  let ?ctx = "ctx\<lparr>cc_client_nonce := replicate 32 1, cc_eph_secret := sc 6, cc_eph_c := toy_enc 6,
       cc_pending_client_proof := \<lparr>prf_a = toy_enc 7, prf_s = sc (7 + k)\<rparr>\<rparr>"
  have "client_send AUTH_PKT_AUTH_1 auth_auth1_encode (toy_auth1 pid k) ?ctx (Some (replicate 2048 0)) =
      (Ret (cur (replicate 2048 0) (packet AUTH_PKT_AUTH_1 (cc_session_id ctx) (cc_seq ctx + 1) (auth1_layout (toy_auth1 pid k)))),
       ?ctx\<lparr>cc_seq := cc_seq ctx + 1\<rparr>)"
    using auth1.client_send_eq [OF wf1, of ?ctx AUTH_PKT_AUTH_1 "replicate 2048 0"] fits sid by simp
  then show "auth_client_build_auth1 (rewound_sodium 1) rnd_sample ctx (Some [2]) 1 (Some (replicate 2048 0)) =
    (Ret (cur (replicate 2048 0) (packet AUTH_PKT_AUTH_1 (cc_session_id ctx) (cc_seq ctx + 1) (auth1_layout (toy_auth1 pid k)))),
     ?ctx\<lparr>cc_seq := cc_seq ctx + 1\<rparr>)"
    using eph re cp rp rewound_set [of pid "replicate 32 1" "toy_enc 6"] wide_sc [of 6] wide_sc [of 7] len
    by (simp add: auth_client_build_auth1_def rnd_sample_def sk role auth_random_scalar_def Let_def
        pid [symmetric] toy_auth1_def auth1_run_def)
qed

lemma build_run:
  "auth_client_build_auth1 (rewound_sodium 1) rnd_sample client_sample (Some [2]) 1 (Some (replicate 2048 0)) =
     (Ret (cur (replicate 2048 0) packet_run), client_run)"
proof -
  have "3 mod group_order \<noteq> 0" by (simp add: group_order_def)
  moreover have "toy_auth1 pid_sample 3 = auth1_run" by (simp add: toy_auth1_def auth1_run_def)
  ultimately show ?thesis
    using toy_build_auth1(1) [OF wf_client_sample, of 3 pid_sample] by (simp add: client_sample_def client_run_def pid_sample_def)
qed

lemma honest_checks:
  assumes "ristretto255 S enc" and "auth_attr_h S = Ret (enc e)" and "enrolled_client S ctx server_pub"
    and "wf_auth1_random rnd" and "length roles = n"
    and "auth_client_build_auth1 S rnd ctx (Some roles) n (Some buf) = (Ret c, ctx')"
    and "lookup None = Ret (cc_device_pub ctx, cc_role_commitment ctx)"
  shows "\<exists>a1. sent c = packet AUTH_PKT_AUTH_1 (cc_session_id ctx) (cc_seq ctx + 1) (auth1_layout a1) \<and>
    wf_auth1 a1 \<and> auth1_norm a1 = a1 \<and>
    (auth1_checks S (Some (auth1_layout a1)) server_pub lookup (Some roles) n = Ret (a1, cc_device_pub ctx) \<longleftrightarrow>
     auth1_nonzero S e rnd ctx roles a1)"
proof -
  obtain a1 where a1: "wf_auth1 a1" "auth1_norm a1 = a1" "a1_n_branches a1 = n"
    "sent c = packet AUTH_PKT_AUTH_1 (cc_session_id ctx) (cc_seq ctx + 1) (auth1_layout a1)"
    "auth_scalarmult_base S (auth_random_scalar S (rnd_eph rnd)) = Ret (a1_eph_c a1)"
    "a1_pid a1 = auth_compute_pid S (cc_device_pub ctx) (a1_nonce_c a1) (a1_eph_c a1) server_pub"
    "a1_c_prime a1 \<in> range enc"
    and v: "(auth_verify_auth_client S (a1_client_proof a1) (cc_device_pub ctx) (a1_pid a1) (a1_nonce_c a1) (a1_eph_c a1) = Ret True \<and>
      auth_verify_rerandomization S (a1_rerand_proof a1) (cc_role_commitment ctx) (a1_c_prime a1) (a1_pid a1)
        (a1_nonce_c a1) (a1_eph_c a1) = Ret True \<and>
      auth_verify_role_set_membership S (Some (a1_branches a1)) n (Some roles) n (a1_c_prime a1) (a1_pid a1)
        (a1_nonce_c a1) (a1_eph_c a1) = Ret True) \<longleftrightarrow> auth1_nonzero S e rnd ctx roles a1"
    by (rule honest_auth1 [OF assms(1-6)]) blast
  have dec: "auth_auth1_decode (Some (auth1_layout a1)) = Ret a1" using auth1.dec_layout [OF a1(1)] a1(2) by simp
  have "length (auth_random_scalar S (rnd_eph rnd)) = 32"
    using assms(4) by (simp add: wf_auth1_random_def length_random_scalar [OF assms(1)])
  then have pt: "auth_check_point S (a1_eph_c a1) = Ret ()" using check_base_mult [OF assms(1) _ a1(5)] by simp
  have cp: "check_point_or_identity S (a1_c_prime a1) = Ret ()"
    using a1(7) check_or_identity_enc [OF assms(1)] by auto
  have "auth1_checks S (Some (auth1_layout a1)) server_pub lookup (Some roles) n = Ret (a1, cc_device_pub ctx) \<longleftrightarrow>
     auth1_nonzero S e rnd ctx roles a1"
    unfolding v [symmetric] using a1(6)
    by (auto simp: auth1_checks_def dec pt cp assms(7) a1(3) bnd_iffs)
  then show ?thesis using a1(1,2,4) by blast
qed

text \<open>C12: An honest client's AUTH_1 is accepted: the packet \<^verbatim>\<open>auth_client_build_auth1\<close> builds carries a message
  that decodes, and the server that finds the device in its registry and permits the same roles passes all its
  checks, unless one of the three proofs hit a vanishing response or challenge.\<close>

theorem honest_auth1_accepted:
  assumes "ristretto255 S enc" and "auth_attr_h S = Ret (enc e)" and "enrolled_client S ctx server_pub"
    and "wf_auth1_random rnd" and "length roles = n"
    and "auth_client_build_auth1 S rnd ctx (Some roles) n (Some buf) = (Ret c, ctx')"
    and "lookup None = Ret (cc_device_pub ctx, cc_role_commitment ctx)"
  shows "\<exists>a1. sent c = packet AUTH_PKT_AUTH_1 (cc_session_id ctx) (cc_seq ctx + 1) (auth1_layout a1) \<and>
    wf_auth1 a1 \<and> auth1_norm a1 = a1 \<and>
    (auth1_checks S (Some (auth1_layout a1)) server_pub lookup (Some roles) n = Ret (a1, cc_device_pub ctx) \<longleftrightarrow>
     auth1_nonzero S e rnd ctx roles a1)"
  by (rule honest_checks [where lookup = lookup, OF assms])

lemma rnd_samples_wf: "wf_auth1_random rnd_sample" "wf_auth2_random rnd2_sample"
  by (simp_all add: wf_auth1_random_def rnd_sample_def wf_auth2_random_def rnd2_sample_def)

lemma auth1_run_nonzero: "auth1_nonzero (rewound_sodium 1) 9 rnd_sample client_sample [2] auth1_run"
  using wide_sc [of 6 1]
  by (simp add: auth1_nonzero_def schnorr_nonzero_def chal_one auth1_run_def rnd_sample_def client_sample_def Let_def
      auth_random_scalar_def sc_eq_iff small_mods)

lemma auth1_run_unique: "wf_auth1 a \<Longrightarrow> auth1_norm a = a \<Longrightarrow> auth1_layout a = auth1_layout auth1_run \<Longrightarrow> a = auth1_run"
  using auth1.layout_inj [of a auth1_run] auth1_run_wf by simp

lemma sent_run: "sent (cur (replicate 2048 0) packet_run) = packet_run"
proof (rule sent_cur)
  show "length packet_run \<le> length (replicate 2048 (0 :: byte))"
    using length_auth1_layout [OF auth1_run_wf(1)] by (simp add: auth1_run_def)
qed

lemma client_sample_sel:
  "cc_device_pub client_sample = toy_enc 3" "cc_role_commitment client_sample = toy_enc 47"
  "cc_session_id client_sample = replicate 16 7" "cc_seq client_sample = 0"
  by (simp_all add: client_sample_def)

theorem honest_auth1_accepted_witness:
  "auth1_checks (rewound_sodium 1) (Some (auth1_layout auth1_run)) (toy_enc 4) (\<lambda>_. Ret (toy_enc 3, toy_enc 47)) (Some [2]) 1 =
     Ret (auth1_run, toy_enc 3)"
proof -
  obtain a1 where "auth1_layout a1 = auth1_layout auth1_run" "wf_auth1 a1" "auth1_norm a1 = a1"
    and iff: "auth1_checks (rewound_sodium 1) (Some (auth1_layout a1)) (toy_enc 4) (\<lambda>_. Ret (toy_enc 3, toy_enc 47)) (Some [2]) 1 =
       Ret (a1, toy_enc 3) \<longleftrightarrow> auth1_nonzero (rewound_sodium 1) 9 rnd_sample client_sample [2] a1"
    using honest_auth1_accepted [OF rewound_ristretto rewound_h enrolled_sample rnd_samples_wf(1) _ build_run,
        of "\<lambda>_. Ret (toy_enc 3, toy_enc 47)"] sent_run by (auto simp: client_sample_sel)
  then have "a1 = auth1_run" by (intro auth1_run_unique)
  with iff show ?thesis using auth1_run_nonzero by simp
qed

lemma checks_run:
  "auth1_checks (rewound_sodium 1) (Some (auth1_layout auth1_run)) (toy_enc 4) (\<lambda>_. Ret (toy_enc 3, toy_enc 47)) (Some [2]) 1 =
     Ret (auth1_run, toy_enc 3)"
proof -
  obtain a1 where "auth1_layout a1 = auth1_layout auth1_run" "wf_auth1 a1" "auth1_norm a1 = a1"
    and iff: "auth1_checks (rewound_sodium 1) (Some (auth1_layout a1)) (toy_enc 4) (\<lambda>_. Ret (toy_enc 3, toy_enc 47)) (Some [2]) 1 =
       Ret (a1, toy_enc 3) \<longleftrightarrow> auth1_nonzero (rewound_sodium 1) 9 rnd_sample client_sample [2] a1"
    using honest_checks [OF rewound_ristretto rewound_h enrolled_sample rnd_samples_wf(1) _ build_run,
        of "\<lambda>_. Ret (toy_enc 3, toy_enc 47)"] sent_run by (auto simp: client_sample_sel)
  then have "a1 = auth1_run" by (intro auth1_run_unique)
  with iff show ?thesis using auth1_run_nonzero by simp
qed

lemma prove_server_run:
  "auth_prove_auth_server (rewound_sodium 1) (le_enc 64 2) (sc 4) (replicate 32 9) (toy_enc 8) =
     Ret \<lparr>prf_a = toy_enc 2, prf_s = sc 6\<rparr>"
proof -
  note R = rewound_ristretto [of 1]
  have "2 mod group_order \<noteq> 0" "4 mod group_order \<noteq> 0" by (simp_all add: group_order_def)
  then show ?thesis
    using auth_server.prove_eq [OF R, of "(replicate 32 9, toy_enc 8)" "sc 4" "le_enc 64 2" "toy_enc 4"]
      rewound_base wide_sc [of 2]
    by (simp add: chal_one scalar_mul_sc [OF R] scalar_add_sc [OF R] sc_eq_iff small_mods length_enc [OF R])
qed

text \<open>The toy server's answer to an AUTH_1 that passes its checks.\<close>

lemma toy_server_auth1:
  assumes chk: "auth1_checks (rewound_sodium 1) (Some p) (toy_enc 4) lookup (Some [2]) 1 = Ret (a1, dp)" and wf: "wf_auth1 a1" and eph_c: "a1_eph_c a1 = toy_enc 6"
    and sid: "length sid = 16"
  shows "\<exists>c2 pend. auth_server_handle_auth1 (rewound_sodium 1) rnd2_sample sid seq (Some p) (sc 4) (toy_enc 4) lookup (Some [2]) 1 pending_auth_zero
      (Some (replicate 2048 0)) = (Ret c2, pend) \<and> pa_eph_s pend = toy_enc 8 \<and> pa_device_pub pend = dp"
proof -
  note R = rewound_ristretto [of 1]
  have ord: "8 mod group_order \<noteq> 0" by (simp add: group_order_def)
  have sel: "rnd_server rnd2_sample = le_enc 64 2" "rnd_nonce_s rnd2_sample = replicate 32 9"
    "auth_random_scalar (rewound_sodium 1) (rnd_eph_s rnd2_sample) = sc 8"
    using wide_sc [of 8 1] by (simp_all add: rnd2_sample_def auth_random_scalar_def)
  have eph: "auth_scalarmult_base (rewound_sodium 1) (auth_random_scalar (rewound_sodium 1) (rnd_eph_s rnd2_sample)) = Ret (toy_enc 8)"
    using rewound_base [OF ord] sel by simp
  have sp: "auth_prove_auth_server (rewound_sodium 1) (rnd_server rnd2_sample) (sc 4) (rnd_nonce_s rnd2_sample) (toy_enc 8) =
      Ret \<lparr>prf_a = toy_enc 2, prf_s = sc 6\<rparr>"
    using prove_server_run sel by simp
  have sh: "auth_scalarmult (rewound_sodium 1) (auth_random_scalar (rewound_sodium 1) (rnd_eph_s rnd2_sample)) (a1_eph_c a1) = Ret (toy_enc 48)"
    by (simp add: sel eph_c point_mult [OF R] enc_eq_iff [OF R] small_mods)
  have wfp: "wf_proof \<lparr>prf_a = toy_enc 2, prf_s = sc 6\<rparr>" by (simp add: wf_proof_def toy_enc_def)
  show ?thesis
    using handle_auth1_eq [OF R sid _ _ _ chk wf eph sp wfp sh, of seq pending_auth_zero "replicate 2048 0"] rnd_samples_wf(2)
    by (simp add: wf_auth2_random_def toy_enc_def srv_pending_def Let_def)
qed

lemma server_run:
  "\<exists>c2 pend. auth_server_handle_auth1 (rewound_sodium 1) rnd2_sample (replicate 16 7) 1 (Some (auth1_layout auth1_run))
     (sc 4) (toy_enc 4) (\<lambda>_. Ret (toy_enc 3, toy_enc 47)) (Some [2]) 1 pending_auth_zero (Some (replicate 2048 0)) =
     (Ret c2, pend) \<and> pa_eph_s pend = toy_enc 8 \<and> pa_device_pub pend = toy_enc 3"
  using toy_server_auth1 [OF checks_run auth1_run_wf(1)] by (simp add: auth1_run_def)

theorem server_auth1_sound_witness:
  "\<exists>a1 stored_c. auth1_layout auth1_run = auth1_layout a1 \<and> wf_auth1 a1 \<and>
    (Ret (toy_enc 3, toy_enc 47) :: (auth_err, _) cres) = Ret (toy_enc 3, stored_c) \<and>
    auth_verify_auth_client (rewound_sodium 1) (a1_client_proof a1) (toy_enc 3) (a1_pid a1) (a1_nonce_c a1) (a1_eph_c a1) = Ret True \<and>
    auth_verify_rerandomization (rewound_sodium 1) (a1_rerand_proof a1) stored_c (a1_c_prime a1) (a1_pid a1) (a1_nonce_c a1)
      (a1_eph_c a1) = Ret True"
proof -
  obtain c2 pend where *: "auth_server_handle_auth1 (rewound_sodium 1) rnd2_sample (replicate 16 7) 1 (Some (auth1_layout auth1_run))
     (sc 4) (toy_enc 4) (\<lambda>_. Ret (toy_enc 3, toy_enc 47)) (Some [2]) 1 pending_auth_zero (Some (replicate 2048 0)) = (Ret c2, pend)"
    and dp: "pa_device_pub pend = toy_enc 3" using server_run by blast
  show ?thesis using server_auth1_sound [OF *] unfolding dp by blast
qed

lemma auth1_checks_decoded:
  "auth1_checks S (Some p) server_pub lookup roles n = Ret (a1, dp) \<Longrightarrow> auth_auth1_decode (Some p) = Ret a1"
  by (auto simp: auth1_checks_def bnd_iffs split: if_splits)

text \<open>The client's reaction to the reply of a server that has accepted its AUTH_1.\<close>

lemma honest_auth2:
  assumes R: "ristretto255 S enc" and ec: "enrolled_client S ctx server_pub"
    and rnd: "wf_auth1_random rnd" "wf_auth2_random rnd2" and n: "length roles = n"
    and b: "auth_client_build_auth1 S rnd ctx (Some roles) n (Some buf1) = (Ret c1, ctx1)"
    and ssk: "canonical server_sk" "auth_scalarmult_base S server_sk = Ret server_pub"
    and hdr: "auth_header_decode (Some (sent c1)) = Ret (hdr, p1)"
    and srv: "auth_server_handle_auth1 S rnd2 (hdr_session_id hdr) (hdr_seq hdr) (Some p1) server_sk server_pub lookup
       (Some roles') n' pending (Some buf2) = (Ret c2, pend)"
  obtains sp where
    "auth_prove_auth_server S (rnd_server rnd2) server_sk (rnd_nonce_s rnd2) (pa_eph_s pend) = Ret sp"
    "pa_session_id pend = cc_session_id ctx1" "wf_client ctx1"
    "\<not> schnorr_nonzero S (tr_auth_server server_pub (prf_a sp) (rnd_nonce_s rnd2) (pa_eph_s pend)) server_sk sp \<Longrightarrow>
       auth_client_handle_auth2 S ctx1 (Some (sent c2)) = (Fail AUTH_ERR_PROOF_VERIFY, ctx1)"
    "schnorr_nonzero S (tr_auth_server server_pub (prf_a sp) (rnd_nonce_s rnd2) (pa_eph_s pend)) server_sk sp \<Longrightarrow>
       auth_client_handle_auth2 S ctx1 (Some (sent c2)) =
         (Ret (), ctx1\<lparr>cc_session_key := pa_session_key pend, cc_kc_th := pa_kc_th pend,
                       cc_kc_k_s2c := pa_kc_k_s2c pend, cc_kc_k_c2s := pa_kc_k_c2s pend\<rparr>)"
proof -
  obtain e where h: "auth_attr_h S = Ret (enc e)" by (rule attr_h_enc [OF R])
  obtain a1 where a1: "wf_auth1 a1" "auth1_norm a1 = a1"
    and sent1: "sent c1 = packet AUTH_PKT_AUTH_1 (cc_session_id ctx) (cc_seq ctx + 1) (auth1_layout a1)"
    and ctx1: "ctx1 = ctx\<lparr>cc_client_nonce := a1_nonce_c a1, cc_eph_secret := auth_random_scalar S (rnd_eph rnd),
                cc_eph_c := a1_eph_c a1, cc_pending_client_proof := a1_client_proof a1, cc_seq := cc_seq ctx + 1\<rparr>"
    and eph: "auth_scalarmult_base S (auth_random_scalar S (rnd_eph rnd)) = Ret (a1_eph_c a1)"
    and pid: "a1_pid a1 = auth_compute_pid S (cc_device_pub ctx) (a1_nonce_c a1) (a1_eph_c a1) server_pub"
    by (rule honest_auth1 [OF R h ec rnd(1) n b]) blast
  have sid: "length (cc_session_id ctx) = 16" using ec by (simp add: enrolled_client_def wf_client_def)
  have hdr_eq: "hdr = packet_header AUTH_PKT_AUTH_1 (cc_session_id ctx) (cc_seq ctx + 1)" "p1 = auth1_layout a1"
    using hdr packet_parse [OF sid, of AUTH_PKT_AUTH_1 "cc_seq ctx + 1" "auth1_layout a1"] by (simp_all add: sent1)
  have r1: "length (auth_random_scalar S (rnd_eph rnd)) = 32" and r2: "length (auth_random_scalar S (rnd_eph_s rnd2)) = 32"
    using rnd by (simp_all add: wf_auth1_random_def wf_auth2_random_def length_random_scalar [OF R])
  have wf1: "wf_client ctx1" using ec a1 r1 by (auto simp: ctx1 enrolled_client_def wf_client_def wf_auth1_def)
  obtain a1' dp where chk: "auth1_checks S (Some p1) server_pub lookup (Some roles') n' = Ret (a1', dp)"
    using handle_auth1_checked [OF srv] by blast
  have "a1' = a1" using auth1_checks_decoded [OF chk] auth1.dec_layout [OF a1(1)] a1(2) hdr_eq(2) by simp
  note chk = chk [unfolded this]
  have sid': "length (hdr_session_id hdr) = 16" using hdr_eq(1) sid by simp
  obtain es sp shared where
    es: "auth_scalarmult_base S (auth_random_scalar S (rnd_eph_s rnd2)) = Ret es"
    and sp: "auth_prove_auth_server S (rnd_server rnd2) server_sk (rnd_nonce_s rnd2) es = Ret sp"
    and wf2: "wf_auth2 (srv_auth2 S a1 server_pub shared sp (rnd_nonce_s rnd2) es)"
    and ver: "auth_verify_auth_server S sp server_pub (rnd_nonce_s rnd2) es =
       Ret (schnorr_nonzero S (tr_auth_server server_pub (prf_a sp) (rnd_nonce_s rnd2) es) server_sk sp)"
    and sh: "auth_scalarmult S (auth_random_scalar S (rnd_eph_s rnd2)) (a1_eph_c a1) = Ret shared"
    and sent2: "sent c2 = packet AUTH_PKT_AUTH_2 (hdr_session_id hdr) (hdr_seq hdr)
        (auth2_layout (srv_auth2 S a1 server_pub shared sp (rnd_nonce_s rnd2) es))"
    and pend: "pend = srv_pending S (hdr_session_id hdr) dp a1 server_pub shared sp (rnd_nonce_s rnd2) es (sent c2)"
    by (rule server_auth1_Ret [OF R rnd(2) sid' ssk chk a1(1) srv])
  let ?a2 = "srv_auth2 S a1 server_pub shared sp (rnd_nonce_s rnd2) es"
  note srv_defs = srv_auth2_def srv_pending_def Let_def
  have sh': "auth_scalarmult S (cc_eph_secret ctx1) es = Ret shared"
    using scalarmult_shared [OF R r1 r2 eph es] sh by (simp add: ctx1)
  have ssk32: "length server_sk = 32" using ssk(1) by (simp add: canonical_def)
  have pts: "auth_check_point S server_pub = Ret ()" "auth_check_point S es = Ret ()"
    using check_base_mult [OF R ssk32 ssk(2)] check_base_mult [OF R r2 es] by simp_all
  have pin: "cc_server_pub_pinned ctx1 = server_pub" "cc_session_id ctx1 = cc_session_id ctx"
    using ec by (simp_all add: ctx1 enrolled_client_def)
  have op: "client_open AUTH_PKT_AUTH_2 (Some (sent c2)) = Ret (packet_header AUTH_PKT_AUTH_2 (cc_session_id ctx) (cc_seq ctx + 1), auth2_layout ?a2)"
    using client_open_packet [OF sid, of AUTH_PKT_AUTH_2] by (simp add: sent2 hdr_eq(1))
  have keys: "auth2_keys S ctx1 ?a2 shared = ctx1\<lparr>cc_session_key := pa_session_key pend, cc_kc_th := pa_kc_th pend,
      cc_kc_k_s2c := pa_kc_k_s2c pend, cc_kc_k_c2s := pa_kc_k_c2s pend\<rparr>"
    using ec by (simp add: auth2_keys_def srv_defs pend srv_key_def srv_th_def pid ctx1 enrolled_client_def)
  show thesis
  proof (rule that [of sp])
    assume "schnorr_nonzero S (tr_auth_server server_pub (prf_a sp) (rnd_nonce_s rnd2) (pa_eph_s pend)) server_sk sp"
    then have "auth2_valid S ctx1 ?a2" using ver pts pin by (simp add: auth2_valid_def pend srv_defs)
    then show "auth_client_handle_auth2 S ctx1 (Some (sent c2)) =
         (Ret (), ctx1\<lparr>cc_session_key := pa_session_key pend, cc_kc_th := pa_kc_th pend,
                       cc_kc_k_s2c := pa_kc_k_s2c pend, cc_kc_k_c2s := pa_kc_k_c2s pend\<rparr>)"
      using handle_auth2_decoded [OF R wf1 wf2 _ op] sh' keys pin by (simp add: pend srv_defs)
  next
    assume "\<not> schnorr_nonzero S (tr_auth_server server_pub (prf_a sp) (rnd_nonce_s rnd2) (pa_eph_s pend)) server_sk sp"
    then show "auth_client_handle_auth2 S ctx1 (Some (sent c2)) = (Fail AUTH_ERR_PROOF_VERIFY, ctx1)"
      using ver pts pin op auth2.dec_layout [OF wf2] by (simp add: auth_client_handle_auth2_def pend srv_defs)
  qed (use sp wf1 pin hdr_eq in \<open>simp_all add: pend srv_defs\<close>)
qed

text \<open>C2: Client and server agree: after the server has accepted the AUTH_1 an enrolled client built, the client
  accepts the AUTH_2 reply and both hold the same session key, transcript hash and confirmation keys; the AUTH_3
  the client then sends is acknowledged and the acknowledgement completes the client's run. The one exception
  is a vanishing server proof, which the client refuses with a proof error.\<close>

theorem auth_handshake_agrees:
  assumes "ristretto255 S enc" and "enrolled_client S ctx server_pub" and "wf_auth1_random rnd" and "wf_auth2_random rnd2"
    and "length roles = n" and "auth_client_build_auth1 S rnd ctx (Some roles) n (Some buf1) = (Ret c1, ctx1)"
    and "canonical server_sk" and "auth_scalarmult_base S server_sk = Ret server_pub"
    and "auth_header_decode (Some (sent c1)) = Ret (hdr, p1)"
    and "auth_server_handle_auth1 S rnd2 (hdr_session_id hdr) (hdr_seq hdr) (Some p1) server_sk server_pub lookup
       (Some roles') n' pending (Some buf2) = (Ret c2, pend)"
    and "56 \<le> length buf3" and "25 \<le> length buf4"
  shows "\<exists>sp. auth_prove_auth_server S (rnd_server rnd2) server_sk (rnd_nonce_s rnd2) (pa_eph_s pend) = Ret sp \<and>
    (if schnorr_nonzero S (tr_auth_server server_pub (prf_a sp) (rnd_nonce_s rnd2) (pa_eph_s pend)) server_sk sp
     then \<exists>ctx2 c3 ctx3 p3 c4. auth_client_handle_auth2 S ctx1 (Some (sent c2)) = (Ret (), ctx2) \<and>
       cc_session_key ctx2 = pa_session_key pend \<and> cc_kc_th ctx2 = pa_kc_th pend \<and>
       cc_kc_k_s2c ctx2 = pa_kc_k_s2c pend \<and> cc_kc_k_c2s ctx2 = pa_kc_k_c2s pend \<and>
       auth_client_build_auth3 S ctx2 (Some buf3) = (Ret c3, ctx3) \<and>
       sent c3 = packet AUTH_PKT_AUTH_3 (cc_session_id ctx2) (cc_seq ctx2 + 1) p3 \<and>
       auth_server_handle_auth3 S pend (cc_session_id ctx2) (cc_seq ctx2 + 1) (Some p3) (Some buf4) = Ret c4 \<and>
       auth_client_handle_auth_ack ctx3 (Some (sent c4)) = (Ret (), ctx3\<lparr>cc_auth_complete := True\<rparr>)
     else auth_client_handle_auth2 S ctx1 (Some (sent c2)) = (Fail AUTH_ERR_PROOF_VERIFY, ctx1))"
proof -
  obtain sp where sp: "auth_prove_auth_server S (rnd_server rnd2) server_sk (rnd_nonce_s rnd2) (pa_eph_s pend) = Ret sp"
    and sid: "pa_session_id pend = cc_session_id ctx1" and wf: "wf_client ctx1"
    and no: "\<not> schnorr_nonzero S (tr_auth_server server_pub (prf_a sp) (rnd_nonce_s rnd2) (pa_eph_s pend)) server_sk sp \<Longrightarrow>
       auth_client_handle_auth2 S ctx1 (Some (sent c2)) = (Fail AUTH_ERR_PROOF_VERIFY, ctx1)"
    and yes: "schnorr_nonzero S (tr_auth_server server_pub (prf_a sp) (rnd_nonce_s rnd2) (pa_eph_s pend)) server_sk sp \<Longrightarrow>
       auth_client_handle_auth2 S ctx1 (Some (sent c2)) =
         (Ret (), ctx1\<lparr>cc_session_key := pa_session_key pend, cc_kc_th := pa_kc_th pend,
                       cc_kc_k_s2c := pa_kc_k_s2c pend, cc_kc_k_c2s := pa_kc_k_c2s pend\<rparr>)"
    by (rule honest_auth2 [OF assms(1-10)]) blast
  let ?ctx2 = "ctx1\<lparr>cc_session_key := pa_session_key pend, cc_kc_th := pa_kc_th pend,
                       cc_kc_k_s2c := pa_kc_k_s2c pend, cc_kc_k_c2s := pa_kc_k_c2s pend\<rparr>"
  show ?thesis
  proof (intro exI [of _ sp] conjI sp, split if_split, intro conjI impI)
    assume nz: "schnorr_nonzero S (tr_auth_server server_pub (prf_a sp) (rnd_nonce_s rnd2) (pa_eph_s pend)) server_sk sp"
    have "wf_client ?ctx2"
      using client_handlers_safe_auth2 [OF assms(1) wf yes [OF nz]] .
    then obtain c3 ctx3 p3 c4 where "auth_client_build_auth3 S ?ctx2 (Some buf3) = (Ret c3, ctx3)"
      "sent c3 = packet AUTH_PKT_AUTH_3 (cc_session_id ?ctx2) (cc_seq ?ctx2 + 1) p3"
      "auth_server_handle_auth3 S pend (cc_session_id ?ctx2) (cc_seq ?ctx2 + 1) (Some p3) (Some buf4) = Ret c4"
      "auth_client_handle_auth_ack ctx3 (Some (sent c4)) = (Ret (), ctx3\<lparr>cc_auth_complete := True\<rparr>)"
      using auth3_completes [OF assms(1) _ _ _ _ assms(11,12), of ?ctx2 pend] sid by auto
    with yes [OF nz] show "\<exists>ctx2 c3 ctx3 p3 c4. auth_client_handle_auth2 S ctx1 (Some (sent c2)) = (Ret (), ctx2) \<and>
       cc_session_key ctx2 = pa_session_key pend \<and> cc_kc_th ctx2 = pa_kc_th pend \<and>
       cc_kc_k_s2c ctx2 = pa_kc_k_s2c pend \<and> cc_kc_k_c2s ctx2 = pa_kc_k_c2s pend \<and>
       auth_client_build_auth3 S ctx2 (Some buf3) = (Ret c3, ctx3) \<and>
       sent c3 = packet AUTH_PKT_AUTH_3 (cc_session_id ctx2) (cc_seq ctx2 + 1) p3 \<and>
       auth_server_handle_auth3 S pend (cc_session_id ctx2) (cc_seq ctx2 + 1) (Some p3) (Some buf4) = Ret c4 \<and>
       auth_client_handle_auth_ack ctx3 (Some (sent c4)) = (Ret (), ctx3\<lparr>cc_auth_complete := True\<rparr>)"
      by (intro exI [of _ ?ctx2] exI [of _ c3] exI [of _ ctx3] exI [of _ p3] exI [of _ c4]) simp
  qed (rule no)
qed

theorem auth_handshake_agrees_witness:
  "\<exists>c2 pend ctx2 c3 ctx3 p3 c4.
     auth_server_handle_auth1 (rewound_sodium 1) rnd2_sample (replicate 16 7) 1 (Some (auth1_layout auth1_run))
       (sc 4) (toy_enc 4) (\<lambda>_. Ret (toy_enc 3, toy_enc 47)) (Some [2]) 1 pending_auth_zero (Some (replicate 2048 0)) =
       (Ret c2, pend) \<and>
     auth_client_handle_auth2 (rewound_sodium 1) client_run (Some (sent c2)) = (Ret (), ctx2) \<and>
     cc_session_key ctx2 = pa_session_key pend \<and>
     auth_client_build_auth3 (rewound_sodium 1) ctx2 (Some (replicate 2048 0)) = (Ret c3, ctx3) \<and>
     auth_server_handle_auth3 (rewound_sodium 1) pend (cc_session_id ctx2) (cc_seq ctx2 + 1) (Some p3) (Some (replicate 2048 0)) =
       Ret c4 \<and>
     auth_client_handle_auth_ack ctx3 (Some (sent c4)) = (Ret (), ctx3\<lparr>cc_auth_complete := True\<rparr>)"
proof -
  have ord: "4 mod group_order \<noteq> 0" by (simp add: group_order_def)
  obtain c2 pend where srv: "auth_server_handle_auth1 (rewound_sodium 1) rnd2_sample (replicate 16 7) 1
      (Some (auth1_layout auth1_run)) (sc 4) (toy_enc 4) (\<lambda>_. Ret (toy_enc 3, toy_enc 47)) (Some [2]) 1 pending_auth_zero
      (Some (replicate 2048 0)) = (Ret c2, pend)" and es: "pa_eph_s pend = toy_enc 8"
    using server_run by blast
  have hdr: "auth_header_decode (Some (sent (cur (replicate 2048 0) packet_run))) =
      Ret (packet_header AUTH_PKT_AUTH_1 (replicate 16 7) 1, auth1_layout auth1_run)"
    unfolding sent_run by (rule packet_parse) simp
  have nz: "schnorr_nonzero (rewound_sodium 1) t (sc 4) \<lparr>prf_a = toy_enc 2, prf_s = sc 6\<rparr>" for t
    by (simp add: schnorr_nonzero_def chal_one sc_eq_iff small_mods)
  have rnd: "rnd_server rnd2_sample = le_enc 64 2" "rnd_nonce_s rnd2_sample = replicate 32 9" by (simp_all add: rnd2_sample_def)
  let ?sp = "\<lparr>prf_a = toy_enc 2, prf_s = sc 6\<rparr>"
  have "\<exists>sp. Ret ?sp = (Ret sp :: (auth_err, _) cres) \<and>
    (if schnorr_nonzero (rewound_sodium 1) (tr_auth_server (toy_enc 4) (prf_a sp) (replicate 32 9) (toy_enc 8)) (sc 4) sp
     then \<exists>ctx2 c3 ctx3 p3 c4. auth_client_handle_auth2 (rewound_sodium 1) client_run (Some (sent c2)) = (Ret (), ctx2) \<and>
       cc_session_key ctx2 = pa_session_key pend \<and> cc_kc_th ctx2 = pa_kc_th pend \<and>
       cc_kc_k_s2c ctx2 = pa_kc_k_s2c pend \<and> cc_kc_k_c2s ctx2 = pa_kc_k_c2s pend \<and>
       auth_client_build_auth3 (rewound_sodium 1) ctx2 (Some (replicate 2048 0)) = (Ret c3, ctx3) \<and>
       sent c3 = packet AUTH_PKT_AUTH_3 (cc_session_id ctx2) (cc_seq ctx2 + 1) p3 \<and>
       auth_server_handle_auth3 (rewound_sodium 1) pend (cc_session_id ctx2) (cc_seq ctx2 + 1) (Some p3)
         (Some (replicate 2048 0)) = Ret c4 \<and>
       auth_client_handle_auth_ack ctx3 (Some (sent c4)) = (Ret (), ctx3\<lparr>cc_auth_complete := True\<rparr>)
     else auth_client_handle_auth2 (rewound_sodium 1) client_run (Some (sent c2)) = (Fail AUTH_ERR_PROOF_VERIFY, client_run))"
    using auth_handshake_agrees [OF rewound_ristretto enrolled_sample rnd_samples_wf _ build_run canonical_sc
        rewound_base [OF ord] hdr, of "\<lambda>_. Ret (toy_enc 3, toy_enc 47)" "[2]" 1 pending_auth_zero "replicate 2048 0"
          c2 pend "replicate 2048 0" "replicate 2048 0", unfolded es rnd prove_server_run packet_header_sel, OF _ srv]
    by simp
  then have "\<exists>ctx2 c3 ctx3 p3 c4. auth_client_handle_auth2 (rewound_sodium 1) client_run (Some (sent c2)) = (Ret (), ctx2) \<and>
       cc_session_key ctx2 = pa_session_key pend \<and>
       auth_client_build_auth3 (rewound_sodium 1) ctx2 (Some (replicate 2048 0)) = (Ret c3, ctx3) \<and>
       auth_server_handle_auth3 (rewound_sodium 1) pend (cc_session_id ctx2) (cc_seq ctx2 + 1) (Some p3)
         (Some (replicate 2048 0)) = Ret c4 \<and>
       auth_client_handle_auth_ack ctx3 (Some (sent c4)) = (Ret (), ctx3\<lparr>cc_auth_complete := True\<rparr>)"
    using nz by (simp del: One_nat_def split_paired_Ex) blast
  with srv show ?thesis by blast
qed

end
