(* ===== verification/ReplayGuard.thy ===== *)
theory ReplayGuard
  imports Replay Handshake
begin

text \<open>
  The replay-protected AUTH_1 entry point (\<^verbatim>\<open>c/src/proto/replay_guard.c\<close>) and the state machine that decides
  after a restart whether the replay window may still be trusted (\<^verbatim>\<open>c/src/store/replay_continuity.c\<close>).
\<close>

subsection \<open>The guard\<close>

text \<open>The outcome comes with the pending record and the cache as the call leaves them.\<close>

definition auth_server_handle_auth1_guarded ::
    "sodium \<Rightarrow> auth2_random \<Rightarrow> auth_replay_cache option \<Rightarrow> byte list \<Rightarrow> u32 \<Rightarrow> byte list option \<Rightarrow> byte list \<Rightarrow>
     byte list \<Rightarrow> (byte list option \<Rightarrow> (auth_err, byte list \<times> byte list) cres) \<Rightarrow> u64 list option \<Rightarrow> nat \<Rightarrow>
     auth_pending_auth \<Rightarrow> byte list option \<Rightarrow>
     (auth_err, cursor) cres \<times> auth_pending_auth \<times> auth_replay_cache option" where
  "auth_server_handle_auth1_guarded S rnd replay_cache session_id seq in_payload server_sk server_pub lookup_fn
     allowed_roles n_allowed pending_out out =
     (if replay_cache = None \<or> in_payload = None \<or> allowed_roles = None \<or> out = None
      then (Fail AUTH_ERR_INVALID_ARGUMENT, pending_out, replay_cache)
      else
        try_c (auth_auth1_decode in_payload) (pending_out, replay_cache) (\<lambda>a1.
        let replay_key = auth_replay_key S (a1_pid a1) (a1_nonce_c a1) (a1_eph_c a1) in
        try_c (auth_replay_cache_contains replay_cache (Some replay_key)) (pending_out, replay_cache) (\<lambda>seen.
        if seen then (Fail AUTH_ERR_REPLAY_DETECTED, pending_out, replay_cache)
        else
          let (err, pending_out) =
                auth_server_handle_auth1 S rnd session_id seq in_payload server_sk server_pub lookup_fn
                  allowed_roles n_allowed pending_out out in
          try_c err (pending_out, replay_cache) (\<lambda>reply.
          try_c (auth_replay_cache_insert replay_cache (Some replay_key)) (pending_out, replay_cache)
            (\<lambda>(inserted, replay_cache).
          if \<not> inserted then (Fail AUTH_ERR_REPLAY_DETECTED, pending_auth_zero, replay_cache)
          else (Ret reply, pending_out, replay_cache))))))"

text \<open>The replay key of a payload.\<close>

definition key_of :: "sodium \<Rightarrow> auth_auth1 \<Rightarrow> byte list" where
  "key_of S a1 = auth_replay_key S (a1_pid a1) (a1_nonce_c a1) (a1_eph_c a1)"

lemma length_key_of: "ristretto255 S enc \<Longrightarrow> length (key_of S a1) = 32"
  by (simp add: key_of_def auth_replay_key_def sodium_digests)

text \<open>What the guard does with a message that decodes.\<close>

lemma guarded_decoded:
  assumes R: "ristretto255 S enc" and r: "ring.represents cache log" and a1: "auth_auth1_decode (Some p) = Ret a1"
  obtains c1 where "key_of S a1 \<notin> set (recent 64 log) \<Longrightarrow> ring.represents c1 (log @ [key_of S a1])"
    and "auth_server_handle_auth1_guarded S rnd cache sid seq (Some p) sk pub lookup (Some roles) n pending (Some buf) =
      (if key_of S a1 \<in> set (recent 64 log) then (Fail AUTH_ERR_REPLAY_DETECTED, pending, cache)
       else case auth_server_handle_auth1 S rnd sid seq (Some p) sk pub lookup (Some roles) n pending (Some buf) of
          (Ret c, pend) \<Rightarrow> (Ret c, pend, c1) | (h, pend) \<Rightarrow> (h, pend, cache))"
proof -
  note k = length_key_of [OF R, of a1]
  obtain c1 where ins: "auth_replay_cache_insert cache (Some (key_of S a1)) = Ret (key_of S a1 \<notin> set (recent 64 log), c1)"
    "ring.represents c1 (log_accept 64 (key_of S a1) log)" using ring.represents_add [OF r k] by blast
  have "cache \<noteq> None" using r by (auto simp: ring.represents_def wf_cache_ptr_def split: option.splits)
  then show thesis
    using a1 ins ring.represents_contains [OF r k]
    by (intro that [of c1])
      (auto simp: auth_server_handle_auth1_guarded_def key_of_def [symmetric] Let_def log_accept_def
        split: prod.splits cres.splits)
qed

lemma guarded_null:
  "cache = None \<or> inp = None \<or> roles = None \<or> out = None \<Longrightarrow>
   auth_server_handle_auth1_guarded S rnd cache sid seq inp sk pub lookup roles n pending out =
     (Fail AUTH_ERR_INVALID_ARGUMENT, pending, cache)"
  by (auto simp: auth_server_handle_auth1_guarded_def)

lemma guarded_undecoded:
  "cache \<noteq> None \<Longrightarrow> roles \<noteq> None \<Longrightarrow> out \<noteq> None \<Longrightarrow> auth_auth1_decode (Some p) = Fail e \<Longrightarrow>
   auth_server_handle_auth1_guarded S rnd cache sid seq (Some p) sk pub lookup roles n pending out = (Fail e, pending, cache)"
  by (auto simp: auth_server_handle_auth1_guarded_def)

lemma guarded_Ret:
  assumes R: "ristretto255 S enc" and r: "ring.represents cache log"
    and g: "auth_server_handle_auth1_guarded S rnd cache sid seq (Some p) sk pub lookup roles n pending out = (Ret c, pend, cache')"
  obtains a1 where "auth_auth1_decode (Some p) = Ret a1" and "key_of S a1 \<notin> set (recent 64 log)"
    and "auth_server_handle_auth1 S rnd sid seq (Some p) sk pub lookup roles n pending out = (Ret c, pend)"
    and "ring.represents cache' (log @ [key_of S a1])"
proof -
  have "\<not> (cache = None \<or> Some p = None \<or> roles = None \<or> out = None)"
    using guarded_null [of cache "Some p" roles out S rnd sid seq sk pub lookup n pending] g by fastforce
  then have nn: "cache \<noteq> None" "roles \<noteq> None" "out \<noteq> None" by simp_all
  then obtain rs buf where [simp]: "roles = Some rs" "out = Some buf" by auto
  obtain a1 where a1: "auth_auth1_decode (Some p) = Ret a1"
    using g guarded_undecoded [OF nn] auth1.dec_no_fault [of "Some p"] by (cases "auth_auth1_decode (Some p)") auto
  show thesis
    by (rule guarded_decoded [OF R r a1, of rnd sid seq sk pub lookup rs n pending buf])
      (use g that [OF a1] in \<open>auto split: if_splits prod.splits cres.splits\<close>)
qed

text \<open>A call that does not accept leaves the cache alone, and a fault can only come from the handler.\<close>

lemma guarded_not_Ret:
  assumes R: "ristretto255 S enc" and r: "ring.represents cache log"
    and g: "auth_server_handle_auth1_guarded S rnd cache sid seq inp sk pub lookup roles n pending out = (h, pend, cache')"
    and h: "\<forall>c. h \<noteq> Ret c"
  shows "cache' = cache \<and> (h = Fault \<longrightarrow> fst (auth_server_handle_auth1 S rnd sid seq inp sk pub lookup roles n pending out) = Fault)"
proof (cases "cache = None \<or> inp = None \<or> roles = None \<or> out = None")
  case False
  then obtain p rs buf where [simp]: "inp = Some p" "roles = Some rs" "out = Some buf" by auto
  show ?thesis
  proof (cases "auth_auth1_decode inp")
    case (Ret a1)
    then have a1: "auth_auth1_decode (Some p) = Ret a1" by simp
    show ?thesis
      by (rule guarded_decoded [OF R r a1, of rnd sid seq sk pub lookup rs n pending buf])
        (use g h in \<open>auto split: if_splits prod.splits cres.splits\<close>)
  qed (use g False auth1.dec_no_fault [of inp] guarded_undecoded [of cache roles out p] in auto)
qed (use g guarded_null in auto)

subsection \<open>Sequences of AUTH_1 packets through one cache\<close>

record auth1_request =
  rq_random :: auth2_random
  rq_session_id :: "byte list"
  rq_seq :: u32
  rq_payload :: "byte list"
  rq_lookup :: "byte list option \<Rightarrow> (auth_err, byte list \<times> byte list) cres"
  rq_out :: "byte list"

definition guarded_step ::
    "sodium \<Rightarrow> byte list \<Rightarrow> byte list \<Rightarrow> u64 list \<Rightarrow> auth1_request \<Rightarrow> auth_replay_cache option \<Rightarrow>
     (auth_err, cursor) cres \<times> auth_pending_auth \<times> auth_replay_cache option" where
  "guarded_step S sk pub roles rq cache =
     auth_server_handle_auth1_guarded S (rq_random rq) cache (rq_session_id rq) (rq_seq rq) (Some (rq_payload rq)) sk pub
       (rq_lookup rq) (Some roles) (length roles) pending_auth_zero (Some (rq_out rq))"

text \<open>The payloads accepted, in order, and the cache at the end.\<close>

fun guarded_run ::
    "sodium \<Rightarrow> byte list \<Rightarrow> byte list \<Rightarrow> u64 list \<Rightarrow> auth1_request list \<Rightarrow> auth_replay_cache option \<Rightarrow>
     byte list list \<times> auth_replay_cache option" where
  "guarded_run S sk pub roles [] cache = ([], cache)"
| "guarded_run S sk pub roles (rq # rqs) cache =
     (case guarded_step S sk pub roles rq cache of
        (Ret _, _, cache) \<Rightarrow> (let (ps, cache) = guarded_run S sk pub roles rqs cache in (rq_payload rq # ps, cache))
      | (_, _, cache) \<Rightarrow> guarded_run S sk pub roles rqs cache)"

definition payload_key :: "sodium \<Rightarrow> byte list \<Rightarrow> byte list" where
  "payload_key S p = (case auth_auth1_decode (Some p) of Ret a1 \<Rightarrow> key_of S a1 | _ \<Rightarrow> [])"

lemma guarded_run_log:
  assumes R: "ristretto255 S enc"
  shows "ring.represents cache log \<Longrightarrow> spaced 64 log \<Longrightarrow> guarded_run S sk pub roles rqs cache = (ps, cache') \<Longrightarrow>
    ring.represents cache' (log @ map (payload_key S) ps) \<and> spaced 64 (log @ map (payload_key S) ps)"
proof (induction rqs arbitrary: cache log ps)
  case (Cons rq rqs)
  obtain h pend c1 where st: "guarded_step S sk pub roles rq cache = (h, pend, c1)" by (cases "guarded_step S sk pub roles rq cache") auto
  show ?case
  proof (cases "\<exists>c. h = Ret c")
    case True
    then obtain c where h: "h = Ret c" ..
    obtain a1 where a1: "auth_auth1_decode (Some (rq_payload rq)) = Ret a1" "key_of S a1 \<notin> set (recent 64 log)"
      "ring.represents c1 (log @ [key_of S a1])"
      using guarded_Ret [OF R Cons.prems(1) st [unfolded guarded_step_def h]] by metis
    obtain ps' where ps: "guarded_run S sk pub roles rqs c1 = (ps', cache')" "ps = rq_payload rq # ps'"
      using Cons.prems(3) st h by (auto split: prod.splits)
    have "spaced 64 (log @ [key_of S a1])" using spaced_accept [OF Cons.prems(2), of "key_of S a1"] a1(2) by (simp add: log_accept_def)
    from Cons.IH [OF a1(3) this ps(1)] show ?thesis using ps(2) a1(1) by (simp add: payload_key_def)
  next
    case False
    then have "c1 = cache" using guarded_not_Ret [OF R Cons.prems(1) st [unfolded guarded_step_def]] by simp
    then have "guarded_run S sk pub roles rqs cache = (ps, cache')" using Cons.prems(3) st False by (cases h) auto
    then show ?thesis by (rule Cons.IH [OF Cons.prems(1,2)])
  qed
qed simp

text \<open>C4: An AUTH_1 message is not accepted twice within the replay window: whatever sequence of AUTH_1 packets goes
  through one cache (any session ids, randomness and candidates), two accepted messages with the same replay key have
  at least 64 other accepted messages between them, and a packet that is not accepted leaves the cache unchanged.\<close>

theorem guarded_replay_safe:
  assumes "ristretto255 S enc" and "guarded_run S sk pub roles rqs (auth_replay_cache_init (Some c0)) = (ps, cache')"
  shows "spaced 64 (map (payload_key S) ps) \<and>
    (\<forall>rq h pend cache''. guarded_step S sk pub roles rq cache' = (h, pend, cache'') \<longrightarrow> (\<forall>c. h \<noteq> Ret c) \<longrightarrow> cache'' = cache')"
proof -
  have "ring.represents (auth_replay_cache_init (Some c0)) []"
    using ring.represents_empty by (simp add: auth_replay_cache_init_def)
  from guarded_run_log [OF assms(1) this spaced_Nil assms(2)]
  have r: "ring.represents cache' (map (payload_key S) ps)" "spaced 64 (map (payload_key S) ps)" by simp_all
  then show ?thesis using guarded_not_Ret [OF assms(1) r(1)] unfolding guarded_step_def by blast
qed

text \<open>The AUTH_1 of the sample run, sent twice: the replay is refused.\<close>

definition request_run :: auth1_request where
  "request_run = \<lparr>rq_random = rnd2_sample, rq_session_id = replicate 16 7, rq_seq = 1, rq_payload = auth1_layout auth1_run,
     rq_lookup = (\<lambda>_. Ret (toy_enc 3, toy_enc 47)), rq_out = replicate 2048 0\<rparr>"

lemma guarded_run_twice:
  "\<exists>c. guarded_run (rewound_sodium 1) (sc 4) (toy_enc 4) [2] [request_run, request_run]
     (auth_replay_cache_init (Some auth_replay_cache_zero)) = ([auth1_layout auth1_run], c)"
proof -
  note R = rewound_ristretto [of 1]
  let ?G = "guarded_step (rewound_sodium 1) (sc 4) (toy_enc 4) [2] request_run"
  have r0: "ring.represents (auth_replay_cache_init (Some auth_replay_cache_zero)) []"
    using ring.represents_empty by (simp add: auth_replay_cache_init_def)
  have a1: "auth_auth1_decode (Some (auth1_layout auth1_run)) = Ret auth1_run"
    using auth1_run_wf by (simp add: auth1_decode_Ret_iff)
  obtain c2 pend where run: "auth_server_handle_auth1 (rewound_sodium 1) rnd2_sample (replicate 16 7) 1 (Some (auth1_layout auth1_run))
     (sc 4) (toy_enc 4) (\<lambda>_. Ret (toy_enc 3, toy_enc 47)) (Some [2]) 1 pending_auth_zero (Some (replicate 2048 0)) = (Ret c2, pend)"
    using server_run by blast
  note eqs = guarded_step_def request_run_def auth1_request.simps
  have "\<exists>c1. ring.represents c1 [key_of (rewound_sodium 1) auth1_run] \<and>
      ?G (auth_replay_cache_init (Some auth_replay_cache_zero)) = (Ret c2, pend, c1)"
    by (rule guarded_decoded [OF R r0 a1, of rnd2_sample "replicate 16 7" 1 "sc 4" "toy_enc 4" "\<lambda>_. Ret (toy_enc 3, toy_enc 47)"
          "[2]" 1 pending_auth_zero "replicate 2048 0"])
      (use run in \<open>auto simp: eqs recent_def\<close>)
  then obtain c1 where c1: "ring.represents c1 [key_of (rewound_sodium 1) auth1_run]"
    and s1: "?G (auth_replay_cache_init (Some auth_replay_cache_zero)) = (Ret c2, pend, c1)" by blast
  have s2: "?G c1 = (Fail AUTH_ERR_REPLAY_DETECTED, pending_auth_zero, c1)"
    by (rule guarded_decoded [OF R c1 a1, of rnd2_sample "replicate 16 7" 1 "sc 4" "toy_enc 4" "\<lambda>_. Ret (toy_enc 3, toy_enc 47)"
          "[2]" 1 pending_auth_zero "replicate 2048 0"])
      (auto simp: eqs recent_def)
  show ?thesis using s1 s2 by (simp add: request_run_def)
qed

theorem guarded_replay_safe_witness:
  "\<exists>c. guarded_run (rewound_sodium 1) (sc 4) (toy_enc 4) [2] [request_run, request_run]
     (auth_replay_cache_init (Some auth_replay_cache_zero)) = ([auth1_layout auth1_run], c) \<and>
     spaced 64 (map (payload_key (rewound_sodium 1)) [auth1_layout auth1_run])"
  using guarded_run_twice guarded_replay_safe [OF rewound_ristretto] by blast

subsection \<open>Continuity of the replay window across restarts\<close>

datatype auth_replay_continuity_state =
    AUTH_REPLAY_CONTINUITY_TRUSTED
  | AUTH_REPLAY_CONTINUITY_RESTORING
  | AUTH_REPLAY_CONTINUITY_BROKEN

datatype auth_replay_continuity_event =
    AUTH_REPLAY_EVENT_RESTART
  | AUTH_REPLAY_EVENT_RESTORED_TRUSTED_WINDOW
  | AUTH_REPLAY_EVENT_RESTORE_MISSING
  | AUTH_REPLAY_EVENT_RESTORE_CORRUPT
  | AUTH_REPLAY_EVENT_RESTORE_STALE
  | AUTH_REPLAY_EVENT_ROLLBACK_SUSPECTED
  | AUTH_REPLAY_EVENT_EMPTY_CACHE_RESET
  | AUTH_REPLAY_EVENT_FRESH_OUTER_SESSION
  | AUTH_REPLAY_EVENT_FAILED_AUTH

record auth_replay_continuity =
  co_state :: auth_replay_continuity_state

definition auth_replay_continuity_init ::
    "auth_replay_continuity option \<Rightarrow> auth_replay_continuity_state \<Rightarrow> auth_replay_continuity option" where
  "auth_replay_continuity_init continuity state =
     (case continuity of None \<Rightarrow> None | Some c \<Rightarrow> Some (c\<lparr>co_state := state\<rparr>))"

definition auth_replay_continuity_apply ::
    "auth_replay_continuity option \<Rightarrow> auth_replay_continuity_event \<Rightarrow> int \<times> auth_replay_continuity option" where
  "auth_replay_continuity_apply continuity event =
     (case continuity of
        None \<Rightarrow> (-1, None)
      | Some c \<Rightarrow>
          (case co_state c of
             AUTH_REPLAY_CONTINUITY_TRUSTED \<Rightarrow>
               if event = AUTH_REPLAY_EVENT_RESTART
               then (0, Some (c\<lparr>co_state := AUTH_REPLAY_CONTINUITY_RESTORING\<rparr>))
               else if event = AUTH_REPLAY_EVENT_FAILED_AUTH then (0, continuity)
               else (-1, continuity)
           | AUTH_REPLAY_CONTINUITY_RESTORING \<Rightarrow>
               if event = AUTH_REPLAY_EVENT_RESTORED_TRUSTED_WINDOW
               then (0, Some (c\<lparr>co_state := AUTH_REPLAY_CONTINUITY_TRUSTED\<rparr>))
               else if event = AUTH_REPLAY_EVENT_RESTORE_MISSING \<or> event = AUTH_REPLAY_EVENT_RESTORE_CORRUPT \<or>
                 event = AUTH_REPLAY_EVENT_RESTORE_STALE \<or> event = AUTH_REPLAY_EVENT_ROLLBACK_SUSPECTED
               then (0, Some (c\<lparr>co_state := AUTH_REPLAY_CONTINUITY_BROKEN\<rparr>))
               else if event = AUTH_REPLAY_EVENT_FAILED_AUTH then (0, continuity)
               else (-1, continuity)
           | AUTH_REPLAY_CONTINUITY_BROKEN \<Rightarrow>
               if event = AUTH_REPLAY_EVENT_EMPTY_CACHE_RESET \<or> event = AUTH_REPLAY_EVENT_FRESH_OUTER_SESSION \<or>
                 event = AUTH_REPLAY_EVENT_FAILED_AUTH
               then (0, continuity)
               else (-1, continuity)))"

definition auth_replay_continuity_auth_allowed :: "auth_replay_continuity option \<Rightarrow> bool" where
  "auth_replay_continuity_auth_allowed continuity =
     (case continuity of None \<Rightarrow> False | Some c \<Rightarrow> co_state c = AUTH_REPLAY_CONTINUITY_TRUSTED)"

definition continuity_run ::
    "auth_replay_continuity_event list \<Rightarrow> auth_replay_continuity option \<Rightarrow> auth_replay_continuity option" where
  "continuity_run evs c = fold (\<lambda>ev c. snd (auth_replay_continuity_apply c ev)) evs c"

definition restore_failure :: "auth_replay_continuity_event \<Rightarrow> bool" where
  "restore_failure ev \<longleftrightarrow> ev \<in> {AUTH_REPLAY_EVENT_RESTORE_MISSING, AUTH_REPLAY_EVENT_RESTORE_CORRUPT,
     AUTH_REPLAY_EVENT_RESTORE_STALE, AUTH_REPLAY_EVENT_ROLLBACK_SUSPECTED}"

lemma continuity_run_append: "continuity_run (xs @ ys) c = continuity_run ys (continuity_run xs c)"
  by (simp add: continuity_run_def)

lemma continuity_run_simps [simp]:
  "continuity_run [] c = c" "continuity_run (ev # evs) c = continuity_run evs (snd (auth_replay_continuity_apply c ev))"
  by (simp_all add: continuity_run_def)

lemma continuity_broken:
  "co_state c = AUTH_REPLAY_CONTINUITY_BROKEN \<Longrightarrow> continuity_run evs (Some c) = Some c"
  by (induction evs) (simp_all add: auth_replay_continuity_apply_def)

lemma continuity_restart:
  "\<exists>c'. snd (auth_replay_continuity_apply (Some c) AUTH_REPLAY_EVENT_RESTART) = Some c' \<and>
     co_state c' \<noteq> AUTH_REPLAY_CONTINUITY_TRUSTED"
  by (cases "co_state c") (simp_all add: auth_replay_continuity_apply_def)

lemma continuity_Some: "\<exists>c'. continuity_run evs (Some c) = Some c'"
proof (induction evs arbitrary: c)
  case (Cons ev evs)
  have "\<exists>c'. snd (auth_replay_continuity_apply (Some c) ev) = Some c'"
    by (cases "co_state c") (auto simp: auth_replay_continuity_apply_def)
  then show ?case using Cons.IH by auto
qed simp

lemma continuity_regain:
  "co_state c \<noteq> AUTH_REPLAY_CONTINUITY_TRUSTED \<Longrightarrow> auth_replay_continuity_auth_allowed (continuity_run evs (Some c)) \<Longrightarrow>
   \<exists>us vs. evs = us @ AUTH_REPLAY_EVENT_RESTORED_TRUSTED_WINDOW # vs \<and> (\<forall>ev \<in> set us. \<not> restore_failure ev)"
proof (induction evs arbitrary: c)
  case Nil
  then show ?case by (simp add: auth_replay_continuity_auth_allowed_def)
next
  case (Cons ev evs)
  have restoring: "co_state c = AUTH_REPLAY_CONTINUITY_RESTORING"
    using Cons.prems continuity_broken [of c "ev # evs"]
    by (cases "co_state c") (auto simp: auth_replay_continuity_auth_allowed_def)
  have good: "\<not> restore_failure ev"
  proof
    assume "restore_failure ev"
    then have "snd (auth_replay_continuity_apply (Some c) ev) = Some (c\<lparr>co_state := AUTH_REPLAY_CONTINUITY_BROKEN\<rparr>)"
      using restoring by (auto simp: auth_replay_continuity_apply_def restore_failure_def)
    then show False
      using Cons.prems(2) continuity_broken [of "c\<lparr>co_state := AUTH_REPLAY_CONTINUITY_BROKEN\<rparr>" evs]
      by (simp add: auth_replay_continuity_auth_allowed_def)
  qed
  show ?case
  proof (cases "ev = AUTH_REPLAY_EVENT_RESTORED_TRUSTED_WINDOW")
    case True
    then show ?thesis by (intro exI [of _ "[]"] exI [of _ evs]) simp
  next
    case False
    then have "snd (auth_replay_continuity_apply (Some c) ev) = Some c"
      using restoring good by (auto simp: auth_replay_continuity_apply_def restore_failure_def)
    then obtain us vs where "evs = us @ AUTH_REPLAY_EVENT_RESTORED_TRUSTED_WINDOW # vs" "\<forall>e \<in> set us. \<not> restore_failure e"
      using Cons.IH [OF Cons.prems(1)] Cons.prems(2) by auto
    then show ?thesis using good by (intro exI [of _ "ev # us"] exI [of _ vs]) simp
  qed
qed

text \<open>C37: After a restart, authentication is allowed again only through a restored trusted window: in every run of
  events (accepted or refused), from every state, if authentication is allowed after a RESTART event then the window
  was restored after that RESTART, with no missing, corrupt, stale or rolled-back restore before it.\<close>

theorem continuity_restart_safe:
  assumes "auth_replay_continuity_auth_allowed (continuity_run (xs @ AUTH_REPLAY_EVENT_RESTART # ys) (Some c))"
  shows "\<exists>us vs. ys = us @ AUTH_REPLAY_EVENT_RESTORED_TRUSTED_WINDOW # vs \<and> (\<forall>ev \<in> set us. \<not> restore_failure ev)"
proof -
  obtain c1 where c1: "continuity_run xs (Some c) = Some c1" using continuity_Some by blast
  obtain c2 where "snd (auth_replay_continuity_apply (Some c1) AUTH_REPLAY_EVENT_RESTART) = Some c2"
    "co_state c2 \<noteq> AUTH_REPLAY_CONTINUITY_TRUSTED" using continuity_restart by blast
  then show ?thesis using assms c1 continuity_regain [of c2 ys] by (simp add: continuity_run_append)
qed

theorem continuity_restart_safe_witness:
  "\<exists>us vs. [AUTH_REPLAY_EVENT_FAILED_AUTH, AUTH_REPLAY_EVENT_RESTORED_TRUSTED_WINDOW] =
     us @ AUTH_REPLAY_EVENT_RESTORED_TRUSTED_WINDOW # vs \<and> (\<forall>ev \<in> set us. \<not> restore_failure ev)"
  by (rule continuity_restart_safe [of "[]" _ "\<lparr>co_state = AUTH_REPLAY_CONTINUITY_TRUSTED\<rparr>"])
    (simp add: auth_replay_continuity_apply_def auth_replay_continuity_auth_allowed_def)

end
