(* ===== verification/SessionTable.thy ===== *)
theory SessionTable
  imports ServerProto
begin

text \<open>
  The table of pending sessions (\<^verbatim>\<open>c/src/store/session_table.c\<close>): 64 slots, each free, reserved, or holding the
  pending state of an enrolment or of an authentication. The contract of a session pool, a partial map from slot
  numbers to sessions, is stated as a locale and the table meets it.
\<close>

abbreviation (input) AUTH_SESSION_TABLE_CAPACITY :: nat where "AUTH_SESSION_TABLE_CAPACITY \<equiv> 64"

datatype auth_session_slot_state =
    AUTH_SESSION_SLOT_FREE
  | AUTH_SESSION_SLOT_RESERVED
  | AUTH_SESSION_SLOT_SETUP
  | AUTH_SESSION_SLOT_AUTH

text \<open>The union of a slot: all zero bytes, or the member last written. Reading zero bytes as a struct gives the zero
  struct; reading one member after the other was written is not a value of the model.\<close>

datatype slot_pending =
    Pending_zero
  | Pending_setup auth_pending_setup
  | Pending_auth auth_pending_auth

primrec pending_as_setup :: "slot_pending \<Rightarrow> (auth_err, auth_pending_setup) cres" where
  "pending_as_setup Pending_zero = Ret pending_setup_zero"
| "pending_as_setup (Pending_setup p) = Ret p"
| "pending_as_setup (Pending_auth p) = Fault"

primrec pending_as_auth :: "slot_pending \<Rightarrow> (auth_err, auth_pending_auth) cres" where
  "pending_as_auth Pending_zero = Ret pending_auth_zero"
| "pending_as_auth (Pending_setup p) = Fault"
| "pending_as_auth (Pending_auth p) = Ret p"

record auth_session_slot =
  sl_state :: auth_session_slot_state
  sl_pending :: slot_pending

record auth_session_table =
  st_slots :: "auth_session_slot list"

definition slot_zero :: auth_session_slot where
  "slot_zero = \<lparr>sl_state = AUTH_SESSION_SLOT_FREE, sl_pending = Pending_zero\<rparr>"

definition valid_slot :: "int \<Rightarrow> bool" where
  "valid_slot slot \<longleftrightarrow> 0 \<le> slot \<and> nat slot < AUTH_SESSION_TABLE_CAPACITY"

definition auth_session_table_zero :: auth_session_table where
  "auth_session_table_zero = \<lparr>st_slots = replicate AUTH_SESSION_TABLE_CAPACITY slot_zero\<rparr>"

definition auth_session_table_init :: "auth_session_table option \<Rightarrow> auth_session_table option" where
  "auth_session_table_init table = (case table of None \<Rightarrow> None | Some _ \<Rightarrow> Some auth_session_table_zero)"

text \<open>\<^verbatim>\<open>for (; i < 64; ++i) if (test(&table->slots[i])) return (int)i; return -1;\<close> with \<open>m\<close> rounds to go.\<close>

fun find_slot :: "(auth_session_slot \<Rightarrow> (auth_err, bool) cres) \<Rightarrow> auth_session_slot list \<Rightarrow> nat \<Rightarrow> nat \<Rightarrow> (auth_err, int) cres" where
  "find_slot test slots i 0 = Ret (- 1)"
| "find_slot test slots i (Suc m) =
     (if i < length slots
      then bnd (test (slots ! i)) (\<lambda>hit. if hit then Ret (int i) else find_slot test slots (Suc i) m)
      else Fault)"

definition auth_session_table_reserve ::
    "auth_session_table option \<Rightarrow> (auth_err, int \<times> auth_session_table option) cres" where
  "auth_session_table_reserve table =
     (case table of
        None \<Rightarrow> Ret (- 1, None)
      | Some t \<Rightarrow>
          bnd (find_slot (\<lambda>e. Ret (sl_state e = AUTH_SESSION_SLOT_FREE)) (st_slots t) 0 AUTH_SESSION_TABLE_CAPACITY) (\<lambda>i.
          if i < 0 then Ret (- 1, table)
          else Ret (i, Some (t\<lparr>st_slots := (st_slots t)[nat i := slot_zero\<lparr>sl_state := AUTH_SESSION_SLOT_RESERVED\<rparr>]\<rparr>))))"

text \<open>\<^verbatim>\<open>table->slots[slot]\<close>\<close>

definition slot_at :: "auth_session_table \<Rightarrow> int \<Rightarrow> (auth_err, auth_session_slot) cres" where
  "slot_at t slot = (if nat slot < length (st_slots t) then Ret (st_slots t ! nat slot) else Fault)"

definition auth_session_table_activate_setup ::
    "auth_session_table option \<Rightarrow> int \<Rightarrow> auth_pending_setup option \<Rightarrow> (auth_err, auth_session_table) cres" where
  "auth_session_table_activate_setup table slot pending =
     (case (table, pending) of
        (Some t, Some p) \<Rightarrow>
          if \<not> valid_slot slot then Fail AUTH_ERR_INVALID_ARGUMENT
          else
            bnd (slot_at t slot) (\<lambda>entry.
            if sl_state entry \<noteq> AUTH_SESSION_SLOT_RESERVED then Fail AUTH_ERR_INVALID_ARGUMENT
            else Ret (t\<lparr>st_slots := (st_slots t)[nat slot :=
                       entry\<lparr>sl_pending := Pending_setup p, sl_state := AUTH_SESSION_SLOT_SETUP\<rparr>]\<rparr>))
      | _ \<Rightarrow> Fail AUTH_ERR_INVALID_ARGUMENT)"

definition auth_session_table_activate_auth ::
    "auth_session_table option \<Rightarrow> int \<Rightarrow> auth_pending_auth option \<Rightarrow> (auth_err, auth_session_table) cres" where
  "auth_session_table_activate_auth table slot pending =
     (case (table, pending) of
        (Some t, Some p) \<Rightarrow>
          if \<not> valid_slot slot then Fail AUTH_ERR_INVALID_ARGUMENT
          else
            bnd (slot_at t slot) (\<lambda>entry.
            if sl_state entry \<noteq> AUTH_SESSION_SLOT_RESERVED then Fail AUTH_ERR_INVALID_ARGUMENT
            else Ret (t\<lparr>st_slots := (st_slots t)[nat slot :=
                       entry\<lparr>sl_pending := Pending_auth p, sl_state := AUTH_SESSION_SLOT_AUTH\<rparr>]\<rparr>))
      | _ \<Rightarrow> Fail AUTH_ERR_INVALID_ARGUMENT)"

definition auth_session_table_find_setup ::
    "auth_session_table option \<Rightarrow> byte list option \<Rightarrow> (auth_err, int) cres" where
  "auth_session_table_find_setup table session_id =
     (case (table, session_id) of
        (Some t, Some sid) \<Rightarrow>
          find_slot (\<lambda>entry.
            if sl_state entry = AUTH_SESSION_SLOT_SETUP
            then bnd (pending_as_setup (sl_pending entry)) (\<lambda>p. Ret (ps_session_id p = sid))
            else Ret False) (st_slots t) 0 AUTH_SESSION_TABLE_CAPACITY
      | _ \<Rightarrow> Ret (- 1))"

definition auth_session_table_find_auth ::
    "auth_session_table option \<Rightarrow> byte list option \<Rightarrow> (auth_err, int) cres" where
  "auth_session_table_find_auth table session_id =
     (case (table, session_id) of
        (Some t, Some sid) \<Rightarrow>
          find_slot (\<lambda>entry.
            if sl_state entry = AUTH_SESSION_SLOT_AUTH
            then bnd (pending_as_auth (sl_pending entry)) (\<lambda>p. Ret (pa_session_id p = sid))
            else Ret False) (st_slots t) 0 AUTH_SESSION_TABLE_CAPACITY
      | _ \<Rightarrow> Ret (- 1))"

definition auth_session_table_release ::
    "auth_session_table option \<Rightarrow> int \<Rightarrow> (auth_err, auth_session_table) cres" where
  "auth_session_table_release table slot =
     (case table of
        None \<Rightarrow> Fail AUTH_ERR_INVALID_ARGUMENT
      | Some t \<Rightarrow>
          if \<not> valid_slot slot then Fail AUTH_ERR_INVALID_ARGUMENT
          else bnd (slot_at t slot) (\<lambda>_. Ret (t\<lparr>st_slots := (st_slots t)[nat slot := slot_zero]\<rparr>)))"

definition auth_session_table_state :: "auth_session_table option \<Rightarrow> int \<Rightarrow> (auth_err, auth_session_slot_state) cres" where
  "auth_session_table_state table slot =
     (case table of
        None \<Rightarrow> Ret AUTH_SESSION_SLOT_FREE
      | Some t \<Rightarrow>
          if \<not> valid_slot slot then Ret AUTH_SESSION_SLOT_FREE
          else bnd (slot_at t slot) (\<lambda>entry. Ret (sl_state entry)))"

subsection \<open>The contract of a session pool\<close>

datatype session = Reserved | In_setup auth_pending_setup | In_auth auth_pending_auth

definition setup_of :: "byte list \<Rightarrow> session option \<Rightarrow> bool" where
  "setup_of sid s \<longleftrightarrow> (\<exists>p. s = Some (In_setup p) \<and> ps_session_id p = sid)"

definition auth_of :: "byte list \<Rightarrow> session option \<Rightarrow> bool" where
  "auth_of sid s \<longleftrightarrow> (\<exists>p. s = Some (In_auth p) \<and> pa_session_id p = sid)"

text \<open>The first slot that satisfies a test.\<close>

definition first_slot :: "nat \<Rightarrow> (nat \<Rightarrow> bool) \<Rightarrow> int" where
  "first_slot cap P = (case filter P [0..<cap] of [] \<Rightarrow> - 1 | i # _ \<Rightarrow> int i)"

lemma first_slot_cases:
  obtains (none) "first_slot cap P = - 1" "\<forall>i < cap. \<not> P i"
  | (some) i where "first_slot cap P = int i" "i < cap" "P i"
proof (cases "filter P [0..<cap]")
  case Nil
  then show ?thesis using none by (auto simp: first_slot_def filter_empty_conv)
next
  case (Cons i js)
  then have "i \<in> set (filter P [0..<cap])" by (metis list.set_intros(1))
  then have "i < cap" "P i" by simp_all
  then show ?thesis using Cons some [of i] by (simp add: first_slot_def)
qed

lemma first_slot_neg: "first_slot cap P < 0 \<longleftrightarrow> (\<forall>i < cap. \<not> P i)"
  by (rule first_slot_cases [of cap P]) auto

lemma first_slotD: "0 \<le> first_slot cap P \<Longrightarrow> nat (first_slot cap P) < cap \<and> P (nat (first_slot cap P))"
  by (rule first_slot_cases [of cap P]) auto

locale session_pool =
  fixes cap :: nat and inv :: "'t \<Rightarrow> bool" and view :: "'t \<Rightarrow> nat \<Rightarrow> session option"
    and reserve :: "'t option \<Rightarrow> (auth_err, int \<times> 't option) cres"
    and activate_setup :: "'t option \<Rightarrow> int \<Rightarrow> auth_pending_setup option \<Rightarrow> (auth_err, 't) cres"
    and activate_auth :: "'t option \<Rightarrow> int \<Rightarrow> auth_pending_auth option \<Rightarrow> (auth_err, 't) cres"
    and find_setup :: "'t option \<Rightarrow> byte list option \<Rightarrow> (auth_err, int) cres"
    and find_auth :: "'t option \<Rightarrow> byte list option \<Rightarrow> (auth_err, int) cres"
    and release :: "'t option \<Rightarrow> int \<Rightarrow> (auth_err, 't) cres"
  assumes view_dom: "inv t \<Longrightarrow> view t i \<noteq> None \<Longrightarrow> i < cap"
    and reserve_full: "inv t \<Longrightarrow> first_slot cap (\<lambda>i. view t i = None) < 0 \<Longrightarrow> reserve (Some t) = Ret (- 1, Some t)"
    and reserve_free: "inv t \<Longrightarrow> i < cap \<Longrightarrow> first_slot cap (\<lambda>i. view t i = None) = int i \<Longrightarrow>
      \<exists>t'. reserve (Some t) = Ret (int i, Some t') \<and> inv t' \<and> view t' = (view t)(i \<mapsto> Reserved)"
    and activate_setup_ok: "inv t \<Longrightarrow> i < cap \<Longrightarrow> view t i = Some Reserved \<Longrightarrow>
      \<exists>t'. activate_setup (Some t) (int i) (Some p) = Ret t' \<and> inv t' \<and> view t' = (view t)(i \<mapsto> In_setup p)"
    and activate_setup_bad: "inv t \<Longrightarrow> i < cap \<Longrightarrow> view t i \<noteq> Some Reserved \<Longrightarrow>
      activate_setup (Some t) (int i) (Some p) = Fail AUTH_ERR_INVALID_ARGUMENT"
    and activate_auth_ok: "inv t \<Longrightarrow> i < cap \<Longrightarrow> view t i = Some Reserved \<Longrightarrow>
      \<exists>t'. activate_auth (Some t) (int i) (Some q) = Ret t' \<and> inv t' \<and> view t' = (view t)(i \<mapsto> In_auth q)"
    and activate_auth_bad: "inv t \<Longrightarrow> i < cap \<Longrightarrow> view t i \<noteq> Some Reserved \<Longrightarrow>
      activate_auth (Some t) (int i) (Some q) = Fail AUTH_ERR_INVALID_ARGUMENT"
    and find_setup_eq: "inv t \<Longrightarrow> find_setup (Some t) (Some sid) = Ret (first_slot cap (\<lambda>i. setup_of sid (view t i)))"
    and find_auth_eq: "inv t \<Longrightarrow> find_auth (Some t) (Some sid) = Ret (first_slot cap (\<lambda>i. auth_of sid (view t i)))"
    and release_ok: "inv t \<Longrightarrow> i < cap \<Longrightarrow>
      \<exists>t'. release (Some t) (int i) = Ret t' \<and> inv t' \<and> view t' = (view t)(i := None)"
begin

text \<open>What a server relies on: either the pool is full, or the slot it gets was free, and giving the slot back
  restores the pool.\<close>

lemma reserve_cases:
  assumes "inv t"
  obtains (full) "reserve (Some t) = Ret (- 1, Some t)" "\<forall>i < cap. view t i \<noteq> None"
  | (slot) i t' where "reserve (Some t) = Ret (int i, Some t')" "i < cap" "view t i = None" "inv t'"
      "view t' = (view t)(i \<mapsto> Reserved)"
proof (rule first_slot_cases [of cap "\<lambda>i. view t i = None"])
  assume "first_slot cap (\<lambda>i. view t i = None) = - 1" "\<forall>i < cap. \<not> view t i = None"
  then show thesis using full reserve_full [OF assms] by simp
next
  fix i assume "first_slot cap (\<lambda>i. view t i = None) = int i" "i < cap" "view t i = None"
  then show thesis using slot reserve_free [OF assms] by metis
qed

lemma reserve_release:
  assumes "inv t" and "reserve (Some t) = Ret (int i, Some t')" and "i < cap"
  obtains t'' where "release (Some t') (int i) = Ret t''" "inv t''" "view t'' = view t"
proof (rule reserve_cases [OF assms(1)])
  fix j t1 assume *: "reserve (Some t) = Ret (int j, Some t1)" "j < cap" "view t j = None" "inv t1"
    "view t1 = (view t)(j \<mapsto> Reserved)"
  then have "j = i" "t1 = t'" using assms(2) by simp_all
  with * release_ok [of t' i] show thesis by (metis that fun_upd_triv fun_upd_upd)
qed (use assms(2) in simp)

text \<open>A session that was activated in a reserved slot is found again by its id.\<close>

lemma activate_auth_find:
  assumes "inv t" and "i < cap" and "view t i = Some Reserved" and "activate_auth (Some t) (int i) (Some q) = Ret t'"
  shows "\<exists>j < cap. find_auth (Some t') (Some (pa_session_id q)) = Ret (int j) \<and> auth_of (pa_session_id q) (view t' j)"
proof -
  have t': "inv t'" "view t' = (view t)(i \<mapsto> In_auth q)" using activate_auth_ok [OF assms(1-3), of q] assms(4) by auto
  then have "auth_of (pa_session_id q) (view t' i)" by (simp add: auth_of_def)
  then show ?thesis
    using find_auth_eq [OF t'(1), of "pa_session_id q"] assms(2)
    by (cases rule: first_slot_cases [of cap "\<lambda>i. auth_of (pa_session_id q) (view t' i)"]) auto
qed

text \<open>The number of slots in use.\<close>

definition used :: "'t \<Rightarrow> nat" where
  "used t = card (dom (view t))"

lemma finite_dom: "inv t \<Longrightarrow> finite (dom (view t))"
  by (rule finite_subset [of _ "{..<cap}"]) (auto dest: view_dom)

lemma used_le: "inv t \<Longrightarrow> used t \<le> cap"
  using card_mono [of "{..<cap}" "dom (view t)"] by (auto simp: used_def dest: view_dom)

lemma reserve_iff_room: "inv t \<Longrightarrow> reserve (Some t) = Ret (- 1, Some t) \<longleftrightarrow> used t = cap"
proof
  assume t: "inv t" and "used t = cap"
  then have "dom (view t) = {..<cap}"
    by (intro card_subset_eq) (auto simp: used_def dest: view_dom)
  then show "reserve (Some t) = Ret (- 1, Some t)"
    by (cases rule: reserve_cases [OF t]) auto
next
  assume t: "inv t" and *: "reserve (Some t) = Ret (- 1, Some t)"
  then have "\<forall>i < cap. view t i \<noteq> None" by (cases rule: reserve_cases [OF t]) auto
  then have "dom (view t) = {..<cap}" using view_dom [OF t] by auto
  then show "used t = cap" by (simp add: used_def)
qed

end

subsection \<open>The table meets the contract\<close>

definition wf_slot :: "auth_session_slot \<Rightarrow> bool" where
  [wf_defs]: "wf_slot e \<longleftrightarrow>
     (case sl_state e of
        AUTH_SESSION_SLOT_SETUP \<Rightarrow> (\<exists>p. sl_pending e = Pending_setup p)
      | AUTH_SESSION_SLOT_AUTH \<Rightarrow> (\<exists>p. sl_pending e = Pending_auth p)
      | _ \<Rightarrow> True)"

definition wf_table :: "auth_session_table \<Rightarrow> bool" where
  [wf_defs]: "wf_table t \<longleftrightarrow> length (st_slots t) = 64 \<and> (\<forall>e \<in> set (st_slots t). wf_slot e)"

definition slot_view :: "auth_session_slot \<Rightarrow> session option" where
  "slot_view e =
     (case (sl_state e, sl_pending e) of
        (AUTH_SESSION_SLOT_RESERVED, _) \<Rightarrow> Some Reserved
      | (AUTH_SESSION_SLOT_SETUP, Pending_setup p) \<Rightarrow> Some (In_setup p)
      | (AUTH_SESSION_SLOT_AUTH, Pending_auth p) \<Rightarrow> Some (In_auth p)
      | _ \<Rightarrow> None)"

definition table_view :: "auth_session_table \<Rightarrow> nat \<Rightarrow> session option" where
  "table_view t i = (if i < length (st_slots t) then slot_view (st_slots t ! i) else None)"

lemma find_slot_eq:
  assumes "\<And>e. e \<in> set slots \<Longrightarrow> test e = Ret (P e)"
  shows "i + m \<le> length slots \<Longrightarrow>
    find_slot test slots i m = Ret (case filter (\<lambda>j. P (slots ! j)) [i..<i + m] of [] \<Rightarrow> - 1 | j # _ \<Rightarrow> int j)"
proof (induction m arbitrary: i)
  case (Suc m)
  then have "test (slots ! i) = Ret (P (slots ! i))" using assms by simp
  moreover have "[i..<i + Suc m] = i # [Suc i..<Suc i + m]" by (simp add: upt_rec)
  ultimately show ?case using Suc.IH [of "Suc i"] Suc.prems by simp
qed simp

lemma find_slot_first:
  assumes "length slots = 64" and "\<And>e. e \<in> set slots \<Longrightarrow> test e = Ret (P e)"
  shows "find_slot test slots 0 64 = Ret (first_slot 64 (\<lambda>i. P (slots ! i)))"
  using find_slot_eq [of slots test P 0 64] assms by (simp add: first_slot_def)

lemma first_slot_cong: "(\<And>i. i < cap \<Longrightarrow> P i = Q i) \<Longrightarrow> first_slot cap P = first_slot cap Q"
  using filter_cong [of "[0..<cap]" "[0..<cap]" P Q] by (simp add: first_slot_def)

lemma slot_free_iff: "wf_slot e \<Longrightarrow> sl_state e = AUTH_SESSION_SLOT_FREE \<longleftrightarrow> slot_view e = None"
  by (auto simp: wf_slot_def slot_view_def split: auth_session_slot_state.splits)

lemma slot_reserved_iff: "wf_slot e \<Longrightarrow> sl_state e = AUTH_SESSION_SLOT_RESERVED \<longleftrightarrow> slot_view e = Some Reserved"
  by (auto simp: wf_slot_def slot_view_def split: auth_session_slot_state.splits)

lemma wf_table_nth: "wf_table t \<Longrightarrow> i < 64 \<Longrightarrow> i < length (st_slots t) \<and> wf_slot (st_slots t ! i)"
  by (simp add: wf_table_def)

lemma table_upd:
  assumes "wf_table t" and "i < 64" and "wf_slot e"
  shows "wf_table (t\<lparr>st_slots := (st_slots t)[i := e]\<rparr>)"
    and "table_view (t\<lparr>st_slots := (st_slots t)[i := e]\<rparr>) = (table_view t)(i := slot_view e)"
proof -
  show "wf_table (t\<lparr>st_slots := (st_slots t)[i := e]\<rparr>)"
    using assms by (auto simp: wf_table_def dest: set_update_subset_insert [THEN subsetD])
  show "table_view (t\<lparr>st_slots := (st_slots t)[i := e]\<rparr>) = (table_view t)(i := slot_view e)"
    using assms by (auto simp: table_view_def fun_eq_iff wf_table_def)
qed

lemma find_free: "wf_table t \<Longrightarrow>
  find_slot (\<lambda>e. Ret (sl_state e = AUTH_SESSION_SLOT_FREE)) (st_slots t) 0 64 = Ret (first_slot 64 (\<lambda>i. table_view t i = None))"
  using find_slot_first [of "st_slots t" "\<lambda>e. Ret (sl_state e = AUTH_SESSION_SLOT_FREE)" "\<lambda>e. sl_state e = AUTH_SESSION_SLOT_FREE"]
    first_slot_cong [of 64 "\<lambda>i. sl_state (st_slots t ! i) = AUTH_SESSION_SLOT_FREE" "\<lambda>i. table_view t i = None"]
  by (simp add: wf_table_def table_view_def slot_free_iff)

interpretation table: session_pool 64 wf_table table_view auth_session_table_reserve auth_session_table_activate_setup
  auth_session_table_activate_auth auth_session_table_find_setup auth_session_table_find_auth auth_session_table_release
proof unfold_locales
  fix t i assume "wf_table t" "table_view t i \<noteq> None"
  then show "i < 64" by (auto simp: table_view_def wf_table_def split: if_splits)
next
  fix t assume "wf_table t" "first_slot 64 (\<lambda>i. table_view t i = None) < 0"
  then show "auth_session_table_reserve (Some t) = Ret (- 1, Some t)"
    by (simp add: auth_session_table_reserve_def find_free)
next
  fix t i assume t: "wf_table t" "i < 64" "first_slot 64 (\<lambda>i. table_view t i = None) = int i"
  let ?e = "slot_zero\<lparr>sl_state := AUTH_SESSION_SLOT_RESERVED\<rparr>"
  have "wf_slot ?e" "slot_view ?e = Some Reserved" by (simp_all add: wf_slot_def slot_view_def)
  with t show "\<exists>t'. auth_session_table_reserve (Some t) = Ret (int i, Some t') \<and> wf_table t' \<and>
      table_view t' = (table_view t)(i \<mapsto> Reserved)"
    using table_upd [OF t(1,2), of ?e] by (simp add: auth_session_table_reserve_def find_free)
next
  fix t i p assume t: "wf_table t" "i < 64" "table_view t i = Some Reserved"
  let ?e = "(st_slots t ! i)\<lparr>sl_pending := Pending_setup p, sl_state := AUTH_SESSION_SLOT_SETUP\<rparr>"
  have "wf_slot ?e" "slot_view ?e = Some (In_setup p)" by (simp_all add: wf_slot_def slot_view_def)
  with t show "\<exists>t'. auth_session_table_activate_setup (Some t) (int i) (Some p) = Ret t' \<and> wf_table t' \<and>
      table_view t' = (table_view t)(i \<mapsto> In_setup p)"
    using table_upd [OF t(1,2), of ?e] wf_table_nth [OF t(1,2)]
    by (simp add: auth_session_table_activate_setup_def valid_slot_def slot_at_def table_view_def slot_reserved_iff)
next
  fix t i p assume t: "wf_table t" "i < 64" "table_view t i \<noteq> Some Reserved"
  then show "auth_session_table_activate_setup (Some t) (int i) (Some p) = Fail AUTH_ERR_INVALID_ARGUMENT"
    using wf_table_nth [OF t(1,2)]
    by (simp add: auth_session_table_activate_setup_def valid_slot_def slot_at_def table_view_def slot_reserved_iff)
next
  fix t i q assume t: "wf_table t" "i < 64" "table_view t i = Some Reserved"
  let ?e = "(st_slots t ! i)\<lparr>sl_pending := Pending_auth q, sl_state := AUTH_SESSION_SLOT_AUTH\<rparr>"
  have "wf_slot ?e" "slot_view ?e = Some (In_auth q)" by (simp_all add: wf_slot_def slot_view_def)
  with t show "\<exists>t'. auth_session_table_activate_auth (Some t) (int i) (Some q) = Ret t' \<and> wf_table t' \<and>
      table_view t' = (table_view t)(i \<mapsto> In_auth q)"
    using table_upd [OF t(1,2), of ?e] wf_table_nth [OF t(1,2)]
    by (simp add: auth_session_table_activate_auth_def valid_slot_def slot_at_def table_view_def slot_reserved_iff)
next
  fix t i q assume t: "wf_table t" "i < 64" "table_view t i \<noteq> Some Reserved"
  then show "auth_session_table_activate_auth (Some t) (int i) (Some q) = Fail AUTH_ERR_INVALID_ARGUMENT"
    using wf_table_nth [OF t(1,2)]
    by (simp add: auth_session_table_activate_auth_def valid_slot_def slot_at_def table_view_def slot_reserved_iff)
next
  fix t sid assume t: "wf_table t"
  have "(if sl_state e = AUTH_SESSION_SLOT_SETUP
         then bnd (pending_as_setup (sl_pending e)) (\<lambda>p. Ret (ps_session_id p = sid)) else Ret False) =
        Ret (setup_of sid (slot_view e))" if "e \<in> set (st_slots t)" for e
    using t that by (auto simp: wf_table_def wf_slot_def setup_of_def slot_view_def
        split: auth_session_slot_state.splits slot_pending.splits dest!: bspec)
  then show "auth_session_table_find_setup (Some t) (Some sid) = Ret (first_slot 64 (\<lambda>i. setup_of sid (table_view t i)))"
    using find_slot_first [of "st_slots t" _ "\<lambda>e. setup_of sid (slot_view e)"] t
    by (auto simp: auth_session_table_find_setup_def wf_table_def table_view_def intro!: first_slot_cong)
next
  fix t sid assume t: "wf_table t"
  have "(if sl_state e = AUTH_SESSION_SLOT_AUTH
         then bnd (pending_as_auth (sl_pending e)) (\<lambda>p. Ret (pa_session_id p = sid)) else Ret False) =
        Ret (auth_of sid (slot_view e))" if "e \<in> set (st_slots t)" for e
    using t that by (auto simp: wf_table_def wf_slot_def auth_of_def slot_view_def
        split: auth_session_slot_state.splits slot_pending.splits dest!: bspec)
  then show "auth_session_table_find_auth (Some t) (Some sid) = Ret (first_slot 64 (\<lambda>i. auth_of sid (table_view t i)))"
    using find_slot_first [of "st_slots t" _ "\<lambda>e. auth_of sid (slot_view e)"] t
    by (auto simp: auth_session_table_find_auth_def wf_table_def table_view_def intro!: first_slot_cong)
next
  fix t and i :: nat assume t: "wf_table t" "i < 64"
  have "wf_slot slot_zero" "slot_view slot_zero = None" by (simp_all add: slot_zero_def wf_slot_def slot_view_def)
  then show "\<exists>t'. auth_session_table_release (Some t) (int i) = Ret t' \<and> wf_table t' \<and> table_view t' = (table_view t)(i := None)"
    using table_upd [OF t, of slot_zero] wf_table_nth [OF t] t(2)
    by (simp add: auth_session_table_release_def valid_slot_def slot_at_def)
qed

lemma table_zero: "wf_table auth_session_table_zero" "table_view auth_session_table_zero = (\<lambda>_. None)"
  by (auto simp: wf_table_def auth_session_table_zero_def wf_slot_def slot_zero_def table_view_def slot_view_def)

lemma state_view:
  "wf_table t \<Longrightarrow> i < 64 \<Longrightarrow> \<exists>s. auth_session_table_state (Some t) (int i) = Ret s \<and>
     (s = AUTH_SESSION_SLOT_FREE \<longleftrightarrow> table_view t i = None) \<and> (s = AUTH_SESSION_SLOT_RESERVED \<longleftrightarrow> table_view t i = Some Reserved)"
  using wf_table_nth [of t i]
  by (simp add: auth_session_table_state_def valid_slot_def slot_at_def table_view_def slot_free_iff slot_reserved_iff)

subsection \<open>Sequences of operations\<close>

datatype table_op =
    Reserve
  | Activate_setup int auth_pending_setup
  | Activate_auth int auth_pending_auth
  | Find_setup "byte list"
  | Find_auth "byte list"
  | Release int

text \<open>One call on the table: its result (0 for \<^verbatim>\<open>AUTH_OK\<close>) and the table it leaves.\<close>

fun on_table :: "(auth_err, auth_session_table) cres \<Rightarrow> auth_session_table \<Rightarrow> (auth_err, int) cres \<times> auth_session_table" where
  "on_table Fault t = (Fault, t)"
| "on_table (Fail e) t = (Fail e, t)"
| "on_table (Ret t') t = (Ret 0, t')"

fun table_call :: "table_op \<Rightarrow> auth_session_table \<Rightarrow> (auth_err, int) cres \<times> auth_session_table" where
  "table_call Reserve t =
     (case auth_session_table_reserve (Some t) of
        Ret (i, Some t') \<Rightarrow> (Ret i, t') | Ret (i, None) \<Rightarrow> (Ret i, t) | Fail e \<Rightarrow> (Fail e, t) | Fault \<Rightarrow> (Fault, t))"
| "table_call (Activate_setup slot p) t = on_table (auth_session_table_activate_setup (Some t) slot (Some p)) t"
| "table_call (Activate_auth slot p) t = on_table (auth_session_table_activate_auth (Some t) slot (Some p)) t"
| "table_call (Find_setup sid) t = (auth_session_table_find_setup (Some t) (Some sid), t)"
| "table_call (Find_auth sid) t = (auth_session_table_find_auth (Some t) (Some sid), t)"
| "table_call (Release slot) t = on_table (auth_session_table_release (Some t) slot) t"

text \<open>The same call on the abstract pool.\<close>

definition pool_set :: "bool \<Rightarrow> int \<Rightarrow> session option \<Rightarrow> (nat \<Rightarrow> session option) \<Rightarrow> (auth_err, int) cres \<times> (nat \<Rightarrow> session option)" where
  "pool_set ok slot s v =
     (if 0 \<le> slot \<and> slot < 64 \<and> ok then (Ret 0, v(nat slot := s)) else (Fail AUTH_ERR_INVALID_ARGUMENT, v))"

fun pool_call :: "table_op \<Rightarrow> (nat \<Rightarrow> session option) \<Rightarrow> (auth_err, int) cres \<times> (nat \<Rightarrow> session option)" where
  "pool_call Reserve v =
     (let i = first_slot 64 (\<lambda>i. v i = None) in if i < 0 then (Ret (- 1), v) else (Ret i, v(nat i \<mapsto> Reserved)))"
| "pool_call (Activate_setup slot p) v = pool_set (v (nat slot) = Some Reserved) slot (Some (In_setup p)) v"
| "pool_call (Activate_auth slot p) v = pool_set (v (nat slot) = Some Reserved) slot (Some (In_auth p)) v"
| "pool_call (Find_setup sid) v = (Ret (first_slot 64 (\<lambda>i. setup_of sid (v i))), v)"
| "pool_call (Find_auth sid) v = (Ret (first_slot 64 (\<lambda>i. auth_of sid (v i))), v)"
| "pool_call (Release slot) v = pool_set True slot None v"

fun calls :: "('op \<Rightarrow> 's \<Rightarrow> 'r \<times> 's) \<Rightarrow> 'op list \<Rightarrow> 's \<Rightarrow> 'r list \<times> 's" where
  "calls f [] s = ([], s)"
| "calls f (x # xs) s = (let (r, s) = f x s; (rs, s) = calls f xs s in (r # rs, s))"

lemma invalid_slot:
  assumes "\<not> (0 \<le> slot \<and> slot < 64)"
  shows "auth_session_table_activate_setup (Some t) slot (Some p) = Fail AUTH_ERR_INVALID_ARGUMENT"
    and "auth_session_table_activate_auth (Some t) slot (Some q) = Fail AUTH_ERR_INVALID_ARGUMENT"
    and "auth_session_table_release (Some t) slot = Fail AUTH_ERR_INVALID_ARGUMENT"
  using assms
  by (auto simp: auth_session_table_activate_setup_def auth_session_table_activate_auth_def auth_session_table_release_def valid_slot_def)

lemma table_call_refines:
  assumes t: "wf_table t"
  shows "\<exists>t'. table_call op t = (fst (pool_call op (table_view t)), t') \<and> wf_table t' \<and> table_view t' = snd (pool_call op (table_view t))"
proof (cases op)
  case Reserve
  then show ?thesis
    using table.reserve_full [OF t] table.reserve_free [OF t] first_slotD [of 64 "\<lambda>i. table_view t i = None"] t
    by (cases rule: first_slot_cases [of 64 "\<lambda>i. table_view t i = None"]) (force simp: Let_def)+
next
  case (Activate_setup slot p)
  show ?thesis
  proof (cases "0 \<le> slot \<and> slot < 64")
    case True
    then obtain i where "slot = int i" "i < 64" using zero_le_imp_eq_int [of slot] by auto
    then show ?thesis
      using table.activate_setup_ok [OF t, of i p] table.activate_setup_bad [OF t, of i p] t Activate_setup
      by (cases "table_view t i = Some Reserved") (auto simp: pool_set_def)
  qed (use invalid_slot t Activate_setup in \<open>auto simp: pool_set_def\<close>)
next
  case (Activate_auth slot q)
  show ?thesis
  proof (cases "0 \<le> slot \<and> slot < 64")
    case True
    then obtain i where "slot = int i" "i < 64" using zero_le_imp_eq_int [of slot] by auto
    then show ?thesis
      using table.activate_auth_ok [OF t, of i q] table.activate_auth_bad [OF t, of i q] t Activate_auth
      by (cases "table_view t i = Some Reserved") (auto simp: pool_set_def)
  qed (use invalid_slot t Activate_auth in \<open>auto simp: pool_set_def\<close>)
next
  case (Release slot)
  show ?thesis
  proof (cases "0 \<le> slot \<and> slot < 64")
    case True
    then obtain i where "slot = int i" "i < 64" using zero_le_imp_eq_int [of slot] by auto
    then show ?thesis using table.release_ok [OF t, of i] t Release by (auto simp: pool_set_def)
  qed (use invalid_slot t Release in \<open>auto simp: pool_set_def\<close>)
qed (simp_all add: table.find_setup_eq [OF t] table.find_auth_eq [OF t] t)

lemma calls_refine:
  "wf_table t \<Longrightarrow> \<exists>t'. calls table_call ops t = (fst (calls pool_call ops (table_view t)), t') \<and> wf_table t' \<and>
     table_view t' = snd (calls pool_call ops (table_view t))"
proof (induction ops arbitrary: t)
  case (Cons op ops)
  obtain t1 where t1: "table_call op t = (fst (pool_call op (table_view t)), t1)" "wf_table t1"
    "table_view t1 = snd (pool_call op (table_view t))" using table_call_refines [OF Cons.prems] by blast
  then show ?case using Cons.IH [OF t1(2)] by (auto simp: split_beta Let_def)
qed simp

text \<open>C19: The session table refines an abstract pool, a partial map from 64 slot numbers to sessions: after any
  sequence of calls on an initialised table (with any slot number, in range or not), every call has answered as the
  map does, no call has faulted, and the table holds the sessions of the map. Reserving takes the first free slot,
  only reserved slots are activated, and only activated sessions are found.\<close>

theorem session_table_refines_pool:
  "\<exists>t. calls table_call ops (the (auth_session_table_init (Some t0))) = (fst (calls pool_call ops Map.empty), t) \<and>
     wf_table t \<and> table_view t = snd (calls pool_call ops Map.empty) \<and>
     Fault \<notin> set (fst (calls table_call ops (the (auth_session_table_init (Some t0)))))"
proof -
  have "Fault \<notin> set (fst (calls pool_call ops v))" for v
  proof (induction ops arbitrary: v)
    case (Cons op ops)
    have "fst (pool_call op v) \<noteq> Fault" by (cases op) (simp_all add: pool_set_def Let_def)
    then show ?case using Cons.IH by (auto simp: split_beta Let_def)
  qed simp
  then show ?thesis
    using calls_refine [OF table_zero(1), of ops] by (auto simp: auth_session_table_init_def table_zero(2))
qed

end
