(* ===== verification/Server.thy ===== *)
theory Server
  imports Registry ReplayGuard SessionTable
begin

text \<open>
  The server program (\<^verbatim>\<open>c/bin/server.c\<close>): its shared state, the scan of the registry for the device behind an AUTH_1, and
  the dispatch of one incoming packet, from the header to the reply. Here a packet is handled from start to end without
  interruption; \<^verbatim>\<open>Interleaving\<close> splits the handlers at the mutex operations.
\<close>

subsection \<open>State\<close>

record server_state =
  sv_registry :: auth_registry
  sv_server_sk :: "byte list"
  sv_server_pub :: "byte list"
  sv_sessions :: auth_session_table
  sv_replay_cache :: auth_replay_cache
  sv_require_pairing_token :: "byte list option"
  sv_allowed_roles :: "u64 list"
  sv_n_allowed :: nat

text \<open>What the environment contributes to one packet: random bytes (for AUTH_1 one draw per candidate), the answers of the
  file system and the contents of an uninitialised buffer.\<close>

record dispatch_env =
  de_server_nonce :: "byte list"
  de_setup_challenge :: "byte list"
  de_setup_wide :: "byte list"
  de_auth :: "nat \<Rightarrow> auth2_random"
  de_write :: write_io
  de_stack :: "byte list"

text \<open>The outcome of a packet: a reply, or an error with what the output buffer held so far.\<close>

type_synonym outcome = "(auth_err \<times> byte list, byte list) cres"

subsection \<open>The scan of AUTH_1\<close>

record scan_state =
  sc_candidate_pub :: "byte list"
  sc_candidate_rc :: "byte list"
  sc_have_candidate :: bool

definition scan_lookup :: "scan_state \<Rightarrow> byte list option \<Rightarrow> (auth_err, byte list \<times> byte list) cres" where
  "scan_lookup s device_id =
     (if \<not> sc_have_candidate s then Fail AUTH_ERR_UNKNOWN_DEVICE
      else Ret (sc_candidate_pub s, sc_candidate_rc s))"

text \<open>The loop over the registry from entry \<open>i\<close> with \<open>m\<close> entries to go; \<open>last_err\<close> is the error of the previous entry.\<close>

fun scan_candidates ::
    "sodium \<Rightarrow> dispatch_env \<Rightarrow> server_state \<Rightarrow> byte list \<Rightarrow> u32 \<Rightarrow> byte list \<Rightarrow> byte list \<Rightarrow> nat \<Rightarrow> nat \<Rightarrow> auth_err \<Rightarrow>
     auth_replay_cache option \<Rightarrow> (auth_err, cursor \<times> auth_pending_auth) cres \<times> auth_replay_cache option" where
  "scan_candidates S env st sid seq payload out i 0 last_err cache = (Fail last_err, cache)"
| "scan_candidates S env st sid seq payload out i (Suc m) last_err cache =
     (case get_entry (rg_entries (sv_registry st)) i of
        Ret e \<Rightarrow>
          let scan = \<lparr>sc_candidate_pub = re_device_pub e, sc_candidate_rc = re_role_commitment e, sc_have_candidate = True\<rparr>;
              (r, pending, cache) =
                auth_server_handle_auth1_guarded S (de_auth env i) cache sid seq (Some payload) (sv_server_sk st)
                  (sv_server_pub st) (scan_lookup scan) (Some (sv_allowed_roles st)) (sv_n_allowed st) pending_auth_zero
                  (Some out) in
          (case r of
             Ret c \<Rightarrow> (Ret (c, pending), cache)
           | Fault \<Rightarrow> (Fault, cache)
           | Fail err \<Rightarrow>
               if err \<noteq> AUTH_ERR_PROOF_VERIFY \<and> err \<noteq> AUTH_ERR_ROLE_NOT_PERMITTED then (Fail err, cache)
               else scan_candidates S env st sid seq payload out (Suc i) m err cache)
      | _ \<Rightarrow> (Fault, cache))"

text \<open>\<^verbatim>\<open>(void)auth_session_table_release(&S->sessions, slot)\<close> on the way out.\<close>

definition release_slot :: "int \<Rightarrow> outcome \<Rightarrow> server_state \<Rightarrow> outcome \<times> server_state" where
  "release_slot slot r st =
     (case auth_session_table_release (Some (sv_sessions st)) slot of
        Ret t \<Rightarrow> (r, st\<lparr>sv_sessions := t\<rparr>)
      | Fail e \<Rightarrow> (r, st)
      | Fault \<Rightarrow> (Fault, st))"

text \<open>\<^verbatim>\<open>slot = auth_session_table_reserve(&S->sessions); if (slot < 0) ... AUTH_ERR_TOO_MANY_ACTIVE\<close>\<close>

definition with_slot :: "server_state \<Rightarrow> (int \<Rightarrow> server_state \<Rightarrow> outcome \<times> server_state) \<Rightarrow> outcome \<times> server_state" where
  "with_slot st k =
     (case auth_session_table_reserve (Some (sv_sessions st)) of
        Ret (slot, Some t) \<Rightarrow>
          if slot < 0 then (Fail (AUTH_ERR_TOO_MANY_ACTIVE, []), st\<lparr>sv_sessions := t\<rparr>)
          else k slot (st\<lparr>sv_sessions := t\<rparr>)
      | _ \<Rightarrow> (Fault, st))"

definition try_handle_auth1 ::
    "sodium \<Rightarrow> dispatch_env \<Rightarrow> byte list \<Rightarrow> u32 \<Rightarrow> byte list \<Rightarrow> byte list \<Rightarrow> server_state \<Rightarrow> outcome \<times> server_state" where
  "try_handle_auth1 S env sid seq payload out st =
     with_slot st (\<lambda>slot st.
       let (r, cache) = scan_candidates S env st sid seq payload out 0 (rg_n (sv_registry st)) AUTH_ERR_UNKNOWN_DEVICE
             (Some (sv_replay_cache st));
           st = (case cache of Some c \<Rightarrow> st\<lparr>sv_replay_cache := c\<rparr> | None \<Rightarrow> st) in
       case r of
         Fault \<Rightarrow> (Fault, st)
       | Fail last_err \<Rightarrow> release_slot slot (Fail (last_err, [])) st
       | Ret (c, pending) \<Rightarrow>
           (case auth_session_table_activate_auth (Some (sv_sessions st)) slot (Some pending) of
              Ret t \<Rightarrow> (Ret (sent c), st\<lparr>sv_sessions := t\<rparr>)
            | Fail e \<Rightarrow> release_slot slot (Fail (e, sent c)) st
            | Fault \<Rightarrow> (Fault, st)))"

subsection \<open>Dispatch\<close>

definition dispatch_setup1 ::
    "sodium \<Rightarrow> dispatch_env \<Rightarrow> byte list \<Rightarrow> u32 \<Rightarrow> byte list \<Rightarrow> byte list \<Rightarrow> server_state \<Rightarrow> outcome \<times> server_state" where
  "dispatch_setup1 S env sid seq payload out st =
     with_slot st (\<lambda>slot st.
       let (r, pending) =
             auth_server_handle_setup1 S (de_server_nonce env) (de_setup_challenge env) (de_setup_wide env) sid seq
               (Some payload) (sv_server_sk st) (sv_server_pub st) (sv_require_pairing_token st) pending_setup_zero (Some out) in
       case r of
         Fault \<Rightarrow> (Fault, st)
       | Fail err \<Rightarrow> release_slot slot (Fail (err, [])) st
       | Ret c \<Rightarrow>
           (case auth_session_table_activate_setup (Some (sv_sessions st)) slot (Some pending) of
              Ret t \<Rightarrow> (Ret (sent c), st\<lparr>sv_sessions := t\<rparr>)
            | Fail e \<Rightarrow> release_slot slot (Fail (e, sent c)) st
            | Fault \<Rightarrow> (Fault, st)))"

definition dispatch_setup3 ::
    "sodium \<Rightarrow> dispatch_env \<Rightarrow> byte list \<Rightarrow> u32 \<Rightarrow> byte list \<Rightarrow> byte list \<Rightarrow> server_state \<Rightarrow>
     (outcome \<times> server_state) \<times> fs_op list" where
  "dispatch_setup3 S env sid seq payload out st =
     (case auth_session_table_find_setup (Some (sv_sessions st)) (Some sid) of
        Ret slot \<Rightarrow>
          if slot < 0 then ((Fail (AUTH_ERR_UNKNOWN_SESSION, []), st), [])
          else
            (case bnd (slot_at (sv_sessions st) slot) (\<lambda>e. pending_as_setup (sl_pending e)) of
               Ret pending \<Rightarrow>
                 (case auth_server_handle_setup3 S pending sid seq (Some payload) (Some out) of
                    Fault \<Rightarrow> ((Fault, st), [])
                  | Fail err \<Rightarrow> ((Fail (err, []), st), [])
                  | Ret c \<Rightarrow>
                      (case auth_registry_put (Some (sv_registry st)) (Some (ps_device_id pending)) (Some (ps_device_pub pending))
                              (Some (ps_role_commitment pending)) of
                         Fault \<Rightarrow> ((Fault, st), [])
                       | Fail err \<Rightarrow> (release_slot slot (Fail (err, sent c)) st, [])
                       | Ret reg \<Rightarrow>
                           let st = st\<lparr>sv_registry := reg\<rparr>;
                               (ops, r) = auth_registry_save (de_write env) (de_stack env) (Some reg) in
                           (release_slot slot
                              (case r of Ret _ \<Rightarrow> Ret (sent c) | Fail err \<Rightarrow> Fail (err, sent c) | Fault \<Rightarrow> Fault) st, ops)))
             | _ \<Rightarrow> ((Fault, st), []))
      | _ \<Rightarrow> ((Fault, st), []))"

definition dispatch_auth3 ::
    "sodium \<Rightarrow> byte list \<Rightarrow> u32 \<Rightarrow> byte list \<Rightarrow> byte list \<Rightarrow> server_state \<Rightarrow> outcome \<times> server_state" where
  "dispatch_auth3 S sid seq payload out st =
     (case auth_session_table_find_auth (Some (sv_sessions st)) (Some sid) of
        Ret slot \<Rightarrow>
          if slot < 0 then (Fail (AUTH_ERR_UNKNOWN_SESSION, []), st)
          else
            (case bnd (slot_at (sv_sessions st) slot) (\<lambda>e. pending_as_auth (sl_pending e)) of
               Ret pending \<Rightarrow>
                 release_slot slot
                   (case auth_server_handle_auth3 S pending sid seq (Some payload) (Some out) of
                      Fault \<Rightarrow> Fault | Fail err \<Rightarrow> Fail (err, []) | Ret c \<Rightarrow> Ret (sent c)) st
             | _ \<Rightarrow> (Fault, st))
      | _ \<Rightarrow> (Fault, st))"

text \<open>The label \<^verbatim>\<open>error_reply\<close>.\<close>

definition error_reply :: "byte list \<Rightarrow> u32 \<Rightarrow> byte list \<Rightarrow> outcome \<Rightarrow> (auth_err, byte list) cres" where
  "error_reply sid seq out r =
     (case r of
        Ret reply \<Rightarrow> Ret reply
      | Fault \<Rightarrow> Fault
      | Fail (err, so_far) \<Rightarrow>
          (case auth_packet_build_error (Some sid) seq err (Some (ascii (auth_strerror err))) (Some out) of
             Ret c \<Rightarrow> Ret (sent c) | Fail _ \<Rightarrow> Ret so_far | Fault \<Rightarrow> Fault))"

text \<open>The reply (empty: nothing is sent), the state afterwards, and the file operations performed.\<close>

definition dispatch ::
    "sodium \<Rightarrow> dispatch_env \<Rightarrow> byte list \<Rightarrow> byte list \<Rightarrow> server_state \<Rightarrow>
     (auth_err, byte list) cres \<times> server_state \<times> fs_op list" where
  "dispatch S env inp out st =
     (case auth_header_decode (Some inp) of
        Fault \<Rightarrow> (Fault, st, [])
      | Fail err \<Rightarrow> (Ret [], st, [])
      | Ret (hdr, payload) \<Rightarrow>
          let sid = hdr_session_id hdr; seq = hdr_seq hdr; t = hdr_pkt_type hdr;
              ((r, st), ops) =
                (if t = AUTH_PKT_SETUP_1 then (dispatch_setup1 S env sid seq payload out st, [])
                 else if t = AUTH_PKT_SETUP_3 then dispatch_setup3 S env sid seq payload out st
                 else if t = AUTH_PKT_AUTH_1 then (try_handle_auth1 S env sid seq payload out st, [])
                 else if t = AUTH_PKT_AUTH_3 then (dispatch_auth3 S sid seq payload out st, [])
                 else ((Fail (AUTH_ERR_UNKNOWN_PKT_TYPE, []), st), [])) in
          (error_reply sid seq out r, st, ops))"

subsection \<open>What the pieces do to the state\<close>

lemma release_slot_eq:
  assumes "wf_table (sv_sessions st)" and "i < 64"
  obtains t where "release_slot (int i) r st = (r, st\<lparr>sv_sessions := t\<rparr>)" "wf_table t"
    "table_view t = (table_view (sv_sessions st))(i := None)"
  using table.release_ok [OF assms] by (auto simp: release_slot_def)

lemma with_slot_cases:
  assumes "wf_table (sv_sessions st)"
  obtains (full) "with_slot st k = (Fail (AUTH_ERR_TOO_MANY_ACTIVE, []), st)"
  | (slot) i t where "with_slot st k = k (int i) (st\<lparr>sv_sessions := t\<rparr>)" "i < 64" "table_view (sv_sessions st) i = None"
      "wf_table t" "table_view t = (table_view (sv_sessions st))(i \<mapsto> Reserved)"
proof (rule table.reserve_cases [OF assms])
  assume "auth_session_table_reserve (Some (sv_sessions st)) = Ret (- 1, Some (sv_sessions st))"
  then show thesis using full by (simp add: with_slot_def)
next
  fix i t assume "auth_session_table_reserve (Some (sv_sessions st)) = Ret (int i, Some t)" "i < 64"
    "table_view (sv_sessions st) i = None" "wf_table t" "table_view t = (table_view (sv_sessions st))(i \<mapsto> Reserved)"
  then show thesis using slot by (simp add: with_slot_def)
qed

text \<open>A slot that was reserved and given back leaves the table as it was.\<close>

lemma reserved_released:
  assumes "i < 64" and "v i = None" and "wf_table (sv_sessions st)" and "table_view (sv_sessions st) = v(i \<mapsto> Reserved)"
  obtains t where "release_slot (int i) r st = (r, st\<lparr>sv_sessions := t\<rparr>)" "wf_table t" "table_view t = v"
  using release_slot_eq [OF assms(3,1), of r] assms(2,4) by (metis fun_upd_triv fun_upd_upd)

lemma slot_pending_setup:
  "wf_table t \<Longrightarrow> table_view t i = Some (In_setup p) \<Longrightarrow> bnd (slot_at t (int i)) (\<lambda>e. pending_as_setup (sl_pending e)) = Ret p"
  by (auto simp: table_view_def slot_at_def slot_view_def split: if_splits auth_session_slot_state.splits slot_pending.splits)

lemma slot_pending_auth:
  "wf_table t \<Longrightarrow> table_view t i = Some (In_auth p) \<Longrightarrow> bnd (slot_at t (int i)) (\<lambda>e. pending_as_auth (sl_pending e)) = Ret p"
  by (auto simp: table_view_def slot_at_def slot_view_def split: if_splits auth_session_slot_state.splits slot_pending.splits)

lemma find_setup_cases:
  assumes "wf_table t"
  obtains (none) "auth_session_table_find_setup (Some t) (Some sid) = Ret (- 1)"
  | (found) i p where "auth_session_table_find_setup (Some t) (Some sid) = Ret (int i)" "i < 64"
      "table_view t i = Some (In_setup p)" "ps_session_id p = sid"
  using table.find_setup_eq [OF assms, of sid]
  by (cases rule: first_slot_cases [of 64 "\<lambda>i. setup_of sid (table_view t i)"]) (auto simp: setup_of_def)

lemma find_auth_cases:
  assumes "wf_table t"
  obtains (none) "auth_session_table_find_auth (Some t) (Some sid) = Ret (- 1)"
  | (found) i p where "auth_session_table_find_auth (Some t) (Some sid) = Ret (int i)" "i < 64"
      "table_view t i = Some (In_auth p)" "pa_session_id p = sid"
  using table.find_auth_eq [OF assms, of sid]
  by (cases rule: first_slot_cases [of 64 "\<lambda>i. auth_of sid (table_view t i)"]) (auto simp: auth_of_def)

subsection \<open>The scan\<close>

lemma represents_ring: "wf_replay_cache c \<Longrightarrow> ring.represents (Some c) (replay_ring c)"
  using length_replay_ring [of c] recent_all [of "replay_ring c" 64]
  by (simp add: ring.represents_def wf_cache_ptr_def ring_ptr_def) (simp add: wf_replay_cache_def)

lemma represents_wf: "ring.represents c log \<Longrightarrow> \<exists>c0. c = Some c0 \<and> wf_replay_cache c0"
  by (auto simp: ring.represents_def wf_cache_ptr_def split: option.splits)

definition wf_env :: "dispatch_env \<Rightarrow> bool" where
  [wf_defs]: "wf_env env \<longleftrightarrow> length (de_server_nonce env) = 32 \<and> length (de_setup_challenge env) = 16 \<and>
     length (de_setup_wide env) = 64 \<and> (\<forall>i. wf_auth2_random (de_auth env i)) \<and> 13 + 256 * 96 \<le> length (de_stack env)"

definition wf_sessions :: "(nat \<Rightarrow> session option) \<Rightarrow> bool" where
  [wf_defs]: "wf_sessions v \<longleftrightarrow> (\<forall>i p. v i = Some (In_setup p) \<longrightarrow> wf_pending_setup p) \<and>
     (\<forall>i p. v i = Some (In_auth p) \<longrightarrow> length (pa_session_id p) = 16)"

definition registry_ids :: "auth_registry \<Rightarrow> byte list list" where
  "registry_ids reg = map re_device_id (take (rg_n reg) (rg_entries reg))"

definition wf_server :: "server_state \<Rightarrow> bool" where
  [wf_defs]: "wf_server st \<longleftrightarrow> wf_registry (sv_registry st) \<and> distinct (registry_ids (sv_registry st)) \<and>
     rg_path (sv_registry st) \<noteq> [] \<and> wf_table (sv_sessions st) \<and> wf_sessions (table_view (sv_sessions st)) \<and>
     wf_replay_cache (sv_replay_cache st) \<and> length (sv_server_sk st) = 32 \<and> length (sv_server_pub st) = 32 \<and>
     sv_n_allowed st \<le> length (sv_allowed_roles st)"

text \<open>The scan accepts for one entry of the registry, or fails and leaves the replay cache alone.\<close>

lemma scan_candidates_cases:
  assumes R: "ristretto255 S enc" and wf: "wf_server st" and env: "wf_env env" and sid: "length sid = 16"
  shows "i + m \<le> rg_n (sv_registry st) \<Longrightarrow> ring.represents cache log \<Longrightarrow>
    scan_candidates S env st sid seq payload out i m last_err cache = (r, cache') \<Longrightarrow>
    (\<exists>e. r = Fail e \<and> cache' = cache) \<or>
    (\<exists>c pend a1 j. r = Ret (c, pend) \<and> j < rg_n (sv_registry st) \<and> ring.represents cache' (log @ [key_of S a1]) \<and>
       key_of S a1 \<notin> set (recent 64 log) \<and> auth_auth1_decode (Some payload) = Ret a1 \<and>
       auth_server_handle_auth1 S (de_auth env j) sid seq (Some payload) (sv_server_sk st) (sv_server_pub st)
         (\<lambda>_. Ret (re_device_pub (rg_entries (sv_registry st) ! j), re_role_commitment (rg_entries (sv_registry st) ! j)))
         (Some (sv_allowed_roles st)) (sv_n_allowed st) pending_auth_zero (Some out) = (Ret c, pend))"
proof (induction m arbitrary: i last_err)
  case (Suc m)
  let ?e = "rg_entries (sv_registry st) ! i"
  let ?lk = "\<lambda>_ :: byte list option. Ret (re_device_pub ?e, re_role_commitment ?e) :: (auth_err, byte list \<times> byte list) cres"
  have len: "length (rg_entries (sv_registry st)) = 256" "rg_n (sv_registry st) \<le> 256" "wf_entry ?e"
    using wf Suc.prems(1) by (simp_all add: wf_server_def wf_registry_def)
  then have g: "get_entry (rg_entries (sv_registry st)) i = Ret ?e" using Suc.prems(1) by (simp add: get_entry_def)
  have lk: "scan_lookup \<lparr>sc_candidate_pub = re_device_pub ?e, sc_candidate_rc = re_role_commitment ?e, sc_have_candidate = True\<rparr> = ?lk"
    by (simp add: scan_lookup_def fun_eq_iff)
  obtain h pend c1 where gd: "auth_server_handle_auth1_guarded S (de_auth env i) cache sid seq (Some payload) (sv_server_sk st)
      (sv_server_pub st) ?lk (Some (sv_allowed_roles st)) (sv_n_allowed st) pending_auth_zero (Some out) = (h, pend, c1)"
    by (metis prod_cases3)
  have nf: "fst (auth_server_handle_auth1 S (de_auth env i) sid seq (Some payload) (sv_server_sk st) (sv_server_pub st) ?lk
      (Some (sv_allowed_roles st)) (sv_n_allowed st) pending_auth_zero (Some out)) \<noteq> Fault"
    using handle_auth1_no_fault [OF R sid, of "sv_server_sk st" "sv_server_pub st" "de_auth env i" ?lk "sv_n_allowed st"
        "sv_allowed_roles st" seq "Some payload" pending_auth_zero "Some out"] wf env len
    by (simp add: wf_server_def wf_env_def wf_auth2_random_def wf_lookup_def wf_entry_def)
  show ?case
  proof (cases h)
    case (Ret c)
    then have "r = Ret (c, pend)" "cache' = c1" using Suc.prems(3) g gd lk by simp_all
    moreover have "i < rg_n (sv_registry st)" using Suc.prems(1) by simp
    moreover obtain a1 where "auth_auth1_decode (Some payload) = Ret a1" "key_of S a1 \<notin> set (recent 64 log)"
      "auth_server_handle_auth1 S (de_auth env i) sid seq (Some payload) (sv_server_sk st) (sv_server_pub st) ?lk
         (Some (sv_allowed_roles st)) (sv_n_allowed st) pending_auth_zero (Some out) = (Ret c, pend)"
      "ring.represents c1 (log @ [key_of S a1])"
      by (rule guarded_Ret [OF R Suc.prems(2) gd [unfolded Ret]])
    ultimately show ?thesis by blast
  next
    case Fault
    then show ?thesis using guarded_not_Ret [OF R Suc.prems(2) gd] nf by simp
  next
    case (Fail e)
    then have "c1 = cache" using guarded_not_Ret [OF R Suc.prems(2) gd] by simp
    then have step: "(r, cache') = (if e \<noteq> AUTH_ERR_PROOF_VERIFY \<and> e \<noteq> AUTH_ERR_ROLE_NOT_PERMITTED then (Fail e, cache)
        else scan_candidates S env st sid seq payload out (Suc i) m e cache)"
      using Suc.prems(3) g gd lk Fail by simp
    show ?thesis
    proof (cases "e \<noteq> AUTH_ERR_PROOF_VERIFY \<and> e \<noteq> AUTH_ERR_ROLE_NOT_PERMITTED")
      case False
      then have "scan_candidates S env st sid seq payload out (Suc i) m e cache = (r, cache')" using step by argo
      then show ?thesis using Suc.prems(1) by (intro Suc.IH [OF _ Suc.prems(2)]) simp_all
    qed (use step in simp)
  qed
qed auto

subsection \<open>The abstract server\<close>

text \<open>The sessions by slot and the enrolled devices; one packet is at most one of five events.\<close>

record abs_server =
  ab_sessions :: "nat \<Rightarrow> session option"
  ab_devices :: "byte list \<Rightarrow> (byte list \<times> byte list) option"

datatype server_event =
    Ev_none
  | Ev_setup_open nat auth_pending_setup
  | Ev_enrol nat auth_pending_setup
  | Ev_setup_drop nat auth_pending_setup
  | Ev_auth_open nat auth_pending_auth
  | Ev_auth_close nat auth_pending_auth

inductive server_step :: "sodium \<Rightarrow> server_event \<Rightarrow> abs_server \<Rightarrow> abs_server \<Rightarrow> bool" for S where
  none: "server_step S Ev_none a a"
| setup_open: "i < 64 \<Longrightarrow> ab_sessions a i = None \<Longrightarrow> wf_pending_setup p \<Longrightarrow>
    server_step S (Ev_setup_open i p) a (a\<lparr>ab_sessions := (ab_sessions a)(i \<mapsto> In_setup p)\<rparr>)"
| enrol: "ab_sessions a i = Some (In_setup p) \<Longrightarrow>
    auth_verify_setup_client S pr (ps_device_id p) (ps_device_pub p) (ps_server_pub p) (ps_client_nonce p)
      (ps_server_nonce p) (ps_setup_challenge p) = Ret True \<Longrightarrow>
    server_step S (Ev_enrol i p) a
      (a\<lparr>ab_sessions := (ab_sessions a)(i := None),
         ab_devices := (ab_devices a)(ps_device_id p \<mapsto> (ps_device_pub p, ps_role_commitment p))\<rparr>)"
| setup_drop: "ab_sessions a i = Some (In_setup p) \<Longrightarrow> ab_devices a (ps_device_id p) = None \<Longrightarrow>
    server_step S (Ev_setup_drop i p) a (a\<lparr>ab_sessions := (ab_sessions a)(i := None)\<rparr>)"
| auth_open: "i < 64 \<Longrightarrow> ab_sessions a i = None \<Longrightarrow> ab_devices a did = Some (pa_device_pub p, rc) \<Longrightarrow>
    length (pa_session_id p) = 16 \<Longrightarrow>
    server_step S (Ev_auth_open i p) a (a\<lparr>ab_sessions := (ab_sessions a)(i \<mapsto> In_auth p)\<rparr>)"
| auth_close: "ab_sessions a i = Some (In_auth p) \<Longrightarrow>
    server_step S (Ev_auth_close i p) a (a\<lparr>ab_sessions := (ab_sessions a)(i := None)\<rparr>)"

inductive_cases server_step_none: "server_step S Ev_none a a'"
inductive_cases server_step_enrol: "server_step S (Ev_enrol i p) a a'"

definition abs_of :: "server_state \<Rightarrow> abs_server" where
  "abs_of st = \<lparr>ab_sessions = table_view (sv_sessions st), ab_devices = registry_map (sv_registry st)\<rparr>"

text \<open>A handler does one abstract step and keeps the server well formed.\<close>

definition steps :: "sodium \<Rightarrow> server_state \<Rightarrow> outcome \<times> server_state \<Rightarrow> bool" where
  "steps S st res \<longleftrightarrow> fst res \<noteq> Fault \<and> wf_server (snd res) \<and> (\<exists>ev. server_step S ev (abs_of st) (abs_of (snd res)))"

lemma steps_none: "wf_server st \<Longrightarrow> r \<noteq> Fault \<Longrightarrow> steps S st (r, st)"
  by (auto simp: steps_def intro: server_step.none)

lemma wf_server_sessions:
  "wf_server st \<Longrightarrow> wf_table t \<Longrightarrow> wf_sessions (table_view t) \<Longrightarrow> wf_server (st\<lparr>sv_sessions := t\<rparr>)"
  by (simp add: wf_server_def)

lemma steps_same:
  assumes "wf_server st" and "r \<noteq> Fault" and "wf_table t" and "table_view t = table_view (sv_sessions st)"
    and "wf_replay_cache c"
  shows "steps S st (r, st\<lparr>sv_replay_cache := c, sv_sessions := t\<rparr>)"
  using assms server_step.none [of S "abs_of st"] by (auto simp: steps_def wf_server_def abs_of_def)

lemma cache_setup_Ret:
  "cache_setup pending c0 = (Ret c, pend) \<Longrightarrow>
   ps_session_id pend = ps_session_id pending \<and> ps_device_id pend = ps_device_id pending \<and>
   ps_device_pub pend = ps_device_pub pending \<and> ps_role_commitment pend = ps_role_commitment pending \<and>
   ps_client_nonce pend = ps_client_nonce pending \<and> ps_server_nonce pend = ps_server_nonce pending \<and>
   ps_setup_challenge pend = ps_setup_challenge pending \<and> ps_server_pub pend = ps_server_pub pending"
  by (cases c0) (auto simp: cache_setup_def try_c_Ret_iff split: if_splits)

lemma handle_setup1_pending:
  assumes "auth_server_handle_setup1 S sn ch wide sid seq (Some p) sk pub tok pending out = (Ret c, pend)"
    and "length sid = 16" "length sn = 32" "length ch = 16" "length pub = 32"
  shows "wf_pending_setup pend \<and> ps_session_id pend = sid"
proof -
  obtain s1 where s1: "auth_setup1_decode (Some p) = Ret s1"
    using assms(1) by (auto simp: auth_server_handle_setup1_def try_c_Ret_iff split: if_splits)
  then have "wf_setup1 s1" using setup1.dec_iff by blast
  moreover have "ps_session_id pend = sid \<and> ps_device_id pend = s1_device_id s1 \<and> ps_device_pub pend = s1_device_pub s1 \<and>
      ps_role_commitment pend = s1_role_commitment s1 \<and> ps_client_nonce pend = s1_client_nonce s1 \<and> ps_server_nonce pend = sn \<and>
      ps_setup_challenge pend = ch \<and> ps_server_pub pend = pub"
    using assms(1) s1
    by (auto simp: auth_server_handle_setup1_def try_c_Ret_iff Let_def split: if_splits dest!: cache_setup_Ret)
  ultimately show ?thesis using assms by (simp add: wf_pending_setup_def wf_setup1_def)
qed

text \<open>The two ways out of a handler that holds a reserved slot.\<close>

lemma slot_failed:
  assumes wf: "wf_server st" and i: "i < 64" "table_view (sv_sessions st) i = None" and t: "wf_table t"
      "table_view t = (table_view (sv_sessions st))(i \<mapsto> Reserved)" and c: "wf_replay_cache c" and r: "r \<noteq> Fault"
  shows "steps S st (release_slot (int i) r (st\<lparr>sv_sessions := t, sv_replay_cache := c\<rparr>))"
proof -
  let ?st = "st\<lparr>sv_sessions := t, sv_replay_cache := c\<rparr>"
  have "wf_table (sv_sessions ?st)" "table_view (sv_sessions ?st) = (table_view (sv_sessions st))(i \<mapsto> Reserved)"
    using t by simp_all
  then obtain t' where "release_slot (int i) r ?st = (r, ?st\<lparr>sv_sessions := t'\<rparr>)" "wf_table t'"
      "table_view t' = table_view (sv_sessions st)"
    using reserved_released [of i "table_view (sv_sessions st)" ?st r] i by metis
  then show ?thesis using steps_same [OF wf r _ _ c, of t'] by simp
qed

lemma slot_opened:
  assumes wf: "wf_server st" and t: "wf_table t" "table_view t = (table_view (sv_sessions st))(i \<mapsto> s)" and c: "wf_replay_cache c"
    and s: "wf_sessions [i \<mapsto> s]" and r: "r \<noteq> Fault"
    and step: "server_step S ev (abs_of st) ((abs_of st)\<lparr>ab_sessions := (table_view (sv_sessions st))(i \<mapsto> s)\<rparr>)"
  shows "steps S st (r, st\<lparr>sv_replay_cache := c, sv_sessions := t\<rparr>)"
proof -
  have "wf_sessions (table_view (sv_sessions st))" using wf by (simp add: wf_server_def)
  then have "wf_sessions (table_view t)" using s t(2) by (auto simp: wf_sessions_def split: if_splits)
  then have "wf_server (st\<lparr>sv_replay_cache := c, sv_sessions := t\<rparr>)" using wf t(1) c by (simp add: wf_server_def)
  then show ?thesis using step t(2) r by (auto simp: steps_def abs_of_def)
qed

lemma with_slot_steps:
  assumes wf: "wf_server st"
    and k: "\<And>i t. i < 64 \<Longrightarrow> table_view (sv_sessions st) i = None \<Longrightarrow> wf_table t \<Longrightarrow>
      table_view t = (table_view (sv_sessions st))(i \<mapsto> Reserved) \<Longrightarrow> steps S st (k (int i) (st\<lparr>sv_sessions := t\<rparr>))"
  shows "steps S st (with_slot st k)"
proof (rule with_slot_cases [of st k])
  show "wf_table (sv_sessions st)" using wf by (simp add: wf_server_def)
qed (use k steps_none [OF wf] in simp_all)

lemma setup1_steps:
  assumes R: "ristretto255 S enc" and wf: "wf_server st" and env: "wf_env env" and sid: "length sid = 16"
  shows "steps S st (dispatch_setup1 S env sid seq payload out st)"
  unfolding dispatch_setup1_def
proof (rule with_slot_steps [OF wf])
  fix i t assume i: "i < 64" "table_view (sv_sessions st) i = None" and t: "wf_table t"
      "table_view t = (table_view (sv_sessions st))(i \<mapsto> Reserved)"
  obtain r pend where h: "auth_server_handle_setup1 S (de_server_nonce env) (de_setup_challenge env) (de_setup_wide env) sid seq
       (Some payload) (sv_server_sk st) (sv_server_pub st) (sv_require_pairing_token st) pending_setup_zero (Some out) = (r, pend)"
    by fastforce
  have nf: "r \<noteq> Fault"
    using handle_setup1_no_fault [OF R sid, of "sv_server_sk st" "sv_server_pub st" "de_server_nonce env" "de_setup_challenge env"
        "de_setup_wide env" seq "Some payload" "sv_require_pairing_token st" pending_setup_zero "Some out"] wf env h
    by (simp add: wf_server_def wf_env_def)
  have c: "wf_replay_cache (sv_replay_cache st)" using wf by (simp add: wf_server_def)
  obtain t' where t': "auth_session_table_activate_setup (Some t) (int i) (Some pend) = Ret t'" "wf_table t'"
    "table_view t' = (table_view (sv_sessions st))(i \<mapsto> In_setup pend)"
    using table.activate_setup_ok [OF t(1) i(1), of pend] t(2) by auto
  have ok: "steps S st (Ret x, st\<lparr>sv_sessions := t'\<rparr>)" if "r = Ret y" for x y
  proof -
    have p: "wf_pending_setup pend"
      using handle_setup1_pending [OF h [unfolded that] sid] wf env by (simp add: wf_server_def wf_env_def)
    have "server_step S (Ev_setup_open i pend) (abs_of st)
        ((abs_of st)\<lparr>ab_sessions := (table_view (sv_sessions st))(i \<mapsto> In_setup pend)\<rparr>)"
      using server_step.setup_open [of i "abs_of st" pend S] i p by (simp add: abs_of_def)
    then show ?thesis
      using slot_opened [OF wf t'(2,3) c, of "Ret x" S] p by (simp add: wf_sessions_def)
  qed
  show "steps S st
      (let (r, pending) =
             auth_server_handle_setup1 S (de_server_nonce env) (de_setup_challenge env) (de_setup_wide env) sid seq
               (Some payload) (sv_server_sk (st\<lparr>sv_sessions := t\<rparr>)) (sv_server_pub (st\<lparr>sv_sessions := t\<rparr>))
               (sv_require_pairing_token (st\<lparr>sv_sessions := t\<rparr>)) pending_setup_zero (Some out) in
       case r of
         Fault \<Rightarrow> (Fault, st\<lparr>sv_sessions := t\<rparr>)
       | Fail err \<Rightarrow> release_slot (int i) (Fail (err, [])) (st\<lparr>sv_sessions := t\<rparr>)
       | Ret c \<Rightarrow>
           (case auth_session_table_activate_setup (Some (sv_sessions (st\<lparr>sv_sessions := t\<rparr>))) (int i) (Some pending) of
              Ret t' \<Rightarrow> (Ret (sent c), st\<lparr>sv_sessions := t, sv_sessions := t'\<rparr>)
            | Fail e \<Rightarrow> release_slot (int i) (Fail (e, sent c)) (st\<lparr>sv_sessions := t\<rparr>)
            | Fault \<Rightarrow> (Fault, st\<lparr>sv_sessions := t\<rparr>)))"
    using nf h t'(1) ok slot_failed [OF wf i t c, of "Fail (e, [])" S for e]
    by (cases r) simp_all
qed

lemma registry_map_nth:
  assumes "wf_registry reg" and "distinct (registry_ids reg)" and "j < rg_n reg"
  shows "registry_map reg (re_device_id (rg_entries reg ! j)) =
    Some (re_device_pub (rg_entries reg ! j), re_role_commitment (rg_entries reg ! j))"
proof -
  let ?xs = "map entry_pair (take (rg_n reg) (rg_entries reg))"
  have "map fst ?xs = registry_ids reg" by (simp add: registry_ids_def entry_pair_def comp_def)
  moreover have "entry_pair (rg_entries reg ! j) \<in> set ?xs"
    using nth_mem [of j ?xs] assms(1,3) by (simp add: wf_registry_def del: nth_mem)
  ultimately show ?thesis using assms(2) unfolding registry_map_def by (intro map_of_is_SomeI) (simp_all add: entry_pair_def)
qed

lemma registry_put_keeps:
  assumes wf: "wf_registry reg" and d: "distinct (registry_ids reg)"
    and put: "auth_registry_put (Some reg) (Some did) (Some dpub) (Some rc) = Ret reg'"
  shows "distinct (registry_ids reg') \<and> rg_path reg' = rg_path reg"
proof (rule registry_find [OF wf, of did _ undefined])
  assume f: "find_entry (rg_entries reg) did 0 (rg_n reg) = Ret None" "registry_map reg did = None"
  have l: "length (rg_entries reg) = 256" using wf by (simp add: wf_registry_def)
  let ?e = "\<lparr>re_device_id = did, re_device_pub = dpub, re_role_commitment = rc\<rparr>"
  have reg': "reg' = reg\<lparr>rg_entries := (rg_entries reg)[rg_n reg := ?e], rg_n := rg_n reg + 1\<rparr>" "rg_n reg < 256"
    using put f(1) l by (auto simp: auth_registry_put_def put_entry_def split: if_splits)
  have "did \<notin> set (registry_ids reg)"
    using f(2) by (force simp: registry_map_def registry_ids_def map_of_eq_None_iff entry_pair_def image_iff)
  moreover have "registry_ids reg' = registry_ids reg @ [did]" using reg' l by (simp add: registry_ids_def take_Suc_conv_app_nth)
  ultimately show ?thesis using d reg' by simp
next
  fix j assume j: "find_entry (rg_entries reg) did 0 (rg_n reg) = Ret (Some j)" "get_entry (rg_entries reg) j = Ret (rg_entries reg ! j)"
  have j': "j < length (rg_entries reg)" using j(2) by (auto simp: get_entry_def split: if_splits)
  then have "reg' = reg\<lparr>rg_entries := (rg_entries reg)[j := (rg_entries reg ! j)\<lparr>re_device_pub := dpub, re_role_commitment := rc\<rparr>]\<rparr>"
    using put j by (simp add: auth_registry_put_def put_entry_def)
  moreover have "(map re_device_id (take (rg_n reg) (rg_entries reg)))[j := re_device_id (rg_entries reg ! j)] =
      map re_device_id (take (rg_n reg) (rg_entries reg))"
    using j' by (cases "j < rg_n reg") (simp_all add: list_update_same_conv list_update_beyond)
  ultimately show ?thesis using d by (simp add: registry_ids_def take_map_upd)
qed

lemma auth1_steps:
  assumes R: "ristretto255 S enc" and wf: "wf_server st" and env: "wf_env env" and sid: "length sid = 16"
  shows "steps S st (try_handle_auth1 S env sid seq payload out st)"
  unfolding try_handle_auth1_def
proof (rule with_slot_steps [OF wf])
  fix i t assume i: "i < 64" "table_view (sv_sessions st) i = None" and t: "wf_table t"
      "table_view t = (table_view (sv_sessions st))(i \<mapsto> Reserved)"
  let ?st = "st\<lparr>sv_sessions := t\<rparr>" and ?reg = "sv_registry st"
  have reg: "wf_registry ?reg" "distinct (registry_ids ?reg)" "wf_replay_cache (sv_replay_cache st)"
    using wf by (simp_all add: wf_server_def)
  have "wf_sessions (table_view (sv_sessions st))" using wf by (simp add: wf_server_def)
  then have wf': "wf_server ?st" using t by (intro wf_server_sessions [OF wf]) (auto simp: wf_sessions_def)
  obtain r cache where sc: "scan_candidates S env ?st sid seq payload out 0 (rg_n ?reg) AUTH_ERR_UNKNOWN_DEVICE
      (Some (sv_replay_cache st)) = (r, cache)" by fastforce
  note cases = scan_candidates_cases [OF R wf' env sid, of 0 "rg_n ?reg", OF _ represents_ring [OF reg(3)], of seq payload out
      AUTH_ERR_UNKNOWN_DEVICE r cache]
  show "steps S st
      (let (r, cache) = scan_candidates S env ?st sid seq payload out 0 (rg_n (sv_registry ?st)) AUTH_ERR_UNKNOWN_DEVICE
             (Some (sv_replay_cache ?st));
           st = (case cache of Some c \<Rightarrow> ?st\<lparr>sv_replay_cache := c\<rparr> | None \<Rightarrow> ?st) in
       case r of
         Fault \<Rightarrow> (Fault, st)
       | Fail last_err \<Rightarrow> release_slot (int i) (Fail (last_err, [])) st
       | Ret (c, pending) \<Rightarrow>
           (case auth_session_table_activate_auth (Some (sv_sessions st)) (int i) (Some pending) of
              Ret t \<Rightarrow> (Ret (sent c), st\<lparr>sv_sessions := t\<rparr>)
            | Fail e \<Rightarrow> release_slot (int i) (Fail (e, sent c)) st
            | Fault \<Rightarrow> (Fault, st)))"
  proof (cases "\<exists>e. r = Fail e \<and> cache = Some (sv_replay_cache st)")
    case True
    then obtain e where "r = Fail e" "cache = Some (sv_replay_cache st)" by blast
    then show ?thesis using sc slot_failed [OF wf i t reg(3), of "Fail (e, [])" S] by simp
  next
    case False
    then obtain c pend a1 j where acc: "r = Ret (c, pend)" "j < rg_n ?reg"
      "ring.represents cache (replay_ring (sv_replay_cache st) @ [key_of S a1])"
      "auth_server_handle_auth1 S (de_auth env j) sid seq (Some payload) (sv_server_sk st) (sv_server_pub st)
         (\<lambda>_. Ret (re_device_pub (rg_entries ?reg ! j), re_role_commitment (rg_entries ?reg ! j)))
         (Some (sv_allowed_roles st)) (sv_n_allowed st) pending_auth_zero (Some out) = (Ret c, pend)"
      using cases [OF _ sc] by auto
    obtain c' where c': "cache = Some c'" "wf_replay_cache c'" using represents_wf [OF acc(3)] by blast
    obtain a1' dp where chk: "auth1_checks S (Some payload) (sv_server_pub st)
        (\<lambda>_. Ret (re_device_pub (rg_entries ?reg ! j), re_role_commitment (rg_entries ?reg ! j)))
        (Some (sv_allowed_roles st)) (sv_n_allowed st) = Ret (a1', dp)" using handle_auth1_checked [OF acc(4)] by blast
    then have "dp = re_device_pub (rg_entries ?reg ! j)" by (simp add: auth1_checks_Ret_iff)
    then have p: "pa_session_id pend = sid" "pa_device_pub pend = re_device_pub (rg_entries ?reg ! j)"
      using handle_auth1_pending [OF acc(4) chk] by simp_all
    obtain t' where t': "auth_session_table_activate_auth (Some t) (int i) (Some pend) = Ret t'" "wf_table t'"
      "table_view t' = (table_view (sv_sessions st))(i \<mapsto> In_auth pend)"
      using table.activate_auth_ok [OF t(1) i(1), of pend] t(2) by auto
    have "server_step S (Ev_auth_open i pend) (abs_of st)
        ((abs_of st)\<lparr>ab_sessions := (table_view (sv_sessions st))(i \<mapsto> In_auth pend)\<rparr>)"
      using server_step.auth_open [of i "abs_of st" _ pend _ S] i p sid registry_map_nth [OF reg(1,2) acc(2)] by (simp add: abs_of_def)
    then have "steps S st (Ret (sent c), st\<lparr>sv_replay_cache := c', sv_sessions := t'\<rparr>)"
      using slot_opened [OF wf t'(2,3) c'(2)] p sid by (simp add: wf_sessions_def)
    then show ?thesis using sc acc(1) c'(1) t'(1) by simp
  qed
qed

lemma auth3_steps:
  assumes wf: "wf_server st"
  shows "steps S st (dispatch_auth3 S sid seq payload out st)"
proof -
  have t: "wf_table (sv_sessions st)" "wf_sessions (table_view (sv_sessions st))" using wf by (simp_all add: wf_server_def)
  show ?thesis
  proof (cases rule: find_auth_cases [OF t(1), of sid, case_names none found])
    case none
    then show ?thesis using steps_none [OF wf] by (simp add: dispatch_auth3_def)
  next
    case (found i p)
    define r :: outcome where "r = (case auth_server_handle_auth3 S p sid seq (Some payload) (Some out) of
        Fault \<Rightarrow> Fault | Fail err \<Rightarrow> Fail (err, []) | Ret c \<Rightarrow> Ret (sent c))"
    have r: "r \<noteq> Fault"
      using handle_auth3_no_fault [of p S sid seq "Some payload" "Some out"] t(2) found(3)
      by (auto simp: r_def wf_sessions_def split: cres.splits)
    obtain t' where t': "release_slot (int i) r st = (r, st\<lparr>sv_sessions := t'\<rparr>)" "wf_table t'"
      "table_view t' = (table_view (sv_sessions st))(i := None)" by (rule release_slot_eq [OF t(1) found(2)])
    have eq: "dispatch_auth3 S sid seq payload out st = (r, st\<lparr>sv_sessions := t'\<rparr>)"
      using found slot_pending_auth [OF t(1) found(3)] t'(1) by (simp add: dispatch_auth3_def r_def)
    have "wf_server (st\<lparr>sv_sessions := t'\<rparr>)"
      using t t' by (intro wf_server_sessions [OF wf]) (auto simp: wf_sessions_def)
    moreover have "server_step S (Ev_auth_close i p) (abs_of st) (abs_of (st\<lparr>sv_sessions := t'\<rparr>))"
      using server_step.auth_close [of "abs_of st" i p S] found t' by (simp add: abs_of_def)
    ultimately show ?thesis using r eq by (auto simp: steps_def)
  qed
qed

lemma handle_setup3_Ret:
  "auth_server_handle_setup3 S p sid seq (Some payload) (Some out) = Ret c \<Longrightarrow>
   \<exists>pr. auth_verify_setup_client S pr (ps_device_id p) (ps_device_pub p) (ps_server_pub p) (ps_client_nonce p)
      (ps_server_nonce p) (ps_setup_challenge p) = Ret True"
  by (auto simp: auth_server_handle_setup3_def bnd_iffs split: if_splits)

lemma setup3_steps:
  assumes wf: "wf_server st" and env: "wf_env env"
  shows "steps S st (fst (dispatch_setup3 S env sid seq payload out st))"
proof -
  have t: "wf_table (sv_sessions st)" "wf_sessions (table_view (sv_sessions st))" using wf by (simp_all add: wf_server_def)
  have reg: "wf_registry (sv_registry st)" "distinct (registry_ids (sv_registry st))" "rg_path (sv_registry st) \<noteq> []"
    "13 + 256 * 96 \<le> length (de_stack env)"
    using wf env by (simp_all add: wf_server_def wf_env_def)
  show ?thesis
  proof (cases rule: find_setup_cases [OF t(1), of sid, case_names none found])
    case none
    then show ?thesis using steps_none [OF wf] by (simp add: dispatch_setup3_def)
  next
    case (found i p)
    have p: "wf_pending_setup p" using t(2) found(3) by (auto simp: wf_sessions_def)
    then have len: "length (ps_device_id p) = 32" "length (ps_device_pub p) = 32" "length (ps_role_commitment p) = 32"
      by (simp_all add: wf_pending_setup_def)
    note eqs = found(1) slot_pending_setup [OF t(1) found(3)] dispatch_setup3_def Let_def
    have close: "wf_server (st1\<lparr>sv_sessions := t'\<rparr>)" if "wf_server st1" "sv_sessions st1 = sv_sessions st" "wf_table t'"
        "table_view t' = (table_view (sv_sessions st))(i := None)" for st1 t'
      using that t(2) by (intro wf_server_sessions) (auto simp: wf_sessions_def)
    show ?thesis
    proof (cases "auth_server_handle_setup3 S p sid seq (Some payload) (Some out)")
      case Fault
      then show ?thesis using handle_setup3_no_fault [OF p] by simp
    next
      case (Fail e)
      then show ?thesis using steps_none [OF wf, of "Fail (e, [])" S] by (simp add: eqs)
    next
      case (Ret c)
      then obtain pr where pr: "auth_verify_setup_client S pr (ps_device_id p) (ps_device_pub p) (ps_server_pub p)
          (ps_client_nonce p) (ps_server_nonce p) (ps_setup_challenge p) = Ret True" using handle_setup3_Ret by blast
      show ?thesis
      proof (rule registry.put_cases [OF reg(1) len])
        assume full: "auth_registry_put (Some (sv_registry st)) (Some (ps_device_id p)) (Some (ps_device_pub p))
            (Some (ps_role_commitment p)) = Fail AUTH_ERR_TOO_MANY_ACTIVE" "registry_map (sv_registry st) (ps_device_id p) = None"
        let ?r = "Fail (AUTH_ERR_TOO_MANY_ACTIVE, sent c) :: outcome"
        obtain t' where t': "release_slot (int i) ?r st = (?r, st\<lparr>sv_sessions := t'\<rparr>)" "wf_table t'"
          "table_view t' = (table_view (sv_sessions st))(i := None)" by (rule release_slot_eq [OF t(1) found(2)])
        have "server_step S (Ev_setup_drop i p) (abs_of st) (abs_of (st\<lparr>sv_sessions := t'\<rparr>))"
          using server_step.setup_drop [of "abs_of st" i p S] found full t' by (simp add: abs_of_def)
        then show ?thesis using Ret full(1) t' close [OF wf refl t'(2,3)] by (auto simp: eqs steps_def)
      next
        fix reg' assume put: "auth_registry_put (Some (sv_registry st)) (Some (ps_device_id p)) (Some (ps_device_pub p))
            (Some (ps_role_commitment p)) = Ret reg'" "wf_registry reg'"
          "registry_map reg' = (registry_map (sv_registry st))(ps_device_id p \<mapsto> (ps_device_pub p, ps_role_commitment p))"
        let ?st = "st\<lparr>sv_registry := reg'\<rparr>"
        have keeps: "distinct (registry_ids reg')" "rg_path reg' = rg_path (sv_registry st)"
          using registry_put_keeps [OF reg(1,2) put(1)] by simp_all
        then have wf1: "wf_server ?st" using wf put(2) by (simp add: wf_server_def)
        obtain ops w where w: "auth_registry_save (de_write env) (de_stack env) (Some reg') = (ops, w)" by fastforce
        have aw: "atomic_write (de_write env) (rg_path reg') (registry_layout reg') (length (registry_layout reg')) = (ops, w)"
          using w registry_save_eq [OF put(2) reg(4), of "de_write env"] keeps(2) reg(3) by simp
        have "w \<noteq> Fault" by (rule atomic_write_cases [OF aw]) auto
        then have r: "(case w of Ret _ \<Rightarrow> Ret (sent c) | Fail err \<Rightarrow> Fail (err, sent c) | Fault \<Rightarrow> Fault) \<noteq> (Fault :: outcome)"
          (is "?r \<noteq> Fault") by (auto split: cres.splits)
        have wt: "wf_table (sv_sessions ?st)" using t(1) by simp
        obtain t' where t': "release_slot (int i) ?r ?st = (?r, ?st\<lparr>sv_sessions := t'\<rparr>)" "wf_table t'"
          "table_view t' = (table_view (sv_sessions ?st))(i := None)" by (rule release_slot_eq [OF wt found(2)])
        have "server_step S (Ev_enrol i p) (abs_of st) (abs_of (?st\<lparr>sv_sessions := t'\<rparr>))"
          using server_step.enrol [of "abs_of st" i p S pr] found pr t' put(3) by (simp add: abs_of_def)
        then show ?thesis
          using Ret put(1) w t'(1) close [OF wf1, of t'] t'(2,3) r by (auto simp: eqs steps_def)
      qed
    qed
  qed
qed

lemma length_strerror: "length (auth_strerror e) \<le> 40"
  by (cases e) simp_all

lemma error_reply_no_fault: "r \<noteq> Fault \<Longrightarrow> length sid = 16 \<Longrightarrow> error_reply sid seq out r \<noteq> Fault"
  using packet_build_error_eq [of sid seq _ _ out] by (auto simp: error_reply_def split: cres.splits if_splits)

lemma dispatch_steps:
  assumes R: "ristretto255 S enc" and wf: "wf_server st" and env: "wf_env env" and d: "dispatch S env inp out st = (r, st', ops)"
  shows "r \<noteq> Fault \<and> wf_server st' \<and> (\<exists>ev. server_step S ev (abs_of st) (abs_of st'))"
proof (cases "auth_header_decode (Some inp)")
  case (Ret q)
  obtain hdr payload where q: "q = (hdr, payload)" by fastforce
  have sid: "length (hdr_session_id hdr) = 16" using Ret q by (simp add: header_decode_Ret_iff wf_header_def)
  let ?sid = "hdr_session_id hdr" and ?seq = "hdr_seq hdr"
  define res where "res =
     (if hdr_pkt_type hdr = AUTH_PKT_SETUP_1 then (dispatch_setup1 S env ?sid ?seq payload out st, [])
      else if hdr_pkt_type hdr = AUTH_PKT_SETUP_3 then dispatch_setup3 S env ?sid ?seq payload out st
      else if hdr_pkt_type hdr = AUTH_PKT_AUTH_1 then (try_handle_auth1 S env ?sid ?seq payload out st, [])
      else if hdr_pkt_type hdr = AUTH_PKT_AUTH_3 then (dispatch_auth3 S ?sid ?seq payload out st, [])
      else ((Fail (AUTH_ERR_UNKNOWN_PKT_TYPE, []), st), []))"
  have "steps S st (fst res)"
    unfolding res_def
    using setup1_steps [OF R wf env sid, of ?seq payload out] setup3_steps [OF wf env, of S ?sid ?seq payload out]
      auth1_steps [OF R wf env sid, of ?seq payload out] auth3_steps [OF wf, of S ?sid ?seq payload out]
      steps_none [OF wf, of "Fail (AUTH_ERR_UNKNOWN_PKT_TYPE, [])" S]
    by (simp split: if_split)
  moreover have "r = error_reply ?sid ?seq out (fst (fst res))" "st' = snd (fst res)"
    using d Ret q by (cases res; cases "fst res"; simp add: dispatch_def Let_def res_def split: if_splits prod.splits)+
  ultimately show ?thesis using error_reply_no_fault [OF _ sid] by (simp add: steps_def)
qed (use d wf header_decode_no_fault [of "Some inp"] server_step.none [of S "abs_of st"] in \<open>auto simp: dispatch_def\<close>)

end
