(* ===== verification/Provenance.thy ===== *)
theory Provenance
  imports Server
begin

text \<open>
  Where the registry's devices come from: what one packet can do to the pending enrolments and to the registry, handler by
  handler. A pending enrolment is opened by a SETUP_1 packet, which fixes all that its proof is about, and a device enters
  the registry through a pending enrolment and a SETUP_3 packet of the same session whose proof verifies for it.
\<close>

subsection \<open>What a packet does to pending enrolments and devices\<close>

text \<open>Everything a SETUP_1 packet contributes to the pending enrolment it opens.\<close>

definition opened_by :: "sodium \<Rightarrow> server_state \<Rightarrow> dispatch_env \<Rightarrow> byte list \<Rightarrow> auth_pending_setup \<Rightarrow> bool" where
  "opened_by S st env inp p \<longleftrightarrow>
     (\<exists>hdr payload s1. auth_header_decode (Some inp) = Ret (hdr, payload) \<and> hdr_pkt_type hdr = AUTH_PKT_SETUP_1 \<and>
        auth_setup1_decode (Some payload) = Ret s1 \<and> pairing_token_ok (sv_require_pairing_token st) s1 \<and>
        auth_check_point S (s1_device_pub s1) = Ret () \<and>
        ps_session_id p = hdr_session_id hdr \<and> ps_device_id p = s1_device_id s1 \<and> ps_device_pub p = s1_device_pub s1 \<and>
        ps_role_commitment p = s1_role_commitment s1 \<and> ps_client_nonce p = s1_client_nonce s1 \<and>
        ps_server_nonce p = de_server_nonce env \<and> ps_setup_challenge p = de_setup_challenge env \<and>
        ps_server_pub p = sv_server_pub st)"

text \<open>A SETUP_3 packet of the session whose client proof verifies against the pending enrolment.\<close>

definition proven_by :: "sodium \<Rightarrow> byte list \<Rightarrow> auth_pending_setup \<Rightarrow> bool" where
  "proven_by S inp p \<longleftrightarrow>
     (\<exists>hdr payload s3. auth_header_decode (Some inp) = Ret (hdr, payload) \<and> hdr_pkt_type hdr = AUTH_PKT_SETUP_3 \<and>
        hdr_session_id hdr = ps_session_id p \<and> auth_setup3_decode (Some payload) = Ret s3 \<and>
        auth_verify_setup_client S (s3_client_proof s3) (ps_device_id p) (ps_device_pub p) (ps_server_pub p)
          (ps_client_nonce p) (ps_server_nonce p) (ps_setup_challenge p) = Ret True)"

definition pending_setups :: "server_state \<Rightarrow> auth_pending_setup set" where
  "pending_setups st = {p. \<exists>i. table_view (sv_sessions st) i = Some (In_setup p)}"

text \<open>New pending enrolments satisfy \<open>P\<close>; new devices come from pending enrolments that satisfy \<open>Q\<close>.\<close>

definition enrol_effect ::
    "(auth_pending_setup \<Rightarrow> bool) \<Rightarrow> (auth_pending_setup \<Rightarrow> bool) \<Rightarrow> server_state \<Rightarrow> server_state \<Rightarrow> bool" where
  "enrol_effect P Q st st' \<longleftrightarrow>
     sv_server_pub st' = sv_server_pub st \<and> sv_require_pairing_token st' = sv_require_pairing_token st \<and>
     (\<forall>p \<in> pending_setups st'. p \<in> pending_setups st \<or> P p) \<and>
     (\<forall>did d. registry_map (sv_registry st') did = Some d \<longrightarrow> registry_map (sv_registry st) did = Some d \<or>
        (\<exists>p \<in> pending_setups st. Q p \<and> ps_device_id p = did \<and> d = (ps_device_pub p, ps_role_commitment p)))"

lemma enrol_effect_refl: "enrol_effect P Q st st"
  by (simp add: enrol_effect_def)

lemma enrol_effect_mono:
  "enrol_effect P Q st st' \<Longrightarrow> (\<And>p. P p \<Longrightarrow> P' p) \<Longrightarrow> (\<And>p. Q p \<Longrightarrow> Q' p) \<Longrightarrow> enrol_effect P' Q' st st'"
  unfolding enrol_effect_def by blast

lemma effect_released:
  assumes "wf_table (sv_sessions st1)" and "i < 64" and "enrol_effect P Q st st1"
  shows "enrol_effect P Q st (snd (release_slot (int i) r st1))"
proof (rule release_slot_eq [OF assms(1,2), of r])
  fix t assume t: "release_slot (int i) r st1 = (r, st1\<lparr>sv_sessions := t\<rparr>)" "table_view t = (table_view (sv_sessions st1))(i := None)"
  then have "pending_setups (st1\<lparr>sv_sessions := t\<rparr>) \<subseteq> pending_setups st1" by (auto simp: pending_setups_def split: if_splits)
  then show ?thesis using assms(3) t(1) by (auto simp: enrol_effect_def)
qed

lemma effect_with_slot:
  assumes wf: "wf_table (sv_sessions st)"
    and k: "\<And>i t. i < 64 \<Longrightarrow> wf_table t \<Longrightarrow> table_view t i = Some Reserved \<Longrightarrow>
      enrol_effect P Q st (st\<lparr>sv_sessions := t\<rparr>) \<Longrightarrow> enrol_effect P Q st (snd (k (int i) (st\<lparr>sv_sessions := t\<rparr>)))"
  shows "enrol_effect P Q st (snd (with_slot st k))"
proof (rule with_slot_cases [OF wf, of k])
  fix i t assume t: "with_slot st k = k (int i) (st\<lparr>sv_sessions := t\<rparr>)" "i < 64" "wf_table t"
    "table_view t = (table_view (sv_sessions st))(i \<mapsto> Reserved)"
  then have "pending_setups (st\<lparr>sv_sessions := t\<rparr>) \<subseteq> pending_setups st" by (auto simp: pending_setups_def split: if_splits)
  then show ?thesis using k [OF t(2,3)] t(1,4) by (auto simp: enrol_effect_def)
qed (simp add: enrol_effect_refl)

lemma effect_activated:
  assumes "enrol_effect P Q st st1" and "table_view t = (table_view (sv_sessions st1))(i \<mapsto> s)" and "\<And>p. s = In_setup p \<Longrightarrow> P p"
  shows "enrol_effect P Q st (st1\<lparr>sv_sessions := t\<rparr>)"
proof -
  have "p \<in> pending_setups st1 \<or> P p" if "p \<in> pending_setups (st1\<lparr>sv_sessions := t\<rparr>)" for p
    using that assms(2,3) by (auto simp: pending_setups_def split: if_splits)
  then show ?thesis using assms(1) by (auto simp: enrol_effect_def)
qed

subsection \<open>Handlers\<close>

lemma handle_setup1_fields:
  assumes "auth_server_handle_setup1 S sn ch wide sid seq (Some payload) sk pub tok pending out = (Ret c, p)"
  obtains s1 where "auth_setup1_decode (Some payload) = Ret s1" "pairing_token_ok tok s1" "auth_check_point S (s1_device_pub s1) = Ret ()"
    "ps_session_id p = sid" "ps_device_id p = s1_device_id s1" "ps_device_pub p = s1_device_pub s1"
    "ps_role_commitment p = s1_role_commitment s1" "ps_client_nonce p = s1_client_nonce s1" "ps_server_nonce p = sn"
    "ps_setup_challenge p = ch" "ps_server_pub p = pub"
  using assms by (auto simp: auth_server_handle_setup1_def try_c_Ret_iff Let_def split: if_splits dest!: cache_setup_Ret)

lemma handle_setup3_proven:
  assumes "auth_server_handle_setup3 S p sid seq (Some payload) (Some out) = Ret c"
  shows "sid = ps_session_id p \<and> (\<exists>s3. auth_setup3_decode (Some payload) = Ret s3 \<and>
    auth_verify_setup_client S (s3_client_proof s3) (ps_device_id p) (ps_device_pub p) (ps_server_pub p) (ps_client_nonce p)
      (ps_server_nonce p) (ps_setup_challenge p) = Ret True)"
  using assms by (auto simp: auth_server_handle_setup3_def bnd_iffs split: if_splits)

lemma setup1_effect:
  assumes "wf_server st" and P: "\<And>c p. auth_server_handle_setup1 S (de_server_nonce env) (de_setup_challenge env)
      (de_setup_wide env) sid seq (Some payload) (sv_server_sk st) (sv_server_pub st) (sv_require_pairing_token st)
      pending_setup_zero (Some out) = (Ret c, p) \<Longrightarrow> P p"
  shows "enrol_effect P Q st (snd (dispatch_setup1 S env sid seq payload out st))"
  unfolding dispatch_setup1_def
proof (rule effect_with_slot)
  show "wf_table (sv_sessions st)" using assms(1) by (simp add: wf_server_def)
next
  fix i t assume t: "i < 64" "wf_table t" "table_view t i = Some Reserved" "enrol_effect P Q st (st\<lparr>sv_sessions := t\<rparr>)"
  let ?st = "st\<lparr>sv_sessions := t\<rparr>"
  obtain r p where h: "auth_server_handle_setup1 S (de_server_nonce env) (de_setup_challenge env) (de_setup_wide env) sid seq
      (Some payload) (sv_server_sk st) (sv_server_pub st) (sv_require_pairing_token st) pending_setup_zero (Some out) = (r, p)"
    by fastforce
  obtain t' where t': "auth_session_table_activate_setup (Some t) (int i) (Some p) = Ret t'"
    "table_view t' = (table_view (sv_sessions ?st))(i \<mapsto> In_setup p)"
    using table.activate_setup_ok [OF t(2,1,3), of p] by auto
  have ok: "enrol_effect P Q st (st\<lparr>sv_sessions := t'\<rparr>)" if "r = Ret c" for c
    using effect_activated [OF t(4) t'(2)] P h that by simp
  have rel: "enrol_effect P Q st (snd (release_slot (int i) x ?st))" for x
    by (rule effect_released) (use t in simp_all)
  show "enrol_effect P Q st (snd
      (let (r, pending) =
             auth_server_handle_setup1 S (de_server_nonce env) (de_setup_challenge env) (de_setup_wide env) sid seq
               (Some payload) (sv_server_sk ?st) (sv_server_pub ?st) (sv_require_pairing_token ?st) pending_setup_zero (Some out) in
       case r of
         Fault \<Rightarrow> (Fault, ?st)
       | Fail err \<Rightarrow> release_slot (int i) (Fail (err, [])) ?st
       | Ret c \<Rightarrow>
           (case auth_session_table_activate_setup (Some (sv_sessions ?st)) (int i) (Some pending) of
              Ret t \<Rightarrow> (Ret (sent c), ?st\<lparr>sv_sessions := t\<rparr>)
            | Fail e \<Rightarrow> release_slot (int i) (Fail (e, sent c)) ?st
            | Fault \<Rightarrow> (Fault, ?st))))"
    using h t'(1) ok rel t(4) by (cases r) simp_all
qed

lemma auth1_effect:
  assumes "wf_server st"
  shows "enrol_effect P Q st (snd (try_handle_auth1 S env sid seq payload out st))"
  unfolding try_handle_auth1_def
proof (rule effect_with_slot)
  show "wf_table (sv_sessions st)" using assms by (simp add: wf_server_def)
next
  fix i t assume t: "i < 64" "wf_table t" "table_view t i = Some Reserved" "enrol_effect P Q st (st\<lparr>sv_sessions := t\<rparr>)"
  let ?st = "st\<lparr>sv_sessions := t\<rparr>"
  obtain r cache where sc: "scan_candidates S env ?st sid seq payload out 0 (rg_n (sv_registry st)) AUTH_ERR_UNKNOWN_DEVICE
      (Some (sv_replay_cache st)) = (r, cache)" by fastforce
  define st1 where "st1 = (case cache of Some c \<Rightarrow> ?st\<lparr>sv_replay_cache := c\<rparr> | None \<Rightarrow> ?st)"
  have st1: "enrol_effect P Q st st1" "sv_sessions st1 = t"
    using t(4) by (auto simp: st1_def enrol_effect_def pending_setups_def split: option.splits)
  have rel: "enrol_effect P Q st (snd (release_slot (int i) x st1))" for x
    by (rule effect_released) (use t st1 in simp_all)
  have act: "\<exists>t'. auth_session_table_activate_auth (Some t) (int i) (Some q) = Ret t' \<and>
      enrol_effect P Q st (st1\<lparr>sv_sessions := t'\<rparr>)" for q
    using table.activate_auth_ok [OF t(2,1,3), of q] effect_activated [OF st1(1), of _ i "In_auth q"] st1(2) by auto
  show "enrol_effect P Q st (snd
      (let (r, cache) = scan_candidates S env ?st sid seq payload out 0 (rg_n (sv_registry ?st)) AUTH_ERR_UNKNOWN_DEVICE
             (Some (sv_replay_cache ?st));
           st = (case cache of Some c \<Rightarrow> ?st\<lparr>sv_replay_cache := c\<rparr> | None \<Rightarrow> ?st) in
       case r of
         Fault \<Rightarrow> (Fault, st)
       | Fail last_err \<Rightarrow> release_slot (int i) (Fail (last_err, [])) st
       | Ret (c, pending) \<Rightarrow>
           (case auth_session_table_activate_auth (Some (sv_sessions st)) (int i) (Some pending) of
              Ret t \<Rightarrow> (Ret (sent c), st\<lparr>sv_sessions := t\<rparr>)
            | Fail e \<Rightarrow> release_slot (int i) (Fail (e, sent c)) st
            | Fault \<Rightarrow> (Fault, st))))"
  proof (cases r)
    case (Ret q)
    obtain c pend where q: "q = (c, pend)" by fastforce
    then show ?thesis using act [of pend] sc st1(2) Ret by (auto simp: st1_def)
  qed (use sc rel st1 in \<open>auto simp: st1_def\<close>)
qed

lemma auth3_effect:
  assumes "wf_server st"
  shows "enrol_effect P Q st (snd (dispatch_auth3 S sid seq payload out st))"
proof -
  have t: "wf_table (sv_sessions st)" using assms by (simp add: wf_server_def)
  show ?thesis
  proof (cases rule: find_auth_cases [OF t, of sid, case_names none found])
    case (found i p)
    then show ?thesis
      using slot_pending_auth [OF t found(3)] effect_released [OF t found(2) enrol_effect_refl] by (simp add: dispatch_auth3_def)
  qed (simp add: dispatch_auth3_def enrol_effect_refl)
qed

lemma setup3_effect:
  assumes wf: "wf_server st" and Q: "\<And>c p. p \<in> pending_setups st \<Longrightarrow>
      auth_server_handle_setup3 S p sid seq (Some payload) (Some out) = Ret c \<Longrightarrow> Q p"
  shows "enrol_effect P Q st (snd (fst (dispatch_setup3 S env sid seq payload out st)))"
proof -
  have t: "wf_table (sv_sessions st)" "wf_sessions (table_view (sv_sessions st))" "wf_registry (sv_registry st)"
    using wf by (simp_all add: wf_server_def)
  show ?thesis
  proof (cases rule: find_setup_cases [OF t(1), of sid, case_names none found])
    case (found i p)
    note eqs = found(1) slot_pending_setup [OF t(1) found(3)] dispatch_setup3_def Let_def
    have p: "p \<in> pending_setups st" "length (ps_device_id p) = 32" "length (ps_device_pub p) = 32" "length (ps_role_commitment p) = 32"
      using t(2) found(3) by (auto simp: pending_setups_def wf_sessions_def wf_pending_setup_def)
    show ?thesis
    proof (cases "auth_server_handle_setup3 S p sid seq (Some payload) (Some out)")
      case (Ret c)
      show ?thesis
      proof (rule registry.put_cases [OF t(3) p(2-4)])
        fix reg' assume put: "auth_registry_put (Some (sv_registry st)) (Some (ps_device_id p)) (Some (ps_device_pub p))
            (Some (ps_role_commitment p)) = Ret reg'"
          "registry_map reg' = (registry_map (sv_registry st))(ps_device_id p \<mapsto> (ps_device_pub p, ps_role_commitment p))"
        have "enrol_effect P Q st (st\<lparr>sv_registry := reg'\<rparr>)"
          using p(1) Q [OF p(1) Ret] put(2) by (auto simp: enrol_effect_def pending_setups_def split: if_splits)
        then show ?thesis using Ret put(1) effect_released [of "st\<lparr>sv_registry := reg'\<rparr>" i P Q st] t(1) found(2)
          by (simp add: eqs split: prod.splits)
      qed (use Ret effect_released [OF t(1) found(2) enrol_effect_refl] in \<open>simp add: eqs\<close>)
    qed (simp_all add: eqs enrol_effect_refl)
  qed (simp add: dispatch_setup3_def enrol_effect_refl)
qed

text \<open>One packet.\<close>

lemma dispatch_effect:
  assumes wf: "wf_server st" and d: "dispatch S env inp out st = (r, st', ops)"
  shows "enrol_effect (opened_by S st env inp) (proven_by S inp) st st'"
proof (cases "auth_header_decode (Some inp)")
  case (Ret q)
  obtain hdr payload where q: "q = (hdr, payload)" by fastforce
  let ?sid = "hdr_session_id hdr" and ?seq = "hdr_seq hdr" and ?t = "hdr_pkt_type hdr"
  let ?P = "opened_by S st env inp" and ?Q = "proven_by S inp"
  have s1: "enrol_effect ?P ?Q st (snd (dispatch_setup1 S env ?sid ?seq payload out st))" if "?t = AUTH_PKT_SETUP_1"
    by (rule setup1_effect [OF wf]) (use that Ret q in \<open>auto simp: opened_by_def elim!: handle_setup1_fields\<close>)
  have s3: "enrol_effect ?P ?Q st (snd (fst (dispatch_setup3 S env ?sid ?seq payload out st)))" if "?t = AUTH_PKT_SETUP_3"
    by (rule setup3_effect [OF wf]) (use that Ret q in \<open>auto simp: proven_by_def dest!: handle_setup3_proven\<close>)
  show ?thesis
    using d Ret q s1 s3 auth1_effect [OF wf, of ?P ?Q S env ?sid ?seq payload out] auth3_effect [OF wf, of ?P ?Q S ?sid ?seq payload out]
    by (auto simp: dispatch_def Let_def enrol_effect_refl split: if_splits prod.splits)
qed (use d in \<open>auto simp: dispatch_def enrol_effect_refl\<close>)

end
