(* ===== verification/ServerRun.thy ===== *)
theory ServerRun
  imports Provenance
begin

text \<open>
  The server over time: its start (\<^verbatim>\<open>main\<close> of \<^verbatim>\<open>c/bin/server.c\<close>), sequences of packets, and what holds of every run.
\<close>

subsection \<open>Start\<close>

text \<open>\<^verbatim>\<open>snprintf(path, 512, "%s/<name>", state_dir)\<close>\<close>

definition state_path :: "path \<Rightarrow> string \<Rightarrow> path" where
  "state_path state_dir name = take 511 (state_dir @ ''/'' @ name)"

definition server_start ::
    "sodium \<Rightarrow> byte list \<Rightarrow> read_io \<Rightarrow> read_io \<Rightarrow> write_io \<Rightarrow> fs \<Rightarrow> path \<Rightarrow> byte list option \<Rightarrow>
     fs_op list \<times> (auth_err, server_state) cres" where
  "server_start S random rio_reg rio_key wio fs state_dir require_pairing_token =
     (let reg_path = state_path state_dir ''registry.bin''; sk_path = state_path state_dir ''server_sk.bin'' in
      case auth_registry_load rio_reg fs (Some reg_path) of
        Fault \<Rightarrow> ([], Fault)
      | Fail e \<Rightarrow> ([], Fail e)
      | Ret reg \<Rightarrow>
          let (ops, r) = auth_server_key_load_or_create S random rio_key wio fs (Some sk_path) in
          (ops,
           bnd r (\<lambda>server_sk.
           bnd (auth_scalarmult_base S server_sk) (\<lambda>server_pub.
           Ret \<lparr>sv_registry = reg, sv_server_sk = server_sk, sv_server_pub = server_pub,
                sv_sessions = auth_session_table_zero, sv_replay_cache = auth_replay_cache_zero,
                sv_require_pairing_token = require_pairing_token,
                sv_allowed_roles = [1, 2] @ replicate (AUTH_MAX_ROLES - 2) 0, sv_n_allowed = 2\<rparr>))))"

lemma wf_sessions_empty: "wf_sessions (\<lambda>_. None)"
  by (simp add: wf_sessions_def)

lemma load_missing:
  assumes "fs path = None" and "auth_registry_load io fs (Some path) = Ret reg"
  shows "reg = registry_zero\<lparr>rg_path := path\<rparr>"
  using assms by (auto simp: auth_registry_load_def read_whole_file_def Let_def split: if_splits)

lemma server_start_wf:
  assumes R: "ristretto255 S enc" and rnd: "length random = 64"
    and fresh: "fs (state_path dir ''registry.bin'') = None"
    and st: "server_start S random rio_reg rio_key wio fs dir tok = (ops, Ret st)"
  shows "wf_server st \<and> abs_of st = \<lparr>ab_sessions = Map.empty, ab_devices = Map.empty\<rparr>"
proof -
  let ?p = "state_path dir ''registry.bin''"
  obtain reg where reg: "auth_registry_load rio_reg fs (Some ?p) = Ret reg"
    using st by (auto simp: server_start_def Let_def split: cres.splits)
  have r: "reg = registry_zero\<lparr>rg_path := ?p\<rparr>" by (rule load_missing [OF fresh reg])
  obtain sk pub where k: "auth_server_key_load_or_create S random rio_key wio fs (Some (state_path dir ''server_sk.bin'')) = (ops, Ret sk)"
    "auth_scalarmult_base S sk = Ret pub" "sv_registry st = reg" "sv_server_sk st = sk" "sv_server_pub st = pub"
    "sv_sessions st = auth_session_table_zero" "sv_replay_cache st = auth_replay_cache_zero"
    "sv_allowed_roles st = [1, 2] @ replicate 6 0" "sv_n_allowed st = 2"
    using st reg by (auto simp: server_start_def Let_def bnd_iffs split: prod.splits)
  have sk: "length sk = 32"
    using k(1) R rnd
    by (auto simp: auth_server_key_load_or_create_def bnd_iffs rdn_def length_random_scalar Let_def
        split: cres.splits if_splits prod.splits)
  have pub: "length pub = 32" by (rule base_mult_length [OF R sk k(2)])
  have "wf_registry reg" "rg_path reg \<noteq> []" "registry_ids reg = []" "registry_map reg = Map.empty"
    using wf_registry_zero by (simp_all add: r wf_registry_def registry_ids_def registry_map_def registry_zero_def state_path_def)
  then show ?thesis
    using k sk pub table_zero wf_cache_zero(1) wf_sessions_empty by (simp add: wf_server_def abs_of_def)
qed

subsection \<open>Runs\<close>

type_synonym packet_in = "dispatch_env \<times> byte list \<times> byte list"

text \<open>The replies, the final state and the file operations of a sequence of packets.\<close>

fun server_run ::
    "sodium \<Rightarrow> packet_in list \<Rightarrow> server_state \<Rightarrow> (auth_err, byte list) cres list \<times> server_state \<times> fs_op list" where
  "server_run S [] st = ([], st, [])"
| "server_run S ((env, inp, out) # pkts) st =
     (let (r, st, ops) = dispatch S env inp out st; (rs, st, ops') = server_run S pkts st in (r # rs, st, ops @ ops'))"

inductive server_trace :: "sodium \<Rightarrow> server_event list \<Rightarrow> abs_server \<Rightarrow> abs_server \<Rightarrow> bool" for S where
  stop: "server_trace S [] a a"
| step: "server_step S ev a b \<Longrightarrow> server_trace S evs b c \<Longrightarrow> server_trace S (ev # evs) a c"

definition wf_packets :: "packet_in list \<Rightarrow> bool" where
  "wf_packets pkts \<longleftrightarrow> (\<forall>(env, inp, out) \<in> set pkts. wf_env env)"

lemma server_run_steps:
  assumes R: "ristretto255 S enc"
  shows "wf_server st \<Longrightarrow> wf_packets pkts \<Longrightarrow> server_run S pkts st = (rs, st', ops) \<Longrightarrow>
    Fault \<notin> set rs \<and> wf_server st' \<and> (\<exists>evs. length evs = length pkts \<and> server_trace S evs (abs_of st) (abs_of st'))"
proof (induction pkts arbitrary: st rs ops)
  case Nil
  then show ?case by (auto intro: server_trace.stop)
next
  case (Cons pkt pkts)
  obtain env inp out where pkt: "pkt = (env, inp, out)" by (metis prod_cases3)
  obtain r st1 ops1 where d: "dispatch S env inp out st = (r, st1, ops1)" by (metis prod_cases3)
  obtain rs2 ops2 where run: "server_run S pkts st1 = (rs2, st', ops2)" "rs = r # rs2"
    using Cons.prems(3) pkt d by (auto split: prod.splits)
  obtain ev where st1: "r \<noteq> Fault" "wf_server st1" "server_step S ev (abs_of st) (abs_of st1)"
    using dispatch_steps [OF R Cons.prems(1) _ d] Cons.prems(2) pkt by (auto simp: wf_packets_def)
  obtain evs where "Fault \<notin> set rs2" "wf_server st'" "length evs = length pkts" "server_trace S evs (abs_of st1) (abs_of st')"
    using Cons.IH [OF st1(2) _ run(1)] Cons.prems(2) pkt by (auto simp: wf_packets_def)
  then show ?case using st1 run(2) by (auto intro!: exI [of _ "ev # evs"] server_trace.step)
qed

text \<open>Where a device of the registry comes from: packet \<open>j\<close> proved it against an enrolment that was pending from the start
  or was opened by an earlier packet \<open>i\<close>.\<close>

definition enrolled_in :: "sodium \<Rightarrow> server_state \<Rightarrow> packet_in list \<Rightarrow> nat \<Rightarrow> auth_pending_setup \<Rightarrow> bool" where
  "enrolled_in S st pkts j p \<longleftrightarrow> j < length pkts \<and> (case pkts ! j of (env, inp, out) \<Rightarrow> proven_by S inp p) \<and>
     (p \<in> pending_setups st \<or> (\<exists>i < j. case pkts ! i of (env, inp, out) \<Rightarrow> opened_by S st env inp p))"

lemma enrolled_in_Cons:
  assumes eff: "enrol_effect (opened_by S st env inp) Q st st1" and e: "enrolled_in S st1 pkts j p"
  shows "enrolled_in S st ((env, inp, out) # pkts) (Suc j) p"
proof -
  have same: "opened_by S st1 = opened_by S st" using eff by (simp add: enrol_effect_def opened_by_def fun_eq_iff)
  have "p \<in> pending_setups st \<or> (\<exists>i < Suc j. case ((env, inp, out) # pkts) ! i of (env, inp, out) \<Rightarrow> opened_by S st env inp p)"
  proof (cases "p \<in> pending_setups st1")
    case True
    then have "p \<in> pending_setups st \<or> opened_by S st env inp p" using eff by (auto simp: enrol_effect_def)
    then show ?thesis by force
  next
    case False
    then obtain i where "i < j" "case pkts ! i of (env, inp, out) \<Rightarrow> opened_by S st env inp p"
      using e same by (auto simp: enrolled_in_def)
    then show ?thesis by (intro disjI2 exI [of _ "Suc i"]) simp
  qed
  then show ?thesis using e by (simp add: enrolled_in_def)
qed

lemma server_run_devices:
  assumes R: "ristretto255 S enc"
  shows "wf_server st \<Longrightarrow> wf_packets pkts \<Longrightarrow> server_run S pkts st = (rs, st', ops) \<Longrightarrow>
    registry_map (sv_registry st') did = Some d \<Longrightarrow> registry_map (sv_registry st) did = Some d \<or>
    (\<exists>j p. enrolled_in S st pkts j p \<and> ps_device_id p = did \<and> d = (ps_device_pub p, ps_role_commitment p))"
proof (induction pkts arbitrary: st rs ops)
  case (Cons pkt pkts)
  obtain env inp out where pkt: "pkt = (env, inp, out)" by (metis prod_cases3)
  obtain r st1 ops1 where d: "dispatch S env inp out st = (r, st1, ops1)" by (metis prod_cases3)
  obtain rs2 ops2 where run: "server_run S pkts st1 = (rs2, st', ops2)" using Cons.prems(3) pkt d by (auto split: prod.splits)
  have wf: "wf_server st1" "wf_packets pkts"
    using dispatch_steps [OF R Cons.prems(1) _ d] Cons.prems(2) pkt by (auto simp: wf_packets_def)
  note eff = dispatch_effect [OF Cons.prems(1) d]
  from Cons.IH [OF wf run Cons.prems(4)] show ?case
  proof
    assume "registry_map (sv_registry st1) did = Some d"
    then have "registry_map (sv_registry st) did = Some d \<or>
        (\<exists>p \<in> pending_setups st. proven_by S inp p \<and> ps_device_id p = did \<and> d = (ps_device_pub p, ps_role_commitment p))"
      using eff by (cases d) (simp add: enrol_effect_def)
    then show ?thesis using pkt by (force simp: enrolled_in_def intro: exI [of _ 0])
  qed (use enrolled_in_Cons [OF eff] pkt in blast)
qed simp

text \<open>A server with one enrolled device, and the AUTH_1 packet of the sample run.\<close>

definition server_sample :: server_state where
  "server_sample =
     \<lparr>sv_registry = registry_zero\<lparr>rg_entries := (rg_entries registry_zero)[0 := \<lparr>re_device_id = replicate 32 5,
        re_device_pub = toy_enc 3, re_role_commitment = toy_enc 47\<rparr>], rg_n := 1, rg_path := ''registry.bin''\<rparr>,
      sv_server_sk = sc 4, sv_server_pub = toy_enc 4, sv_sessions = auth_session_table_zero,
      sv_replay_cache = auth_replay_cache_zero, sv_require_pairing_token = None, sv_allowed_roles = [2], sv_n_allowed = 1\<rparr>"

definition env_sample :: dispatch_env where
  "env_sample = \<lparr>de_server_nonce = replicate 32 1, de_setup_challenge = replicate 16 2, de_setup_wide = le_enc 64 5,
     de_auth = (\<lambda>_. rnd2_sample), de_write = good_write, de_stack = replicate 24589 0\<rparr>"

lemma server_sample_wf: "wf_server server_sample"
proof -
  have z: "replicate 256 entry_zero = entry_zero # replicate 255 entry_zero" by (simp add: numeral_eq_Suc)
  have "wf_registry (sv_registry server_sample)"
    using wf_registry_put [OF wf_registry_zero, of "\<lparr>re_device_id = replicate 32 5, re_device_pub = toy_enc 3,
      re_role_commitment = toy_enc 47\<rparr>" 0] by (simp add: server_sample_def wf_registry_def wf_entry_def toy_enc_def)
  then show ?thesis
    using table_zero wf_cache_zero(1) wf_sessions_empty
    by (simp add: server_sample_def wf_server_def registry_ids_def registry_zero_def z toy_enc_def)
qed

lemma env_sample_wf: "wf_env env_sample"
  using rnd_samples_wf(2) by (simp add: env_sample_def wf_env_def)

lemma wf_packets_sample: "wf_packets [(env_sample, inp, out)]"
  using env_sample_wf by (simp add: wf_packets_def)

subsection \<open>Properties\<close>

text \<open>C1: The server refines the abstract server: for every sequence of packets whatsoever, from any well-formed state, no
  handler leaves its buffers, the state stays well formed (tables, registry, cache and pending sessions), and each packet
  is one abstract event - nothing, a session opened in a free slot, an enrolment backed by a verified proof, an enrolment
  dropped because the registry is full, an authentication opened for an enrolled device, or an authentication closed.\<close>

theorem server_run_refines:
  assumes "ristretto255 S enc" and "wf_server st" and "wf_packets pkts" and "server_run S pkts st = (rs, st', ops)"
  shows "Fault \<notin> set rs \<and> wf_server st' \<and>
    (\<exists>evs. length evs = length pkts \<and> server_trace S evs (abs_of st) (abs_of st'))"
  using server_run_steps [OF assms] .

theorem server_run_refines_witness:
  "\<exists>rs st' ops. server_run (rewound_sodium 1) [(env_sample, packet_run, replicate 2048 0)] server_sample = (rs, st', ops) \<and>
     Fault \<notin> set rs \<and> wf_server st' \<and>
     (\<exists>evs. length evs = 1 \<and> server_trace (rewound_sodium 1) evs (abs_of server_sample) (abs_of st'))"
proof -
  obtain rs st' ops where run: "server_run (rewound_sodium 1) [(env_sample, packet_run, replicate 2048 0)] server_sample = (rs, st', ops)"
    by (metis prod_cases3)
  from server_run_refines [OF rewound_ristretto server_sample_wf wf_packets_sample run] run show ?thesis by auto
qed

text \<open>C3: Only proven devices get into the registry. After any sequence of packets from any well-formed state, a device the
  registry knows was known before with the same key and role commitment, or the run contains its enrolment: a packet \<open>j\<close>
  that is a SETUP_3 of some session and whose client proof verifies for exactly this device id and public key, the server's
  key, and the client nonce, server nonce and challenge of a pending enrolment of that session. This enrolment was opened by
  an earlier packet \<open>i\<close> of the run, a SETUP_1 of the same session with this id, key, role commitment and client nonce and an
  accepted pairing token, to which the server drew this nonce and challenge - unless it was already pending before the run.\<close>

theorem enrolment_authentic:
  assumes "ristretto255 S enc" and "wf_server st" and "wf_packets pkts" and "server_run S pkts st = (rs, st', ops)"
    and "auth_registry_get (Some (sv_registry st')) (Some did) = Ret (dpub, rc)"
  shows "auth_registry_get (Some (sv_registry st)) (Some did) = Ret (dpub, rc) \<or>
    (\<exists>j p. enrolled_in S st pkts j p \<and> ps_device_id p = did \<and> ps_device_pub p = dpub \<and> ps_role_commitment p = rc)"
proof -
  have "wf_server st'" using server_run_steps [OF assms(1-4)] by blast
  then have reg: "wf_registry (sv_registry st)" "wf_registry (sv_registry st')" using assms(2) by (simp_all add: wf_server_def)
  have "registry_map (sv_registry st') did = Some (dpub, rc)"
    using assms(5) by (auto simp: registry.get_eq [OF reg(2)] split: option.splits)
  from server_run_devices [OF assms(1-4) this] show ?thesis by (auto simp: registry.get_eq [OF reg(1)])
qed

subsection \<open>Exhaustion of the session table\<close>

lemma full_no_slot:
  assumes "wf_server st" and "\<forall>i < 64. table_view (sv_sessions st) i \<noteq> None"
  shows "with_slot st k = (Fail (AUTH_ERR_TOO_MANY_ACTIVE, []), st)"
proof (rule with_slot_cases)
  show "wf_table (sv_sessions st)" using assms(1) by (simp add: wf_server_def)
qed (use assms(2) in auto)

lemma no_auth_session:
  assumes "wf_table t" and "\<forall>i < 64. \<exists>p. table_view t i = Some (In_setup p)"
  shows "auth_session_table_find_auth (Some t) (Some sid) = Ret (- 1)"
  by (rule find_auth_cases [OF assms(1), of sid]) (use assms(2) in auto)

definition error_packet :: "byte list \<Rightarrow> u32 \<Rightarrow> auth_err \<Rightarrow> byte list" where
  "error_packet sid seq e = packet AUTH_PKT_ERROR sid seq (error_payload e (Some (ascii (auth_strerror e))))"

lemma error_reply_eq:
  assumes "length sid = 16" and "66 \<le> length out"
  shows "error_reply sid seq out (Fail (e, so_far)) = Ret (error_packet sid seq e)"
proof -
  have l: "length (error_payload e (Some (ascii (auth_strerror e)))) \<le> 42"
    using length_strerror [of e] by (simp add: error_payload_def)
  then have "auth_packet_build_error (Some sid) seq e (Some (ascii (auth_strerror e))) (Some out) = Ret (cur out (error_packet sid seq e))"
    using packet_build_error_eq [of sid seq e "Some (ascii (auth_strerror e))" out] assms by (simp add: error_packet_def)
  moreover have "length (error_packet sid seq e) \<le> length out" using l assms by (simp add: error_packet_def)
  ultimately show ?thesis by (simp add: error_reply_def)
qed

text \<open>C18: Unfinished enrolments are never dropped: when all 64 slots hold an enrolment that waits for its SETUP_3, every
  packet that is not a SETUP_3 leaves the server exactly as it is, and every SETUP_1 and every AUTH_1 (also from an enrolled
  device) is answered with "too many active". The table has no expiry, so 64 unauthenticated SETUP_1 packets lock the server
  for all others until matching SETUP_3 packets arrive.\<close>

theorem setup_exhaustion:
  assumes "wf_server st" and "\<forall>i < 64. \<exists>p. table_view (sv_sessions st) i = Some (In_setup p)"
    and "auth_header_decode (Some inp) = Ret (hdr, payload)" and "hdr_pkt_type hdr \<noteq> AUTH_PKT_SETUP_3" and "66 \<le> length out"
  shows "\<exists>e. dispatch S env inp out st = (Ret (error_packet (hdr_session_id hdr) (hdr_seq hdr) e), st, []) \<and>
    (hdr_pkt_type hdr = AUTH_PKT_SETUP_1 \<or> hdr_pkt_type hdr = AUTH_PKT_AUTH_1 \<longrightarrow> e = AUTH_ERR_TOO_MANY_ACTIVE)"
proof -
  have sid: "length (hdr_session_id hdr) = 16" using assms(3) by (simp add: header_decode_Ret_iff wf_header_def)
  have "\<forall>i < 64. table_view (sv_sessions st) i \<noteq> None" using assms(2) by auto
  note full = full_no_slot [OF assms(1) this]
  have none: "auth_session_table_find_auth (Some (sv_sessions st)) (Some sid) = Ret (- 1)" for sid
    using no_auth_session assms(1,2) by (simp add: wf_server_def)
  have three: "dispatch_auth3 S sid seq p out st = (Fail (AUTH_ERR_UNKNOWN_SESSION, []), st)" for sid seq p
    by (simp add: dispatch_auth3_def none)
  show ?thesis
    using assms(3,4) error_reply_eq [OF sid assms(5)]
    by (auto simp: dispatch_def dispatch_setup1_def try_handle_auth1_def full three Let_def)
qed

definition server_full :: server_state where
  "server_full = server_sample\<lparr>sv_sessions := \<lparr>st_slots = replicate 64
     \<lparr>sl_state = AUTH_SESSION_SLOT_SETUP, sl_pending = Pending_setup pending_setup_zero\<rparr>\<rparr>\<rparr>"

theorem setup_exhaustion_witness:
  "\<exists>e. dispatch toy_sodium env_sample packet_run (replicate 2048 0) server_full =
     (Ret (error_packet (replicate 16 7) 1 e), server_full, []) \<and> e = AUTH_ERR_TOO_MANY_ACTIVE"
proof -
  have v: "table_view (sv_sessions server_full) i = (if i < 64 then Some (In_setup pending_setup_zero) else None)" for i
    by (simp add: server_full_def table_view_def slot_view_def)
  have "wf_table (sv_sessions server_full)" by (simp add: server_full_def wf_table_def wf_slot_def)
  then have wf: "wf_server server_full"
    using server_sample_wf v
    by (auto simp: wf_server_def wf_sessions_def wf_pending_setup_def server_full_def pending_setup_zero_def split: if_splits)
  have dec: "auth_header_decode (Some packet_run) = Ret (packet_header AUTH_PKT_AUTH_1 (replicate 16 7) 1, auth1_layout auth1_run)"
    by (rule packet_parse) simp
  show ?thesis
    using setup_exhaustion [OF wf _ dec, of "replicate 2048 0" toy_sodium env_sample] v by simp
qed

end
