(* ===== verification/Interleaving.thy ===== *)
theory Interleaving
  imports ServerRun
begin

text \<open>
  The session table under concurrent workers. The UDP thread and one thread per TCP connection run \<^verbatim>\<open>dispatch\<close> of
  \<^verbatim>\<open>c/bin/server.c\<close> on the shared state; every table operation happens under the mutex \<^verbatim>\<open>mu\<close>, the protocol work between two
  of them does not. A worker is therefore a sequence of critical sections, and a run of the server is an interleaving of the
  sections of its workers.
\<close>

subsection \<open>Workers and critical sections\<close>

text \<open>Between two sections a worker holds a slot it reserved (AUTH_1, SETUP_1), or the number of the slot in which it
  found its session (AUTH_3, SETUP_3), whose contents it has copied.\<close>

datatype worker = Idle | Holding int | Closing int

record workers =
  wk_table :: auth_session_table
  wk_worker :: "nat \<Rightarrow> worker"

datatype crit_sec =
    Sec_reserve nat                          \<comment> \<open>AUTH_1 and SETUP_1: claim a slot\<close>
  | Sec_activate_setup nat auth_pending_setup \<comment> \<open>SETUP_1 verified: fill the slot\<close>
  | Sec_activate_auth nat auth_pending_auth   \<comment> \<open>AUTH_1 verified: fill the slot\<close>
  | Sec_give_back nat                        \<comment> \<open>AUTH_1 or SETUP_1 refused: release the slot\<close>
  | Sec_find_setup nat "byte list"           \<comment> \<open>SETUP_3: find and copy the session\<close>
  | Sec_find_auth nat "byte list"            \<comment> \<open>AUTH_3: find and copy the session\<close>
  | Sec_close nat                            \<comment> \<open>AUTH_3, or SETUP_3 verified: release the slot found\<close>
  | Sec_abandon nat                          \<comment> \<open>SETUP_3 refused: leave without a section\<close>

definition to_worker :: "nat \<Rightarrow> worker \<Rightarrow> auth_session_table \<Rightarrow> workers \<Rightarrow> workers option" where
  "to_worker w s t sys = Some (sys\<lparr>wk_table := t, wk_worker := (wk_worker sys)(w := s)\<rparr>)"

text \<open>\<^verbatim>\<open>(void)auth_session_table_release(&S->sessions, slot)\<close> as the last section of a packet.\<close>

definition sec_release :: "nat \<Rightarrow> int \<Rightarrow> workers \<Rightarrow> workers option" where
  "sec_release w slot sys =
     (case auth_session_table_release (Some (wk_table sys)) slot of
        Ret t \<Rightarrow> to_worker w Idle t sys | Fail e \<Rightarrow> to_worker w Idle (wk_table sys) sys | Fault \<Rightarrow> None)"

definition sec_activate :: "nat \<Rightarrow> int \<Rightarrow> (auth_err, auth_session_table) cres \<Rightarrow> workers \<Rightarrow> workers option" where
  "sec_activate w slot r sys =
     (case r of Ret t \<Rightarrow> to_worker w Idle t sys | Fail e \<Rightarrow> sec_release w slot sys | Fault \<Rightarrow> None)"

definition sec_find :: "nat \<Rightarrow> (auth_err, int) cres \<Rightarrow> workers \<Rightarrow> workers option" where
  "sec_find w r sys =
     (case r of Ret slot \<Rightarrow> to_worker w (if slot < 0 then Idle else Closing slot) (wk_table sys) sys | _ \<Rightarrow> None)"

text \<open>One critical section; \<open>None\<close> when the worker is not at this section.\<close>

fun crit :: "crit_sec \<Rightarrow> workers \<Rightarrow> workers option" where
  "crit (Sec_reserve w) sys =
     (case (wk_worker sys w, auth_session_table_reserve (Some (wk_table sys))) of
        (Idle, Ret (slot, Some t)) \<Rightarrow> to_worker w (if slot < 0 then Idle else Holding slot) t sys
      | _ \<Rightarrow> None)"
| "crit (Sec_activate_setup w p) sys =
     (case wk_worker sys w of
        Holding slot \<Rightarrow> sec_activate w slot (auth_session_table_activate_setup (Some (wk_table sys)) slot (Some p)) sys
      | _ \<Rightarrow> None)"
| "crit (Sec_activate_auth w p) sys =
     (case wk_worker sys w of
        Holding slot \<Rightarrow> sec_activate w slot (auth_session_table_activate_auth (Some (wk_table sys)) slot (Some p)) sys
      | _ \<Rightarrow> None)"
| "crit (Sec_give_back w) sys = (case wk_worker sys w of Holding slot \<Rightarrow> sec_release w slot sys | _ \<Rightarrow> None)"
| "crit (Sec_find_setup w sid) sys =
     (case wk_worker sys w of
        Idle \<Rightarrow> sec_find w (auth_session_table_find_setup (Some (wk_table sys)) (Some sid)) sys | _ \<Rightarrow> None)"
| "crit (Sec_find_auth w sid) sys =
     (case wk_worker sys w of
        Idle \<Rightarrow> sec_find w (auth_session_table_find_auth (Some (wk_table sys)) (Some sid)) sys | _ \<Rightarrow> None)"
| "crit (Sec_close w) sys = (case wk_worker sys w of Closing slot \<Rightarrow> sec_release w slot sys | _ \<Rightarrow> None)"
| "crit (Sec_abandon w) sys = (case wk_worker sys w of Closing slot \<Rightarrow> to_worker w Idle (wk_table sys) sys | _ \<Rightarrow> None)"

fun crits :: "crit_sec list \<Rightarrow> workers \<Rightarrow> workers option" where
  "crits [] sys = Some sys"
| "crits (c # cs) sys = (case crit c sys of None \<Rightarrow> None | Some sys \<Rightarrow> crits cs sys)"

definition workers_start :: workers where
  "workers_start = \<lparr>wk_table = auth_session_table_zero, wk_worker = (\<lambda>_. Idle)\<rparr>"

subsection \<open>Reservations are exclusive while no session is closed\<close>

text \<open>All sections but the one that closes a session.\<close>

definition opens :: "crit_sec \<Rightarrow> bool" where
  "opens c \<longleftrightarrow> (case c of Sec_close _ \<Rightarrow> False | _ \<Rightarrow> True)"

text \<open>Every worker that holds a slot has it reserved, and no other worker holds it.\<close>

definition exclusive :: "workers \<Rightarrow> bool" where
  "exclusive sys \<longleftrightarrow> wf_table (wk_table sys) \<and>
     (\<forall>w slot. wk_worker sys w = Holding slot \<longrightarrow> 0 \<le> slot \<and> slot < 64 \<and> table_view (wk_table sys) (nat slot) = Some Reserved) \<and>
     (\<forall>w w' slot. wk_worker sys w = Holding slot \<longrightarrow> wk_worker sys w' = Holding slot \<longrightarrow> w = w')"

lemma exclusive_start: "exclusive workers_start"
  using table_zero by (simp add: exclusive_def workers_start_def)

lemma exclusiveD: "exclusive sys \<Longrightarrow> wk_worker sys w = Holding slot \<Longrightarrow>
  \<exists>i < 64. slot = int i \<and> table_view (wk_table sys) i = Some Reserved"
  by (force simp: exclusive_def intro!: exI [of _ "nat slot"])

text \<open>A worker that lets go of its slot, which then holds anything.\<close>

lemma exclusive_let_go:
  assumes ex: "exclusive sys" and w: "wk_worker sys w = Holding (int i)" and t: "wf_table t"
    and v: "table_view t = (table_view (wk_table sys))(i := s)"
  shows "exclusive (sys\<lparr>wk_table := t, wk_worker := (wk_worker sys)(w := Idle)\<rparr>)"
proof -
  have "nat slot \<noteq> i" if w': "wk_worker sys w' = Holding slot" "w' \<noteq> w" for w' slot
  proof -
    have "slot \<noteq> int i" "0 \<le> slot" using ex w w' by (auto simp: exclusive_def)
    then show ?thesis by auto
  qed
  then show ?thesis using ex t v by (auto simp: exclusive_def)
qed

lemma exclusive_idle:
  "exclusive sys \<Longrightarrow> (\<forall>slot. s \<noteq> Holding slot) \<Longrightarrow> exclusive (sys\<lparr>wk_table := wk_table sys, wk_worker := (wk_worker sys)(w := s)\<rparr>)"
  by (auto simp: exclusive_def)

lemma exclusive_release:
  assumes "exclusive sys" and "wk_worker sys w = Holding slot" and "sec_release w slot sys = Some sys'"
  shows "exclusive sys'"
proof -
  obtain i where i: "i < 64" "slot = int i" using exclusiveD [OF assms(1,2)] by blast
  have "wf_table (wk_table sys)" using assms(1) by (simp add: exclusive_def)
  then obtain t where "auth_session_table_release (Some (wk_table sys)) (int i) = Ret t" "wf_table t"
    "table_view t = (table_view (wk_table sys))(i := None)" using table.release_ok i(1) by blast
  then show ?thesis
    using assms exclusive_let_go [OF assms(1), of w i t None] i by (simp add: sec_release_def to_worker_def)
qed

lemma crit_exclusive:
  assumes ex: "exclusive sys" and c: "crit c sys = Some sys'" and op: "opens c"
  shows "exclusive sys'"
proof -
  have wt: "wf_table (wk_table sys)" using ex by (simp add: exclusive_def)
  have find: "exclusive sys'" if "sec_find w r sys = Some sys'" for w r
    using that exclusive_idle [OF ex, of "if slot < 0 then Idle else Closing slot" w for slot]
    by (auto simp: sec_find_def to_worker_def split: cres.splits)
  show ?thesis
  proof (cases c)
    case (Sec_reserve w)
    then have idle: "wk_worker sys w = Idle" using c by (auto split: worker.splits)
    show ?thesis
    proof (rule table.reserve_cases [OF wt])
      assume "auth_session_table_reserve (Some (wk_table sys)) = Ret (- 1, Some (wk_table sys))"
      then show ?thesis using c Sec_reserve idle exclusive_idle [OF ex, of Idle w] by (simp add: to_worker_def)
    next
      fix i t assume "auth_session_table_reserve (Some (wk_table sys)) = Ret (int i, Some t)" "i < 64"
        "table_view (wk_table sys) i = None" "wf_table t" "table_view t = (table_view (wk_table sys))(i \<mapsto> Reserved)"
      moreover from this have "nat slot \<noteq> i \<and> slot \<noteq> int i" if "wk_worker sys w' = Holding slot" for w' slot
        using exclusiveD [OF ex that] by auto
      ultimately show ?thesis
        using c Sec_reserve idle ex by (fastforce simp: exclusive_def to_worker_def split: if_splits)
    qed
  next
    case (Sec_activate_setup w p)
    then obtain slot where w: "wk_worker sys w = Holding slot" using c by (auto split: worker.splits)
    obtain i where i: "i < 64" "slot = int i" "table_view (wk_table sys) i = Some Reserved" using exclusiveD [OF ex w] by blast
    then obtain t where "auth_session_table_activate_setup (Some (wk_table sys)) (int i) (Some p) = Ret t" "wf_table t"
      "table_view t = (table_view (wk_table sys))(i \<mapsto> In_setup p)" using table.activate_setup_ok [OF wt, of i p] by blast
    then show ?thesis
      using c Sec_activate_setup w i exclusive_let_go [OF ex, of w i t] by (simp add: sec_activate_def to_worker_def)
  next
    case (Sec_activate_auth w p)
    then obtain slot where w: "wk_worker sys w = Holding slot" using c by (auto split: worker.splits)
    obtain i where i: "i < 64" "slot = int i" "table_view (wk_table sys) i = Some Reserved" using exclusiveD [OF ex w] by blast
    then obtain t where "auth_session_table_activate_auth (Some (wk_table sys)) (int i) (Some p) = Ret t" "wf_table t"
      "table_view t = (table_view (wk_table sys))(i \<mapsto> In_auth p)" using table.activate_auth_ok [OF wt, of i p] by blast
    then show ?thesis
      using c Sec_activate_auth w i exclusive_let_go [OF ex, of w i t] by (simp add: sec_activate_def to_worker_def)
  next
    case (Sec_give_back w)
    then obtain slot where "wk_worker sys w = Holding slot" "sec_release w slot sys = Some sys'"
      using c by (auto split: worker.splits)
    then show ?thesis by (rule exclusive_release [OF ex])
  next
    case (Sec_abandon w)
    then show ?thesis using c exclusive_idle [OF ex, of Idle w] by (auto simp: to_worker_def split: worker.splits)
  qed (use c op find in \<open>auto simp: opens_def split: worker.splits\<close>)
qed

text \<open>C16: While no session is being closed, concurrent workers never share a slot: in every interleaving of the critical
  sections of any number of workers in which no AUTH_3 or SETUP_3 closes a session, a slot a worker holds is reserved and
  held by no other worker, so an accepted AUTH_1 or SETUP_1 always finds its slot still reserved.\<close>

theorem reservation_exclusive:
  assumes "crits cs workers_start = Some sys" and "\<forall>c \<in> set cs. opens c"
  shows "\<forall>w slot. wk_worker sys w = Holding slot \<longrightarrow>
    auth_session_table_state (Some (wk_table sys)) slot = Ret AUTH_SESSION_SLOT_RESERVED \<and>
    (\<forall>w'. wk_worker sys w' = Holding slot \<longrightarrow> w' = w)"
proof -
  have "exclusive sys0 \<Longrightarrow> crits cs sys0 = Some sys \<Longrightarrow> \<forall>c \<in> set cs. opens c \<Longrightarrow> exclusive sys" for sys0
    by (induction cs arbitrary: sys0) (auto split: option.splits intro: crit_exclusive)
  then have ex: "exclusive sys" using exclusive_start assms by blast
  show ?thesis
  proof (intro allI impI conjI)
    fix w slot assume w: "wk_worker sys w = Holding slot"
    obtain i where "i < 64" "slot = int i" "table_view (wk_table sys) i = Some Reserved" using exclusiveD [OF ex w] by blast
    then show "auth_session_table_state (Some (wk_table sys)) slot = Ret AUTH_SESSION_SLOT_RESERVED"
      using state_view [of "wk_table sys" i] ex by (auto simp: exclusive_def)
    show "w' = w" if "wk_worker sys w' = Holding slot" for w' using ex w that by (simp add: exclusive_def)
  qed
qed

lemma reserve_first:
  "slots \<noteq> [] \<Longrightarrow> sl_state (slots ! 0) = AUTH_SESSION_SLOT_FREE \<Longrightarrow>
   auth_session_table_reserve (Some \<lparr>st_slots = slots\<rparr>) =
     Ret (0, Some \<lparr>st_slots = slots[0 := slot_zero\<lparr>sl_state := AUTH_SESSION_SLOT_RESERVED\<rparr>]\<rparr>)"
  by (simp add: auth_session_table_reserve_def numeral_eq_Suc)

lemma find_first:
  "slots \<noteq> [] \<Longrightarrow> slots ! 0 = \<lparr>sl_state = AUTH_SESSION_SLOT_AUTH, sl_pending = Pending_auth p\<rparr> \<Longrightarrow>
   auth_session_table_find_auth (Some \<lparr>st_slots = slots\<rparr>) (Some (pa_session_id p)) = Ret 0"
  by (simp add: auth_session_table_find_auth_def numeral_eq_Suc)

lemmas sec_simps = to_worker_def sec_release_def sec_activate_def sec_find_def workers_start_def auth_session_table_zero_def
  auth_session_table_activate_auth_def auth_session_table_release_def valid_slot_def slot_at_def slot_zero_def

theorem reservation_exclusive_witness:
  "\<exists>sys. crits [Sec_reserve 1] workers_start = Some sys \<and> wk_worker sys 1 = Holding 0 \<and>
     auth_session_table_state (Some (wk_table sys)) 0 = Ret AUTH_SESSION_SLOT_RESERVED"
proof -
  have ne: "replicate 64 slot_zero \<noteq> []" by simp
  obtain sys where run: "crits [Sec_reserve 1] workers_start = Some sys" and w: "wk_worker sys 1 = Holding 0"
    using reserve_first [OF ne] by (simp add: sec_simps)
  have "\<forall>c \<in> set [Sec_reserve 1]. opens c" by (simp add: opens_def)
  then show ?thesis using reservation_exclusive [OF run] run w by blast
qed

subsection \<open>A duplicate AUTH_3 breaks the exclusion\<close>

text \<open>C17: Closing a session is not exclusive: a worker that handles an AUTH_3 finds its slot in one critical section and
  releases it in a later one without looking again. When the same AUTH_3 reaches two workers, the slow one frees a slot
  that meanwhile belongs to somebody else, and two workers end up holding the same slot at once; the one that finishes
  second then destroys the session of the first.\<close>

theorem duplicate_auth3_race:
  "\<exists>sys sys'. crits [Sec_reserve 0, Sec_activate_auth 0 p, Sec_find_auth 1 (pa_session_id p), Sec_find_auth 2 (pa_session_id p),
       Sec_close 1, Sec_reserve 3, Sec_close 2, Sec_reserve 4] workers_start = Some sys \<and>
     wk_worker sys 3 = Holding 0 \<and> wk_worker sys 4 = Holding 0 \<and>
     crits [Sec_activate_auth 3 q, Sec_activate_auth 4 q'] sys = Some sys' \<and>
     auth_session_table_state (Some (wk_table sys')) 0 = Ret AUTH_SESSION_SLOT_FREE"
proof -
  have ne: "replicate 64 x \<noteq> []" "(replicate 64 x)[0 := y] \<noteq> []" for x y :: auth_session_slot by simp_all
  have at0: "(replicate 64 x)[0 := y] ! 0 = y" for x y :: auth_session_slot by (simp add: numeral_eq_Suc)
  show ?thesis
    using ne at0 by (simp add: sec_simps reserve_first find_first auth_session_table_state_def)
qed

end
