(* ===== verification/Lineage.thy ===== *)
theory Lineage
  imports Prelude
begin

text \<open>
  \<^verbatim>\<open>c/src/proto/lineage_replace*.c\<close>, the part without cryptographic evidence: the decision to
  replace the credential lineage of a device, its plan and state machine, the storage transaction
  that carries the plan out, the recovery of the state from the durable record after an
  interruption, and the reconciliation of two peers. Each classifier is a function from facts to a
  decision; a pointer that may be \<^verbatim>\<open>NULL\<close> is an option. The storage adapter is a callback of the
  caller: a parameter with the contract the header documents, the locale \<open>storage_adapter\<close>.
\<close>

subsection \<open>Decision and plan: \<^verbatim>\<open>lineage_replace.c\<close>\<close>

datatype lineage_replace_trigger =
    LINEAGE_REPLACE_TRIGGER_LIFECYCLE
  | LINEAGE_REPLACE_TRIGGER_RESTART
  | LINEAGE_REPLACE_TRIGGER_TRANSPORT_CHANGE
  | LINEAGE_REPLACE_TRIGGER_AUTH

datatype lineage_replace_decision =
    LINEAGE_REPLACE_ACCEPT_SUCCESSOR
  | LINEAGE_REPLACE_REJECT_AUTHORITY
  | LINEAGE_REPLACE_REJECT_PREDECESSOR
  | LINEAGE_REPLACE_REJECT_SUCCESSOR
  | LINEAGE_REPLACE_REJECT_CONTEXT
  | LINEAGE_REPLACE_REJECT_FRESHNESS
  | LINEAGE_REPLACE_REJECT_REPLAY
  | LINEAGE_REPLACE_REJECT_CONCURRENT
  | LINEAGE_REPLACE_REJECT_ROLLBACK
  | LINEAGE_REPLACE_REJECT_STORAGE

datatype lineage_replace_authorization_decision =
    LINEAGE_REPLACE_AUTHORIZED_REPLACEMENT
  | LINEAGE_REPLACE_REJECT_CURRENT_CREDENTIAL_CONTROL
  | LINEAGE_REPLACE_REJECT_SUCCESSOR_KEY_CONTROL
  | LINEAGE_REPLACE_REJECT_SESSION_AUTHENTICATION
  | LINEAGE_REPLACE_REJECT_SESSION_AUTHORIZATION
  | LINEAGE_REPLACE_REJECT_CONTEXT_BINDING
  | LINEAGE_REPLACE_REJECT_PREDECESSOR_BINDING
  | LINEAGE_REPLACE_REJECT_PRIVILEGE_EXPANSION

record lineage_replace_facts =
  lf_trigger :: lineage_replace_trigger
  lf_authority_valid :: bool
  lf_predecessor_valid :: bool
  lf_successor_valid :: bool
  lf_context_valid :: bool
  lf_freshness_valid :: bool
  lf_replay_free :: bool
  lf_concurrent_free :: bool
  lf_rollback_clear :: bool
  lf_storage_safe :: bool
  lf_dependent_state_safe :: bool

record lineage_replace_plan =
  lp_retire_predecessor :: bool
  lp_activate_successor :: bool
  lp_invalidate_session_keys :: bool
  lp_invalidate_resumption :: bool
  lp_invalidate_authorization_cache :: bool
  lp_invalidate_attribution_cache :: bool
  lp_invalidate_channel_binding :: bool
  lp_invalidate_replay_state :: bool

datatype lineage_replace_state =
    LINEAGE_REPLACE_STATE_ACTIVE_PREDECESSOR
  | LINEAGE_REPLACE_STATE_REPLACEMENT_PENDING
  | LINEAGE_REPLACE_STATE_ACTIVE_SUCCESSOR_PREDECESSOR_RETIRED
  | LINEAGE_REPLACE_STATE_CONTINUITY_BROKEN

datatype lineage_replace_event =
    LINEAGE_REPLACE_EVENT_BEGIN
  | LINEAGE_REPLACE_EVENT_COMMIT
  | LINEAGE_REPLACE_EVENT_INTERRUPT

definition lineage_replace_plan_complete :: "lineage_replace_plan option \<Rightarrow> bool" where
  "lineage_replace_plan_complete plan =
     (case plan of None \<Rightarrow> False
      | Some p \<Rightarrow> lp_retire_predecessor p \<and> lp_activate_successor p \<and> lp_invalidate_session_keys p \<and>
          lp_invalidate_resumption p \<and> lp_invalidate_authorization_cache p \<and>
          lp_invalidate_attribution_cache p \<and> lp_invalidate_channel_binding p \<and> lp_invalidate_replay_state p)"

definition lineage_replace_evaluate :: "lineage_replace_facts option \<Rightarrow> lineage_replace_decision" where
  "lineage_replace_evaluate facts =
     (case facts of
        None \<Rightarrow> LINEAGE_REPLACE_REJECT_STORAGE
      | Some f \<Rightarrow>
          if lf_trigger f \<noteq> LINEAGE_REPLACE_TRIGGER_LIFECYCLE \<or> \<not> lf_authority_valid f
          then LINEAGE_REPLACE_REJECT_AUTHORITY
          else if \<not> lf_predecessor_valid f then LINEAGE_REPLACE_REJECT_PREDECESSOR
          else if \<not> lf_successor_valid f then LINEAGE_REPLACE_REJECT_SUCCESSOR
          else if \<not> lf_context_valid f \<or> \<not> lf_dependent_state_safe f then LINEAGE_REPLACE_REJECT_CONTEXT
          else if \<not> lf_freshness_valid f then LINEAGE_REPLACE_REJECT_FRESHNESS
          else if \<not> lf_replay_free f then LINEAGE_REPLACE_REJECT_REPLAY
          else if \<not> lf_concurrent_free f then LINEAGE_REPLACE_REJECT_CONCURRENT
          else if \<not> lf_rollback_clear f then LINEAGE_REPLACE_REJECT_ROLLBACK
          else if \<not> lf_storage_safe f then LINEAGE_REPLACE_REJECT_STORAGE
          else LINEAGE_REPLACE_ACCEPT_SUCCESSOR)"

definition lineage_replace_evaluate_authorized ::
    "lineage_replace_authorization_decision \<Rightarrow> lineage_replace_facts option \<Rightarrow> lineage_replace_decision" where
  "lineage_replace_evaluate_authorized authorization facts =
     (case facts of
        None \<Rightarrow> LINEAGE_REPLACE_REJECT_STORAGE
      | Some f \<Rightarrow>
          lineage_replace_evaluate
            (Some (f\<lparr>lf_authority_valid := (authorization = LINEAGE_REPLACE_AUTHORIZED_REPLACEMENT)\<rparr>)))"

text \<open>The result and the plan written to \<^verbatim>\<open>out_plan\<close> (\<open>None\<close>: \<^verbatim>\<open>out_plan\<close> was \<^verbatim>\<open>NULL\<close>).\<close>

definition plan_all :: "bool \<Rightarrow> lineage_replace_plan" where
  "plan_all b = \<lparr>lp_retire_predecessor = b, lp_activate_successor = b, lp_invalidate_session_keys = b,
     lp_invalidate_resumption = b, lp_invalidate_authorization_cache = b,
     lp_invalidate_attribution_cache = b, lp_invalidate_channel_binding = b, lp_invalidate_replay_state = b\<rparr>"

definition lineage_replace_make_plan ::
    "lineage_replace_decision \<Rightarrow> lineage_replace_plan option \<Rightarrow> bool \<times> lineage_replace_plan option" where
  "lineage_replace_make_plan decision out_plan =
     (if out_plan = None then (False, None)
      else if decision \<noteq> LINEAGE_REPLACE_ACCEPT_SUCCESSOR then (False, Some (plan_all False))
      else (True, Some (plan_all True)))"

definition lineage_replace_advance ::
    "lineage_replace_state option \<Rightarrow> lineage_replace_event \<Rightarrow> lineage_replace_plan option \<Rightarrow>
     bool \<times> lineage_replace_state option" where
  "lineage_replace_advance state event plan =
     (if state = None then (False, None)
      else if state = Some LINEAGE_REPLACE_STATE_ACTIVE_PREDECESSOR \<and>
              event = LINEAGE_REPLACE_EVENT_BEGIN \<and> lineage_replace_plan_complete plan
      then (True, Some LINEAGE_REPLACE_STATE_REPLACEMENT_PENDING)
      else if state = Some LINEAGE_REPLACE_STATE_REPLACEMENT_PENDING \<and>
              event = LINEAGE_REPLACE_EVENT_COMMIT \<and> lineage_replace_plan_complete plan
      then (True, Some LINEAGE_REPLACE_STATE_ACTIVE_SUCCESSOR_PREDECESSOR_RETIRED)
      else if state = Some LINEAGE_REPLACE_STATE_REPLACEMENT_PENDING \<and> event = LINEAGE_REPLACE_EVENT_INTERRUPT
      then (True, Some LINEAGE_REPLACE_STATE_CONTINUITY_BROKEN)
      else (False, state))"

subsection \<open>The durable record: \<^verbatim>\<open>lineage_replace_recovery.c\<close>, \<^verbatim>\<open>_faults.c\<close>, \<^verbatim>\<open>_freshness.c\<close>\<close>

record lineage_replace_recovery_facts =
  lr_record_integrity_valid :: bool
  lr_predecessor_active :: bool
  lr_replacement_pending :: bool
  lr_successor_active :: bool
  lr_predecessor_retired :: bool
  lr_invalidations_complete :: bool

definition lineage_replace_recover :: "lineage_replace_recovery_facts option \<Rightarrow> lineage_replace_state" where
  "lineage_replace_recover facts =
     (case facts of
        None \<Rightarrow> LINEAGE_REPLACE_STATE_CONTINUITY_BROKEN
      | Some f \<Rightarrow>
          if \<not> lr_record_integrity_valid f then LINEAGE_REPLACE_STATE_CONTINUITY_BROKEN
          else if lr_predecessor_active f \<and> \<not> lr_replacement_pending f \<and> \<not> lr_successor_active f \<and>
                  \<not> lr_predecessor_retired f \<and> \<not> lr_invalidations_complete f
          then LINEAGE_REPLACE_STATE_ACTIVE_PREDECESSOR
          else if \<not> lr_predecessor_active f \<and> \<not> lr_replacement_pending f \<and> lr_successor_active f \<and>
                  lr_predecessor_retired f \<and> lr_invalidations_complete f
          then LINEAGE_REPLACE_STATE_ACTIVE_SUCCESSOR_PREDECESSOR_RETIRED
          else LINEAGE_REPLACE_STATE_CONTINUITY_BROKEN)"

text \<open>A write cut is an enumerator, 0 to 5; any other value takes the default branch.\<close>

abbreviation (input) LINEAGE_REPLACE_CUT_BEFORE_BEGIN :: int where "LINEAGE_REPLACE_CUT_BEFORE_BEGIN \<equiv> 0"
abbreviation (input) LINEAGE_REPLACE_CUT_AFTER_PENDING_MARKER :: int where
  "LINEAGE_REPLACE_CUT_AFTER_PENDING_MARKER \<equiv> 1"
abbreviation (input) LINEAGE_REPLACE_CUT_AFTER_SUCCESSOR_ACTIVATION :: int where
  "LINEAGE_REPLACE_CUT_AFTER_SUCCESSOR_ACTIVATION \<equiv> 2"
abbreviation (input) LINEAGE_REPLACE_CUT_AFTER_PREDECESSOR_RETIREMENT :: int where
  "LINEAGE_REPLACE_CUT_AFTER_PREDECESSOR_RETIREMENT \<equiv> 3"
abbreviation (input) LINEAGE_REPLACE_CUT_AFTER_INVALIDATIONS :: int where
  "LINEAGE_REPLACE_CUT_AFTER_INVALIDATIONS \<equiv> 4"
abbreviation (input) LINEAGE_REPLACE_CUT_AFTER_COMMIT_MARKER_CLEAR :: int where
  "LINEAGE_REPLACE_CUT_AFTER_COMMIT_MARKER_CLEAR \<equiv> 5"

definition lineage_replace_facts_at_write_cut :: "int \<Rightarrow> lineage_replace_recovery_facts" where
  "lineage_replace_facts_at_write_cut c =
     (let facts = \<lparr>lr_record_integrity_valid = True, lr_predecessor_active = False,
        lr_replacement_pending = False, lr_successor_active = False, lr_predecessor_retired = False,
        lr_invalidations_complete = False\<rparr> in
      if c = LINEAGE_REPLACE_CUT_BEFORE_BEGIN then facts\<lparr>lr_predecessor_active := True\<rparr>
      else if c = LINEAGE_REPLACE_CUT_AFTER_PENDING_MARKER
      then facts\<lparr>lr_predecessor_active := True, lr_replacement_pending := True\<rparr>
      else if c = LINEAGE_REPLACE_CUT_AFTER_SUCCESSOR_ACTIVATION
      then facts\<lparr>lr_predecessor_active := True, lr_replacement_pending := True, lr_successor_active := True\<rparr>
      else if c = LINEAGE_REPLACE_CUT_AFTER_PREDECESSOR_RETIREMENT
      then facts\<lparr>lr_replacement_pending := True, lr_successor_active := True, lr_predecessor_retired := True\<rparr>
      else if c = LINEAGE_REPLACE_CUT_AFTER_INVALIDATIONS
      then facts\<lparr>lr_replacement_pending := True, lr_successor_active := True, lr_predecessor_retired := True,
                 lr_invalidations_complete := True\<rparr>
      else if c = LINEAGE_REPLACE_CUT_AFTER_COMMIT_MARKER_CLEAR
      then facts\<lparr>lr_successor_active := True, lr_predecessor_retired := True, lr_invalidations_complete := True\<rparr>
      else facts\<lparr>lr_record_integrity_valid := False\<rparr>)"

record lineage_replace_freshness_facts =
  fr_anchor_available :: bool
  fr_anchor_integrity_valid :: bool
  fr_anchor_binding_valid :: bool
  fr_record_generation :: u64
  fr_trusted_high_water_generation :: u64

datatype lineage_replace_freshness_decision =
    LINEAGE_REPLACE_FRESHNESS_CURRENT
  | LINEAGE_REPLACE_FRESHNESS_ANCHOR_UNAVAILABLE
  | LINEAGE_REPLACE_FRESHNESS_ANCHOR_INVALID
  | LINEAGE_REPLACE_FRESHNESS_BINDING_MISMATCH
  | LINEAGE_REPLACE_FRESHNESS_ROLLBACK_DETECTED
  | LINEAGE_REPLACE_FRESHNESS_GENERATION_AHEAD

definition lineage_replace_classify_freshness ::
    "lineage_replace_freshness_facts option \<Rightarrow> lineage_replace_freshness_decision" where
  "lineage_replace_classify_freshness facts =
     (case facts of
        None \<Rightarrow> LINEAGE_REPLACE_FRESHNESS_ANCHOR_INVALID
      | Some f \<Rightarrow>
          if \<not> fr_anchor_integrity_valid f then LINEAGE_REPLACE_FRESHNESS_ANCHOR_INVALID
          else if \<not> fr_anchor_available f then LINEAGE_REPLACE_FRESHNESS_ANCHOR_UNAVAILABLE
          else if \<not> fr_anchor_binding_valid f then LINEAGE_REPLACE_FRESHNESS_BINDING_MISMATCH
          else if fr_record_generation f < fr_trusted_high_water_generation f
          then LINEAGE_REPLACE_FRESHNESS_ROLLBACK_DETECTED
          else if fr_record_generation f > fr_trusted_high_water_generation f
          then LINEAGE_REPLACE_FRESHNESS_GENERATION_AHEAD
          else LINEAGE_REPLACE_FRESHNESS_CURRENT)"

definition lineage_replace_recover_with_freshness ::
    "lineage_replace_recovery_facts option \<Rightarrow> lineage_replace_freshness_facts option \<Rightarrow> lineage_replace_state" where
  "lineage_replace_recover_with_freshness recovery freshness =
     (if lineage_replace_classify_freshness freshness \<noteq> LINEAGE_REPLACE_FRESHNESS_CURRENT
      then LINEAGE_REPLACE_STATE_CONTINUITY_BROKEN
      else lineage_replace_recover recovery)"

subsection \<open>The storage transaction: \<^verbatim>\<open>lineage_replace_storage_transaction.c\<close>, \<^verbatim>\<open>_storage_capability.c\<close>\<close>

datatype lineage_replace_storage_step =
    LINEAGE_REPLACE_STORAGE_STEP_PERSIST_PENDING
  | LINEAGE_REPLACE_STORAGE_STEP_ACTIVATE_SUCCESSOR
  | LINEAGE_REPLACE_STORAGE_STEP_RETIRE_PREDECESSOR
  | LINEAGE_REPLACE_STORAGE_STEP_INVALIDATE_DEPENDENT_STATE
  | LINEAGE_REPLACE_STORAGE_STEP_CLEAR_PENDING

datatype lineage_replace_storage_transaction_result =
    LINEAGE_REPLACE_STORAGE_TRANSACTION_COMMITTED
  | LINEAGE_REPLACE_STORAGE_TRANSACTION_REJECT_PLAN
  | LINEAGE_REPLACE_STORAGE_TRANSACTION_FAIL_PENDING
  | LINEAGE_REPLACE_STORAGE_TRANSACTION_FAIL_SUCCESSOR
  | LINEAGE_REPLACE_STORAGE_TRANSACTION_FAIL_PREDECESSOR
  | LINEAGE_REPLACE_STORAGE_TRANSACTION_FAIL_INVALIDATIONS
  | LINEAGE_REPLACE_STORAGE_TRANSACTION_FAIL_CLEAR

text \<open>The callback reads and changes what its \<^verbatim>\<open>context\<close> points to: it returns the new content.\<close>

type_synonym 'c storage_apply = "'c \<Rightarrow> lineage_replace_storage_step \<Rightarrow> bool \<times> 'c"

definition plan_complete :: "lineage_replace_plan option \<Rightarrow> bool" where
  "plan_complete plan =
     (case plan of None \<Rightarrow> False
      | Some p \<Rightarrow> lp_retire_predecessor p \<and> lp_activate_successor p \<and> lp_invalidate_session_keys p \<and>
          lp_invalidate_resumption p \<and> lp_invalidate_authorization_cache p \<and>
          lp_invalidate_attribution_cache p \<and> lp_invalidate_channel_binding p \<and> lp_invalidate_replay_state p)"

definition lineage_replace_execute_storage_transaction ::
    "lineage_replace_plan option \<Rightarrow> 'c storage_apply option \<Rightarrow> 'c \<Rightarrow>
     lineage_replace_storage_transaction_result \<times> 'c" where
  "lineage_replace_execute_storage_transaction plan apply ctx =
     (case apply of
        None \<Rightarrow> (LINEAGE_REPLACE_STORAGE_TRANSACTION_REJECT_PLAN, ctx)
      | Some apply \<Rightarrow>
          if \<not> plan_complete plan then (LINEAGE_REPLACE_STORAGE_TRANSACTION_REJECT_PLAN, ctx)
          else
            let (ok, ctx) = apply ctx LINEAGE_REPLACE_STORAGE_STEP_PERSIST_PENDING in
            if \<not> ok then (LINEAGE_REPLACE_STORAGE_TRANSACTION_FAIL_PENDING, ctx)
            else let (ok, ctx) = apply ctx LINEAGE_REPLACE_STORAGE_STEP_ACTIVATE_SUCCESSOR in
            if \<not> ok then (LINEAGE_REPLACE_STORAGE_TRANSACTION_FAIL_SUCCESSOR, ctx)
            else let (ok, ctx) = apply ctx LINEAGE_REPLACE_STORAGE_STEP_RETIRE_PREDECESSOR in
            if \<not> ok then (LINEAGE_REPLACE_STORAGE_TRANSACTION_FAIL_PREDECESSOR, ctx)
            else let (ok, ctx) = apply ctx LINEAGE_REPLACE_STORAGE_STEP_INVALIDATE_DEPENDENT_STATE in
            if \<not> ok then (LINEAGE_REPLACE_STORAGE_TRANSACTION_FAIL_INVALIDATIONS, ctx)
            else let (ok, ctx) = apply ctx LINEAGE_REPLACE_STORAGE_STEP_CLEAR_PENDING in
            if \<not> ok then (LINEAGE_REPLACE_STORAGE_TRANSACTION_FAIL_CLEAR, ctx)
            else (LINEAGE_REPLACE_STORAGE_TRANSACTION_COMMITTED, ctx))"

record lineage_replace_storage_capability =
  sc_durable_commit_confirmed :: bool
  sc_power_loss_recovery_supported :: bool
  sc_record_integrity_protected :: bool
  sc_replay_protection_supported :: bool
  sc_freshness_anchor_available :: bool
  sc_freshness_anchor_integrity_valid :: bool
  sc_freshness_anchor_lineage_bound :: bool

datatype lineage_replace_storage_capability_decision =
    LINEAGE_REPLACE_STORAGE_CAPABILITY_QUALIFIED
  | LINEAGE_REPLACE_STORAGE_CAPABILITY_REJECT_DURABILITY
  | LINEAGE_REPLACE_STORAGE_CAPABILITY_REJECT_POWER_LOSS_RECOVERY
  | LINEAGE_REPLACE_STORAGE_CAPABILITY_REJECT_RECORD_INTEGRITY
  | LINEAGE_REPLACE_STORAGE_CAPABILITY_REJECT_REPLAY_PROTECTION
  | LINEAGE_REPLACE_STORAGE_CAPABILITY_REJECT_FRESHNESS_ANCHOR
  | LINEAGE_REPLACE_STORAGE_CAPABILITY_REJECT_FRESHNESS_INTEGRITY
  | LINEAGE_REPLACE_STORAGE_CAPABILITY_REJECT_FRESHNESS_BINDING

definition lineage_replace_classify_storage_capability ::
    "lineage_replace_storage_capability option \<Rightarrow> lineage_replace_storage_capability_decision" where
  "lineage_replace_classify_storage_capability capability =
     (case capability of
        None \<Rightarrow> LINEAGE_REPLACE_STORAGE_CAPABILITY_REJECT_DURABILITY
      | Some c \<Rightarrow>
          if \<not> sc_durable_commit_confirmed c then LINEAGE_REPLACE_STORAGE_CAPABILITY_REJECT_DURABILITY
          else if \<not> sc_power_loss_recovery_supported c
          then LINEAGE_REPLACE_STORAGE_CAPABILITY_REJECT_POWER_LOSS_RECOVERY
          else if \<not> sc_record_integrity_protected c
          then LINEAGE_REPLACE_STORAGE_CAPABILITY_REJECT_RECORD_INTEGRITY
          else if \<not> sc_replay_protection_supported c
          then LINEAGE_REPLACE_STORAGE_CAPABILITY_REJECT_REPLAY_PROTECTION
          else if \<not> sc_freshness_anchor_available c
          then LINEAGE_REPLACE_STORAGE_CAPABILITY_REJECT_FRESHNESS_ANCHOR
          else if \<not> sc_freshness_anchor_integrity_valid c
          then LINEAGE_REPLACE_STORAGE_CAPABILITY_REJECT_FRESHNESS_INTEGRITY
          else if \<not> sc_freshness_anchor_lineage_bound c
          then LINEAGE_REPLACE_STORAGE_CAPABILITY_REJECT_FRESHNESS_BINDING
          else LINEAGE_REPLACE_STORAGE_CAPABILITY_QUALIFIED)"


subsection \<open>Two peers: \<^verbatim>\<open>lineage_replace_convergence.c\<close>, \<^verbatim>\<open>_attempt.c\<close>, \<^verbatim>\<open>_attempt_evidence.c\<close>\<close>

record lineage_replace_convergence_facts =
  cf_local_authorized :: bool
  cf_peer_authorized :: bool
  cf_same_successor :: bool
  cf_local_confirmed :: bool
  cf_peer_confirmed :: bool

datatype lineage_replace_convergence_decision =
    LINEAGE_REPLACE_CONVERGED
  | LINEAGE_REPLACE_AWAITING_CONFIRMATION
  | LINEAGE_REPLACE_UNAUTHORIZED
  | LINEAGE_REPLACE_SUCCESSOR_CONFLICT

definition lineage_replace_classify_convergence ::
    "lineage_replace_convergence_facts option \<Rightarrow> lineage_replace_convergence_decision" where
  "lineage_replace_classify_convergence facts =
     (case facts of
        None \<Rightarrow> LINEAGE_REPLACE_UNAUTHORIZED
      | Some f \<Rightarrow>
          if \<not> cf_local_authorized f \<or> \<not> cf_peer_authorized f then LINEAGE_REPLACE_UNAUTHORIZED
          else if \<not> cf_same_successor f then LINEAGE_REPLACE_SUCCESSOR_CONFLICT
          else if cf_local_confirmed f \<and> cf_peer_confirmed f then LINEAGE_REPLACE_CONVERGED
          else LINEAGE_REPLACE_AWAITING_CONFIRMATION)"

record lineage_replace_attempt_facts =
  af_local_authorized :: bool
  af_peer_authorized :: bool
  af_same_attempt :: bool
  af_same_predecessor_generation :: bool
  af_same_successor :: bool
  af_same_context :: bool
  af_local_confirmation_bound :: bool
  af_peer_confirmation_bound :: bool

datatype lineage_replace_attempt_decision =
    LINEAGE_REPLACE_ATTEMPT_CONVERGED
  | LINEAGE_REPLACE_ATTEMPT_AWAITING_CONFIRMATION
  | LINEAGE_REPLACE_ATTEMPT_UNAUTHORIZED
  | LINEAGE_REPLACE_ATTEMPT_ID_MISMATCH
  | LINEAGE_REPLACE_ATTEMPT_PREDECESSOR_MISMATCH
  | LINEAGE_REPLACE_ATTEMPT_SUCCESSOR_MISMATCH
  | LINEAGE_REPLACE_ATTEMPT_CONTEXT_MISMATCH

definition lineage_replace_classify_attempt ::
    "lineage_replace_attempt_facts option \<Rightarrow> lineage_replace_attempt_decision" where
  "lineage_replace_classify_attempt facts =
     (case facts of
        None \<Rightarrow> LINEAGE_REPLACE_ATTEMPT_UNAUTHORIZED
      | Some f \<Rightarrow>
          if \<not> af_local_authorized f \<or> \<not> af_peer_authorized f then LINEAGE_REPLACE_ATTEMPT_UNAUTHORIZED
          else if \<not> af_same_attempt f then LINEAGE_REPLACE_ATTEMPT_ID_MISMATCH
          else if \<not> af_same_predecessor_generation f then LINEAGE_REPLACE_ATTEMPT_PREDECESSOR_MISMATCH
          else if \<not> af_same_successor f then LINEAGE_REPLACE_ATTEMPT_SUCCESSOR_MISMATCH
          else if \<not> af_same_context f then LINEAGE_REPLACE_ATTEMPT_CONTEXT_MISMATCH
          else if \<not> af_local_confirmation_bound f \<or> \<not> af_peer_confirmation_bound f
          then LINEAGE_REPLACE_ATTEMPT_AWAITING_CONFIRMATION
          else LINEAGE_REPLACE_ATTEMPT_CONVERGED)"

record lineage_replace_attempt_evidence_facts =
  ae_local_attempt_id :: u32
  ae_peer_attempt_id :: u32
  ae_local_confirmation_attempt_id :: u32
  ae_peer_confirmation_attempt_id :: u32

datatype lineage_replace_attempt_evidence_decision =
    LINEAGE_REPLACE_ATTEMPT_EVIDENCE_FRESH_CURRENT_ATTEMPT
  | LINEAGE_REPLACE_ATTEMPT_EVIDENCE_MISSING_CURRENT_ATTEMPT
  | LINEAGE_REPLACE_ATTEMPT_EVIDENCE_ATTEMPT_MISMATCH
  | LINEAGE_REPLACE_ATTEMPT_EVIDENCE_LOCAL_CONFIRMATION_MISSING
  | LINEAGE_REPLACE_ATTEMPT_EVIDENCE_PEER_CONFIRMATION_MISSING

definition lineage_replace_classify_attempt_evidence ::
    "lineage_replace_attempt_evidence_facts option \<Rightarrow> lineage_replace_attempt_evidence_decision" where
  "lineage_replace_classify_attempt_evidence facts =
     (case facts of
        None \<Rightarrow> LINEAGE_REPLACE_ATTEMPT_EVIDENCE_MISSING_CURRENT_ATTEMPT
      | Some f \<Rightarrow>
          if ae_local_attempt_id f = 0 \<or> ae_peer_attempt_id f = 0
          then LINEAGE_REPLACE_ATTEMPT_EVIDENCE_MISSING_CURRENT_ATTEMPT
          else if ae_local_attempt_id f \<noteq> ae_peer_attempt_id f
          then LINEAGE_REPLACE_ATTEMPT_EVIDENCE_ATTEMPT_MISMATCH
          else if ae_local_confirmation_attempt_id f \<noteq> ae_local_attempt_id f
          then LINEAGE_REPLACE_ATTEMPT_EVIDENCE_LOCAL_CONFIRMATION_MISSING
          else if ae_peer_confirmation_attempt_id f \<noteq> ae_peer_attempt_id f
          then LINEAGE_REPLACE_ATTEMPT_EVIDENCE_PEER_CONFIRMATION_MISSING
          else LINEAGE_REPLACE_ATTEMPT_EVIDENCE_FRESH_CURRENT_ATTEMPT)"

subsection \<open>Reconciliation: \<^verbatim>\<open>lineage_replace_reconciliation.c\<close>, \<^verbatim>\<open>_reconciliation_transition.c\<close>\<close>

record lineage_replace_reconciliation_facts =
  rf_local_attempt :: lineage_replace_attempt_decision
  rf_local_state :: lineage_replace_state
  rf_peer_attempt :: lineage_replace_attempt_decision
  rf_peer_state :: lineage_replace_state
  rf_same_successor :: bool

datatype lineage_replace_reconciliation_decision =
    LINEAGE_REPLACE_PAIR_SUCCESSOR_READY
  | LINEAGE_REPLACE_PAIR_PREDECESSOR_READY
  | LINEAGE_REPLACE_RECONCILIATION_REQUIRED
  | LINEAGE_REPLACE_PAIR_CONTINUITY_BROKEN
  | LINEAGE_REPLACE_SUCCESSOR_DIVERGENCE

definition lineage_replace_classify_reconciliation ::
    "lineage_replace_reconciliation_facts option \<Rightarrow> lineage_replace_reconciliation_decision" where
  "lineage_replace_classify_reconciliation facts =
     (case facts of
        None \<Rightarrow> LINEAGE_REPLACE_PAIR_CONTINUITY_BROKEN
      | Some f \<Rightarrow>
          if rf_local_state f = LINEAGE_REPLACE_STATE_CONTINUITY_BROKEN \<or>
             rf_peer_state f = LINEAGE_REPLACE_STATE_CONTINUITY_BROKEN
          then LINEAGE_REPLACE_PAIR_CONTINUITY_BROKEN
          else
            let local_successor =
                  (rf_local_state f = LINEAGE_REPLACE_STATE_ACTIVE_SUCCESSOR_PREDECESSOR_RETIRED);
                peer_successor =
                  (rf_peer_state f = LINEAGE_REPLACE_STATE_ACTIVE_SUCCESSOR_PREDECESSOR_RETIRED)
            in if local_successor \<and> peer_successor
               then (if \<not> rf_same_successor f then LINEAGE_REPLACE_SUCCESSOR_DIVERGENCE
                     else if rf_local_attempt f = LINEAGE_REPLACE_ATTEMPT_CONVERGED \<and>
                             rf_peer_attempt f = LINEAGE_REPLACE_ATTEMPT_CONVERGED
                     then LINEAGE_REPLACE_PAIR_SUCCESSOR_READY
                     else LINEAGE_REPLACE_RECONCILIATION_REQUIRED)
               else if rf_local_state f = LINEAGE_REPLACE_STATE_ACTIVE_PREDECESSOR \<and>
                       rf_peer_state f = LINEAGE_REPLACE_STATE_ACTIVE_PREDECESSOR \<and>
                       rf_local_attempt f \<noteq> LINEAGE_REPLACE_ATTEMPT_CONVERGED \<and>
                       rf_peer_attempt f \<noteq> LINEAGE_REPLACE_ATTEMPT_CONVERGED
               then LINEAGE_REPLACE_PAIR_PREDECESSOR_READY
               else LINEAGE_REPLACE_RECONCILIATION_REQUIRED)"

record lineage_replace_reconciliation_transition_facts =
  tf_prior :: lineage_replace_reconciliation_decision
  tf_current :: lineage_replace_reconciliation_decision
  tf_attempt_evidence :: lineage_replace_attempt_evidence_decision
  tf_explicit_clean_retry :: bool

datatype lineage_replace_reconciliation_transition =
    LINEAGE_REPLACE_RECONCILIATION_HOLD
  | LINEAGE_REPLACE_RECONCILIATION_ACTIVATE_SUCCESSOR
  | LINEAGE_REPLACE_RECONCILIATION_RESUME_PREDECESSOR
  | LINEAGE_REPLACE_RECONCILIATION_REJECT_DIVERGENCE
  | LINEAGE_REPLACE_RECONCILIATION_CONTINUITY_BROKEN

definition lineage_replace_classify_reconciliation_transition ::
    "lineage_replace_reconciliation_transition_facts option \<Rightarrow> lineage_replace_reconciliation_transition" where
  "lineage_replace_classify_reconciliation_transition facts =
     (case facts of
        None \<Rightarrow> LINEAGE_REPLACE_RECONCILIATION_CONTINUITY_BROKEN
      | Some f \<Rightarrow>
          if tf_prior f = LINEAGE_REPLACE_PAIR_CONTINUITY_BROKEN \<or>
             tf_current f = LINEAGE_REPLACE_PAIR_CONTINUITY_BROKEN
          then LINEAGE_REPLACE_RECONCILIATION_CONTINUITY_BROKEN
          else if tf_current f = LINEAGE_REPLACE_SUCCESSOR_DIVERGENCE
          then LINEAGE_REPLACE_RECONCILIATION_REJECT_DIVERGENCE
          else if tf_prior f = LINEAGE_REPLACE_SUCCESSOR_DIVERGENCE \<and> \<not> tf_explicit_clean_retry f
          then LINEAGE_REPLACE_RECONCILIATION_REJECT_DIVERGENCE
          else if tf_current f = LINEAGE_REPLACE_PAIR_SUCCESSOR_READY
          then (if tf_prior f = LINEAGE_REPLACE_PAIR_SUCCESSOR_READY
                then LINEAGE_REPLACE_RECONCILIATION_ACTIVATE_SUCCESSOR
                else if tf_attempt_evidence f = LINEAGE_REPLACE_ATTEMPT_EVIDENCE_FRESH_CURRENT_ATTEMPT \<and>
                        (tf_prior f = LINEAGE_REPLACE_RECONCILIATION_REQUIRED \<or>
                         (tf_prior f = LINEAGE_REPLACE_SUCCESSOR_DIVERGENCE \<and> tf_explicit_clean_retry f))
                then LINEAGE_REPLACE_RECONCILIATION_ACTIVATE_SUCCESSOR
                else LINEAGE_REPLACE_RECONCILIATION_HOLD)
          else if tf_current f = LINEAGE_REPLACE_PAIR_PREDECESSOR_READY \<and>
                  (tf_prior f = LINEAGE_REPLACE_PAIR_PREDECESSOR_READY \<or>
                   tf_prior f = LINEAGE_REPLACE_RECONCILIATION_REQUIRED \<or>
                   (tf_prior f = LINEAGE_REPLACE_SUCCESSOR_DIVERGENCE \<and> tf_explicit_clean_retry f))
          then LINEAGE_REPLACE_RECONCILIATION_RESUME_PREDECESSOR
          else LINEAGE_REPLACE_RECONCILIATION_HOLD)"

subsection \<open>The state machine over a history of calls\<close>

type_synonym lineage_call = "lineage_replace_event \<times> lineage_replace_plan option"

definition lineage_step :: "lineage_call \<Rightarrow> lineage_replace_state \<Rightarrow> lineage_replace_state" where
  "lineage_step call s = the (snd (lineage_replace_advance (Some s) (fst call) (snd call)))"

definition begins :: "lineage_call \<Rightarrow> bool" where
  "begins c \<longleftrightarrow> fst c = LINEAGE_REPLACE_EVENT_BEGIN \<and> lineage_replace_plan_complete (snd c)"

definition commits :: "lineage_call \<Rightarrow> bool" where
  "commits c \<longleftrightarrow> fst c = LINEAGE_REPLACE_EVENT_COMMIT \<and> lineage_replace_plan_complete (snd c)"

definition interrupts :: "lineage_call \<Rightarrow> bool" where
  "interrupts c \<longleftrightarrow> fst c = LINEAGE_REPLACE_EVENT_INTERRUPT"

lemmas call_defs = begins_def commits_def interrupts_def

lemma lineage_step_eq:
  "lineage_step c LINEAGE_REPLACE_STATE_ACTIVE_PREDECESSOR =
     (if begins c then LINEAGE_REPLACE_STATE_REPLACEMENT_PENDING else LINEAGE_REPLACE_STATE_ACTIVE_PREDECESSOR)"
  "lineage_step c LINEAGE_REPLACE_STATE_REPLACEMENT_PENDING =
     (if commits c then LINEAGE_REPLACE_STATE_ACTIVE_SUCCESSOR_PREDECESSOR_RETIRED
      else if interrupts c then LINEAGE_REPLACE_STATE_CONTINUITY_BROKEN
      else LINEAGE_REPLACE_STATE_REPLACEMENT_PENDING)"
  "lineage_step c LINEAGE_REPLACE_STATE_ACTIVE_SUCCESSOR_PREDECESSOR_RETIRED =
     LINEAGE_REPLACE_STATE_ACTIVE_SUCCESSOR_PREDECESSOR_RETIRED"
  "lineage_step c LINEAGE_REPLACE_STATE_CONTINUITY_BROKEN = LINEAGE_REPLACE_STATE_CONTINUITY_BROKEN"
  by (auto simp: lineage_step_def lineage_replace_advance_def call_defs)

text \<open>The first call that settles a pending replacement.\<close>

definition settles :: "lineage_call \<Rightarrow> bool" where
  "settles c \<longleftrightarrow> commits c \<or> interrupts c"

lemma lineage_fold_final:
  "s \<in> {LINEAGE_REPLACE_STATE_ACTIVE_SUCCESSOR_PREDECESSOR_RETIRED, LINEAGE_REPLACE_STATE_CONTINUITY_BROKEN} \<Longrightarrow>
   fold lineage_step cs s = s"
  by (induction cs) (auto simp: lineage_step_eq)

lemma lineage_fold_pending:
  "fold lineage_step cs LINEAGE_REPLACE_STATE_REPLACEMENT_PENDING =
     (case filter settles cs of
        [] \<Rightarrow> LINEAGE_REPLACE_STATE_REPLACEMENT_PENDING
      | c # _ \<Rightarrow> if commits c then LINEAGE_REPLACE_STATE_ACTIVE_SUCCESSOR_PREDECESSOR_RETIRED
                 else LINEAGE_REPLACE_STATE_CONTINUITY_BROKEN)"
  by (induction cs) (auto simp: lineage_step_eq settles_def lineage_fold_final)

lemma lineage_fold_predecessor:
  "fold lineage_step cs LINEAGE_REPLACE_STATE_ACTIVE_PREDECESSOR =
     (case dropWhile (\<lambda>c. \<not> begins c) cs of
        [] \<Rightarrow> LINEAGE_REPLACE_STATE_ACTIVE_PREDECESSOR
      | _ # rest \<Rightarrow> fold lineage_step rest LINEAGE_REPLACE_STATE_REPLACEMENT_PENDING)"
  by (induction cs) (auto simp: lineage_step_eq)

subsection \<open>The storage transaction against a durable record\<close>

text \<open>What a step is to make durable.\<close>

fun perform :: "lineage_replace_storage_step \<Rightarrow> lineage_replace_recovery_facts \<Rightarrow> lineage_replace_recovery_facts" where
  "perform LINEAGE_REPLACE_STORAGE_STEP_PERSIST_PENDING r = r\<lparr>lr_replacement_pending := True\<rparr>"
| "perform LINEAGE_REPLACE_STORAGE_STEP_ACTIVATE_SUCCESSOR r = r\<lparr>lr_successor_active := True\<rparr>"
| "perform LINEAGE_REPLACE_STORAGE_STEP_RETIRE_PREDECESSOR r =
     r\<lparr>lr_predecessor_active := False, lr_predecessor_retired := True\<rparr>"
| "perform LINEAGE_REPLACE_STORAGE_STEP_INVALIDATE_DEPENDENT_STATE r = r\<lparr>lr_invalidations_complete := True\<rparr>"
| "perform LINEAGE_REPLACE_STORAGE_STEP_CLEAR_PENDING r = r\<lparr>lr_replacement_pending := False\<rparr>"

abbreviation at_cut :: "int \<Rightarrow> lineage_replace_recovery_facts" where
  "at_cut \<equiv> lineage_replace_facts_at_write_cut"

lemma perform_at_cut:
  "perform LINEAGE_REPLACE_STORAGE_STEP_PERSIST_PENDING (at_cut 0) = at_cut 1"
  "perform LINEAGE_REPLACE_STORAGE_STEP_ACTIVATE_SUCCESSOR (at_cut 1) = at_cut 2"
  "perform LINEAGE_REPLACE_STORAGE_STEP_RETIRE_PREDECESSOR (at_cut 2) = at_cut 3"
  "perform LINEAGE_REPLACE_STORAGE_STEP_INVALIDATE_DEPENDENT_STATE (at_cut 3) = at_cut 4"
  "perform LINEAGE_REPLACE_STORAGE_STEP_CLEAR_PENDING (at_cut 4) = at_cut 5"
  by (simp_all add: lineage_replace_facts_at_write_cut_def)

lemma recover_at_cut:
  "lineage_replace_recover (Some (at_cut k)) =
     (if k = 0 then LINEAGE_REPLACE_STATE_ACTIVE_PREDECESSOR
      else if k = 5 then LINEAGE_REPLACE_STATE_ACTIVE_SUCCESSOR_PREDECESSOR_RETIRED
      else LINEAGE_REPLACE_STATE_CONTINUITY_BROKEN)"
  by (simp add: lineage_replace_recover_def lineage_replace_facts_at_write_cut_def Let_def)

text \<open>
  The contract of the callback: \<^verbatim>\<open>true\<close> means that the step is durable; \<^verbatim>\<open>false\<close> means nothing, the
  step may or may not have reached the medium before it failed.
\<close>

locale storage_adapter =
  fixes apply_step :: "'c storage_apply" and durable :: "'c \<Rightarrow> lineage_replace_recovery_facts"
  assumes applied: "apply_step c s = (True, c') \<Longrightarrow> durable c' = perform s (durable c)"
    and failed: "apply_step c s = (False, c') \<Longrightarrow> durable c' = durable c \<or> durable c' = perform s (durable c)"
begin

text \<open>The cut at which the transaction stops, by its result.\<close>

lemma transaction_cut:
  assumes "durable c = at_cut 0" and "plan_complete plan"
    and "lineage_replace_execute_storage_transaction plan (Some apply_step) c = (r, c')"
  shows "case r of
      LINEAGE_REPLACE_STORAGE_TRANSACTION_COMMITTED \<Rightarrow> durable c' = at_cut 5
    | LINEAGE_REPLACE_STORAGE_TRANSACTION_REJECT_PLAN \<Rightarrow> False
    | LINEAGE_REPLACE_STORAGE_TRANSACTION_FAIL_PENDING \<Rightarrow> durable c' = at_cut 0 \<or> durable c' = at_cut 1
    | LINEAGE_REPLACE_STORAGE_TRANSACTION_FAIL_SUCCESSOR \<Rightarrow> durable c' = at_cut 1 \<or> durable c' = at_cut 2
    | LINEAGE_REPLACE_STORAGE_TRANSACTION_FAIL_PREDECESSOR \<Rightarrow> durable c' = at_cut 2 \<or> durable c' = at_cut 3
    | LINEAGE_REPLACE_STORAGE_TRANSACTION_FAIL_INVALIDATIONS \<Rightarrow> durable c' = at_cut 3 \<or> durable c' = at_cut 4
    | LINEAGE_REPLACE_STORAGE_TRANSACTION_FAIL_CLEAR \<Rightarrow> durable c' = at_cut 4 \<or> durable c' = at_cut 5"
  using assms
  by (auto simp: lineage_replace_execute_storage_transaction_def perform_at_cut
      simp del: perform.simps dest!: applied failed split: prod.splits if_splits)

end

text \<open>The adapter that stops at a write cut of \<^verbatim>\<open>lineage_replace_faults.c\<close>: its content is the cut
  it has reached, and \<open>n\<close> is the one it never passes.\<close>

fun step_cut :: "lineage_replace_storage_step \<Rightarrow> int" where
  "step_cut LINEAGE_REPLACE_STORAGE_STEP_PERSIST_PENDING = 0"
| "step_cut LINEAGE_REPLACE_STORAGE_STEP_ACTIVATE_SUCCESSOR = 1"
| "step_cut LINEAGE_REPLACE_STORAGE_STEP_RETIRE_PREDECESSOR = 2"
| "step_cut LINEAGE_REPLACE_STORAGE_STEP_INVALIDATE_DEPENDENT_STATE = 3"
| "step_cut LINEAGE_REPLACE_STORAGE_STEP_CLEAR_PENDING = 4"

definition cut_apply :: "int \<Rightarrow> int storage_apply" where
  "cut_apply n k s = (if k = step_cut s \<and> k < n then (True, k + 1) else (False, k))"

interpretation cut_store: storage_adapter "cut_apply n" at_cut for n
proof unfold_locales
  fix c s c'
  show "cut_apply n c s = (True, c') \<Longrightarrow> at_cut c' = perform s (at_cut c)"
    by (cases s) (auto simp: cut_apply_def perform_at_cut simp del: perform.simps split: if_splits)
  show "cut_apply n c s = (False, c') \<Longrightarrow> at_cut c' = at_cut c \<or> at_cut c' = perform s (at_cut c)"
    by (auto simp: cut_apply_def split: if_splits)
qed

text \<open>C24: replacing a credential lineage is crash-safe. With any storage adapter whose \<^verbatim>\<open>true\<close> means
  that the step is durable, and whatever step fails or is interrupted, the durable record is that of
  a write cut of the code's own fault model, and recovery from it never resumes an unfinished
  replacement: the predecessor is active again only when the transaction failed at its first step,
  the successor is active only when every other step was made durable, and is active whenever the
  transaction reports that it committed; all other records recover as broken continuity.\<close>

theorem lineage_transaction_crash_safe:
  assumes "\<And>c s c'. app c s = (True, c') \<Longrightarrow> durable c' = perform s (durable c)"
    and "\<And>c s c'. app c s = (False, c') \<Longrightarrow> durable c' = durable c \<or> durable c' = perform s (durable c)"
    and "durable c = lineage_replace_facts_at_write_cut LINEAGE_REPLACE_CUT_BEFORE_BEGIN"
    and "plan_complete plan"
    and "lineage_replace_execute_storage_transaction plan (Some app) c = (r, c')"
  shows "(\<exists>k\<in>{0..5}. durable c' = lineage_replace_facts_at_write_cut k) \<and>
     (case lineage_replace_recover (Some (durable c')) of
        LINEAGE_REPLACE_STATE_ACTIVE_PREDECESSOR \<Rightarrow> r = LINEAGE_REPLACE_STORAGE_TRANSACTION_FAIL_PENDING
      | LINEAGE_REPLACE_STATE_ACTIVE_SUCCESSOR_PREDECESSOR_RETIRED \<Rightarrow>
          r = LINEAGE_REPLACE_STORAGE_TRANSACTION_COMMITTED \<or> r = LINEAGE_REPLACE_STORAGE_TRANSACTION_FAIL_CLEAR
      | LINEAGE_REPLACE_STATE_CONTINUITY_BROKEN \<Rightarrow> r \<noteq> LINEAGE_REPLACE_STORAGE_TRANSACTION_COMMITTED
      | LINEAGE_REPLACE_STATE_REPLACEMENT_PENDING \<Rightarrow> False)"
proof -
  have "storage_adapter app durable" by unfold_locales (use assms(1,2) in blast)+
  from storage_adapter.transaction_cut [OF this assms(3-5)] show ?thesis
    by (cases r) (auto simp: recover_at_cut)
qed

theorem lineage_transaction_crash_safe_witness:
  "case lineage_replace_recover (Some (at_cut 3)) of
     LINEAGE_REPLACE_STATE_CONTINUITY_BROKEN \<Rightarrow>
       lineage_replace_execute_storage_transaction (Some (plan_all True)) (Some (cut_apply 3)) 0 =
         (LINEAGE_REPLACE_STORAGE_TRANSACTION_FAIL_INVALIDATIONS, 3)
   | _ \<Rightarrow> False"
proof -
  have run: "lineage_replace_execute_storage_transaction (Some (plan_all True)) (Some (cut_apply 3)) 0 =
      (LINEAGE_REPLACE_STORAGE_TRANSACTION_FAIL_INVALIDATIONS, 3)"
    by (simp add: lineage_replace_execute_storage_transaction_def plan_complete_def plan_all_def cut_apply_def)
  have "plan_complete (Some (plan_all True))" by (simp add: plan_complete_def plan_all_def)
  from lineage_transaction_crash_safe [of "cut_apply 3" at_cut, 
      OF cut_store.applied [where n = 3] cut_store.failed [where n = 3] refl this run]
  show ?thesis using run by (simp split: lineage_replace_state.splits)
qed

text \<open>The replacement state machine follows its protocol whatever calls it receives, in any
  order and with any plan: calls before the first complete BEGIN change nothing; after it the first
  complete COMMIT or the first INTERRUPT decides for good, the successor being active exactly when
  the COMMIT came first; no call ever leaves the two final states, and an incomplete plan never
  moves the machine.\<close>

theorem lineage_history:
  "fold lineage_step calls LINEAGE_REPLACE_STATE_ACTIVE_PREDECESSOR =
     (case dropWhile (\<lambda>c. \<not> begins c) calls of
        [] \<Rightarrow> LINEAGE_REPLACE_STATE_ACTIVE_PREDECESSOR
      | _ # rest \<Rightarrow>
          (case filter settles rest of
             [] \<Rightarrow> LINEAGE_REPLACE_STATE_REPLACEMENT_PENDING
           | c # _ \<Rightarrow> if commits c then LINEAGE_REPLACE_STATE_ACTIVE_SUCCESSOR_PREDECESSOR_RETIRED
                      else LINEAGE_REPLACE_STATE_CONTINUITY_BROKEN)) \<and>
   fst (lineage_replace_advance (Some s) e p) = (snd (lineage_replace_advance (Some s) e p) \<noteq> Some s)"
proof
  show "fold lineage_step calls LINEAGE_REPLACE_STATE_ACTIVE_PREDECESSOR =
     (case dropWhile (\<lambda>c. \<not> begins c) calls of
        [] \<Rightarrow> LINEAGE_REPLACE_STATE_ACTIVE_PREDECESSOR
      | _ # rest \<Rightarrow>
          (case filter settles rest of
             [] \<Rightarrow> LINEAGE_REPLACE_STATE_REPLACEMENT_PENDING
           | c # _ \<Rightarrow> if commits c then LINEAGE_REPLACE_STATE_ACTIVE_SUCCESSOR_PREDECESSOR_RETIRED
                      else LINEAGE_REPLACE_STATE_CONTINUITY_BROKEN))"
    unfolding lineage_fold_predecessor lineage_fold_pending ..
qed (auto simp: lineage_replace_advance_def)

subsection \<open>Recovery with a freshness anchor\<close>

text \<open>After a restart a lineage is active only on a record that is intact, settled and of exactly
  the generation the trusted anchor names: an older record (a rollback), a newer one, a missing or
  foreign anchor all recover as broken continuity.\<close>

theorem recover_fresh_exact:
  "lineage_replace_recover_with_freshness (Some r) (Some f) \<noteq> LINEAGE_REPLACE_STATE_CONTINUITY_BROKEN \<longleftrightarrow>
     fr_anchor_available f \<and> fr_anchor_integrity_valid f \<and> fr_anchor_binding_valid f \<and>
     fr_record_generation f = fr_trusted_high_water_generation f \<and>
     (r = lineage_replace_facts_at_write_cut LINEAGE_REPLACE_CUT_BEFORE_BEGIN \<or>
      r = lineage_replace_facts_at_write_cut LINEAGE_REPLACE_CUT_AFTER_COMMIT_MARKER_CLEAR)"
proof -
  have "lineage_replace_recover (Some r) \<noteq> LINEAGE_REPLACE_STATE_CONTINUITY_BROKEN \<longleftrightarrow>
      r = at_cut 0 \<or> r = at_cut 5"
    by (cases r) (auto simp: lineage_replace_recover_def lineage_replace_facts_at_write_cut_def)
  moreover have "lineage_replace_classify_freshness (Some f) = LINEAGE_REPLACE_FRESHNESS_CURRENT \<longleftrightarrow>
      fr_anchor_available f \<and> fr_anchor_integrity_valid f \<and> fr_anchor_binding_valid f \<and>
      fr_record_generation f = fr_trusted_high_water_generation f"
    by (auto simp: lineage_replace_classify_freshness_def not_less)
  ultimately show ?thesis
    by (auto simp: lineage_replace_recover_with_freshness_def)
qed

subsection \<open>Two peers reconcile consistently\<close>

text \<open>The same facts seen from the other side.\<close>

definition swap_reconciliation :: "lineage_replace_reconciliation_facts \<Rightarrow> lineage_replace_reconciliation_facts" where
  "swap_reconciliation f =
     \<lparr>rf_local_attempt = rf_peer_attempt f, rf_local_state = rf_peer_state f,
      rf_peer_attempt = rf_local_attempt f, rf_peer_state = rf_local_state f,
      rf_same_successor = rf_same_successor f\<rparr>"

definition swap_evidence :: "lineage_replace_attempt_evidence_facts \<Rightarrow> lineage_replace_attempt_evidence_facts" where
  "swap_evidence e =
     \<lparr>ae_local_attempt_id = ae_peer_attempt_id e, ae_peer_attempt_id = ae_local_attempt_id e,
      ae_local_confirmation_attempt_id = ae_peer_confirmation_attempt_id e,
      ae_peer_confirmation_attempt_id = ae_local_confirmation_attempt_id e\<rparr>"

text \<open>What a peer does: classify the pair, classify the evidence, decide the transition.\<close>

definition peer_transition ::
    "lineage_replace_reconciliation_decision \<Rightarrow> bool \<Rightarrow> lineage_replace_reconciliation_facts \<Rightarrow>
     lineage_replace_attempt_evidence_facts \<Rightarrow> lineage_replace_reconciliation_transition" where
  "peer_transition prior retry f e =
     lineage_replace_classify_reconciliation_transition
       (Some \<lparr>tf_prior = prior, tf_current = lineage_replace_classify_reconciliation (Some f),
              tf_attempt_evidence = lineage_replace_classify_attempt_evidence (Some e),
              tf_explicit_clean_retry = retry\<rparr>)"

lemma reconciliation_swap:
  "lineage_replace_classify_reconciliation (Some (swap_reconciliation f)) =
   lineage_replace_classify_reconciliation (Some f)"
  by (auto simp: lineage_replace_classify_reconciliation_def swap_reconciliation_def Let_def)

lemma evidence_fresh_iff:
  "lineage_replace_classify_attempt_evidence (Some e) = LINEAGE_REPLACE_ATTEMPT_EVIDENCE_FRESH_CURRENT_ATTEMPT \<longleftrightarrow>
     ae_local_attempt_id e \<noteq> 0 \<and> ae_peer_attempt_id e = ae_local_attempt_id e \<and>
     ae_local_confirmation_attempt_id e = ae_local_attempt_id e \<and>
     ae_peer_confirmation_attempt_id e = ae_local_attempt_id e"
  by (auto simp: lineage_replace_classify_attempt_evidence_def)

lemma transition_evidence:
  "(lineage_replace_classify_attempt_evidence (Some e) = LINEAGE_REPLACE_ATTEMPT_EVIDENCE_FRESH_CURRENT_ATTEMPT \<longleftrightarrow>
    lineage_replace_classify_attempt_evidence (Some e') = LINEAGE_REPLACE_ATTEMPT_EVIDENCE_FRESH_CURRENT_ATTEMPT) \<Longrightarrow>
   peer_transition prior retry f e = peer_transition prior retry f e'"
  by (auto simp: peer_transition_def lineage_replace_classify_reconciliation_transition_def)

lemma pair_ready:
  "lineage_replace_classify_reconciliation (Some f) = LINEAGE_REPLACE_PAIR_SUCCESSOR_READY \<longleftrightarrow>
     rf_local_state f = LINEAGE_REPLACE_STATE_ACTIVE_SUCCESSOR_PREDECESSOR_RETIRED \<and>
     rf_peer_state f = LINEAGE_REPLACE_STATE_ACTIVE_SUCCESSOR_PREDECESSOR_RETIRED \<and> rf_same_successor f \<and>
     rf_local_attempt f = LINEAGE_REPLACE_ATTEMPT_CONVERGED \<and> rf_peer_attempt f = LINEAGE_REPLACE_ATTEMPT_CONVERGED"
  "lineage_replace_classify_reconciliation (Some f) = LINEAGE_REPLACE_PAIR_PREDECESSOR_READY \<longleftrightarrow>
     rf_local_state f = LINEAGE_REPLACE_STATE_ACTIVE_PREDECESSOR \<and>
     rf_peer_state f = LINEAGE_REPLACE_STATE_ACTIVE_PREDECESSOR \<and>
     rf_local_attempt f \<noteq> LINEAGE_REPLACE_ATTEMPT_CONVERGED \<and> rf_peer_attempt f \<noteq> LINEAGE_REPLACE_ATTEMPT_CONVERGED"
  by (auto simp: lineage_replace_classify_reconciliation_def Let_def)

text \<open>Two peers that reconcile never split. Seeing the same pair of states from their two sides,
  with the same prior decision, they take the same transition; they activate the successor only
  when both have retired the predecessor in favour of the same successor and both attempts have
  converged, and, unless the pair was ready before, only on a fresh confirmation of one common
  attempt by both; they resume the predecessor only when both still have it.\<close>

theorem reconciliation_consistent:
  "peer_transition prior retry (swap_reconciliation f) (swap_evidence e) = peer_transition prior retry f e \<and>
   (peer_transition prior retry f e = LINEAGE_REPLACE_RECONCILIATION_ACTIVATE_SUCCESSOR \<longrightarrow>
      rf_local_state f = LINEAGE_REPLACE_STATE_ACTIVE_SUCCESSOR_PREDECESSOR_RETIRED \<and>
      rf_peer_state f = LINEAGE_REPLACE_STATE_ACTIVE_SUCCESSOR_PREDECESSOR_RETIRED \<and> rf_same_successor f \<and>
      rf_local_attempt f = LINEAGE_REPLACE_ATTEMPT_CONVERGED \<and> rf_peer_attempt f = LINEAGE_REPLACE_ATTEMPT_CONVERGED \<and>
      (prior = LINEAGE_REPLACE_PAIR_SUCCESSOR_READY \<or>
       ae_local_attempt_id e \<noteq> 0 \<and> ae_peer_attempt_id e = ae_local_attempt_id e \<and>
       ae_local_confirmation_attempt_id e = ae_local_attempt_id e \<and>
       ae_peer_confirmation_attempt_id e = ae_local_attempt_id e)) \<and>
   (peer_transition prior retry f e = LINEAGE_REPLACE_RECONCILIATION_RESUME_PREDECESSOR \<longrightarrow>
      rf_local_state f = LINEAGE_REPLACE_STATE_ACTIVE_PREDECESSOR \<and>
      rf_peer_state f = LINEAGE_REPLACE_STATE_ACTIVE_PREDECESSOR)"
proof (intro conjI impI)
  have "peer_transition prior retry (swap_reconciliation f) (swap_evidence e) =
      peer_transition prior retry f (swap_evidence e)"
    by (simp add: peer_transition_def reconciliation_swap)
  also have "\<dots> = peer_transition prior retry f e"
    by (rule transition_evidence) (auto simp: evidence_fresh_iff swap_evidence_def)
  finally show "peer_transition prior retry (swap_reconciliation f) (swap_evidence e) = peer_transition prior retry f e" .
next
  assume a: "peer_transition prior retry f e = LINEAGE_REPLACE_RECONCILIATION_ACTIVATE_SUCCESSOR"
  then have c: "lineage_replace_classify_reconciliation (Some f) = LINEAGE_REPLACE_PAIR_SUCCESSOR_READY"
    and "prior = LINEAGE_REPLACE_PAIR_SUCCESSOR_READY \<or>
      lineage_replace_classify_attempt_evidence (Some e) = LINEAGE_REPLACE_ATTEMPT_EVIDENCE_FRESH_CURRENT_ATTEMPT"
    by (auto simp: peer_transition_def lineage_replace_classify_reconciliation_transition_def split: if_splits)
  then show "prior = LINEAGE_REPLACE_PAIR_SUCCESSOR_READY \<or>
       ae_local_attempt_id e \<noteq> 0 \<and> ae_peer_attempt_id e = ae_local_attempt_id e \<and>
       ae_local_confirmation_attempt_id e = ae_local_attempt_id e \<and>
       ae_peer_confirmation_attempt_id e = ae_local_attempt_id e"
    by (simp add: evidence_fresh_iff)
  from c show "rf_local_state f = LINEAGE_REPLACE_STATE_ACTIVE_SUCCESSOR_PREDECESSOR_RETIRED"
      "rf_peer_state f = LINEAGE_REPLACE_STATE_ACTIVE_SUCCESSOR_PREDECESSOR_RETIRED" "rf_same_successor f"
      "rf_local_attempt f = LINEAGE_REPLACE_ATTEMPT_CONVERGED" "rf_peer_attempt f = LINEAGE_REPLACE_ATTEMPT_CONVERGED"
    by (simp_all add: pair_ready)
next
  assume "peer_transition prior retry f e = LINEAGE_REPLACE_RECONCILIATION_RESUME_PREDECESSOR"
  then have "lineage_replace_classify_reconciliation (Some f) = LINEAGE_REPLACE_PAIR_PREDECESSOR_READY"
    by (auto simp: peer_transition_def lineage_replace_classify_reconciliation_transition_def split: if_splits)
  then show "rf_local_state f = LINEAGE_REPLACE_STATE_ACTIVE_PREDECESSOR"
      "rf_peer_state f = LINEAGE_REPLACE_STATE_ACTIVE_PREDECESSOR"
    by (simp_all add: pair_ready)
qed

definition reconciliation_sample :: lineage_replace_reconciliation_facts where
  "reconciliation_sample =
     \<lparr>rf_local_attempt = LINEAGE_REPLACE_ATTEMPT_CONVERGED,
      rf_local_state = LINEAGE_REPLACE_STATE_ACTIVE_SUCCESSOR_PREDECESSOR_RETIRED,
      rf_peer_attempt = LINEAGE_REPLACE_ATTEMPT_CONVERGED,
      rf_peer_state = LINEAGE_REPLACE_STATE_ACTIVE_SUCCESSOR_PREDECESSOR_RETIRED, rf_same_successor = True\<rparr>"

definition evidence_sample :: lineage_replace_attempt_evidence_facts where
  "evidence_sample = \<lparr>ae_local_attempt_id = 7, ae_peer_attempt_id = 7,
     ae_local_confirmation_attempt_id = 7, ae_peer_confirmation_attempt_id = 7\<rparr>"

theorem reconciliation_consistent_witness:
  "peer_transition LINEAGE_REPLACE_RECONCILIATION_REQUIRED False reconciliation_sample evidence_sample =
     LINEAGE_REPLACE_RECONCILIATION_ACTIVATE_SUCCESSOR \<and> rf_same_successor reconciliation_sample"
proof -
  have "peer_transition LINEAGE_REPLACE_RECONCILIATION_REQUIRED False reconciliation_sample evidence_sample =
      LINEAGE_REPLACE_RECONCILIATION_ACTIVATE_SUCCESSOR"
    by (simp add: peer_transition_def lineage_replace_classify_reconciliation_transition_def evidence_fresh_iff
        pair_ready reconciliation_sample_def evidence_sample_def lineage_replace_classify_reconciliation_def)
  then show ?thesis
    using reconciliation_consistent [of LINEAGE_REPLACE_RECONCILIATION_REQUIRED False reconciliation_sample evidence_sample]
    by blast
qed

end
