(* ===== verification/V3Context.thy ===== *)
theory V3Context
  imports Sodium
begin

text \<open>
  \<^verbatim>\<open>c/src/proto/auth_v3_context.c\<close> and \<^verbatim>\<open>auth_v3_context_parser.c\<close>: the canonical ``ZKCTX''
  encoding of a context (a kind and a list of identified values), its streaming hash, and the
  parser of the received bytes. An entry is the C struct: an identifier, a pointer and a length;
  a pointer into the input of the parser is the list of the bytes from there to the end of the
  input. Both sides are compared with one specification, the layout of a well-formed context:
  the encoder writes it, the hash digests it, and the parser accepts nothing else.
\<close>

subsection \<open>Constants and structs\<close>

text \<open>A C enum is an integer: a caller can pass a value outside the enumeration.\<close>

type_synonym auth_v3_context_kind = int

abbreviation (input) AUTH_V3_CONTEXT_AUTHORIZATION :: int where "AUTH_V3_CONTEXT_AUTHORIZATION \<equiv> 1"
abbreviation (input) AUTH_V3_CONTEXT_CRITICAL_EXTENSIONS :: int where
  "AUTH_V3_CONTEXT_CRITICAL_EXTENSIONS \<equiv> 2"
abbreviation (input) AUTH_V3_CONTEXT_CHANNEL_BINDING :: int where "AUTH_V3_CONTEXT_CHANNEL_BINDING \<equiv> 3"
abbreviation (input) AUTH_V3_CONTEXT_MAGIC_LEN :: nat where "AUTH_V3_CONTEXT_MAGIC_LEN \<equiv> 5"
abbreviation (input) AUTH_V3_CONTEXT_ENCODING_VERSION :: byte where
  "AUTH_V3_CONTEXT_ENCODING_VERSION \<equiv> 1"
abbreviation (input) UINT16_MAX :: nat where "UINT16_MAX \<equiv> 65535"
abbreviation (input) SIZE_MAX :: nat where "SIZE_MAX \<equiv> 18446744073709551615"

datatype auth_v3_context_result =
    AUTH_V3_CONTEXT_INVALID_ARGUMENT
  | AUTH_V3_CONTEXT_INVALID_ID
  | AUTH_V3_CONTEXT_NON_CANONICAL_ORDER
  | AUTH_V3_CONTEXT_INVALID_CRITICAL_ID
  | AUTH_V3_CONTEXT_BUFFER_TOO_SMALL

datatype auth_v3_context_parse_result =
    AUTH_V3_CONTEXT_PARSE_INVALID_ARGUMENT
  | AUTH_V3_CONTEXT_PARSE_TRUNCATED
  | AUTH_V3_CONTEXT_PARSE_INVALID_MAGIC
  | AUTH_V3_CONTEXT_PARSE_UNSUPPORTED_VERSION
  | AUTH_V3_CONTEXT_PARSE_UNKNOWN_KIND
  | AUTH_V3_CONTEXT_PARSE_INVALID_ID
  | AUTH_V3_CONTEXT_PARSE_NON_CANONICAL_ORDER
  | AUTH_V3_CONTEXT_PARSE_INVALID_CRITICAL_ID
  | AUTH_V3_CONTEXT_PARSE_NONZERO_FLAGS
  | AUTH_V3_CONTEXT_PARSE_TRAILING_BYTES
  | AUTH_V3_CONTEXT_PARSE_ENTRY_BUFFER_TOO_SMALL

record auth_v3_context_entry =
  ce_id :: u16
  ce_value :: "byte list option"
  ce_value_len :: u16

definition CONTEXT_MAGIC :: "byte list" where
  "CONTEXT_MAGIC = [0x5a, 0x4b, 0x43, 0x54, 0x58]"

subsection \<open>Validation of the entries\<close>

text \<open>\<^verbatim>\<open>entries[i]\<close>; beyond the array it is undefined behaviour.\<close>

definition entry_at :: "'a list option \<Rightarrow> nat \<Rightarrow> ('e, 'a) cres" where
  "entry_at es i =
     (case es of None \<Rightarrow> Fault | Some es \<Rightarrow> if i < length es then Ret (es ! i) else Fault)"

definition bad_critical_id :: "auth_v3_context_kind \<Rightarrow> u16 \<Rightarrow> bool" where
  "bad_critical_id kind eid \<longleftrightarrow>
     kind = AUTH_V3_CONTEXT_CRITICAL_EXTENSIONS \<and> (eid AND 0x8000 = 0 \<or> eid AND 0x7fff = 0)"

definition validate_entry ::
    "auth_v3_context_kind \<Rightarrow> nat \<Rightarrow> auth_v3_context_entry \<Rightarrow> u16 \<times> nat \<Rightarrow>
     (auth_v3_context_result, u16 \<times> nat) cres" where
  "validate_entry kind i entry st =
     (let (previous, total) = st in
      if ce_id entry = 0 then Fail AUTH_V3_CONTEXT_INVALID_ID
      else if i > 0 \<and> ce_id entry \<le> previous then Fail AUTH_V3_CONTEXT_NON_CANONICAL_ORDER
      else if bad_critical_id kind (ce_id entry) then Fail AUTH_V3_CONTEXT_INVALID_CRITICAL_ID
      else if ce_value_len entry > 0 \<and> ce_value entry = None then Fail AUTH_V3_CONTEXT_INVALID_ARGUMENT
      else if total > SIZE_MAX - 5 - unat (ce_value_len entry) then Fail AUTH_V3_CONTEXT_INVALID_ARGUMENT
      else Ret (ce_id entry, total + (5 + unat (ce_value_len entry))))"

definition validate_entries ::
    "auth_v3_context_kind \<Rightarrow> auth_v3_context_entry list option \<Rightarrow> nat \<Rightarrow>
     (auth_v3_context_result, nat) cres" where
  "validate_entries kind entries entry_count =
     (if entry_count > UINT16_MAX then Fail AUTH_V3_CONTEXT_INVALID_ARGUMENT
      else if entry_count > 0 \<and> entries = None then Fail AUTH_V3_CONTEXT_INVALID_ARGUMENT
      else if kind \<noteq> AUTH_V3_CONTEXT_AUTHORIZATION \<and> kind \<noteq> AUTH_V3_CONTEXT_CRITICAL_EXTENSIONS \<and>
              kind \<noteq> AUTH_V3_CONTEXT_CHANNEL_BINDING then Fail AUTH_V3_CONTEXT_INVALID_ARGUMENT
      else
        bnd (loop (\<lambda>i st. bnd (entry_at entries i) (\<lambda>entry. validate_entry kind i entry st))
               [0..<entry_count] (0, 9)) (\<lambda>(previous, total).
        Ret total))"

subsection \<open>Encoding\<close>

text \<open>\<^verbatim>\<open>memcpy(dst, entry->value, entry->value_len)\<close> reads the bytes the pointer gives.\<close>

definition entry_value :: "auth_v3_context_entry \<Rightarrow> ('e, byte list) cres" where
  "entry_value e =
     (case ce_value e of None \<Rightarrow> Fault | Some v \<Rightarrow> rdn v 0 (unat (ce_value_len e)))"

definition encode_entry ::
    "auth_v3_context_entry \<Rightarrow> cursor \<Rightarrow> (auth_v3_context_result, cursor) cres" where
  "encode_entry entry c =
     bnd (putb (ucast (ce_id entry AND 0xff)) c) (\<lambda>c.
     bnd (putb (ucast (drop_bit 8 (ce_id entry) AND 0xff)) c) (\<lambda>c.
     bnd (putb 0 c) (\<lambda>c.
     bnd (putb (ucast (ce_value_len entry AND 0xff)) c) (\<lambda>c.
     bnd (putb (ucast (drop_bit 8 (ce_value_len entry) AND 0xff)) c) (\<lambda>c.
     if ce_value_len entry > 0
     then bnd (entry_value entry) (\<lambda>v. putn v (unat (ce_value_len entry)) c)
     else Ret c)))))"

definition auth_v3_context_encode ::
    "auth_v3_context_kind \<Rightarrow> auth_v3_context_entry list option \<Rightarrow> nat \<Rightarrow> byte list option \<Rightarrow>
     (auth_v3_context_result, cursor) cres" where
  "auth_v3_context_encode kind entries entry_count out =
     bnd (validate_entries kind entries entry_count) (\<lambda>needed.
     case out of
       None \<Rightarrow> Fail AUTH_V3_CONTEXT_INVALID_ARGUMENT
     | Some out \<Rightarrow>
         if length out < needed then Fail AUTH_V3_CONTEXT_BUFFER_TOO_SMALL
         else
           bnd (putn CONTEXT_MAGIC AUTH_V3_CONTEXT_MAGIC_LEN (out, 0)) (\<lambda>c.
           bnd (putb AUTH_V3_CONTEXT_ENCODING_VERSION c) (\<lambda>c.
           bnd (putb (of_int kind) c) (\<lambda>c.
           bnd (putb (of_nat (entry_count AND 0xff)) c) (\<lambda>c.
           bnd (putb (of_nat (drop_bit 8 entry_count AND 0xff)) c) (\<lambda>c.
           loop (\<lambda>i c. bnd (entry_at entries i) (\<lambda>entry. encode_entry entry c))
             [0..<entry_count] c))))))"

subsection \<open>Hashing without an output buffer\<close>

text \<open>The state of the incremental hash is the input it has been fed so far.\<close>

definition hash_entry ::
    "auth_v3_context_entry \<Rightarrow> byte list \<Rightarrow> (auth_v3_context_result, byte list) cres" where
  "hash_entry entry state =
     (let entry_header =
        [ucast (ce_id entry AND 0xff), ucast (drop_bit 8 (ce_id entry) AND 0xff), 0,
         ucast (ce_value_len entry AND 0xff), ucast (drop_bit 8 (ce_value_len entry) AND 0xff)];
          state = state @ entry_header
      in if ce_value_len entry > 0 then bnd (entry_value entry) (\<lambda>v. Ret (state @ v)) else Ret state)"

definition auth_v3_context_hash ::
    "sodium \<Rightarrow> auth_v3_context_kind \<Rightarrow> auth_v3_context_entry list option \<Rightarrow> nat \<Rightarrow>
     (auth_v3_context_result, byte list) cres" where
  "auth_v3_context_hash S kind entries entry_count =
     bnd (validate_entries kind entries entry_count) (\<lambda>ignored_len.
     let header = CONTEXT_MAGIC @ [AUTH_V3_CONTEXT_ENCODING_VERSION, of_int kind,
                    of_nat (entry_count AND 0xff), of_nat (drop_bit 8 entry_count AND 0xff)] in
     bnd (loop (\<lambda>i state. bnd (entry_at entries i) (\<lambda>entry. hash_entry entry state))
            [0..<entry_count] header) (\<lambda>state.
     Ret (sd_sha256 S state)))"

subsection \<open>Parsing\<close>

text \<open>
  \<open>entries_out = None\<close> is \<^verbatim>\<open>NULL\<close>; the loop writes \<^verbatim>\<open>entries_out[i]\<close> only when it captures. The
  entries an unsuccessful call has already written are not part of its result.
\<close>

definition capture_entry ::
    "auth_v3_context_entry list option \<Rightarrow> nat \<Rightarrow> auth_v3_context_entry \<Rightarrow>
     ('e, auth_v3_context_entry list option) cres" where
  "capture_entry es i e =
     (case es of None \<Rightarrow> Fault
      | Some es \<Rightarrow> if i < length es then Ret (Some (es[i := e])) else Fault)"

type_synonym parse_state = "u16 \<times> nat \<times> auth_v3_context_entry list option"

definition parse_entry ::
    "byte list \<Rightarrow> auth_v3_context_kind \<Rightarrow> bool \<Rightarrow> nat \<Rightarrow> parse_state \<Rightarrow>
     (auth_v3_context_parse_result, parse_state) cres" where
  "parse_entry input kind capture i st =
     (let (previous_id, offset, entries_out) = st in
      if offset > length input \<or> length input - offset < 5 then Fail AUTH_V3_CONTEXT_PARSE_TRUNCATED
      else
        bnd (rd input offset) (\<lambda>i0. bnd (rd input (offset + 1)) (\<lambda>i1.
        bnd (rd input (offset + 2)) (\<lambda>flags.
        bnd (rd input (offset + 3)) (\<lambda>l0. bnd (rd input (offset + 4)) (\<lambda>l1.
        let eid = (ucast i0 OR push_bit 8 (ucast i1) :: u16);
            value_len = (ucast l0 OR push_bit 8 (ucast l1) :: u16);
            offset = offset + 5
        in if eid = 0 then Fail AUTH_V3_CONTEXT_PARSE_INVALID_ID
           else if i > 0 \<and> eid \<le> previous_id then Fail AUTH_V3_CONTEXT_PARSE_NON_CANONICAL_ORDER
           else if bad_critical_id kind eid then Fail AUTH_V3_CONTEXT_PARSE_INVALID_CRITICAL_ID
           else if flags \<noteq> 0 then Fail AUTH_V3_CONTEXT_PARSE_NONZERO_FLAGS
           else if offset > length input \<or> unat value_len > length input - offset
           then Fail AUTH_V3_CONTEXT_PARSE_TRUNCATED
           else
             bnd (if capture
                  then capture_entry entries_out i
                         \<lparr>ce_id = eid, ce_value = Some (drop offset input), ce_value_len = value_len\<rparr>
                  else Ret entries_out) (\<lambda>entries_out.
             Ret (eid, offset + unat value_len, entries_out))))))))"

definition parse_impl ::
    "byte list option \<Rightarrow> auth_v3_context_entry list option \<Rightarrow> nat \<Rightarrow> bool \<Rightarrow>
     (auth_v3_context_parse_result,
      auth_v3_context_kind \<times> nat \<times> auth_v3_context_entry list option) cres" where
  "parse_impl input entries_out entries_capacity capture =
     (case input of
        None \<Rightarrow> Fail AUTH_V3_CONTEXT_PARSE_INVALID_ARGUMENT
      | Some input \<Rightarrow>
          if length input < 9 then Fail AUTH_V3_CONTEXT_PARSE_TRUNCATED
          else
            bnd (rdn input 0 AUTH_V3_CONTEXT_MAGIC_LEN) (\<lambda>magic.
            if magic \<noteq> CONTEXT_MAGIC then Fail AUTH_V3_CONTEXT_PARSE_INVALID_MAGIC
            else bnd (rd input 5) (\<lambda>version.
            if version \<noteq> AUTH_V3_CONTEXT_ENCODING_VERSION then Fail AUTH_V3_CONTEXT_PARSE_UNSUPPORTED_VERSION
            else bnd (rd input 6) (\<lambda>k.
            if k < of_int AUTH_V3_CONTEXT_AUTHORIZATION \<or> k > of_int AUTH_V3_CONTEXT_CHANNEL_BINDING
            then Fail AUTH_V3_CONTEXT_PARSE_UNKNOWN_KIND
            else
              bnd (rd input 7) (\<lambda>n0. bnd (rd input 8) (\<lambda>n1.
              let kind = uint k; entry_count = unat (ucast n0 OR push_bit 8 (ucast n1) :: u16)
              in if entry_count > (length input - 9) div 5 then Fail AUTH_V3_CONTEXT_PARSE_TRUNCATED
                 else if capture \<and> entry_count > entries_capacity
                 then Fail AUTH_V3_CONTEXT_PARSE_ENTRY_BUFFER_TOO_SMALL
                 else if capture \<and> entry_count > 0 \<and> entries_out = None
                 then Fail AUTH_V3_CONTEXT_PARSE_INVALID_ARGUMENT
                 else
                   bnd (loop (parse_entry input kind capture) [0..<entry_count] (0, 9, entries_out))
                     (\<lambda>(previous_id, offset, entries_out).
                   if offset \<noteq> length input then Fail AUTH_V3_CONTEXT_PARSE_TRAILING_BYTES
                   else Ret (kind, entry_count, entries_out))))))))"

definition auth_v3_context_parse_bytes ::
    "byte list option \<Rightarrow> auth_v3_context_entry list option \<Rightarrow> nat \<Rightarrow>
     (auth_v3_context_parse_result,
      auth_v3_context_kind \<times> nat \<times> auth_v3_context_entry list option) cres" where
  "auth_v3_context_parse_bytes input entries_out entries_capacity =
     parse_impl input entries_out entries_capacity True"

definition auth_v3_context_hash_bytes ::
    "sodium \<Rightarrow> byte list option \<Rightarrow> (auth_v3_context_parse_result, byte list) cres" where
  "auth_v3_context_hash_bytes S input =
     bnd (parse_impl input None 0 False) (\<lambda>_. Ret (sd_sha256 S (the input)))"

subsection \<open>Specification: well-formed contexts and their layout\<close>

text \<open>A context is a kind and a list of identified values.\<close>

type_synonym context_entries = "(u16 \<times> byte list) list"

definition ctx_entry_layout :: "u16 \<times> byte list \<Rightarrow> byte list" where
  "ctx_entry_layout e = le_bytes 2 (fst e) @ [0] @ le_bytes 2 (of_nat (length (snd e)) :: u16) @ snd e"

definition context_layout :: "auth_v3_context_kind \<Rightarrow> context_entries \<Rightarrow> byte list" where
  "context_layout kind es =
     CONTEXT_MAGIC @ [1, of_int kind] @ le_bytes 2 (of_nat (length es) :: u16) @ concat (map ctx_entry_layout es)"

text \<open>Identifiers are positive and strictly increasing; those of critical extensions have the
  critical bit and another one; values and the number of entries fit their length fields.\<close>

definition entry_ok :: "auth_v3_context_kind \<Rightarrow> u16 \<times> byte list \<Rightarrow> bool" where
  "entry_ok kind e \<longleftrightarrow> \<not> bad_critical_id kind (fst e) \<and> length (snd e) < 65536"

definition context_ok :: "auth_v3_context_kind \<Rightarrow> context_entries \<Rightarrow> bool" where
  "context_ok kind es \<longleftrightarrow>
     kind \<in> {1, 2, 3} \<and> length es < 65536 \<and> sorted_wrt (<) (0 # map fst es) \<and> (\<forall>e\<in>set es. entry_ok kind e)"

text \<open>The value a struct of the code stands for; its pointer is valid for its length.\<close>

definition entry_abs :: "auth_v3_context_entry \<Rightarrow> u16 \<times> byte list" where
  "entry_abs e = (ce_id e, take (unat (ce_value_len e)) (case ce_value e of Some v \<Rightarrow> v | None \<Rightarrow> []))"

definition entry_valid :: "auth_v3_context_entry \<Rightarrow> bool" where
  "entry_valid e \<longleftrightarrow>
     (case ce_value e of Some v \<Rightarrow> unat (ce_value_len e) \<le> length v | None \<Rightarrow> True)"

definition entry_given :: "auth_v3_context_entry \<Rightarrow> bool" where
  "entry_given e \<longleftrightarrow> (ce_value_len e > 0 \<longrightarrow> ce_value e \<noteq> None)"

lemmas entry_defs = entry_abs_def entry_valid_def entry_given_def entry_ok_def ctx_entry_layout_def

lemma fst_entry_abs [simp]: "fst (entry_abs e) = ce_id e"
  by (simp add: entry_abs_def)

lemma length_ctx_entry_layout [simp]: "length (ctx_entry_layout e) = 5 + length (snd e)"
  by (simp add: ctx_entry_layout_def)

lemma length_entry_abs:
  assumes "entry_valid e" and "entry_given e"
  shows "length (snd (entry_abs e)) = unat (ce_value_len e)"
  using assms by (auto simp: entry_defs word_neq_0_conv [symmetric] split: option.splits)

lemma unat_u16_less [simp]: "unat (w :: u16) < 65536"
  by (rule order_less_le_trans [OF unsigned_less]) simp

lemma entry_abs_ok:
  assumes "entry_valid e" and "entry_given e"
  shows "entry_ok kind (entry_abs e) \<longleftrightarrow> \<not> bad_critical_id kind (ce_id e)"
  by (simp add: entry_ok_def length_entry_abs [OF assms])

text \<open>\<^verbatim>\<open>memcpy\<close> of a value that may be empty: what both the encoder and the hash do.\<close>

lemma entry_value_Ret:
  assumes "entry_valid e" and "entry_given e" and "ce_value_len e > 0"
  shows "entry_value e = Ret (snd (entry_abs e))"
  using assms by (auto simp: entry_value_def entry_defs rdn_def split: option.splits)

lemma entry_value_empty: "ce_value_len e = 0 \<Longrightarrow> snd (entry_abs e) = []"
  by (simp add: entry_abs_def)

text \<open>The header bytes of the entry count and of an entry are little-endian words.\<close>

lemma count_bytes:
  assumes "n < 65536"
  shows "[of_nat (n AND 0xff), of_nat (drop_bit 8 n AND 0xff)] = le_bytes 2 (of_nat n :: u16)"
proof -
  have and_ff: "k AND 0xff = take_bit 8 k" for k :: nat
    by (simp add: take_bit_eq_mask mask_eq_exp_minus_1)
  have unat: "unat (of_nat n :: u16) = n" using assms by (simp add: unat_of_nat)
  have "(of_nat (take_bit 8 n) :: byte) = ucast (of_nat n :: u16)"
    by (rule word_unat_eq_iff [THEN iffD2]) (simp add: unat unsigned_ucast_eq unat_of_nat take_bit_eq_mod assms)
  moreover have "(of_nat (take_bit 8 (drop_bit 8 n)) :: byte) = ucast (drop_bit 8 (of_nat n :: u16))"
    by (rule word_unat_eq_iff [THEN iffD2])
      (simp add: unat unsigned_ucast_eq unsigned_drop_bit_eq unat_of_nat take_bit_eq_mod assms)
  ultimately show ?thesis by (simp add: and_ff le_bytes_2)
qed

lemma entry_header_bytes:
  assumes "entry_valid e" and "entry_given e"
  shows "[ucast (ce_id e AND 0xff), ucast (drop_bit 8 (ce_id e) AND 0xff), 0,
          ucast (ce_value_len e AND 0xff), ucast (drop_bit 8 (ce_value_len e) AND 0xff)] @ snd (entry_abs e)
         = ctx_entry_layout (entry_abs e)"
proof -
  have "of_nat (length (snd (entry_abs e))) = ce_value_len e"
    by (simp add: length_entry_abs [OF assms])
  then show ?thesis by (simp add: ctx_entry_layout_def le_bytes_2)
qed

text \<open>A counting loop over an array visits its elements in order.\<close>

lemma entry_at_append: "entry_at (Some (pre @ x # xs)) (length pre) = Ret x"
  by (simp add: entry_at_def)

lemma loop_entries_from:
  "loop (\<lambda>i s. bnd (entry_at (Some (pre @ xs)) i) (\<lambda>x. g i x s)) [length pre..<length pre + length xs] s =
   loop (\<lambda>p. g (fst p) (snd p)) (enumerate (length pre) xs) s"
proof (induction xs arbitrary: pre s)
  case (Cons x xs)
  have "loop (\<lambda>i s. bnd (entry_at (Some (pre @ x # xs)) i) (\<lambda>x. g i x s))
          [Suc (length pre)..<Suc (length pre + length xs)] s' =
        loop (\<lambda>p. g (fst p) (snd p)) (enumerate (Suc (length pre)) xs) s'" for s'
    using Cons.IH [of "pre @ [x]" s'] by simp
  then have "loop (\<lambda>i s. bnd (entry_at (Some (pre @ x # xs)) i) (\<lambda>x. g i x s))
          [Suc (length pre)..<Suc (length pre + length xs)] =
        loop (\<lambda>p. g (fst p) (snd p)) (enumerate (Suc (length pre)) xs)" by (rule ext)
  moreover have "[length pre..<length pre + length (x # xs)] =
      length pre # [Suc (length pre)..<Suc (length pre + length xs)]"
    by (simp add: upt_rec [of "length pre"] del: upt_Suc)
  ultimately show ?case by (simp add: entry_at_append del: upt_Suc)
qed simp

lemmas loop_entries = loop_entries_from [of "[]", simplified]

lemma loop_enumerate: "loop (\<lambda>p. g (snd p)) (enumerate k xs) s = loop g xs s"
  by (induction xs arbitrary: k s) (simp_all, metis (no_types, lifting) ext)

lemma loop_elements:
  "loop (\<lambda>i s. bnd (entry_at (Some xs) i) (\<lambda>x. g x s)) [0..<length xs] s = loop g xs s"
  by (simp add: loop_entries loop_enumerate)

subsection \<open>Validation decides well-formedness\<close>

definition entry_size :: "auth_v3_context_entry \<Rightarrow> nat" where
  "entry_size e = 5 + unat (ce_value_len e)"

lemma entry_size_less: "entry_size e \<le> 65540"
  unfolding entry_size_def using unat_u16_less [of "ce_value_len e"] by linarith

lemma size_entries_bound: "sum_list (map entry_size es) \<le> 65540 * length es"
  by (induction es) (use entry_size_less in \<open>simp_all add: add_mono\<close>)

text \<open>What one turn of the loops of the encoder and of the parser demands of an identifier.\<close>

lemma id_guard:
  "(k = 0 \<longrightarrow> p = 0) \<Longrightarrow> (x \<noteq> 0 \<and> \<not> (k > (0::nat) \<and> x \<le> p)) \<longleftrightarrow> p < (x :: u16)"
  by (auto simp: word_neq_0_conv [symmetric] not_le intro: word_gt_0 [THEN iffD2])

lemma validate_entry_eq:
  assumes "k = 0 \<longrightarrow> p = 0" and "t \<le> SIZE_MAX - 65540"
  shows "p < ce_id e \<and> \<not> bad_critical_id kind (ce_id e) \<and> entry_given e \<Longrightarrow>
           validate_entry kind k e (p, t) = Ret (ce_id e, t + entry_size e)"
    and "\<not> (p < ce_id e \<and> \<not> bad_critical_id kind (ce_id e) \<and> entry_given e) \<Longrightarrow>
           \<exists>x. validate_entry kind k e (p, t) = Fail x \<and> x \<noteq> AUTH_V3_CONTEXT_BUFFER_TOO_SMALL"
proof -
  have "\<not> t > SIZE_MAX - 5 - unat (ce_value_len e)"
    using assms(2) unat_u16_less [of "ce_value_len e"] by linarith
  note facts = this id_guard [OF assms(1), of "ce_id e"]
  then show "p < ce_id e \<and> \<not> bad_critical_id kind (ce_id e) \<and> entry_given e \<Longrightarrow>
      validate_entry kind k e (p, t) = Ret (ce_id e, t + entry_size e)"
    by (auto simp: validate_entry_def entry_given_def entry_size_def)
  show "\<not> (p < ce_id e \<and> \<not> bad_critical_id kind (ce_id e) \<and> entry_given e) \<Longrightarrow>
      \<exists>x. validate_entry kind k e (p, t) = Fail x \<and> x \<noteq> AUTH_V3_CONTEXT_BUFFER_TOO_SMALL"
    using facts by (auto simp: validate_entry_def entry_given_def)
qed

definition ids_ok :: "auth_v3_context_kind \<Rightarrow> u16 \<Rightarrow> auth_v3_context_entry list \<Rightarrow> bool" where
  "ids_ok kind p es \<longleftrightarrow> sorted_wrt (<) (p # map ce_id es) \<and>
     (\<forall>e\<in>set es. \<not> bad_critical_id kind (ce_id e) \<and> entry_given e)"

lemma ids_ok_Cons:
  "ids_ok kind p (e # es) \<longleftrightarrow>
     (p < ce_id e \<and> \<not> bad_critical_id kind (ce_id e) \<and> entry_given e) \<and> ids_ok kind (ce_id e) es"
  by (auto simp: ids_ok_def)

lemma ids_ok_Nil [simp]: "ids_ok kind p []"
  by (simp add: ids_ok_def)

lemma validate_loop:
  assumes "k = 0 \<longrightarrow> p = 0" and "t + 65540 * length es \<le> SIZE_MAX"
  shows "(ids_ok kind p es \<and>
            (\<exists>p'. loop (\<lambda>x. validate_entry kind (fst x) (snd x)) (enumerate k es) (p, t) =
                   Ret (p', t + sum_list (map entry_size es)))) \<or>
         (\<not> ids_ok kind p es \<and>
            (\<exists>x. loop (\<lambda>x. validate_entry kind (fst x) (snd x)) (enumerate k es) (p, t) = Fail x \<and>
                 x \<noteq> AUTH_V3_CONTEXT_BUFFER_TOO_SMALL))"
  using assms
proof (induction es arbitrary: k p t)
  case (Cons e es)
  have t: "t \<le> SIZE_MAX - 65540" using Cons.prems(2) by simp
  show ?case
  proof (cases "p < ce_id e \<and> \<not> bad_critical_id kind (ce_id e) \<and> entry_given e")
    case True
    have "t + entry_size e + 65540 * length es \<le> SIZE_MAX"
      using Cons.prems(2) entry_size_less [of e] by simp
    from Cons.IH [OF _ this, of "Suc k" "ce_id e"] show ?thesis
      by (simp add: validate_entry_eq(1) [OF Cons.prems(1) t True] ids_ok_Cons True add.assoc)
  next
    case False
    then show ?thesis using validate_entry_eq(2) [OF Cons.prems(1) t False] by (auto simp: ids_ok_Cons)
  qed
qed simp

lemma size_layout:
  assumes "\<forall>e\<in>set es. entry_valid e \<and> entry_given e"
  shows "sum_list (map entry_size es) = length (concat (map ctx_entry_layout (map entry_abs es)))"
  using assms by (induction es) (simp_all add: entry_size_def length_entry_abs)

lemma ids_ok_context_ok:
  assumes "\<forall>e\<in>set es. entry_valid e" and "length es < 65536" and "kind \<in> {1, 2, 3}"
  shows "ids_ok kind 0 es \<longleftrightarrow> context_ok kind (map entry_abs es) \<and> (\<forall>e\<in>set es. entry_given e)"
proof -
  have "map fst (map entry_abs es) = map ce_id es" by simp
  then show ?thesis
    using assms unfolding ids_ok_def context_ok_def
    by (simp only: list.set_map length_map ball_simps) (auto simp: entry_abs_ok)
qed

lemma validate_entries_cases:
  assumes "\<forall>e\<in>set es. entry_valid e"
  obtains (ok) "context_ok kind (map entry_abs es)" "\<forall>e\<in>set es. entry_given e"
      "validate_entries kind (Some es) (length es) = Ret (length (context_layout kind (map entry_abs es)))"
    | (bad) x where "\<not> (context_ok kind (map entry_abs es) \<and> (\<forall>e\<in>set es. entry_given e))"
      "validate_entries kind (Some es) (length es) = Fail x" "x \<noteq> AUTH_V3_CONTEXT_BUFFER_TOO_SMALL"
proof (cases "length es < 65536 \<and> kind \<in> {1, 2, 3}")
  case False
  then show ?thesis
    by (intro bad [of AUTH_V3_CONTEXT_INVALID_ARGUMENT])
      (auto simp: context_ok_def validate_entries_def)
next
  case True
  then have bound: "9 + 65540 * length es \<le> SIZE_MAX" by simp
  have eq: "ids_ok kind 0 es \<longleftrightarrow> context_ok kind (map entry_abs es) \<and> (\<forall>e\<in>set es. entry_given e)"
    using ids_ok_context_ok assms True by simp
  have v: "validate_entries kind (Some es) (length es) =
      bnd (loop (\<lambda>x. validate_entry kind (fst x) (snd x)) (enumerate 0 es) (0, 9)) (\<lambda>(_, t). Ret t)"
    using True by (auto simp: validate_entries_def loop_entries)
  have start: "(0 :: nat) = 0 \<longrightarrow> (0 :: u16) = 0" by simp
  from validate_loop [OF start bound, of kind] show ?thesis
  proof (elim disjE conjE exE)
    fix p' assume ok': "ids_ok kind 0 es"
      and "loop (\<lambda>x. validate_entry kind (fst x) (snd x)) (enumerate 0 es) (0, 9) =
           Ret (p', 9 + sum_list (map entry_size es))"
    then show ?thesis using eq assms
      by (intro ok) (simp_all add: v size_layout context_layout_def CONTEXT_MAGIC_def)
  next
    fix x assume "\<not> ids_ok kind 0 es" and "x \<noteq> AUTH_V3_CONTEXT_BUFFER_TOO_SMALL"
      and "loop (\<lambda>x. validate_entry kind (fst x) (snd x)) (enumerate 0 es) (0, 9) = Fail x"
    then show ?thesis using eq by (intro bad [of x]) (simp_all add: v)
  qed
qed

subsection \<open>The encoder writes the layout, the hash digests it\<close>

lemma encode_entry_cur:
  assumes "entry_valid e" and "entry_given e" and "length pre + length (ctx_entry_layout (entry_abs e)) \<le> length out"
  shows "encode_entry e (cur out pre) = Ret (cur out (pre @ ctx_entry_layout (entry_abs e)))"
proof -
  note len = length_entry_abs [OF assms(1,2)]
  have room: "length pre + 5 + unat (ce_value_len e) \<le> length out" using assms(3) len by simp
  have bytes: "ctx_entry_layout (entry_abs e) =
      [ucast (ce_id e), ucast (drop_bit 8 (ce_id e)), 0, ucast (ce_value_len e),
       ucast (drop_bit 8 (ce_value_len e))] @ snd (entry_abs e)"
    using entry_header_bytes [OF assms(1,2)] by simp
  show ?thesis
  proof (cases "ce_value_len e > 0")
    case True
    then show ?thesis using room len
      by (simp add: encode_entry_def mem_simps bytes entry_value_Ret [OF assms(1,2) True])
  next
    case False
    then have "ce_value_len e = 0" by (simp add: word_neq_0_conv [symmetric])
    then show ?thesis using room
      by (simp add: encode_entry_def mem_simps bytes entry_value_empty)
  qed
qed

lemma encode_loop_cur:
  assumes "\<forall>e\<in>set es. entry_valid e \<and> entry_given e"
    and "length pre + length (concat (map ctx_entry_layout (map entry_abs es))) \<le> length out"
  shows "loop encode_entry es (cur out pre) = Ret (cur out (pre @ concat (map ctx_entry_layout (map entry_abs es))))"
  using assms
proof (induction es arbitrary: pre)
  case (Cons e es)
  have "encode_entry e (cur out pre) = Ret (cur out (pre @ ctx_entry_layout (entry_abs e)))"
    using Cons.prems by (intro encode_entry_cur) simp_all
  moreover have "loop encode_entry es (cur out (pre @ ctx_entry_layout (entry_abs e))) =
      Ret (cur out ((pre @ ctx_entry_layout (entry_abs e)) @ concat (map ctx_entry_layout (map entry_abs es))))"
    using Cons.prems by (intro Cons.IH) simp_all
  ultimately show ?case by simp
qed simp

lemma hash_loop:
  assumes "\<forall>e\<in>set es. entry_valid e \<and> entry_given e"
  shows "loop hash_entry es st = Ret (st @ concat (map ctx_entry_layout (map entry_abs es)))"
  using assms
proof (induction es arbitrary: st)
  case (Cons e es)
  then have v: "entry_valid e" "entry_given e" by simp_all
  have "hash_entry e st = Ret (st @ ctx_entry_layout (entry_abs e))"
  proof (cases "ce_value_len e > 0")
    case True
    then show ?thesis
      by (simp add: hash_entry_def entry_value_Ret [OF v True] flip: entry_header_bytes [OF v])
  next
    case False
    then have "ce_value_len e = 0" by (simp add: word_neq_0_conv [symmetric])
    then show ?thesis
      by (simp add: hash_entry_def entry_value_empty flip: entry_header_bytes [OF v])
  qed
  moreover have "loop hash_entry es (st @ ctx_entry_layout (entry_abs e)) =
      Ret ((st @ ctx_entry_layout (entry_abs e)) @ concat (map ctx_entry_layout (map entry_abs es)))"
    using Cons.prems by (intro Cons.IH) simp
  ultimately show ?case by simp
qed simp

lemma context_header:
  "n < 65536 \<Longrightarrow> CONTEXT_MAGIC @ [1, of_int kind, of_nat (n AND 0xff), of_nat (drop_bit 8 n AND 0xff)] =
     CONTEXT_MAGIC @ [1, of_int kind] @ le_bytes 2 (of_nat n :: u16)"
  using count_bytes [of n] by simp

lemma context_encode_ok:
  assumes "\<forall>e\<in>set es. entry_valid e \<and> entry_given e" and ok: "context_ok kind (map entry_abs es)"
    and "length (context_layout kind (map entry_abs es)) \<le> length out"
  shows "auth_v3_context_encode kind (Some es) (length es) (Some out) =
     Ret (cur out (context_layout kind (map entry_abs es)))"
proof -
  let ?h = "CONTEXT_MAGIC @ [1, of_int kind, of_nat (length es AND 0xff), of_nat (drop_bit 8 (length es) AND 0xff)]"
  have layout: "context_layout kind (map entry_abs es) = ?h @ concat (map ctx_entry_layout (map entry_abs es))"
    using ok context_header [of "length es" kind] by (simp add: context_layout_def context_ok_def)
  then have room: "9 + length (concat (map ctx_entry_layout (map entry_abs es))) \<le> length out"
    using assms(3) by (simp add: CONTEXT_MAGIC_def)
  have "validate_entries kind (Some es) (length es) = Ret (length (context_layout kind (map entry_abs es)))"
    by (rule validate_entries_cases [of es kind]) (use assms in auto)
  moreover have "loop encode_entry es (cur out ?h) = Ret (cur out (?h @ concat (map ctx_entry_layout (map entry_abs es))))"
    by (rule encode_loop_cur) (use assms(1) room in \<open>simp_all add: CONTEXT_MAGIC_def\<close>)
  ultimately show ?thesis using assms(3) room
    by (simp add: auth_v3_context_encode_def loop_elements cur_start mem_simps CONTEXT_MAGIC_def layout)
qed

lemma context_hash_ok:
  assumes "\<forall>e\<in>set es. entry_valid e \<and> entry_given e" and ok: "context_ok kind (map entry_abs es)"
  shows "auth_v3_context_hash S kind (Some es) (length es) = Ret (sd_sha256 S (context_layout kind (map entry_abs es)))"
proof -
  have "validate_entries kind (Some es) (length es) = Ret (length (context_layout kind (map entry_abs es)))"
    by (rule validate_entries_cases [of es kind]) (use assms in auto)
  moreover have "length es < 65536" using ok by (simp add: context_ok_def)
  ultimately show ?thesis
    by (simp add: auth_v3_context_hash_def loop_elements hash_loop [OF assms(1)] context_layout_def
        context_header)
qed

subsection \<open>The parser accepts exactly the layout\<close>

definition parsed :: "u16 \<times> byte list \<Rightarrow> byte list \<Rightarrow> auth_v3_context_entry" where
  "parsed e post = \<lparr>ce_id = fst e, ce_value = Some (snd e @ post), ce_value_len = of_nat (length (snd e))\<rparr>"

lemma unat_length_ok: "length v < 65536 \<Longrightarrow> unat (of_nat (length v) :: u16) = length v"
  by (simp add: unat_of_nat)

lemma parsed_abs:
  assumes "entry_ok kind e"
  shows "entry_abs (parsed e post) = e" and "entry_valid (parsed e post)" and "entry_given (parsed e post)"
  using assms by (simp_all add: parsed_def entry_defs unat_length_ok)

lemma le_word_2_u16: "ucast (a :: byte) OR push_bit 8 (ucast b) = (le_word [a, b] :: u16)"
  by simp

text \<open>The output array of a capturing call, and the write of one turn.\<close>

definition room_out :: "bool \<Rightarrow> nat \<Rightarrow> 'a list option \<Rightarrow> bool" where
  "room_out capture n out \<longleftrightarrow> (capture \<longrightarrow> (\<exists>es. out = Some es \<and> n \<le> length es))"

definition store_out :: "bool \<Rightarrow> nat \<Rightarrow> 'a \<Rightarrow> 'a list option \<Rightarrow> 'a list option" where
  "store_out capture k x out = (if capture then map_option (\<lambda>es. es[k := x]) out else out)"

text \<open>One turn of the loop on an entry that is there.\<close>

lemma parse_entry_complete:
  assumes input: "input = pre @ ctx_entry_layout e @ post" and ok: "entry_ok kind e" and "p < fst e"
    and k: "k = 0 \<longrightarrow> p = 0" and "room_out capture (Suc k) out"
  shows "parse_entry input kind capture k (p, length pre, out) =
     Ret (fst e, length pre + length (ctx_entry_layout e), store_out capture k (parsed e post) out)"
proof -
  obtain a b c d where ab: "le_bytes 2 (fst e) = [a, b]"
    and cd: "le_bytes 2 (of_nat (length (snd e)) :: u16) = [c, d]"
    by (simp add: le_bytes_2)
  have ids: "(ucast a OR push_bit 8 (ucast b) :: u16) = fst e"
    unfolding le_word_2_u16 ab [symmetric] by (rule le_word_le_bytes) simp
  have lens: "(ucast c OR push_bit 8 (ucast d) :: u16) = of_nat (length (snd e))"
    unfolding le_word_2_u16 cd [symmetric] by (rule le_word_le_bytes) simp
  have input': "input = pre @ [a, b, 0, c, d] @ snd e @ post"
    by (simp add: input ctx_entry_layout_def ab cd)
  have unat: "unat (of_nat (length (snd e)) :: u16) = length (snd e)"
    using ok by (simp add: entry_ok_def unat_length_ok)
  have "fst e \<noteq> 0 \<and> \<not> (k > 0 \<and> fst e \<le> p)" using id_guard [OF k] assms(3) by blast
  then show ?thesis using ok assms(5)
    by (auto simp: parse_entry_def input' rd_def nth_append ids lens unat entry_ok_def capture_entry_def
        parsed_def Let_def room_out_def store_out_def split: option.splits)
qed

text \<open>A turn that succeeds has found a well-formed entry at the offset; no turn leaves the buffers.\<close>

lemma parse_entry_sound:
  assumes "off \<le> length input" and k: "k = 0 \<longrightarrow> p = 0"
    and "parse_entry input kind capture k (p, off, out) = Ret st"
  shows "\<exists>e post. drop off input = ctx_entry_layout e @ post \<and> entry_ok kind e \<and> p < fst e \<and>
     fst st = fst e \<and> fst (snd st) = off + length (ctx_entry_layout e)"
proof -
  define i0 i1 fl l0 l1 where defs: "i0 = input ! off" "i1 = input ! (off + 1)" "fl = input ! (off + 2)"
    "l0 = input ! (off + 3)" "l1 = input ! (off + 4)"
  let ?n = "unat (le_word [l0, l1] :: u16)"
  let ?v = "take ?n (drop (off + 5) input)"
  have long: "off + 5 \<le> length input" and checks: "fl = 0" "off + 5 + ?n \<le> length input"
      "\<not> bad_critical_id kind (le_word [i0, i1])" "(le_word [i0, i1] :: u16) \<noteq> 0"
      "\<not> (k > 0 \<and> (le_word [i0, i1] :: u16) \<le> p)"
    and st: "fst st = le_word [i0, i1]" "fst (snd st) = off + 5 + ?n"
    using assms by (auto simp: parse_entry_def rd_def defs Let_def bnd_iffs split: if_splits)
  have len: "length ?v = ?n" using checks(2) by simp
  have "drop off input = take 5 (drop off input) @ ?v @ drop ?n (drop (off + 5) input)"
    by (metis append_take_drop_id drop_drop add.commute)
  also have "take 5 (drop off input) = [i0, i1, fl, l0, l1]"
    using long by (intro nth_equalityI) (auto simp: defs nth_Cons' add.commute less_Suc_eq numeral_eq_Suc)
  finally have "drop off input = ctx_entry_layout (le_word [i0, i1], ?v) @ drop ?n (drop (off + 5) input)"
    using len checks(1) by (simp add: ctx_entry_layout_def le_bytes_le_word del: le_word.simps)
  moreover have "entry_ok kind (le_word [i0, i1], ?v)"
    using checks len by (simp add: entry_ok_def del: le_word.simps)
  moreover have "p < le_word [i0, i1]" using id_guard [OF k] checks by blast
  ultimately show ?thesis using st len
    by (intro exI [of _ "(le_word [i0, i1], ?v)"] exI [of _ "drop ?n (drop (off + 5) input)"])
      (simp del: le_word.simps)
qed

lemma parse_entry_no_fault:
  "room_out capture (Suc k) out \<Longrightarrow> parse_entry input kind capture k (p, off, out) \<noteq> Fault"
  by (auto simp: parse_entry_def rd_def Let_def bnd_iffs capture_entry_def room_out_def split: if_splits)

text \<open>The whole loop: what it stores, that it accepts the layout, and that it accepts only it.\<close>

fun store_all ::
    "bool \<Rightarrow> nat \<Rightarrow> context_entries \<Rightarrow> auth_v3_context_entry list option \<Rightarrow>
     auth_v3_context_entry list option" where
  "store_all capture k [] out = out"
| "store_all capture k (e # es) out =
     store_all capture (Suc k) es (store_out capture k (parsed e (concat (map ctx_entry_layout es))) out)"

lemma room_out_store: "room_out capture n (store_out capture k x out) = room_out capture n out"
  by (auto simp: room_out_def store_out_def)

lemma room_out_mono: "m \<le> n \<Longrightarrow> room_out capture n out \<Longrightarrow> room_out capture m out"
  by (auto simp: room_out_def)

lemma store_all_abs:
  assumes "k + length es \<le> length o1" and "\<forall>e\<in>set es. entry_ok kind e"
  shows "\<exists>o2. store_all True k es (Some o1) = Some o2 \<and> length o2 = length o1 \<and> take k o2 = take k o1 \<and>
     map entry_abs (take (length es) (drop k o2)) = es \<and>
     (\<forall>e\<in>set (take (length es) (drop k o2)). entry_valid e \<and> entry_given e)"
  using assms
proof (induction es arbitrary: k o1)
  case (Cons e es)
  let ?x = "parsed e (concat (map ctx_entry_layout es))"
  obtain o2 where o2: "store_all True (Suc k) es (Some (o1[k := ?x])) = Some o2" "length o2 = length o1"
      "take (Suc k) o2 = take (Suc k) (o1[k := ?x])" "map entry_abs (take (length es) (drop (Suc k) o2)) = es"
      "\<forall>e\<in>set (take (length es) (drop (Suc k) o2)). entry_valid e \<and> entry_given e"
    using Cons.IH [of "Suc k" "o1[k := ?x]"] Cons.prems by auto
  have k: "k < length o1" using Cons.prems by simp
  have "o2 ! k = take (Suc k) o2 ! k" by simp
  also have "\<dots> = ?x" unfolding o2(3) using k by simp
  finally have "drop k o2 = ?x # drop (Suc k) o2" using k o2(2) by (simp add: Cons_nth_drop_Suc [symmetric])
  moreover have "take k o2 = take k o1"
  proof -
    have "take k o2 = take k (take (Suc k) o2)" by simp
    then show ?thesis unfolding o2(3) by simp
  qed
  ultimately show ?case using o2 Cons.prems(2) parsed_abs [of kind e]
    by (simp add: store_out_def)
qed simp

lemma parse_loop_complete:
  assumes "input = pre @ concat (map ctx_entry_layout es)" and "\<forall>e\<in>set es. entry_ok kind e"
    and "sorted_wrt (<) (p # map fst es)" and "k = 0 \<longrightarrow> p = 0" and "room_out capture (k + length es) out"
  shows "\<exists>p'. loop (parse_entry input kind capture) [k..<k + length es] (p, length pre, out) =
     Ret (p', length input, store_all capture k es out)"
  using assms
proof (induction es arbitrary: pre p k out)
  case (Cons e es)
  let ?out = "store_out capture k (parsed e (concat (map ctx_entry_layout es))) out"
  have "room_out capture (Suc k) out" using Cons.prems(5) by (rule room_out_mono [rotated]) simp
  then have "parse_entry input kind capture k (p, length pre, out) =
      Ret (fst e, length (pre @ ctx_entry_layout e), ?out)"
    using parse_entry_complete [of input pre e "concat (map ctx_entry_layout es)" kind p k capture out]
      Cons.prems by auto
  moreover have "\<exists>p'. loop (parse_entry input kind capture) [Suc k..<Suc k + length es]
      (fst e, length (pre @ ctx_entry_layout e), ?out) = Ret (p', length input, store_all capture (Suc k) es ?out)"
    by (rule Cons.IH) (use Cons.prems in \<open>auto simp: room_out_store\<close>)
  moreover have "[k..<k + length (e # es)] = k # [Suc k..<Suc k + length es]"
    by (simp add: upt_rec [of k] del: upt_Suc)
  ultimately show ?case by (simp del: upt_Suc)
qed simp

lemma parse_loop_sound:
  assumes "off \<le> length input" and "k = 0 \<longrightarrow> p = 0"
    and "loop (parse_entry input kind capture) [k..<k + n] (p, off, out) = Ret (p', length input, out')"
  shows "\<exists>es. length es = n \<and> drop off input = concat (map ctx_entry_layout es) \<and>
     sorted_wrt (<) (p # map fst es) \<and> (\<forall>e\<in>set es. entry_ok kind e)"
  using assms
proof (induction n arbitrary: k p off out)
  case (Suc n)
  have upt: "[k..<k + Suc n] = k # [Suc k..<Suc k + n]"
    by (simp add: upt_rec [of k] del: upt_Suc)
  from Suc.prems(3) obtain q off1 out1 where
    turn: "parse_entry input kind capture k (p, off, out) = Ret (q, off1, out1)"
    and rest: "loop (parse_entry input kind capture) [Suc k..<Suc k + n] (q, off1, out1) =
      Ret (p', length input, out')"
    unfolding upt by (auto simp: bnd_iffs simp del: upt_Suc)
  from parse_entry_sound [OF Suc.prems(1,2) turn] obtain e post where
    e: "drop off input = ctx_entry_layout e @ post" "entry_ok kind e" "p < fst e" "q = fst e"
       "off1 = off + length (ctx_entry_layout e)"
    by auto
  have "length (drop off input) = length (ctx_entry_layout e @ post)" using e(1) by simp
  then have "off1 \<le> length input" using e(5) Suc.prems(1) by simp
  then obtain es where es: "length es = n" "drop off1 input = concat (map ctx_entry_layout es)"
      "sorted_wrt (<) (q # map fst es)" "\<forall>e\<in>set es. entry_ok kind e"
    using Suc.IH [OF _ _ rest] by auto
  have "drop off1 input = post"
    unfolding e(5) by (metis add.commute append_eq_conv_conj drop_drop e(1))
  then show ?case using e es by (intro exI [of _ "e # es"]) auto
qed simp

lemma parse_loop_no_fault:
  "room_out capture (k + n) out \<Longrightarrow> loop (parse_entry input kind capture) [k..<k + n] (p, off, out) \<noteq> Fault"
proof (induction n arbitrary: k p off out)
  case (Suc n)
  have upt: "[k..<k + Suc n] = k # [Suc k..<Suc k + n]"
    by (simp add: upt_rec [of k] del: upt_Suc)
  have room: "room_out capture (Suc k) out" using Suc.prems by (rule room_out_mono [rotated]) simp
  show ?case
  proof (cases "parse_entry input kind capture k (p, off, out)")
    case (Ret st)
    obtain q off1 out1 where st: "st = (q, off1, out1)" by (cases st)
    have "room_out capture (Suc k + n) out1"
      using Suc.prems Ret unfolding st
      by (auto simp: parse_entry_def rd_def Let_def bnd_iffs capture_entry_def room_out_def split: if_splits)
    then show ?thesis using Ret Suc.IH [of "Suc k" out1 q off1] unfolding upt st
      by (simp del: upt_Suc)
  qed (use parse_entry_no_fault [OF room] upt in \<open>simp_all del: upt_Suc\<close>)
qed simp

text \<open>The fixed part of the header.\<close>

lemma context_layout_length: "length (context_layout kind es) = 9 + length (concat (map ctx_entry_layout es))"
  by (simp add: context_layout_def CONTEXT_MAGIC_def)

lemma entry_layouts_long: "5 * length es \<le> length (concat (map ctx_entry_layout es))"
  by (induction es) simp_all

lemma kind_byte:
  "kind \<in> {1, 2, 3} \<Longrightarrow> uint (of_int kind :: byte) = kind \<and> 1 \<le> (of_int kind :: byte) \<and> (of_int kind :: byte) \<le> 3"
  by auto

lemma byte_kind:
  assumes "\<not> (k < (1 :: byte) \<or> k > 3)"
  shows "uint k \<in> {1, 2, 3}"
proof -
  have "1 \<le> uint k" and "uint k \<le> 3" using assms by (simp_all add: word_less_def not_less)
  then show ?thesis by auto
qed

lemma parse_impl_complete:
  assumes ok: "context_ok kind es" and "capture \<Longrightarrow> length es \<le> cap" and "room_out capture (length es) out"
  shows "parse_impl (Some (context_layout kind es)) out cap capture =
     Ret (kind, length es, store_all capture 0 es out)"
proof -
  obtain c d where cd: "le_bytes 2 (of_nat (length es) :: u16) = [c, d]" by (simp add: le_bytes_2)
  have count: "(ucast c OR push_bit 8 (ucast d) :: u16) = of_nat (length es)"
    unfolding le_word_2_u16 cd [symmetric] by (rule le_word_le_bytes) simp
  have unat: "unat (of_nat (length es) :: u16) = length es"
    using ok by (simp add: context_ok_def unat_length_ok)
  have kind: "uint (of_int kind :: byte) = kind" "\<not> ((of_int kind :: byte) < 1 \<or> 3 < (of_int kind :: byte))"
    using kind_byte [of kind] ok by (auto simp: context_ok_def)
  let ?h = "CONTEXT_MAGIC @ [1, of_int kind, c, d]"
  have layout: "context_layout kind es = ?h @ concat (map ctx_entry_layout es)"
    by (simp add: context_layout_def cd)
  have len: "length ?h = 9" by (simp add: CONTEXT_MAGIC_def)
  obtain p' where "loop (parse_entry (context_layout kind es) kind capture) [0..<length es] (0, 9, out) =
      Ret (p', length (context_layout kind es), store_all capture 0 es out)"
    using parse_loop_complete [OF layout, of kind 0 0 capture out] ok assms(3) len
    by (simp add: context_ok_def del: length_append) blast
  moreover have "length es \<le> length (concat (map ctx_entry_layout es)) div 5"
    using entry_layouts_long [of es] by simp
  moreover have "capture \<Longrightarrow> es \<noteq> [] \<Longrightarrow> out \<noteq> None" using assms(3) by (auto simp: room_out_def)
  moreover have "take 5 (context_layout kind es) = CONTEXT_MAGIC"
    "context_layout kind es ! 5 = 1" "context_layout kind es ! 6 = of_int kind"
    "context_layout kind es ! 7 = c" "context_layout kind es ! 8 = d"
    by (simp_all add: layout CONTEXT_MAGIC_def)
  ultimately show ?thesis using assms(2) kind
    by (auto simp: parse_impl_def rd_def rdn_def context_layout_length count unat not_less Let_def)
qed

lemma parse_impl_sound:
  assumes "parse_impl (Some bs) out cap capture = Ret (kind, n, out')"
  shows "\<exists>es. length es = n \<and> context_ok kind es \<and> bs = context_layout kind es \<and> (capture \<longrightarrow> n \<le> cap)"
proof -
  let ?n = "le_word [bs ! 7, bs ! 8] :: u16"
  from assms have long: "9 \<le> length bs" and magic: "take 5 bs = CONTEXT_MAGIC" and ver: "bs ! 5 = 1"
    and k: "\<not> (bs ! 6 < 1 \<or> bs ! 6 > 3)" "kind = uint (bs ! 6)" and n: "n = unat ?n" and cap: "capture \<longrightarrow> n \<le> cap"
    and loop: "\<exists>p. loop (parse_entry bs kind capture) [0..<0 + n] (0, 9, out) = Ret (p, length bs, out')"
    by (auto simp: parse_impl_def rdn_def rd_def Let_def bnd_iffs split: if_splits)
  from loop obtain es where es: "length es = n" "drop 9 bs = concat (map ctx_entry_layout es)"
      "sorted_wrt (<) (0 # map fst es)" "\<forall>e\<in>set es. entry_ok kind e"
    using parse_loop_sound [of 9 bs 0 0 kind capture n out] long by auto
  have "(of_nat n :: u16) = ?n" by (simp add: n)
  then have count: "le_bytes 2 (of_nat n :: u16) = [bs ! 7, bs ! 8]"
    by (simp only:) (rule le_bytes_le_word; simp)
  have "bs = take 5 bs @ take 4 (drop 5 bs) @ drop 9 bs"
    using append_take_drop_id [of 4 "drop 5 bs"] append_take_drop_id [of 5 bs] by simp
  also have "take 4 (drop 5 bs) = [bs ! 5, bs ! 6, bs ! 7, bs ! 8]"
    using long by (intro nth_equalityI) (auto simp: nth_Cons' less_Suc_eq numeral_eq_Suc)
  finally have "bs = context_layout kind es"
    by (simp add: context_layout_def es(1,2) count ver k(2) magic)
  moreover have "context_ok kind es"
    using es byte_kind [OF k(1)] k(2) n by (simp add: context_ok_def)
  ultimately show ?thesis using es(1) cap by blast
qed

lemma parse_impl_no_fault:
  assumes "capture \<Longrightarrow> out \<noteq> None \<Longrightarrow> cap \<le> length (the out)"
  shows "parse_impl input out cap capture \<noteq> Fault"
proof
  assume fault: "parse_impl input out cap capture = Fault"
  then obtain bs where bs: "input = Some bs" by (cases input) (auto simp: parse_impl_def)
  from fault obtain kind n where "capture \<longrightarrow> n \<le> cap \<and> (n > 0 \<longrightarrow> out \<noteq> None)"
    and loop: "loop (parse_entry bs kind capture) [0..<n] (0, 9, out) = Fault"
    unfolding bs by (auto simp: parse_impl_def rdn_def rd_def Let_def bnd_iffs not_less split: if_splits)
  then have "n = 0 \<or> room_out capture n out" using assms by (force simp: room_out_def)
  then show False using loop parse_loop_no_fault [of capture 0 n out bs kind 0 9] by auto
qed

subsection \<open>Encoder, hash and parser agree\<close>

text \<open>What a caller reads off a successful call of the parser with an array of entries.\<close>

definition parsed_context ::
    "byte list \<Rightarrow> auth_v3_context_entry list \<Rightarrow> (auth_v3_context_kind \<times> context_entries) option" where
  "parsed_context bs entries =
     (case auth_v3_context_parse_bytes (Some bs) (Some entries) (length entries) of
        Ret (kind, n, Some out) \<Rightarrow> Some (kind, map entry_abs (take n out))
      | _ \<Rightarrow> None)"

text \<open>The parser does to a layout what the encoder would undo: captured entries are valid structs.\<close>

lemma parse_layout:
  assumes "context_ok kind es" and "length es \<le> length entries"
  shows "\<exists>out. auth_v3_context_parse_bytes (Some (context_layout kind es)) (Some entries) (length entries) =
            Ret (kind, length es, Some out) \<and> map entry_abs (take (length es) out) = es \<and>
            length out = length entries \<and> (\<forall>e\<in>set (take (length es) out). entry_valid e \<and> entry_given e)"
proof -
  have "\<forall>e\<in>set es. entry_ok kind e" using assms(1) by (simp add: context_ok_def)
  then obtain out where "store_all True 0 es (Some entries) = Some out" "length out = length entries"
      "map entry_abs (take (length es) out) = es"
      "\<forall>e\<in>set (take (length es) out). entry_valid e \<and> entry_given e"
    using store_all_abs [of 0 es entries kind] assms(2) by auto
  then show ?thesis
    using parse_impl_complete [OF assms(1), of True "length entries" "Some entries"] assms(2)
    by (simp add: auth_v3_context_parse_bytes_def room_out_def)
qed

text \<open>The contexts that \<^verbatim>\<open>spec/auth-v3-context-encoding.md\<close> allows: the rules of its sections 2, 3 and 5, and the
  rule of section 6 that a channel-binding context has at most one entry, which the code does not check.\<close>

definition documented_context :: "auth_v3_context_kind \<Rightarrow> context_entries \<Rightarrow> bool" where
  "documented_context kind es \<longleftrightarrow> context_ok kind es \<and> (kind = AUTH_V3_CONTEXT_CHANNEL_BINDING \<longrightarrow> length es \<le> 1)"

lemma parsed_context_iff:
  "parsed_context bs entries = Some (kind, es) \<longleftrightarrow>
     context_ok kind es \<and> bs = context_layout kind es \<and> length es \<le> length entries"
proof -
  have complete: "context_ok k xs \<Longrightarrow> length xs \<le> length entries \<Longrightarrow>
      parsed_context (context_layout k xs) entries = Some (k, xs)" for k xs
    using parse_layout [of k xs entries] by (auto simp: parsed_context_def)
  show ?thesis
  proof
    assume some: "parsed_context bs entries = Some (kind, es)"
    then obtain n out where
      "parse_impl (Some bs) (Some entries) (length entries) True = Ret (kind, n, Some out)"
      by (auto simp: parsed_context_def auth_v3_context_parse_bytes_def split: cres.splits option.splits)
    from parse_impl_sound [OF this] obtain xs where
      xs: "context_ok kind xs" "bs = context_layout kind xs" "length xs \<le> length entries"
      by auto
    then show "context_ok kind es \<and> bs = context_layout kind es \<and> length es \<le> length entries"
      using complete [OF xs(1,3)] some by simp
  qed (use complete in auto)
qed

text \<open>C28: What the parser of the received context bytes accepts, exactly: the encodings that fit the caller's array of the
  contexts the encoding document allows, and besides them the channel-binding contexts with two or more entries, which
  the document forbids (one such context is shown). It returns the kind and the identified values that were encoded,
  and whatever the bytes are, it never reads or writes out of bounds.\<close>

theorem context_parse_exact:
  "(parsed_context bs entries = Some (kind, es) \<longleftrightarrow>
      (documented_context kind es \<or> context_ok kind es \<and> kind = AUTH_V3_CONTEXT_CHANNEL_BINDING \<and> 2 \<le> length es) \<and>
      bs = context_layout kind es \<and> length es \<le> length entries) \<and>
   parsed_context (context_layout AUTH_V3_CONTEXT_CHANNEL_BINDING [(1, []), (2, [])]) [e, e] =
     Some (AUTH_V3_CONTEXT_CHANNEL_BINDING, [(1, []), (2, [])]) \<and>
   \<not> documented_context AUTH_V3_CONTEXT_CHANNEL_BINDING [(1, []), (2, [])] \<and>
   auth_v3_context_parse_bytes input (Some entries) (length entries) \<noteq> Fault"
proof (intro conjI)
  have "context_ok kind es \<longleftrightarrow>
      documented_context kind es \<or> context_ok kind es \<and> kind = AUTH_V3_CONTEXT_CHANNEL_BINDING \<and> 2 \<le> length es"
    by (auto simp: documented_context_def)
  then show "parsed_context bs entries = Some (kind, es) \<longleftrightarrow>
      (documented_context kind es \<or> context_ok kind es \<and> kind = AUTH_V3_CONTEXT_CHANNEL_BINDING \<and> 2 \<le> length es) \<and>
      bs = context_layout kind es \<and> length es \<le> length entries"
    using parsed_context_iff by blast
  show "parsed_context (context_layout AUTH_V3_CONTEXT_CHANNEL_BINDING [(1, []), (2, [])]) [e, e] =
     Some (AUTH_V3_CONTEXT_CHANNEL_BINDING, [(1, []), (2, [])])"
    by (simp add: parsed_context_iff context_ok_def entry_ok_def bad_critical_id_def)
  show "\<not> documented_context AUTH_V3_CONTEXT_CHANNEL_BINDING [(1, []), (2, [])]" by (simp add: documented_context_def)
  show "auth_v3_context_parse_bytes input (Some entries) (length entries) \<noteq> Fault"
    by (simp add: auth_v3_context_parse_bytes_def parse_impl_no_fault)
qed

lemma context_hash_bytes_layout:
  "context_ok kind es \<Longrightarrow>
   auth_v3_context_hash_bytes S (Some (context_layout kind es)) = Ret (sd_sha256 S (context_layout kind es))"
  using parse_impl_complete [of kind es False 0 None]
  by (simp add: auth_v3_context_hash_bytes_def room_out_def)

text \<open>C29: hashing a context without an output buffer is the same function as encoding it and
  hashing the received bytes: for valid entries and a buffer that is large enough, the streaming
  hash returns the digest the parser-checked hash computes of the encoder's output, and where the
  encoder rejects the entries the streaming hash rejects them with the same code.\<close>

theorem context_hash_equiv:
  assumes "\<forall>e\<in>set es. entry_valid e"
    and "auth_v3_context_encode kind (Some es) (length es) (Some out) \<noteq> Fail AUTH_V3_CONTEXT_BUFFER_TOO_SMALL"
  shows "auth_v3_context_hash S kind (Some es) (length es) =
     bnd (auth_v3_context_encode kind (Some es) (length es) (Some out)) (\<lambda>(buf, n).
     case auth_v3_context_hash_bytes S (Some (take n buf)) of Ret h \<Rightarrow> Ret h | _ \<Rightarrow> Fault)"
proof (rule validate_entries_cases [OF assms(1), of kind])
  assume ok: "context_ok kind (map entry_abs es)" "\<forall>e\<in>set es. entry_given e"
    and v: "validate_entries kind (Some es) (length es) = Ret (length (context_layout kind (map entry_abs es)))"
  then have fits: "length (context_layout kind (map entry_abs es)) \<le> length out"
    using assms(2) by (auto simp: auth_v3_context_encode_def split: if_splits)
  have "\<forall>e\<in>set es. entry_valid e \<and> entry_given e" using assms(1) ok(2) by simp
  note facts = context_encode_ok [OF this ok(1) fits] context_hash_ok [OF this ok(1), of S]
  then show ?thesis by (simp add: cur_def context_hash_bytes_layout [OF ok(1)])
qed (simp add: auth_v3_context_encode_def auth_v3_context_hash_def)

definition entries_sample :: "auth_v3_context_entry list" where
  "entries_sample =
     [\<lparr>ce_id = 0x8001, ce_value = Some [1, 2, 3], ce_value_len = 2\<rparr>,
      \<lparr>ce_id = 0x8002, ce_value = None, ce_value_len = 0\<rparr>]"

lemma entries_sample_ok:
  "\<forall>e\<in>set entries_sample. entry_valid e \<and> entry_given e" "context_ok 2 (map entry_abs entries_sample)"
  "context_layout 2 (map entry_abs entries_sample) =
     [0x5a, 0x4b, 0x43, 0x54, 0x58, 1, 2, 2, 0, 1, 0x80, 0, 2, 0, 1, 2, 2, 0x80, 0, 0, 0]"
  by (simp_all add: entries_sample_def entry_defs context_ok_def bad_critical_id_def context_layout_def
      CONTEXT_MAGIC_def le_bytes_2)

theorem context_hash_equiv_witness:
  "auth_v3_context_hash toy_sodium 2 (Some entries_sample) (length entries_sample) =
     Ret (sd_sha256 toy_sodium
       [0x5a, 0x4b, 0x43, 0x54, 0x58, 1, 2, 2, 0, 1, 0x80, 0, 2, 0, 1, 2, 2, 0x80, 0, 0, 0])"
proof -
  have enc: "auth_v3_context_encode 2 (Some entries_sample) (length entries_sample) (Some (replicate 22 0)) =
      Ret (cur (replicate 22 0) (context_layout 2 (map entry_abs entries_sample)))"
    by (rule context_encode_ok [OF entries_sample_ok(1,2)]) (simp add: entries_sample_ok(3))
  then show ?thesis
    using context_hash_equiv [of entries_sample 2 "replicate 22 0" toy_sodium] entries_sample_ok(1)
    by (simp add: cur_def context_hash_bytes_layout entries_sample_ok(2))
      (simp add: entries_sample_ok(3))
qed

end
