(* ===== verification/V3Authz.thy ===== *)
theory V3Authz
  imports V3Context Codec
begin

text \<open>
  \<^verbatim>\<open>c/src/proto/auth_v3_iot_core_authz.c\<close>: the authorization context of the IoT core profile,
  encoded as seven entries of a canonical context, decoded from the received bytes, and the
  attribution of a credential reference to a peer.
\<close>

abbreviation (input) AUTH_V3_IOT_CORE_SCOPE_SECURE_ASSOCIATION :: u64 where
  "AUTH_V3_IOT_CORE_SCOPE_SECURE_ASSOCIATION \<equiv> 1"
abbreviation (input) AUTH_V3_IOT_CORE_AUTHZ_ENTRY_COUNT :: nat where
  "AUTH_V3_IOT_CORE_AUTHZ_ENTRY_COUNT \<equiv> 7"
abbreviation (input) AUTH_V3_IOT_CORE_AUTHZ_CANONICAL_LEN :: nat where
  "AUTH_V3_IOT_CORE_AUTHZ_CANONICAL_LEN \<equiv> 148"

text \<open>The functions return an \<^verbatim>\<open>int\<close>; encoding and hashing pass codes of the context encoder on,
  which are outside the range of this enumeration: \<open>CONTEXT_RC\<close>.\<close>

datatype auth_v3_iot_core_authz_result =
    AUTH_V3_IOT_CORE_AUTHZ_INVALID_ARGUMENT
  | AUTH_V3_IOT_CORE_AUTHZ_INVALID_HOLDER
  | AUTH_V3_IOT_CORE_AUTHZ_INVALID_AUDIENCE
  | AUTH_V3_IOT_CORE_AUTHZ_INVALID_ROLE_POLICY
  | AUTH_V3_IOT_CORE_AUTHZ_INVALID_SCOPE
  | AUTH_V3_IOT_CORE_AUTHZ_INVALID_GENERATION
  | AUTH_V3_IOT_CORE_AUTHZ_INVALID_POLICY_EPOCH
  | AUTH_V3_IOT_CORE_AUTHZ_INVALID_REVOCATION_EPOCH
  | AUTH_V3_IOT_CORE_AUTHZ_INVALID_ENCODING_LENGTH
  | AUTH_V3_IOT_CORE_AUTHZ_INVALID_CONTEXT_KIND
  | AUTH_V3_IOT_CORE_AUTHZ_INVALID_ENTRY_SCHEMA
  | AUTH_V3_IOT_CORE_AUTHZ_ENTRY_LIMIT_EXCEEDED
  | AUTH_V3_IOT_CORE_AUTHZ_INVALID_ENCODING
  | AUTH_V3_IOT_CORE_ATTRIBUTION_MISSING_REFERENCE
  | AUTH_V3_IOT_CORE_ATTRIBUTION_AMBIGUOUS_REFERENCE
  | AUTH_V3_IOT_CORE_ATTRIBUTION_IDENTITY_MISMATCH
  | AUTH_V3_IOT_CORE_ATTRIBUTION_AUTHORIZATION_MISMATCH
  | CONTEXT_RC auth_v3_context_result

type_synonym 'a authz_out = "(auth_v3_iot_core_authz_result, 'a) cres"

record auth_v3_iot_core_authorization_context_v1 =
  az_holder_binding :: "byte list"
  az_audience_id :: "byte list"
  az_role_policy_id :: u64
  az_scope_bits :: u64
  az_authorization_generation :: u64
  az_policy_epoch :: u64
  az_revocation_epoch :: u64

type_synonym authz_context = auth_v3_iot_core_authorization_context_v1

record auth_v3_iot_core_attribution_record_v1 =
  ar_credential_reference :: "byte list"
  ar_peer_identity :: "byte list"
  ar_holder_binding :: "byte list"
  ar_audience_id :: "byte list"
  ar_role_policy_id :: u64
  ar_scope_bits :: u64
  ar_authorization_generation :: u64
  ar_policy_epoch :: u64
  ar_revocation_epoch :: u64

subsection \<open>Helpers\<close>

definition all_zero :: "byte list \<Rightarrow> nat \<Rightarrow> ('e, bool) cres" where
  "all_zero v len =
     bnd (loop (\<lambda>i acc. bnd (rd v i) (\<lambda>b. Ret (acc OR b))) [0..<len] 0) (\<lambda>acc. Ret (acc = 0))"

definition store_u64_le :: "u64 \<Rightarrow> byte list" where
  "store_u64_le v = foldl (\<lambda>out i. out[i := ucast (drop_bit (8 * i) v AND 0xff)]) (replicate 8 0) [0..<8]"

definition load_u64_le :: "byte list option \<Rightarrow> ('e, u64) cres" where
  "load_u64_le p = (case p of None \<Rightarrow> Fault | Some p \<Rightarrow> bnd (rdn p 0 8) (\<lambda>p. Ret (or_loop 8 p)))"

text \<open>\<^verbatim>\<open>memcmp(a, b, n) == 0\<close>\<close>

definition memcmp_eq :: "byte list \<Rightarrow> byte list \<Rightarrow> nat \<Rightarrow> ('e, bool) cres" where
  "memcmp_eq a b n = bnd (rdn a 0 n) (\<lambda>x. bnd (rdn b 0 n) (\<lambda>y. Ret (x = y)))"

subsection \<open>Validation and encoding\<close>

definition auth_v3_iot_core_authz_validate :: "authz_context option \<Rightarrow> unit authz_out" where
  "auth_v3_iot_core_authz_validate ctx =
     (case ctx of
        None \<Rightarrow> Fail AUTH_V3_IOT_CORE_AUTHZ_INVALID_ARGUMENT
      | Some c \<Rightarrow>
          bnd (all_zero (az_holder_binding c) 32) (\<lambda>z.
          if z then Fail AUTH_V3_IOT_CORE_AUTHZ_INVALID_HOLDER
          else bnd (all_zero (az_audience_id c) 32) (\<lambda>z.
          if z then Fail AUTH_V3_IOT_CORE_AUTHZ_INVALID_AUDIENCE
          else if az_role_policy_id c = 0 then Fail AUTH_V3_IOT_CORE_AUTHZ_INVALID_ROLE_POLICY
          else if az_scope_bits c \<noteq> AUTH_V3_IOT_CORE_SCOPE_SECURE_ASSOCIATION
          then Fail AUTH_V3_IOT_CORE_AUTHZ_INVALID_SCOPE
          else if az_authorization_generation c = 0 then Fail AUTH_V3_IOT_CORE_AUTHZ_INVALID_GENERATION
          else if az_policy_epoch c = 0 then Fail AUTH_V3_IOT_CORE_AUTHZ_INVALID_POLICY_EPOCH
          else if az_revocation_epoch c = 0 then Fail AUTH_V3_IOT_CORE_AUTHZ_INVALID_REVOCATION_EPOCH
          else Ret ())))"

definition build_entries :: "authz_context option \<Rightarrow> auth_v3_context_entry list authz_out" where
  "build_entries ctx =
     bnd (auth_v3_iot_core_authz_validate ctx) (\<lambda>_.
     let c = the ctx in
     Ret [\<lparr>ce_id = 0x0001, ce_value = Some (az_holder_binding c), ce_value_len = 32\<rparr>,
          \<lparr>ce_id = 0x0002, ce_value = Some (az_audience_id c), ce_value_len = 32\<rparr>,
          \<lparr>ce_id = 0x0003, ce_value = Some (store_u64_le (az_role_policy_id c)), ce_value_len = 8\<rparr>,
          \<lparr>ce_id = 0x0004, ce_value = Some (store_u64_le (az_scope_bits c)), ce_value_len = 8\<rparr>,
          \<lparr>ce_id = 0x0005, ce_value = Some (store_u64_le (az_authorization_generation c)), ce_value_len = 8\<rparr>,
          \<lparr>ce_id = 0x0006, ce_value = Some (store_u64_le (az_policy_epoch c)), ce_value_len = 8\<rparr>,
          \<lparr>ce_id = 0x0007, ce_value = Some (store_u64_le (az_revocation_epoch c)), ce_value_len = 8\<rparr>])"

text \<open>\<^verbatim>\<open>if (rc != OK) return rc;\<close> with a code of the context encoder.\<close>

fun context_rc :: "(auth_v3_context_result, 'a) cres \<Rightarrow> 'a authz_out" where
  "context_rc Fault = Fault"
| "context_rc (Fail e) = Fail (CONTEXT_RC e)"
| "context_rc (Ret a) = Ret a"

definition auth_v3_iot_core_authz_encode :: "authz_context option \<Rightarrow> byte list option \<Rightarrow> cursor authz_out" where
  "auth_v3_iot_core_authz_encode ctx out =
     (if out = None then Fail AUTH_V3_IOT_CORE_AUTHZ_INVALID_ARGUMENT
      else
        bnd (build_entries ctx) (\<lambda>entries.
        bnd (context_rc (auth_v3_context_encode AUTH_V3_CONTEXT_AUTHORIZATION (Some entries) 7 out)) (\<lambda>(buf, out_len).
        if out_len \<noteq> AUTH_V3_IOT_CORE_AUTHZ_CANONICAL_LEN then Fail AUTH_V3_IOT_CORE_AUTHZ_INVALID_ARGUMENT
        else Ret (buf, out_len))))"

definition auth_v3_iot_core_authz_hash :: "sodium \<Rightarrow> authz_context option \<Rightarrow> byte list authz_out" where
  "auth_v3_iot_core_authz_hash S ctx =
     bnd (build_entries ctx) (\<lambda>entries.
     context_rc (auth_v3_context_hash S AUTH_V3_CONTEXT_AUTHORIZATION (Some entries) 7))"

subsection \<open>Decoding\<close>

definition expected_ids :: "u16 list" where "expected_ids = [1, 2, 3, 4, 5, 6, 7]"
definition expected_lengths :: "nat list" where "expected_lengths = [32, 32, 8, 8, 8, 8, 8]"

definition check_schema :: "auth_v3_context_entry list \<Rightarrow> unit authz_out" where
  "check_schema entries =
     loop (\<lambda>i _. bnd (entry_at (Some entries) i) (\<lambda>e.
         if ce_id e \<noteq> expected_ids ! i \<or> unat (ce_value_len e) \<noteq> expected_lengths ! i
         then Fail AUTH_V3_IOT_CORE_AUTHZ_INVALID_ENTRY_SCHEMA else Ret ()))
       [0..<AUTH_V3_IOT_CORE_AUTHZ_ENTRY_COUNT] ()"

text \<open>\<^verbatim>\<open>memcpy(dst, entries[i].value, 32)\<close>\<close>

definition copy_value :: "auth_v3_context_entry \<Rightarrow> ('e, byte list) cres" where
  "copy_value e = (case ce_value e of None \<Rightarrow> Fault | Some v \<Rightarrow> rdn v 0 32)"

text \<open>The local array \<^verbatim>\<open>entries\<close> starts with unspecified content; \<open>entry_blank\<close> stands for it.\<close>

definition entry_blank :: auth_v3_context_entry where
  "entry_blank = \<lparr>ce_id = 0, ce_value = None, ce_value_len = 0\<rparr>"

definition auth_v3_iot_core_authz_decode_bytes :: "byte list option \<Rightarrow> authz_context authz_out" where
  "auth_v3_iot_core_authz_decode_bytes input =
     (if input = None then Fail AUTH_V3_IOT_CORE_AUTHZ_INVALID_ARGUMENT
      else if length (the input) \<noteq> AUTH_V3_IOT_CORE_AUTHZ_CANONICAL_LEN
      then Fail AUTH_V3_IOT_CORE_AUTHZ_INVALID_ENCODING_LENGTH
      else
        case auth_v3_context_parse_bytes input
               (Some (replicate AUTH_V3_IOT_CORE_AUTHZ_ENTRY_COUNT entry_blank))
               AUTH_V3_IOT_CORE_AUTHZ_ENTRY_COUNT of
          Fault \<Rightarrow> Fault
        | Fail rc \<Rightarrow>
            if rc = AUTH_V3_CONTEXT_PARSE_ENTRY_BUFFER_TOO_SMALL
            then Fail AUTH_V3_IOT_CORE_AUTHZ_ENTRY_LIMIT_EXCEEDED
            else Fail AUTH_V3_IOT_CORE_AUTHZ_INVALID_ENCODING
        | Ret (kind, entry_count, entries) \<Rightarrow>
            if kind \<noteq> AUTH_V3_CONTEXT_AUTHORIZATION then Fail AUTH_V3_IOT_CORE_AUTHZ_INVALID_CONTEXT_KIND
            else if entry_count \<noteq> AUTH_V3_IOT_CORE_AUTHZ_ENTRY_COUNT
            then Fail AUTH_V3_IOT_CORE_AUTHZ_INVALID_ENTRY_SCHEMA
            else
              bnd (check_schema (the entries)) (\<lambda>_.
              bnd (bnd (entry_at entries 0) copy_value) (\<lambda>holder_binding.
              bnd (bnd (entry_at entries 1) copy_value) (\<lambda>audience_id.
              bnd (bnd (entry_at entries 2) (\<lambda>e. load_u64_le (ce_value e))) (\<lambda>role_policy_id.
              bnd (bnd (entry_at entries 3) (\<lambda>e. load_u64_le (ce_value e))) (\<lambda>scope_bits.
              bnd (bnd (entry_at entries 4) (\<lambda>e. load_u64_le (ce_value e))) (\<lambda>authorization_generation.
              bnd (bnd (entry_at entries 5) (\<lambda>e. load_u64_le (ce_value e))) (\<lambda>policy_epoch.
              bnd (bnd (entry_at entries 6) (\<lambda>e. load_u64_le (ce_value e))) (\<lambda>revocation_epoch.
              let context_out =
                \<lparr>az_holder_binding = holder_binding, az_audience_id = audience_id,
                 az_role_policy_id = role_policy_id, az_scope_bits = scope_bits,
                 az_authorization_generation = authorization_generation,
                 az_policy_epoch = policy_epoch, az_revocation_epoch = revocation_epoch\<rparr>
              in bnd (auth_v3_iot_core_authz_validate (Some context_out)) (\<lambda>_. Ret context_out))))))))))"

definition auth_v3_iot_core_authz_hash_bytes :: "sodium \<Rightarrow> byte list option \<Rightarrow> byte list authz_out" where
  "auth_v3_iot_core_authz_hash_bytes S input =
     bnd (auth_v3_iot_core_authz_decode_bytes input) (\<lambda>_. Ret (sd_sha256 S (the input)))"

subsection \<open>Attribution\<close>

text \<open>\<^verbatim>\<open>match\<close> is a pointer into \<^verbatim>\<open>records\<close>: the index of the record.\<close>

definition attribution_scan ::
    "auth_v3_iot_core_attribution_record_v1 list option \<Rightarrow> byte list \<Rightarrow> nat \<Rightarrow> nat option \<Rightarrow> nat option authz_out" where
  "attribution_scan records credential_reference i match =
     bnd (entry_at records i) (\<lambda>r.
     bnd (memcmp_eq (ar_credential_reference r) credential_reference 32) (\<lambda>eq.
     if eq then (if match \<noteq> None then Fail AUTH_V3_IOT_CORE_ATTRIBUTION_AMBIGUOUS_REFERENCE else Ret (Some i))
     else Ret match))"

definition auth_v3_iot_core_attribution_resolve ::
    "auth_v3_iot_core_attribution_record_v1 list option \<Rightarrow> nat \<Rightarrow> byte list option \<Rightarrow> byte list option \<Rightarrow>
     authz_context option \<Rightarrow> nat authz_out" where
  "auth_v3_iot_core_attribution_resolve records record_count credential_reference expected_peer_identity ctx =
     (if (records = None \<and> record_count \<noteq> 0) \<or> credential_reference = None \<or> expected_peer_identity = None \<or> ctx = None
      then Fail AUTH_V3_IOT_CORE_AUTHZ_INVALID_ARGUMENT
      else
        bnd (loop (attribution_scan records (the credential_reference)) [0..<record_count] None) (\<lambda>match.
        case match of
          None \<Rightarrow> Fail AUTH_V3_IOT_CORE_ATTRIBUTION_MISSING_REFERENCE
        | Some m \<Rightarrow>
            bnd (entry_at records m) (\<lambda>r.
            bnd (memcmp_eq (ar_peer_identity r) (the expected_peer_identity) 32) (\<lambda>eq.
            if \<not> eq then Fail AUTH_V3_IOT_CORE_ATTRIBUTION_IDENTITY_MISMATCH
            else
              let c = the ctx in
              bnd (memcmp_eq (ar_holder_binding r) (az_holder_binding c) 32) (\<lambda>eq_holder.
              bnd (memcmp_eq (ar_audience_id r) (az_audience_id c) 32) (\<lambda>eq_audience.
              if \<not> eq_holder \<or> \<not> eq_audience \<or> ar_role_policy_id r \<noteq> az_role_policy_id c \<or>
                 ar_scope_bits r \<noteq> az_scope_bits c \<or>
                 ar_authorization_generation r \<noteq> az_authorization_generation c \<or>
                 ar_policy_epoch r \<noteq> az_policy_epoch c \<or> ar_revocation_epoch r \<noteq> az_revocation_epoch c
              then Fail AUTH_V3_IOT_CORE_ATTRIBUTION_AUTHORIZATION_MISMATCH
              else Ret m))))))"

subsection \<open>Helper lemmas\<close>

lemma fold_or_zero: "fold (\<lambda>b acc. acc OR b) v a = (0 :: byte) \<longleftrightarrow> a = 0 \<and> (\<forall>b\<in>set v. b = 0)"
  by (induction v arbitrary: a) (auto simp: or_eq_0_iff)

lemma all_zero_eq: "n = length v \<Longrightarrow> (all_zero v n :: ('e, bool) cres) = Ret (\<forall>b\<in>set v. b = 0)"
proof -
  assume n: "n = length v"
  have "(loop (\<lambda>i acc. bnd (rd v i) (\<lambda>b. Ret (acc OR b))) [0..<length v] 0 :: ('e, byte) cres) =
      loop (\<lambda>i acc. bnd (entry_at (Some v) i) (\<lambda>b. Ret (acc OR b))) [0..<length v] 0"
    by (simp add: rd_def entry_at_def)
  also have "\<dots> = Ret (fold (\<lambda>b acc. acc OR b) v 0)"
    by (simp add: loop_elements loop_Ret)
  finally show ?thesis by (simp add: all_zero_def n fold_or_zero)
qed

lemma store_u64_le_bytes: "store_u64_le v = le_bytes 8 v"
  by (simp add: store_u64_le_def le_bytes_def upt_rec numeral_eq_Suc)

lemma load_u64_le_entry:
  assumes "entry_valid e" and "entry_given e" and "length (snd (entry_abs e)) = 8"
  shows "load_u64_le (ce_value e) = Ret (le_word (snd (entry_abs e)))"
proof -
  have len: "unat (ce_value_len e) = 8" using assms by (simp add: length_entry_abs)
  then have "ce_value_len e \<noteq> 0" by auto
  then obtain v where v: "ce_value e = Some v" using assms(2) by (auto simp: entry_given_def word_neq_0_conv)
  then show ?thesis using assms len
    by (simp add: load_u64_le_def rdn_def entry_abs_def entry_valid_def or_loop_le_word)
qed

lemma copy_value_entry:
  assumes "entry_valid e" and "entry_given e" and "length (snd (entry_abs e)) = 32"
  shows "copy_value e = Ret (snd (entry_abs e))"
proof -
  have len: "unat (ce_value_len e) = 32" using assms by (simp add: length_entry_abs)
  then have "ce_value_len e \<noteq> 0" by auto
  then obtain v where v: "ce_value e = Some v" using assms(2) by (auto simp: entry_given_def word_neq_0_conv)
  then show ?thesis using assms len
    by (simp add: copy_value_def rdn_def entry_abs_def entry_valid_def)
qed

subsection \<open>Specification\<close>

definition authz_wf :: "authz_context \<Rightarrow> bool" where
  [wf_defs]: "authz_wf c \<longleftrightarrow> length (az_holder_binding c) = 32 \<and> length (az_audience_id c) = 32"

definition authz_valid :: "authz_context \<Rightarrow> bool" where
  "authz_valid c \<longleftrightarrow> authz_wf c \<and>
     (\<exists>b\<in>set (az_holder_binding c). b \<noteq> 0) \<and> (\<exists>b\<in>set (az_audience_id c). b \<noteq> 0) \<and>
     az_role_policy_id c \<noteq> 0 \<and> az_scope_bits c = 1 \<and> az_authorization_generation c \<noteq> 0 \<and>
     az_policy_epoch c \<noteq> 0 \<and> az_revocation_epoch c \<noteq> 0"

definition authz_entries :: "authz_context \<Rightarrow> context_entries" where
  "authz_entries c =
     [(1, az_holder_binding c), (2, az_audience_id c), (3, le_bytes 8 (az_role_policy_id c)),
      (4, le_bytes 8 (az_scope_bits c)), (5, le_bytes 8 (az_authorization_generation c)),
      (6, le_bytes 8 (az_policy_epoch c)), (7, le_bytes 8 (az_revocation_epoch c))]"

definition authz_layout :: "authz_context \<Rightarrow> byte list" where
  "authz_layout c = context_layout 1 (authz_entries c)"

lemma validate_iff: "authz_wf c \<Longrightarrow> auth_v3_iot_core_authz_validate (Some c) = Ret () \<longleftrightarrow> authz_valid c"
  by (auto simp: auth_v3_iot_core_authz_validate_def all_zero_eq authz_wf_def authz_valid_def)

lemma validate_no_fault: "authz_wf c \<Longrightarrow> auth_v3_iot_core_authz_validate (Some c) \<noteq> Fault"
  by (auto simp: auth_v3_iot_core_authz_validate_def all_zero_eq authz_wf_def split: if_splits)

lemma authz_entries_ok: "authz_wf c \<Longrightarrow> context_ok 1 (authz_entries c)"
  by (simp add: context_ok_def authz_entries_def entry_ok_def bad_critical_id_def authz_wf_def)

lemma length_authz_layout: "authz_wf c \<Longrightarrow> length (authz_layout c) = 148"
  by (simp add: authz_layout_def context_layout_length authz_entries_def authz_wf_def)

lemma build_entries_ok:
  assumes "authz_valid c"
  shows "\<exists>es. build_entries (Some c) = Ret es \<and> map entry_abs es = authz_entries c \<and> length es = 7 \<and>
     (\<forall>e\<in>set es. entry_valid e \<and> entry_given e)"
proof -
  have wf: "authz_wf c" using assms by (simp add: authz_valid_def)
  then have "auth_v3_iot_core_authz_validate (Some c) = Ret ()" using assms validate_iff by blast
  then show ?thesis using wf
    by (simp add: build_entries_def authz_entries_def entry_defs store_u64_le_bytes authz_wf_def Let_def)
qed

lemma authz_encode_eq:
  assumes "authz_valid c"
  shows "auth_v3_iot_core_authz_encode (Some c) (Some out) =
     (if length out < 148 then Fail (CONTEXT_RC AUTH_V3_CONTEXT_BUFFER_TOO_SMALL) else Ret (cur out (authz_layout c)))"
proof -
  have wf: "authz_wf c" using assms by (simp add: authz_valid_def)
  obtain es where es: "build_entries (Some c) = Ret es" "map entry_abs es = authz_entries c" "length es = 7"
      "\<forall>e\<in>set es. entry_valid e \<and> entry_given e"
    using build_entries_ok [OF assms] by blast
  have ok: "context_ok 1 (map entry_abs es)" using es(2) authz_entries_ok [OF wf] by simp
  have len: "length (context_layout 1 (map entry_abs es)) = 148"
    using es(2) length_authz_layout [OF wf] by (simp add: authz_layout_def)
  show ?thesis
  proof (cases "length out < 148")
    case True
    have "validate_entries 1 (Some es) (length es) = Ret (length (context_layout 1 (map entry_abs es)))"
      by (rule validate_entries_cases [of es 1]) (use es(4) ok in auto)
    then have "auth_v3_context_encode 1 (Some es) 7 (Some out) = Fail AUTH_V3_CONTEXT_BUFFER_TOO_SMALL"
      using True by (simp add: auth_v3_context_encode_def es(3) len)
    then show ?thesis using True by (simp add: auth_v3_iot_core_authz_encode_def es(1))
  next
    case False
    then have "auth_v3_context_encode 1 (Some es) 7 (Some out) = Ret (cur out (context_layout 1 (map entry_abs es)))"
      using context_encode_ok [OF es(4) ok, of out] len es(3) by simp
    then show ?thesis using False len
      by (simp add: auth_v3_iot_core_authz_encode_def es(1) es(2) authz_layout_def cur_def)
  qed
qed

lemma authz_hash_eq:
  assumes "authz_valid c"
  shows "auth_v3_iot_core_authz_hash S (Some c) = Ret (sd_sha256 S (authz_layout c))"
proof -
  obtain es where es: "build_entries (Some c) = Ret es" "map entry_abs es = authz_entries c" "length es = 7"
      "\<forall>e\<in>set es. entry_valid e \<and> entry_given e"
    using build_entries_ok [OF assms] by blast
  then show ?thesis
    using context_hash_ok [OF es(4), of 1 S] authz_entries_ok [of c] assms
    by (simp add: auth_v3_iot_core_authz_hash_def authz_layout_def authz_valid_def)
qed

subsection \<open>Decoding inverts encoding\<close>

definition schema_ok :: "context_entries \<Rightarrow> bool" where
  "schema_ok es \<longleftrightarrow> map fst es = expected_ids \<and> map (length \<circ> snd) es = expected_lengths"

definition authz_of :: "context_entries \<Rightarrow> authz_context" where
  "authz_of es =
     \<lparr>az_holder_binding = snd (es ! 0), az_audience_id = snd (es ! 1), az_role_policy_id = le_word (snd (es ! 2)),
      az_scope_bits = le_word (snd (es ! 3)), az_authorization_generation = le_word (snd (es ! 4)),
      az_policy_epoch = le_word (snd (es ! 5)), az_revocation_epoch = le_word (snd (es ! 6))\<rparr>"

lemma length_7: "length xs = 7 \<longleftrightarrow> (\<exists>a b c d e f g. xs = [a, b, c, d, e, f, g])"
  by (auto simp: length_Suc_conv eval_nat_numeral)

lemma seven: "[0..<7] = [0, 1, 2, 3, 4, 5, 6]"
  by (simp add: upt_rec)

lemma schema_entries: "schema_ok es \<Longrightarrow> authz_wf (authz_of es) \<and> authz_entries (authz_of es) = es"
proof -
  assume ok: "schema_ok es"
  then have "length (map fst es) = length expected_ids" by (simp add: schema_ok_def)
  then have "length es = 7" by (simp add: expected_ids_def)
  then show ?thesis using ok
    by (auto simp: length_7 schema_ok_def authz_of_def authz_wf_def authz_entries_def expected_ids_def
        expected_lengths_def le_bytes_le_word)
qed

lemma entries_schema: "authz_wf c \<Longrightarrow> schema_ok (authz_entries c) \<and> authz_of (authz_entries c) = c"
  by (simp add: schema_ok_def authz_of_def authz_wf_def authz_entries_def expected_ids_def
      expected_lengths_def le_word_le_bytes)

lemma check_schema_eq:
  assumes "length out = 7" and "\<forall>e\<in>set out. entry_valid e \<and> entry_given e"
  shows "check_schema out =
     (if schema_ok (map entry_abs out) then Ret () else Fail AUTH_V3_IOT_CORE_AUTHZ_INVALID_ENTRY_SCHEMA)"
proof -
  obtain a b c d e f g where out: "out = [a, b, c, d, e, f, g]" using assms(1) by (auto simp: length_7)
  have len: "length (snd (entry_abs x)) = unat (ce_value_len x)" if "x \<in> set out" for x
    using assms(2) that by (simp add: length_entry_abs)
  show ?thesis using len
    by (simp add: out check_schema_def seven entry_at_def schema_ok_def expected_ids_def expected_lengths_def)
qed

text \<open>What the decoder does with the entries the parser has captured.\<close>

lemma decode_captured:
  assumes "length bs = 148" and "length out = 7" and "\<forall>e\<in>set out. entry_valid e \<and> entry_given e"
    and "auth_v3_context_parse_bytes (Some bs) (Some (replicate 7 entry_blank)) 7 = Ret (1, 7, Some out)"
  shows "auth_v3_iot_core_authz_decode_bytes (Some bs) =
     (if schema_ok (map entry_abs out)
      then bnd (auth_v3_iot_core_authz_validate (Some (authz_of (map entry_abs out))))
             (\<lambda>_. Ret (authz_of (map entry_abs out)))
      else Fail AUTH_V3_IOT_CORE_AUTHZ_INVALID_ENTRY_SCHEMA)"
proof -
  obtain a b c d e f g where out: "out = [a, b, c, d, e, f, g]" using assms(2) by (auto simp: length_7)
  show ?thesis
  proof (cases "schema_ok (map entry_abs out)")
    case True
    then have len: "length (snd (entry_abs a)) = 32" "length (snd (entry_abs b)) = 32"
        "length (snd (entry_abs c)) = 8" "length (snd (entry_abs d)) = 8" "length (snd (entry_abs e)) = 8"
        "length (snd (entry_abs f)) = 8" "length (snd (entry_abs g)) = 8"
      by (simp_all add: out schema_ok_def expected_lengths_def)
    then show ?thesis
      using assms True check_schema_eq [OF assms(2,3)]
      by (simp add: auth_v3_iot_core_authz_decode_bytes_def out entry_at_def load_u64_le_entry copy_value_entry
          authz_of_def Let_def)
  next
    case False
    then show ?thesis using assms check_schema_eq [OF assms(2,3)]
      by (simp add: auth_v3_iot_core_authz_decode_bytes_def)
  qed
qed

lemma decode_layout:
  assumes "context_ok 1 es" and "length es = 7" and "length (context_layout 1 es) = 148"
  shows "auth_v3_iot_core_authz_decode_bytes (Some (context_layout 1 es)) =
     (if schema_ok es
      then bnd (auth_v3_iot_core_authz_validate (Some (authz_of es))) (\<lambda>_. Ret (authz_of es))
      else Fail AUTH_V3_IOT_CORE_AUTHZ_INVALID_ENTRY_SCHEMA)"
proof -
  obtain out where out: "auth_v3_context_parse_bytes (Some (context_layout 1 es)) (Some (replicate 7 entry_blank)) 7 =
        Ret (1, 7, Some out)" "map entry_abs out = es" "length out = 7"
      "\<forall>e\<in>set out. entry_valid e \<and> entry_given e"
    using parse_layout [OF assms(1), of "replicate 7 entry_blank"] assms(2) by auto
  show ?thesis using decode_captured [OF assms(3) out(3,4,1)] out(2) by simp
qed

lemma decode_sound:
  assumes "auth_v3_iot_core_authz_decode_bytes (Some bs) = Ret c"
  shows "authz_valid c \<and> authz_layout c = bs"
proof -
  have len: "length bs = 148"
    using assms by (auto simp: auth_v3_iot_core_authz_decode_bytes_def split: if_splits)
  have "\<exists>out. auth_v3_context_parse_bytes (Some bs) (Some (replicate 7 entry_blank)) 7 = Ret (1, 7, out)"
    using assms by (auto simp: auth_v3_iot_core_authz_decode_bytes_def split: if_splits cres.splits)
  then obtain es where es: "length es = 7" "context_ok 1 es" "bs = context_layout 1 es"
    using parse_impl_sound [of bs "Some (replicate 7 entry_blank)" 7 True 1 7]
    by (auto simp: auth_v3_context_parse_bytes_def)
  from decode_layout [OF es(2,1)] len assms have "schema_ok es"
    and v: "auth_v3_iot_core_authz_validate (Some (authz_of es)) = Ret ()" and c: "c = authz_of es"
    by (auto simp: es(3) bnd_iffs split: if_splits)
  with schema_entries [of es] validate_iff [of "authz_of es"] show ?thesis
    by (simp add: authz_layout_def es(3))
qed

lemma decode_no_fault: "auth_v3_iot_core_authz_decode_bytes input \<noteq> Fault"
proof (cases "input = None \<or> length (the input) \<noteq> 148")
  case False
  then obtain bs where bs: "input = Some bs" "length bs = 148" by (cases input) auto
  let ?parse = "auth_v3_context_parse_bytes (Some bs) (Some (replicate 7 entry_blank)) 7"
  show ?thesis
  proof (cases ?parse)
    case Fault
    then show ?thesis using parse_impl_no_fault [of True "Some (replicate 7 entry_blank)" 7 "Some bs"]
      by (simp add: auth_v3_context_parse_bytes_def)
  next
    case (Ret r)
    obtain kind n out where r: "r = (kind, n, out)" by (cases r)
    show ?thesis
    proof (cases "kind = 1 \<and> n = 7")
      case True
      then obtain es where es: "length es = 7" "context_ok 1 es" "bs = context_layout 1 es"
        using parse_impl_sound [of bs "Some (replicate 7 entry_blank)" 7 True 1 7 out] Ret r
        by (auto simp: auth_v3_context_parse_bytes_def)
      then show ?thesis
        using decode_layout [OF es(2,1)] bs schema_entries [of es] validate_no_fault [of "authz_of es"]
        by (auto simp: bnd_iffs)
    qed (use Ret r bs in \<open>auto simp: auth_v3_iot_core_authz_decode_bytes_def\<close>)
  qed (use bs in \<open>simp add: auth_v3_iot_core_authz_decode_bytes_def\<close>)
qed (auto simp: auth_v3_iot_core_authz_decode_bytes_def)

interpretation authz: canonical_format auth_v3_iot_core_authz_encode auth_v3_iot_core_authz_decode_bytes
  authz_valid id authz_layout "CONTEXT_RC AUTH_V3_CONTEXT_BUFFER_TOO_SMALL"
proof unfold_locales
  fix c :: authz_context assume c: "authz_valid c"
  then have wf: "authz_wf c" by (simp add: authz_valid_def)
  show "length (authz_layout c) \<le> length buf \<Longrightarrow>
      auth_v3_iot_core_authz_encode (Some c) (Some buf) = Ret (cur buf (authz_layout c))" for buf
    using authz_encode_eq [OF c] length_authz_layout [OF wf] by simp
  show "length buf < length (authz_layout c) \<Longrightarrow>
      auth_v3_iot_core_authz_encode (Some c) (Some buf) = Fail (CONTEXT_RC AUTH_V3_CONTEXT_BUFFER_TOO_SMALL)" for buf
    using authz_encode_eq [OF c] length_authz_layout [OF wf] by simp
  show "auth_v3_iot_core_authz_decode_bytes (Some (authz_layout c)) = Ret (id c)"
    using decode_layout [of "authz_entries c"] authz_entries_ok [OF wf] length_authz_layout [OF wf]
      entries_schema [OF wf] validate_iff [OF wf] c
    by (simp add: authz_layout_def) (simp add: authz_entries_def)
qed (use decode_sound decode_no_fault in auto)

subsection \<open>Attribution\<close>

definition record_wf :: "auth_v3_iot_core_attribution_record_v1 \<Rightarrow> bool" where
  [wf_defs]: "record_wf r \<longleftrightarrow> length (ar_credential_reference r) = 32 \<and> length (ar_peer_identity r) = 32 \<and>
     length (ar_holder_binding r) = 32 \<and> length (ar_audience_id r) = 32"

text \<open>The record authorizes exactly the context.\<close>

definition record_grants :: "auth_v3_iot_core_attribution_record_v1 \<Rightarrow> authz_context \<Rightarrow> bool" where
  "record_grants r c \<longleftrightarrow>
     \<lparr>az_holder_binding = ar_holder_binding r, az_audience_id = ar_audience_id r,
      az_role_policy_id = ar_role_policy_id r, az_scope_bits = ar_scope_bits r,
      az_authorization_generation = ar_authorization_generation r, az_policy_epoch = ar_policy_epoch r,
      az_revocation_epoch = ar_revocation_epoch r\<rparr> = c"

text \<open>The positions of a reference among the first \<open>n\<close> records.\<close>

definition positions :: "auth_v3_iot_core_attribution_record_v1 list \<Rightarrow> byte list \<Rightarrow> nat \<Rightarrow> nat list" where
  "positions rs cref n = filter (\<lambda>i. ar_credential_reference (rs ! i) = cref) [0..<n]"

lemma memcmp_eq_32: "length a = 32 \<Longrightarrow> length b = 32 \<Longrightarrow> memcmp_eq a b 32 = Ret (a = b)"
  by (simp add: memcmp_eq_def rdn_def)

lemma attribution_loop:
  assumes "\<forall>r\<in>set rs. record_wf r" and "length cref = 32" and "n \<le> length rs"
  shows "loop (attribution_scan (Some rs) cref) [0..<n] None =
     (case positions rs cref n of [] \<Rightarrow> Ret None | [i] \<Rightarrow> Ret (Some i)
      | _ \<Rightarrow> Fail AUTH_V3_IOT_CORE_ATTRIBUTION_AMBIGUOUS_REFERENCE)"
  using assms(3)
proof (induction n)
  case (Suc n)
  have wf: "record_wf (rs ! n)" using assms(1) Suc.prems by simp
  have turn: "attribution_scan (Some rs) cref n m =
      (if ar_credential_reference (rs ! n) = cref
       then (if m \<noteq> None then Fail AUTH_V3_IOT_CORE_ATTRIBUTION_AMBIGUOUS_REFERENCE else Ret (Some n)) else Ret m)" for m
    using wf assms(2) Suc.prems by (simp add: attribution_scan_def entry_at_def memcmp_eq_32 record_wf_def)
  have pos: "positions rs cref (Suc n) = positions rs cref n @ (if ar_credential_reference (rs ! n) = cref then [n] else [])"
    by (simp add: positions_def)
  show ?case using Suc.IH Suc.prems
    by (auto simp: loop_append pos turn split: list.splits)
qed (simp add: positions_def)

lemma resolve_eq:
  assumes "\<forall>r\<in>set rs. record_wf r" and "length cref = 32" and "length peer = 32" and "authz_wf c"
  shows "auth_v3_iot_core_attribution_resolve (Some rs) (length rs) (Some cref) (Some peer) (Some c) =
     (case positions rs cref (length rs) of
        [] \<Rightarrow> Fail AUTH_V3_IOT_CORE_ATTRIBUTION_MISSING_REFERENCE
      | [i] \<Rightarrow>
          if ar_peer_identity (rs ! i) \<noteq> peer then Fail AUTH_V3_IOT_CORE_ATTRIBUTION_IDENTITY_MISMATCH
          else if \<not> record_grants (rs ! i) c then Fail AUTH_V3_IOT_CORE_ATTRIBUTION_AUTHORIZATION_MISMATCH
          else Ret i
      | _ \<Rightarrow> Fail AUTH_V3_IOT_CORE_ATTRIBUTION_AMBIGUOUS_REFERENCE)"
proof -
  note scan = attribution_loop [OF assms(1,2) order_refl]
  consider (none) "positions rs cref (length rs) = []" | (one) i where "positions rs cref (length rs) = [i]"
    | (more) i j js where "positions rs cref (length rs) = i # j # js"
    by (metis list.exhaust)
  then show ?thesis
  proof cases
    case one
    then have "i \<in> set (positions rs cref (length rs))" by simp
    then have i: "i < length rs" by (simp add: positions_def)
    then have "record_wf (rs ! i)" using assms(1) by simp
    then show ?thesis using one i assms(2-4) scan
      by (cases c) (auto simp: auth_v3_iot_core_attribution_resolve_def entry_at_def memcmp_eq_32 record_wf_def
          authz_wf_def record_grants_def Let_def)
  qed (use scan in \<open>simp_all add: auth_v3_iot_core_attribution_resolve_def\<close>)
qed

lemma resolve_Ret_iff:
  assumes "\<forall>r\<in>set rs. record_wf r" and "length cref = 32" and "length peer = 32" and "authz_wf c"
  shows "auth_v3_iot_core_attribution_resolve (Some rs) (length rs) (Some cref) (Some peer) (Some c) = Ret i \<longleftrightarrow>
     positions rs cref (length rs) = [i] \<and> ar_peer_identity (rs ! i) = peer \<and> record_grants (rs ! i) c"
  unfolding resolve_eq [OF assms] by (auto split: list.split)

lemma positions_one_iff:
  "positions rs cref n = [i] \<longleftrightarrow>
     i < n \<and> ar_credential_reference (rs ! i) = cref \<and> (\<forall>j<n. ar_credential_reference (rs ! j) = cref \<longrightarrow> j = i)"
  (is "?l \<longleftrightarrow> ?r")
proof
  assume l: ?l
  have "set (positions rs cref n) = {i}" by (simp add: l)
  then show ?r by (auto simp: positions_def)
next
  assume r: ?r
  have "distinct (positions rs cref n)" by (simp add: positions_def)
  moreover have "set (positions rs cref n) = {i}" using r by (auto simp: positions_def)
  ultimately show ?l by (metis distinct_card distinct.simps(2) empty_iff is_singletonI is_singleton_altdef
      length_Suc_conv length_0_conv list.set_intros(1) singletonD One_nat_def)
qed

subsection \<open>Properties\<close>

text \<open>C31: the authorization context survives its encoding and nothing else is accepted: decoding
  accepts exactly the 148-byte encodings of contexts that pass validation and returns the context
  that was encoded; the encoder writes that encoding into every buffer of at least 148 bytes; and
  hashing the context equals hashing its received bytes. No input makes the decoder leave its
  buffers.\<close>

theorem authz_roundtrip:
  "(auth_v3_iot_core_authz_decode_bytes (Some bs) = Ret c \<longleftrightarrow> authz_valid c \<and> authz_layout c = bs) \<and>
   (authz_valid c \<longrightarrow>
      length (authz_layout c) = 148 \<and>
      auth_v3_iot_core_authz_encode (Some c) (Some out) =
        (if length out < 148 then Fail (CONTEXT_RC AUTH_V3_CONTEXT_BUFFER_TOO_SMALL)
         else Ret (authz_layout c @ drop 148 out, 148)) \<and>
      auth_v3_iot_core_authz_hash S (Some c) = auth_v3_iot_core_authz_hash_bytes S (Some (authz_layout c))) \<and>
   auth_v3_iot_core_authz_decode_bytes input \<noteq> Fault"
proof (intro conjI impI)
  show "auth_v3_iot_core_authz_decode_bytes (Some bs) = Ret c \<longleftrightarrow> authz_valid c \<and> authz_layout c = bs"
    using authz.dec_iff [of bs c] by simp
next
  assume c: "authz_valid c"
  then show len: "length (authz_layout c) = 148" by (simp add: authz_valid_def length_authz_layout)
  show "auth_v3_iot_core_authz_encode (Some c) (Some out) =
      (if length out < 148 then Fail (CONTEXT_RC AUTH_V3_CONTEXT_BUFFER_TOO_SMALL)
       else Ret (authz_layout c @ drop 148 out, 148))"
    using authz_encode_eq [OF c, of out] len by (simp add: cur_def)
  show "auth_v3_iot_core_authz_hash S (Some c) = auth_v3_iot_core_authz_hash_bytes S (Some (authz_layout c))"
    using authz.dec_layout [OF c] by (simp add: authz_hash_eq [OF c] auth_v3_iot_core_authz_hash_bytes_def)
qed (rule decode_no_fault)

definition authz_sample :: authz_context where
  "authz_sample =
     \<lparr>az_holder_binding = replicate 32 1, az_audience_id = replicate 32 2, az_role_policy_id = 3,
      az_scope_bits = 1, az_authorization_generation = 4, az_policy_epoch = 5, az_revocation_epoch = 6\<rparr>"

lemma authz_sample_valid: "authz_valid authz_sample"
  by (simp add: authz_valid_def authz_wf_def authz_sample_def)

theorem authz_roundtrip_witness:
  "auth_v3_iot_core_authz_encode (Some authz_sample) (Some (replicate 150 0)) =
     Ret (authz_layout authz_sample @ [0, 0], 148) \<and>
   auth_v3_iot_core_authz_decode_bytes (Some (authz_layout authz_sample)) = Ret authz_sample"
  using authz_roundtrip [of "authz_layout authz_sample" authz_sample "replicate 150 0" toy_sodium None] authz_sample_valid
  by (simp add: eval_nat_numeral)

text \<open>A credential reference is attributed to a record exactly when it is the only record with
  that reference, it belongs to the expected peer and it grants exactly the presented context; a
  reference that occurs twice is refused as ambiguous whatever the records say.\<close>

theorem attribution_exact:
  assumes "\<forall>r\<in>set rs. record_wf r" and "length cref = 32" and "length peer = 32" and "authz_wf c"
  shows "(auth_v3_iot_core_attribution_resolve (Some rs) (length rs) (Some cref) (Some peer) (Some c) = Ret i \<longleftrightarrow>
      i < length rs \<and> ar_credential_reference (rs ! i) = cref \<and>
      (\<forall>j<length rs. ar_credential_reference (rs ! j) = cref \<longrightarrow> j = i) \<and>
      ar_peer_identity (rs ! i) = peer \<and> record_grants (rs ! i) c) \<and>
     (j < k \<and> k < length rs \<and> ar_credential_reference (rs ! j) = cref \<and> ar_credential_reference (rs ! k) = cref \<longrightarrow>
      auth_v3_iot_core_attribution_resolve (Some rs) (length rs) (Some cref) (Some peer) (Some c) =
        Fail AUTH_V3_IOT_CORE_ATTRIBUTION_AMBIGUOUS_REFERENCE)"
proof (intro conjI impI)
  note eq = resolve_eq [OF assms]
  show "auth_v3_iot_core_attribution_resolve (Some rs) (length rs) (Some cref) (Some peer) (Some c) = Ret i \<longleftrightarrow>
      i < length rs \<and> ar_credential_reference (rs ! i) = cref \<and>
      (\<forall>j<length rs. ar_credential_reference (rs ! j) = cref \<longrightarrow> j = i) \<and>
      ar_peer_identity (rs ! i) = peer \<and> record_grants (rs ! i) c"
    by (simp only: resolve_Ret_iff [OF assms] positions_one_iff conj_assoc)
  assume jk: "j < k \<and> k < length rs \<and> ar_credential_reference (rs ! j) = cref \<and> ar_credential_reference (rs ! k) = cref"
  then have "j \<in> set (positions rs cref (length rs))" and "k \<in> set (positions rs cref (length rs))"
    by (simp_all add: positions_def)
  then obtain a b xs where "positions rs cref (length rs) = a # b # xs"
    using jk by (metis empty_iff list.exhaust list.set(1) nat_less_le set_ConsD)
  then show "auth_v3_iot_core_attribution_resolve (Some rs) (length rs) (Some cref) (Some peer) (Some c) =
      Fail AUTH_V3_IOT_CORE_ATTRIBUTION_AMBIGUOUS_REFERENCE"
    by (simp add: eq)
qed

definition record_sample :: "byte \<Rightarrow> auth_v3_iot_core_attribution_record_v1" where
  "record_sample x =
     \<lparr>ar_credential_reference = replicate 32 x, ar_peer_identity = replicate 32 9,
      ar_holder_binding = replicate 32 1, ar_audience_id = replicate 32 2, ar_role_policy_id = 3,
      ar_scope_bits = 1, ar_authorization_generation = 4, ar_policy_epoch = 5, ar_revocation_epoch = 6\<rparr>"

theorem attribution_exact_witness:
  "auth_v3_iot_core_attribution_resolve (Some [record_sample 7, record_sample 8, record_sample 7]) 3
     (Some (replicate 32 8)) (Some (replicate 32 9)) (Some authz_sample) = Ret 1 \<and>
   auth_v3_iot_core_attribution_resolve (Some [record_sample 7, record_sample 8, record_sample 7]) 3
     (Some (replicate 32 7)) (Some (replicate 32 9)) (Some authz_sample) =
     Fail AUTH_V3_IOT_CORE_ATTRIBUTION_AMBIGUOUS_REFERENCE"
proof -
  let ?rs = "[record_sample 7, record_sample 8, record_sample 7]"
  have wf: "\<forall>r\<in>set ?rs. record_wf r" "authz_wf authz_sample"
    by (simp_all add: record_wf_def record_sample_def authz_wf_def authz_sample_def)
  have three: "(\<forall>j<Suc (Suc (Suc 0)). P j) \<longleftrightarrow> P 0 \<and> P (Suc 0) \<and> P (Suc (Suc 0))" for P
    by (auto simp: less_Suc_eq)
  have "auth_v3_iot_core_attribution_resolve (Some ?rs) (length ?rs) (Some (replicate 32 8)) (Some (replicate 32 9))
      (Some authz_sample) = Ret 1"
    by (rule attribution_exact [OF wf(1) _ _ wf(2), THEN conjunct1, THEN iffD2])
      (simp_all add: three record_sample_def record_grants_def authz_sample_def)
  moreover have "auth_v3_iot_core_attribution_resolve (Some ?rs) (length ?rs) (Some (replicate 32 7))
      (Some (replicate 32 9)) (Some authz_sample) = Fail AUTH_V3_IOT_CORE_ATTRIBUTION_AMBIGUOUS_REFERENCE"
    by (rule attribution_exact [of ?rs "replicate 32 7" "replicate 32 9" authz_sample 1 0 2,
          OF wf(1) _ _ wf(2), THEN conjunct2, THEN mp])
      (simp_all add: record_sample_def)
  ultimately show ?thesis by (simp add: numeral_3_eq_3)
qed

end
