(* ===== verification/AuthV3.thy ===== *)
theory AuthV3
  imports Proofs
begin

text \<open>
  \<^verbatim>\<open>c/src/proto/auth_v3.c\<close>: the draft version 3 key-confirmation transcript, its hash, the three
  purpose-separated keys and the completion tag. The file has its own bounded writer; the
  properties relate it to the transcript format of \<^verbatim>\<open>transcript.c\<close> and show that its fixed
  buffer is large enough.
\<close>

abbreviation (input) AUTH_V3_TRANSCRIPT_MAX :: nat where "AUTH_V3_TRANSCRIPT_MAX \<equiv> 768"

definition KC_V3_DOMAIN :: "byte list" where "KC_V3_DOMAIN = ascii ''zk-arche/kc/v3''"
definition COMPLETE_DOMAIN :: "byte list" where "COMPLETE_DOMAIN = ascii ''zk-arche/auth-complete/v3''"
definition INFO_S2C :: "byte list" where "INFO_S2C = ascii ''kc s2c v3''"
definition INFO_C2S :: "byte list" where "INFO_C2S = ascii ''kc c2s v3''"
definition INFO_COMPLETE :: "byte list" where "INFO_COMPLETE = ascii ''kc complete s2c v3''"
definition SERVER_COMPLETE :: "byte list" where "SERVER_COMPLETE = ascii ''server complete v3''"

lemmas v3_labels = KC_V3_DOMAIN_def COMPLETE_DOMAIN_def INFO_S2C_def INFO_C2S_def INFO_COMPLETE_def
  SERVER_COMPLETE_def

record auth_v3_context =
  v3_protocol_version :: byte
  v3_suite_id :: u16
  v3_profile_id :: u16
  v3_selected_capabilities :: u64
  v3_session_id :: "byte list"
  v3_authz_context_hash :: "byte list"
  v3_critical_extensions_hash :: "byte list"
  v3_channel_binding_hash :: "byte list"

record auth_v3_transcript_parts =
  v3_context :: "auth_v3_context option"
  v3_pid :: "byte list option"
  v3_a_c :: "byte list option"
  v3_s_c :: "byte list option"
  v3_nonce_c :: "byte list option"
  v3_eph_c :: "byte list option"
  v3_server_pub :: "byte list option"
  v3_a_s :: "byte list option"
  v3_s_s :: "byte list option"
  v3_nonce_s :: "byte list option"
  v3_eph_s :: "byte list option"

subsection \<open>The bounded writer\<close>

definition put_u16_le :: "u16 \<Rightarrow> byte list" where
  "put_u16_le v = [ucast v, ucast (drop_bit 8 v)]"

definition put_u64_le :: "u64 \<Rightarrow> byte list" where
  "put_u64_le v = foldl (\<lambda>out i. out[i := ucast (drop_bit (8 * i) v)]) (replicate 8 0) [0..<8]"

definition v3_append_bytes ::
    "cursor \<Rightarrow> byte list option \<Rightarrow> nat \<Rightarrow> (auth_err, cursor) cres" where
  "v3_append_bytes c val value_len =
     (let (out, offset) = c in
      case val of
        None \<Rightarrow> Fail AUTH_ERR_INVALID_ARGUMENT
      | Some val \<Rightarrow>
          if offset > length out \<or> value_len > length out - offset then Fail AUTH_ERR_BUFFER_TOO_SMALL
          else bnd (wrn out offset val value_len) (\<lambda>out. Ret (out, offset + value_len)))"

text \<open>A label is a C string: the list of its bytes before the final zero.\<close>

definition v3_append_field ::
    "cursor \<Rightarrow> byte list option \<Rightarrow> byte list option \<Rightarrow> nat \<Rightarrow> (auth_err, cursor) cres" where
  "v3_append_field c label val value_len =
     (if label = None \<or> val = None then Fail AUTH_ERR_INVALID_ARGUMENT
      else
        let label_len = length (the label) in
        if label_len > 255 \<or> value_len > 0xFFFFFFFF then Fail AUTH_ERR_INVALID_ARGUMENT
        else
          let value_len_u32 = (of_nat value_len :: u32);
              value_len_le = [ucast value_len_u32, ucast (drop_bit 8 value_len_u32),
                              ucast (drop_bit 16 value_len_u32), ucast (drop_bit 24 value_len_u32)]
          in
          bnd (v3_append_bytes c (Some [of_nat label_len]) 1) (\<lambda>c.
          bnd (v3_append_bytes c label label_len) (\<lambda>c.
          bnd (v3_append_bytes c (Some value_len_le) 4) (\<lambda>c.
          v3_append_bytes c val value_len))))"

subsection \<open>The transcript\<close>

definition parts_valid :: "auth_v3_transcript_parts option \<Rightarrow> bool" where
  "parts_valid parts =
     (case parts of
        None \<Rightarrow> False
      | Some p \<Rightarrow>
          v3_context p \<noteq> None \<and> v3_pid p \<noteq> None \<and> v3_a_c p \<noteq> None \<and> v3_s_c p \<noteq> None \<and> v3_nonce_c p \<noteq> None \<and>
          v3_eph_c p \<noteq> None \<and> v3_server_pub p \<noteq> None \<and> v3_a_s p \<noteq> None \<and> v3_s_s p \<noteq> None \<and>
          v3_nonce_s p \<noteq> None \<and> v3_eph_s p \<noteq> None)"

text \<open>The sequence of \<^verbatim>\<open>APPEND_FIELD(label, value, len)\<close>.\<close>

definition kc_v3_fields ::
    "auth_v3_context \<Rightarrow> auth_v3_transcript_parts \<Rightarrow> (byte list \<times> byte list option \<times> nat) list" where
  "kc_v3_fields c p =
     [(ascii ''protocol_version'', Some [v3_protocol_version c], 1),
      (ascii ''suite_id'', Some (put_u16_le (v3_suite_id c)), 2),
      (ascii ''profile_id'', Some (put_u16_le (v3_profile_id c)), 2),
      (ascii ''selected_capabilities'', Some (put_u64_le (v3_selected_capabilities c)), 8),
      (ascii ''session_id'', Some (v3_session_id c), AUTH_SESSION_ID_LEN),
      (ascii ''authz_context_hash'', Some (v3_authz_context_hash c), 32),
      (ascii ''critical_extensions_hash'', Some (v3_critical_extensions_hash c), 32),
      (ascii ''channel_binding_hash'', Some (v3_channel_binding_hash c), 32),
      (ascii ''pid'', v3_pid p, 32),
      (ascii ''a_c'', v3_a_c p, 32),
      (ascii ''s_c'', v3_s_c p, 32),
      (ascii ''nonce_c'', v3_nonce_c p, 32),
      (ascii ''eph_c'', v3_eph_c p, 32),
      (ascii ''server_pub'', v3_server_pub p, 32),
      (ascii ''a_s'', v3_a_s p, 32),
      (ascii ''s_s'', v3_s_s p, 32),
      (ascii ''nonce_s'', v3_nonce_s p, 32),
      (ascii ''eph_s'', v3_eph_s p, 32)]"

definition auth_v3_build_kc_transcript ::
    "byte list option \<Rightarrow> auth_v3_transcript_parts option \<Rightarrow> (auth_err, cursor) cres" where
  "auth_v3_build_kc_transcript out parts =
     (if out = None \<or> \<not> parts_valid parts then Fail AUTH_ERR_INVALID_ARGUMENT
      else if length KC_V3_DOMAIN > 255 then Fail AUTH_ERR_INVALID_ARGUMENT
      else
        let p = the parts; c = the (v3_context p) in
        bnd (v3_append_bytes (the out, 0) (Some [of_nat (length KC_V3_DOMAIN)]) 1) (\<lambda>cr.
        bnd (v3_append_bytes cr (Some KC_V3_DOMAIN) (length KC_V3_DOMAIN)) (\<lambda>cr.
        loop (\<lambda>(label, val, len) cr. v3_append_field cr (Some label) val len) (kc_v3_fields c p) cr)))"

definition auth_v3_kc_transcript_hash ::
    "sodium \<Rightarrow> auth_v3_transcript_parts option \<Rightarrow> (auth_err, byte list) cres" where
  "auth_v3_kc_transcript_hash S parts =
     (if \<not> parts_valid parts then Fail AUTH_ERR_INVALID_ARGUMENT
      else
        bnd (auth_v3_build_kc_transcript (Some (replicate AUTH_V3_TRANSCRIPT_MAX 0)) parts)
          (\<lambda>(transcript, transcript_len).
        bnd (rdn transcript 0 transcript_len) (\<lambda>bytes. Ret (sd_sha256 S bytes))))"

subsection \<open>Keys and tags\<close>

definition auth_v3_derive_kc_keys ::
    "sodium \<Rightarrow> byte list option \<Rightarrow> byte list option \<Rightarrow>
     (auth_err, byte list \<times> byte list \<times> byte list) cres" where
  "auth_v3_derive_kc_keys S session_key th_v3 =
     (if session_key = None \<or> th_v3 = None then Fail AUTH_ERR_INVALID_ARGUMENT
      else
        bnd (auth_hkdf_sha256 S (Some (replicate 32 0)) th_v3 32 session_key 32
               (Some INFO_S2C) (length INFO_S2C)) (\<lambda>k_s2c.
        bnd (auth_hkdf_sha256 S (Some (replicate 32 0)) th_v3 32 session_key 32
               (Some INFO_C2S) (length INFO_C2S)) (\<lambda>k_c2s.
        bnd (auth_hkdf_sha256 S (Some (replicate 32 0)) th_v3 32 session_key 32
               (Some INFO_COMPLETE) (length INFO_COMPLETE)) (\<lambda>k_complete.
        Ret (k_s2c, k_c2s, k_complete)))))"

definition auth_v3_finished_tag :: "sodium \<Rightarrow> byte list \<Rightarrow> byte list \<Rightarrow> byte list \<Rightarrow> byte list" where
  "auth_v3_finished_tag S key label th_v3 = auth_hmac_tag S key label th_v3"

definition auth_v3_completion_hash ::
    "sodium \<Rightarrow> byte list option \<Rightarrow> byte list option \<Rightarrow> (auth_err, byte list) cres" where
  "auth_v3_completion_hash S th_v3 tag_c =
     (if th_v3 = None \<or> tag_c = None then Fail AUTH_ERR_INVALID_ARGUMENT
      else
        bnd (rdn (the th_v3) 0 32) (\<lambda>th.
        bnd (rdn (the tag_c) 0 32) (\<lambda>tag.
        Ret (sd_sha256 S (COMPLETE_DOMAIN @ th @ tag)))))"

definition auth_v3_completion_tag :: "sodium \<Rightarrow> byte list \<Rightarrow> byte list \<Rightarrow> byte list" where
  "auth_v3_completion_tag S k_complete completion_hash =
     auth_hmac_tag S k_complete SERVER_COMPLETE completion_hash"

subsection \<open>The writer produces transcript items\<close>

lemma put_u64_le_bytes: "put_u64_le v = le_bytes 8 v"
  by (simp add: put_u64_le_def le_bytes_def upt_rec numeral_eq_Suc)

lemma put_u16_le_bytes: "put_u16_le v = le_bytes 2 v"
  by (simp add: put_u16_le_def le_bytes_2)

text \<open>Appending to what has been written so far: the bytes are there, or they do not fit.\<close>

definition appended :: "byte list \<Rightarrow> byte list \<Rightarrow> (auth_err, cursor) cres" where
  "appended out bs = (if length bs \<le> length out then Ret (cur out bs) else Fail AUTH_ERR_BUFFER_TOO_SMALL)"

lemma v3_append_bytes_appended:
  "n = length b \<Longrightarrow> bnd (appended out pre) (\<lambda>c. v3_append_bytes c (Some b) n) = appended out (pre @ b)"
  by (auto simp: appended_def v3_append_bytes_def cur_def wrn_def add.commute)

lemma le_bytes_u32_u64:
  assumes "n \<le> 0xFFFFFFFF"
  shows "le_bytes 4 (of_nat n :: u32) = le_bytes 4 (of_nat n :: u64)"
proof -
  have "unat (of_nat n :: u32) = n" "unat (of_nat n :: u64) = n"
    using assms by (simp_all add: unat_of_nat)
  then have "(of_nat n :: u64) = ucast (of_nat n :: u32)" by (simp add: unsigned_of_nat take_bit_eq_mod)
  then show ?thesis
    by (simp add: le_bytes_4) (auto simp: bit_simps intro!: bit_word_eqI)
qed

lemma v3_append_field_appended:
  assumes "length l \<le> 255" and "length m \<le> 0xFFFFFFFF" and "n = length m"
  shows "bnd (appended out pre) (\<lambda>c. v3_append_field c (Some l) (Some m) n) = appended out (pre @ tr_item l m)"
proof -
  let ?w = "of_nat (length m) :: u32"
  let ?len = "[ucast ?w, ucast (drop_bit 8 ?w), ucast (drop_bit 16 ?w), ucast (drop_bit 24 ?w)] :: byte list"
  have len: "?len = le_bytes 4 (of_nat (length m) :: u64)"
    using le_bytes_u32_u64 [OF assms(2)] by (simp add: le_bytes_4)
  have "bnd (appended out pre) (\<lambda>c. v3_append_field c (Some l) (Some m) n) =
      bnd (bnd (bnd (bnd (appended out pre) (\<lambda>c. v3_append_bytes c (Some [of_nat (length l)]) 1))
        (\<lambda>c. v3_append_bytes c (Some l) (length l))) (\<lambda>c. v3_append_bytes c (Some ?len) 4))
        (\<lambda>c. v3_append_bytes c (Some m) (length m))"
    using assms by (simp add: v3_append_field_def bnd_assoc Let_def)
  also have "\<dots> = appended out (pre @ tr_item l m)"
    by (simp add: v3_append_bytes_appended tr_item_def len [symmetric])
  finally show ?thesis .
qed

lemma loop_Cons_fun: "loop f (x # xs) = (\<lambda>s. bnd (f x s) (loop f xs))"
  by (rule ext) simp

lemma loop_Nil_fun: "loop f [] = Ret"
  by (rule ext) simp

lemma v3_fields_appended:
  assumes "list_all2 (\<lambda>(l, v, n) (l', m). l = l' \<and> v = Some m \<and> n = length m) fs items" and "tr_items_ok items"
  shows "bnd (appended out pre) (loop (\<lambda>(label, val, len) c. v3_append_field c (Some label) val len) fs) =
     appended out (pre @ concat (map (\<lambda>(l, m). tr_item l m) items))"
  using assms
proof (induction fs items arbitrary: pre rule: list_all2_induct)
  case (Cons f fs item items)
  obtain l m where f: "f = (l, Some m, length m)" "item = (l, m)" using Cons.hyps(1) by (cases f; cases item) auto
  have ok: "length l \<le> 255" "length m \<le> 0xFFFFFFFF" "tr_items_ok items"
    using Cons.prems by (simp_all add: f tr_items_ok_def)
  have "bnd (appended out pre) (loop (\<lambda>(label, val, len) c. v3_append_field c (Some label) val len) (f # fs)) =
      bnd (bnd (appended out pre) (\<lambda>c. v3_append_field c (Some l) (Some m) (length m)))
        (loop (\<lambda>(label, val, len) c. v3_append_field c (Some label) val len) fs)"
    by (simp add: f bnd_assoc loop_Cons_fun)
  then show ?case
    by (simp add: v3_append_field_appended [OF ok(1,2)] Cons.IH [OF ok(3)] f loop_Cons_fun)
qed (simp add: loop_Nil_fun)

subsection \<open>What the transcript holds\<close>

definition wf_v3_parts :: "auth_v3_context \<Rightarrow> auth_v3_transcript_parts \<Rightarrow> bool" where
  [wf_defs]: "wf_v3_parts c p \<longleftrightarrow>
     length (v3_session_id c) = 16 \<and> length (v3_authz_context_hash c) = 32 \<and>
     length (v3_critical_extensions_hash c) = 32 \<and> length (v3_channel_binding_hash c) = 32 \<and>
     v3_context p = Some c \<and>
     list_all (\<lambda>v. \<exists>b. v = Some b \<and> length b = 32)
       [v3_pid p, v3_a_c p, v3_s_c p, v3_nonce_c p, v3_eph_c p, v3_server_pub p, v3_a_s p, v3_s_s p,
        v3_nonce_s p, v3_eph_s p]"

definition kc_v3_items :: "auth_v3_context \<Rightarrow> auth_v3_transcript_parts \<Rightarrow> (byte list \<times> byte list) list" where
  "kc_v3_items c p = map (\<lambda>(l, v, n). (l, the v)) (kc_v3_fields c p)"

lemma kc_v3_fields_items:
  assumes "wf_v3_parts c p"
  shows "list_all2 (\<lambda>(l, v, n) (l', m). l = l' \<and> v = Some m \<and> n = length m) (kc_v3_fields c p) (kc_v3_items c p)"
    and "tr_items_ok (kc_v3_items c p)" and "length (tr_encode KC_V3_DOMAIN (kc_v3_items c p)) = 726"
  using assms
  by (auto simp: kc_v3_items_def kc_v3_fields_def wf_v3_parts_def put_u16_le_bytes put_u64_le_bytes
      tr_items_ok_def tr_encode_def tr_item_def v3_labels)

lemma build_kc_v3:
  assumes "wf_v3_parts c p"
  shows "auth_v3_build_kc_transcript (Some out) (Some p) = appended out (tr_encode KC_V3_DOMAIN (kc_v3_items c p))"
proof -
  let ?d = "[of_nat (length KC_V3_DOMAIN)] :: byte list"
  have start: "Ret (out, 0) = appended out []" by (simp add: appended_def cur_def)
  have "auth_v3_build_kc_transcript (Some out) (Some p) =
      bnd (bnd (bnd (appended out []) (\<lambda>c. v3_append_bytes c (Some ?d) 1))
        (\<lambda>c. v3_append_bytes c (Some KC_V3_DOMAIN) (length KC_V3_DOMAIN)))
        (loop (\<lambda>(label, val, len) c. v3_append_field c (Some label) val len) (kc_v3_fields c p))"
    using assms
    by (auto simp: auth_v3_build_kc_transcript_def parts_valid_def wf_v3_parts_def v3_labels bnd_assoc
        start [symmetric] Let_def)
  also have "\<dots> = appended out (tr_encode KC_V3_DOMAIN (kc_v3_items c p))"
    by (simp add: v3_append_bytes_appended v3_fields_appended [OF kc_v3_fields_items(1,2) [OF assms]]
        tr_encode_def)
  finally show ?thesis .
qed

lemma kc_v3_hash_eq:
  assumes "wf_v3_parts c p"
  shows "auth_v3_kc_transcript_hash S (Some p) = Ret (sd_sha256 S (tr_encode KC_V3_DOMAIN (kc_v3_items c p)))"
proof -
  have "parts_valid (Some p)" using assms by (auto simp: parts_valid_def wf_v3_parts_def)
  then show ?thesis
    by (simp add: auth_v3_kc_transcript_hash_def build_kc_v3 [OF assms] appended_def
        kc_v3_fields_items(3) [OF assms] cur_def rdn_def)
qed

text \<open>The transcript engine of \<^verbatim>\<open>transcript.c\<close> run on the same labelled values.\<close>

fun tr_appends ::
    "(byte list \<times> byte list) list \<Rightarrow> auth_transcript \<Rightarrow> (auth_transcript \<Rightarrow> (auth_err, 'a) cres) \<Rightarrow> (auth_err, 'a) cres" where
  "tr_appends [] t k = k t"
| "tr_appends ((l, m) # items) t k =
     tr_then (auth_transcript_append t (Some l) (length l) (Some m) (length m)) (\<lambda>t. tr_appends items t k)"

definition transcript_hash :: "sodium \<Rightarrow> byte list \<Rightarrow> (byte list \<times> byte list) list \<Rightarrow> (auth_err, byte list) cres" where
  "transcript_hash S domain items =
     tr_then (auth_transcript_init tr_fresh (Some domain) (length domain)) (\<lambda>t.
     tr_appends items t (auth_transcript_hash_sha256 S))"

lemma tr_appends_of:
  assumes "list_all (\<lambda>(l, m). length l \<le> 255 \<and> length m \<le> 4000) items" and "length (tr_encode d (is @ items)) \<le> 4096"
  shows "tr_appends items (tr_of (replicate 4096 0) (tr_encode d is)) k =
     k (tr_of (replicate 4096 0) (tr_encode d (is @ items)))"
  using assms
proof (induction items arbitrary: "is")
  case (Cons i items)
  obtain l m where i: "i = (l, m)" by (cases i)
  have "length (tr_encode d (is @ [(l, m)])) \<le> 4096"
    using Cons.prems(2) by (simp add: i length_tr_encode)
  then show ?case using Cons.IH [of "is @ [(l, m)]"] Cons.prems
    by (simp add: i tr_then_append)
qed simp

lemma transcript_hash_eq:
  assumes "list_all (\<lambda>(l, m). length l \<le> 255 \<and> length m \<le> 4000) items" and "length d \<le> 255"
    and "length (tr_encode d items) \<le> 4096"
  shows "transcript_hash S d items = Ret (sd_sha256 S (tr_encode d items))"
  using assms
  by (simp add: transcript_hash_def tr_then_init hash_of tr_appends_of [of items d "[]", simplified])

text \<open>C30: the version 3 confirmation hash, computed by its own bounded writer in a 768-byte
  buffer, is the hash the transcript engine of version 2 computes of the same eighteen labelled
  values under the version 3 domain: for complete parts it always succeeds, because the
  transcript is exactly 726 bytes long; a caller's buffer of 726 bytes or more receives it, and a
  shorter one is refused.\<close>

theorem v3_transcript_equiv:
  assumes "wf_v3_parts c p"
  shows "auth_v3_kc_transcript_hash S (Some p) = transcript_hash S KC_V3_DOMAIN (kc_v3_items c p) \<and>
     (\<exists>h. auth_v3_kc_transcript_hash S (Some p) = Ret h) \<and>
     (if length out < 726 then auth_v3_build_kc_transcript (Some out) (Some p) = Fail AUTH_ERR_BUFFER_TOO_SMALL
      else \<exists>bs. auth_v3_build_kc_transcript (Some out) (Some p) = Ret (bs @ drop 726 out, 726) \<and>
                length bs = 726 \<and> auth_v3_kc_transcript_hash S (Some p) = Ret (sd_sha256 S bs))"
proof -
  note len = kc_v3_fields_items(3) [OF assms]
  have "list_all (\<lambda>(l, m). length l \<le> 255 \<and> length m \<le> 4000) (kc_v3_items c p)"
    using assms by (auto simp: kc_v3_items_def kc_v3_fields_def wf_v3_parts_def put_u16_le_bytes put_u64_le_bytes)
  then have "transcript_hash S KC_V3_DOMAIN (kc_v3_items c p) = Ret (sd_sha256 S (tr_encode KC_V3_DOMAIN (kc_v3_items c p)))"
    by (rule transcript_hash_eq) (simp_all add: len, simp add: v3_labels)
  then show ?thesis
    by (auto simp: kc_v3_hash_eq [OF assms] build_kc_v3 [OF assms] appended_def len cur_def)
qed

definition v3_context_sample :: auth_v3_context where
  "v3_context_sample =
     \<lparr>v3_protocol_version = 3, v3_suite_id = 1, v3_profile_id = 2, v3_selected_capabilities = 7,
      v3_session_id = replicate 16 9, v3_authz_context_hash = replicate 32 1,
      v3_critical_extensions_hash = replicate 32 2, v3_channel_binding_hash = replicate 32 3\<rparr>"

definition v3_parts_sample :: "auth_v3_context \<Rightarrow> auth_v3_transcript_parts" where
  "v3_parts_sample c =
     \<lparr>v3_context = Some c, v3_pid = Some (replicate 32 4), v3_a_c = Some (replicate 32 5),
      v3_s_c = Some (replicate 32 6), v3_nonce_c = Some (replicate 32 7), v3_eph_c = Some (replicate 32 8),
      v3_server_pub = Some (replicate 32 9), v3_a_s = Some (replicate 32 10), v3_s_s = Some (replicate 32 11),
      v3_nonce_s = Some (replicate 32 12), v3_eph_s = Some (replicate 32 13)\<rparr>"

lemma wf_v3_sample:
  "length (v3_session_id c) = 16 \<Longrightarrow> length (v3_authz_context_hash c) = 32 \<Longrightarrow>
   length (v3_critical_extensions_hash c) = 32 \<Longrightarrow> length (v3_channel_binding_hash c) = 32 \<Longrightarrow>
   wf_v3_parts c (v3_parts_sample c)"
  by (simp add: wf_v3_parts_def v3_parts_sample_def)

theorem v3_transcript_equiv_witness:
  "\<exists>h. auth_v3_kc_transcript_hash toy_sodium (Some (v3_parts_sample v3_context_sample)) = Ret h"
proof -
  have "wf_v3_parts v3_context_sample (v3_parts_sample v3_context_sample)"
    by (rule wf_v3_sample) (simp_all add: v3_context_sample_def)
  from v3_transcript_equiv [OF this, of toy_sodium "[]"] show ?thesis by blast
qed

subsection \<open>Binding\<close>

lemma kc_v3_items_inject:
  assumes "wf_v3_parts c p" and "wf_v3_parts c' p'" and "kc_v3_items c p = kc_v3_items c' p'"
  shows "c = c' \<and> p = p'"
proof -
  have ctx: "v3_protocol_version c = v3_protocol_version c'" "le_bytes 2 (v3_suite_id c) = le_bytes 2 (v3_suite_id c')"
      "le_bytes 2 (v3_profile_id c) = le_bytes 2 (v3_profile_id c')"
      "le_bytes 8 (v3_selected_capabilities c) = le_bytes 8 (v3_selected_capabilities c')"
    and rest: "v3_session_id c = v3_session_id c'" "v3_authz_context_hash c = v3_authz_context_hash c'"
      "v3_critical_extensions_hash c = v3_critical_extensions_hash c'"
      "v3_channel_binding_hash c = v3_channel_binding_hash c'"
    using assms(3) by (simp_all add: kc_v3_items_def kc_v3_fields_def put_u16_le_bytes put_u64_le_bytes)
  then have "c = c'" by (simp add: le_bytes_inj)
  moreover have "p = p'"
    using assms \<open>c = c'\<close> by (auto simp: kc_v3_items_def kc_v3_fields_def wf_v3_parts_def)
  ultimately show ?thesis by simp
qed

text \<open>Peers that confirm the same version 3 hash (of a hash without a collision on the two
  inputs) agree on everything that was negotiated and exchanged: version, suite, profile,
  capabilities, session, the authorization, extension and channel-binding digests, and both
  sides' proofs, nonces and ephemeral keys.\<close>

theorem v3_transcript_binds:
  assumes "wf_v3_parts c p" and "wf_v3_parts c' p'"
    and "inj_on (sd_sha256 S) {tr_encode KC_V3_DOMAIN (kc_v3_items c p), tr_encode KC_V3_DOMAIN (kc_v3_items c' p')}"
  shows "auth_v3_kc_transcript_hash S (Some p) = auth_v3_kc_transcript_hash S (Some p') \<longleftrightarrow> p = p'"
proof
  assume "auth_v3_kc_transcript_hash S (Some p) = auth_v3_kc_transcript_hash S (Some p')"
  then have "tr_encode KC_V3_DOMAIN (kc_v3_items c p) = tr_encode KC_V3_DOMAIN (kc_v3_items c' p')"
    using assms(3) by (simp add: kc_v3_hash_eq [OF assms(1)] kc_v3_hash_eq [OF assms(2)] inj_on_eq_iff)
  then have "kc_v3_items c p = kc_v3_items c' p'"
    by (subst (asm) tr_encode_inject)
      (simp_all add: v3_labels kc_v3_fields_items(2) [OF assms(1)] kc_v3_fields_items(2) [OF assms(2)])
  then show "p = p'" using kc_v3_items_inject [OF assms(1,2)] by simp
qed simp

theorem v3_transcript_binds_witness:
  "auth_v3_kc_transcript_hash (toy_sodium\<lparr>sd_sha256 := id\<rparr>) (Some (v3_parts_sample v3_context_sample)) \<noteq>
   auth_v3_kc_transcript_hash (toy_sodium\<lparr>sd_sha256 := id\<rparr>)
     (Some (v3_parts_sample (v3_context_sample\<lparr>v3_suite_id := 2\<rparr>)))"
proof -
  let ?c = "v3_context_sample" and ?d = "v3_context_sample\<lparr>v3_suite_id := 2\<rparr>"
  have wf: "wf_v3_parts ?c (v3_parts_sample ?c)" "wf_v3_parts ?d (v3_parts_sample ?d)"
    by (rule wf_v3_sample; simp add: v3_context_sample_def)+
  show ?thesis
    using v3_transcript_binds [OF wf, of "toy_sodium\<lparr>sd_sha256 := id\<rparr>"]
    by (simp add: v3_parts_sample_def v3_context_sample_def)
qed

subsection \<open>Keys and completion\<close>

lemma v3_kc_keys_eq:
  assumes "digest_lengths S" and "length session_key = 32" and "length th = 32"
  shows "auth_v3_derive_kc_keys S (Some session_key) (Some th) =
    Ret (rfc5869 S th session_key INFO_S2C 32, rfc5869 S th session_key INFO_C2S 32,
         rfc5869 S th session_key INFO_COMPLETE 32)"
proof -
  have th: "th \<noteq> []" using assms(3) by (metis list.size(3) zero_neq_numeral)
  have "auth_hkdf_sha256 S (Some (replicate 32 0)) (Some th) 32 (Some session_key) 32 (Some info) (length info) =
      Ret (rfc5869 S th session_key info 32)" if "info \<noteq> []" for info
    using hkdf_rfc5869 [OF assms(1), of "replicate 32 0" th session_key info] th assms that by simp
  moreover have "INFO_S2C \<noteq> []" "INFO_C2S \<noteq> []" "INFO_COMPLETE \<noteq> []"
    by (simp_all add: v3_labels ascii_def)
  ultimately show ?thesis by (simp add: auth_v3_derive_kc_keys_def)
qed

lemma v3_completion_binds:
  assumes "length th = 32" "length tag = 32" "length th' = 32" "length tag' = 32"
    and "inj_on (sd_sha256 S) {COMPLETE_DOMAIN @ th @ tag, COMPLETE_DOMAIN @ th' @ tag'}"
  shows "auth_v3_completion_hash S (Some th) (Some tag) = auth_v3_completion_hash S (Some th') (Some tag') \<longleftrightarrow>
     th = th' \<and> tag = tag'"
  using assms by (auto simp: auth_v3_completion_hash_def rdn_def inj_on_eq_iff)

end
