(* ===== verification/LineageCommit.thy ===== *)
theory LineageCommit
  imports Lineage V3Authz AuthV3
begin

text \<open>
  The evidence side of \<^verbatim>\<open>c/src/proto/lineage_replace*.c\<close>: the binding of a replacement request to
  an authenticated session, proofs of possession of the two keys, the authorization derived from
  the IoT core context and its attribution record, and the composition of all gates with the
  storage transaction. \<^verbatim>\<open>memcmp\<close> of two fixed arrays of a struct is equality of the lists.
\<close>

subsection \<open>Authorization facts: \<^verbatim>\<open>lineage_replace_authorization.c\<close>\<close>

record lineage_replace_authorization_facts =
  zf_current_credential_control_valid :: bool
  zf_successor_key_control_valid :: bool
  zf_current_session_authenticated :: bool
  zf_current_session_authorized :: bool
  zf_current_context_bound :: bool
  zf_predecessor_binding_current :: bool
  zf_successor_scope_within_authorized_scope :: bool

definition lineage_replace_classify_authorization ::
    "lineage_replace_authorization_facts option \<Rightarrow> lineage_replace_authorization_decision" where
  "lineage_replace_classify_authorization facts =
     (case facts of
        None \<Rightarrow> LINEAGE_REPLACE_REJECT_CURRENT_CREDENTIAL_CONTROL
      | Some f \<Rightarrow>
          if \<not> zf_current_credential_control_valid f then LINEAGE_REPLACE_REJECT_CURRENT_CREDENTIAL_CONTROL
          else if \<not> zf_successor_key_control_valid f then LINEAGE_REPLACE_REJECT_SUCCESSOR_KEY_CONTROL
          else if \<not> zf_current_session_authenticated f then LINEAGE_REPLACE_REJECT_SESSION_AUTHENTICATION
          else if \<not> zf_current_session_authorized f then LINEAGE_REPLACE_REJECT_SESSION_AUTHORIZATION
          else if \<not> zf_current_context_bound f then LINEAGE_REPLACE_REJECT_CONTEXT_BINDING
          else if \<not> zf_predecessor_binding_current f then LINEAGE_REPLACE_REJECT_PREDECESSOR_BINDING
          else if \<not> zf_successor_scope_within_authorized_scope f
          then LINEAGE_REPLACE_REJECT_PRIVILEGE_EXPANSION
          else LINEAGE_REPLACE_AUTHORIZED_REPLACEMENT)"

subsection \<open>Session binding: \<^verbatim>\<open>lineage_replace_session_binding.c\<close>\<close>

datatype lineage_replace_session_binding_decision =
    LINEAGE_REPLACE_SESSION_BOUND
  | LINEAGE_REPLACE_SESSION_REJECT_COMPLETION
  | LINEAGE_REPLACE_SESSION_REJECT_VERSION
  | LINEAGE_REPLACE_SESSION_REJECT_SUITE
  | LINEAGE_REPLACE_SESSION_REJECT_PROFILE
  | LINEAGE_REPLACE_SESSION_REJECT_SESSION_ID
  | LINEAGE_REPLACE_SESSION_REJECT_AUTHZ_CONTEXT
  | LINEAGE_REPLACE_SESSION_REJECT_CHANNEL_BINDING

record lineage_replace_session_binding_expectation =
  sx_auth_completion_verified :: bool
  sx_expected_protocol_version :: byte
  sx_expected_suite_id :: u16
  sx_expected_profile_id :: u16
  sx_expected_session_id :: "byte list"
  sx_expected_authz_context_hash :: "byte list"
  sx_expected_channel_binding_hash :: "byte list"

definition lineage_replace_classify_session_binding ::
    "auth_v3_context option \<Rightarrow> lineage_replace_session_binding_expectation option \<Rightarrow>
     lineage_replace_session_binding_decision" where
  "lineage_replace_classify_session_binding ctx expectation =
     (case (ctx, expectation) of
        (Some c, Some x) \<Rightarrow>
          if \<not> sx_auth_completion_verified x then LINEAGE_REPLACE_SESSION_REJECT_COMPLETION
          else if v3_protocol_version c \<noteq> sx_expected_protocol_version x
          then LINEAGE_REPLACE_SESSION_REJECT_VERSION
          else if v3_suite_id c \<noteq> sx_expected_suite_id x then LINEAGE_REPLACE_SESSION_REJECT_SUITE
          else if v3_profile_id c \<noteq> sx_expected_profile_id x then LINEAGE_REPLACE_SESSION_REJECT_PROFILE
          else if v3_session_id c \<noteq> sx_expected_session_id x
          then LINEAGE_REPLACE_SESSION_REJECT_SESSION_ID
          else if v3_authz_context_hash c \<noteq> sx_expected_authz_context_hash x
          then LINEAGE_REPLACE_SESSION_REJECT_AUTHZ_CONTEXT
          else if v3_channel_binding_hash c \<noteq> sx_expected_channel_binding_hash x
          then LINEAGE_REPLACE_SESSION_REJECT_CHANNEL_BINDING
          else LINEAGE_REPLACE_SESSION_BOUND
      | _ \<Rightarrow> LINEAGE_REPLACE_SESSION_REJECT_COMPLETION)"

subsection \<open>Possession: \<^verbatim>\<open>lineage_replace_possession.c\<close>\<close>

datatype lineage_replace_possession_decision =
    LINEAGE_REPLACE_POSSESSION_REJECT_CURRENT_CREDENTIAL_CONTROL
  | LINEAGE_REPLACE_POSSESSION_REJECT_SUCCESSOR_KEY_CONTROL
  | LINEAGE_REPLACE_POSSESSION_VERIFIED

record lineage_replace_verified_lifecycle_possession_proof =
  pp_verification_valid :: bool
  pp_session_id :: "byte list"
  pp_subject_reference :: "byte list"

text \<open>The first condition of the code also covers a \<^verbatim>\<open>NULL\<close> among the three expectations.\<close>

definition lineage_replace_classify_possession ::
    "lineage_replace_verified_lifecycle_possession_proof option \<Rightarrow>
     lineage_replace_verified_lifecycle_possession_proof option \<Rightarrow>
     byte list option \<Rightarrow> byte list option \<Rightarrow> byte list option \<Rightarrow> lineage_replace_possession_decision" where
  "lineage_replace_classify_possession current_credential_proof successor_key_proof expected_session_id
     expected_predecessor_credential_reference expected_successor_key_reference =
     (if current_credential_proof = None \<or> expected_session_id = None \<or>
         expected_predecessor_credential_reference = None \<or> expected_successor_key_reference = None \<or>
         \<not> pp_verification_valid (the current_credential_proof) \<or>
         pp_session_id (the current_credential_proof) \<noteq> the expected_session_id \<or>
         pp_subject_reference (the current_credential_proof) \<noteq> the expected_predecessor_credential_reference
      then LINEAGE_REPLACE_POSSESSION_REJECT_CURRENT_CREDENTIAL_CONTROL
      else if successor_key_proof = None \<or> \<not> pp_verification_valid (the successor_key_proof) \<or>
              pp_session_id (the successor_key_proof) \<noteq> the expected_session_id \<or>
              pp_subject_reference (the successor_key_proof) \<noteq> the expected_successor_key_reference
      then LINEAGE_REPLACE_POSSESSION_REJECT_SUCCESSOR_KEY_CONTROL
      else LINEAGE_REPLACE_POSSESSION_VERIFIED)"

subsection \<open>Authorization from the IoT core context: \<^verbatim>\<open>lineage_replace_auth_context.c\<close>\<close>

record lineage_replace_auth_context_evidence =
  xe_current_credential_control_valid :: bool
  xe_successor_key_control_valid :: bool
  xe_current_session_authenticated :: bool
  xe_expected_peer_identity :: "byte list"
  xe_predecessor_credential_reference :: "byte list"
  xe_requested_successor_scope_bits :: u64

definition bytes_nonzero :: "byte list \<Rightarrow> nat \<Rightarrow> bool" where
  "bytes_nonzero v len \<longleftrightarrow> foldl (\<lambda>acc i. acc OR v ! i) 0 [0..<len] \<noteq> 0"

definition context_shape_valid :: "authz_context option \<Rightarrow> bool" where
  "context_shape_valid ctx =
     (case ctx of None \<Rightarrow> False
      | Some c \<Rightarrow> bytes_nonzero (az_holder_binding c) 32 \<and> bytes_nonzero (az_audience_id c) 32 \<and>
          az_role_policy_id c \<noteq> 0 \<and> az_scope_bits c = AUTH_V3_IOT_CORE_SCOPE_SECURE_ASSOCIATION \<and>
          az_authorization_generation c \<noteq> 0 \<and> az_policy_epoch c \<noteq> 0 \<and> az_revocation_epoch c \<noteq> 0)"

definition lineage_replace_authorization_from_iot_core ::
    "authz_context option \<Rightarrow> auth_v3_iot_core_attribution_record_v1 option \<Rightarrow>
     lineage_replace_auth_context_evidence option \<Rightarrow> lineage_replace_authorization_decision" where
  "lineage_replace_authorization_from_iot_core ctx attribution evidence =
     (case evidence of
        None \<Rightarrow> LINEAGE_REPLACE_REJECT_CURRENT_CREDENTIAL_CONTROL
      | Some e \<Rightarrow>
          let facts = \<lparr>zf_current_credential_control_valid = xe_current_credential_control_valid e,
                zf_successor_key_control_valid = xe_successor_key_control_valid e,
                zf_current_session_authenticated = xe_current_session_authenticated e,
                zf_current_session_authorized = False, zf_current_context_bound = False,
                zf_predecessor_binding_current = False, zf_successor_scope_within_authorized_scope = False\<rparr>
          in if \<not> context_shape_valid ctx \<or> attribution = None
             then lineage_replace_classify_authorization (Some facts)
             else
               let c = the ctx; a = the attribution;
                   attribution_context_match =
                     (ar_holder_binding a = az_holder_binding c \<and> ar_audience_id a = az_audience_id c \<and>
                      ar_role_policy_id a = az_role_policy_id c \<and> ar_scope_bits a = az_scope_bits c \<and>
                      ar_authorization_generation a = az_authorization_generation c \<and>
                      ar_policy_epoch a = az_policy_epoch c \<and> ar_revocation_epoch a = az_revocation_epoch c);
                   peer_match = (ar_peer_identity a = xe_expected_peer_identity e);
                   predecessor_match = (ar_credential_reference a = xe_predecessor_credential_reference e)
               in lineage_replace_classify_authorization (Some (facts\<lparr>
                    zf_current_session_authorized := attribution_context_match,
                    zf_current_context_bound := attribution_context_match \<and> peer_match,
                    zf_predecessor_binding_current :=
                      predecessor_match \<and> ar_authorization_generation a = az_authorization_generation c,
                    zf_successor_scope_within_authorized_scope :=
                      xe_requested_successor_scope_bits e \<noteq> 0 \<and>
                      xe_requested_successor_scope_bits e AND NOT (az_scope_bits c) = 0\<rparr>)))"

subsection \<open>Composition with the session: \<^verbatim>\<open>lineage_replace_bound_auth_context.c\<close>\<close>

record lineage_replace_bound_auth_context_evidence =
  be_current_credential_control_valid :: bool
  be_successor_key_control_valid :: bool
  be_expected_peer_identity :: "byte list"
  be_predecessor_credential_reference :: "byte list"
  be_requested_successor_scope_bits :: u64

record lineage_replace_verified_bound_auth_context_evidence =
  ve_current_credential_proof :: lineage_replace_verified_lifecycle_possession_proof
  ve_successor_key_proof :: lineage_replace_verified_lifecycle_possession_proof
  ve_successor_key_reference :: "byte list"
  ve_expected_peer_identity :: "byte list"
  ve_predecessor_credential_reference :: "byte list"
  ve_requested_successor_scope_bits :: u64

definition lineage_replace_authorization_from_bound_iot_core ::
    "auth_v3_context option \<Rightarrow> lineage_replace_session_binding_expectation option \<Rightarrow> authz_context option \<Rightarrow>
     auth_v3_iot_core_attribution_record_v1 option \<Rightarrow> lineage_replace_bound_auth_context_evidence option \<Rightarrow>
     lineage_replace_authorization_decision" where
  "lineage_replace_authorization_from_bound_iot_core auth_context session_expectation authorization_context
     attribution evidence =
     (case evidence of
        None \<Rightarrow> LINEAGE_REPLACE_REJECT_CURRENT_CREDENTIAL_CONTROL
      | Some e \<Rightarrow>
          lineage_replace_authorization_from_iot_core authorization_context attribution
            (Some \<lparr>xe_current_credential_control_valid = be_current_credential_control_valid e,
              xe_successor_key_control_valid = be_successor_key_control_valid e,
              xe_current_session_authenticated =
                (lineage_replace_classify_session_binding auth_context session_expectation =
                 LINEAGE_REPLACE_SESSION_BOUND),
              xe_expected_peer_identity = be_expected_peer_identity e,
              xe_predecessor_credential_reference = be_predecessor_credential_reference e,
              xe_requested_successor_scope_bits = be_requested_successor_scope_bits e\<rparr>))"

definition lineage_replace_authorization_from_verified_bound_iot_core ::
    "auth_v3_context option \<Rightarrow> lineage_replace_session_binding_expectation option \<Rightarrow> authz_context option \<Rightarrow>
     auth_v3_iot_core_attribution_record_v1 option \<Rightarrow>
     lineage_replace_verified_bound_auth_context_evidence option \<Rightarrow> lineage_replace_authorization_decision" where
  "lineage_replace_authorization_from_verified_bound_iot_core auth_context session_expectation
     authorization_context attribution evidence =
     (if evidence = None then LINEAGE_REPLACE_REJECT_CURRENT_CREDENTIAL_CONTROL
      else if session_expectation = None then LINEAGE_REPLACE_REJECT_SESSION_AUTHENTICATION
      else
        let e = the evidence;
            possession = lineage_replace_classify_possession
              (Some (ve_current_credential_proof e)) (Some (ve_successor_key_proof e))
              (Some (sx_expected_session_id (the session_expectation)))
              (Some (ve_predecessor_credential_reference e)) (Some (ve_successor_key_reference e))
        in if possession = LINEAGE_REPLACE_POSSESSION_REJECT_CURRENT_CREDENTIAL_CONTROL
           then LINEAGE_REPLACE_REJECT_CURRENT_CREDENTIAL_CONTROL
           else if possession = LINEAGE_REPLACE_POSSESSION_REJECT_SUCCESSOR_KEY_CONTROL
           then LINEAGE_REPLACE_REJECT_SUCCESSOR_KEY_CONTROL
           else
             lineage_replace_authorization_from_bound_iot_core auth_context session_expectation
               authorization_context attribution
               (Some \<lparr>be_current_credential_control_valid = True, be_successor_key_control_valid = True,
                 be_expected_peer_identity = ve_expected_peer_identity e,
                 be_predecessor_credential_reference = ve_predecessor_credential_reference e,
                 be_requested_successor_scope_bits = ve_requested_successor_scope_bits e\<rparr>))"

subsection \<open>The commit: \<^verbatim>\<open>lineage_replace_verified_commit.c\<close>\<close>

datatype lineage_replace_verified_commit_phase =
    LINEAGE_REPLACE_VERIFIED_COMMIT_REJECT_AUTHORIZATION
  | LINEAGE_REPLACE_VERIFIED_COMMIT_REJECT_DECISION
  | LINEAGE_REPLACE_VERIFIED_COMMIT_REJECT_PLAN
  | LINEAGE_REPLACE_VERIFIED_COMMIT_REJECT_STORAGE_ADAPTER
  | LINEAGE_REPLACE_VERIFIED_COMMIT_STORAGE_COMMITTED
  | LINEAGE_REPLACE_VERIFIED_COMMIT_STORAGE_FAILED

record lineage_replace_verified_commit_result =
  vc_phase :: lineage_replace_verified_commit_phase
  vc_authorization :: lineage_replace_authorization_decision
  vc_decision :: lineage_replace_decision
  vc_storage_result :: lineage_replace_storage_transaction_result

text \<open>The local \<^verbatim>\<open>plan\<close> is uninitialised before \<^verbatim>\<open>lineage_replace_plan\<close> overwrites it.\<close>

definition lineage_replace_execute_verified_bound_iot_core_commit ::
    "auth_v3_context option \<Rightarrow> lineage_replace_session_binding_expectation option \<Rightarrow> authz_context option \<Rightarrow>
     auth_v3_iot_core_attribution_record_v1 option \<Rightarrow>
     lineage_replace_verified_bound_auth_context_evidence option \<Rightarrow> lineage_replace_facts option \<Rightarrow>
     'c storage_apply option \<Rightarrow> 'c \<Rightarrow> lineage_replace_verified_commit_result \<times> 'c" where
  "lineage_replace_execute_verified_bound_iot_core_commit auth_context session_expectation
     authorization_context attribution evidence facts app storage_context =
     (let out = \<lparr>vc_phase = LINEAGE_REPLACE_VERIFIED_COMMIT_REJECT_AUTHORIZATION,
                 vc_authorization = LINEAGE_REPLACE_REJECT_CURRENT_CREDENTIAL_CONTROL,
                 vc_decision = LINEAGE_REPLACE_REJECT_AUTHORITY,
                 vc_storage_result = LINEAGE_REPLACE_STORAGE_TRANSACTION_REJECT_PLAN\<rparr>;
          out = out\<lparr>vc_authorization :=
            lineage_replace_authorization_from_verified_bound_iot_core auth_context session_expectation
              authorization_context attribution evidence\<rparr>
      in if vc_authorization out \<noteq> LINEAGE_REPLACE_AUTHORIZED_REPLACEMENT then (out, storage_context)
         else
           let out = out\<lparr>vc_decision := lineage_replace_evaluate_authorized (vc_authorization out) facts\<rparr> in
           if vc_decision out \<noteq> LINEAGE_REPLACE_ACCEPT_SUCCESSOR
           then (out\<lparr>vc_phase := LINEAGE_REPLACE_VERIFIED_COMMIT_REJECT_DECISION\<rparr>, storage_context)
           else
             let (ok, plan) = lineage_replace_make_plan (vc_decision out) (Some (plan_all False)) in
             if \<not> ok then (out\<lparr>vc_phase := LINEAGE_REPLACE_VERIFIED_COMMIT_REJECT_PLAN\<rparr>, storage_context)
             else if app = None
             then (out\<lparr>vc_phase := LINEAGE_REPLACE_VERIFIED_COMMIT_REJECT_STORAGE_ADAPTER\<rparr>, storage_context)
             else
               let (r, storage_context) = lineage_replace_execute_storage_transaction plan app storage_context;
                   out = out\<lparr>vc_storage_result := r\<rparr>
               in if r = LINEAGE_REPLACE_STORAGE_TRANSACTION_COMMITTED
                  then (out\<lparr>vc_phase := LINEAGE_REPLACE_VERIFIED_COMMIT_STORAGE_COMMITTED\<rparr>, storage_context)
                  else if r = LINEAGE_REPLACE_STORAGE_TRANSACTION_REJECT_PLAN
                  then (out\<lparr>vc_phase := LINEAGE_REPLACE_VERIFIED_COMMIT_REJECT_PLAN\<rparr>, storage_context)
                  else (out\<lparr>vc_phase := LINEAGE_REPLACE_VERIFIED_COMMIT_STORAGE_FAILED\<rparr>, storage_context))"

subsection \<open>What the gates demand\<close>

definition session_bound :: "auth_v3_context \<Rightarrow> lineage_replace_session_binding_expectation \<Rightarrow> bool" where
  "session_bound c x \<longleftrightarrow> sx_auth_completion_verified x \<and>
     v3_protocol_version c = sx_expected_protocol_version x \<and> v3_suite_id c = sx_expected_suite_id x \<and>
     v3_profile_id c = sx_expected_profile_id x \<and> v3_session_id c = sx_expected_session_id x \<and>
     v3_authz_context_hash c = sx_expected_authz_context_hash x \<and>
     v3_channel_binding_hash c = sx_expected_channel_binding_hash x"

definition proves :: "lineage_replace_verified_lifecycle_possession_proof \<Rightarrow> byte list \<Rightarrow> byte list \<Rightarrow> bool" where
  "proves p sid subject \<longleftrightarrow> pp_verification_valid p \<and> pp_session_id p = sid \<and> pp_subject_reference p = subject"

definition replacement_authorized ::
    "auth_v3_context \<Rightarrow> lineage_replace_session_binding_expectation \<Rightarrow> authz_context \<Rightarrow>
     auth_v3_iot_core_attribution_record_v1 \<Rightarrow> lineage_replace_verified_bound_auth_context_evidence \<Rightarrow> bool" where
  "replacement_authorized c x z a e \<longleftrightarrow>
     session_bound c x \<and>
     proves (ve_current_credential_proof e) (v3_session_id c) (ve_predecessor_credential_reference e) \<and>
     proves (ve_successor_key_proof e) (v3_session_id c) (ve_successor_key_reference e) \<and>
     authz_valid z \<and> record_grants a z \<and> ar_peer_identity a = ve_expected_peer_identity e \<and>
     ar_credential_reference a = ve_predecessor_credential_reference e \<and>
     ve_requested_successor_scope_bits e = az_scope_bits z"

definition replacement_safe :: "lineage_replace_facts \<Rightarrow> bool" where
  "replacement_safe f \<longleftrightarrow>
     lf_trigger f = LINEAGE_REPLACE_TRIGGER_LIFECYCLE \<and> lf_predecessor_valid f \<and> lf_successor_valid f \<and>
     lf_context_valid f \<and> lf_dependent_state_safe f \<and> lf_freshness_valid f \<and> lf_replay_free f \<and>
     lf_concurrent_free f \<and> lf_rollback_clear f \<and> lf_storage_safe f"

lemma session_binding_iff:
  "lineage_replace_classify_session_binding (Some c) (Some x) = LINEAGE_REPLACE_SESSION_BOUND \<longleftrightarrow> session_bound c x"
  by (auto simp: lineage_replace_classify_session_binding_def session_bound_def)

lemma possession_iff:
  "lineage_replace_classify_possession (Some p) (Some q) (Some sid) (Some pref) (Some sref) =
     (if \<not> proves p sid pref then LINEAGE_REPLACE_POSSESSION_REJECT_CURRENT_CREDENTIAL_CONTROL
      else if \<not> proves q sid sref then LINEAGE_REPLACE_POSSESSION_REJECT_SUCCESSOR_KEY_CONTROL
      else LINEAGE_REPLACE_POSSESSION_VERIFIED)"
  by (auto simp: lineage_replace_classify_possession_def proves_def)

lemma bytes_nonzero_iff:
  assumes "length v = n"
  shows "bytes_nonzero v n \<longleftrightarrow> (\<exists>b\<in>set v. b \<noteq> 0)"
proof -
  have "foldl (\<lambda>acc i. acc OR v ! i) a is = fold (\<lambda>b acc. acc OR b) (map ((!) v) is) a" for a "is"
    by (induction "is" arbitrary: a) simp_all
  moreover have "map ((!) v) [0..<n] = v" using assms by (auto intro: nth_equalityI)
  ultimately show ?thesis by (simp add: bytes_nonzero_def fold_or_zero)
qed

text \<open>The lineage code and the context codec accept the same authorization contexts.\<close>

lemma context_shape_iff: "authz_wf z \<Longrightarrow> context_shape_valid (Some z) \<longleftrightarrow> authz_valid z"
  by (auto simp: context_shape_valid_def authz_valid_def authz_wf_def bytes_nonzero_iff)

lemma scope_one: "(r :: u64) \<noteq> 0 \<and> r AND NOT 1 = 0 \<longleftrightarrow> r = 1"
proof
  assume r: "r \<noteq> 0 \<and> r AND NOT 1 = 0"
  have "r = (r AND 1) OR (r AND NOT 1)" by (auto intro!: bit_word_eqI simp: bit_simps)
  also have "\<dots> = r AND 1" using r by simp
  finally have "r = r AND 1" .
  also have "\<dots> = of_bool (odd r)" by (simp add: and_one_eq mod_2_eq_odd)
  finally show "r = 1" using r by (cases "odd r") simp_all
qed simp

lemma authorized_iff:
  assumes "authz_wf z"
  shows "lineage_replace_authorization_from_verified_bound_iot_core (Some c) (Some x) (Some z) (Some a) (Some e) =
      LINEAGE_REPLACE_AUTHORIZED_REPLACEMENT \<longleftrightarrow> replacement_authorized c x z a e"
proof -
  have grants: "record_grants a z \<longleftrightarrow>
      ar_holder_binding a = az_holder_binding z \<and> ar_audience_id a = az_audience_id z \<and>
      ar_role_policy_id a = az_role_policy_id z \<and> ar_scope_bits a = az_scope_bits z \<and>
      ar_authorization_generation a = az_authorization_generation z \<and>
      ar_policy_epoch a = az_policy_epoch z \<and> ar_revocation_epoch a = az_revocation_epoch z"
    by (cases z) (auto simp: record_grants_def)
  have bound: "session_bound c x \<Longrightarrow> sx_expected_session_id x = v3_session_id c"
    by (simp add: session_bound_def)
  have one: "authz_valid z \<Longrightarrow> az_scope_bits z = 1" by (simp add: authz_valid_def)
  show ?thesis
    using bound one scope_one [of "ve_requested_successor_scope_bits e"]
    by (auto simp: lineage_replace_authorization_from_verified_bound_iot_core_def Let_def possession_iff
        lineage_replace_authorization_from_bound_iot_core_def lineage_replace_authorization_from_iot_core_def
        session_binding_iff context_shape_iff [OF assms] lineage_replace_classify_authorization_def
        replacement_authorized_def grants)
qed

lemma evaluate_iff:
  "lineage_replace_evaluate_authorized LINEAGE_REPLACE_AUTHORIZED_REPLACEMENT (Some f) =
     LINEAGE_REPLACE_ACCEPT_SUCCESSOR \<longleftrightarrow> replacement_safe f"
  by (auto simp: lineage_replace_evaluate_authorized_def lineage_replace_evaluate_def replacement_safe_def)

lemma storage_not_reject_plan:
  "fst (lineage_replace_execute_storage_transaction (Some (plan_all True)) (Some app) st) \<noteq>
     LINEAGE_REPLACE_STORAGE_TRANSACTION_REJECT_PLAN"
  by (auto simp: lineage_replace_execute_storage_transaction_def plan_complete_def plan_all_def split_beta Let_def)

subsection \<open>Properties\<close>

text \<open>C7: no lineage is replaced without every gate. The storage adapter is called exactly when the
  session is bound to the expected completed authentication, both keys were proved in that session,
  the authorization context is valid, is granted by the attribution record of that peer and that
  predecessor credential, the successor asks for exactly the authorized scope, and the lifecycle
  facts are all safe; then the outcome is the outcome of the storage transaction for the complete
  plan. Otherwise nothing is stored, and the commit is never reported.\<close>

theorem verified_commit_exact:
  assumes "authz_wf z"
  shows "(if replacement_authorized c x z a e \<and> replacement_safe f
      then let (r, st') = lineage_replace_execute_storage_transaction (Some (plan_all True)) (Some app) st;
               (out, st'') = lineage_replace_execute_verified_bound_iot_core_commit
                 (Some c) (Some x) (Some z) (Some a) (Some e) (Some f) (Some app) st
           in st'' = st' \<and> vc_storage_result out = r \<and>
              vc_phase out = (if r = LINEAGE_REPLACE_STORAGE_TRANSACTION_COMMITTED
                 then LINEAGE_REPLACE_VERIFIED_COMMIT_STORAGE_COMMITTED
                 else LINEAGE_REPLACE_VERIFIED_COMMIT_STORAGE_FAILED)
      else let (out, st'') = lineage_replace_execute_verified_bound_iot_core_commit
                 (Some c) (Some x) (Some z) (Some a) (Some e) (Some f) (Some app) st
           in st'' = st \<and> vc_phase out \<in> {LINEAGE_REPLACE_VERIFIED_COMMIT_REJECT_AUTHORIZATION,
                LINEAGE_REPLACE_VERIFIED_COMMIT_REJECT_DECISION})"
proof -
  let ?auth = "lineage_replace_authorization_from_verified_bound_iot_core (Some c) (Some x) (Some z) (Some a) (Some e)"
  note auth = authorized_iff [OF assms, of c x a e]
  have run: "lineage_replace_execute_verified_bound_iot_core_commit (Some c) (Some x) (Some z) (Some a) (Some e) (Some f) (Some app) st =
      (\<lparr>vc_phase = LINEAGE_REPLACE_VERIFIED_COMMIT_REJECT_AUTHORIZATION, vc_authorization = ?auth,
        vc_decision = LINEAGE_REPLACE_REJECT_AUTHORITY,
        vc_storage_result = LINEAGE_REPLACE_STORAGE_TRANSACTION_REJECT_PLAN\<rparr>, st)"
    if "\<not> replacement_authorized c x z a e"
    using that auth by (simp add: lineage_replace_execute_verified_bound_iot_core_commit_def Let_def)
  show ?thesis
  proof (cases "replacement_authorized c x z a e")
    case True
    then have "?auth = LINEAGE_REPLACE_AUTHORIZED_REPLACEMENT" using auth by blast
    then show ?thesis
      using evaluate_iff [of f] True storage_not_reject_plan [of app st]
      by (auto simp: lineage_replace_execute_verified_bound_iot_core_commit_def Let_def
          lineage_replace_make_plan_def split_beta)
  qed (use run in simp)
qed

definition expectation_sample :: lineage_replace_session_binding_expectation where
  "expectation_sample =
     \<lparr>sx_auth_completion_verified = True, sx_expected_protocol_version = 3, sx_expected_suite_id = 1,
      sx_expected_profile_id = 2, sx_expected_session_id = replicate 16 9,
      sx_expected_authz_context_hash = replicate 32 1, sx_expected_channel_binding_hash = replicate 32 3\<rparr>"

definition possession_sample :: "byte \<Rightarrow> lineage_replace_verified_lifecycle_possession_proof" where
  "possession_sample x =
     \<lparr>pp_verification_valid = True, pp_session_id = replicate 16 9, pp_subject_reference = replicate 32 x\<rparr>"

definition verified_evidence_sample :: lineage_replace_verified_bound_auth_context_evidence where
  "verified_evidence_sample =
     \<lparr>ve_current_credential_proof = possession_sample 7, ve_successor_key_proof = possession_sample 6,
      ve_successor_key_reference = replicate 32 6, ve_expected_peer_identity = replicate 32 9,
      ve_predecessor_credential_reference = replicate 32 7, ve_requested_successor_scope_bits = 1\<rparr>"

definition facts_sample :: lineage_replace_facts where
  "facts_sample =
     \<lparr>lf_trigger = LINEAGE_REPLACE_TRIGGER_LIFECYCLE, lf_authority_valid = False, lf_predecessor_valid = True,
      lf_successor_valid = True, lf_context_valid = True, lf_freshness_valid = True, lf_replay_free = True,
      lf_concurrent_free = True, lf_rollback_clear = True, lf_storage_safe = True, lf_dependent_state_safe = True\<rparr>"

lemma authorized_sample:
  "replacement_authorized v3_context_sample expectation_sample authz_sample (record_sample 7) verified_evidence_sample"
  using authz_sample_valid
  by (simp add: replacement_authorized_def session_bound_def proves_def v3_context_sample_def expectation_sample_def
      verified_evidence_sample_def possession_sample_def record_grants_def record_sample_def)
    (simp add: authz_sample_def)

theorem verified_commit_exact_witness:
  "(case lineage_replace_execute_verified_bound_iot_core_commit (Some v3_context_sample) (Some expectation_sample)
       (Some authz_sample) (Some (record_sample 7)) (Some verified_evidence_sample) (Some facts_sample)
       (Some (cut_apply 5)) 0 of (out, st) \<Rightarrow>
      st = 5 \<and> vc_phase out = LINEAGE_REPLACE_VERIFIED_COMMIT_STORAGE_COMMITTED)"
proof -
  have wf: "authz_wf authz_sample" using authz_sample_valid by (simp add: authz_valid_def)
  have safe: "replacement_safe facts_sample" by (simp add: replacement_safe_def facts_sample_def)
  have run: "lineage_replace_execute_storage_transaction (Some (plan_all True)) (Some (cut_apply 5)) 0 =
      (LINEAGE_REPLACE_STORAGE_TRANSACTION_COMMITTED, 5)"
    by (simp add: lineage_replace_execute_storage_transaction_def plan_complete_def plan_all_def cut_apply_def)
  from verified_commit_exact [OF wf, of v3_context_sample expectation_sample "record_sample 7"
      verified_evidence_sample facts_sample "cut_apply 5" 0] authorized_sample safe run
  show ?thesis by (auto simp: Let_def split_beta)
qed

text \<open>The authorization context is not itself bound to the session. The session binding compares
  two digests the caller supplies, and nothing compares them with the digest of the context that is
  then used: a request gets the same answer and stores the same with any digest at all in the session
  context and the expectation, in particular with one that is not the digest of the context that is
  presented.\<close>

theorem commit_context_unbound:
  assumes "v3_authz_context_hash c = sx_expected_authz_context_hash x"
  shows "lineage_replace_execute_verified_bound_iot_core_commit
       (Some (c\<lparr>v3_authz_context_hash := h\<rparr>)) (Some (x\<lparr>sx_expected_authz_context_hash := h\<rparr>))
       authorization_context attribution evidence facts app st =
     lineage_replace_execute_verified_bound_iot_core_commit (Some c) (Some x)
       authorization_context attribution evidence facts app st"
proof -
  have "lineage_replace_classify_session_binding (Some (c\<lparr>v3_authz_context_hash := h\<rparr>))
        (Some (x\<lparr>sx_expected_authz_context_hash := h\<rparr>)) =
      lineage_replace_classify_session_binding (Some c) (Some x)"
    using assms by (simp add: lineage_replace_classify_session_binding_def)
  then have "lineage_replace_authorization_from_verified_bound_iot_core (Some (c\<lparr>v3_authz_context_hash := h\<rparr>))
        (Some (x\<lparr>sx_expected_authz_context_hash := h\<rparr>)) authorization_context attribution evidence =
      lineage_replace_authorization_from_verified_bound_iot_core (Some c) (Some x) authorization_context attribution evidence"
    by (simp add: lineage_replace_authorization_from_verified_bound_iot_core_def Let_def
        lineage_replace_authorization_from_bound_iot_core_def)
  then show ?thesis
    by (simp add: lineage_replace_execute_verified_bound_iot_core_commit_def)
qed

theorem commit_context_unbound_witness:
  "auth_v3_iot_core_authz_hash (toy_sodium\<lparr>sd_sha256 := \<lambda>_. replicate 32 1\<rparr>) (Some authz_sample) \<noteq>
     Ret (replicate 32 0) \<and>
   lineage_replace_execute_verified_bound_iot_core_commit
       (Some (v3_context_sample\<lparr>v3_authz_context_hash := replicate 32 0\<rparr>))
       (Some (expectation_sample\<lparr>sx_expected_authz_context_hash := replicate 32 0\<rparr>))
       (Some authz_sample) (Some (record_sample 7)) (Some verified_evidence_sample) (Some facts_sample)
       (Some (cut_apply 5)) 0 =
   lineage_replace_execute_verified_bound_iot_core_commit (Some v3_context_sample) (Some expectation_sample)
       (Some authz_sample) (Some (record_sample 7)) (Some verified_evidence_sample) (Some facts_sample)
       (Some (cut_apply 5)) 0"
proof
  show "auth_v3_iot_core_authz_hash (toy_sodium\<lparr>sd_sha256 := \<lambda>_. replicate 32 1\<rparr>) (Some authz_sample) \<noteq>
      Ret (replicate 32 0)"
    by (simp add: authz_hash_eq [OF authz_sample_valid])
qed (rule commit_context_unbound, simp add: v3_context_sample_def expectation_sample_def)

end
