(* ===== verification/Transport.thy ===== *)
theory Transport
  imports Store
begin

text \<open>
  The POSIX transports of \<^verbatim>\<open>c/src/transport\<close>: addresses (\<^verbatim>\<open>transport_addr.c\<close>), TCP connections with a length prefix
  before every packet (\<^verbatim>\<open>transport_tcp.c\<close>) and UDP datagrams (\<^verbatim>\<open>transport_udp.c\<close>).

  What a descriptor will deliver is the list of the events at it, in the order they happen: data, an interrupting
  signal, a silence longer than any time-out, an error, the end of the stream. \<^verbatim>\<open>poll\<close> and \<^verbatim>\<open>recv\<close> consume them; a
  blocking call on a descriptor at which nothing will ever happen does not return, which is \<open>None\<close>. What the
  kernel answers to \<^verbatim>\<open>send\<close> is a list as in the stores: the calls after the list accept all that is left. The resolver
  (\<^verbatim>\<open>getaddrinfo\<close>, \<^verbatim>\<open>getnameinfo\<close>) and the kernel's answers to \<^verbatim>\<open>socket\<close>, \<^verbatim>\<open>bind\<close>, \<^verbatim>\<open>listen\<close>, \<^verbatim>\<open>connect\<close> and \<^verbatim>\<open>accept\<close> are
  arguments.
\<close>

subsection \<open>Addresses\<close>

text \<open>A \<^verbatim>\<open>sockaddr_storage\<close> is its family and the 126 bytes after it; \<^verbatim>\<open>sa_len\<close> counts the two bytes of the family.\<close>

record sockaddr =
  ss_family :: int
  ss_data :: "byte list"

record auth_addr =
  aa_sa :: sockaddr
  aa_sa_len :: nat

definition SS_DATA_LEN :: nat where "SS_DATA_LEN = 126"
definition AF_INET6 :: int where "AF_INET6 = 10"

definition zero_addr :: auth_addr where
  "zero_addr = \<lparr>aa_sa = \<lparr>ss_family = 0, ss_data = replicate SS_DATA_LEN 0\<rparr>, aa_sa_len = 0\<rparr>"

text \<open>The resolver: \<open>None\<close> is an error of \<^verbatim>\<open>getaddrinfo\<close>, a list is the chain of results, each an address of its own
  length.\<close>

type_synonym resolver = "string \<Rightarrow> string \<Rightarrow> sockaddr list option"

text \<open>\<^verbatim>\<open>snprintf(buf, cap, "%s", s)\<close>: what the buffer holds as a string.\<close>

definition snprintf_s :: "nat \<Rightarrow> string \<Rightarrow> string" where
  "snprintf_s cap s = take (cap - 1) s"

definition split_hostport :: "string \<Rightarrow> (auth_err, string \<times> string) cres" where
  "split_hostport p =
     (if p \<noteq> [] \<and> p ! 0 = CHR ''['' then
        if CHR '']'' \<notin> set p then Fail AUTH_ERR_INVALID_ARGUMENT
        else
          let end = length (takeWhile (\<lambda>c. c \<noteq> CHR '']'') p); n = end - 1 in
          if n \<ge> 256 then Fail AUTH_ERR_INVALID_ARGUMENT
          else if end + 1 \<ge> length p \<or> p ! (end + 1) \<noteq> CHR '':'' then Fail AUTH_ERR_INVALID_ARGUMENT
          else Ret (take n (drop 1 p), snprintf_s 32 (drop (end + 2) p))
      else if CHR '':'' \<notin> set p then Fail AUTH_ERR_INVALID_ARGUMENT
      else
        let colon = length p - length (takeWhile (\<lambda>c. c \<noteq> CHR '':'') (rev p)) - 1; n = colon in
        if n \<ge> 256 then Fail AUTH_ERR_INVALID_ARGUMENT
        else Ret (take n p, snprintf_s 32 (drop (colon + 1) p)))"

definition auth_addr_parse :: "resolver \<Rightarrow> string option \<Rightarrow> (auth_err, auth_addr) cres" where
  "auth_addr_parse getaddrinfo hostport =
     (case hostport of
        None \<Rightarrow> Fail AUTH_ERR_INVALID_ARGUMENT
      | Some p \<Rightarrow>
          bnd (split_hostport p) (\<lambda>(host, port).
          case getaddrinfo host port of
            None \<Rightarrow> Fail AUTH_ERR_INVALID_ARGUMENT
          | Some [] \<Rightarrow> Fail AUTH_ERR_INVALID_ARGUMENT
          | Some (res # _) \<Rightarrow>
              if length (ss_data res) > SS_DATA_LEN then Fail AUTH_ERR_INVALID_ARGUMENT
              else Ret (zero_addr\<lparr>aa_sa := \<lparr>ss_family = ss_family res,
                           ss_data = ss_data res @ drop (length (ss_data res)) (ss_data (aa_sa zero_addr))\<rparr>,
                         aa_sa_len := length (ss_data res) + 2\<rparr>)))"

text \<open>\<^verbatim>\<open>getnameinfo\<close> reads the first \<^verbatim>\<open>sa_len\<close> bytes of the address; \<open>None\<close> is its error.\<close>

definition addr_bytes :: "auth_addr \<Rightarrow> sockaddr" where
  "addr_bytes a = (aa_sa a)\<lparr>ss_data := take (aa_sa_len a - 2) (ss_data (aa_sa a))\<rparr>"

definition auth_addr_format :: "(sockaddr \<Rightarrow> (string \<times> string) option) \<Rightarrow> auth_addr option \<Rightarrow> nat \<Rightarrow> string" where
  "auth_addr_format getnameinfo a cap =
     (case a of
        None \<Rightarrow> ''''
      | Some a \<Rightarrow>
          if cap = 0 then ''''
          else if aa_sa_len a = 0 then ''''
          else
            case getnameinfo (addr_bytes a) of
              None \<Rightarrow> snprintf_s cap ''<unknown>''
            | Some (host, port) \<Rightarrow>
                if ss_family (aa_sa a) = AF_INET6 then snprintf_s cap (''['' @ host @ '']:'' @ port)
                else snprintf_s cap (host @ '':'' @ port))"

subsection \<open>Waiting and reading\<close>

datatype 'd rx = Rx_data 'd | Rx_intr | Rx_silence | Rx_poll_error | Rx_error | Rx_eof

text \<open>A segment of a TCP stream has at least one byte.\<close>

type_synonym stream = "(byte \<times> byte list) rx list"
type_synonym dgrams = "(byte list \<times> auth_addr) rx list"

text \<open>\<^verbatim>\<open>do { pr = poll(&pfd, 1, timeout_ms); } while (pr < 0 && errno == EINTR);\<close> with a finite time-out. A pending
  error and the end of the stream make the descriptor ready.\<close>

fun sock_poll :: "'d rx list \<Rightarrow> int \<times> 'd rx list" where
  "sock_poll [] = (0, [])"
| "sock_poll (Rx_intr # es) = sock_poll es"
| "sock_poll (Rx_silence # es) = (0, es)"
| "sock_poll (Rx_poll_error # es) = (-1, es)"
| "sock_poll (e # es) = (1, e # es)"

text \<open>\<^verbatim>\<open>do { n = recv(fd, buf + off, len - off, 0); } while (n < 0 && errno == EINTR);\<close>\<close>

datatype recv_answer = Recv_error | Recv "byte list"

fun sock_recv :: "nat \<Rightarrow> stream \<Rightarrow> (recv_answer \<times> stream) option" where
  "sock_recv n [] = None"
| "sock_recv n (Rx_error # es) = Some (Recv_error, es)"
| "sock_recv n (Rx_eof # es) = Some (Recv [], Rx_eof # es)"
| "sock_recv n (Rx_data (b, bs) # es) =
     Some (Recv (take n (b # bs)), case drop n (b # bs) of [] \<Rightarrow> es | c # cs \<Rightarrow> Rx_data (c, cs) # es)"
| "sock_recv n (e # es) = sock_recv n es"

function read_all :: "nat \<Rightarrow> int \<Rightarrow> byte list \<Rightarrow> stream \<Rightarrow> ((auth_err, byte list) cres \<times> stream) option" where
  "read_all len timeout_ms got rx =
     (if length got \<ge> len then Some (Ret got, rx)
      else
        let (pr, rx) = (if timeout_ms \<ge> 0 then sock_poll rx else (1, rx)) in
        if pr = 0 then Some (Fail AUTH_ERR_TIMEOUT, rx)
        else if pr < 0 then Some (Fail AUTH_ERR_IO, rx)
        else
          case sock_recv (len - length got) rx of
            None \<Rightarrow> None
          | Some (Recv_error, rx) \<Rightarrow> Some (Fail AUTH_ERR_IO, rx)
          | Some (Recv bs, rx) \<Rightarrow>
              if bs = [] then Some (Fail (if got \<noteq> [] then AUTH_ERR_MALFORMED_PACKET else AUTH_ERR_IO), rx)
              else read_all len timeout_ms (got @ bs) rx)"
  by pat_completeness auto

termination read_all
  by (relation "measure (\<lambda>(len, t, got, rx). len - length got)") 
    (auto split: prod.splits if_splits simp flip: length_greater_0_conv)

declare read_all.simps [simp del]

fun write_all :: "byte list \<Rightarrow> nat \<Rightarrow> write_result list \<Rightarrow> (auth_err, unit) cres \<times> byte list \<times> write_result list" where
  "write_all buf off tx =
     (if off \<ge> length buf then (Ret (), [], tx)
      else
        case tx of
          [] \<Rightarrow> (Ret (), drop off buf, [])
        | W_intr # tx \<Rightarrow> write_all buf off tx
        | W_error # tx \<Rightarrow> (Fail AUTH_ERR_IO, [], tx)
        | W_wrote n # tx \<Rightarrow>
            let w = min n (length buf - off) in
            if w = 0 then (Fail AUTH_ERR_IO, [], tx)
            else let (r, out, tx) = write_all buf (off + w) tx in (r, take w (drop off buf) @ out, tx))"

declare write_all.simps [simp del]

subsection \<open>Length-prefix framing\<close>

record auth_tcp_conn =
  tc_fd :: int

text \<open>The outcome, the bytes handed to the kernel, and the answers not yet used.\<close>

definition auth_tcp_send ::
    "auth_tcp_conn option \<Rightarrow> byte list option \<Rightarrow> nat \<Rightarrow> write_result list \<Rightarrow>
     (auth_err, unit) cres \<times> byte list \<times> write_result list" where
  "auth_tcp_send c buf buf_len tx =
     (case (c, buf) of
        (Some c, Some buf) \<Rightarrow>
          if tc_fd c < 0 then (Fail AUTH_ERR_INVALID_ARGUMENT, [], tx)
          else if buf_len > AUTH_MAX_DATAGRAM then (Fail AUTH_ERR_PAYLOAD_TOO_LARGE, [], tx)
          else if length buf < buf_len then (Fault, [], tx)
          else
            let n = (of_nat buf_len :: u32);
                hdr = [ucast (n AND 0xff), ucast (drop_bit 8 n AND 0xff), ucast (drop_bit 16 n AND 0xff),
                       ucast (drop_bit 24 n AND 0xff)];
                (err, out, tx) = write_all hdr 0 tx
            in if err \<noteq> Ret () then (err, out, tx)
               else let (err, out', tx) = write_all (take buf_len buf) 0 tx in (err, out @ out', tx)
      | _ \<Rightarrow> (Fail AUTH_ERR_INVALID_ARGUMENT, [], tx))"

definition auth_tcp_recv ::
    "auth_tcp_conn option \<Rightarrow> byte list option \<Rightarrow> nat \<Rightarrow> int \<Rightarrow> stream \<Rightarrow> ((auth_err, cursor) cres \<times> stream) option" where
  "auth_tcp_recv c buf buf_cap timeout_ms rx =
     (case (c, buf) of
        (Some c, Some buf) \<Rightarrow>
          if tc_fd c < 0 then Some (Fail AUTH_ERR_INVALID_ARGUMENT, rx)
          else
            case read_all 4 timeout_ms [] rx of
              None \<Rightarrow> None
            | Some (Fault, rx) \<Rightarrow> Some (Fault, rx)
            | Some (Fail err, rx) \<Rightarrow> Some (Fail err, rx)
            | Some (Ret hdr, rx) \<Rightarrow>
                let len = (ucast (hdr ! 0) OR push_bit 8 (ucast (hdr ! 1)) OR push_bit 16 (ucast (hdr ! 2)) OR
                           push_bit 24 (ucast (hdr ! 3)) :: u32);
                    len = unat len
                in if len > AUTH_MAX_DATAGRAM then Some (Fail AUTH_ERR_PAYLOAD_TOO_LARGE, rx)
                   else if len > buf_cap then Some (Fail AUTH_ERR_BUFFER_TOO_SMALL, rx)
                   else
                     case read_all len timeout_ms [] rx of
                       None \<Rightarrow> None
                     | Some (Fault, rx) \<Rightarrow> Some (Fault, rx)
                     | Some (Fail err, rx) \<Rightarrow> Some (Fail err, rx)
                     | Some (Ret bs, rx) \<Rightarrow> Some (bnd (wrn buf 0 bs len) (\<lambda>buf. Ret (buf, len)), rx)
      | _ \<Rightarrow> Some (Fail AUTH_ERR_INVALID_ARGUMENT, rx))"

subsection \<open>Datagrams\<close>

record auth_udp =
  ud_fd :: int

text \<open>One system call, not repeated when it is interrupted; \<open>peer\<close> selects \<^verbatim>\<open>sendto\<close> or \<^verbatim>\<open>send\<close>. The result carries the
  datagram handed to the kernel with its destination (\<open>None\<close> for the connected peer).\<close>

definition auth_udp_send ::
    "auth_udp option \<Rightarrow> auth_addr option \<Rightarrow> byte list option \<Rightarrow> nat \<Rightarrow> write_result list \<Rightarrow>
     (auth_err, unit) cres \<times> (auth_addr option \<times> byte list) list \<times> write_result list" where
  "auth_udp_send u peer buf buf_len tx =
     (case (u, buf) of
        (Some u, Some buf) \<Rightarrow>
          if ud_fd u < 0 then (Fail AUTH_ERR_INVALID_ARGUMENT, [], tx)
          else if buf_len > AUTH_MAX_DATAGRAM then (Fail AUTH_ERR_PAYLOAD_TOO_LARGE, [], tx)
          else if length buf < buf_len then (Fault, [], tx)
          else
            let dest = (case peer of Some a \<Rightarrow> if aa_sa_len a \<noteq> 0 then Some a else None | None \<Rightarrow> None) in
            (case tx of
               [] \<Rightarrow> (Ret (), [(dest, take buf_len buf)], [])
             | W_wrote n # tx \<Rightarrow>
                 (if n \<noteq> buf_len then Fail AUTH_ERR_IO else Ret (), [(dest, take (min n buf_len) buf)], tx)
             | _ # tx \<Rightarrow> (Fail AUTH_ERR_IO, [], tx))
      | _ \<Rightarrow> (Fail AUTH_ERR_INVALID_ARGUMENT, [], tx))"

text \<open>\<^verbatim>\<open>recvfrom\<close>: a datagram longer than the buffer is cut, and what does not fit is lost.\<close>

fun sock_recvfrom :: "dgrams \<Rightarrow> ((byte list \<times> auth_addr) option \<times> dgrams) option" where
  "sock_recvfrom [] = None"
| "sock_recvfrom (Rx_data d # es) = Some (Some d, es)"
| "sock_recvfrom (Rx_intr # es) = Some (None, es)"
| "sock_recvfrom (Rx_error # es) = Some (None, es)"
| "sock_recvfrom (Rx_eof # es) = Some (Some ([], zero_addr), Rx_eof # es)"
| "sock_recvfrom (e # es) = sock_recvfrom es"

definition auth_udp_recv ::
    "auth_udp option \<Rightarrow> byte list option \<Rightarrow> nat \<Rightarrow> int \<Rightarrow> dgrams \<Rightarrow>
     ((auth_err, cursor \<times> auth_addr) cres \<times> dgrams) option" where
  "auth_udp_recv u buf buf_cap timeout_ms rx =
     (case (u, buf) of
        (Some u, Some buf) \<Rightarrow>
          if ud_fd u < 0 then Some (Fail AUTH_ERR_INVALID_ARGUMENT, rx)
          else
            let (pr, rx) = (if timeout_ms \<ge> 0 then sock_poll rx else (1, rx)) in
            if pr = 0 then Some (Fail AUTH_ERR_TIMEOUT, rx)
            else if pr < 0 then Some (Fail AUTH_ERR_IO, rx)
            else
              case sock_recvfrom rx of
                None \<Rightarrow> None
              | Some (None, rx) \<Rightarrow> Some (Fail AUTH_ERR_IO, rx)
              | Some (Some (d, from), rx) \<Rightarrow>
                  let n = min buf_cap (length d) in
                  Some (bnd (wrn buf 0 d n) (\<lambda>buf. Ret ((buf, n), from)), rx)
      | _ \<Rightarrow> Some (Fail AUTH_ERR_INVALID_ARGUMENT, rx))"

subsection \<open>Descriptors\<close>

text \<open>What the kernel answers while a socket is made: the new descriptor (negative on an error) and whether \<^verbatim>\<open>bind\<close>,
  \<^verbatim>\<open>listen\<close> and \<^verbatim>\<open>connect\<close> succeed. The set holds the descriptors the process has open.\<close>

record sock_io =
  sio_socket :: int
  sio_bind :: bool
  sio_listen :: bool
  sio_connect :: bool

record auth_tcp_listener =
  tl_fd :: int

definition auth_tcp_listener_bind ::
    "resolver \<Rightarrow> sock_io \<Rightarrow> auth_tcp_listener option \<Rightarrow> string option \<Rightarrow> int set \<Rightarrow>
     (auth_err, auth_tcp_listener) cres \<times> int set" where
  "auth_tcp_listener_bind getaddrinfo io l bind_addr fds =
     (if l = None \<or> bind_addr = None then (Fail AUTH_ERR_INVALID_ARGUMENT, fds)
      else
        try_c (auth_addr_parse getaddrinfo bind_addr) fds (\<lambda>a.
        let fd = sio_socket io in
        if fd < 0 then (Fail AUTH_ERR_IO, fds)
        else
          let fds = insert fd fds in
          if \<not> sio_bind io then (Fail AUTH_ERR_IO, fds - {fd})
          else if \<not> sio_listen io then (Fail AUTH_ERR_IO, fds - {fd})
          else (Ret ((the l)\<lparr>tl_fd := fd\<rparr>), fds)))"

definition auth_tcp_listener_close :: "auth_tcp_listener option \<Rightarrow> int set \<Rightarrow> auth_tcp_listener option \<times> int set" where
  "auth_tcp_listener_close l fds =
     (case l of
        None \<Rightarrow> (None, fds)
      | Some l \<Rightarrow> if tl_fd l \<ge> 0 then (Some (l\<lparr>tl_fd := -1\<rparr>), fds - {tl_fd l}) else (Some l, fds))"

text \<open>\<^verbatim>\<open>getsockname\<close> answers with an address or an error.\<close>

definition auth_tcp_listener_local_addr ::
    "auth_addr option \<Rightarrow> auth_tcp_listener option \<Rightarrow> (auth_err, auth_addr) cres" where
  "auth_tcp_listener_local_addr getsockname l =
     (case l of
        None \<Rightarrow> Fail AUTH_ERR_INVALID_ARGUMENT
      | Some l \<Rightarrow>
          if tl_fd l < 0 then Fail AUTH_ERR_INVALID_ARGUMENT
          else case getsockname of None \<Rightarrow> Fail AUTH_ERR_IO | Some a \<Rightarrow> Ret a)"

datatype accept_answer = A_intr | A_error | A_conn int auth_addr

fun accept_loop :: "accept_answer list \<Rightarrow> ((int \<times> auth_addr) option \<times> accept_answer list) option" where
  "accept_loop [] = None"
| "accept_loop (A_intr # as) = accept_loop as"
| "accept_loop (A_error # as) = Some (None, as)"
| "accept_loop (A_conn fd a # as) = Some (Some (fd, a), as)"

definition auth_tcp_listener_accept ::
    "auth_tcp_listener option \<Rightarrow> accept_answer list \<Rightarrow> int set \<Rightarrow>
     ((auth_err, int \<times> auth_addr) cres \<times> int set \<times> accept_answer list) option" where
  "auth_tcp_listener_accept l as fds =
     (case l of
        None \<Rightarrow> Some (Fail AUTH_ERR_INVALID_ARGUMENT, fds, as)
      | Some l \<Rightarrow>
          if tl_fd l < 0 then Some (Fail AUTH_ERR_INVALID_ARGUMENT, fds, as)
          else
            case accept_loop as of
              None \<Rightarrow> None
            | Some (None, as) \<Rightarrow> Some (Fail AUTH_ERR_IO, fds, as)
            | Some (Some (cfd, a), as) \<Rightarrow> Some (Ret (cfd, a), insert cfd fds, as))"

definition auth_tcp_connect ::
    "resolver \<Rightarrow> sock_io \<Rightarrow> auth_tcp_conn option \<Rightarrow> string option \<Rightarrow> int set \<Rightarrow>
     (auth_err, auth_tcp_conn) cres \<times> int set" where
  "auth_tcp_connect getaddrinfo io c server_addr fds =
     (if c = None \<or> server_addr = None then (Fail AUTH_ERR_INVALID_ARGUMENT, fds)
      else
        try_c (auth_addr_parse getaddrinfo server_addr) fds (\<lambda>a.
        let fd = sio_socket io in
        if fd < 0 then (Fail AUTH_ERR_IO, fds)
        else
          let fds = insert fd fds in
          if \<not> sio_connect io then (Fail AUTH_ERR_IO, fds - {fd}) else (Ret ((the c)\<lparr>tc_fd := fd\<rparr>), fds)))"

definition auth_tcp_conn_wrap :: "auth_tcp_conn option \<Rightarrow> int \<Rightarrow> auth_tcp_conn option" where
  "auth_tcp_conn_wrap c fd = map_option (\<lambda>c. c\<lparr>tc_fd := fd\<rparr>) c"

definition auth_tcp_conn_close :: "auth_tcp_conn option \<Rightarrow> int set \<Rightarrow> auth_tcp_conn option \<times> int set" where
  "auth_tcp_conn_close c fds =
     (case c of
        None \<Rightarrow> (None, fds)
      | Some c \<Rightarrow> if tc_fd c \<ge> 0 then (Some (c\<lparr>tc_fd := -1\<rparr>), fds - {tc_fd c}) else (Some c, fds))"

definition auth_udp_bind ::
    "resolver \<Rightarrow> sock_io \<Rightarrow> auth_udp option \<Rightarrow> string option \<Rightarrow> int set \<Rightarrow> (auth_err, auth_udp) cres \<times> int set" where
  "auth_udp_bind getaddrinfo io u bind_addr fds =
     (if u = None \<or> bind_addr = None then (Fail AUTH_ERR_INVALID_ARGUMENT, fds)
      else
        try_c (auth_addr_parse getaddrinfo bind_addr) fds (\<lambda>a.
        let fd = sio_socket io in
        if fd < 0 then (Fail AUTH_ERR_IO, fds)
        else
          let fds = insert fd fds in
          if \<not> sio_bind io then (Fail AUTH_ERR_IO, fds - {fd}) else (Ret ((the u)\<lparr>ud_fd := fd\<rparr>), fds)))"

definition auth_udp_connect ::
    "resolver \<Rightarrow> sock_io \<Rightarrow> auth_udp option \<Rightarrow> string option \<Rightarrow> int set \<Rightarrow> (auth_err, auth_udp) cres \<times> int set" where
  "auth_udp_connect getaddrinfo io u server_addr fds =
     (if u = None \<or> server_addr = None then (Fail AUTH_ERR_INVALID_ARGUMENT, fds)
      else
        try_c (auth_addr_parse getaddrinfo server_addr) fds (\<lambda>a.
        let fd = sio_socket io in
        if fd < 0 then (Fail AUTH_ERR_IO, fds)
        else
          let fds = insert fd fds in
          if \<not> sio_connect io then (Fail AUTH_ERR_IO, fds - {fd}) else (Ret ((the u)\<lparr>ud_fd := fd\<rparr>), fds)))"

definition auth_udp_close :: "auth_udp option \<Rightarrow> int set \<Rightarrow> auth_udp option \<times> int set" where
  "auth_udp_close u fds =
     (case u of
        None \<Rightarrow> (None, fds)
      | Some u \<Rightarrow> if ud_fd u \<ge> 0 then (Some (u\<lparr>ud_fd := -1\<rparr>), fds - {ud_fd u}) else (Some u, fds))"

definition auth_udp_local_addr :: "auth_addr option \<Rightarrow> auth_udp option \<Rightarrow> (auth_err, auth_addr) cres" where
  "auth_udp_local_addr getsockname u =
     (case u of
        None \<Rightarrow> Fail AUTH_ERR_INVALID_ARGUMENT
      | Some u \<Rightarrow>
          if ud_fd u < 0 then Fail AUTH_ERR_INVALID_ARGUMENT
          else case getsockname of None \<Rightarrow> Fail AUTH_ERR_IO | Some a \<Rightarrow> Ret a)"

subsection \<open>A wait with a time-out ends\<close>

lemma sock_poll_cases:
  obtains (idle) "fst (sock_poll rx) = 0" | (failed) "fst (sock_poll rx) = -1"
  | (ready) e es where "sock_poll rx = (1, e # es)" "e \<noteq> Rx_intr" "e \<noteq> Rx_silence" "e \<noteq> Rx_poll_error"
  by (induction rx rule: sock_poll.induct) auto

lemma recv_ready: "sock_poll rx = (1, rx') \<Longrightarrow> \<exists>r. sock_recv n rx' = Some r"
  by (induction rx rule: sock_poll.induct) auto

lemma recvfrom_ready: "sock_poll rx = (1, rx') \<Longrightarrow> \<exists>r. sock_recvfrom rx' = Some r"
  by (induction rx rule: sock_poll.induct) auto

lemma sock_recv_length: "sock_recv n rx = Some (Recv bs, rx') \<Longrightarrow> length bs \<le> n"
  by (induction n rx rule: sock_recv.induct) auto

text \<open>
  The same loop one byte at a time, with what every event means for a reader that waits with a time-out. It is the
  reference the optimised loop is compared with.
\<close>

fun next_bytes :: "nat \<Rightarrow> byte list \<Rightarrow> stream \<Rightarrow> (auth_err, byte list) cres \<times> stream" where
  "next_bytes 0 got es = (Ret got, es)"
| "next_bytes (Suc n) got [] = (Fail AUTH_ERR_TIMEOUT, [])"
| "next_bytes (Suc n) got (Rx_intr # es) = next_bytes (Suc n) got es"
| "next_bytes (Suc n) got (Rx_silence # es) = (Fail AUTH_ERR_TIMEOUT, es)"
| "next_bytes (Suc n) got (Rx_poll_error # es) = (Fail AUTH_ERR_IO, es)"
| "next_bytes (Suc n) got (Rx_error # es) = (Fail AUTH_ERR_IO, es)"
| "next_bytes (Suc n) got (Rx_eof # es) =
     (Fail (if got \<noteq> [] then AUTH_ERR_MALFORMED_PACKET else AUTH_ERR_IO), Rx_eof # es)"
| "next_bytes (Suc n) got (Rx_data (b, []) # es) = next_bytes n (got @ [b]) es"
| "next_bytes (Suc n) got (Rx_data (b, c # cs) # es) = next_bytes n (got @ [b]) (Rx_data (c, cs) # es)"

lemma next_bytes_segment:
  "0 < n \<Longrightarrow> next_bytes n got (Rx_data (b, bs) # es) =
     next_bytes (n - length (take n (b # bs))) (got @ take n (b # bs))
       (case drop n (b # bs) of [] \<Rightarrow> es | c # cs \<Rightarrow> Rx_data (c, cs) # es)"
proof (induction bs arbitrary: n got b)
  case Nil
  then show ?case by (cases n) simp_all
next
  case (Cons c cs)
  then obtain k where "n = Suc k" by (cases n) auto
  then show ?case using Cons.IH [of k "got @ [b]" c] by (cases k) simp_all
qed

lemma next_bytes_poll:
  assumes "0 < n"
  shows "next_bytes n got rx =
    (let (pr, rx) = sock_poll rx in
     if pr = 0 then (Fail AUTH_ERR_TIMEOUT, rx) else if pr < 0 then (Fail AUTH_ERR_IO, rx) else next_bytes n got rx)"
proof -
  obtain k where "n = Suc k" using assms by (cases n) auto
  then show ?thesis by (induction rx rule: sock_poll.induct) auto
qed

lemma read_all_equiv:
  assumes "timeout_ms \<ge> 0"
  shows "read_all len timeout_ms got rx = Some (next_bytes (len - length got) got rx)"
proof (induction "len - length got" arbitrary: got rx rule: less_induct)
  case less
  show ?case
  proof (cases "length got \<ge> len")
    case True
    then show ?thesis by (simp add: read_all.simps)
  next
    case False
    then have n: "0 < len - length got" by simp
    show ?thesis
    proof (cases rule: sock_poll_cases [of rx])
      case (ready e es)
      have "next_bytes (len - length got) got rx = next_bytes (len - length got) got (e # es)"
        by (simp add: next_bytes_poll [OF n, of got rx] ready(1))
      moreover have "read_all len timeout_ms got rx = Some (next_bytes (len - length got) got (e # es))"
      proof (cases e)
        case (Rx_data seg)
        obtain b bs where seg: "seg = (b, bs)" by fastforce
        let ?bs = "take (len - length got) (b # bs)" and ?rx = "case drop (len - length got) (b # bs) of [] \<Rightarrow> es | c # cs \<Rightarrow> Rx_data (c, cs) # es"
        have ne: "?bs \<noteq> []" using n by simp
        then have "len - length (got @ ?bs) < len - length got" using n by (simp flip: length_greater_0_conv)
        from less [OF this, of ?rx] have "read_all len timeout_ms got rx = Some (next_bytes (len - length (got @ ?bs)) (got @ ?bs) ?rx)"
          using False assms ready(1) ne by (simp add: read_all.simps [of len timeout_ms got rx] Rx_data seg)
        then show ?thesis
          by (simp add: Rx_data seg next_bytes_segment [OF n] diff_diff_eq)
      qed (use False assms ready n in \<open>auto simp: read_all.simps [of len timeout_ms got rx] gr0_conv_Suc\<close>)
      ultimately show ?thesis by simp
    qed (use False assms in \<open>auto simp: read_all.simps [of len timeout_ms got rx] next_bytes_poll [OF n, of got rx] split_beta\<close>)
  qed
qed

lemma next_bytes_length: "next_bytes n got rx = (Ret bs, rx') \<Longrightarrow> length bs = length got + n"
  by (induction n got rx rule: next_bytes.induct) auto

lemma next_bytes_Fault: "fst (next_bytes n got rx) \<noteq> Fault"
  by (induction n got rx rule: next_bytes.induct) auto

subsection \<open>Frames\<close>

text \<open>What is on the wire: the bytes of a stream that is only ever interrupted by signals.\<close>

fun lively :: "stream \<Rightarrow> bool" where
  "lively [] = True"
| "lively (Rx_data seg # es) = lively es"
| "lively (Rx_intr # es) = lively es"
| "lively (e # es) = False"

fun stream_bytes :: "stream \<Rightarrow> byte list" where
  "stream_bytes [] = []"
| "stream_bytes (Rx_data (b, bs) # es) = b # bs @ stream_bytes es"
| "stream_bytes (e # es) = stream_bytes es"

definition frame :: "byte list \<Rightarrow> byte list" where
  "frame bs = le_bytes 4 (of_nat (length bs) :: u32) @ bs"

lemma next_bytes_lively_append:
  assumes "lively pre" and "stream_bytes pre = bs @ rest"
  shows "\<exists>pre'. next_bytes (length bs) got (pre @ post) = (Ret (got @ bs), pre' @ post) \<and>
    lively pre' \<and> stream_bytes pre' = rest"
  using assms
proof (induction "length bs" got pre arbitrary: bs rule: next_bytes.induct)
  case (3 n got es)
  have "next_bytes (length bs) got ((Rx_intr # es) @ post) = next_bytes (length bs) got (es @ post)"
    using "3.hyps"(2) by (metis append_Cons next_bytes.simps(3))
  then show ?case using "3.hyps" "3.prems" by simp
next
  case (8 n got b es)
  from "8.hyps"(2) "8.prems" obtain cs where "bs = b # cs" by (cases bs) auto
  then show ?case using "8.hyps" "8.prems" by fastforce
next
  case (9 n got b c cs es)
  from "9.hyps"(2) "9.prems" obtain ds where "bs = b # ds" by (cases bs) auto
  then show ?case using "9.hyps" "9.prems" by fastforce
qed auto

lemmas next_bytes_lively = next_bytes_lively_append [where post = "[]", simplified]

lemma next_bytes_eof:
  assumes "lively pre" and "length (stream_bytes pre) < n"
  shows "next_bytes n got (pre @ [Rx_eof]) =
    (Fail (if got @ stream_bytes pre \<noteq> [] then AUTH_ERR_MALFORMED_PACKET else AUTH_ERR_IO), [Rx_eof])"
  using assms by (induction n got pre rule: next_bytes.induct) auto

lemma unat_frame_length: "length bs \<le> 2048 \<Longrightarrow> unat (of_nat (length bs) :: u32) = length bs"
  by (simp add: unsigned_of_nat take_bit_nat_eq_self)

lemma length_frame [simp]: "length (frame bs) = 4 + length bs"
  by (simp add: frame_def)

text \<open>Sending: all of the data, or an error after a strict prefix of it.\<close>

lemma write_all_outcome:
  assumes "write_all buf off tx = (r, out, tx')" and "off \<le> length buf"
  shows "r = Ret () \<and> out = drop off buf \<or>
    r = Fail AUTH_ERR_IO \<and> (\<exists>k < length buf - off. out = take k (drop off buf))"
  using assms
proof (induction buf off tx arbitrary: r out tx' rule: write_all.induct)
  case (1 buf off tx)
  show ?case
  proof (cases "off \<ge> length buf")
    case True
    then show ?thesis using "1.prems" by (simp add: write_all.simps)
  next
    case False
    show ?thesis
    proof (cases tx)
      case Nil
      then show ?thesis using "1.prems" False by (simp add: write_all.simps)
    next
      case (Cons w tx1)
      show ?thesis
      proof (cases w)
        case W_intr
        then show ?thesis
          using "1.IH"(1) [OF False Cons W_intr] "1.prems" False Cons by (simp add: write_all.simps [of buf off])
      next
        case W_error
        then show ?thesis using "1.prems" False Cons by (auto simp: write_all.simps [of buf off] intro: exI [of _ 0])
      next
        case (W_wrote n)
        let ?w = "min n (length buf - off)"
        show ?thesis
        proof (cases "?w = 0")
          case True
          then show ?thesis
            using "1.prems" False Cons W_wrote by (auto simp: write_all.simps [of buf off] intro: exI [of _ 0])
        next
          case w: False
          obtain r1 out1 tx2 where rec: "write_all buf (off + ?w) tx1 = (r1, out1, tx2)" by (metis prod_cases3)
          have out: "r = r1" "out = take ?w (drop off buf) @ out1"
            using "1.prems"(1) False Cons W_wrote w rec by (auto simp: write_all.simps [of buf off] Let_def)
          have le: "off + ?w \<le> length buf" using False by simp
          from "1.IH"(2) [OF False Cons W_wrote refl w rec le]
          show ?thesis
          proof (elim disjE conjE exE)
            assume "r1 = Ret ()" "out1 = drop (off + ?w) buf"
            then show ?thesis using out append_take_drop_id [of ?w "drop off buf"] by (simp add: add.commute)
          next
            fix k assume k: "r1 = Fail AUTH_ERR_IO" "k < length buf - (off + ?w)" "out1 = take k (drop (off + ?w) buf)"
            then have "out = take (?w + k) (drop off buf)" using out take_take_drop [of ?w off buf k] by simp
            then show ?thesis using out k by (auto intro!: exI [of _ "?w + k"])
          qed
        qed
      qed
    qed
  qed
qed

lemma write_all_start:
  obtains (all) tx' where "write_all buf 0 tx = (Ret (), buf, tx')"
  | (cut_short) k tx' where "write_all buf 0 tx = (Fail AUTH_ERR_IO, take k buf, tx')" "k < length buf"
  using write_all_outcome [of buf 0 tx] by (metis diff_zero drop0 le0 prod_cases3)

lemma tcp_send_cases:
  assumes "tc_fd c \<ge> 0" and "length bs \<le> 2048"
  obtains (all) tx' where "auth_tcp_send (Some c) (Some bs) (length bs) tx = (Ret (), frame bs, tx')"
  | (cut_short) k tx' where "auth_tcp_send (Some c) (Some bs) (length bs) tx = (Fail AUTH_ERR_IO, take k (frame bs), tx')"
      "k < length (frame bs)"
proof -
  let ?n = "of_nat (length bs) :: u32"
  let ?hdr = "le_bytes 4 ?n"
  have hdr: "[ucast (?n AND 0xff), ucast (drop_bit 8 ?n AND 0xff), ucast (drop_bit 16 ?n AND 0xff),
      ucast (drop_bit 24 ?n AND 0xff)] = ?hdr" by (simp add: le_bytes_4)
  have send: "auth_tcp_send (Some c) (Some bs) (length bs) tx =
    (let (err, out, tx) = write_all ?hdr 0 tx
     in if err \<noteq> Ret () then (err, out, tx)
        else let (err, out', tx) = write_all bs 0 tx in (err, out @ out', tx))"
    using assms by (simp add: auth_tcp_send_def hdr Let_def split_beta del: ucast_and_ff)
  show thesis
  proof (cases rule: write_all_start [of ?hdr tx])
    case (cut_short k tx')
    then show thesis using that(2) [of k tx'] by (simp add: send frame_def)
  next
    case hdr_all: (all tx1)
    show thesis
    proof (cases rule: write_all_start [of bs tx1])
      case (all tx2)
      then show thesis using that(1) [of tx2] hdr_all by (simp add: send frame_def)
    next
      case (cut_short k tx2)
      then show thesis using that(2) [of "4 + k" tx2] hdr_all by (simp add: send frame_def)
    qed
  qed
qed

text \<open>Receiving, for a reader with a time-out: the outcome is the one of the reference reader.\<close>

lemma tcp_recv_timed:
  assumes "timeout_ms \<ge> 0" and "tc_fd c \<ge> 0"
  shows "auth_tcp_recv (Some c) (Some buf) buf_cap timeout_ms rx =
    (case next_bytes 4 [] rx of
       (Fault, rx) \<Rightarrow> Some (Fault, rx)
     | (Fail err, rx) \<Rightarrow> Some (Fail err, rx)
     | (Ret hdr, rx) \<Rightarrow>
         let len = unat (le_word hdr :: u32) in
         if len > 2048 then Some (Fail AUTH_ERR_PAYLOAD_TOO_LARGE, rx)
         else if len > buf_cap then Some (Fail AUTH_ERR_BUFFER_TOO_SMALL, rx)
         else case next_bytes len [] rx of
             (Fault, rx) \<Rightarrow> Some (Fault, rx)
           | (Fail err, rx) \<Rightarrow> Some (Fail err, rx)
           | (Ret bs, rx) \<Rightarrow> Some (bnd (wrn buf 0 bs len) (\<lambda>buf. Ret (buf, len)), rx))"
proof -
  obtain r rx1 where nb: "next_bytes 4 [] rx = (r, rx1)" by fastforce
  show ?thesis
  proof (cases r)
    case (Ret hdr)
    then have "length hdr = 4" using next_bytes_length [of 4 "[]" rx hdr rx1] nb by simp
    then obtain a b c d where "hdr = [a, b, c, d]" by (auto simp: numeral_eq_Suc length_Suc_conv)
    then have "ucast (hdr ! 0) OR push_bit 8 (ucast (hdr ! 1)) OR push_bit 16 (ucast (hdr ! 2)) OR
        push_bit 24 (ucast (hdr ! 3)) = (le_word hdr :: u32)"
      by (simp add: le_word_4 del: le_word.simps)
    then show ?thesis
      using assms nb Ret
      by (simp add: auth_tcp_recv_def read_all_equiv Let_def split_beta del: le_word.simps split: cres.split)
  qed (use assms nb in \<open>simp_all add: auth_tcp_recv_def read_all_equiv\<close>)
qed

lemma tcp_recv_frame_append:
  assumes "timeout_ms \<ge> 0" and "tc_fd c \<ge> 0" and "length bs \<le> 2048" and "length bs \<le> buf_cap" and "buf_cap \<le> length buf"
    and "lively rx" and "stream_bytes rx = frame bs @ rest"
  shows "\<exists>rx'. auth_tcp_recv (Some c) (Some buf) buf_cap timeout_ms (rx @ post) = Some (Ret (cur buf bs), rx' @ post) \<and>
    lively rx' \<and> stream_bytes rx' = rest"
proof -
  let ?hdr = "le_bytes 4 (of_nat (length bs) :: u32)"
  have bytes: "stream_bytes rx = ?hdr @ (bs @ rest)" using assms(7) by (simp add: frame_def)
  obtain rx1 where rx1: "next_bytes 4 [] (rx @ post) = (Ret ?hdr, rx1 @ post)" "lively rx1" "stream_bytes rx1 = bs @ rest"
    using next_bytes_lively_append [OF assms(6) bytes, of "[]" post] by auto
  obtain rx2 where rx2: "next_bytes (length bs) [] (rx1 @ post) = (Ret bs, rx2 @ post)" "lively rx2" "stream_bytes rx2 = rest"
    using next_bytes_lively_append [OF rx1(2,3), of "[]" post] by auto
  show ?thesis
    using assms(3,4,5) rx1 rx2 unat_frame_length [OF assms(3)]
    by (simp add: Let_def tcp_recv_timed [OF assms(1,2)] le_word_le_bytes wrn_cur_0 cur_eqI)
qed

lemmas tcp_recv_frame = tcp_recv_frame_append [where post = "[]", simplified]

text \<open>A sequence of packets over one connection, as the two programs exchange them.\<close>

fun tcp_send_packets :: "auth_tcp_conn \<Rightarrow> byte list list \<Rightarrow> write_result list \<Rightarrow> (auth_err, unit) cres \<times> byte list \<times> write_result list" where
  "tcp_send_packets c [] tx = (Ret (), [], tx)"
| "tcp_send_packets c (p # ps) tx =
     (let (r, out, tx) = auth_tcp_send (Some c) (Some p) (length p) tx
      in if r \<noteq> Ret () then (r, out, tx)
         else let (r, out', tx) = tcp_send_packets c ps tx in (r, out @ out', tx))"

fun tcp_recv_packets :: "auth_tcp_conn \<Rightarrow> byte list \<Rightarrow> int \<Rightarrow> nat \<Rightarrow> stream \<Rightarrow> ((auth_err, byte list list) cres \<times> stream) option" where
  "tcp_recv_packets c buf t 0 rx = Some (Ret [], rx)"
| "tcp_recv_packets c buf t (Suc n) rx =
     (case auth_tcp_recv (Some c) (Some buf) (length buf) t rx of
        Some (Ret got, rx) \<Rightarrow>
          (case tcp_recv_packets c buf t n rx of
             Some (Ret ps, rx) \<Rightarrow> Some (Ret (sent got # ps), rx)
           | r \<Rightarrow> r)
      | Some (Fail e, rx) \<Rightarrow> Some (Fail e, rx)
      | Some (Fault, rx) \<Rightarrow> Some (Fault, rx)
      | None \<Rightarrow> None)"

lemma tcp_send_packets_frames:
  assumes "tcp_send_packets c ps tx = (Ret (), out, tx')" and "tc_fd c \<ge> 0"
  shows "out = concat (map frame ps) \<and> (\<forall>p\<in>set ps. length p \<le> 2048)"
  using assms
proof (induction ps arbitrary: tx out tx')
  case (Cons p ps)
  have le: "length p \<le> 2048"
    using Cons.prems by (rule_tac ccontr) (auto simp: auth_tcp_send_def split: if_splits)
  from Cons.prems(2) le show ?case
  proof (cases rule: tcp_send_cases [of c p tx])
    case (all tx1)
    then show ?thesis using Cons le by (auto split: prod.splits if_splits)
  next
    case (cut_short k tx1)
    then show ?thesis using Cons.prems by simp
  qed
qed simp

lemma tcp_recv_packets_frames:
  assumes "t \<ge> 0" and "tc_fd c \<ge> 0" and "\<forall>p\<in>set ps. length p \<le> 2048" and "length buf = 2048"
    and "lively rx" and "stream_bytes rx = concat (map frame ps) @ rest"
  shows "\<exists>rx'. tcp_recv_packets c buf t (length ps) rx = Some (Ret ps, rx') \<and> lively rx' \<and> stream_bytes rx' = rest"
  using assms(3,5,6)
proof (induction ps arbitrary: rx)
  case (Cons p ps)
  have "\<exists>rx'. auth_tcp_recv (Some c) (Some buf) (length buf) t rx = Some (Ret (cur buf p), rx') \<and> lively rx' \<and>
      stream_bytes rx' = concat (map frame ps) @ rest"
    by (rule tcp_recv_frame) (use assms Cons.prems in auto)
  then obtain rx1 where rx1: "auth_tcp_recv (Some c) (Some buf) (length buf) t rx = Some (Ret (cur buf p), rx1)"
    "lively rx1" "stream_bytes rx1 = concat (map frame ps) @ rest" by blast
  then obtain rx2 where "tcp_recv_packets c buf t (length ps) rx1 = Some (Ret ps, rx2)" "lively rx2" "stream_bytes rx2 = rest"
    using Cons.IH Cons.prems(1) by auto
  then show ?case using rx1 Cons.prems(1) assms(4) by simp
qed simp

subsection \<open>Properties of the framing\<close>

text \<open>C32: Packets survive the connection. Whatever the short and interrupted writes of the sender, and however the
  network cuts the stream and signals interrupt the reader, the packets a sender handed over without an error are the
  packets the receiver gets, in order and unchanged, and nothing of what follows is consumed.\<close>

theorem tcp_framing_roundtrip:
  assumes "tc_fd c \<ge> 0" and "tcp_send_packets c ps tx = (Ret (), out, tx')"
    and "tc_fd d \<ge> 0" and "length buf = AUTH_MAX_DATAGRAM" and "timeout_ms \<ge> 0"
    and "lively rx" and "stream_bytes rx = out @ rest"
  shows "\<exists>rx'. tcp_recv_packets d buf timeout_ms (length ps) rx = Some (Ret ps, rx') \<and>
    lively rx' \<and> stream_bytes rx' = rest"
  using tcp_send_packets_frames [OF assms(2,1)] tcp_recv_packets_frames [OF assms(5,3) _ assms(4,6)] assms(7) by auto

theorem tcp_framing_roundtrip_witness:
  "\<exists>rx'. tcp_recv_packets \<lparr>tc_fd = 4\<rparr> (replicate 2048 0) 5000 2
       [Rx_data (2, [0]), Rx_intr, Rx_data (0, [0, 7]), Rx_data (8, [1, 0, 0, 0, 9, 5])] = Some (Ret [[7, 8], [9]], rx') \<and>
     lively rx' \<and> stream_bytes rx' = [5]"
proof -
  have "tcp_send_packets \<lparr>tc_fd = 3\<rparr> [[7, 8], [9]] [W_wrote 1, W_intr] = (Ret (), [2, 0, 0, 0, 7, 8, 1, 0, 0, 0, 9], [])"
    by (simp add: auth_tcp_send_def write_all.simps)
  from tcp_framing_roundtrip [OF _ this, of "\<lparr>tc_fd = 4\<rparr>" "replicate 2048 0" 5000
      "[Rx_data (2, [0]), Rx_intr, Rx_data (0, [0, 7]), Rx_data (8, [1, 0, 0, 0, 9, 5])]" "[5]"]
  show ?thesis by (simp add: numeral_2_eq_2 del: tcp_recv_packets.simps replicate.simps)
qed

text \<open>C33: The receive loops are equivalent to the byte-at-a-time reader: with a time-out, reading \<open>len\<close> bytes
  returns on every sequence of events with the outcome the events dictate, errors included, and leaves exactly the
  events that reader leaves.\<close>

theorem read_all_reference:
  assumes "timeout_ms \<ge> 0"
  shows "read_all len timeout_ms [] rx = Some (next_bytes len [] rx)"
  using read_all_equiv [OF assms, of len "[]" rx] by simp

theorem read_all_reference_witness:
  "read_all 3 0 [] [Rx_intr, Rx_data (1, [2]), Rx_eof] = Some (Fail AUTH_ERR_MALFORMED_PACKET, [Rx_eof])"
  using read_all_reference [of 0 3 "[Rx_intr, Rx_data (1, [2]), Rx_eof]"] by (simp add: numeral_eq_Suc)

lemma tcp_recv_returns:
  assumes "timeout_ms \<ge> 0" and "buf_cap \<le> length buf"
  shows "\<exists>r rx'. auth_tcp_recv c (Some buf) buf_cap timeout_ms rx = Some (r, rx') \<and> r \<noteq> Fault"
proof (cases "\<exists>d. c = Some d \<and> tc_fd d \<ge> 0")
  case True
  then obtain d where d: "c = Some d" "tc_fd d \<ge> 0" by blast
  obtain r rx1 where nb: "next_bytes 4 [] rx = (r, rx1)" by fastforce
  show ?thesis
  proof (cases r)
    case (Ret hdr)
    let ?len = "unat (le_word hdr :: u32)"
    obtain r2 rx2 where nb2: "next_bytes ?len [] rx1 = (r2, rx2)" by fastforce
    then show ?thesis
      using nb Ret assms(2) next_bytes_Fault [of ?len "[]" rx1] next_bytes_length [of ?len "[]" rx1]
      by (cases r2) (auto simp: d(1) tcp_recv_timed [OF assms(1) d(2)] Let_def wrn_def simp del: le_word.simps)
  qed (use nb next_bytes_Fault [of 4 "[]" rx] in \<open>auto simp: d(1) tcp_recv_timed [OF assms(1) d(2)]\<close>)
next
  case False
  then show ?thesis by (auto simp: auth_tcp_recv_def split: option.split)
qed

lemma udp_recv_returns:
  assumes "timeout_ms \<ge> 0" and "buf_cap \<le> length buf"
  shows "\<exists>r ds'. auth_udp_recv u (Some buf) buf_cap timeout_ms ds = Some (r, ds') \<and> r \<noteq> Fault"
proof (cases rule: sock_poll_cases [of ds])
  case (ready e es)
  then obtain d es' where "sock_recvfrom (e # es) = Some (d, es')" using recvfrom_ready by fastforce
  then show ?thesis
    using ready(1) assms
    by (cases d) (auto simp: auth_udp_recv_def wrn_def Let_def split: option.split)
qed (use assms in \<open>auto simp: auth_udp_recv_def split_beta split: option.split\<close>)

text \<open>A receive with a time-out always returns, on both transports and whatever the peer, the network and signals
  do, and writes only inside the caller's buffer.\<close>

theorem timed_receive_returns:
  assumes "timeout_ms \<ge> 0" and "buf_cap \<le> length buf"
  shows "(\<exists>r rx'. auth_tcp_recv c (Some buf) buf_cap timeout_ms rx = Some (r, rx') \<and> r \<noteq> Fault) \<and>
    (\<exists>r ds'. auth_udp_recv u (Some buf) buf_cap timeout_ms ds = Some (r, ds') \<and> r \<noteq> Fault)"
  using tcp_recv_returns [OF assms] udp_recv_returns [OF assms] by simp

theorem timed_receive_returns_witness:
  "(\<exists>r rx'. auth_tcp_recv (Some \<lparr>tc_fd = 3\<rparr>) (Some [0, 0]) 2 0 [Rx_data (9, []), Rx_silence] = Some (r, rx') \<and> r \<noteq> Fault) \<and>
   (\<exists>r ds'. auth_udp_recv (Some \<lparr>ud_fd = 3\<rparr>) (Some [0, 0]) 2 0 [Rx_intr] = Some (r, ds') \<and> r \<noteq> Fault)"
  by (rule timed_receive_returns) simp_all

text \<open>C39: How a closed connection is reported. Nothing received: an I/O error. A length prefix cut short: a malformed
  packet. A complete length prefix and no byte of the packet: an I/O error. A packet cut short: a malformed packet.\<close>

theorem tcp_eof_outcome:
  assumes "timeout_ms \<ge> 0" and "tc_fd c \<ge> 0" and "lively pre" and "stream_bytes pre = take k (frame bs)"
    and "k < length (frame bs)" and "length bs \<le> AUTH_MAX_DATAGRAM" and "length bs \<le> buf_cap"
  shows "auth_tcp_recv (Some c) (Some buf) buf_cap timeout_ms (pre @ [Rx_eof]) =
    Some (Fail (if k = 0 \<or> k = 4 then AUTH_ERR_IO else AUTH_ERR_MALFORMED_PACKET), [Rx_eof])"
proof (cases "k < 4")
  case True
  then have "length (stream_bytes pre) = k" using assms(4) by simp
  then show ?thesis
    using next_bytes_eof [OF assms(3), of 4 "[]"] True by (auto simp: tcp_recv_timed [OF assms(1,2)])
next
  case False
  let ?hdr = "le_bytes 4 (of_nat (length bs) :: u32)"
  have bytes: "stream_bytes pre = ?hdr @ take (k - 4) bs" using assms(4) False by (simp add: frame_def)
  obtain pre1 where pre1: "next_bytes 4 [] (pre @ [Rx_eof]) = (Ret ?hdr, pre1 @ [Rx_eof])" "lively pre1"
      "stream_bytes pre1 = take (k - 4) bs"
    using next_bytes_lively_append [OF assms(3) bytes, of "[]" "[Rx_eof]"] by auto
  have "length (stream_bytes pre1) < length bs" using pre1(3) assms(5) False by simp
  then have "next_bytes (length bs) [] (pre1 @ [Rx_eof]) =
      (Fail (if k = 4 then AUTH_ERR_IO else AUTH_ERR_MALFORMED_PACKET), [Rx_eof])"
    using next_bytes_eof [OF pre1(2), of "length bs" "[]"] pre1(3) False assms(5) by auto
  moreover have "unat (of_nat (length bs) :: u32) = length bs" using assms(6) by (rule unat_frame_length)
  ultimately show ?thesis
    using assms(6,7) pre1(1) False by (simp add: tcp_recv_timed [OF assms(1,2)] le_word_le_bytes)
qed

theorem tcp_eof_outcome_witness:
  "auth_tcp_recv (Some \<lparr>tc_fd = 3\<rparr>) (Some (replicate 2048 0)) 2048 5000 ([Rx_data (2, [0, 0, 0])] @ [Rx_eof]) =
     Some (Fail AUTH_ERR_IO, [Rx_eof])"
  using tcp_eof_outcome [of 5000 "\<lparr>tc_fd = 3\<rparr>" "[Rx_data (2, [0, 0, 0])]" 4 "[7, 8]" 2048 "replicate 2048 0"]
  by (simp add: frame_def le_bytes_4)

subsection \<open>Addresses: round trip\<close>

lemma takeWhile_upto: "c \<notin> set xs \<Longrightarrow> takeWhile (\<lambda>x. x \<noteq> c) (xs @ c # ys) = xs"
  by (induction xs) auto

lemma split_hostport_bracket:
  assumes "CHR '']'' \<notin> set host" and "length host < 256" and "length port < 32"
  shows "split_hostport (''['' @ host @ '']:'' @ port) = Ret (host, port)"
proof -
  have "takeWhile (\<lambda>c. c \<noteq> CHR '']'') (''['' @ host @ '']:'' @ port) = ''['' @ host"
    using assms(1) by (simp add: takeWhile_upto)
  then show ?thesis using assms by (simp add: split_hostport_def snprintf_s_def nth_append)
qed

lemma split_hostport_plain:
  assumes "CHR '':'' \<notin> set port" and "take 1 host \<noteq> ''[''" and "length host < 256" and "length port < 32"
  shows "split_hostport (host @ '':'' @ port) = Ret (host, port)"
proof -
  have "takeWhile (\<lambda>c. c \<noteq> CHR '':'') (rev (host @ '':'' @ port)) = rev port"
    using assms(1) by (simp add: takeWhile_upto)
  moreover have "(host @ '':'' @ port) ! 0 \<noteq> CHR ''[''" using assms(2) by (cases host) auto
  ultimately show ?thesis using assms(3,4) by (simp add: split_hostport_def snprintf_s_def)
qed

definition wf_addr :: "auth_addr \<Rightarrow> bool" where
  [wf_defs]: "wf_addr a \<longleftrightarrow>
     2 \<le> aa_sa_len a \<and> aa_sa_len a \<le> SS_DATA_LEN + 2 \<and> length (ss_data (aa_sa a)) = SS_DATA_LEN \<and>
     drop (aa_sa_len a - 2) (ss_data (aa_sa a)) = replicate (SS_DATA_LEN + 2 - aa_sa_len a) 0"

lemma addr_of_bytes:
  assumes "wf_addr a"
  shows "zero_addr\<lparr>aa_sa := \<lparr>ss_family = ss_family (addr_bytes a),
      ss_data = ss_data (addr_bytes a) @ drop (length (ss_data (addr_bytes a))) (ss_data (aa_sa zero_addr))\<rparr>,
      aa_sa_len := length (ss_data (addr_bytes a)) + 2\<rparr> = a"
proof -
  let ?d = "ss_data (aa_sa a)" and ?n = "aa_sa_len a - 2"
  have n: "min SS_DATA_LEN ?n = ?n" "?n + 2 = aa_sa_len a" "SS_DATA_LEN - ?n = SS_DATA_LEN + 2 - aa_sa_len a"
    using assms by (auto simp: wf_addr_def)
  then have "take ?n ?d @ replicate (SS_DATA_LEN - ?n) 0 = ?d"
    using assms append_take_drop_id [of ?n ?d] by (simp add: wf_addr_def)
  then show ?thesis
    using assms n by (simp add: addr_bytes_def zero_addr_def wf_addr_def)
qed

text \<open>An address printed and parsed again is the same address, for IPv4 and IPv6, whenever the resolver prints a
  numeric host and service and resolves what it printed, and the caller's buffer is long enough.\<close>

theorem addr_roundtrip:
  assumes "wf_addr a" and "getnameinfo (addr_bytes a) = Some (host, port)"
    and "getaddrinfo host port = Some (addr_bytes a # others)"
    and "CHR '']'' \<notin> set host" and "take 1 host \<noteq> ''[''" and "CHR '':'' \<notin> set port"
    and "length host < 256" and "length port < 32" and "length host + length port + 3 < cap"
  shows "auth_addr_parse getaddrinfo (Some (auth_addr_format getnameinfo (Some a) cap)) = Ret a"
proof -
  have "split_hostport (auth_addr_format getnameinfo (Some a) cap) = Ret (host, port)"
    using assms split_hostport_bracket [of host port] split_hostport_plain [of port host]
    by (simp add: auth_addr_format_def snprintf_s_def wf_addr_def)
  moreover have "length (ss_data (addr_bytes a)) \<le> SS_DATA_LEN" using assms(1) by (simp add: addr_bytes_def wf_addr_def)
  ultimately show ?thesis
    using assms(3) addr_of_bytes [OF assms(1)] by (simp add: auth_addr_parse_def)
qed

text \<open>A resolver that knows one address, \<^verbatim>\<open>[::1]:7\<close>.\<close>

definition loopback6 :: auth_addr where
  "loopback6 = \<lparr>aa_sa = \<lparr>ss_family = AF_INET6, ss_data = [0, 7] @ replicate 19 0 @ [1] @ replicate 104 0\<rparr>, aa_sa_len = 28\<rparr>"

theorem addr_roundtrip_witness:
  "auth_addr_parse (\<lambda>h p. if h = ''::1'' \<and> p = ''7'' then Some [addr_bytes loopback6] else None)
     (Some (auth_addr_format (\<lambda>a. Some (''::1'', ''7'')) (Some loopback6) 64)) = Ret loopback6"
  by (rule addr_roundtrip [where host = "''::1''" and port = "''7''" and others = "[]"])
    (simp_all add: loopback6_def wf_addr_def SS_DATA_LEN_def)

subsection \<open>Descriptors are not leaked\<close>

text \<open>An endpoint of the transport layer: a handle with a descriptor, an operation that makes the descriptor \<open>fresh\<close>
  the handle's, and one that closes it.\<close>

locale endpoint =
  fixes fd_of :: "'h \<Rightarrow> int"
    and make :: "int \<Rightarrow> int set \<Rightarrow> (auth_err, 'h) cres \<times> int set"
    and close :: "'h option \<Rightarrow> int set \<Rightarrow> 'h option \<times> int set"
  assumes make_ok: "make fresh fds = (Ret h, fds') \<Longrightarrow> fd_of h = fresh \<and> fresh \<ge> 0 \<and> fds' = insert fresh fds"
    and make_fail: "make fresh fds = (Fail e, fds') \<Longrightarrow> fds' = fds \<or> fds' = fds - {fresh}"
    and make_no_fault: "fst (make fresh fds) \<noteq> Fault"
    and close_open: "fd_of h \<ge> 0 \<Longrightarrow> \<exists>h'. close (Some h) fds = (Some h', fds - {fd_of h}) \<and> fd_of h' = -1"
    and close_closed: "fd_of h < 0 \<Longrightarrow> close (Some h) fds = (Some h, fds)"
begin

lemma make_close:
  assumes "fresh \<notin> fds"
  shows "(\<exists>e. make fresh fds = (Fail e, fds)) \<or>
    (\<exists>h h'. make fresh fds = (Ret h, insert fresh fds) \<and> close (Some h) (insert fresh fds) = (Some h', fds) \<and>
       (\<forall>fds. close (Some h') fds = (Some h', fds)))"
proof (cases "make fresh fds")
  case (Pair r fds')
  show ?thesis
  proof (cases r)
    case Fault
    then show ?thesis using make_no_fault [of fresh fds] Pair by simp
  next
    case (Fail e)
    then show ?thesis using make_fail Pair assms by auto
  next
    case (Ret h)
    then have h: "fd_of h = fresh" "fresh \<ge> 0" "fds' = insert fresh fds" using make_ok Pair by auto
    obtain h' where "close (Some h) (insert fresh fds) = (Some h', insert fresh fds - {fresh})" "fd_of h' = -1"
      using close_open [of h "insert fresh fds"] h by auto
    then show ?thesis using Pair Ret h assms close_closed [of h'] by auto
  qed
qed

end

lemma addr_parse_no_fault [simp]: "auth_addr_parse g p \<noteq> Fault"
  by (auto simp: auth_addr_parse_def split_hostport_def Let_def bnd_iffs split: option.splits list.splits)

lemmas endpoint_defs = auth_tcp_listener_bind_def auth_tcp_listener_close_def auth_tcp_connect_def
  auth_tcp_conn_close_def auth_udp_bind_def auth_udp_connect_def auth_udp_close_def

interpretation listener: endpoint tl_fd "\<lambda>fd. auth_tcp_listener_bind g (io\<lparr>sio_socket := fd\<rparr>) l p" auth_tcp_listener_close for g io l p
  by unfold_locales (cases "auth_addr_parse g p"; auto simp: endpoint_defs Let_def split: if_splits option.splits)+

interpretation tcp_conn: endpoint tc_fd "\<lambda>fd. auth_tcp_connect g (io\<lparr>sio_socket := fd\<rparr>) c p" auth_tcp_conn_close for g io c p
  by unfold_locales (cases "auth_addr_parse g p"; auto simp: endpoint_defs Let_def split: if_splits option.splits)+

interpretation udp_bound: endpoint ud_fd "\<lambda>fd. auth_udp_bind g (io\<lparr>sio_socket := fd\<rparr>) u p" auth_udp_close for g io u p
  by unfold_locales (cases "auth_addr_parse g p"; auto simp: endpoint_defs Let_def split: if_splits option.splits)+

interpretation udp_connected: endpoint ud_fd "\<lambda>fd. auth_udp_connect g (io\<lparr>sio_socket := fd\<rparr>) u p" auth_udp_close for g io u p
  by unfold_locales (cases "auth_addr_parse g p"; auto simp: endpoint_defs Let_def split: if_splits option.splits)+

text \<open>No call of the transport layer leaks or double-closes a descriptor. Making a listener, a TCP connection, a
  bound or a connected UDP socket either fails and leaves the open descriptors as they were, or succeeds with exactly
  the new descriptor added; closing the handle removes exactly that one, and closing it again does nothing.\<close>

theorem no_descriptor_leak:
  assumes "fd \<notin> fds"
  shows "((\<exists>e. auth_tcp_listener_bind g (io\<lparr>sio_socket := fd\<rparr>) l p fds = (Fail e, fds)) \<or>
      (\<exists>h h'. auth_tcp_listener_bind g (io\<lparr>sio_socket := fd\<rparr>) l p fds = (Ret h, insert fd fds) \<and>
        auth_tcp_listener_close (Some h) (insert fd fds) = (Some h', fds) \<and>
        (\<forall>fds. auth_tcp_listener_close (Some h') fds = (Some h', fds)))) \<and>
    ((\<exists>e. auth_tcp_connect g (io\<lparr>sio_socket := fd\<rparr>) c p fds = (Fail e, fds)) \<or>
      (\<exists>h h'. auth_tcp_connect g (io\<lparr>sio_socket := fd\<rparr>) c p fds = (Ret h, insert fd fds) \<and>
        auth_tcp_conn_close (Some h) (insert fd fds) = (Some h', fds) \<and>
        (\<forall>fds. auth_tcp_conn_close (Some h') fds = (Some h', fds)))) \<and>
    ((\<exists>e. auth_udp_bind g (io\<lparr>sio_socket := fd\<rparr>) u p fds = (Fail e, fds)) \<or>
      (\<exists>h h'. auth_udp_bind g (io\<lparr>sio_socket := fd\<rparr>) u p fds = (Ret h, insert fd fds) \<and>
        auth_udp_close (Some h) (insert fd fds) = (Some h', fds) \<and>
        (\<forall>fds. auth_udp_close (Some h') fds = (Some h', fds)))) \<and>
    ((\<exists>e. auth_udp_connect g (io\<lparr>sio_socket := fd\<rparr>) u p fds = (Fail e, fds)) \<or>
      (\<exists>h h'. auth_udp_connect g (io\<lparr>sio_socket := fd\<rparr>) u p fds = (Ret h, insert fd fds) \<and>
        auth_udp_close (Some h) (insert fd fds) = (Some h', fds) \<and>
        (\<forall>fds. auth_udp_close (Some h') fds = (Some h', fds))))"
  using listener.make_close [OF assms, of g io l p] tcp_conn.make_close [OF assms, of g io c p]
    udp_bound.make_close [OF assms, of g io u p] udp_connected.make_close [OF assms, of g io u p] by blast

theorem no_descriptor_leak_witness:
  "\<exists>h h'. auth_udp_connect (\<lambda>h p. Some [addr_bytes loopback6]) \<lparr>sio_socket = 5, sio_bind = True, sio_listen = True, sio_connect = True\<rparr>
       (Some \<lparr>ud_fd = -1\<rparr>) (Some ''[::1]:7'') {3} = (Ret h, {3, 5}) \<and>
     auth_udp_close (Some h) {3, 5} = (Some h', {3})"
proof -
  let ?io = "\<lparr>sio_socket = 5, sio_bind = True, sio_listen = True, sio_connect = True\<rparr>"
  have "\<exists>a. auth_addr_parse (\<lambda>h p. Some [addr_bytes loopback6]) (Some ''[::1]:7'') = Ret a"
    by (simp add: auth_addr_parse_def split_hostport_def snprintf_s_def addr_bytes_def loopback6_def SS_DATA_LEN_def)
  then have "auth_udp_connect (\<lambda>h p. Some [addr_bytes loopback6]) ?io (Some \<lparr>ud_fd = -1\<rparr>) (Some ''[::1]:7'') {3} \<noteq> (Fail e, {3})" for e
    by (auto simp: auth_udp_connect_def Let_def)
  then show ?thesis
    using no_descriptor_leak [of 5 "{3}" "\<lambda>h p. Some [addr_bytes loopback6]" ?io None "Some ''[::1]:7''" None "Some \<lparr>ud_fd = -1\<rparr>"]
    by (auto simp: insert_commute)
qed

end
