(* ===== verification/Client.thy ===== *)
theory Client
  imports Transport Handshake
begin

text \<open>
  The client program \<^verbatim>\<open>c/bin/client.c\<close>: its command line, the exchange of one packet for one reply over either
  transport, enrolment (\<^verbatim>\<open>do_setup\<close>), authentication (\<^verbatim>\<open>do_auth\<close>) and \<^verbatim>\<open>main\<close>.

  A function that returns an exit status has the outcome \<open>Ret\<close> for 0 and \<open>Fail n\<close> for \<open>n\<close>. Everything the run
  depends on is an argument: the bytes drawn from the random generator, the file system and the answers of the
  operating system, and the events at the socket. The file operations a run performs are part of its result. Messages
  on the standard streams are not represented, except the session-key prefix a successful authentication prints. The
  array \<^verbatim>\<open>allowed\<close> with its count \<^verbatim>\<open>n_allowed\<close> is the list of the roles in use.
\<close>

subsection \<open>Command line\<close>

datatype transport_kind = TRANSPORT_UDP | TRANSPORT_TCP

record args =
  ar_server :: "string option"
  ar_transport :: transport_kind
  ar_state_dir :: "string option"
  ar_do_setup :: bool
  ar_allow_tofu :: bool
  ar_role :: u64
  ar_allowed :: "u64 list"
  ar_pairing_token :: "string option"

text \<open>\<^verbatim>\<open>strtoull(s, &end, 10)\<close>: the value and the string at \<^verbatim>\<open>end\<close>, which is \<open>s\<close> itself when there is no number.\<close>

definition isspace :: "char \<Rightarrow> bool" where
  "isspace c \<longleftrightarrow> (let n = (of_char c :: nat) in n = 32 \<or> 9 \<le> n \<and> n \<le> 13)"

definition isdigit :: "char \<Rightarrow> bool" where
  "isdigit c \<longleftrightarrow> (let n = (of_char c :: nat) in 48 \<le> n \<and> n \<le> 57)"

definition digits_value :: "string \<Rightarrow> nat" where
  "digits_value ds = foldl (\<lambda>n c. 10 * n + (of_char c - 48)) 0 ds"

definition strtoull :: "string \<Rightarrow> u64 \<times> string" where
  "strtoull s =
     (let t = dropWhile isspace s;
          neg = (t \<noteq> [] \<and> hd t = CHR ''-'');
          u = (if t \<noteq> [] \<and> (hd t = CHR ''-'' \<or> hd t = CHR ''+'') then tl t else t);
          ds = takeWhile isdigit u; n = digits_value ds
      in if ds = [] then (0, s)
         else (if n \<ge> 2 ^ 64 then - 1 else if neg then - of_nat n else of_nat n, dropWhile isdigit u))"

lemma length_strtoull: "(v, end) = strtoull s \<Longrightarrow> end \<noteq> s \<Longrightarrow> length end < length s"
proof -
  assume st: "(v, end) = strtoull s" and ne: "end \<noteq> s"
  let ?t = "dropWhile isspace s"
  let ?u = "if ?t \<noteq> [] \<and> (hd ?t = CHR ''-'' \<or> hd ?t = CHR ''+'') then tl ?t else ?t"
  from st ne have ne: "takeWhile isdigit ?u \<noteq> []" and eq: "end = dropWhile isdigit ?u"
    by (auto simp: strtoull_def Let_def split: if_splits)
  have "length (dropWhile isdigit ?u) < length ?u"
    using ne arg_cong [OF takeWhile_dropWhile_id [of isdigit ?u], of length] by (simp only: length_append) (simp flip: length_greater_0_conv)
  also have "\<dots> \<le> length ?t" by simp
  also have "\<dots> \<le> length s" by (rule length_dropWhile_le)
  finally show ?thesis by (simp add: eq)
qed

text \<open>\<^verbatim>\<open>while (*p && *n_out < cap)\<close>; \<open>out\<close> holds the roles stored so far.\<close>

function parse_role_list :: "string \<Rightarrow> nat \<Rightarrow> u64 list \<Rightarrow> u64 list option" where
  "parse_role_list p cap out =
     (if p = [] \<or> length out \<ge> cap then Some out
      else
        let (v, end) = strtoull p in
        if end = p then None
        else
          let out = out @ [v]; p = end in
          if p \<noteq> [] \<and> hd p = CHR '','' then parse_role_list (tl p) cap out
          else if p \<noteq> [] then None
          else parse_role_list p cap out)"
  by pat_completeness auto

termination parse_role_list
  by (relation "measure (\<lambda>(p, cap, out). length p)") (auto dest: length_strtoull)

declare parse_role_list.simps [simp del]

datatype parsed_args = Args_bad | Args_help | Args args

definition default_args :: args where
  "default_args =
     \<lparr>ar_server = None, ar_transport = TRANSPORT_UDP, ar_state_dir = None, ar_do_setup = False, ar_allow_tofu = False,
      ar_role = 2, ar_allowed = [1, 2], ar_pairing_token = None\<rparr>"

fun parse_argv :: "string list \<Rightarrow> args \<Rightarrow> parsed_args" where
  "parse_argv [] a = Args a"
| "parse_argv (k # argv) a =
     (if k = ''--server'' \<and> argv \<noteq> [] then parse_argv (tl argv) (a\<lparr>ar_server := Some (hd argv)\<rparr>)
      else if k = ''--transport'' \<and> argv \<noteq> [] then
        (if hd argv = ''udp'' then parse_argv (tl argv) (a\<lparr>ar_transport := TRANSPORT_UDP\<rparr>)
         else if hd argv = ''tcp'' then parse_argv (tl argv) (a\<lparr>ar_transport := TRANSPORT_TCP\<rparr>)
         else Args_bad)
      else if k = ''--state-dir'' \<and> argv \<noteq> [] then parse_argv (tl argv) (a\<lparr>ar_state_dir := Some (hd argv)\<rparr>)
      else if k = ''--setup'' then parse_argv argv (a\<lparr>ar_do_setup := True\<rparr>)
      else if k = ''--allow-tofu-setup'' then parse_argv argv (a\<lparr>ar_allow_tofu := True\<rparr>)
      else if k = ''--role'' \<and> argv \<noteq> [] then parse_argv (tl argv) (a\<lparr>ar_role := fst (strtoull (hd argv))\<rparr>)
      else if k = ''--allowed-roles'' \<and> argv \<noteq> [] then
        (case parse_role_list (hd argv) AUTH_MAX_ROLES [] of
           None \<Rightarrow> Args_bad
         | Some roles \<Rightarrow> parse_argv (tl argv) (a\<lparr>ar_allowed := roles\<rparr>))
      else if k = ''--pairing-token'' \<and> argv \<noteq> [] then parse_argv (tl argv) (a\<lparr>ar_pairing_token := Some (hd argv)\<rparr>)
      else if k = ''-h'' \<or> k = ''--help'' then Args_help
      else Args_bad)"

definition parse_args :: "string list \<Rightarrow> parsed_args" where
  "parse_args argv =
     (case parse_argv (drop 1 argv) default_args of
        Args a \<Rightarrow>
          if ar_server a = None then Args_bad
          else if ar_state_dir a = None then Args (a\<lparr>ar_state_dir := Some ''./client-state''\<rparr>)
          else Args a
      | r \<Rightarrow> r)"

subsection \<open>One packet out, one packet in\<close>

record client_transport =
  ct_kind :: transport_kind
  ct_udp :: auth_udp
  ct_tcp :: auth_tcp_conn

text \<open>The socket: what will arrive, what the kernel will answer to the next sends, and what has been handed to it (a
  datagram, or the bytes of one call on a stream, per entry).\<close>

record client_net =
  cn_stream :: stream
  cn_dgrams :: dgrams
  cn_tx :: "write_result list"
  cn_sent :: "byte list list"

definition transport_connect ::
    "resolver \<Rightarrow> sock_io \<Rightarrow> client_transport \<Rightarrow> string \<Rightarrow> int set \<Rightarrow> (auth_err, client_transport) cres \<times> int set" where
  "transport_connect getaddrinfo io t server fds =
     (if ct_kind t = TRANSPORT_UDP then
        let (r, fds) = auth_udp_connect getaddrinfo io (Some (ct_udp t)) (Some server) fds
        in (bnd r (\<lambda>u. Ret (t\<lparr>ct_udp := u\<rparr>)), fds)
      else
        let (r, fds) = auth_tcp_connect getaddrinfo io (Some (ct_tcp t)) (Some server) fds
        in (bnd r (\<lambda>c. Ret (t\<lparr>ct_tcp := c\<rparr>)), fds))"

definition transport_close :: "client_transport \<Rightarrow> int set \<Rightarrow> client_transport \<times> int set" where
  "transport_close t fds =
     (if ct_kind t = TRANSPORT_UDP then
        let (u, fds) = auth_udp_close (Some (ct_udp t)) fds in (t\<lparr>ct_udp := the u\<rparr>, fds)
      else let (c, fds) = auth_tcp_conn_close (Some (ct_tcp t)) fds in (t\<lparr>ct_tcp := the c\<rparr>, fds))"

definition transport_send :: "client_transport \<Rightarrow> byte list \<Rightarrow> nat \<Rightarrow> client_net \<Rightarrow> (auth_err, unit) cres \<times> client_net" where
  "transport_send t out out_len net =
     (if ct_kind t = TRANSPORT_UDP then
        let (r, ds, tx) = auth_udp_send (Some (ct_udp t)) None (Some out) out_len (cn_tx net)
        in (r, net\<lparr>cn_tx := tx, cn_sent := cn_sent net @ map snd ds\<rparr>)
      else
        let (r, bs, tx) = auth_tcp_send (Some (ct_tcp t)) (Some out) out_len (cn_tx net)
        in (r, net\<lparr>cn_tx := tx, cn_sent := cn_sent net @ [bs]\<rparr>))"

definition transport_recv :: "client_transport \<Rightarrow> byte list \<Rightarrow> nat \<Rightarrow> int \<Rightarrow> client_net \<Rightarrow> ((auth_err, cursor) cres \<times> client_net) option" where
  "transport_recv t inp in_cap timeout_ms net =
     (if ct_kind t = TRANSPORT_UDP then
        (case auth_udp_recv (Some (ct_udp t)) (Some inp) in_cap timeout_ms (cn_dgrams net) of
           None \<Rightarrow> None
         | Some (r, ds) \<Rightarrow> Some (bnd r (\<lambda>(c, peer). Ret c), net\<lparr>cn_dgrams := ds\<rparr>))
      else
        (case auth_tcp_recv (Some (ct_tcp t)) (Some inp) in_cap timeout_ms (cn_stream net) of
           None \<Rightarrow> None
         | Some (r, rx) \<Rightarrow> Some (r, net\<lparr>cn_stream := rx\<rparr>)))"

fun exchange_attempts ::
    "nat \<Rightarrow> client_transport \<Rightarrow> byte list \<Rightarrow> nat \<Rightarrow> byte list \<Rightarrow> nat \<Rightarrow> client_net \<Rightarrow>
     ((auth_err, cursor) cres \<times> client_net) option" where
  "exchange_attempts 0 t out out_len inp in_cap net = Some (Fail AUTH_ERR_TIMEOUT, net)"
| "exchange_attempts (Suc n) t out out_len inp in_cap net =
     (case transport_send t out out_len net of
        (Fault, net) \<Rightarrow> Some (Fault, net)
      | (Fail err, net) \<Rightarrow> Some (Fail err, net)
      | (Ret _, net) \<Rightarrow>
          case transport_recv t inp in_cap 5000 net of
            Some (Fail err, net) \<Rightarrow>
              if err \<noteq> AUTH_ERR_TIMEOUT then Some (Fail err, net)
              else exchange_attempts n t out out_len inp in_cap net
          | r \<Rightarrow> r)"

definition send_then_recv ::
    "client_transport \<Rightarrow> byte list \<Rightarrow> nat \<Rightarrow> byte list \<Rightarrow> nat \<Rightarrow> client_net \<Rightarrow> ((auth_err, cursor) cres \<times> client_net) option" where
  "send_then_recv t out out_len inp in_cap net =
     exchange_attempts (if ct_kind t = TRANSPORT_UDP then 2 else 1) t out out_len inp in_cap net"

subsection \<open>Paths\<close>

definition path_join :: "nat \<Rightarrow> string \<Rightarrow> string \<Rightarrow> string" where
  "path_join cap dir file = snprintf_s cap (dir @ ''/'' @ file)"

datatype stat_answer = Stat_none | Stat_dir | Stat_other

definition mkdir_p :: "stat_answer \<Rightarrow> int \<Rightarrow> int" where
  "mkdir_p st mkdir_result = (case st of Stat_none \<Rightarrow> mkdir_result | Stat_dir \<Rightarrow> 0 | Stat_other \<Rightarrow> -1)"

subsection \<open>Enrolment\<close>

definition exit_on ::
    "(auth_err, 'a) cres \<Rightarrow> client_net \<Rightarrow> ('a \<Rightarrow> ((int, 'b) cres \<times> fs_op list \<times> client_net) option) \<Rightarrow>
     ((int, 'b) cres \<times> fs_op list \<times> client_net) option" where
  "exit_on r net k = (case r of Fault \<Rightarrow> Some (Fault, [], net) | Fail e \<Rightarrow> Some (Fail 1, [], net) | Ret a \<Rightarrow> k a)"

definition exchange ::
    "client_transport \<Rightarrow> cursor \<Rightarrow> client_net \<Rightarrow> (byte list \<Rightarrow> client_net \<Rightarrow> ((int, 'b) cres \<times> fs_op list \<times> client_net) option) \<Rightarrow>
     ((int, 'b) cres \<times> fs_op list \<times> client_net) option" where
  "exchange t out net k =
     (case send_then_recv t (fst out) (snd out) (replicate AUTH_MAX_DATAGRAM 0) AUTH_MAX_DATAGRAM net of
        None \<Rightarrow> None
      | Some (r, net) \<Rightarrow> exit_on r net (\<lambda>c. k (sent c) net))"

definition zero_client :: auth_client_ctx where
  "zero_client =
     \<lparr>cc_device_root = replicate 32 0, cc_device_id = replicate 32 0, cc_device_sk = replicate 32 0,
      cc_device_pub = replicate 32 0, cc_server_pub_pinned = replicate 32 0, cc_has_pinned_server = False,
      cc_role_commitment = replicate 32 0, cc_role_blind = replicate 32 0, cc_role_code = 0, cc_has_role = False,
      cc_session_id = replicate 16 0, cc_seq = 0, cc_client_nonce = replicate 32 0, cc_eph_secret = replicate 32 0,
      cc_eph_c = replicate 32 0, cc_pending_client_proof = zero_proof, cc_pending_server_pub = replicate 32 0,
      cc_pending_server_nonce = replicate 32 0, cc_pending_setup_challenge = replicate 16 0,
      cc_session_key = replicate 32 0, cc_kc_th = replicate 32 0, cc_kc_k_s2c = replicate 32 0,
      cc_kc_k_c2s = replicate 32 0, cc_auth_complete = False\<rparr>"

text \<open>The device keys, and \<^verbatim>\<open>auth_client_ctx_init\<close>.\<close>

definition device_ctx :: "sodium \<Rightarrow> byte list \<Rightarrow> auth_credentials \<Rightarrow> (auth_err, auth_client_ctx) cres" where
  "device_ctx S random16 creds =
     (let ctx = zero_client\<lparr>cc_device_root := cr_device_root creds,
                  cc_device_id := auth_derive_device_id S (cr_device_root creds),
                  cc_device_sk := auth_derive_device_scalar S (cr_device_root creds)\<rparr>
      in bnd (auth_scalarmult_base S (cc_device_sk ctx)) (\<lambda>pub.
         Ret (auth_client_ctx_init random16 (ctx\<lparr>cc_device_pub := pub\<rparr>))))"

definition setup_ctx :: "sodium \<Rightarrow> byte list \<Rightarrow> auth_credentials \<Rightarrow> u64 \<Rightarrow> (auth_err, auth_client_ctx) cres" where
  "setup_ctx S random16 creds role =
     bnd (device_ctx S random16 creds) (\<lambda>ctx.
     Ret (ctx\<lparr>cc_has_pinned_server := cr_has_pinned_server creds, cc_server_pub_pinned := cr_server_pub_pinned creds,
              cc_has_role := cr_has_role creds, cc_role_commitment := cr_role_commitment creds,
              cc_role_blind := cr_role_blind creds,
              cc_role_code := (if cr_has_role creds then cr_role_code creds else role)\<rparr>))"

text \<open>\<^verbatim>\<open>if (err == AUTH_ERR_CREDENTIAL_MISSING) auth_creds_init_fresh(&creds);\<close>\<close>

definition load_or_fresh :: "read_io \<Rightarrow> byte list \<Rightarrow> fs \<Rightarrow> path \<Rightarrow> (auth_err, auth_credentials) cres" where
  "load_or_fresh io random fs cred_path =
     (case auth_creds_load io fs (Some cred_path) of
        Fail err \<Rightarrow> if err = AUTH_ERR_CREDENTIAL_MISSING then Ret (auth_creds_init_fresh random) else Fail err
      | r \<Rightarrow> r)"

record setup_random =
  sr_root :: "byte list"
  sr_session :: "byte list"
  sr_nonce :: "byte list"
  sr_blind :: "byte list"
  sr_client :: "byte list"

definition enrolled_creds :: "auth_credentials \<Rightarrow> auth_client_ctx \<Rightarrow> auth_credentials" where
  "enrolled_creds creds ctx =
     creds\<lparr>cr_has_pinned_server := True, cr_server_pub_pinned := cc_server_pub_pinned ctx, cr_has_role := True,
           cr_role_commitment := cc_role_commitment ctx, cr_role_blind := cc_role_blind ctx,
           cr_role_code := cc_role_code ctx\<rparr>"

text \<open>SETUP_3, its acknowledgement, and the credential file.\<close>

definition finish_setup ::
    "sodium \<Rightarrow> write_io \<Rightarrow> byte list \<Rightarrow> path \<Rightarrow> client_transport \<Rightarrow> auth_credentials \<Rightarrow> auth_client_ctx \<Rightarrow> client_net \<Rightarrow>
     ((int, unit) cres \<times> fs_op list \<times> client_net) option" where
  "finish_setup S wio wide cred_path t creds ctx net =
     (let (r, ctx) = auth_client_build_setup3 S wide ctx (Some (replicate AUTH_MAX_DATAGRAM 0)) in
      exit_on r net (\<lambda>out.
      exchange t out net (\<lambda>inp net.
      let (r, ctx) = auth_client_handle_setup_ack ctx (Some inp) in
      exit_on r net (\<lambda>_.
      let (ops, r) = auth_creds_save wio (Some (enrolled_creds creds ctx)) (Some cred_path) in
      Some (case r of Fault \<Rightarrow> Fault | Fail e \<Rightarrow> Fail 1 | Ret _ \<Rightarrow> Ret (), ops, net)))))"

definition do_setup ::
    "sodium \<Rightarrow> read_io \<Rightarrow> write_io \<Rightarrow> setup_random \<Rightarrow> args \<Rightarrow> client_transport \<Rightarrow> fs \<Rightarrow> client_net \<Rightarrow>
     ((int, unit) cres \<times> fs_op list \<times> client_net) option" where
  "do_setup S rio wio rnd a t fs net =
     (let cred_path = path_join 512 (the (ar_state_dir a)) ''credentials.bin'' in
      exit_on (load_or_fresh rio (sr_root rnd) fs cred_path) net (\<lambda>creds.
      exit_on (setup_ctx S (sr_session rnd) creds (ar_role a)) net (\<lambda>ctx.
      let token = map_option ascii (ar_pairing_token a);
          (r, ctx) = auth_client_build_setup1 S (sr_nonce rnd) (sr_blind rnd) ctx token
            (case token of Some tok \<Rightarrow> length tok | None \<Rightarrow> 0) (Some (replicate AUTH_MAX_DATAGRAM 0)) in
      exit_on r net (\<lambda>out.
      exchange t out net (\<lambda>inp net.
      let (r, ctx) = auth_client_handle_setup2 S ctx (Some inp) (ar_allow_tofu a) in
      exit_on r net (\<lambda>_. finish_setup S wio (sr_client rnd) cred_path t creds ctx net))))))"

subsection \<open>Authentication\<close>

definition auth_ctx :: "sodium \<Rightarrow> byte list \<Rightarrow> auth_credentials \<Rightarrow> (auth_err, auth_client_ctx) cres" where
  "auth_ctx S random16 creds =
     bnd (device_ctx S random16 creds) (\<lambda>ctx.
     Ret (ctx\<lparr>cc_has_pinned_server := True, cc_server_pub_pinned := cr_server_pub_pinned creds, cc_has_role := True,
              cc_role_commitment := cr_role_commitment creds, cc_role_blind := cr_role_blind creds,
              cc_role_code := cr_role_code creds\<rparr>))"

definition do_auth ::
    "sodium \<Rightarrow> read_io \<Rightarrow> byte list \<Rightarrow> auth1_random \<Rightarrow> args \<Rightarrow> client_transport \<Rightarrow> fs \<Rightarrow> client_net \<Rightarrow>
     ((int, byte list) cres \<times> fs_op list \<times> client_net) option" where
  "do_auth S rio session_random rnd a t fs net =
     (let cred_path = path_join 512 (the (ar_state_dir a)) ''credentials.bin'' in
      exit_on (auth_creds_load rio fs (Some cred_path)) net (\<lambda>creds.
      if \<not> cr_has_pinned_server creds \<or> \<not> cr_has_role creds then Some (Fail 1, [], net)
      else
      exit_on (auth_ctx S session_random creds) net (\<lambda>ctx.
      let (r, ctx) = auth_client_build_auth1 S rnd ctx (Some (ar_allowed a)) (length (ar_allowed a))
            (Some (replicate AUTH_MAX_DATAGRAM 0)) in
      exit_on r net (\<lambda>out.
      exchange t out net (\<lambda>inp net.
      let (r, ctx) = auth_client_handle_auth2 S ctx (Some inp) in
      exit_on r net (\<lambda>_.
      let (r, ctx) = auth_client_build_auth3 S ctx (Some (replicate AUTH_MAX_DATAGRAM 0)) in
      exit_on r net (\<lambda>out.
      exchange t out net (\<lambda>inp net.
      let (r, ctx) = auth_client_handle_auth_ack ctx (Some inp) in
      exit_on r net (\<lambda>_. Some (Ret (take 8 (cc_session_key ctx)), [], net))))))))))"

subsection \<open>Main\<close>

record client_os =
  co_sodium_init :: bool
  co_stat :: stat_answer
  co_mkdir :: int
  co_resolver :: resolver
  co_sock :: sock_io
  co_rio :: read_io
  co_wio :: write_io
  co_transport :: client_transport

record client_random =
  cl_setup :: setup_random
  cl_session :: "byte list"
  cl_auth :: auth1_random

text \<open>The exit status, the file operations and the descriptors left open.\<close>

definition client_main ::
    "sodium \<Rightarrow> client_os \<Rightarrow> client_random \<Rightarrow> string list \<Rightarrow> fs \<Rightarrow> client_net \<Rightarrow> int set \<Rightarrow>
     ((int, unit) cres \<times> fs_op list \<times> int set) option" where
  "client_main S os rnd argv fs net fds =
     (case parse_args argv of
        Args_bad \<Rightarrow> Some (Fail 2, [], fds)
      | Args_help \<Rightarrow> Some (Ret (), [], fds)
      | Args a \<Rightarrow>
          if fst (auth_init (co_sodium_init os) False) \<noteq> AUTH_OK then Some (Fail 1, [], fds)
          else if mkdir_p (co_stat os) (co_mkdir os) \<noteq> 0 then Some (Fail 1, [], fds)
          else
            (case transport_connect (co_resolver os) (co_sock os) ((co_transport os)\<lparr>ct_kind := ar_transport a\<rparr>)
                    (the (ar_server a)) fds of
               (Fault, fds) \<Rightarrow> Some (Fault, [], fds)
             | (Fail err, fds) \<Rightarrow> Some (Fail 1, [], fds)
             | (Ret t, fds) \<Rightarrow>
                 (case (if ar_do_setup a then do_setup S (co_rio os) (co_wio os) (cl_setup rnd) a t fs net
                        else map_option (\<lambda>(r, ops, net). (bnd r (\<lambda>_. Ret ()), ops, net))
                               (do_auth S (co_rio os) (cl_session rnd) (cl_auth rnd) a t fs net)) of
                    None \<Rightarrow> None
                  | Some (rc, ops, net) \<Rightarrow> Some (rc, ops, snd (transport_close t fds)))))"

end
