(* ===== verification/ClientRun.thy ===== *)
theory ClientRun
  imports Client
begin

text \<open>
  What a run of the client program guarantees: it ends whatever the network does, an exchange sends its packet a
  bounded number of times, the credential file changes only after the server's proof has been verified and its
  acknowledgement received, and a successful authentication rests on the pinned server key.
\<close>

subsection \<open>Role lists\<close>

text \<open>The decimal notation \<open>show_nat\<close> of the role labels, read back by \<open>strtoull\<close>.\<close>

lemma of_char_digit: "d < 10 \<Longrightarrow> of_char (char_of (48 + d) :: char) = (48 + d :: nat)"
  by simp

lemma digits_value_snoc: "digits_value (ds @ [c]) = 10 * digits_value ds + (of_char c - 48)"
  by (simp add: digits_value_def)

lemma show_nat_digits: "show_nat n \<noteq> [] \<and> list_all isdigit (show_nat n) \<and> digits_value (show_nat n) = n"
proof (induction n rule: show_nat.induct)
  case (1 n)
  have d: "isdigit (char_of (48 + n mod 10))" "of_char (char_of (48 + n mod 10) :: char) - 48 = (n mod 10 :: nat)"
    by (simp_all add: isdigit_def of_char_digit del: of_char_of)
  show ?case
  proof (cases "n < 10")
    case True
    then show ?thesis
      using d digits_value_snoc [of "[]" "char_of (48 + n)"] by (simp add: show_nat.simps digits_value_def)
  next
    case False
    then show ?thesis using 1 d by (simp add: show_nat.simps [of n] digits_value_snoc)
  qed
qed

lemma digit_plain: "isdigit c \<Longrightarrow> \<not> isspace c \<and> c \<noteq> CHR ''-'' \<and> c \<noteq> CHR ''+''"
  by (auto simp: isdigit_def isspace_def Let_def)

lemma strtoull_show_nat:
  assumes "n < 2 ^ 64" "rest = [] \<or> \<not> isdigit (hd rest)"
  shows "strtoull (show_nat n @ rest) = (of_nat n, rest)"
proof -
  from show_nat_digits [of n] obtain c ds where n: "show_nat n = c # ds" "list_all isdigit (c # ds)" "digits_value (c # ds) = n"
    by (cases "show_nat n") auto
  have s: "takeWhile isdigit (c # ds @ rest) = c # ds" "dropWhile isdigit (c # ds @ rest) = rest"
    using n(2) assms(2) takeWhile_append2 [of "c # ds" isdigit rest] dropWhile_append2 [of "c # ds" isdigit rest]
    by (cases rest; force simp: list_all_iff)+
  from n(2) have "\<not> isspace c" "c \<noteq> CHR ''-''" "c \<noteq> CHR ''+''" using digit_plain by auto
  then show ?thesis using s n(3) assms(1) by (simp add: strtoull_def n(1) Let_def)
qed

lemma strtoull_show_u64: "rest = [] \<or> \<not> isdigit (hd rest) \<Longrightarrow> strtoull (show_nat (unat (r :: u64)) @ rest) = (r, rest)"
proof -
  assume r: "rest = [] \<or> \<not> isdigit (hd rest)"
  have "unat r < 2 ^ 64" using unsigned_less [of r, where 'a = nat] by simp
  from strtoull_show_nat [OF this r] show ?thesis by simp
qed

fun print_roles :: "u64 list \<Rightarrow> string" where
  "print_roles [] = []"
| "print_roles [r] = show_nat (unat r)"
| "print_roles (r # rs) = show_nat (unat r) @ CHR '','' # print_roles rs"

lemma parse_role_list_last: "p \<noteq> [] \<Longrightarrow> strtoull p = (v, []) \<Longrightarrow> length out < cap \<Longrightarrow> parse_role_list p cap out = Some (out @ [v])"
  using parse_role_list.simps [of "[]" cap "out @ [v]"] by (simp add: parse_role_list.simps [of p] Let_def)

lemma parse_role_list_next:
  "strtoull (p @ CHR '','' # q) = (v, CHR '','' # q) \<Longrightarrow> p \<noteq> [] \<Longrightarrow> length out < cap \<Longrightarrow>
     parse_role_list (p @ CHR '','' # q) cap out = parse_role_list q cap (out @ [v])"
  by (simp add: parse_role_list.simps [of "p @ CHR '','' # q"] Let_def)

lemma parse_role_list_full: "cap \<le> length out \<Longrightarrow> parse_role_list p cap out = Some out"
  by (simp add: parse_role_list.simps [of p])

lemma parse_print_roles: "parse_role_list (print_roles rs) cap out = Some (out @ take (cap - length out) rs)"
proof (cases "length out < cap")
  case True
  then show ?thesis
  proof (induction rs arbitrary: out rule: print_roles.induct)
    case 1
    then show ?case by (simp add: parse_role_list.simps)
  next
    case (2 r)
    then show ?case
      using show_nat_digits [of "unat r"] strtoull_show_u64 [of "[]" r]
      by (simp add: parse_role_list_last take_Cons')
  next
    case (3 r r' rs)
    let ?rest = "CHR '','' # print_roles (r' # rs)"
    have "strtoull (show_nat (unat r) @ ?rest) = (r, ?rest)"
      using strtoull_show_u64 [of ?rest r] by (simp add: isdigit_def)
    then have "parse_role_list (print_roles (r # r' # rs)) cap out = parse_role_list (print_roles (r' # rs)) cap (out @ [r])"
      using show_nat_digits [of "unat r"] "3.prems" parse_role_list_next [of "show_nat (unat r)" "print_roles (r' # rs)" r out cap]
      by (simp only: print_roles.simps simp_thms)
    then show ?case
      using 3 parse_role_list_full [of cap "out @ [r]"] by (cases "Suc (length out) < cap") (simp_all add: take_Cons')
  qed
qed (simp add: parse_role_list_full)

text \<open>The value of \<^verbatim>\<open>--allowed-roles\<close> is read back exactly: a comma-separated list of decimal roles gives those
  roles in their order, each as the 64-bit number written, up to the capacity of 8; the parser accepts a longer list and
  keeps only its first 8 roles, without an error.\<close>

theorem role_list_roundtrip: "parse_role_list (print_roles rs) AUTH_MAX_ROLES [] = Some (take AUTH_MAX_ROLES rs)"
  by (simp add: parse_print_roles)

subsection \<open>The exchange of one packet\<close>

lemma transport_recv_returns:
  assumes "in_cap \<le> length inp"
  shows "\<exists>r net'. transport_recv t inp in_cap 5000 net = Some (r, net') \<and> r \<noteq> Fault \<and> cn_sent net' = cn_sent net"
proof (cases "ct_kind t")
  case TRANSPORT_UDP
  obtain r ds where "auth_udp_recv (Some (ct_udp t)) (Some inp) in_cap 5000 (cn_dgrams net) = Some (r, ds)" "r \<noteq> Fault"
    using udp_recv_returns [of 5000 in_cap inp] assms by fastforce
  then show ?thesis using TRANSPORT_UDP by (cases r) (auto simp: transport_recv_def)
next
  case TRANSPORT_TCP
  obtain r rx where "auth_tcp_recv (Some (ct_tcp t)) (Some inp) in_cap 5000 (cn_stream net) = Some (r, rx)" "r \<noteq> Fault"
    using tcp_recv_returns [of 5000 in_cap inp] assms by fastforce
  then show ?thesis using TRANSPORT_TCP by (auto simp: transport_recv_def)
qed

text \<open>What a send can put on the wire: the datagram, or a prefix of the frame on a stream.\<close>

definition on_wire :: "client_transport \<Rightarrow> byte list \<Rightarrow> byte list \<Rightarrow> bool" where
  "on_wire t pkt bs \<longleftrightarrow> (\<exists>k. bs = take k (if ct_kind t = TRANSPORT_UDP then pkt else frame pkt))"

lemma transport_send_cases:
  assumes "out_len \<le> length out"
  shows "\<exists>r net' new. transport_send t out out_len net = (r, net') \<and> r \<noteq> Fault \<and>
    cn_sent net' = cn_sent net @ new \<and> length new \<le> 1 \<and> (\<forall>bs\<in>set new. on_wire t (take out_len out) bs)"
proof (cases "ct_kind t")
  case TRANSPORT_UDP
  then show ?thesis
    using assms
    by (auto simp: transport_send_def auth_udp_send_def on_wire_def Let_def min_def split: list.splits write_result.splits)
next
  case TRANSPORT_TCP
  let ?pkt = "take out_len out"
  show ?thesis
  proof (cases "tc_fd (ct_tcp t) < 0 \<or> out_len > 2048")
    case True
    then show ?thesis
      using TRANSPORT_TCP by (auto simp: transport_send_def auth_tcp_send_def on_wire_def intro: exI [of _ 0])
  next
    case False
    have same: "auth_tcp_send (Some (ct_tcp t)) (Some out) out_len (cn_tx net) =
        auth_tcp_send (Some (ct_tcp t)) (Some ?pkt) (length ?pkt) (cn_tx net)"
      using assms by (simp add: auth_tcp_send_def Let_def split_beta)
    from False have "tc_fd (ct_tcp t) \<ge> 0" "length ?pkt \<le> 2048" using assms by simp_all
    then show ?thesis
    proof (cases rule: tcp_send_cases [of "ct_tcp t" ?pkt "cn_tx net"])
      case (all tx')
      then show ?thesis using TRANSPORT_TCP
        by (auto simp: transport_send_def same on_wire_def intro!: exI [of _ "length (frame ?pkt)"])
    next
      case (cut_short k tx')
      then show ?thesis using TRANSPORT_TCP by (auto simp: transport_send_def same on_wire_def)
    qed
  qed
qed

lemma exchange_attempts_returns:
  assumes "out_len \<le> length out" and "in_cap \<le> length inp"
  shows "\<exists>r net' new. exchange_attempts n t out out_len inp in_cap net = Some (r, net') \<and> r \<noteq> Fault \<and>
    cn_sent net' = cn_sent net @ new \<and> length new \<le> n \<and> (\<forall>bs\<in>set new. on_wire t (take out_len out) bs)"
proof (induction n arbitrary: net)
  case (Suc n)
  obtain r net1 new where snd: "transport_send t out out_len net = (r, net1)" "r \<noteq> Fault" "cn_sent net1 = cn_sent net @ new"
    "length new \<le> 1" "\<forall>bs\<in>set new. on_wire t (take out_len out) bs"
    using transport_send_cases [OF assms(1)] by blast
  show ?case
  proof (cases r)
    case (Ret u)
    obtain r2 net2 where rcv: "transport_recv t inp in_cap 5000 net1 = Some (r2, net2)" "r2 \<noteq> Fault" "cn_sent net2 = cn_sent net1"
      using transport_recv_returns [OF assms(2)] by blast
    show ?thesis
    proof (cases "r2 = Fail AUTH_ERR_TIMEOUT")
      case True
      obtain r3 net3 new3 where "exchange_attempts n t out out_len inp in_cap net2 = Some (r3, net3)" "r3 \<noteq> Fault"
        "cn_sent net3 = cn_sent net2 @ new3" "length new3 \<le> n" "\<forall>bs\<in>set new3. on_wire t (take out_len out) bs"
        using Suc.IH by blast
      then show ?thesis
        using True snd rcv Ret by (intro exI [of _ r3] exI [of _ net3] exI [of _ "new @ new3"]) auto
    next
      case False
      then show ?thesis using snd rcv Ret by (cases r2) auto
    qed
  qed (use snd in auto)
qed simp

text \<open>One exchange of the client ends, whatever the network and the kernel do, and hands its packet to the kernel
  at most twice over UDP and once over TCP: every datagram is (the beginning of) that packet, every write on a stream
  the beginning of its frame. No access leaves the two buffers.\<close>

theorem exchange_bounded:
  assumes "out_len \<le> length out" and "in_cap \<le> length inp"
  shows "\<exists>r net' new. send_then_recv t out out_len inp in_cap net = Some (r, net') \<and> r \<noteq> Fault \<and>
    cn_sent net' = cn_sent net @ new \<and> length new \<le> (if ct_kind t = TRANSPORT_UDP then 2 else 1) \<and>
    (\<forall>bs\<in>set new. on_wire t (take out_len out) bs)"
  using exchange_attempts_returns [OF assms] by (simp add: send_then_recv_def)

theorem exchange_bounded_witness:
  "\<exists>r net' new. send_then_recv \<lparr>ct_kind = TRANSPORT_UDP, ct_udp = \<lparr>ud_fd = 3\<rparr>, ct_tcp = \<lparr>tc_fd = -1\<rparr>\<rparr> [1, 2, 3] 2 [0, 0] 2
       \<lparr>cn_stream = [], cn_dgrams = [Rx_silence, Rx_silence], cn_tx = [], cn_sent = []\<rparr> = Some (r, net') \<and>
     cn_sent net' = new \<and> length new \<le> 2"
  using exchange_bounded [of 2 "[1, 2, 3]" 2 "[0, 0]" "\<lparr>ct_kind = TRANSPORT_UDP, ct_udp = \<lparr>ud_fd = 3\<rparr>, ct_tcp = \<lparr>tc_fd = -1\<rparr>\<rparr>"
      "\<lparr>cn_stream = [], cn_dgrams = [Rx_silence, Rx_silence], cn_tx = [], cn_sent = []\<rparr>"]
  by auto

subsection \<open>A run ends\<close>

definition ends :: "(('e, 'a) cres \<times> 'b) option \<Rightarrow> bool" where
  "ends r \<longleftrightarrow> (\<exists>rc x. r = Some (rc, x))"

lemma ends_Some [simp]: "ends (Some (rc, x))"
  by (simp add: ends_def)

lemma ends_exit_on: "(\<And>a. r = Ret a \<Longrightarrow> ends (k a)) \<Longrightarrow> ends (exit_on r net k)"
  by (cases r) (simp_all add: exit_on_def)


lemma exchange_attempts_ends: "ends (exchange_attempts n t out out_len (replicate 2048 0) 2048 net)"
proof (induction n arbitrary: net)
  case (Suc n)
  obtain r net1 where snd: "transport_send t out out_len net = (r, net1)" by fastforce
  show ?case
  proof (cases r)
    case (Ret u)
    obtain r2 net2 where "transport_recv t (replicate 2048 0) 2048 5000 net1 = Some (r2, net2)"
      using transport_recv_returns [of 2048 "replicate 2048 0" t net1] by auto
    then show ?thesis using snd Ret Suc.IH by (cases r2) simp_all
  qed (use snd in simp_all)
qed simp

lemma ends_exchange:
  assumes "\<And>inp net. ends (k inp net)"
  shows "ends (exchange t out net k)"
proof -
  obtain rc net' where "send_then_recv t (fst out) (snd out) (replicate 2048 0) 2048 net = Some (rc, net')"
    using exchange_attempts_ends [of "if ct_kind t = TRANSPORT_UDP then 2 else 1" t "fst out" "snd out" net]
    unfolding ends_def send_then_recv_def by blast
  then show ?thesis using ends_exit_on [of rc "\<lambda>c. k (sent c) net'"] assms by (simp add: exchange_def)
qed

lemmas ends_intros = ends_exit_on ends_exchange

lemma ends_do_setup: "ends (do_setup S rio wio rnd a t fs net)"
  unfolding do_setup_def finish_setup_def Let_def split_beta by (intro ends_intros ends_Some)

lemma ends_do_auth: "ends (do_auth S rio rs rnd a t fs net)"
  unfolding do_auth_def Let_def split_beta by (intro ends_intros ends_Some | split if_split | intro conjI impI)+

text \<open>C34: The client program ends: for every command line, file system, answer of the operating system and behaviour
  of the network, \<^verbatim>\<open>main\<close> returns an exit status.\<close>

theorem client_main_ends: "\<exists>rc ops fds'. client_main S os rnd argv fs net fds = Some (rc, ops, fds')"
proof (cases "parse_args argv")
  case (Args a)
  obtain r fds1 where conn: "transport_connect (co_resolver os) (co_sock os) ((co_transport os)\<lparr>ct_kind := ar_transport a\<rparr>)
      (the (ar_server a)) fds = (r, fds1)" by fastforce
  show ?thesis
  proof (cases r)
    case (Ret t)
    obtain rc1 ops1 n1 where "do_setup S (co_rio os) (co_wio os) (cl_setup rnd) a t fs net = Some (rc1, ops1, n1)"
      using ends_do_setup [of S "co_rio os" "co_wio os" "cl_setup rnd" a t fs net] by (auto simp: ends_def)
    moreover obtain rc2 ops2 n2 where "do_auth S (co_rio os) (cl_session rnd) (cl_auth rnd) a t fs net = Some (rc2, ops2, n2)"
      using ends_do_auth [of S "co_rio os" "cl_session rnd" "cl_auth rnd" a t fs net] by (auto simp: ends_def)
    ultimately show ?thesis using Args conn Ret by (simp add: client_main_def)
  qed (use Args conn in \<open>simp_all add: client_main_def\<close>)
qed (simp_all add: client_main_def)

subsection \<open>The messages of an enrolment\<close>

text \<open>The role part of SETUP_1: a device without a role commits to one.\<close>

definition setup1_role :: "sodium \<Rightarrow> byte list \<Rightarrow> auth_client_ctx \<Rightarrow> (auth_err, auth_client_ctx) cres" where
  "setup1_role S wide ctx =
     (if cc_has_role ctx then Ret ctx
      else
        let code = (if cc_role_code ctx = 0 then 1 else cc_role_code ctx); blind = auth_random_scalar S wide
        in bnd (auth_make_role_commitment S code blind) (\<lambda>c.
           Ret (ctx\<lparr>cc_role_code := code, cc_role_blind := blind, cc_role_commitment := c, cc_has_role := True\<rparr>)))"

definition setup1_msg :: "auth_client_ctx \<Rightarrow> byte list \<Rightarrow> auth_setup1" where
  "setup1_msg ctx tok =
     \<lparr>s1_pairing_token = tok @ replicate (128 - length tok) 0, s1_pairing_token_len = length tok,
      s1_device_id = cc_device_id ctx, s1_device_pub = cc_device_pub ctx, s1_client_nonce = cc_client_nonce ctx,
      s1_role_commitment = cc_role_commitment ctx\<rparr>"

definition token_bytes :: "byte list option \<Rightarrow> byte list" where
  "token_bytes tok = (case tok of None \<Rightarrow> [] | Some t \<Rightarrow> t)"

lemma make_commitment_length:
  assumes R: "ristretto255 S enc" and "auth_make_role_commitment S code blind = Ret c"
  shows "length c = 32"
proof -
  from assms(2) obtain p q where "auth_point_add S p q = Ret c"
    by (auto simp: auth_make_role_commitment_def bnd_iffs Let_def)
  then show ?thesis
    using points_add_invalid [OF R, of p q] by (cases "p \<in> range enc \<and> q \<in> range enc") (auto simp: points_add [OF R] length_enc [OF R])
qed

lemma wf_setup1_role:
  assumes "ristretto255 S enc" and "wf_client ctx" and "length wide = 64" and "setup1_role S wide ctx = Ret ctx'"
  shows "wf_client ctx' \<and> cc_session_id ctx' = cc_session_id ctx \<and> cc_seq ctx' = cc_seq ctx"
  using assms make_commitment_length [OF assms(1)] length_random_scalar [OF assms(1,3)]
  by (auto simp: setup1_role_def wf_client_def bnd_iffs Let_def split: if_splits)

lemma setup1_role_no_fault: "setup1_role S wide ctx \<noteq> Fault"
  by (auto simp: setup1_role_def auth_make_role_commitment_def bnd_iffs Let_def)

lemma wf_setup1_msg:
  assumes "wf_client ctx" and "length tok \<le> 128"
  shows "wf_setup1 (setup1_msg ctx tok)" and "length (setup1_layout (setup1_msg ctx tok)) = 129 + length tok"
    and "setup1_norm (setup1_msg ctx tok) = setup1_msg ctx tok"
  using assms by (simp_all add: setup1_msg_def wf_setup1_def wf_client_def setup1_layout_def setup1_norm_def)

lemma build_setup1_eq:
  assumes R: "ristretto255 S enc" and ctx: "wf_client ctx" and "length nonce = 32" and "length wide = 64"
    and tok: "length (token_bytes tok) \<le> 128"
    and role: "setup1_role S wide (ctx\<lparr>cc_client_nonce := nonce\<rparr>) = Ret ctx1"
  shows "auth_client_build_setup1 S nonce wide ctx tok (length (token_bytes tok)) (Some (replicate 2048 0)) =
    (Ret (cur (replicate 2048 0) (packet AUTH_PKT_SETUP_1 (cc_session_id ctx) (cc_seq ctx + 1)
        (setup1_layout (setup1_msg ctx1 (token_bytes tok))))), ctx1\<lparr>cc_seq := cc_seq ctx + 1\<rparr>)"
proof -
  have wf1: "wf_client ctx1" "cc_session_id ctx1 = cc_session_id ctx" "cc_seq ctx1 = cc_seq ctx"
    using wf_setup1_role [OF R _ assms(4) role] ctx assms(3) by (auto simp: wf_client_def)
  note wfm = wf_setup1_msg [OF wf1(1) tok]
  let ?tok = "token_bytes tok"
  have token: "(if length ?tok \<noteq> 0 then wrn (replicate 128 0) 0 (the tok) (length ?tok) else Ret (replicate 128 0)) =
      (Ret (?tok @ replicate (128 - length ?tok) 0) :: (auth_err, byte list) cres)"
    using tok by (cases tok) (auto simp: token_bytes_def wrn_def)
  have send: "client_send AUTH_PKT_SETUP_1 auth_setup1_encode (setup1_msg ctx1 ?tok) ctx1 (Some (replicate 2048 0)) =
      (Ret (cur (replicate 2048 0) (packet AUTH_PKT_SETUP_1 (cc_session_id ctx) (cc_seq ctx + 1)
        (setup1_layout (setup1_msg ctx1 ?tok)))), ctx1\<lparr>cc_seq := cc_seq ctx + 1\<rparr>)"
    using setup1.client_send_eq [OF wfm(1), of ctx1] wfm(2) tok wf1 by (simp add: wf_client_def)
  have none: "\<not> (length ?tok \<noteq> 0 \<and> tok = None)" by (auto simp: token_bytes_def)
  show ?thesis
    using tok none role token send
    by (auto simp: auth_client_build_setup1_def setup1_role_def setup1_msg_def bnd_iffs Let_def split: if_splits)
qed

lemma build_setup1_cases:
  assumes R: "ristretto255 S enc" and ctx: "wf_client ctx" and "length nonce = 32" and "length wide = 64"
  obtains (fail) e ctx' where "auth_client_build_setup1 S nonce wide ctx tok (length (token_bytes tok)) (Some (replicate 2048 0)) = (Fail e, ctx')"
  | (sent) ctx1 where "length (token_bytes tok) \<le> 128" "setup1_role S wide (ctx\<lparr>cc_client_nonce := nonce\<rparr>) = Ret ctx1" "wf_client ctx1"
      "auth_client_build_setup1 S nonce wide ctx tok (length (token_bytes tok)) (Some (replicate 2048 0)) =
       (Ret (cur (replicate 2048 0) (packet AUTH_PKT_SETUP_1 (cc_session_id ctx) (cc_seq ctx + 1)
          (setup1_layout (setup1_msg ctx1 (token_bytes tok))))), ctx1\<lparr>cc_seq := cc_seq ctx + 1\<rparr>)"
proof (cases "length (token_bytes tok) \<le> 128")
  case True
  show thesis
  proof (cases "setup1_role S wide (ctx\<lparr>cc_client_nonce := nonce\<rparr>)")
    case Fault
    then show thesis using setup1_role_no_fault by blast
  next
    case (Fail e)
    then have "auth_make_role_commitment S (if cc_role_code ctx = 0 then 1 else cc_role_code ctx) (auth_random_scalar S wide) = Fail e"
      "\<not> cc_has_role ctx" by (auto simp: setup1_role_def bnd_iffs Let_def split: if_splits)
    then show thesis using True fail
      by (fastforce simp: auth_client_build_setup1_def Let_def token_bytes_def split: option.splits if_splits)
  next
    case (Ret ctx1)
    have "wf_client ctx1" using wf_setup1_role [OF R _ assms(4) Ret] ctx assms(3) by (simp add: wf_client_def)
    then show thesis using sent [OF True Ret] build_setup1_eq [OF assms True Ret] by blast
  qed
next
  case False
  then have "auth_client_build_setup1 S nonce wide ctx tok (length (token_bytes tok)) (Some (replicate 2048 0)) = (Fail AUTH_ERR_INVALID_ARGUMENT, ctx)"
    by (simp add: auth_client_build_setup1_def)
  then show thesis by (rule fail)
qed

lemma handle_setup2_Ret:
  assumes "auth_client_handle_setup2 S ctx (Some inp) allow_tofu = (Ret (), ctx')"
  obtains h s2 where "inp = header_layout h @ setup2_layout s2" "wf_setup2 s2" "hdr_session_id h = cc_session_id ctx"
    "hdr_pkt_type h = AUTH_PKT_SETUP_2" "auth_check_point S (s2_server_pub s2) = Ret ()"
    "cc_has_pinned_server ctx \<and> cc_server_pub_pinned ctx = s2_server_pub s2 \<or> \<not> cc_has_pinned_server ctx \<and> allow_tofu"
    "auth_verify_setup_server S (s2_server_proof s2) (s2_server_pub s2) (cc_device_id ctx) (cc_device_pub ctx)
       (cc_client_nonce ctx) (s2_server_nonce s2) (s2_setup_challenge s2) = Ret True"
    "ctx' = (tofu_pin ctx s2)\<lparr>cc_pending_server_pub := s2_server_pub s2, cc_pending_server_nonce := s2_server_nonce s2,
       cc_pending_setup_challenge := s2_setup_challenge s2\<rparr>"
proof -
  note eq = assms [unfolded auth_client_handle_setup2_def]
  obtain h p where op: "client_open AUTH_PKT_SETUP_2 (Some inp) = Ret (h, p)"
    using eq by (cases "client_open AUTH_PKT_SETUP_2 (Some inp)") auto
  have sid: "hdr_session_id h = cc_session_id ctx" using eq by (simp add: op split: if_splits)
  obtain s2 where dec: "auth_setup2_decode (Some p) = Ret s2"
    using eq by (cases "auth_setup2_decode (Some p)") (simp_all add: op sid)
  have pt: "auth_check_point S (s2_server_pub s2) = Ret ()"
    using eq by (cases "auth_check_point S (s2_server_pub s2)") (simp_all add: op sid dec)
  have key: "cc_has_pinned_server ctx \<and> cc_server_pub_pinned ctx = s2_server_pub s2 \<or> \<not> cc_has_pinned_server ctx \<and> allow_tofu"
    using eq by (simp add: op sid dec pt split: if_splits)
  let ?v = "auth_verify_setup_server S (s2_server_proof s2) (s2_server_pub s2) (cc_device_id ctx) (cc_device_pub ctx)
       (cc_client_nonce ctx) (s2_server_nonce s2) (s2_setup_challenge s2)"
  have wf: "wf_setup2 s2" "p = setup2_layout s2" using dec by (simp_all add: setup2_decode_Ret_iff)
  have v: "?v = Ret True \<and> ctx' = (tofu_pin ctx s2)\<lparr>cc_pending_server_pub := s2_server_pub s2,
      cc_pending_server_nonce := s2_server_nonce s2, cc_pending_setup_challenge := s2_setup_challenge s2\<rparr>"
    using eq key by (cases ?v) (auto simp: op sid dec pt tofu_pin_def split: if_splits)
  show thesis by (rule that [of h s2]) (use op wf sid pt key v in \<open>simp_all add: client_open_Ret_iff\<close>)
qed

lemma prove_setup_client_cases:
  assumes R: "ristretto255 S enc" and "length wide = 64" "length sk = 32" "length dpub = 32"
    and x: "wf_setup_ctx (did, spub, nc, ns, ch)"
  shows "auth_prove_setup_client S wide sk did dpub spub nc ns ch \<noteq> Fault \<and>
    (\<forall>p. auth_prove_setup_client S wide sk did dpub spub nc ns ch = Ret p \<longrightarrow> wf_proof p)"
proof -
  have w: "length (sd_scalar_reduce S wide) = 32" using assms by (simp add: length_reduce)
  note s = response_length [OF R assms(2,3)]
  have chal: "setup_client_challenge S did dpub spub a nc ns ch = Ret (tr_challenge S (tr_setup_client did dpub spub a nc ns ch))"
    if "auth_scalarmult_base S (sd_scalar_reduce S wide) = Ret a" for a
    using base_mult_length [OF R w that] x assms(4) by (simp add: setup_client_challenge_eq tr_challenge_def)
  show ?thesis
    using base_mult_length [OF R w]
    by (auto simp: auth_prove_setup_client_def auth_prove_setup_client_with_bytes_def auth_scalar_from_wide_def g_times_def
        bnd_iffs chal s wf_proof_def Let_def)
qed

lemma length_setup3_layout: "wf_setup3 m \<Longrightarrow> length (setup3_layout m) = 64"
  by (simp add: setup3_layout_def wf_setup3_def wf_proof_def proof_layout_def)

lemma build_setup3_cases:
  assumes R: "ristretto255 S enc" and ctx: "wf_client ctx" and wide: "length wide = 64"
  obtains (fail) e where "auth_client_build_setup3 S wide ctx (Some (replicate 2048 0)) = (Fail e, ctx)"
  | (sent) p where "auth_prove_setup_client S wide (cc_device_sk ctx) (cc_device_id ctx) (cc_device_pub ctx)
        (cc_pending_server_pub ctx) (cc_client_nonce ctx) (cc_pending_server_nonce ctx) (cc_pending_setup_challenge ctx) = Ret p"
      "wf_proof p" "auth_client_build_setup3 S wide ctx (Some (replicate 2048 0)) =
       (Ret (cur (replicate 2048 0) (packet AUTH_PKT_SETUP_3 (cc_session_id ctx) (cc_seq ctx + 1) (setup3_layout \<lparr>s3_client_proof = p\<rparr>))),
        ctx\<lparr>cc_seq := cc_seq ctx + 1\<rparr>)"
proof -
  let ?prove = "auth_prove_setup_client S wide (cc_device_sk ctx) (cc_device_id ctx) (cc_device_pub ctx)
        (cc_pending_server_pub ctx) (cc_client_nonce ctx) (cc_pending_server_nonce ctx) (cc_pending_setup_challenge ctx)"
  have P: "?prove \<noteq> Fault" "\<And>p. ?prove = Ret p \<Longrightarrow> wf_proof p"
    using prove_setup_client_cases [OF R wide, of "cc_device_sk ctx" "cc_device_pub ctx" "cc_device_id ctx" "cc_pending_server_pub ctx"
        "cc_client_nonce ctx" "cc_pending_server_nonce ctx" "cc_pending_setup_challenge ctx"] ctx by (simp_all add: wf_client_def)
  show thesis
  proof (cases ?prove)
    case (Ret p)
    then have wf3: "wf_setup3 \<lparr>s3_client_proof = p\<rparr>" using P(2) by (simp add: wf_setup3_def)
    show thesis
      using sent [OF Ret P(2) [OF Ret]] Ret setup3.client_send_eq [OF wf3, of ctx AUTH_PKT_SETUP_3 "replicate 2048 0"]
        length_setup3_layout [OF wf3] ctx
      by (simp add: auth_client_build_setup3_def wf_client_def)
  qed (use P fail in \<open>auto simp: auth_client_build_setup3_def\<close>)
qed

subsection \<open>Stepping through a run\<close>

text \<open>The outcome of a step that gives up: exit status 1, no file operation.\<close>

definition gives_up :: "((int, 'b) cres \<times> fs_op list \<times> client_net) option \<Rightarrow> bool" where
  "gives_up r \<longleftrightarrow> (\<exists>net. r = Some (Fail 1, [], net))"

lemma exit_on_simps [simp]: "exit_on (Ret a) net k = k a" "gives_up (exit_on (Fail e) net k)"
  by (simp_all add: exit_on_def gives_up_def)

text \<open>An exchange gives up or goes on with the packet it has received.\<close>

abbreviation (input) exchanged ::
    "client_transport \<Rightarrow> cursor \<Rightarrow> client_net \<Rightarrow> ((auth_err, cursor) cres \<times> client_net) option" where
  "exchanged t out net \<equiv> send_then_recv t (fst out) (snd out) (replicate 2048 0) 2048 net"

lemma exchange_eqs:
  "exchanged t out net = Some (Fail e, net') \<Longrightarrow> exchange t out net k = Some (Fail 1, [], net')"
  "exchanged t out net = Some (Ret c, net') \<Longrightarrow> exchange t out net k = k (sent c) net'"
  by (simp_all add: exchange_def exit_on_def)

lemma exchange_cases:
  assumes "length pkt \<le> 2048"
  obtains (fail) e net' where "exchanged t (cur (replicate 2048 0) pkt) net = Some (Fail e, net')"
  | (reply) c net' where "exchanged t (cur (replicate 2048 0) pkt) net = Some (Ret c, net')"
proof -
  have len: "snd (cur (replicate 2048 0) pkt) \<le> length (fst (cur (replicate 2048 0) pkt))"
    using assms by (simp add: cur_def)
  have cap: "2048 \<le> length (replicate 2048 (0 :: byte))" by simp
  obtain r net' where "exchanged t (cur (replicate 2048 0) pkt) net = Some (r, net')" "r \<noteq> Fault"
    using exchange_attempts_returns [OF len cap] unfolding send_then_recv_def by blast
  then show thesis using that by (cases r) auto
qed

lemma creds_load_wf:
  assumes "auth_creds_load io fs path = Ret c"
  shows "wf_creds c"
proof -
  obtain p buf where "path = Some p" "length buf = 154" and
    "bnd (rdn buf 10 32) (\<lambda>device_root. bnd (rdn buf 42 32) (\<lambda>server_pub. bnd (rdn buf 74 32) (\<lambda>role_commitment.
      bnd (rdn buf 106 32) (\<lambda>role_blind. bnd (rdn buf 138 8) (\<lambda>role_code.
      Ret \<lparr>cr_device_root = device_root, cr_has_pinned_server = (buf ! 9 AND 1 \<noteq> 0), cr_server_pub_pinned = server_pub,
        cr_has_role = (buf ! 9 AND 2 \<noteq> 0), cr_role_commitment = role_commitment, cr_role_blind = role_blind,
        cr_role_code = r64le role_code\<rparr>))))) = (Ret c :: (auth_err, auth_credentials) cres)"
    using assms by (auto simp: auth_creds_load_def bnd_iffs rd_def split: option.splits if_splits)
  then show ?thesis by (auto simp: rdn_def wf_creds_def)
qed

lemma creds_load_no_fault: "auth_creds_load io fs (Some path) \<noteq> Fault"
  by (cases rule: read_whole_file_cases [of fs path io 154]) (auto simp: auth_creds_load_def rdn_def rd_def bnd_iffs)

lemma load_or_fresh_cases:
  assumes "length random = 32"
  obtains (fail) e where "load_or_fresh io random fs path = Fail e"
  | (creds) c where "load_or_fresh io random fs path = Ret c" "wf_creds c"
proof (cases "auth_creds_load io fs (Some path)")
  case (Fail e)
  then show thesis
    using that assms by (cases "e = AUTH_ERR_CREDENTIAL_MISSING")
      (auto simp: load_or_fresh_def wf_creds_def auth_creds_init_fresh_def auth_creds_zero_def)
next
  case (Ret c)
  then show thesis using creds creds_load_wf [OF Ret] by (simp add: load_or_fresh_def)
qed (use creds_load_no_fault in simp)

lemma length_device_scalar: "ristretto255 S enc \<Longrightarrow> length (auth_derive_device_scalar S root) = 32"
  by (simp add: auth_derive_device_scalar_def Let_def reduce_sc sodium_digests)

lemma length_device_id: "ristretto255 S enc \<Longrightarrow> length (auth_derive_device_id S root) = 32"
  by (simp add: auth_derive_device_id_def sodium_digests)

lemma wf_zero_proof: "wf_proof zero_proof"
  by (simp add: zero_proof_def wf_proof_def)

lemma setup_ctx_cases:
  assumes R: "ristretto255 S enc" and c: "wf_creds c" and "length random16 = 16"
  obtains (fail) e where "setup_ctx S random16 c role = Fail e"
  | (ctx) ctx where "setup_ctx S random16 c role = Ret ctx" "wf_client ctx"
      "auth_scalarmult_base S (auth_derive_device_scalar S (cr_device_root c)) = Ret (cc_device_pub ctx)"
      "cc_device_id ctx = auth_derive_device_id S (cr_device_root c)"
      "cc_device_sk ctx = auth_derive_device_scalar S (cr_device_root c)"
      "cc_has_pinned_server ctx = cr_has_pinned_server c" "cc_server_pub_pinned ctx = cr_server_pub_pinned c"
      "cc_has_role ctx = cr_has_role c" "cc_role_commitment ctx = cr_role_commitment c" "cc_role_blind ctx = cr_role_blind c"
      "cc_role_code ctx = (if cr_has_role c then cr_role_code c else role)" "cc_session_id ctx = random16" "cc_seq ctx = 0"
proof (cases "auth_scalarmult_base S (auth_derive_device_scalar S (cr_device_root c))")
  case (Ret pub)
  then have "length pub = 32" using base_mult_length [OF R length_device_scalar [OF R]] by blast
  let ?ctx = "(auth_client_ctx_init random16 (zero_client\<lparr>cc_device_root := cr_device_root c,
      cc_device_id := auth_derive_device_id S (cr_device_root c), cc_device_sk := auth_derive_device_scalar S (cr_device_root c),
      cc_device_pub := pub\<rparr>))\<lparr>cc_has_pinned_server := cr_has_pinned_server c, cc_server_pub_pinned := cr_server_pub_pinned c,
      cc_has_role := cr_has_role c, cc_role_commitment := cr_role_commitment c, cc_role_blind := cr_role_blind c,
      cc_role_code := (if cr_has_role c then cr_role_code c else role)\<rparr>"
  show thesis
    by (rule ctx [of ?ctx])
      (use \<open>length pub = 32\<close> Ret c assms(3) length_device_scalar [OF R] length_device_id [OF R] wf_zero_proof in
       \<open>simp_all add: setup_ctx_def device_ctx_def auth_client_ctx_init_def zero_client_def wf_client_def wf_creds_def\<close>)
qed (use fail in \<open>auto simp: setup_ctx_def device_ctx_def zero_client_def\<close>)

lemma wf_enrolled_creds:
  assumes "wf_creds c" and "wf_client ctx"
  shows "wf_creds (enrolled_creds c ctx)" and "creds_norm (enrolled_creds c ctx) = enrolled_creds c ctx"
  using assms by (simp_all add: enrolled_creds_def wf_creds_def wf_client_def creds_norm_def Let_def)

definition wf_setup_random :: "setup_random \<Rightarrow> bool" where
  "wf_setup_random rnd \<longleftrightarrow> length (sr_root rnd) = 32 \<and> length (sr_session rnd) = 16 \<and> length (sr_nonce rnd) = 32 \<and>
     length (sr_blind rnd) = 64 \<and> length (sr_client rnd) = 64"

definition cred_path :: "args \<Rightarrow> path" where
  "cred_path a = path_join 512 (the (ar_state_dir a)) ''credentials.bin''"

lemma token_length: "(case tok of None \<Rightarrow> 0 | Some t \<Rightarrow> length t) = length (token_bytes tok)"
  by (simp add: token_bytes_def split: option.split)

lemma setup_ack_ctx: "snd (auth_client_handle_setup_ack ctx inp) = ctx"
  by (cases "client_open AUTH_PKT_SETUP_ACK inp") (auto simp: auth_client_handle_setup_ack_def)

lemma ack_no_fault: "fst (auth_client_handle_setup_ack ctx inp) \<noteq> Fault"
  using client_open_cases [of AUTH_PKT_SETUP_ACK inp] ack.dec_no_fault
  by (auto simp: auth_client_handle_setup_ack_def)

lemma setup_ack_Ret:
  assumes "auth_client_handle_setup_ack ctx (Some inp) = (Ret (), ctx')"
  obtains h where "inp = header_layout h @ [AUTH_ACK_BYTE]" "hdr_pkt_type h = AUTH_PKT_SETUP_ACK"
  using assms by (auto simp: auth_client_handle_setup_ack_def try_c_Ret_iff client_open_Ret_iff ack_decode_Ret_iff)

lemma auth_ack_Ret:
  assumes "fst (auth_client_handle_auth_ack ctx (Some inp)) = Ret ()"
  obtains h where "inp = header_layout h @ [AUTH_ACK_BYTE]" "hdr_pkt_type h = AUTH_PKT_AUTH_ACK"
proof -
  obtain ctx' where "auth_client_handle_auth_ack ctx (Some inp) = (Ret (), ctx')" using assms by (metis prod.collapse)
  then show thesis
    using that by (auto simp: auth_client_handle_auth_ack_def try_c_Ret_iff client_open_Ret_iff ack_decode_Ret_iff)
qed

text \<open>The messages of an enrolment as they went over the network: SETUP_1 was sent and \<open>s2\<close> is the message of the SETUP_2
  packet received for it, SETUP_3 was sent and its reply was the SETUP acknowledgement.\<close>

definition setup_exchanged ::
    "sodium \<Rightarrow> setup_random \<Rightarrow> args \<Rightarrow> client_transport \<Rightarrow> client_net \<Rightarrow> client_net \<Rightarrow> auth_credentials \<Rightarrow> auth_setup2 \<Rightarrow>
     auth_client_ctx \<Rightarrow> bool" where
  "setup_exchanged S rnd a t net net' creds s2 ctx \<longleftrightarrow>
     (\<exists>ctx0 c1 ctx1 d2 net1 h2 ctx2 c3 d4 h4.
        setup_ctx S (sr_session rnd) creds (ar_role a) = Ret ctx0 \<and>
        auth_client_build_setup1 S (sr_nonce rnd) (sr_blind rnd) ctx0 (map_option ascii (ar_pairing_token a))
          (length (token_bytes (map_option ascii (ar_pairing_token a)))) (Some (replicate 2048 0)) = (Ret c1, ctx1) \<and>
        exchanged t c1 net = Some (Ret d2, net1) \<and>
        sent d2 = header_layout h2 @ setup2_layout s2 \<and> wf_setup2 s2 \<and> hdr_pkt_type h2 = AUTH_PKT_SETUP_2 \<and>
        hdr_session_id h2 = sr_session rnd \<and>
        auth_client_handle_setup2 S ctx1 (Some (sent d2)) (ar_allow_tofu a) = (Ret (), ctx2) \<and>
        auth_client_build_setup3 S (sr_client rnd) ctx2 (Some (replicate 2048 0)) = (Ret c3, ctx) \<and>
        exchanged t c3 net1 = Some (Ret d4, net') \<and>
        sent d4 = header_layout h4 @ [AUTH_ACK_BYTE] \<and> hdr_pkt_type h4 = AUTH_PKT_SETUP_ACK)"

text \<open>What the fields of the context are when the credentials are saved.\<close>

definition setup_done :: "sodium \<Rightarrow> setup_random \<Rightarrow> args \<Rightarrow> auth_credentials \<Rightarrow> auth_setup2 \<Rightarrow> auth_client_ctx \<Rightarrow> bool" where
  "setup_done S rnd a creds s2 ctx \<longleftrightarrow>
     (\<exists>dpub. auth_scalarmult_base S (auth_derive_device_scalar S (cr_device_root creds)) = Ret dpub \<and>
        auth_verify_setup_server S (s2_server_proof s2) (s2_server_pub s2) (auth_derive_device_id S (cr_device_root creds))
          dpub (sr_nonce rnd) (s2_server_nonce s2) (s2_setup_challenge s2) = Ret True) \<and>
     (cr_has_pinned_server creds \<and> cr_server_pub_pinned creds = s2_server_pub s2 \<or>
        \<not> cr_has_pinned_server creds \<and> ar_allow_tofu a) \<and>
     cc_server_pub_pinned ctx = s2_server_pub s2 \<and>
     (if cr_has_role creds
      then cc_role_commitment ctx = cr_role_commitment creds \<and> cc_role_blind ctx = cr_role_blind creds \<and>
           cc_role_code ctx = cr_role_code creds
      else cc_role_code ctx = (if ar_role a = 0 then 1 else ar_role a) \<and>
           cc_role_blind ctx = auth_random_scalar S (sr_blind rnd) \<and>
           auth_make_role_commitment S (cc_role_code ctx) (cc_role_blind ctx) = Ret (cc_role_commitment ctx))"

lemma setup1_role_fields:
  assumes "setup1_role S wide ctx = Ret ctx1"
  shows "cc_device_id ctx1 = cc_device_id ctx" "cc_device_pub ctx1 = cc_device_pub ctx" "cc_client_nonce ctx1 = cc_client_nonce ctx"
    "cc_device_sk ctx1 = cc_device_sk ctx" "cc_has_pinned_server ctx1 = cc_has_pinned_server ctx" "cc_server_pub_pinned ctx1 = cc_server_pub_pinned ctx"
    "cc_session_id ctx1 = cc_session_id ctx" "cc_seq ctx1 = cc_seq ctx"
    "if cc_has_role ctx then ctx1 = ctx
     else cc_role_code ctx1 = (if cc_role_code ctx = 0 then 1 else cc_role_code ctx) \<and>
       cc_role_blind ctx1 = auth_random_scalar S wide \<and>
       auth_make_role_commitment S (cc_role_code ctx1) (cc_role_blind ctx1) = Ret (cc_role_commitment ctx1)"
  using assms by (auto simp: setup1_role_def bnd_iffs Let_def split: if_splits)

lemma setup2_done:
  assumes "cc_has_role ctx0 = cr_has_role c" "cc_role_commitment ctx0 = cr_role_commitment c" "cc_role_blind ctx0 = cr_role_blind c"
      "cc_role_code ctx0 = (if cr_has_role c then cr_role_code c else ar_role a)"
      "cc_has_pinned_server ctx0 = cr_has_pinned_server c" "cc_server_pub_pinned ctx0 = cr_server_pub_pinned c"
      "auth_scalarmult_base S (auth_derive_device_scalar S (cr_device_root c)) = Ret (cc_device_pub ctx0)"
      "cc_device_id ctx0 = auth_derive_device_id S (cr_device_root c)"
    and role: "setup1_role S (sr_blind rnd) (ctx0\<lparr>cc_client_nonce := sr_nonce rnd\<rparr>) = Ret ctx1"
    and h: "auth_client_handle_setup2 S (ctx1\<lparr>cc_seq := q\<rparr>) (Some inp) (ar_allow_tofu a) = (Ret (), ctx2)"
  obtains h s2 where "setup_done S rnd a c s2 ctx2" "inp = header_layout h @ setup2_layout s2" "wf_setup2 s2"
    "hdr_pkt_type h = AUTH_PKT_SETUP_2" "hdr_session_id h = cc_session_id ctx0"
proof -
  note f = setup1_role_fields [OF role]
  from h obtain h s2 where pkt: "inp = header_layout h @ setup2_layout s2" "wf_setup2 s2" "hdr_pkt_type h = AUTH_PKT_SETUP_2"
      "hdr_session_id h = cc_session_id (ctx1\<lparr>cc_seq := q\<rparr>)"
    and s2: "cc_has_pinned_server ctx1 \<and> cc_server_pub_pinned ctx1 = s2_server_pub s2 \<or>
      \<not> cc_has_pinned_server ctx1 \<and> ar_allow_tofu a"
    "auth_verify_setup_server S (s2_server_proof s2) (s2_server_pub s2) (cc_device_id ctx1) (cc_device_pub ctx1)
       (cc_client_nonce ctx1) (s2_server_nonce s2) (s2_setup_challenge s2) = Ret True"
    "ctx2 = (tofu_pin (ctx1\<lparr>cc_seq := q\<rparr>) s2)\<lparr>cc_pending_server_pub := s2_server_pub s2, cc_pending_server_nonce := s2_server_nonce s2,
       cc_pending_setup_challenge := s2_setup_challenge s2\<rparr>"
    by (rule handle_setup2_Ret) auto
  have "setup_done S rnd a c s2 ctx2"
    using assms(1-8) f s2 by (auto simp: setup_done_def tofu_pin_def split: if_splits)
  then show thesis by (rule that) (use pkt f(7) in simp_all)
qed

lemma setup_done_seq [simp]: "setup_done S rnd a c s2 (ctx\<lparr>cc_seq := q\<rparr>) = setup_done S rnd a c s2 ctx"
  and wf_client_seq [simp]: "wf_client (ctx\<lparr>cc_seq := q\<rparr>) = wf_client ctx"
  by (simp_all add: setup_done_def wf_client_def)

lemma finish_setup_cases:
  assumes R: "ristretto255 S enc" and wf: "wf_client ctx" and wide: "length wide = 64"
  obtains (fail) "gives_up (finish_setup S wio wide path t creds ctx net)"
  | (save) q c3 d4 h4 net' ops r where
      "auth_client_build_setup3 S wide ctx (Some (replicate 2048 0)) = (Ret c3, ctx\<lparr>cc_seq := q\<rparr>)"
      "exchanged t c3 net = Some (Ret d4, net')" "ClientProto.sent d4 = header_layout h4 @ [AUTH_ACK_BYTE]"
      "hdr_pkt_type h4 = AUTH_PKT_SETUP_ACK" "auth_creds_save wio (Some (enrolled_creds creds (ctx\<lparr>cc_seq := q\<rparr>))) (Some path) = (ops, r)"
      "finish_setup S wio wide path t creds ctx net =
        Some (case r of Fault \<Rightarrow> Fault | Fail e \<Rightarrow> Fail 1 | Ret _ \<Rightarrow> Ret (), ops, net')"
proof (cases rule: build_setup3_cases [OF R wf wide, case_names fail sent])
  case (sent p)
  note run = finish_setup_def [of S wio wide path t creds ctx net, unfolded sent(3) Let_def split_conv exit_on_simps]
  let ?p3 = "packet AUTH_PKT_SETUP_3 (cc_session_id ctx) (cc_seq ctx + 1) (setup3_layout \<lparr>s3_client_proof = p\<rparr>)"
  have p3: "length ?p3 \<le> 2048"
    using length_setup3_layout [of "\<lparr>s3_client_proof = p\<rparr>"] sent(2) wf by (simp add: wf_setup3_def wf_client_def)
  show thesis
  proof (cases rule: exchange_cases [OF p3, of t net, case_names fail reply])
    case (fail e net2)
    then show thesis using that(1) run by (simp add: exchange_eqs(1) gives_up_def)
  next
    case (reply inp net2)
    let ?ctx = "ctx\<lparr>cc_seq := cc_seq ctx + 1\<rparr>"
    obtain r3 where ack: "auth_client_handle_setup_ack ?ctx (Some (ClientProto.sent inp)) = (r3, ?ctx)"
      using setup_ack_ctx [of ?ctx "Some (ClientProto.sent inp)"] by (metis prod.collapse)
    obtain ops r where sv: "auth_creds_save wio (Some (enrolled_creds creds ?ctx)) (Some path) = (ops, r)" by fastforce
    have nf: "r3 \<noteq> Fault" using ack_no_fault [of ?ctx "Some (ClientProto.sent inp)"] ack by simp
    note run3 = run [unfolded exchange_eqs(2) [OF reply] ack split_conv sv]
    show thesis
    proof (cases r3)
      case (Ret u)
      obtain h4 where h4: "ClientProto.sent inp = header_layout h4 @ [AUTH_ACK_BYTE]" "hdr_pkt_type h4 = AUTH_PKT_SETUP_ACK"
        using setup_ack_Ret [of ?ctx "ClientProto.sent inp" ?ctx] ack Ret by auto
      show thesis using that(2) [OF sent(3) reply h4 sv] run3 Ret by simp
    qed (use nf that(1) run3 in simp_all)
  qed
qed (use that(1) in \<open>simp add: finish_setup_def\<close>)

lemma do_setup_cases:
  assumes R: "ristretto255 S enc" and rnd: "wf_setup_random rnd"
  obtains (fail) "gives_up (do_setup S rio wio rnd a t fs net)"
  | (save) creds ctx s2 net' ops r where "load_or_fresh rio (sr_root rnd) fs (cred_path a) = Ret creds" "wf_creds creds"
      "wf_client ctx" "setup_done S rnd a creds s2 ctx" "setup_exchanged S rnd a t net net' creds s2 ctx"
      "auth_creds_save wio (Some (enrolled_creds creds ctx)) (Some (cred_path a)) = (ops, r)"
      "do_setup S rio wio rnd a t fs net = Some (case r of Fault \<Rightarrow> Fault | Fail e \<Rightarrow> Fail 1 | Ret _ \<Rightarrow> Ret (), ops, net')"
proof -
  let ?run = "do_setup S rio wio rnd a t fs net" and ?tok = "map_option ascii (ar_pairing_token a)"
  note run = do_setup_def [of S rio wio rnd a t fs net, folded cred_path_def, unfolded Let_def token_length]
  have len: "length (sr_root rnd) = 32" "length (sr_session rnd) = 16" "length (sr_nonce rnd) = 32" "length (sr_blind rnd) = 64"
    "length (sr_client rnd) = 64" using rnd by (simp_all add: wf_setup_random_def)
  show thesis
  proof (cases rule: load_or_fresh_cases [OF len(1), of rio fs "cred_path a", case_names fail creds])
    case (creds c)
    show thesis
    proof (cases rule: setup_ctx_cases [OF R creds(2) len(2), of "ar_role a", case_names fail ctx])
      case (ctx ctx0)
      show thesis
      proof (cases rule: build_setup1_cases [OF R ctx(2) len(3,4), of ?tok, case_names fail sent])
        case (sent ctx1)
        let ?p1 = "packet AUTH_PKT_SETUP_1 (cc_session_id ctx0) (cc_seq ctx0 + 1) (setup1_layout (setup1_msg ctx1 (token_bytes ?tok)))"
        let ?ctx1 = "ctx1\<lparr>cc_seq := cc_seq ctx0 + 1\<rparr>"
        have p1: "length ?p1 \<le> 2048" using wf_setup1_msg(2) [OF sent(3,1)] sent(1) ctx(2) by (simp add: wf_client_def)
        note run1 = run [unfolded creds(1) ctx(1) exit_on_simps sent(4) split_conv]
        show thesis
        proof (cases rule: exchange_cases [OF p1, of t net, case_names fail reply])
          case (fail e net1)
          then show thesis using that(1) run1 by (simp add: exchange_eqs(1) gives_up_def)
        next
          case (reply inp net1)
          note run2 = run1 [unfolded exchange_eqs(2) [OF reply]]
          have wf1: "wf_client ?ctx1" using sent(3) by (simp add: wf_client_def)
          obtain r2 ctx2 where s2: "auth_client_handle_setup2 S ?ctx1 (Some (ClientProto.sent inp)) (ar_allow_tofu a) = (r2, ctx2)" by fastforce
          have wf2: "wf_client ctx2" "r2 \<noteq> Fault"
            using wf_handle_setup2 [OF wf1, of S "Some (sent inp)" "ar_allow_tofu a"] s2 by simp_all
          show thesis
          proof (cases r2)
            case (Ret u)
            note run3 = run2 [unfolded s2 split_conv Ret exit_on_simps]
            have ok2: "auth_client_handle_setup2 S ?ctx1 (Some (ClientProto.sent inp)) (ar_allow_tofu a) = (Ret (), ctx2)"
              using s2 Ret by simp
            obtain h2 m2 where fin: "setup_done S rnd a c m2 ctx2"
              and m2: "ClientProto.sent inp = header_layout h2 @ setup2_layout m2" "wf_setup2 m2" "hdr_pkt_type h2 = AUTH_PKT_SETUP_2"
                "hdr_session_id h2 = cc_session_id ctx0"
              by (rule setup2_done [OF ctx(8-11,6,7,3,4) sent(2) ok2])
            show thesis
            proof (cases rule: finish_setup_cases [OF R wf2(1) len(5), of wio "cred_path a" t c net1, case_names fail save])
              case (save q c3 d4 h4 net2 ops r)
              have "setup_exchanged S rnd a t net net2 c m2 (ctx2\<lparr>cc_seq := q\<rparr>)"
                unfolding setup_exchanged_def using ctx(1) sent(4) reply m2(1-3) m2(4) [unfolded ctx(12)] ok2 save(1-4) by blast
              then show thesis using that(2) [OF creds _ _ _ save(5)] run3 save(6) wf2(1) fin by simp
            qed (use that(1) run3 in simp)
          qed (use that(1) wf2 run2 s2 in simp_all)
        qed
      qed (use that(1) run creds ctx in simp)
    qed (use that(1) run creds in simp)
  qed (use that(1) run in simp)
qed

subsection \<open>Properties of a run\<close>

text \<open>C8: Enrolment touches the file system only after the server has proved its key and acknowledged. Whatever the network
  answers, a run of \<^verbatim>\<open>do_setup\<close> makes no access outside its buffers; at every point of its file operations the
  credential file is the old or the final one; if the run does not exit with 0 the file is unchanged. If it performs any
  file operation at all, or exits with 0, then: the packet received in reply to its SETUP_1 was a SETUP_2 of this session
  with message \<open>s2\<close>; the proof in \<open>s2\<close> verifies for its server key, this device and this run's nonce; that key was the
  pinned one (or none was pinned and trust on first use was asked for); and the packet received in reply to the SETUP_3 was
  a SETUP acknowledgement. If it exits with 0, the file holds the key of \<open>s2\<close> with the device secret and role of before, or
  with a fresh commitment to the requested role.\<close>

theorem enrolment_commits_verified:
  assumes "ristretto255 S enc" and "wf_setup_random rnd" and "do_setup S rio wio rnd a t fs net = Some (r, ops, net')"
  shows "r \<noteq> Fault \<and>
    (\<forall>k. fs_run (take k ops) fs (cred_path a) \<in> {fs (cred_path a), fs_run ops fs (cred_path a)}) \<and>
    (r \<noteq> Ret () \<longrightarrow> fs_run ops fs (cred_path a) = fs (cred_path a)) \<and>
    (ops \<noteq> [] \<or> r = Ret () \<longrightarrow> (\<exists>creds ctx s2. load_or_fresh rio (sr_root rnd) fs (cred_path a) = Ret creds \<and>
       setup_exchanged S rnd a t net net' creds s2 ctx \<and> setup_done S rnd a creds s2 ctx \<and> wf_creds (enrolled_creds creds ctx) \<and>
       (r = Ret () \<longrightarrow> fs_run ops fs (cred_path a) = Some (creds_layout (enrolled_creds creds ctx)))))"
proof (cases rule: do_setup_cases [OF assms(1,2), of rio wio a t fs net, case_names fail save])
  case fail
  then show ?thesis using assms(3) by (auto simp: gives_up_def)
next
  case (save creds ctx s2 net1 ops1 r1)
  note wf = wf_enrolled_creds [OF save(2,3)]
  have w: "atomic_write wio (cred_path a) (creds_layout (enrolled_creds creds ctx))
      (length (creds_layout (enrolled_creds creds ctx))) = (ops1, r1)"
    using save(6) wf by (simp add: creds_save_eq)
  have eq: "ops = ops1" "r = (case r1 of Fault \<Rightarrow> Fault | Fail e \<Rightarrow> Fail 1 | Ret _ \<Rightarrow> Ret ())" "net' = net1"
    using save(7) assms(3) by simp_all
  have crash: "fs_run (take k ops) fs (cred_path a) \<in> {fs (cred_path a), Some (creds_layout (enrolled_creds creds ctx))}" for k
    using atomic_write_crash [OF w, of "cred_path a" k fs] eq by auto
  have ex: "load_or_fresh rio (sr_root rnd) fs (cred_path a) = Ret creds" "setup_exchanged S rnd a t net net' creds s2 ctx"
    "setup_done S rnd a creds s2 ctx" using save eq by simp_all
  show ?thesis
  proof (cases rule: atomic_write_cases [OF w, of fs, case_names ok err])
    case ok
    then show ?thesis using eq ex wf(1) crash by auto
  next
    case (err e)
    have "fs_run (take k ops) fs (cred_path a) = fs (cred_path a)" for k
      using atomic_write_error_crash [OF w, of k fs] err(1) eq by simp
    then show ?thesis using eq err ex wf(1) by auto
  qed
qed

lemma exit_on_Ret_iff: "exit_on r net k = Some (Ret x, y) \<longleftrightarrow> (\<exists>a. r = Ret a \<and> k a = Some (Ret x, y))"
  by (cases r) (simp_all add: exit_on_def)

lemma exchange_Ret_iff:
  "exchange t out net k = Some (Ret x, y) \<longleftrightarrow>
     (\<exists>c net'. exchanged t out net = Some (Ret c, net') \<and> k (sent c) net' = Some (Ret x, y))"
  by (auto simp: exchange_def exit_on_Ret_iff split: option.splits)

text \<open>With complete credentials the two modes start from the same context.\<close>

lemma auth_ctx_eq:
  "cr_has_pinned_server c \<Longrightarrow> cr_has_role c \<Longrightarrow> auth_ctx S random16 c = setup_ctx S random16 c role"
  by (simp add: auth_ctx_def setup_ctx_def)

lemma prove_auth_client_cases:
  assumes R: "ristretto255 S enc" and "length wide = 64" "length sk = 32" "length pid = 32" "length nc = 32" "length ec = 32"
  shows "auth_prove_auth_client S wide sk pid nc ec \<noteq> Fault \<and> (\<forall>p. auth_prove_auth_client S wide sk pid nc ec = Ret p \<longrightarrow> wf_proof p)"
proof -
  have w: "length (sd_scalar_reduce S wide) = 32" using assms by (simp add: length_reduce)
  note s = response_length [OF R assms(2,3)]
  have ch: "auth_client_challenge S pub a pid nc ec = Ret (tr_challenge S (tr_auth_client pub a pid nc ec))"
    if "auth_scalarmult_base S (sd_scalar_reduce S wide) = Ret a" "auth_scalarmult_base S sk = Ret pub" for pub a
    using base_mult_length [OF R w that(1)] base_mult_length [OF R assms(3) that(2)] assms(4,5,6)
    by (simp add: auth_client_challenge_eq tr_challenge_def)
  show ?thesis
    using base_mult_length [OF R w]
    by (auto simp: auth_prove_auth_client_def auth_prove_auth_client_with_bytes_def auth_scalar_from_wide_def g_times_def
        bnd_iffs ch s wf_proof_def Let_def)
qed

lemma client_send_fields:
  assumes "client_send pt encode m ctx out = (Ret c, ctx')"
  shows "ctx' = ctx\<lparr>cc_seq := cc_seq ctx + 1\<rparr>"
  using assms by (auto simp: client_send_def try_c_Ret_iff Let_def)

lemma build_auth1_ctx:
  assumes R: "ristretto255 S enc" and wf: "wf_client ctx" and rnd: "wf_auth1_random rnd"
    and b: "auth_client_build_auth1 S rnd ctx (Some roles) n out = (Ret c, ctx1)"
  shows "wf_client ctx1 \<and> cc_device_pub ctx1 = cc_device_pub ctx \<and> cc_server_pub_pinned ctx1 = cc_server_pub_pinned ctx \<and>
    cc_session_id ctx1 = cc_session_id ctx \<and> cc_client_nonce ctx1 = rnd_nonce rnd \<and> cc_eph_secret ctx1 = auth_random_scalar S (rnd_eph rnd) \<and>
    auth_scalarmult_base S (cc_eph_secret ctx1) = Ret (cc_eph_c ctx1)"
proof -
  from b obtain eph_c pid cp a1 ctx0 where
    eph: "auth_scalarmult_base S (auth_random_scalar S (rnd_eph rnd)) = Ret eph_c"
    and pid: "pid = auth_compute_pid S (cc_device_pub ctx) (rnd_nonce rnd) eph_c (cc_server_pub_pinned ctx)"
    and cp: "auth_prove_auth_client S (rnd_client rnd) (cc_device_sk ctx) pid (rnd_nonce rnd) eph_c = Ret cp"
    and ctx0: "ctx0 = ctx\<lparr>cc_client_nonce := rnd_nonce rnd, cc_eph_secret := auth_random_scalar S (rnd_eph rnd),
                cc_eph_c := eph_c, cc_pending_client_proof := cp\<rparr>"
    and snd': "client_send AUTH_PKT_AUTH_1 auth_auth1_encode a1 ctx0 out = (Ret c, ctx1)"
    by (rule build_auth1_Ret) blast
  have len: "length (auth_random_scalar S (rnd_eph rnd)) = 32" "length (rnd_nonce rnd) = 32" "length (rnd_client rnd) = 64"
    using rnd length_random_scalar [OF R] by (simp_all add: wf_auth1_random_def)
  have "length eph_c = 32" using base_mult_length [OF R len(1) eph] .
  then have "wf_proof cp"
    using prove_auth_client_cases [OF R len(3), of "cc_device_sk ctx" pid "rnd_nonce rnd" eph_c] cp wf len(2)
    by (simp add: pid length_pid [OF R] wf_client_def)
  then show ?thesis
    using client_send_fields [OF snd'] wf len \<open>length eph_c = 32\<close> eph by (simp add: ctx0 wf_client_def)
qed

lemma auth_ack_key: "cc_session_key (snd (auth_client_handle_auth_ack ctx inp)) = cc_session_key ctx"
  by (auto simp: auth_client_handle_auth_ack_def try_c_def split: cres.splits)

text \<open>The messages of an authentication as they went over the network: AUTH_1 was sent from the context \<open>ctx\<close> and \<open>a2\<close> is
  the message of the AUTH_2 packet received for it; AUTH_3 was sent with the client's tag on \<open>keys\<close>, and its reply was the
  acknowledgement.\<close>

definition auth_exchanged ::
    "sodium \<Rightarrow> auth1_random \<Rightarrow> args \<Rightarrow> client_transport \<Rightarrow> client_net \<Rightarrow> client_net \<Rightarrow> auth_client_ctx \<Rightarrow> auth_client_ctx \<Rightarrow>
     auth_auth2 \<Rightarrow> auth_client_ctx \<Rightarrow> bool" where
  "auth_exchanged S rnd a t net net' ctx0 ctx a2 keys \<longleftrightarrow>
     (\<exists>c1 d2 net1 h2 c3 ctx3 d4 h4.
        auth_client_build_auth1 S rnd ctx0 (Some (ar_allowed a)) (length (ar_allowed a)) (Some (replicate 2048 0)) = (Ret c1, ctx) \<and>
        exchanged t c1 net = Some (Ret d2, net1) \<and>
        sent d2 = header_layout h2 @ auth2_layout a2 \<and> wf_auth2 a2 \<and> hdr_pkt_type h2 = AUTH_PKT_AUTH_2 \<and>
        hdr_session_id h2 = cc_session_id ctx \<and>
        auth_client_build_auth3 S keys (Some (replicate 2048 0)) = (Ret c3, ctx3) \<and>
        exchanged t c3 net1 = Some (Ret d4, net') \<and>
        sent d4 = header_layout h4 @ [AUTH_ACK_BYTE] \<and> hdr_pkt_type h4 = AUTH_PKT_AUTH_ACK)"

lemma do_auth_Ret:
  assumes run: "do_auth S rio random16 rnd a t fs net = Some (Ret key8, ops, net')"
    and creds: "auth_creds_load rio fs (Some (cred_path a)) = Ret creds" and ctx: "auth_ctx S random16 creds = Ret ctx"
  obtains c1 ctx1 d2 net1 ctx2 c3 ctx3 d4 where
    "auth_client_build_auth1 S rnd ctx (Some (ar_allowed a)) (length (ar_allowed a)) (Some (replicate 2048 0)) = (Ret c1, ctx1)"
    "exchanged t c1 net = Some (Ret d2, net1)" "auth_client_handle_auth2 S ctx1 (Some (sent d2)) = (Ret (), ctx2)"
    "auth_client_build_auth3 S ctx2 (Some (replicate 2048 0)) = (Ret c3, ctx3)" "exchanged t c3 net1 = Some (Ret d4, net')"
    "fst (auth_client_handle_auth_ack ctx3 (Some (sent d4))) = Ret ()" "key8 = take 8 (cc_session_key ctx3)" "ops = []"
proof -
  note unf = run [unfolded do_auth_def Let_def, folded cred_path_def]
  have ok: "cr_has_pinned_server creds" "cr_has_role creds" using unf creds by (auto simp: exit_on_Ret_iff split: if_splits)
  obtain r1 ctx1 where b1: "auth_client_build_auth1 S rnd ctx (Some (ar_allowed a)) (length (ar_allowed a)) (Some (replicate 2048 0)) = (r1, ctx1)"
    by fastforce
  obtain c1 d2 net1 where c1: "r1 = Ret c1" "exchanged t c1 net = Some (Ret d2, net1)"
    using unf creds ok ctx b1 by (auto simp: exit_on_Ret_iff exchange_Ret_iff)
  obtain r2 ctx2 where h2: "auth_client_handle_auth2 S ctx1 (Some (sent d2)) = (r2, ctx2)" by fastforce
  obtain r3 ctx3 where b3: "auth_client_build_auth3 S ctx2 (Some (replicate 2048 0)) = (r3, ctx3)" by fastforce
  have r2: "r2 = Ret ()" using unf creds ok ctx b1 c1 h2 by (auto simp: exit_on_Ret_iff exchange_Ret_iff split_beta)
  obtain c3 d4 where c3: "r3 = Ret c3" "exchanged t c3 net1 = Some (Ret d4, net')"
    "fst (auth_client_handle_auth_ack ctx3 (Some (sent d4))) = Ret ()" "key8 = take 8 (cc_session_key ctx3)" "ops = []"
    using unf creds ok ctx b1 c1 h2 b3 by (auto simp: exit_on_Ret_iff exchange_Ret_iff split_beta auth_ack_key)
  show thesis using that b1 c1 h2 r2 b3 c3 by simp
qed

text \<open>C11: An authentication that exits with 0 rests on the pinned key. It makes no file operation; the credentials it
  loaded hold a pinned server key and a role; the packet received in reply to its AUTH_1 was an AUTH_2 of this session whose
  message \<open>a2\<close> carries the pinned key with a verifying server proof, and whose tag is the confirmation tag of the keys
  derived from this run's own ephemeral secret and the ephemeral point of \<open>a2\<close>; the packet received in reply to its AUTH_3
  was the acknowledgement; the printed bytes are the first eight of that session key.\<close>

theorem authentication_pinned:
  assumes R: "ristretto255 S enc" and rnd: "wf_auth1_random rnd" and sid: "length random16 = 16"
    and run: "do_auth S rio random16 rnd a t fs net = Some (Ret key8, ops, net')"
  shows "ops = [] \<and> (\<exists>creds ctx0 ctx a2 shared keys. auth_creds_load rio fs (Some (cred_path a)) = Ret creds \<and>
    cr_has_pinned_server creds \<and> cr_has_role creds \<and> auth_ctx S random16 creds = Ret ctx0 \<and>
    auth_exchanged S rnd a t net net' ctx0 ctx a2 keys \<and> cc_session_id ctx = random16 \<and>
    cc_server_pub_pinned ctx = cr_server_pub_pinned creds \<and> cc_client_nonce ctx = rnd_nonce rnd \<and>
    auth2_valid S ctx a2 \<and> auth_scalarmult S (auth_random_scalar S (rnd_eph rnd)) (a2_eph_s a2) = Ret shared \<and>
    keys = auth2_keys S ctx a2 shared \<and>
    a2_tag_s a2 = auth_hmac_tag S (cc_kc_k_s2c keys) (ascii ''server finished'') (cc_kc_th keys) \<and>
    key8 = take 8 (cc_session_key keys))"
proof -
  note unf = run [unfolded do_auth_def Let_def, folded cred_path_def]
  obtain creds where creds: "auth_creds_load rio fs (Some (cred_path a)) = Ret creds" "cr_has_pinned_server creds" "cr_has_role creds"
    using unf by (auto simp: exit_on_Ret_iff split: if_splits)
  obtain ctx0 where ctx0: "auth_ctx S random16 creds = Ret ctx0" using unf creds by (auto simp: exit_on_Ret_iff)
  obtain c1 ctx1 d2 net1 ctx2 c3 ctx3 d4 where
    b1: "auth_client_build_auth1 S rnd ctx0 (Some (ar_allowed a)) (length (ar_allowed a)) (Some (replicate 2048 0)) = (Ret c1, ctx1)"
    and e1: "exchanged t c1 net = Some (Ret d2, net1)" and h2: "auth_client_handle_auth2 S ctx1 (Some (sent d2)) = (Ret (), ctx2)"
    and b3: "auth_client_build_auth3 S ctx2 (Some (replicate 2048 0)) = (Ret c3, ctx3)" "exchanged t c3 net1 = Some (Ret d4, net')"
    and ack: "fst (auth_client_handle_auth_ack ctx3 (Some (sent d4))) = Ret ()" and k8: "key8 = take 8 (cc_session_key ctx3)" "ops = []"
    by (rule do_auth_Ret [OF run creds(1) ctx0])
  have "wf_client ctx0 \<and> cc_server_pub_pinned ctx0 = cr_server_pub_pinned creds \<and> cc_session_id ctx0 = random16"
    using setup_ctx_cases [OF R creds_load_wf [OF creds(1)] sid] ctx0 auth_ctx_eq [OF creds(2,3), of S random16 0] by (metis cres.inject(2) cres.distinct(5))
  then have c1: "wf_client ctx1" "cc_server_pub_pinned ctx1 = cr_server_pub_pinned creds" "cc_client_nonce ctx1 = rnd_nonce rnd"
    "cc_eph_secret ctx1 = auth_random_scalar S (rnd_eph rnd)" "cc_session_id ctx1 = random16"
    using build_auth1_ctx [OF R _ rnd b1] by simp_all
  obtain h4 where h4: "sent d4 = header_layout h4 @ [AUTH_ACK_BYTE]" "hdr_pkt_type h4 = AUTH_PKT_AUTH_ACK"
    by (rule auth_ack_Ret [OF ack])
  obtain h a2 shared where a2: "client_open AUTH_PKT_AUTH_2 (Some (sent d2)) = Ret (h, auth2_layout a2)"
    "hdr_session_id h = cc_session_id ctx1" "wf_auth2 a2" "auth2_valid S ctx1 a2"
    "auth_scalarmult S (cc_eph_secret ctx1) (a2_eph_s a2) = Ret shared" "ctx2 = auth2_keys S ctx1 a2 shared"
    "a2_tag_s a2 = auth_hmac_tag S (cc_kc_k_s2c ctx2) (ascii ''server finished'') (cc_kc_th ctx2)"
    using handle_auth2_cases [OF R c1(1), of "Some (sent d2)"] h2 by (auto simp: Let_def split: if_splits)
  have "sent d2 = header_layout h @ auth2_layout a2" "hdr_pkt_type h = AUTH_PKT_AUTH_2" using a2(1) by (simp_all add: client_open_Ret_iff)
  then have "auth_exchanged S rnd a t net net' ctx0 ctx1 a2 ctx2"
    unfolding auth_exchanged_def using b1 e1 a2(2,3) b3 h4 by blast
  moreover have "cc_session_key ctx3 = cc_session_key ctx2" using b3(1) client_send_fields by (fastforce simp: auth_client_build_auth3_def)
  ultimately show ?thesis using creds ctx0 c1(2-5) a2(4-7) k8 by auto
qed

end
