(* ===== verification/Enrolment.thy ===== *)
theory Enrolment
  imports ClientRun
begin

text \<open>
  Enrolment from both sides: the steps in which an honest client and an honest server complete SETUP_1, SETUP_2, SETUP_3 and
  its acknowledgement, and the context an authentication starts from with the credentials the client has saved. The
  concrete runs at the end are also the witnesses of the theorems on the client program.
\<close>

subsection \<open>The server's answer to SETUP_1\<close>

definition setup2_msg :: "byte list \<Rightarrow> byte list \<Rightarrow> byte list \<Rightarrow> auth_schnorr_proof \<Rightarrow> auth_setup2" where
  "setup2_msg sn ch spub sp = \<lparr>s2_server_nonce = sn, s2_setup_challenge = ch, s2_server_pub = spub, s2_server_proof = sp\<rparr>"

lemma server_setup1_Ret:
  assumes R: "ristretto255 S enc" and len: "length sid = 16" "length server_sk = 32" "length server_pub = 32"
      "length sn = 32" "length ch = 16" "length wide = 64"
    and s1: "wf_setup1 s1" "setup1_norm s1 = s1"
    and srv: "auth_server_handle_setup1 S sn ch wide sid seq (Some (setup1_layout s1)) server_sk server_pub req pending
      (Some (replicate 2048 0)) = (Ret c2, pend)"
  obtains sp where "auth_prove_setup_server S wide server_sk (s1_device_id s1) (s1_device_pub s1) server_pub (s1_client_nonce s1) sn ch = Ret sp"
    "wf_proof sp" "sent c2 = packet AUTH_PKT_SETUP_2 sid seq (setup2_layout (setup2_msg sn ch server_pub sp))"
    "ps_session_id pend = sid" "ps_device_id pend = s1_device_id s1" "ps_device_pub pend = s1_device_pub s1"
    "ps_role_commitment pend = s1_role_commitment s1" "ps_client_nonce pend = s1_client_nonce s1"
    "ps_server_nonce pend = sn" "ps_setup_challenge pend = ch" "ps_server_pub pend = server_pub"
proof -
  have dec: "auth_setup1_decode (Some (setup1_layout s1)) = Ret s1" using setup1.dec_layout [OF s1(1)] s1(2) by simp
  let ?prove = "auth_prove_setup_server S wide server_sk (s1_device_id s1) (s1_device_pub s1) server_pub (s1_client_nonce s1) sn ch"
  let ?ps = "pending_setup_zero
                \<lparr>ps_session_id := sid, ps_device_id := s1_device_id s1,
                 ps_device_pub := s1_device_pub s1, ps_role_commitment := s1_role_commitment s1,
                 ps_client_nonce := s1_client_nonce s1, ps_server_pub := server_pub,
                 ps_server_nonce := sn, ps_setup_challenge := ch\<rparr>"
  obtain sp where sp: "?prove = Ret sp"
    and rest: "try_c (auth_setup2_encode (Some (setup2_msg sn ch server_pub sp)) (Some (replicate 2024 0))) ?ps (\<lambda>(payload, payload_len).
          try_c (auth_packet_build AUTH_PKT_SETUP_2 (Some sid) seq (Some payload) payload_len (Some (replicate 2048 0)))
            ?ps (cache_setup ?ps)) = (Ret c2, pend)"
    using srv by (cases ?prove) (auto simp: auth_server_handle_setup1_def dec try_c_Ret_iff setup2_msg_def Let_def split: if_splits)
  have wfp: "wf_proof sp"
    using prove_setup_server_cases [OF R len(6,2,3), of "s1_device_id s1" "s1_device_pub s1" "s1_client_nonce s1" sn ch] sp s1(1) len
    by (simp add: wf_setup1_def)
  then have wf2: "wf_setup2 (setup2_msg sn ch server_pub sp)" using len by (simp add: setup2_msg_def wf_setup2_def)
  let ?pkt = "packet AUTH_PKT_SETUP_2 sid seq (setup2_layout (setup2_msg sn ch server_pub sp))"
  have pkt: "length ?pkt = 168" using length_setup2_layout [OF wf2] len(1) by simp
  have "cache_setup ?ps (cur (replicate 2048 0) ?pkt) = (Ret c2, pend)"
    using rest setup2.reply_eq [OF wf2 _ len(1), of ?ps AUTH_PKT_SETUP_2 seq "replicate 2048 0" "cache_setup ?ps"]
      length_setup2_layout [OF wf2] by simp
  then have "c2 = cur (replicate 2048 0) ?pkt" "pend = ?ps\<lparr>ps_response_packet := cached ?pkt, ps_response_packet_len := 168\<rparr>"
    using cache_setup_cur [of ?pkt "replicate 2048 0" ?ps] pkt by (simp_all add: pending_setup_zero_def)
  then show thesis using that [OF sp wfp] pkt by simp
qed

text \<open>An honest server accepts the SETUP_1 of an honest device.\<close>

lemma commitment_accepted:
  assumes R: "ristretto255 S enc" and "auth_make_role_commitment S code blind = Ret c"
  shows "check_point_or_identity S c = Ret ()"
proof -
  from assms(2) obtain p q where "auth_point_add S p q = Ret c"
    by (auto simp: auth_make_role_commitment_def bnd_iffs Let_def)
  then have "c \<in> range enc"
    using points_add_invalid [OF R, of p q] by (cases "p \<in> range enc \<and> q \<in> range enc") (auto simp: points_add [OF R])
  then show ?thesis using check_or_identity_enc [OF R] by auto
qed

lemma server_setup1_accepts:
  assumes R: "ristretto255 S enc" and len: "length sid = 16" "length sn = 32" "length ch = 16" "length wide = 64"
    and ssk: "canonical server_sk" "auth_scalarmult_base S server_sk = Ret server_pub" and nz: "le_int wide mod group_order \<noteq> 0"
    and s1: "wf_setup1 s1" "setup1_norm s1 = s1" "pairing_token_ok req s1" "auth_check_point S (s1_device_pub s1) = Ret ()"
      "check_point_or_identity S (s1_role_commitment s1) = Ret ()"
  shows "\<exists>c2 pend. auth_server_handle_setup1 S sn ch wide sid seq (Some (setup1_layout s1)) server_sk server_pub req pending_setup_zero
    (Some (replicate 2048 0)) = (Ret c2, pend)"
proof -
  have dec: "auth_setup1_decode (Some (setup1_layout s1)) = Ret s1" using setup1.dec_layout [OF s1(1)] s1(2) by simp
  have sk32: "length server_sk = 32" using ssk(1) by (simp add: canonical_def)
  have pub32: "length server_pub = 32" using base_mult_length [OF R sk32 ssk(2)] .
  obtain sp where sp: "auth_prove_setup_server S wide server_sk (s1_device_id s1) (s1_device_pub s1) server_pub (s1_client_nonce s1) sn ch = Ret sp"
    "wf_proof sp"
    using setup_server.complete [OF R, of "(s1_device_id s1, s1_device_pub s1, s1_client_nonce s1, sn, ch)" server_sk wide server_pub]
      ssk nz len s1(1) by (auto simp: wf_setup1_def)
  let ?msg = "setup2_msg sn ch server_pub sp"
  have wf2: "wf_setup2 ?msg" using sp(2) len pub32 by (simp add: setup2_msg_def wf_setup2_def)
  have reply: "\<exists>c2 pend. try_c (auth_setup2_encode (Some ?msg) (Some (replicate 2024 0))) ps (\<lambda>(payload, k).
      try_c (auth_packet_build AUTH_PKT_SETUP_2 (Some sid) seq (Some payload) k (Some (replicate 2048 0))) ps (cache_setup ps)) = (Ret c2, pend)"
    if "ps_response_packet ps = replicate 2048 0" for ps
    using setup2.reply_eq [OF wf2 _ len(1), of ps AUTH_PKT_SETUP_2 seq "replicate 2048 0" "cache_setup ps"] len(1) length_setup2_layout [OF wf2]
      cache_setup_cur [of "packet AUTH_PKT_SETUP_2 sid seq (setup2_layout ?msg)" "replicate 2048 0" ps] that by simp
  have "ps_response_packet pending_setup_zero = replicate 2048 0" by (simp add: pending_setup_zero_def)
  then show ?thesis
    using dec s1(3-5) sp(1)
    by (simp add: auth_server_handle_setup1_def Let_def setup2_msg_def [symmetric] reply del: split_paired_Ex)
qed

subsection \<open>Both sides of an enrolment\<close>

text \<open>What the client sends first, and what it goes on with.\<close>

lemma setup1_sent:
  assumes R: "ristretto255 S enc" and wf: "wf_client ctx" and len: "length nonce = 32" "length blind = 64"
    and b: "auth_client_build_setup1 S nonce blind ctx tok (length (token_bytes tok)) (Some (replicate 2048 0)) = (Ret c1, ctx1)"
  obtains s1 where "wf_setup1 s1" "setup1_norm s1 = s1" "wf_client ctx1"
    "sent c1 = packet AUTH_PKT_SETUP_1 (cc_session_id ctx) (cc_seq ctx + 1) (setup1_layout s1)"
    "s1_device_id s1 = cc_device_id ctx" "s1_device_pub s1 = cc_device_pub ctx" "s1_client_nonce s1 = nonce"
    "s1_role_commitment s1 = cc_role_commitment ctx1" "cc_session_id ctx1 = cc_session_id ctx" "cc_client_nonce ctx1 = nonce"
    "cc_device_id ctx1 = cc_device_id ctx" "cc_device_pub ctx1 = cc_device_pub ctx" "cc_device_sk ctx1 = cc_device_sk ctx"
    "cc_has_pinned_server ctx1 = cc_has_pinned_server ctx" "cc_server_pub_pinned ctx1 = cc_server_pub_pinned ctx"
proof (cases rule: build_setup1_cases [OF R wf len, of tok, case_names fail sent])
  case (sent ctx0)
  note f = setup1_role_fields [OF sent(2)]
  note wfm = wf_setup1_msg [OF sent(3,1)]
  have "length (packet AUTH_PKT_SETUP_1 (cc_session_id ctx) (cc_seq ctx + 1) (setup1_layout (setup1_msg ctx0 (token_bytes tok)))) \<le> 2048"
    using wfm(2) sent(1) wf by (simp add: wf_client_def)
  moreover have "c1 = cur (replicate 2048 0) (packet AUTH_PKT_SETUP_1 (cc_session_id ctx) (cc_seq ctx + 1)
      (setup1_layout (setup1_msg ctx0 (token_bytes tok))))" and ctx1: "ctx1 = ctx0\<lparr>cc_seq := cc_seq ctx + 1\<rparr>"
    using b sent(4) by simp_all
  ultimately have "ClientProto.sent c1 = packet AUTH_PKT_SETUP_1 (cc_session_id ctx) (cc_seq ctx + 1)
      (setup1_layout (setup1_msg ctx0 (token_bytes tok)))" by simp
  then show thesis
    by (rule that [OF wfm(1,3), rotated]) (use sent(3) f(1-8) in \<open>simp_all add: ctx1 setup1_msg_def\<close>)
qed (use b in simp)

lemma setup2_answered:
  assumes R: "ristretto255 S enc" and wf: "wf_client ctx" and "wf_proof sp" and len: "length sn = 32" "length ch = 16" "length wide = 64"
    and ssk: "canonical server_sk" "auth_scalarmult_base S server_sk = Ret server_pub"
    and sp: "auth_prove_setup_server S wide server_sk (cc_device_id ctx) (cc_device_pub ctx) server_pub (cc_client_nonce ctx) sn ch = Ret sp"
    and key: "cc_has_pinned_server ctx \<and> cc_server_pub_pinned ctx = server_pub \<or> \<not> cc_has_pinned_server ctx \<and> allow_tofu"
  shows "auth_client_handle_setup2 S ctx (Some (packet AUTH_PKT_SETUP_2 (cc_session_id ctx) seq (setup2_layout (setup2_msg sn ch server_pub sp)))) allow_tofu =
    (if schnorr_nonzero S (tr_setup_server (cc_device_id ctx) (cc_device_pub ctx) server_pub (prf_a sp) (cc_client_nonce ctx) sn ch) server_sk sp
     then (Ret (), (tofu_pin ctx (setup2_msg sn ch server_pub sp))\<lparr>cc_pending_server_pub := server_pub, cc_pending_server_nonce := sn,
        cc_pending_setup_challenge := ch\<rparr>)
     else (Fail AUTH_ERR_PROOF_VERIFY, tofu_pin ctx (setup2_msg sn ch server_pub sp)))"
proof -
  have sk32: "length server_sk = 32" using ssk(1) by (simp add: canonical_def)
  have pub32: "length server_pub = 32" using base_mult_length [OF R sk32 ssk(2)] .
  have wf2: "wf_setup2 (setup2_msg sn ch server_pub sp)" using len pub32 assms(3) by (simp add: setup2_msg_def wf_setup2_def)
  have sid: "length (cc_session_id ctx) = 16" using wf by (simp add: wf_client_def)
  have pt: "auth_check_point S server_pub = Ret ()" using check_base_mult [OF R sk32 ssk(2)] by simp
  have ver: "auth_verify_setup_server S sp server_pub (cc_device_id ctx) (cc_device_pub ctx) (cc_client_nonce ctx) sn ch =
      Ret (schnorr_nonzero S (tr_setup_server (cc_device_id ctx) (cc_device_pub ctx) server_pub (prf_a sp) (cc_client_nonce ctx) sn ch) server_sk sp)"
    using setup_server.honest [OF R, of "(cc_device_id ctx, cc_device_pub ctx, cc_client_nonce ctx, sn, ch)" server_sk wide server_pub sp]
      ssk sp len wf by (simp add: wf_client_def)
  have op: "client_open AUTH_PKT_SETUP_2 (Some (packet AUTH_PKT_SETUP_2 (cc_session_id ctx) seq (setup2_layout (setup2_msg sn ch server_pub sp)))) =
      Ret (packet_header AUTH_PKT_SETUP_2 (cc_session_id ctx) seq, setup2_layout (setup2_msg sn ch server_pub sp))"
    by (rule client_open_packet [OF sid]) simp
  show ?thesis
    using handle_setup2_decoded [OF wf wf2 op, of S allow_tofu] pt key ver by (simp add: setup2_msg_def)
qed

text \<open>What becomes of a SETUP_3: its proof is the one for the pending values, the server acknowledges it and the client
  accepts the acknowledgement, unless the proof vanishes, which the server refuses.\<close>

definition setup3_outcome ::
    "sodium \<Rightarrow> byte list \<Rightarrow> auth_pending_setup \<Rightarrow> auth_client_ctx \<Rightarrow> cursor \<Rightarrow> auth_client_ctx \<Rightarrow> bool" where
  "setup3_outcome S wide pend ctx c3 ctx3 \<longleftrightarrow>
     (\<exists>cp p3. auth_prove_setup_client S wide (cc_device_sk ctx) (cc_device_id ctx) (cc_device_pub ctx)
        (cc_pending_server_pub ctx) (cc_client_nonce ctx) (cc_pending_server_nonce ctx) (cc_pending_setup_challenge ctx) = Ret cp \<and>
      sent c3 = packet AUTH_PKT_SETUP_3 (cc_session_id ctx) (cc_seq ctx + 1) p3 \<and>
      (if schnorr_nonzero S (tr_setup_client (cc_device_id ctx) (cc_device_pub ctx) (cc_pending_server_pub ctx) (prf_a cp)
            (cc_client_nonce ctx) (cc_pending_server_nonce ctx) (cc_pending_setup_challenge ctx)) (cc_device_sk ctx) cp
       then \<exists>c4. auth_server_handle_setup3 S pend (cc_session_id ctx) (cc_seq ctx + 1) (Some p3) (Some (replicate 2048 0)) = Ret c4 \<and>
         auth_client_handle_setup_ack ctx3 (Some (sent c4)) = (Ret (), ctx3)
       else auth_server_handle_setup3 S pend (cc_session_id ctx) (cc_seq ctx + 1) (Some p3) (Some (replicate 2048 0)) =
         Fail AUTH_ERR_PROOF_VERIFY))"

lemma setup3_answered:
  assumes R: "ristretto255 S enc" and wf: "wf_client ctx" and wide: "length wide = 64" and sk: "canonical (cc_device_sk ctx)"
      "auth_scalarmult_base S (cc_device_sk ctx) = Ret (cc_device_pub ctx)"
    and pend: "ps_session_id pend = cc_session_id ctx" "ps_device_id pend = cc_device_id ctx" "ps_device_pub pend = cc_device_pub ctx"
      "ps_client_nonce pend = cc_client_nonce ctx" "ps_server_nonce pend = cc_pending_server_nonce ctx"
      "ps_setup_challenge pend = cc_pending_setup_challenge ctx" "ps_server_pub pend = cc_pending_server_pub ctx"
    and b: "auth_client_build_setup3 S wide ctx (Some (replicate 2048 0)) = (Ret c3, ctx3)"
  shows "setup3_outcome S wide pend ctx c3 ctx3"
proof (cases rule: build_setup3_cases [OF R wf wide, case_names fail sent])
  case (sent cp)
  have sid: "length (cc_session_id ctx) = 16" using wf by (simp add: wf_client_def)
  have wf3: "wf_setup3 \<lparr>s3_client_proof = cp\<rparr>" using sent(2) by (simp add: wf_setup3_def)
  have ver: "auth_verify_setup_client S cp (cc_device_id ctx) (cc_device_pub ctx) (cc_pending_server_pub ctx) (cc_client_nonce ctx)
      (cc_pending_server_nonce ctx) (cc_pending_setup_challenge ctx) =
      Ret (schnorr_nonzero S (tr_setup_client (cc_device_id ctx) (cc_device_pub ctx) (cc_pending_server_pub ctx) (prf_a cp)
          (cc_client_nonce ctx) (cc_pending_server_nonce ctx) (cc_pending_setup_challenge ctx)) (cc_device_sk ctx) cp)"
    using setup_client.honest [OF R, of "(cc_device_id ctx, cc_pending_server_pub ctx, cc_client_nonce ctx, cc_pending_server_nonce ctx,
        cc_pending_setup_challenge ctx)" "cc_device_sk ctx" wide "cc_device_pub ctx" cp] sk sent(1) wide wf
    by (simp add: wf_client_def)
  have dec: "auth_setup3_decode (Some (setup3_layout \<lparr>s3_client_proof = cp\<rparr>)) = Ret \<lparr>s3_client_proof = cp\<rparr>"
    using setup3.dec_layout [OF wf3] by simp
  let ?ack = "packet AUTH_PKT_SETUP_ACK (cc_session_id ctx) (cc_seq ctx + 1) [AUTH_ACK_BYTE]"
  have "auth_client_handle_setup_ack ctx3 (Some ?ack) = (Ret (), ctx3)"
    using client_open_packet [OF sid, of AUTH_PKT_SETUP_ACK "cc_seq ctx + 1" "[AUTH_ACK_BYTE]"] ack.dec_layout
    by (simp add: auth_client_handle_setup_ack_def)
  moreover have "ClientProto.sent (cur (replicate 2048 0) ?ack) = ?ack" using sid by simp
  moreover have "ClientProto.sent c3 = packet AUTH_PKT_SETUP_3 (cc_session_id ctx) (cc_seq ctx + 1) (setup3_layout \<lparr>s3_client_proof = cp\<rparr>)"
    using b sent(3) length_setup3_layout [OF wf3] sid by auto
  ultimately show ?thesis
    unfolding setup3_outcome_def
    using sent(1) ack_reply [OF sid, of AUTH_PKT_SETUP_ACK "cc_seq ctx + 1" "replicate 2048 0"] ver
    by (intro exI [of _ cp] exI [of _ "setup3_layout \<lparr>s3_client_proof = cp\<rparr>"])
      (simp add: auth_server_handle_setup3_def dec pend)
qed (use b in simp)

subsection \<open>From enrolment to authentication\<close>

lemma canonical_reduce: "ristretto255 S enc \<Longrightarrow> length w = 64 \<Longrightarrow> canonical (sd_scalar_reduce S w)"
  by (simp add: reduce_sc)

lemma loads_saved:
  assumes "wf_creds c" and "fs path = Some (creds_layout c)" and "auth_creds_load io fs (Some path) = Ret c'"
  shows "c' = c"
proof (cases rule: read_whole_file_cases [of fs path io 154])
  case (content b)
  then have "read_whole_file io fs path 154 = Ret (creds_layout c)"
    using assms(2) length_creds_layout [OF assms(1)] by simp
  then show ?thesis using creds_load_layout [OF assms(1)] assms(3) by simp
qed (use assms in \<open>simp_all add: auth_creds_load_def\<close>)

text \<open>A stored role is one the device can open: the blinding is a scalar and gives the commitment.\<close>

definition role_opens :: "sodium \<Rightarrow> auth_credentials \<Rightarrow> bool" where
  "role_opens S c \<longleftrightarrow> canonical (cr_role_blind c) \<and>
     auth_make_role_commitment S (cr_role_code c) (cr_role_blind c) = Ret (cr_role_commitment c)"

text \<open>After a successful enrolment the credentials in the file give an enrolled client context.\<close>

lemma saved_creds_enrolled:
  assumes R: "ristretto255 S enc" and rnd: "wf_setup_random rnd" and sid: "length random16 = 16"
    and run: "do_setup S rio wio rnd a t fs net = Some (Ret (), ops, net')"
    and creds: "load_or_fresh rio (sr_root rnd) fs (cred_path a) = Ret creds" "cr_has_role creds \<Longrightarrow> role_opens S creds"
    and load: "auth_creds_load rio' (fs_run ops fs) (Some (cred_path a)) = Ret creds'"
  shows "\<exists>ctx. auth_ctx S random16 creds' = Ret ctx \<and> enrolled_client S ctx (cr_server_pub_pinned creds') \<and>
    cc_role_code ctx = (if cr_has_role creds then cr_role_code creds else if ar_role a = 0 then 1 else ar_role a) \<and>
    cc_role_commitment ctx = cr_role_commitment creds' \<and> cc_device_id ctx = auth_derive_device_id S (cr_device_root creds') \<and>
    auth_scalarmult_base S (auth_derive_device_scalar S (cr_device_root creds')) = Ret (cc_device_pub ctx)"
proof (cases rule: do_setup_cases [OF R rnd, of rio wio a t fs net, case_names fail save])
  case (save c ctx s2 net1 ops1 r1)
  have c: "c = creds" using save(1) creds(1) by simp
  note wf = wf_enrolled_creds [OF save(2,3)]
  have w: "atomic_write wio (cred_path a) (creds_layout (enrolled_creds c ctx)) (length (creds_layout (enrolled_creds c ctx))) = (ops1, r1)"
    using save(6) wf by (simp add: creds_save_eq)
  have "r1 = Ret ()" "ops = ops1" using save(7) run by (auto split: cres.splits)
  then have "fs_run ops fs (cred_path a) = Some (creds_layout (enrolled_creds c ctx))"
    by (cases rule: atomic_write_cases [OF w, of fs, case_names ok err]) auto
  then have c': "creds' = enrolled_creds c ctx" using loads_saved [OF wf(1) _ load] by simp
  have full: "cr_has_pinned_server creds'" "cr_has_role creds'" "cr_device_root creds' = cr_device_root creds"
    by (simp_all add: c' c enrolled_creds_def)
  have dn: "cc_role_code ctx = (if cr_has_role creds then cr_role_code creds else if ar_role a = 0 then 1 else ar_role a)"
    "auth_make_role_commitment S (cc_role_code ctx) (cc_role_blind ctx) = Ret (cc_role_commitment ctx)"
    "\<exists>dpub. auth_scalarmult_base S (auth_derive_device_scalar S (cr_device_root creds)) = Ret dpub"
    "cc_role_blind ctx = (if cr_has_role creds then cr_role_blind creds else auth_random_scalar S (sr_blind rnd))"
    using save(4) creds(2) c by (auto simp: setup_done_def role_opens_def split: if_splits)
  have can: "canonical (auth_derive_device_scalar S (cr_device_root creds))" "canonical (cc_role_blind ctx)"
    using rnd canonical_reduce [OF R] sodium_digests(4) [OF R] creds(2)
    by (simp_all add: auth_derive_device_scalar_def Let_def dn(4) auth_random_scalar_def wf_setup_random_def role_opens_def)
  have wfc: "wf_creds creds'" using wf(1) c' by simp
  show ?thesis
  proof (cases rule: setup_ctx_cases [OF R wfc sid, of 0, case_names fail ctx])
    case (ctx ctx')
    have "auth_ctx S random16 creds' = Ret ctx'" using ctx(1) auth_ctx_eq [OF full(1,2)] by metis
    then show ?thesis
      using ctx full dn(1,2) can by (intro exI [of _ ctx']) (simp add: enrolled_client_def c' enrolled_creds_def)
  qed (use dn(3) full(3) in \<open>auto simp: setup_ctx_def device_ctx_def zero_client_def\<close>)
qed (use run in \<open>simp add: gives_up_def\<close>)

subsection \<open>A concrete enrolment\<close>

text \<open>A reply over UDP.\<close>

lemma udp_exchange:
  assumes "ct_kind t = TRANSPORT_UDP" and "ud_fd (ct_udp t) \<ge> 0" and "length pkt \<le> 2048" and "length d \<le> 2048"
    and "cn_tx net = []" and "cn_dgrams net = Rx_data (d, from) # ds"
  shows "exchanged t (cur (replicate 2048 0) pkt) net =
    Some (Ret (cur (replicate 2048 0) d), net\<lparr>cn_dgrams := ds, cn_sent := cn_sent net @ [pkt]\<rparr>)"
proof -
  have "transport_send t (fst (cur (replicate 2048 0) pkt)) (snd (cur (replicate 2048 0) pkt)) net =
      (Ret (), net\<lparr>cn_sent := cn_sent net @ [pkt]\<rparr>)"
    using assms(1-3,5) by (simp add: transport_send_def auth_udp_send_def cur_def)
  moreover have "transport_recv t (replicate 2048 0) 2048 5000 (net\<lparr>cn_sent := cn_sent net @ [pkt]\<rparr>) =
      Some (Ret (cur (replicate 2048 0) d), net\<lparr>cn_dgrams := ds, cn_sent := cn_sent net @ [pkt]\<rparr>)"
    using assms(1,2,4,6) by (simp add: transport_recv_def auth_udp_recv_def wrn_cur_0 cur_eqI min_absorb2)
  ultimately show ?thesis using assms(1) by (simp add: send_then_recv_def numeral_2_eq_2)
qed

lemma do_setup_steps:
  assumes "load_or_fresh rio (sr_root rnd) fs (cred_path a) = Ret creds"
    and "setup_ctx S (sr_session rnd) creds (ar_role a) = Ret ctx0"
    and "auth_client_build_setup1 S (sr_nonce rnd) (sr_blind rnd) ctx0 (map_option ascii (ar_pairing_token a))
       (length (token_bytes (map_option ascii (ar_pairing_token a)))) (Some (replicate 2048 0)) = (Ret c1, ctx1)"
    and "exchanged t c1 net = Some (Ret d2, net1)"
    and "auth_client_handle_setup2 S ctx1 (Some (sent d2)) (ar_allow_tofu a) = (Ret (), ctx2)"
    and "auth_client_build_setup3 S (sr_client rnd) ctx2 (Some (replicate 2048 0)) = (Ret c3, ctx3)"
    and "exchanged t c3 net1 = Some (Ret d4, net2)"
    and "auth_client_handle_setup_ack ctx3 (Some (sent d4)) = (Ret (), ctx3)"
    and "auth_creds_save wio (Some (enrolled_creds creds ctx3)) (Some (cred_path a)) = (ops, Ret ())"
  shows "do_setup S rio wio rnd a t fs net = Some (Ret (), ops, net2)"
  using assms
  by (simp add: do_setup_def finish_setup_def Let_def cred_path_def [symmetric] token_length exchange_eqs(2) [OF assms(4)] exchange_eqs(2) [OF assms(7)])

text \<open>A device without credentials enrols with a server of secret 4, over \<^term>\<open>rewound_sodium 1\<close>.\<close>

abbreviation (input) toy1 :: sodium where "toy1 \<equiv> rewound_sodium 1"

definition enrol_args :: args where
  "enrol_args = default_args\<lparr>ar_server := Some ''[::1]:7'', ar_state_dir := Some ''d'', ar_do_setup := True, ar_allow_tofu := True\<rparr>"

definition enrol_rnd :: setup_random where
  "enrol_rnd = \<lparr>sr_root = replicate 32 0, sr_session = replicate 16 7, sr_nonce = replicate 32 2, sr_blind = le_enc 64 5,
     sr_client = le_enc 64 2\<rparr>"

definition udp_sample :: client_transport where
  "udp_sample = \<lparr>ct_kind = TRANSPORT_UDP, ct_udp = \<lparr>ud_fd = 3\<rparr>, ct_tcp = \<lparr>tc_fd = -1\<rparr>\<rparr>"

definition device_int :: int where
  "device_int = le_int (sd_generichash toy1 64 (ascii ''device-auth-v1'' @ replicate 32 0))"

lemma device_int_nonzero: "device_int mod group_order \<noteq> 0" "(2 + device_int) mod group_order \<noteq> 0"
proof -
  have "device_int = foldl (\<lambda>h b. h * 257 + uint b + 1) 5 (ascii ''device-auth-v1'' @ replicate 32 0) mod 256 ^ 64"
    by (simp add: device_int_def rewound_sodium_def toy_sodium_def toy_hash_def le_int_le_enc)
  moreover have "foldl (\<lambda>h b. h * 257 + uint b + 1) 5 (ascii ''device-auth-v1'' @ replicate 32 0) mod 256 ^ 64 mod group_order \<noteq> 0"
    by code_simp
  moreover have "(2 + foldl (\<lambda>h b. h * 257 + uint b + 1) 5 (ascii ''device-auth-v1'' @ replicate 32 0) mod 256 ^ 64) mod group_order \<noteq> 0"
    by code_simp
  ultimately show "device_int mod group_order \<noteq> 0" "(2 + device_int) mod group_order \<noteq> 0" by metis+
qed

lemma device_scalar: "auth_derive_device_scalar toy1 (replicate 32 0) = sc device_int"
  by (simp add: auth_derive_device_scalar_def Let_def device_int_def reduce_sc [OF rewound_ristretto] sodium_digests(4) [OF rewound_ristretto])

lemma enrol_start:
  "\<exists>ctx. setup_ctx toy1 (sr_session enrol_rnd) (auth_creds_init_fresh (sr_root enrol_rnd)) (ar_role enrol_args) = Ret ctx \<and>
     wf_client ctx \<and> cc_device_sk ctx = sc device_int \<and> cc_device_pub ctx = toy_enc device_int \<and> \<not> cc_has_pinned_server ctx \<and>
     \<not> cc_has_role ctx \<and> cc_role_code ctx = 2 \<and> cc_session_id ctx = replicate 16 7 \<and> cc_seq ctx = 0"
proof -
  let ?c = "auth_creds_init_fresh (replicate 32 0)"
  have wf: "wf_creds ?c" and root: "cr_device_root ?c = replicate 32 0" "\<not> cr_has_pinned_server ?c" "\<not> cr_has_role ?c"
    by (simp_all add: wf_creds_def auth_creds_init_fresh_def auth_creds_zero_def)
  have pub: "auth_scalarmult_base toy1 (sc device_int) = Ret (toy_enc device_int)"
    by (rule rewound_base [OF device_int_nonzero(1)])
  have sid: "length (replicate 16 (7 :: byte)) = 16" by simp
  show ?thesis
  proof (cases rule: setup_ctx_cases [OF rewound_ristretto wf sid, of 1 2, case_names fail ctx])
    case (fail e)
    then show ?thesis using pub by (simp add: setup_ctx_def device_ctx_def zero_client_def root device_scalar)
  next
    case (ctx ctx)
    then show ?thesis using pub root by (simp add: enrol_rnd_def enrol_args_def default_args_def device_scalar)
  qed
qed

lemma enrol_setup1:
  assumes wf: "wf_client ctx" and "\<not> cc_has_role ctx" "cc_role_code ctx = 2"
  shows "\<exists>ctx1. auth_client_build_setup1 toy1 (replicate 32 2) (le_enc 64 5) ctx None 0 (Some (replicate 2048 0)) =
      (Ret (cur (replicate 2048 0) (packet AUTH_PKT_SETUP_1 (cc_session_id ctx) (cc_seq ctx + 1) (setup1_layout (setup1_msg ctx1 [])))), ctx1) \<and>
    cc_role_commitment ctx1 = toy_enc 47 \<and> cc_seq ctx1 = cc_seq ctx + 1"
proof -
  note R = rewound_ristretto [of 1]
  have blind: "auth_random_scalar toy1 (le_enc 64 5) = sc 5" by (simp add: auth_random_scalar_def wide_sc)
  have "auth_make_role_commitment toy1 2 (sc 5) = Ret (toy_enc 47)"
    using commitment_enc [OF R rewound_h, of "sc 5" 2] by (simp add: enc_eq_iff [OF R] small_mods)
  then have role: "setup1_role toy1 (le_enc 64 5) (ctx\<lparr>cc_client_nonce := replicate 32 2\<rparr>) =
      Ret (ctx\<lparr>cc_client_nonce := replicate 32 2, cc_role_code := 2, cc_role_blind := sc 5, cc_role_commitment := toy_enc 47, cc_has_role := True\<rparr>)"
    using assms blind by (simp add: setup1_role_def)
  show ?thesis
    using build_setup1_eq [OF R wf _ _ _ role, of None] by (simp add: token_bytes_def setup1_msg_def)
qed

lemma enrol_server:
  assumes wf: "wf_client ctx" and dev: "cc_device_pub ctx = toy_enc device_int" and com: "cc_role_commitment ctx = toy_enc 47"
    and sid: "length sid = 16"
  shows "\<exists>c2 pend. auth_server_handle_setup1 toy1 (replicate 32 5) (replicate 16 6) (le_enc 64 2) sid seq
    (Some (setup1_layout (setup1_msg ctx []))) (sc 4) (toy_enc 4) None pending_setup_zero (Some (replicate 2048 0)) = (Ret c2, pend)"
proof -
  note R = rewound_ristretto [of 1]
  have wfm: "wf_setup1 (setup1_msg ctx [])" "setup1_norm (setup1_msg ctx []) = setup1_msg ctx []" using wf_setup1_msg [OF wf] by simp_all
  have ord: "4 mod group_order \<noteq> 0" "le_int (le_enc 64 2) mod group_order \<noteq> 0" by (simp_all add: group_order_def le_int_le_enc)
  show ?thesis
    by (rule server_setup1_accepts [OF R sid _ _ _ _ _ ord(2) wfm])
      (use toy_check_point [OF device_int_nonzero(1)] check_or_identity_enc [OF R] rewound_base [OF ord(1)] dev com in
        \<open>simp_all add: setup1_msg_def pairing_token_ok_def\<close>)
qed

lemma toy1_nonzero: "wf_proof p \<Longrightarrow> prf_s p \<noteq> sc 0 \<Longrightarrow> k mod group_order \<noteq> 0 \<Longrightarrow> schnorr_nonzero toy1 t (sc k) p"
  by (simp add: schnorr_nonzero_def chal_one mod_mult_eq [of 1])

text \<open>The server's and the client's proofs in this run.\<close>

lemma enrol_proofs:
  assumes "length did = 32" and "length nonce = 32"
  shows "auth_prove_setup_server toy1 (le_enc 64 2) (sc 4) did (toy_enc device_int) (toy_enc 4) nonce (replicate 32 5) (replicate 16 6) =
      Ret \<lparr>prf_a = toy_enc 2, prf_s = sc 6\<rparr>"
    and "auth_prove_setup_client toy1 (le_enc 64 2) (sc device_int) did (toy_enc device_int) (toy_enc 4) nonce (replicate 32 5) (replicate 16 6) =
      Ret \<lparr>prf_a = toy_enc 2, prf_s = sc (2 + device_int)\<rparr>"
proof -
  note R = rewound_ristretto [of 1]
  have ord: "4 mod group_order \<noteq> 0" "2 mod group_order \<noteq> 0" by (simp_all add: group_order_def)
  show "auth_prove_setup_server toy1 (le_enc 64 2) (sc 4) did (toy_enc device_int) (toy_enc 4) nonce (replicate 32 5) (replicate 16 6) =
      Ret \<lparr>prf_a = toy_enc 2, prf_s = sc 6\<rparr>"
    using setup_server.prove_eq [OF R, of "(did, toy_enc device_int, nonce, replicate 32 5, replicate 16 6)" "sc 4" "le_enc 64 2" "toy_enc 4"]
      rewound_base ord wide_sc [of 2] assms
    by (simp add: chal_one scalar_mul_sc [OF R] scalar_add_sc [OF R] sc_eq_iff small_mods length_enc [OF R])
  show "auth_prove_setup_client toy1 (le_enc 64 2) (sc device_int) did (toy_enc device_int) (toy_enc 4) nonce (replicate 32 5) (replicate 16 6) =
      Ret \<lparr>prf_a = toy_enc 2, prf_s = sc (2 + device_int)\<rparr>"
    using setup_client.prove_eq [OF R, of "(did, toy_enc 4, nonce, replicate 32 5, replicate 16 6)" "sc device_int" "le_enc 64 2" "toy_enc device_int"]
      rewound_base ord device_int_nonzero wide_sc [of 2] assms
    by (simp add: chal_one scalar_mul_sc [OF R] scalar_add_sc [OF R] sc_eq_iff mod_simps length_enc [OF R])
qed

abbreviation (input) setup2_packet :: "byte list" where
  "setup2_packet \<equiv> packet AUTH_PKT_SETUP_2 (replicate 16 7) 1
     (setup2_layout (setup2_msg (replicate 32 5) (replicate 16 6) (toy_enc 4) \<lparr>prf_a = toy_enc 2, prf_s = sc 6\<rparr>))"

abbreviation (input) setup_ack_packet :: "byte list" where
  "setup_ack_packet \<equiv> packet AUTH_PKT_SETUP_ACK (replicate 16 7) 2 [AUTH_ACK_BYTE]"

lemma build_setup3_Ret:
  assumes R: "ristretto255 S enc" and wf: "wf_client ctx" and wide: "length wide = 64"
    and p: "auth_prove_setup_client S wide (cc_device_sk ctx) (cc_device_id ctx) (cc_device_pub ctx)
        (cc_pending_server_pub ctx) (cc_client_nonce ctx) (cc_pending_server_nonce ctx) (cc_pending_setup_challenge ctx) = Ret p"
  shows "\<exists>p3 ctx3. auth_client_build_setup3 S wide ctx (Some (replicate 2048 0)) = (Ret (cur (replicate 2048 0) p3), ctx3) \<and>
    length p3 \<le> 2048 \<and> wf_client ctx3 \<and>
    p3 = packet AUTH_PKT_SETUP_3 (cc_session_id ctx) (cc_seq ctx + 1) (setup3_layout \<lparr>s3_client_proof = p\<rparr>)"
proof -
  have wf3: "wf_setup3 \<lparr>s3_client_proof = p\<rparr>"
    using prove_setup_client_cases [OF R wide, of "cc_device_sk ctx" "cc_device_pub ctx" "cc_device_id ctx" "cc_pending_server_pub ctx"
        "cc_client_nonce ctx" "cc_pending_server_nonce ctx" "cc_pending_setup_challenge ctx"] p wf by (simp add: wf_client_def wf_setup3_def)
  let ?p3 = "packet AUTH_PKT_SETUP_3 (cc_session_id ctx) (cc_seq ctx + 1) (setup3_layout \<lparr>s3_client_proof = p\<rparr>)"
  have "auth_client_build_setup3 S wide ctx (Some (replicate 2048 0)) = (Ret (cur (replicate 2048 0) ?p3), ctx\<lparr>cc_seq := cc_seq ctx + 1\<rparr>)"
    using p setup3.client_send_eq [OF wf3, of ctx AUTH_PKT_SETUP_3 "replicate 2048 0"] length_setup3_layout [OF wf3] wf
    by (simp add: auth_client_build_setup3_def wf_client_def)
  moreover have "length ?p3 \<le> 2048" using length_setup3_layout [OF wf3] wf by (simp add: wf_client_def)
  ultimately show ?thesis using wf by (intro exI [of _ ?p3]) simp
qed

text \<open>The two packets of the client.\<close>

definition enrol_packets :: "auth_client_ctx \<Rightarrow> byte list list" where
  "enrol_packets ctx1 = [packet AUTH_PKT_SETUP_1 (replicate 16 7) 1 (setup1_layout (setup1_msg ctx1 [])),
     packet AUTH_PKT_SETUP_3 (replicate 16 7) 2 (setup3_layout \<lparr>s3_client_proof = \<lparr>prf_a = toy_enc 2, prf_s = sc (2 + device_int)\<rparr>\<rparr>)]"

text \<open>The client's side of the run, step by step.\<close>

lemma enrol_client:
  obtains ctx0 p1 ctx1 ctx2 p3 ctx3 where
    "setup_ctx toy1 (sr_session enrol_rnd) (auth_creds_init_fresh (sr_root enrol_rnd)) (ar_role enrol_args) = Ret ctx0"
    "auth_client_build_setup1 toy1 (sr_nonce enrol_rnd) (sr_blind enrol_rnd) ctx0 None 0 (Some (replicate 2048 0)) =
       (Ret (cur (replicate 2048 0) p1), ctx1)" "length p1 \<le> 2048"
    "auth_client_handle_setup2 toy1 ctx1 (Some setup2_packet) True = (Ret (), ctx2)"
    "auth_client_build_setup3 toy1 (sr_client enrol_rnd) ctx2 (Some (replicate 2048 0)) = (Ret (cur (replicate 2048 0) p3), ctx3)"
    "length p3 \<le> 2048" "auth_client_handle_setup_ack ctx3 (Some setup_ack_packet) = (Ret (), ctx3)" "wf_client ctx3"
    "[p1, p3] = enrol_packets ctx1" "wf_client ctx1" "cc_device_pub ctx1 = toy_enc device_int" "cc_role_commitment ctx1 = toy_enc 47"
proof -
  note R = rewound_ristretto [of 1]
  obtain ctx0 where ctx0: "setup_ctx toy1 (sr_session enrol_rnd) (auth_creds_init_fresh (sr_root enrol_rnd)) (ar_role enrol_args) = Ret ctx0"
    "wf_client ctx0" "cc_device_sk ctx0 = sc device_int" "cc_device_pub ctx0 = toy_enc device_int" "\<not> cc_has_pinned_server ctx0"
    "\<not> cc_has_role ctx0" "cc_role_code ctx0 = 2" "cc_session_id ctx0 = replicate 16 7" "cc_seq ctx0 = 0"
    using enrol_start by blast
  have tok: "length (token_bytes None) = 0" by (simp add: token_bytes_def)
  obtain ctx1 where b1: "auth_client_build_setup1 toy1 (sr_nonce enrol_rnd) (sr_blind enrol_rnd) ctx0 None 0 (Some (replicate 2048 0)) =
      (Ret (cur (replicate 2048 0) (packet AUTH_PKT_SETUP_1 (replicate 16 7) 1 (setup1_layout (setup1_msg ctx1 [])))), ctx1)"
    and com: "cc_role_commitment ctx1 = toy_enc 47" and seq: "cc_seq ctx1 = 1"
    using enrol_setup1 [OF ctx0(2,6,7)] ctx0(8,9) by (auto simp: enrol_rnd_def)
  have len: "length (sr_nonce enrol_rnd) = 32" "length (sr_blind enrol_rnd) = 64" "length (sr_client enrol_rnd) = 64"
    by (simp_all add: enrol_rnd_def)
  obtain s1 where s1: "wf_client ctx1" "cc_session_id ctx1 = replicate 16 7" "cc_client_nonce ctx1 = sr_nonce enrol_rnd"
    "cc_device_id ctx1 = cc_device_id ctx0" "cc_device_pub ctx1 = toy_enc device_int" "cc_device_sk ctx1 = sc device_int"
    "\<not> cc_has_pinned_server ctx1"
    by (rule setup1_sent [OF R ctx0(2) len(1,2) b1 [folded tok]]) (use ctx0 in simp)
  have p1: "length (packet AUTH_PKT_SETUP_1 (replicate 16 7) 1 (setup1_layout (setup1_msg ctx1 []))) \<le> 2048"
    using wf_setup1_msg(2) [OF s1(1), of "[]"] by simp
  let ?p = "\<lparr>prf_a = toy_enc 2, prf_s = sc 6\<rparr>" and ?m = "setup2_msg (replicate 32 5) (replicate 16 6) (toy_enc 4) \<lparr>prf_a = toy_enc 2, prf_s = sc 6\<rparr>"
  let ?ctx2 = "(tofu_pin ctx1 ?m)\<lparr>cc_pending_server_pub := toy_enc 4, cc_pending_server_nonce := replicate 32 5,
        cc_pending_setup_challenge := replicate 16 6\<rparr>"
  have ids: "length (cc_device_id ctx1) = 32" "length (cc_client_nonce ctx1) = 32" using s1(1) by (simp_all add: wf_client_def)
  have ord: "4 mod group_order \<noteq> 0" "sc 6 \<noteq> sc 0" by (simp_all add: group_order_def sc_eq_iff)
  have wfp: "wf_proof ?p" by (simp add: wf_proof_def length_enc [OF R])
  have "auth_client_handle_setup2 toy1 ctx1 (Some setup2_packet) True = (Ret (), ?ctx2)"
    using setup2_answered [OF R s1(1) wfp, of "replicate 32 5" "replicate 16 6" "le_enc 64 2" "sc 4" "toy_enc 4" True 1]
      enrol_proofs(1) [OF ids] rewound_base [OF ord(1)] toy1_nonzero [OF wfp _ ord(1)] ord(2) s1 by simp
  moreover have wf2: "wf_client ?ctx2"
    using s1(1) by (simp add: tofu_pin_def wf_client_def setup2_msg_def length_enc [OF R])
  have "auth_prove_setup_client toy1 (sr_client enrol_rnd) (cc_device_sk ?ctx2) (cc_device_id ?ctx2) (cc_device_pub ?ctx2)
      (cc_pending_server_pub ?ctx2) (cc_client_nonce ?ctx2) (cc_pending_server_nonce ?ctx2) (cc_pending_setup_challenge ?ctx2) =
      Ret \<lparr>prf_a = toy_enc 2, prf_s = sc (2 + device_int)\<rparr>"
    using enrol_proofs(2) [OF ids] s1 by (simp add: tofu_pin_def enrol_rnd_def)
  then obtain p3 ctx3 where b3: "auth_client_build_setup3 toy1 (sr_client enrol_rnd) ?ctx2 (Some (replicate 2048 0)) =
      (Ret (cur (replicate 2048 0) p3), ctx3)" "length p3 \<le> 2048" "wf_client ctx3"
    and p3: "p3 = packet AUTH_PKT_SETUP_3 (cc_session_id ?ctx2) (cc_seq ?ctx2 + 1)
      (setup3_layout \<lparr>s3_client_proof = \<lparr>prf_a = toy_enc 2, prf_s = sc (2 + device_int)\<rparr>\<rparr>)"
    using build_setup3_Ret [OF R wf2 len(3)] by blast
  moreover have "auth_client_handle_setup_ack ctx3 (Some setup_ack_packet) = (Ret (), ctx3)"
    using client_open_packet [of "replicate 16 7" AUTH_PKT_SETUP_ACK 2 "[AUTH_ACK_BYTE]"] ack.dec_layout
    by (simp add: auth_client_handle_setup_ack_def)
  moreover have "[packet AUTH_PKT_SETUP_1 (replicate 16 7) 1 (setup1_layout (setup1_msg ctx1 [])), p3] = enrol_packets ctx1"
    using s1(2) seq by (simp add: enrol_packets_def p3 tofu_pin_def)
  ultimately show thesis using that [OF ctx0(1) b1 p1] s1(1,5) com by blast
qed

definition enrol_net :: client_net where
  "enrol_net = \<lparr>cn_stream = [], cn_dgrams = [Rx_data (setup2_packet, loopback6), Rx_data (setup_ack_packet, loopback6)],
     cn_tx = [], cn_sent = []\<rparr>"

abbreviation (input) good_read :: read_io where
  "good_read \<equiv> \<lparr>rio_open = True, rio_reads = []\<rparr>"

lemma enrol_fresh: "load_or_fresh good_read (sr_root enrol_rnd) Map.empty (cred_path enrol_args) = Ret (auth_creds_init_fresh (sr_root enrol_rnd))"
  by (simp add: load_or_fresh_def auth_creds_load_def read_whole_file_def)

lemma wf_enrol_rnd: "wf_setup_random enrol_rnd"
  by (simp add: wf_setup_random_def enrol_rnd_def)

lemma enrol_path: "cred_path enrol_args = ''d/credentials.bin''"
  by (simp add: cred_path_def path_join_def snprintf_s_def enrol_args_def default_args_def)

lemma enrol_run:
  obtains ops net' c ctx1 where "do_setup toy1 good_read good_write enrol_rnd enrol_args udp_sample Map.empty enrol_net = Some (Ret (), ops, net')"
    "auth_creds_load good_read (fs_run ops Map.empty) (Some (cred_path enrol_args)) = Ret c"
    "cn_sent net' = enrol_packets ctx1" "wf_client ctx1" "cc_device_pub ctx1 = toy_enc device_int" "cc_role_commitment ctx1 = toy_enc 47"
proof -
  obtain ctx0 p1 ctx1 ctx2 p3 ctx3 where run:
    "setup_ctx toy1 (sr_session enrol_rnd) (auth_creds_init_fresh (sr_root enrol_rnd)) (ar_role enrol_args) = Ret ctx0"
    "auth_client_build_setup1 toy1 (sr_nonce enrol_rnd) (sr_blind enrol_rnd) ctx0 None 0 (Some (replicate 2048 0)) =
       (Ret (cur (replicate 2048 0) p1), ctx1)" "length p1 \<le> 2048"
    "auth_client_handle_setup2 toy1 ctx1 (Some setup2_packet) True = (Ret (), ctx2)"
    "auth_client_build_setup3 toy1 (sr_client enrol_rnd) ctx2 (Some (replicate 2048 0)) = (Ret (cur (replicate 2048 0) p3), ctx3)"
    "length p3 \<le> 2048" "auth_client_handle_setup_ack ctx3 (Some setup_ack_packet) = (Ret (), ctx3)" "wf_client ctx3"
    and sent: "[p1, p3] = enrol_packets ctx1" "wf_client ctx1" "cc_device_pub ctx1 = toy_enc device_int" "cc_role_commitment ctx1 = toy_enc 47"
    by (rule enrol_client)
  have "wf_setup2 (setup2_msg (replicate 32 5) (replicate 16 6) (toy_enc 4) \<lparr>prf_a = toy_enc 2, prf_s = sc 6\<rparr>)"
    by (simp add: wf_setup2_def setup2_msg_def wf_proof_def toy_enc_def)
  then have len: "length setup2_packet \<le> 2048" "length setup_ack_packet \<le> 2048" using length_setup2_layout by simp_all
  let ?net1 = "enrol_net\<lparr>cn_dgrams := [Rx_data (setup_ack_packet, loopback6)], cn_sent := cn_sent enrol_net @ [p1]\<rparr>"
  have e1: "exchanged udp_sample (cur (replicate 2048 0) p1) enrol_net = Some (Ret (cur (replicate 2048 0) setup2_packet), ?net1)"
    by (rule udp_exchange [OF _ _ run(3) len(1)]) (simp_all add: udp_sample_def enrol_net_def)
  have e2: "exchanged udp_sample (cur (replicate 2048 0) p3) ?net1 =
      Some (Ret (cur (replicate 2048 0) setup_ack_packet), ?net1\<lparr>cn_dgrams := [], cn_sent := cn_sent ?net1 @ [p3]\<rparr>)"
    by (rule udp_exchange [OF _ _ run(6) len(2)]) (simp_all add: udp_sample_def enrol_net_def)
  let ?c = "enrolled_creds (auth_creds_init_fresh (sr_root enrol_rnd)) ctx3"
  have wf: "wf_creds ?c" "creds_norm ?c = ?c"
    using wf_enrolled_creds [OF _ run(8)] by (simp_all add: wf_creds_def auth_creds_init_fresh_def auth_creds_zero_def enrol_rnd_def)
  have "snd (auth_creds_save good_write (Some ?c) (Some (cred_path enrol_args))) = Ret ()"
    using wf good_write_Ret [of "cred_path enrol_args"] by (simp add: creds_save_eq enrol_path)
  then obtain ops where sv: "auth_creds_save good_write (Some ?c) (Some (cred_path enrol_args)) = (ops, Ret ())"
    by (metis prod.collapse)
  have "sent (cur (replicate 2048 0) setup2_packet) = setup2_packet" "sent (cur (replicate 2048 0) setup_ack_packet) = setup_ack_packet"
    using len by simp_all
  then have "do_setup toy1 good_read good_write enrol_rnd enrol_args udp_sample Map.empty enrol_net =
      Some (Ret (), ops, ?net1\<lparr>cn_dgrams := [], cn_sent := cn_sent ?net1 @ [p3]\<rparr>)"
    using do_setup_steps [OF enrol_fresh run(1) _ e1 _ run(5) e2 _ sv] run(2,4,7) by (simp add: enrol_args_def default_args_def token_bytes_def)
  moreover have w: "atomic_write good_write (cred_path enrol_args) (creds_layout ?c) (length (creds_layout ?c)) = (ops, Ret ())"
    using sv wf by (simp add: creds_save_eq)
  have "fs_run ops Map.empty (cred_path enrol_args) = Some (creds_layout ?c)"
    by (rule atomic_write_cases [OF w, of Map.empty]) auto
  then have "read_whole_file good_read (fs_run ops Map.empty) (cred_path enrol_args) 154 = Ret (creds_layout ?c)"
    using length_creds_layout [OF wf(1)] by (simp add: read_whole_file_def read_loop.simps)
  note creds_load_layout [OF wf(1) this]
  ultimately show thesis by (rule that) (use sent in \<open>simp_all add: enrol_net_def\<close>)
qed

theorem enrolment_commits_verified_witness:
  "\<exists>ops net' creds ctx s2. do_setup toy1 good_read good_write enrol_rnd enrol_args udp_sample Map.empty enrol_net = Some (Ret (), ops, net') \<and>
     load_or_fresh good_read (sr_root enrol_rnd) Map.empty (cred_path enrol_args) = Ret creds \<and>
     setup_exchanged toy1 enrol_rnd enrol_args udp_sample enrol_net net' creds s2 ctx \<and> setup_done toy1 enrol_rnd enrol_args creds s2 ctx \<and>
     fs_run ops Map.empty (cred_path enrol_args) = Some (creds_layout (enrolled_creds creds ctx))"
proof -
  obtain ops net' where run: "do_setup toy1 good_read good_write enrol_rnd enrol_args udp_sample Map.empty enrol_net = Some (Ret (), ops, net')"
    by (rule enrol_run)
  show ?thesis using run enrolment_commits_verified [OF rewound_ristretto wf_enrol_rnd run] by blast
qed

subsection \<open>A concrete authentication\<close>

lemma do_auth_steps:
  assumes "auth_creds_load rio fs (Some (cred_path a)) = Ret creds" and "cr_has_pinned_server creds" and "cr_has_role creds"
    and "auth_ctx S random16 creds = Ret ctx0"
    and "auth_client_build_auth1 S rnd ctx0 (Some (ar_allowed a)) (length (ar_allowed a)) (Some (replicate 2048 0)) = (Ret c1, ctx1)"
    and "exchanged t c1 net = Some (Ret d2, net1)"
    and "auth_client_handle_auth2 S ctx1 (Some (sent d2)) = (Ret (), ctx2)"
    and "auth_client_build_auth3 S ctx2 (Some (replicate 2048 0)) = (Ret c3, ctx3)"
    and "exchanged t c3 net1 = Some (Ret d4, net2)"
    and "auth_client_handle_auth_ack ctx3 (Some (sent d4)) = (Ret (), ctx4)"
  shows "do_auth S rio random16 rnd a t fs net = Some (Ret (take 8 (cc_session_key ctx4)), [], net2)"
  using assms
  by (simp add: do_auth_def Let_def cred_path_def [symmetric] exchange_eqs(2) [OF assms(6)] exchange_eqs(2) [OF assms(9)])

definition creds_sample :: auth_credentials where
  "creds_sample = \<lparr>cr_device_root = replicate 32 0, cr_has_pinned_server = True, cr_server_pub_pinned = toy_enc 4, cr_has_role = True,
     cr_role_commitment = toy_enc 47, cr_role_blind = sc 5, cr_role_code = 2\<rparr>"

definition auth_args :: args where
  "auth_args = enrol_args\<lparr>ar_do_setup := False, ar_allowed := [2]\<rparr>"

definition auth_fs :: fs where
  "auth_fs = [cred_path auth_args \<mapsto> creds_layout creds_sample]"

text \<open>The client after its AUTH_1, and a server's answer to it.\<close>

definition auth_ctx1 :: auth_client_ctx where
  "auth_ctx1 = (case auth_ctx toy1 (replicate 16 7) creds_sample of
     Ret ctx \<Rightarrow> snd (auth_client_build_auth1 toy1 rnd_sample ctx (Some [2]) 1 (Some (replicate 2048 0))) | _ \<Rightarrow> zero_client)"

definition auth2_reply :: auth_auth2 where
  "auth2_reply =
     (let a2 = auth2_sample\<lparr>a2_tag_s := []\<rparr>; ctx = auth2_keys toy1 auth_ctx1 a2 (toy_enc 48)
      in a2\<lparr>a2_tag_s := auth_hmac_tag toy1 (cc_kc_k_s2c ctx) (ascii ''server finished'') (cc_kc_th ctx)\<rparr>)"

abbreviation (input) auth2_packet :: "byte list" where
  "auth2_packet \<equiv> packet AUTH_PKT_AUTH_2 (replicate 16 7) 1 (auth2_layout auth2_reply)"

abbreviation (input) auth_ack_packet :: "byte list" where
  "auth_ack_packet \<equiv> packet AUTH_PKT_AUTH_ACK (replicate 16 7) 2 [AUTH_ACK_BYTE]"

definition auth_net :: client_net where
  "auth_net = \<lparr>cn_stream = [], cn_dgrams = [Rx_data (auth2_packet, loopback6), Rx_data (auth_ack_packet, loopback6)], cn_tx = [], cn_sent = []\<rparr>"

lemma wf_creds_sample: "wf_creds creds_sample"
  by (simp add: creds_sample_def wf_creds_def toy_enc_def)

lemma auth_loads: "auth_creds_load good_read auth_fs (Some (cred_path auth_args)) = Ret creds_sample"
proof (rule creds_load_layout [OF wf_creds_sample])
  show "read_whole_file good_read auth_fs (cred_path auth_args) 154 = Ret (creds_layout creds_sample)"
    using length_creds_layout [OF wf_creds_sample] by (simp add: auth_fs_def read_whole_file_def read_loop.simps)
qed

lemma auth_starts:
  obtains ctx0 p1 where "auth_ctx toy1 (replicate 16 7) creds_sample = Ret ctx0"
    "auth_client_build_auth1 toy1 rnd_sample ctx0 (Some [2]) 1 (Some (replicate 2048 0)) = (Ret (cur (replicate 2048 0) p1), auth_ctx1)"
    "length p1 \<le> 2048" "wf_client auth_ctx1" "cc_session_id auth_ctx1 = replicate 16 7" "cc_server_pub_pinned auth_ctx1 = toy_enc 4"
    "cc_eph_secret auth_ctx1 = sc 6"
proof (cases rule: setup_ctx_cases [OF rewound_ristretto wf_creds_sample, of "replicate 16 7" 1 0, case_names len fail ctx])
  case (fail e)
  then show thesis
    using rewound_base [OF device_int_nonzero(1)]
    by (simp add: setup_ctx_def device_ctx_def zero_client_def creds_sample_def device_scalar)
next
  case (ctx ctx0)
  have start: "auth_ctx toy1 (replicate 16 7) creds_sample = Ret ctx0"
    using ctx(1) auth_ctx_eq [of creds_sample toy1 "replicate 16 7" 0] by (simp add: creds_sample_def)
  have sk: "cc_device_sk ctx0 = sc device_int" using ctx(5) by (simp add: creds_sample_def device_scalar)
  have role: "cc_role_code ctx0 = 2" "cc_role_blind ctx0 = sc 5" "cc_role_commitment ctx0 = toy_enc 47" "cc_has_role ctx0"
    "cc_has_pinned_server ctx0" using ctx(6-11) by (simp_all add: creds_sample_def)
  note b = toy_build_auth1 [OF ctx(2) sk device_int_nonzero(1) role refl]
  have c1: "auth_ctx1 = snd (auth_client_build_auth1 toy1 rnd_sample ctx0 (Some [2]) 1 (Some (replicate 2048 0)))"
    by (simp add: auth_ctx1_def start)
  note c1 = c1 [unfolded b(1) snd_conv]
  have pin: "cc_server_pub_pinned ctx0 = toy_enc 4" using ctx(7) by (simp add: creds_sample_def)
  show thesis
    by (rule that [OF start b(1) [folded c1] b(2)])
      (use ctx(2,12) pin in \<open>simp_all add: c1 wf_client_def wf_proof_def length_enc [OF rewound_ristretto [of 1]]\<close>)
qed simp

lemma auth2_reply_accepted: "\<exists>ctx2. auth_client_handle_auth2 toy1 auth_ctx1 (Some auth2_packet) = (Ret (), ctx2) \<and> wf_client ctx2 \<and>
    cc_session_id ctx2 = replicate 16 7" and auth2_packet_length: "length auth2_packet \<le> 2048"
proof -
  note R = rewound_ristretto [of 1]
  obtain ctx0 p1 where c1: "wf_client auth_ctx1" "cc_session_id auth_ctx1 = replicate 16 7" "cc_server_pub_pinned auth_ctx1 = toy_enc 4"
    "cc_eph_secret auth_ctx1 = sc 6" by (rule auth_starts)
  have "wf_auth2 auth2_reply" "auth2_valid toy1 auth_ctx1 auth2_reply"
    using auth2_sample_valid c1(3) length_hmac_tag [OF R]
    by (auto simp: auth2_reply_def wf_auth2_def auth2_valid_def Let_def client_sample_def)
  note v = this
  have "48 mod group_order \<noteq> 0" "6 mod group_order = 6" by (simp_all add: group_order_def)
  then have sh: "auth_scalarmult toy1 (sc 6) (toy_enc 8) = Ret (toy_enc 48)"
    by (simp add: point_mult [OF R] enc_eq_iff [OF toy_ristretto255])
  have eph: "a2_eph_s auth2_reply = toy_enc 8" by (simp add: auth2_reply_def auth2_sample_def Let_def)
  have tag: "a2_tag_s auth2_reply = auth_hmac_tag toy1 (cc_kc_k_s2c (auth2_keys toy1 auth_ctx1 auth2_reply (toy_enc 48)))
      (ascii ''server finished'') (cc_kc_th (auth2_keys toy1 auth_ctx1 auth2_reply (toy_enc 48)))"
    by (simp add: auth2_reply_def auth2_keys_def Let_def)
  have op: "client_open AUTH_PKT_AUTH_2 (Some auth2_packet) = Ret (packet_header AUTH_PKT_AUTH_2 (replicate 16 7) 1, auth2_layout auth2_reply)"
    by (rule client_open_packet) simp_all
  have "auth_client_handle_auth2 toy1 auth_ctx1 (Some auth2_packet) = (Ret (), auth2_keys toy1 auth_ctx1 auth2_reply (toy_enc 48))"
    using handle_auth2_decoded [OF R c1(1) v op] c1(2,4) sh eph tag by simp
  then show "\<exists>ctx2. auth_client_handle_auth2 toy1 auth_ctx1 (Some auth2_packet) = (Ret (), ctx2) \<and> wf_client ctx2 \<and> cc_session_id ctx2 = replicate 16 7"
    using wf_auth2_keys [OF R c1(1)] c1(2) by (simp add: auth2_keys_def Let_def)
  show "length auth2_packet \<le> 2048" using length_auth2_layout [OF v(1)] by simp
qed

theorem authentication_pinned_witness:
  "\<exists>key8 net' creds ctx0 ctx a2 keys.
     do_auth toy1 good_read (replicate 16 7) rnd_sample auth_args udp_sample auth_fs auth_net = Some (Ret key8, [], net') \<and>
     auth_creds_load good_read auth_fs (Some (cred_path auth_args)) = Ret creds \<and>
     auth_exchanged toy1 rnd_sample auth_args udp_sample auth_net net' ctx0 ctx a2 keys \<and>
     cc_server_pub_pinned ctx = cr_server_pub_pinned creds \<and> auth2_valid toy1 ctx a2"
proof -
  note R = rewound_ristretto [of 1]
  obtain ctx0 p1 where st: "auth_ctx toy1 (replicate 16 7) creds_sample = Ret ctx0"
    "auth_client_build_auth1 toy1 rnd_sample ctx0 (Some [2]) 1 (Some (replicate 2048 0)) = (Ret (cur (replicate 2048 0) p1), auth_ctx1)"
    "length p1 \<le> 2048" by (rule auth_starts)
  obtain ctx2 where c2: "auth_client_handle_auth2 toy1 auth_ctx1 (Some auth2_packet) = (Ret (), ctx2)" "wf_client ctx2"
    "cc_session_id ctx2 = replicate 16 7" using auth2_reply_accepted by blast
  let ?a3 = "\<lparr>a3_tag_c = auth_hmac_tag toy1 (cc_kc_k_c2s ctx2) (ascii ''client finished'') (cc_kc_th ctx2)\<rparr>"
  let ?p3 = "packet AUTH_PKT_AUTH_3 (replicate 16 7) (cc_seq ctx2 + 1) (a3_tag_c ?a3)" and ?ctx3 = "ctx2\<lparr>cc_seq := cc_seq ctx2 + 1\<rparr>"
  have wf3: "wf_auth3 ?a3" by (simp add: wf_auth3_def length_hmac_tag [OF R])
  then have b3: "auth_client_build_auth3 toy1 ctx2 (Some (replicate 2048 0)) = (Ret (cur (replicate 2048 0) ?p3), ?ctx3)"
    using auth3.client_send_eq [OF wf3, of ctx2 AUTH_PKT_AUTH_3 "replicate 2048 0"] c2(3)
    by (simp add: auth_client_build_auth3_def wf_auth3_def)
  have len: "length ?p3 \<le> 2048" "length auth_ack_packet \<le> 2048" by (simp_all add: length_hmac_tag [OF R])
  have ack: "auth_client_handle_auth_ack ?ctx3 (Some auth_ack_packet) = (Ret (), ?ctx3\<lparr>cc_auth_complete := True\<rparr>)"
    using client_open_packet [of "replicate 16 7" AUTH_PKT_AUTH_ACK 2 "[AUTH_ACK_BYTE]"] ack.dec_layout
    by (simp add: auth_client_handle_auth_ack_def)
  let ?net1 = "auth_net\<lparr>cn_dgrams := [Rx_data (auth_ack_packet, loopback6)], cn_sent := cn_sent auth_net @ [p1]\<rparr>"
  have e1: "exchanged udp_sample (cur (replicate 2048 0) p1) auth_net = Some (Ret (cur (replicate 2048 0) auth2_packet), ?net1)"
    by (rule udp_exchange [OF _ _ st(3) auth2_packet_length]) (simp_all add: udp_sample_def auth_net_def)
  have e2: "exchanged udp_sample (cur (replicate 2048 0) ?p3) ?net1 =
      Some (Ret (cur (replicate 2048 0) auth_ack_packet), ?net1\<lparr>cn_dgrams := [], cn_sent := cn_sent ?net1 @ [?p3]\<rparr>)"
    by (rule udp_exchange [OF _ _ len]) (simp_all add: udp_sample_def auth_net_def)
  have sent: "sent (cur (replicate 2048 0) auth2_packet) = auth2_packet" "sent (cur (replicate 2048 0) auth_ack_packet) = auth_ack_packet"
    using auth2_packet_length len(2) by simp_all
  have b1: "auth_client_build_auth1 toy1 rnd_sample ctx0 (Some (ar_allowed auth_args)) (length (ar_allowed auth_args)) (Some (replicate 2048 0)) =
      (Ret (cur (replicate 2048 0) p1), auth_ctx1)" using st(2) by (simp add: auth_args_def)
  have h2: "auth_client_handle_auth2 toy1 auth_ctx1 (Some (sent (cur (replicate 2048 0) auth2_packet))) = (Ret (), ctx2)"
    and h4: "auth_client_handle_auth_ack ?ctx3 (Some (sent (cur (replicate 2048 0) auth_ack_packet))) = (Ret (), ?ctx3\<lparr>cc_auth_complete := True\<rparr>)"
    by (simp_all only: sent c2(1) ack)
  have flags: "cr_has_pinned_server creds_sample" "cr_has_role creds_sample" by (simp_all add: creds_sample_def)
  note run = do_auth_steps [OF auth_loads flags st(1) b1 e1 h2 b3 e2 h4]
  have "wf_auth1_random rnd_sample" by (rule rnd_samples_wf)
  from authentication_pinned [OF R this _ run] run show ?thesis by (simp del: split_paired_Ex) blast
qed

end
