(* ===== verification/ServerLoop.thy ===== *)
theory ServerLoop
  imports ServerRun Client
begin

text \<open>
  The program around \<^verbatim>\<open>dispatch\<close> in \<^verbatim>\<open>c/bin/server.c\<close>: the command line, the UDP loop, the loop of one TCP connection, the
  accept loop and \<^verbatim>\<open>main\<close>. Each worker is modelled on its own, against an arbitrary network; how workers interleave on the
  shared state is the subject of \<^verbatim>\<open>Interleaving\<close>. The UDP and the accept loop are \<^verbatim>\<open>for (;;)\<close> loops without an exit: their
  definitions take the number of iterations to look at, and stop early when the thread waits for ever. The loop of a
  connection always ends, which its termination proof shows.
\<close>

subsection \<open>Command line\<close>

datatype server_transport = SERVE_UDP | SERVE_TCP | SERVE_BOTH

record server_args =
  sa_bind :: "string option"
  sa_transport :: server_transport
  sa_state_dir :: "string option"
  sa_require_pairing_token :: "string option"

datatype parsed_server_args = Server_args_bad | Server_args_help | Server_args server_args

fun server_parse_argv :: "string list \<Rightarrow> server_args \<Rightarrow> parsed_server_args" where
  "server_parse_argv [] a = Server_args a"
| "server_parse_argv (k # argv) a =
     (if k = ''--bind'' \<and> argv \<noteq> [] then server_parse_argv (tl argv) (a\<lparr>sa_bind := Some (hd argv)\<rparr>)
      else if k = ''--state-dir'' \<and> argv \<noteq> [] then server_parse_argv (tl argv) (a\<lparr>sa_state_dir := Some (hd argv)\<rparr>)
      else if k = ''--require-pairing-token'' \<and> argv \<noteq> [] then
        server_parse_argv (tl argv) (a\<lparr>sa_require_pairing_token := Some (hd argv)\<rparr>)
      else if k = ''--transport'' \<and> argv \<noteq> [] then
        (if hd argv = ''udp'' then server_parse_argv (tl argv) (a\<lparr>sa_transport := SERVE_UDP\<rparr>)
         else if hd argv = ''tcp'' then server_parse_argv (tl argv) (a\<lparr>sa_transport := SERVE_TCP\<rparr>)
         else if hd argv = ''both'' then server_parse_argv (tl argv) (a\<lparr>sa_transport := SERVE_BOTH\<rparr>)
         else Server_args_bad)
      else if k = ''-h'' \<or> k = ''--help'' then Server_args_help
      else Server_args_bad)"

definition server_parse_args :: "string list \<Rightarrow> parsed_server_args" where
  "server_parse_args argv =
     (case server_parse_argv (drop 1 argv)
             \<lparr>sa_bind = None, sa_transport = SERVE_UDP, sa_state_dir = None, sa_require_pairing_token = None\<rparr> of
        Server_args a \<Rightarrow>
          if sa_bind a = None then Server_args_bad
          else if sa_state_dir a = None then Server_args (a\<lparr>sa_state_dir := Some ''./server-state''\<rparr>)
          else Server_args a
      | r \<Rightarrow> r)"

subsection \<open>Workers\<close>

text \<open>The randomness and file answers of the packets to come, one element per packet.\<close>

type_synonym envs = "nat \<Rightarrow> dispatch_env"

text \<open>The result of a worker: the shared state, what it handed to the kernel, and its file operations.\<close>

fun udp_loop ::
    "sodium \<Rightarrow> auth_udp \<Rightarrow> nat \<Rightarrow> envs \<Rightarrow> dgrams \<Rightarrow> write_result list \<Rightarrow> server_state \<Rightarrow>
     (auth_err, server_state) cres \<times> (auth_addr option \<times> byte list) list \<times> fs_op list" where
  "udp_loop S u 0 envs rx tx st = (Ret st, [], [])"
| "udp_loop S u (Suc n) envs rx tx st =
     (case auth_udp_recv (Some u) (Some (replicate AUTH_MAX_DATAGRAM 0)) AUTH_MAX_DATAGRAM (-1) rx of
        None \<Rightarrow> (Ret st, [], [])
      | Some (Fault, rx) \<Rightarrow> (Fault, [], [])
      | Some (Fail err, rx) \<Rightarrow> udp_loop S u n envs rx tx st
      | Some (Ret (c, peer), rx) \<Rightarrow>
          (case dispatch S (envs 0) (sent c) (replicate AUTH_MAX_DATAGRAM 0) st of
             (Ret reply, st, ops) \<Rightarrow>
               let (_, ds, tx) =
                     (if reply \<noteq> [] then auth_udp_send (Some u) (Some peer) (Some reply) (length reply) tx
                      else (Ret (), [], tx));
                   (r, ds', ops') = udp_loop S u n (envs \<circ> Suc) rx tx st
               in (r, ds @ ds', ops @ ops')
           | (_, st, ops) \<Rightarrow> (Fault, [], ops)))"

text \<open>A received frame is taken off the stream, so the loop of a connection cannot go on for ever.\<close>

lemma next_bytes_takes:
  "next_bytes n got rx = (Ret bs, rx') \<Longrightarrow> got @ stream_bytes rx = bs @ stream_bytes rx'"
  by (induction n got rx rule: next_bytes.induct) (auto split: list.splits)

lemma tcp_recv_takes:
  assumes "timeout_ms \<ge> 0" and "buf_cap \<le> length buf"
    and "auth_tcp_recv (Some c) (Some buf) buf_cap timeout_ms rx = Some (Ret q, rx')"
  shows "stream_bytes rx = frame (sent q) @ stream_bytes rx' \<and> length (sent q) \<le> AUTH_MAX_DATAGRAM"
proof -
  have fd: "tc_fd c \<ge> 0" using assms(3) by (auto simp: auth_tcp_recv_def split: if_splits)
  obtain r rx1 where h0: "next_bytes 4 [] rx = (r, rx1)" by fastforce
  note recv = assms(3) [unfolded tcp_recv_timed [OF assms(1) fd] h0 prod.case]
  from recv obtain hdr where h: "next_bytes 4 [] rx = (Ret hdr, rx1)" and r: "r = Ret hdr" using h0 by (cases r) simp_all
  let ?n = "unat (le_word hdr :: u32)"
  obtain r' rx2 where b0: "next_bytes ?n [] rx1 = (r', rx2)" by fastforce
  have len: "?n \<le> 2048" "?n \<le> buf_cap" using recv r by (auto simp: Let_def split: if_splits)
  note recv' = recv [unfolded r cres.case Let_def b0 prod.case]
  from recv' len obtain bs where b: "next_bytes ?n [] rx1 = (Ret bs, rx')"
    and q: "bnd (wrn buf 0 bs ?n) (\<lambda>buf. Ret (buf, ?n)) = (Ret q :: (auth_err, cursor) cres)"
    using b0 by (cases r') simp_all
  have l: "length hdr = 4" "length bs = unat (le_word hdr :: u32)"
    using next_bytes_length [OF h] next_bytes_length [OF b] by simp_all
  have sq: "sent q = bs" using q l len(2) assms(2) by (auto simp: wrn_cur_0 cur_eqI)
  have "le_bytes 4 (le_word hdr :: u32) = hdr" using l(1) le_bytes_le_word [of hdr 4, where 'a = 32] by simp
  then have "frame bs = hdr @ bs" using l(2) by (simp add: frame_def)
  then show ?thesis using sq l len next_bytes_takes [OF h] next_bytes_takes [OF b] by simp
qed

function tcp_conn_loop ::
    "sodium \<Rightarrow> auth_tcp_conn \<Rightarrow> envs \<Rightarrow> stream \<Rightarrow> write_result list \<Rightarrow> server_state \<Rightarrow>
     ((auth_err, server_state) cres \<times> byte list \<times> fs_op list) option" where
  "tcp_conn_loop S conn envs rx tx st =
     (case auth_tcp_recv (Some conn) (Some (replicate AUTH_MAX_DATAGRAM 0)) AUTH_MAX_DATAGRAM 30000 rx of
        None \<Rightarrow> None
      | Some (Fault, rx) \<Rightarrow> Some (Fault, [], [])
      | Some (Fail err, rx) \<Rightarrow> Some (Ret st, [], [])
      | Some (Ret c, rx) \<Rightarrow>
          (case dispatch S (envs 0) (sent c) (replicate AUTH_MAX_DATAGRAM 0) st of
             (Ret reply, st, ops) \<Rightarrow>
               let (r, bs, tx) =
                     (if reply \<noteq> [] then auth_tcp_send (Some conn) (Some reply) (length reply) tx else (Ret (), [], tx))
               in if r \<noteq> Ret () then Some (Ret st, bs, ops)
                  else map_option (\<lambda>(r, bs', ops'). (r, bs @ bs', ops @ ops')) (tcp_conn_loop S conn (envs \<circ> Suc) rx tx st)
           | (_, st, ops) \<Rightarrow> Some (Fault, [], ops)))"
  by pat_completeness auto

termination tcp_conn_loop
proof (relation "measure (\<lambda>(S, conn, envs, rx, tx, st). length (stream_bytes rx))", goal_cases)
  case (2 S conn envs rx tx st a)
  then show ?case by (auto dest!: tcp_recv_takes [rotated 2])
qed simp

declare tcp_conn_loop.simps [simp del]

definition handle_tcp_conn ::
    "sodium \<Rightarrow> int \<Rightarrow> envs \<Rightarrow> stream \<Rightarrow> write_result list \<Rightarrow> server_state \<Rightarrow> int set \<Rightarrow>
     ((auth_err, server_state) cres \<times> byte list \<times> fs_op list \<times> int set) option" where
  "handle_tcp_conn S fd envs rx tx st fds =
     (case auth_tcp_conn_wrap (Some \<lparr>tc_fd = 0\<rparr>) fd of
        None \<Rightarrow> None
      | Some conn \<Rightarrow>
          map_option (\<lambda>(r, bs, ops). (r, bs, ops, snd (auth_tcp_conn_close (Some conn) fds)))
            (tcp_conn_loop S conn envs rx tx st))"

text \<open>The accept loop: the connections handed to a worker, and the descriptors open afterwards. \<open>malloc_ok\<close> and \<open>create_ok\<close>
  say for each iteration whether \<^verbatim>\<open>malloc\<close> and \<^verbatim>\<open>pthread_create\<close> succeed.\<close>

fun tcp_accept_loop ::
    "auth_tcp_listener \<Rightarrow> nat \<Rightarrow> (nat \<Rightarrow> bool) \<Rightarrow> (nat \<Rightarrow> bool) \<Rightarrow> accept_answer list \<Rightarrow> int set \<Rightarrow>
     (int \<times> auth_addr) list \<times> int set" where
  "tcp_accept_loop l 0 malloc_ok create_ok as fds = ([], fds)"
| "tcp_accept_loop l (Suc n) malloc_ok create_ok as fds =
     (case auth_tcp_listener_accept (Some l) as fds of
        None \<Rightarrow> ([], fds)
      | Some (Ret (peer_fd, peer), fds, as) \<Rightarrow>
          if \<not> malloc_ok n then tcp_accept_loop l n malloc_ok create_ok as (fds - {peer_fd})
          else if \<not> create_ok n then tcp_accept_loop l n malloc_ok create_ok as (fds - {peer_fd})
          else
            let (ws, fds) = tcp_accept_loop l n malloc_ok create_ok as fds in ((peer_fd, peer) # ws, fds)
      | Some (_, fds, as) \<Rightarrow> tcp_accept_loop l n malloc_ok create_ok as fds)"

text \<open>The threads \<^verbatim>\<open>run_udp\<close> and \<^verbatim>\<open>run_tcp\<close>: when the address cannot be bound the thread ends. \<open>u\<close> and \<open>l\<close> are the
  uninitialised handles.\<close>

definition run_udp ::
    "sodium \<Rightarrow> resolver \<Rightarrow> sock_io \<Rightarrow> auth_udp \<Rightarrow> string \<Rightarrow> nat \<Rightarrow> envs \<Rightarrow> dgrams \<Rightarrow> write_result list \<Rightarrow> server_state \<Rightarrow> int set \<Rightarrow>
     (auth_err, server_state) cres \<times> (auth_addr option \<times> byte list) list \<times> fs_op list \<times> int set" where
  "run_udp S getaddrinfo io u bind n envs rx tx st fds =
     (case auth_udp_bind getaddrinfo io (Some u) (Some bind) fds of
        (Ret u, fds) \<Rightarrow> let (r, ds, ops) = udp_loop S u n envs rx tx st in (r, ds, ops, fds)
      | (Fail err, fds) \<Rightarrow> (Ret st, [], [], fds)
      | (Fault, fds) \<Rightarrow> (Fault, [], [], fds))"

definition run_tcp ::
    "resolver \<Rightarrow> sock_io \<Rightarrow> auth_tcp_listener \<Rightarrow> string \<Rightarrow> nat \<Rightarrow> (nat \<Rightarrow> bool) \<Rightarrow> (nat \<Rightarrow> bool) \<Rightarrow> accept_answer list \<Rightarrow> int set \<Rightarrow>
     (int \<times> auth_addr) list \<times> int set" where
  "run_tcp getaddrinfo io l bind n malloc_ok create_ok as fds =
     (case auth_tcp_listener_bind getaddrinfo io (Some l) (Some bind) fds of
        (Ret l, fds) \<Rightarrow> tcp_accept_loop l n malloc_ok create_ok as fds
      | (_, fds) \<Rightarrow> ([], fds))"

subsection \<open>Main\<close>

record server_os =
  so_sodium_init :: bool
  so_stat :: stat_answer
  so_mkdir :: int
  so_random :: "byte list"
  so_rio_registry :: read_io
  so_rio_key :: read_io
  so_wio :: write_io
  so_create_udp :: bool
  so_create_tcp :: bool

datatype server_worker = Udp_worker | Tcp_worker

text \<open>\<^verbatim>\<open>main\<close> ends with an exit status, or waits for the threads it has started.\<close>

datatype server_outcome = Server_exit int | Server_fault | Serving "server_worker list" server_state

definition server_main :: "sodium \<Rightarrow> server_os \<Rightarrow> string list \<Rightarrow> fs \<Rightarrow> fs_op list \<times> server_outcome" where
  "server_main S os argv fs =
     (case server_parse_args argv of
        Server_args_bad \<Rightarrow> ([], Server_exit 2)
      | Server_args_help \<Rightarrow> ([], Server_exit 0)
      | Server_args a \<Rightarrow>
          if fst (auth_init (so_sodium_init os) False) \<noteq> AUTH_OK then ([], Server_exit 1)
          else if mkdir_p (so_stat os) (so_mkdir os) \<noteq> 0 then ([], Server_exit 1)
          else
            let (ops, r) =
                  server_start S (so_random os) (so_rio_registry os) (so_rio_key os) (so_wio os) fs
                    (the (sa_state_dir a)) (map_option ascii (sa_require_pairing_token a))
            in (ops,
                case r of
                  Fault \<Rightarrow> Server_fault
                | Fail err \<Rightarrow> Server_exit 1
                | Ret st \<Rightarrow>
                    Serving ((if sa_transport a \<noteq> SERVE_TCP \<and> so_create_udp os then [Udp_worker] else []) @
                             (if sa_transport a \<noteq> SERVE_UDP \<and> so_create_tcp os then [Tcp_worker] else [])) st))"

subsection \<open>A reply fits its buffer\<close>

lemma header_encode_length: "auth_header_encode (Some h) (Some buf) = Ret c \<Longrightarrow> length (fst c) = length buf"
  by (auto simp: auth_header_encode_def bnd_iffs Let_def putb_def putn_def split: if_splits dest!: wrn_length wr_length)

lemma packet_build_length: "auth_packet_build t sid seq p n (Some buf) = Ret c \<Longrightarrow> length (fst c) = length buf"
  by (auto simp: auth_packet_build_def bnd_iffs Let_def split: if_splits dest!: wrn_length header_encode_length)

lemma packet_build_error_length:
  "auth_packet_build_error sid seq e msg (Some buf) = Ret c \<Longrightarrow> length (fst c) = length buf"
  by (auto simp: auth_packet_build_error_def bnd_iffs Let_def split: if_splits dest!: packet_build_length)

lemma cache_same:
  "cache_setup ps c0 = (Ret c, ps') \<Longrightarrow> c = c0" "cache_auth pa c0 = (Ret c, pa') \<Longrightarrow> c = c0"
  by (cases c0; auto simp: cache_setup_def cache_auth_def try_c_Ret_iff split: if_splits)+

lemma handle_setup1_length:
  "auth_server_handle_setup1 S ns ch w sid seq p sk pub tok pend (Some out) = (Ret c, pend') \<Longrightarrow> length (fst c) = length out"
  by (auto simp: auth_server_handle_setup1_def try_c_Ret_iff Let_def split: if_splits dest!: cache_same packet_build_length)

lemma handle_setup3_length:
  "auth_server_handle_setup3 S pend sid seq p (Some out) = Ret c \<Longrightarrow> length (fst c) = length out"
  by (auto simp: auth_server_handle_setup3_def bnd_iffs Let_def split: if_splits dest!: packet_build_length)

lemma handle_auth3_length:
  "auth_server_handle_auth3 S pend sid seq p (Some out) = Ret c \<Longrightarrow> length (fst c) = length out"
  by (auto simp: auth_server_handle_auth3_def bnd_iffs Let_def split: if_splits dest!: packet_build_length)

lemma handle_auth1_length:
  "auth_server_handle_auth1 S rnd sid seq p sk pub lk roles n pend (Some out) = (Ret c, pend') \<Longrightarrow> length (fst c) = length out"
  by (auto simp: auth_server_handle_auth1_def try_c_Ret_iff Let_def split: if_splits dest!: cache_same packet_build_length)

lemma guarded_length:
  "auth_server_handle_auth1_guarded S rnd cache sid seq p sk pub lk roles n pend (Some out) = (Ret c, x) \<Longrightarrow> length (fst c) = length out"
  by (auto simp: auth_server_handle_auth1_guarded_def try_c_Ret_iff Let_def split: if_splits prod.splits cres.splits
      dest!: handle_auth1_length)

lemma scan_length:
  "scan_candidates S env st sid seq p out i m e cache = (Ret (c, pend), cache') \<Longrightarrow> length (fst c) = length out"
  by (induction S env st sid seq p out i m e cache rule: scan_candidates.induct)
    (auto simp: Let_def split: cres.splits prod.splits if_splits dest!: guarded_length)

text \<open>What an outcome carries towards the output buffer.\<close>

definition outcome_fits :: "nat \<Rightarrow> outcome \<Rightarrow> bool" where
  "outcome_fits n r \<longleftrightarrow> (case r of Ret b \<Rightarrow> length b \<le> n | Fail (e, b) \<Rightarrow> length b \<le> n | Fault \<Rightarrow> True)"

lemma outcome_fits_simps [simp]:
  "outcome_fits n (Ret b) = (length b \<le> n)" "outcome_fits n (Fail (e, b)) = (length b \<le> n)" "outcome_fits n Fault"
  by (simp_all add: outcome_fits_def)

lemma sent_le: "length (fst c) = n \<Longrightarrow> length (sent c) \<le> n"
  by (cases c) (simp add: sent_def)

lemma release_fits: "outcome_fits n r \<Longrightarrow> outcome_fits n (fst (release_slot slot r st))"
  by (auto simp: release_slot_def split: cres.splits)

lemma with_slot_fits: "(\<And>slot st. outcome_fits n (fst (k slot st))) \<Longrightarrow> outcome_fits n (fst (with_slot st k))"
  by (auto simp: with_slot_def split: cres.splits option.splits)

lemma setup1_fits: "outcome_fits (length out) (fst (dispatch_setup1 S env sid seq p out st))"
  unfolding dispatch_setup1_def
  by (rule with_slot_fits) (auto simp: Let_def split: cres.splits prod.splits intro!: release_fits sent_le handle_setup1_length)

lemma setup3_fits: "outcome_fits (length out) (fst (fst (dispatch_setup3 S env sid seq p out st)))"
  unfolding dispatch_setup3_def
  by (auto simp: Let_def split: cres.splits prod.splits intro!: release_fits sent_le handle_setup3_length)

lemma auth1_fits: "outcome_fits (length out) (fst (try_handle_auth1 S env sid seq p out st))"
  unfolding try_handle_auth1_def
  by (rule with_slot_fits) (auto simp: Let_def split: cres.splits prod.splits option.splits intro!: release_fits sent_le dest: scan_length)

lemma auth3_fits: "outcome_fits (length out) (fst (dispatch_auth3 S sid seq p out st))"
  unfolding dispatch_auth3_def
  by (auto split: cres.splits intro!: release_fits sent_le handle_auth3_length)

lemma error_reply_fits: "outcome_fits (length out) r \<Longrightarrow> error_reply sid seq out r = Ret reply \<Longrightarrow> length reply \<le> length out"
  by (auto simp: error_reply_def split: cres.splits intro!: sent_le packet_build_error_length)

lemma dispatch_reply_fits: "dispatch S env inp out st = (Ret reply, st', ops) \<Longrightarrow> length reply \<le> length out"
proof -
  assume d: "dispatch S env inp out st = (Ret reply, st', ops)"
  show ?thesis
  proof (cases "auth_header_decode (Some inp)")
    case (Ret q)
    let ?sid = "hdr_session_id (fst q)" and ?seq = "hdr_seq (fst q)"
    define res where "res =
       (if hdr_pkt_type (fst q) = AUTH_PKT_SETUP_1 then (dispatch_setup1 S env ?sid ?seq (snd q) out st, [])
        else if hdr_pkt_type (fst q) = AUTH_PKT_SETUP_3 then dispatch_setup3 S env ?sid ?seq (snd q) out st
        else if hdr_pkt_type (fst q) = AUTH_PKT_AUTH_1 then (try_handle_auth1 S env ?sid ?seq (snd q) out st, [])
        else if hdr_pkt_type (fst q) = AUTH_PKT_AUTH_3 then (dispatch_auth3 S ?sid ?seq (snd q) out st, [])
        else ((Fail (AUTH_ERR_UNKNOWN_PKT_TYPE, []), st), []))"
    have "outcome_fits (length out) (fst (fst res))"
      by (simp add: res_def setup1_fits setup3_fits auth1_fits auth3_fits)
    moreover have "error_reply ?sid ?seq out (fst (fst res)) = Ret reply"
      using d Ret by (cases q; cases res; cases "fst res"; simp add: dispatch_def Let_def res_def split: if_splits prod.splits)
    ultimately show ?thesis by (rule error_reply_fits)
  qed (use d in \<open>simp_all add: dispatch_def\<close>)
qed

text \<open>A packet is always answered: with a reply that fits, or, when it is empty, with silence.\<close>

lemma error_reply_not_Fail: "error_reply sid seq out r \<noteq> Fail e"
  by (auto simp: error_reply_def split: cres.splits)

lemma dispatch_not_Fail: "dispatch S env inp out st \<noteq> (Fail e, x)"
  by (auto simp: dispatch_def Let_def error_reply_not_Fail split: cres.splits prod.splits)

lemma dispatch_answers:
  assumes "ristretto255 S enc" and "wf_server st" and "wf_env env"
  obtains reply st' ops where "dispatch S env inp out st = (Ret reply, st', ops)" "wf_server st'" "length reply \<le> length out"
proof -
  obtain r st' ops where d: "dispatch S env inp out st = (r, st', ops)" by (metis prod_cases3)
  have "r \<noteq> Fault" "wf_server st'" using dispatch_steps [OF assms d] by simp_all
  then show thesis using that d dispatch_not_Fail [of S env inp out st] dispatch_reply_fits by (cases r) blast+
qed

subsection \<open>A worker is a run of the server\<close>

text \<open>The packets of a worker, in the order of their arrival, and the replies that are sent.\<close>

fun packets :: "envs \<Rightarrow> byte list list \<Rightarrow> packet_in list" where
  "packets envs [] = []"
| "packets envs (p # ps) = (envs 0, p, replicate AUTH_MAX_DATAGRAM 0) # packets (envs \<circ> Suc) ps"

definition replies :: "byte list list \<Rightarrow> byte list list" where
  "replies rs = filter (\<lambda>r. r \<noteq> []) rs"

lemma replies_simps [simp]: "replies [] = []" "replies (r # rs) = (if r = [] then replies rs else r # replies rs)"
  by (simp_all add: replies_def)

lemma server_run_Cons:
  "dispatch S env inp out st = (Ret reply, st1, ops1) \<Longrightarrow> server_run S pkts st1 = (map Ret rs, st', ops) \<Longrightarrow>
   server_run S ((env, inp, out) # pkts) st = (map Ret (reply # rs), st', ops1 @ ops)"
  by simp

text \<open>The reference of a connection, independent of the reader: the bytes that arrive before the peer falls silent, closes or
  an error is reported, and the complete frames at the front of a byte sequence. A length above the maximum ends the
  sequence of frames, as nothing after it can be trusted.\<close>

fun arrived :: "stream \<Rightarrow> byte list" where
  "arrived (Rx_data (b, bs) # es) = b # bs @ arrived es"
| "arrived (Rx_intr # es) = arrived es"
| "arrived _ = []"

function frames_of :: "byte list \<Rightarrow> byte list list" where
  "frames_of bs =
     (let n = unat (le_word (take 4 bs) :: u32) in
      if length bs < 4 \<or> AUTH_MAX_DATAGRAM < n \<or> length bs < 4 + n then []
      else take n (drop 4 bs) # frames_of (drop (4 + n) bs))"
  by pat_completeness auto

termination frames_of
  by (relation "measure length") auto

declare frames_of.simps [simp del]

lemma frames_of_frame: "length p \<le> 2048 \<Longrightarrow> frames_of (frame p @ bs) = p # frames_of bs"
  unfolding frame_def using unat_frame_length [of p] by (subst frames_of.simps) (simp add: le_word_le_bytes Let_def)

lemma frames_of_frames: "\<forall>p \<in> set ps. length p \<le> 2048 \<Longrightarrow> frames_of (concat (map frame ps) @ bs) = ps @ frames_of bs"
  by (induction ps) (simp_all add: frames_of_frame)

lemma next_bytes_arrived:
  "(if n \<le> length (arrived rx)
    then \<exists>rx'. next_bytes n got rx = (Ret (got @ take n (arrived rx)), rx') \<and> arrived rx' = drop n (arrived rx)
    else \<exists>e rx'. next_bytes n got rx = (Fail e, rx'))"
  by (induction n got rx rule: next_bytes.induct) auto

text \<open>One receive takes the next frame, or fails when there is none.\<close>

lemma tcp_recv_frames:
  assumes fd: "tc_fd c \<ge> 0"
  shows "case frames_of (arrived rx) of
      [] \<Rightarrow> \<exists>e rx'. auth_tcp_recv (Some c) (Some (replicate 2048 0)) 2048 30000 rx = Some (Fail e, rx')
    | p # ps \<Rightarrow> \<exists>rx'. auth_tcp_recv (Some c) (Some (replicate 2048 0)) 2048 30000 rx = Some (Ret (cur (replicate 2048 0) p), rx') \<and>
        length p \<le> 2048 \<and> frames_of (arrived rx') = ps"
proof -
  let ?b = "arrived rx" and ?n = "unat (le_word (take 4 (arrived rx)) :: u32)"
  note recv = tcp_recv_timed [OF _ fd, of 30000 "replicate 2048 0" 2048 rx, simplified]
  show ?thesis
  proof (cases "length ?b < 4")
    case True
    then show ?thesis using next_bytes_arrived [of 4 rx "[]"] recv by (auto simp: frames_of.simps [of ?b])
  next
    case False
    then obtain rx1 where h: "next_bytes 4 [] rx = (Ret (take 4 ?b), rx1)" "arrived rx1 = drop 4 ?b"
      using next_bytes_arrived [of 4 rx "[]"] by auto
    show ?thesis
    proof (cases "2048 < ?n")
      case True
      then show ?thesis using False recv h by (simp add: frames_of.simps [of ?b] Let_def)
    next
      case n: False
      show ?thesis
      proof (cases "?n \<le> length (arrived rx1)")
        case True
        then obtain rx2 where "next_bytes ?n [] rx1 = (Ret (take ?n (arrived rx1)), rx2)" "arrived rx2 = drop ?n (arrived rx1)"
          using next_bytes_arrived [of ?n rx1 "[]"] by auto
        then show ?thesis
          using True False n recv h by (simp add: frames_of.simps [of ?b] Let_def wrn_cur_0 cur_eqI add.commute)
      next
        case none: False
        then obtain e rx2 where "next_bytes ?n [] rx1 = (Fail e, rx2)" using next_bytes_arrived [of ?n rx1 "[]"] by auto
        moreover have "frames_of ?b = []" using none False n h(2) by (simp add: frames_of.simps [of ?b] Let_def)
        ultimately show ?thesis using False n recv h by (simp add: Let_def)
      qed
    qed
  qed
qed

text \<open>A socket on which every write makes progress takes every frame.\<close>

definition writable :: "write_result list \<Rightarrow> bool" where
  "writable tx \<longleftrightarrow> W_error \<notin> set tx \<and> W_wrote 0 \<notin> set tx"

lemma write_all_writable:
  "writable tx \<Longrightarrow> fst (write_all buf off tx) = Ret () \<and> writable (snd (snd (write_all buf off tx)))"
proof (induction buf off tx rule: write_all.induct)
  case (1 buf off tx)
  show ?case
  proof (cases "off \<ge> length buf \<or> tx = []")
    case True
    then show ?thesis using "1.prems" by (auto simp: write_all.simps [of buf off])
  next
    case False
    then obtain w tx1 where tx: "tx = w # tx1" by (cases tx) auto
    have wr: "writable tx1" "w \<noteq> W_error" "w \<noteq> W_wrote 0" using "1.prems" by (auto simp: writable_def tx)
    show ?thesis
    proof (cases w)
      case W_intr
      then show ?thesis using "1.IH"(1) [OF _ tx _ wr(1)] False by (simp add: write_all.simps [of buf off] tx)
    next
      case (W_wrote n)
      then have "min n (length buf - off) \<noteq> 0" using False wr(3) by auto
      then show ?thesis
        using "1.IH"(2) [OF _ tx W_wrote refl _ wr(1)] False W_wrote by (simp add: write_all.simps [of buf off] tx Let_def split_beta)
    qed (use wr in simp)
  qed
qed

lemma tcp_send_writable:
  assumes "writable tx" and "auth_tcp_send (Some c) (Some bs) (length bs) tx = (r, out, tx')" and "tc_fd c \<ge> 0" and "length bs \<le> 2048"
  shows "r = Ret () \<and> writable tx'"
  using assms write_all_writable by (fastforce simp: auth_tcp_send_def Let_def split_beta split: if_splits)

text \<open>The two ways a connection ends: all frames are answered, or a reply could not be written in full.\<close>

definition conn_result :: "byte list list \<Rightarrow> nat \<Rightarrow> write_result list \<Rightarrow> byte list list \<Rightarrow> byte list \<Rightarrow> bool" where
  "conn_result ps m tx rs out \<longleftrightarrow>
     m = length ps \<and> out = concat (map frame (replies rs)) \<or>
     0 < m \<and> m \<le> length ps \<and> \<not> writable tx \<and> last rs \<noteq> [] \<and>
       (\<exists>k < length (frame (last rs)). out = concat (map frame (replies (butlast rs))) @ take k (frame (last rs)))"

lemma conn_result_Cons:
  assumes "conn_result ps m tx' rs out" and "writable tx \<Longrightarrow> writable tx'" and "length rs = m"
  shows "conn_result (p # ps) (Suc m) tx (reply # rs) ((if reply = [] then [] else frame reply) @ out)"
  using assms unfolding conn_result_def by (cases rs) auto

lemma tcp_conn_run:
  assumes R: "ristretto255 S enc" and fd: "tc_fd conn \<ge> 0"
  shows "wf_server st \<Longrightarrow> (\<forall>i. wf_env (envs i)) \<Longrightarrow> frames_of (arrived rx) = ps \<Longrightarrow>
    \<exists>m rs st' out ops. tcp_conn_loop S conn envs rx tx st = Some (Ret st', out, ops) \<and> length rs = m \<and>
      server_run S (packets envs (take m ps)) st = (map Ret rs, st', ops) \<and> conn_result ps m tx rs out"
proof (induction ps arbitrary: envs rx tx st)
  case Nil
  then show ?case
    using tcp_recv_frames [OF fd, of rx] by (auto simp: tcp_conn_loop.simps [of S conn envs rx] conn_result_def intro!: exI [of _ "[]"])
next
  case (Cons p ps)
  let ?buf = "replicate 2048 0"
  obtain rx1 where recv: "auth_tcp_recv (Some conn) (Some ?buf) 2048 30000 rx = Some (Ret (cur ?buf p), rx1)" "length p \<le> 2048"
    "frames_of (arrived rx1) = ps"
    using tcp_recv_frames [OF fd, of rx] Cons.prems(3) by auto
  obtain reply st1 ops1 where d: "dispatch S (envs 0) p ?buf st = (Ret reply, st1, ops1)" "wf_server st1" "length reply \<le> 2048"
    using dispatch_answers [OF R Cons.prems(1), of "envs 0" p ?buf] Cons.prems(2) by auto
  let ?snd = "if reply \<noteq> [] then auth_tcp_send (Some conn) (Some reply) (length reply) tx else (Ret (), [], tx)"
  let ?f = "if reply = [] then [] else frame reply"
  have loop: "tcp_conn_loop S conn envs rx tx st =
    (let (r, bs, tx) = ?snd in
     if r \<noteq> Ret () then Some (Ret st1, bs, ops1)
     else map_option (\<lambda>(r, bs', ops'). (r, bs @ bs', ops1 @ ops')) (tcp_conn_loop S conn (envs \<circ> Suc) rx1 tx st1))"
    using recv d(1) by (simp add: tcp_conn_loop.simps [of S conn envs rx])
  consider (all) tx' where "?snd = (Ret (), ?f, tx')" "writable tx \<Longrightarrow> writable tx'"
    | (cut_short) k tx' where "?snd = (Fail AUTH_ERR_IO, take k (frame reply), tx')" "reply \<noteq> []" "k < length (frame reply)" "\<not> writable tx"
  proof (cases "reply = []")
    case False
    show thesis
    proof (cases rule: tcp_send_cases [OF fd d(3), of tx, case_names sent_all sent_part])
      case (sent_all tx')
      then show thesis using all [of tx'] False tcp_send_writable [OF _ sent_all fd d(3)] by simp
    next
      case (sent_part k tx')
      then show thesis using cut_short [of k tx'] False tcp_send_writable [OF _ sent_part(1) fd d(3)] by auto
    qed
  qed (use all in simp)
  then show ?case
  proof cases
    case all
    have env': "\<forall>i. wf_env ((envs \<circ> Suc) i)" using Cons.prems(2) by simp
    obtain m rs st' out ops where ih: "tcp_conn_loop S conn (envs \<circ> Suc) rx1 tx' st1 = Some (Ret st', out, ops)" "length rs = m"
      "server_run S (packets (envs \<circ> Suc) (take m ps)) st1 = (map Ret rs, st', ops)" "conn_result ps m tx' rs out"
      using Cons.IH [OF d(2) env' recv(3), of tx'] by blast
    have "tcp_conn_loop S conn envs rx tx st = Some (Ret st', ?f @ out, ops1 @ ops)" using loop all(1) ih(1) by (simp add: Let_def)
    then show ?thesis
      using server_run_Cons [OF d(1) ih(3)] conn_result_Cons [OF ih(4) all(2) ih(2)] ih(2)
      by (intro exI [of _ "Suc m"] exI [of _ "reply # rs"]) (simp del: server_run.simps)
  next
    case cut_short
    then have "tcp_conn_loop S conn envs rx tx st = Some (Ret st1, take k (frame reply), ops1)" using loop by (simp add: Let_def)
    moreover have "conn_result (p # ps) 1 tx [reply] (take k (frame reply))"
      unfolding conn_result_def using cut_short(2-4) by (intro disjI2) auto
    ultimately show ?thesis
      using server_run_Cons [OF d(1), of "[]" "[]" st1 "[]"]
      by (intro exI [of _ 1] exI [of _ "[reply]"]) (simp del: server_run.simps(2))
  qed
qed

lemma tcp_send_open: "tc_fd c \<ge> 0 \<Longrightarrow> length bs \<le> 2048 \<Longrightarrow> auth_tcp_send (Some c) (Some bs) (length bs) [] = (Ret (), frame bs, [])"
proof -
  assume a: "tc_fd c \<ge> 0" "length bs \<le> 2048"
  have w: "write_all buf 0 [] = (Ret (), buf, [])" for buf by (simp add: write_all.simps)
  then have "snd (snd (auth_tcp_send (Some c) (Some bs) (length bs) [])) = []" "fst (auth_tcp_send (Some c) (Some bs) (length bs) []) = Ret ()"
    using a by (simp_all add: auth_tcp_send_def Let_def)
  then show ?thesis by (cases rule: tcp_send_cases [OF a, of "[]"]) simp_all
qed

text \<open>When the peer behaves, the bytes that arrive are those of the stream, so the frames served are the packets sent.\<close>

lemma arrived_lively: "lively pre \<Longrightarrow> arrived (pre @ post) = stream_bytes pre @ arrived post"
  by (induction pre rule: lively.induct) (auto split: prod.splits)

lemma frames_sent:
  assumes "lively pre" and "stream_bytes pre = concat (map frame ps)" and "\<forall>p \<in> set ps. length p \<le> 2048" and "arrived post = []"
  shows "frames_of (arrived (pre @ post)) = ps"
  using frames_of_frames [OF assms(3), of "[]"] by (simp add: arrived_lively [OF assms(1)] assms(2,4) frames_of.simps [of "[]"])

subsection \<open>The UDP loop\<close>

text \<open>The datagrams among the events, and whether a closed socket is among them (which a bound UDP socket never reports).\<close>

fun arrivals :: "dgrams \<Rightarrow> (byte list \<times> auth_addr) list" where
  "arrivals [] = []"
| "arrivals (Rx_data d # es) = d # arrivals es"
| "arrivals (e # es) = arrivals es"

fun open_socket :: "dgrams \<Rightarrow> bool" where
  "open_socket [] = True"
| "open_socket (Rx_eof # es) = False"
| "open_socket (e # es) = open_socket es"

definition reply_to :: "auth_addr \<Rightarrow> auth_addr option" where
  "reply_to a = (if aa_sa_len a \<noteq> 0 then Some a else None)"

text \<open>One wait without a time-out: it blocks when nothing more happens, reports an error, or takes the next datagram.\<close>

lemma recvfrom_cases:
  assumes "open_socket rx"
  obtains (blocked) "sock_recvfrom rx = None" "arrivals rx = []"
  | (error) rx' where "sock_recvfrom rx = Some (None, rx')" "arrivals rx' = arrivals rx" "open_socket rx'" "length rx' < length rx"
  | (datagram) d rx' where "sock_recvfrom rx = Some (Some d, rx')" "arrivals rx = d # arrivals rx'" "open_socket rx'" "length rx' < length rx"
  using assms by (induction rx rule: sock_recvfrom.induct) (auto intro: less_SucI)

lemma udp_recv_wait:
  assumes "ud_fd u \<ge> 0"
  shows "auth_udp_recv (Some u) (Some (replicate 2048 0)) 2048 (-1) rx =
    (case sock_recvfrom rx of
       None \<Rightarrow> None
     | Some (None, rx) \<Rightarrow> Some (Fail AUTH_ERR_IO, rx)
     | Some (Some d, rx) \<Rightarrow> Some (Ret (cur (replicate 2048 0) (take 2048 (fst d)), snd d), rx))"
proof -
  have t: "take (min (length d) 2048) d = take 2048 d" for d :: "byte list" by (simp add: min_def)
  have "bnd (wrn (replicate 2048 0) 0 d (min 2048 (length d))) (\<lambda>buf. Ret ((buf, min 2048 (length d)), a)) =
      (Ret (cur (replicate 2048 0) (take 2048 d), a) :: (auth_err, cursor \<times> auth_addr) cres)" for d a
    using wrn_cur_0 [of "min 2048 (length d)" d "replicate 2048 0", where 'a = auth_err] cur_eqI [of "take 2048 d" "min 2048 (length d)"]
    by (simp add: min.commute t)
  then show ?thesis using assms by (simp add: auth_udp_recv_def Let_def split: option.splits prod.splits)
qed

definition udp_replies :: "auth_addr list \<Rightarrow> byte list list \<Rightarrow> (auth_addr option \<times> byte list) list" where
  "udp_replies peers rs = map (\<lambda>(a, r). (reply_to a, r)) (filter (\<lambda>(a, r). r \<noteq> []) (zip peers rs))"

lemma udp_run:
  assumes R: "ristretto255 S enc" and fd: "ud_fd u \<ge> 0"
  shows "wf_server st \<Longrightarrow> (\<forall>i. wf_env (envs i)) \<Longrightarrow> open_socket rx \<Longrightarrow> length rx \<le> n \<Longrightarrow>
    \<exists>rs st' ops. udp_loop S u n envs rx [] st = (Ret st', udp_replies (map snd (arrivals rx)) rs, ops) \<and>
      server_run S (packets envs (map (\<lambda>d. take 2048 (fst d)) (arrivals rx))) st = (map Ret rs, st', ops)"
proof (induction n arbitrary: envs rx st)
  case 0
  then show ?case by (intro exI [of _ "[]"] exI [of _ st]) (simp add: udp_replies_def)
next
  case (Suc n)
  show ?case
  proof (cases rule: recvfrom_cases [OF Suc.prems(3), case_names blocked error datagram])
    case blocked
    then show ?thesis by (intro exI [of _ "[]"] exI [of _ st]) (simp add: udp_recv_wait [OF fd] udp_replies_def)
  next
    case (error rx')
    then show ?thesis using Suc.IH [OF Suc.prems(1,2) error(3)] Suc.prems(4) by (simp add: udp_recv_wait [OF fd])
  next
    case (datagram d rx')
    let ?buf = "replicate 2048 0" and ?p = "take 2048 (fst d)"
    have p: "sent (cur ?buf ?p) = ?p" by simp
    obtain reply st1 ops1 where dp: "dispatch S (envs 0) ?p ?buf st = (Ret reply, st1, ops1)" "wf_server st1" "length reply \<le> 2048"
      using dispatch_answers [OF R Suc.prems(1), of "envs 0" ?p ?buf] Suc.prems(2) by auto
    have rest: "\<forall>i. wf_env ((envs \<circ> Suc) i)" "length rx' \<le> n" using Suc.prems(2,4) datagram(4) by simp_all
    obtain rs st' ops where ih: "udp_loop S u n (envs \<circ> Suc) rx' [] st1 = (Ret st', udp_replies (map snd (arrivals rx')) rs, ops)"
      "server_run S (packets (envs \<circ> Suc) (map (\<lambda>d. take 2048 (fst d)) (arrivals rx'))) st1 = (map Ret rs, st', ops)"
      using Suc.IH [OF dp(2) rest(1) datagram(3) rest(2)] by blast
    have "udp_loop S u (Suc n) envs rx [] st = (Ret st', udp_replies (map snd (arrivals rx)) (reply # rs), ops1 @ ops)"
      using datagram(1,2) p dp(1,3) ih(1) fd
      by (simp add: udp_recv_wait [OF fd] auth_udp_send_def Let_def udp_replies_def reply_to_def)
    then show ?thesis using server_run_Cons [OF dp(1) ih(2)] datagram(2)
      by (intro exI [of _ "reply # rs"]) simp
  qed
qed

subsection \<open>Accepted connections\<close>

fun accepted :: "accept_answer list \<Rightarrow> int list" where
  "accepted [] = []"
| "accepted (A_conn fd a # as) = fd # accepted as"
| "accepted (_ # as) = accepted as"

lemma accept_cases:
  obtains (blocked) "accept_loop as = None"
  | (error) as' where "accept_loop as = Some (None, as')" "accepted as' = accepted as" "length as' < length as"
  | (conn) fd a as' where "accept_loop as = Some (Some (fd, a), as')" "accepted as = fd # accepted as'" "length as' < length as"
  by (induction as rule: accept_loop.induct) (auto intro: less_SucI)

text \<open>What the kernel promises: \<^verbatim>\<open>accept\<close> returns a descriptor that is not open at that moment. A descriptor closed in
  between, here after a failed \<^verbatim>\<open>malloc\<close> or \<^verbatim>\<open>pthread_create\<close>, may come back.\<close>

fun fresh_accepts :: "nat \<Rightarrow> (nat \<Rightarrow> bool) \<Rightarrow> (nat \<Rightarrow> bool) \<Rightarrow> accept_answer list \<Rightarrow> int set \<Rightarrow> bool" where
  "fresh_accepts 0 malloc_ok create_ok as fds = True"
| "fresh_accepts (Suc n) malloc_ok create_ok as fds =
     (case accept_loop as of
        None \<Rightarrow> True
      | Some (None, as) \<Rightarrow> fresh_accepts n malloc_ok create_ok as fds
      | Some (Some (fd, peer), as) \<Rightarrow> fd \<ge> 0 \<and> fd \<notin> fds \<and>
          fresh_accepts n malloc_ok create_ok as (if malloc_ok n \<and> create_ok n then insert fd fds else fds))"

text \<open>The open descriptors and the live workers while the server accepts connections: some iterations of the accept loop, or
  the end of a worker, in any order. \<open>base\<close> are the descriptors open when the loop starts.\<close>

inductive accepting :: "sodium \<Rightarrow> auth_tcp_listener \<Rightarrow> int set \<Rightarrow> int set \<Rightarrow> (int \<times> auth_addr) list \<Rightarrow> bool" for S l base where
  start: "accepting S l base base []"
| accept: "accepting S l base fds ws \<Longrightarrow> fresh_accepts n malloc_ok create_ok as fds \<Longrightarrow>
    tcp_accept_loop l n malloc_ok create_ok as fds = (ws', fds') \<Longrightarrow> accepting S l base fds' (ws @ ws')"
| worker: "accepting S l base fds (ws @ (fd, peer) # ws') \<Longrightarrow>
    handle_tcp_conn S fd envs rx tx st fds = Some (r, out, ops, fds') \<Longrightarrow> accepting S l base fds' (ws @ ws')"

lemma accept_descriptors:
  assumes "tl_fd l \<ge> 0"
  shows "fresh_accepts n malloc_ok create_ok as fds \<Longrightarrow> tcp_accept_loop l n malloc_ok create_ok as fds = (ws, fds') \<Longrightarrow>
    fds' = fds \<union> fst ` set ws \<and> fst ` set ws \<inter> fds = {} \<and> distinct (map fst ws) \<and> (\<forall>w \<in> set ws. fst w \<ge> 0)"
proof (induction n arbitrary: as fds ws fds')
  case 0
  then show ?case by simp
next
  case (Suc n)
  show ?case
  proof (cases rule: accept_cases [of as, case_names blocked error conn])
    case blocked
    then show ?thesis using assms Suc.prems(2) by (simp add: auth_tcp_listener_accept_def)
  next
    case (error as')
    then show ?thesis using assms Suc.prems Suc.IH [of as' fds ws fds'] by (simp add: auth_tcp_listener_accept_def)
  next
    case (conn fd a as')
    have fresh: "fd \<ge> 0" "fd \<notin> fds" "fresh_accepts n malloc_ok create_ok as' (if malloc_ok n \<and> create_ok n then insert fd fds else fds)"
      using Suc.prems(1) conn(1) by simp_all
    show ?thesis
    proof (cases "malloc_ok n \<and> create_ok n")
      case False
      then have "tcp_accept_loop l n malloc_ok create_ok as' fds = (ws, fds')"
        using assms conn(1) Suc.prems(2) fresh(2) by (auto simp: auth_tcp_listener_accept_def split: if_splits)
      then show ?thesis using Suc.IH fresh(3) False by simp
    next
      case True
      obtain ws1 where w: "tcp_accept_loop l n malloc_ok create_ok as' (insert fd fds) = (ws1, fds')" "ws = (fd, a) # ws1"
        using True assms conn(1) Suc.prems(2) by (auto simp: auth_tcp_listener_accept_def split: prod.splits)
      from Suc.IH [OF _ w(1)] show ?thesis using w(2) True fresh by auto
    qed
  qed
qed

lemma accept_hands_over:
  assumes "tl_fd l \<ge> 0"
  shows "length as \<le> n \<Longrightarrow> map fst (fst (tcp_accept_loop l n (\<lambda>_. True) (\<lambda>_. True) as fds)) = accepted as"
proof (induction n arbitrary: as fds)
  case (Suc n)
  show ?case
  proof (cases rule: accept_cases [of as, case_names blocked error conn])
    case blocked
    moreover have "accepted as = []" using blocked by (induction as rule: accept_loop.induct) auto
    ultimately show ?thesis using assms by (simp add: auth_tcp_listener_accept_def)
  next
    case (error as')
    then show ?thesis using assms Suc.prems Suc.IH [of as' fds] by (simp add: auth_tcp_listener_accept_def)
  next
    case (conn fd a as')
    then show ?thesis
      using assms Suc.prems Suc.IH [of as' "insert fd fds"] by (simp add: auth_tcp_listener_accept_def split_beta)
  qed
qed simp

lemma worker_closes:
  "handle_tcp_conn S fd envs rx tx st fds = Some (r, out, ops, fds') \<Longrightarrow> fd \<ge> 0 \<Longrightarrow> fds' = fds - {fd}"
  by (auto simp: handle_tcp_conn_def auth_tcp_conn_wrap_def auth_tcp_conn_close_def split: if_splits)

subsection \<open>Properties\<close>

text \<open>C21: The handler of a TCP connection ends whatever the peer and the network do, closes its descriptor, and serves the
  frames of the stream. Let \<open>ps\<close> be the complete frames at the front of the bytes that arrive before the peer falls silent,
  closes the connection or an error is reported. The handler is a run of the server on the first \<open>m\<close> packets of \<open>ps\<close>, in
  their order and however the stream is cut into segments. Either it served all of \<open>ps\<close> and wrote the framed replies of
  that run, complete and in order; or a write failed (which does not happen on a socket that takes every write), the
  \<open>m\<close>th reply is the one that could not be written in full, and the replies before it were written.\<close>

theorem tcp_connection_refines:
  assumes "ristretto255 S enc" and "wf_server st" and "\<forall>i. wf_env (envs i)" and "fd \<ge> 0"
  shows "\<exists>m rs st' out ops.
    handle_tcp_conn S fd envs rx tx st fds = Some (Ret st', out, ops, fds - {fd}) \<and>
    server_run S (packets envs (take m (frames_of (arrived rx)))) st = (map Ret rs, st', ops) \<and> length rs = m \<and>
    (m = length (frames_of (arrived rx)) \<and> out = concat (map frame (replies rs)) \<or>
     0 < m \<and> m \<le> length (frames_of (arrived rx)) \<and> \<not> writable tx \<and> last rs \<noteq> [] \<and>
       (\<exists>k < length (frame (last rs)). out = concat (map frame (replies (butlast rs))) @ take k (frame (last rs))))"
proof -
  let ?conn = "\<lparr>tc_fd = fd\<rparr>"
  obtain m rs st' out ops where "tcp_conn_loop S ?conn envs rx tx st = Some (Ret st', out, ops)" "length rs = m"
    "server_run S (packets envs (take m (frames_of (arrived rx)))) st = (map Ret rs, st', ops)"
    "conn_result (frames_of (arrived rx)) m tx rs out"
    using tcp_conn_run [OF assms(1) _ assms(2,3) refl, of ?conn rx tx] assms(4) by auto
  then show ?thesis
    using assms(4)
    by (intro exI [of _ m] exI [of _ rs] exI [of _ st'] exI [of _ out] exI [of _ ops])
      (simp add: handle_tcp_conn_def auth_tcp_conn_wrap_def auth_tcp_conn_close_def conn_result_def)
qed

theorem tcp_connection_refines_witness:
  "\<exists>rs st' ops.
    handle_tcp_conn toy_sodium 7 (\<lambda>_. env_sample) [Rx_data (1, [0, 0, 0, 9, 2, 0]), Rx_intr, Rx_data (0, [0, 5, 6, 8]), Rx_silence, Rx_data (1, [])]
      [W_wrote 3] server_sample {3, 7} = Some (Ret st', concat (map frame (replies rs)), ops, {3, 7} - {7}) \<and>
    server_run toy_sodium (packets (\<lambda>_. env_sample) [[9], [5, 6]]) server_sample = (map Ret rs, st', ops)"
proof -
  have f: "frames_of (arrived [Rx_data (1, [0, 0, 0, 9, 2, 0]), Rx_intr, Rx_data (0, [0, 5, 6, 8]), Rx_silence, Rx_data (1, [])]) = [[9], [5, 6]]"
    by (simp add: frames_of.simps)
  have w: "writable [W_wrote 3]" by (simp add: writable_def)
  show ?thesis
    using tcp_connection_refines [OF toy_ristretto255 server_sample_wf, of "\<lambda>_. env_sample" 7
        "[Rx_data (1, [0, 0, 0, 9, 2, 0]), Rx_intr, Rx_data (0, [0, 5, 6, 8]), Rx_silence, Rx_data (1, [])]" "[W_wrote 3]" "{3, 7}"]
      env_sample_wf w unfolding f by (auto simp del: server_run.simps)
qed

text \<open>C22: The UDP worker answers every datagram and no receive error stops it: when the socket has delivered everything,
  the worker has made the run of the server on the datagrams in the order of their arrival (each cut to the 2048 bytes of
  the buffer), and has sent every reply to the address its datagram came from.\<close>

theorem udp_worker_serves_all:
  assumes "ristretto255 S enc" and "wf_server st" and "\<forall>i. wf_env (envs i)" and "ud_fd u \<ge> 0"
    and "open_socket rx" and "length rx \<le> n"
  shows "\<exists>rs st' ops. server_run S (packets envs (map (\<lambda>d. take AUTH_MAX_DATAGRAM (fst d)) (arrivals rx))) st = (map Ret rs, st', ops) \<and>
    udp_loop S u n envs rx [] st = (Ret st', udp_replies (map snd (arrivals rx)) rs, ops)"
  using udp_run [OF assms(1,4,2,3,5,6)] by auto

theorem udp_worker_serves_all_witness:
  "\<exists>rs st' ops. server_run toy_sodium (packets (\<lambda>_. env_sample) [[9], []]) server_sample = (map Ret rs, st', ops) \<and>
    udp_loop toy_sodium \<lparr>ud_fd = 4\<rparr> 5 (\<lambda>_. env_sample) [Rx_error, Rx_data ([9], loopback6), Rx_intr, Rx_data ([], loopback6)] []
      server_sample = (Ret st', udp_replies [loopback6, loopback6] rs, ops)"
  using udp_worker_serves_all [OF toy_ristretto255 server_sample_wf, of "\<lambda>_. env_sample" "\<lparr>ud_fd = 4\<rparr>"
      "[Rx_error, Rx_data ([9], loopback6), Rx_intr, Rx_data ([], loopback6)]" 5] env_sample_wf by simp

text \<open>C23: The server never loses a connection's descriptor. The kernel may return any descriptor that is not open at that
  moment, so also one it has returned before. At every point of every interleaving of iterations of the accept loop (in
  which \<^verbatim>\<open>malloc\<close> and \<^verbatim>\<open>pthread_create\<close> may fail) and of connection handlers that end, the open descriptors are those
  open at the start and one per live worker: each accepted connection belongs to exactly one worker or has been closed, and
  when all workers have ended nothing is left open. And when neither call fails, every accepted connection gets its
  worker, in the order of acceptance.\<close>

theorem accepted_descriptors_owned:
  assumes "tl_fd l \<ge> 0" and "accepting S l base fds ws"
  shows "fds = base \<union> fst ` set ws \<and> base \<inter> fst ` set ws = {} \<and> distinct (map fst ws) \<and>
    map fst (fst (tcp_accept_loop l (length as) (\<lambda>_. True) (\<lambda>_. True) as fds)) = accepted as"
proof -
  from assms(2) have "fds = base \<union> fst ` set ws \<and> base \<inter> fst ` set ws = {} \<and> distinct (map fst ws) \<and> (\<forall>w \<in> set ws. fst w \<ge> 0)"
  proof induction
    case (accept fds ws n malloc_ok create_ok as ws' fds')
    then show ?case using accept_descriptors [OF assms(1) accept.hyps(2,3)] by auto
  next
    case (worker fds ws fd peer ws' envs rx tx st r out ops fds')
    then have "fds' = fds - {fd}" using worker_closes [OF worker.hyps(2)] by simp
    then show ?case using worker.IH by auto
  qed simp
  then show ?thesis using accept_hands_over [OF assms(1)] by simp
qed

text \<open>Descriptor 5 is accepted, closed because \<^verbatim>\<open>malloc\<close> fails, and accepted again.\<close>

theorem accepted_descriptors_owned_witness:
  "tcp_accept_loop \<lparr>tl_fd = 3\<rparr> 4 (\<lambda>i. i \<noteq> 3) (\<lambda>_. True) [A_conn 5 loopback6, A_error, A_conn 5 loopback6] {3} = ([(5, loopback6)], {3, 5}) \<and>
   {5, 3} = {3} \<union> fst ` set [(5 :: int, loopback6)] \<and> {3} \<inter> fst ` set [(5 :: int, loopback6)] = {} \<and> distinct (map fst [(5 :: int, loopback6)])"
proof -
  let ?as = "[A_conn 5 loopback6, A_error, A_conn 5 loopback6]"
  have run: "tcp_accept_loop \<lparr>tl_fd = 3\<rparr> 4 (\<lambda>i. i \<noteq> 3) (\<lambda>_. True) ?as {3} = ([(5, loopback6)], {5, 3})"
    by (simp add: numeral_eq_Suc auth_tcp_listener_accept_def)
  have "fresh_accepts 4 (\<lambda>i. i \<noteq> 3) (\<lambda>_. True) ?as {3}" by (simp add: numeral_eq_Suc)
  from accepting.accept [OF accepting.start this run]
  have "accepting toy_sodium \<lparr>tl_fd = 3\<rparr> {3} {5, 3} [(5, loopback6)]" by simp
  then show ?thesis
    using accepted_descriptors_owned [of "\<lparr>tl_fd = 3\<rparr>" toy_sodium "{3}" "{5, 3}" "[(5, loopback6)]" "[]"] run by (simp add: insert_commute)
qed

end
