(* ===== verification/EndToEnd.thy ===== *)
theory EndToEnd
  imports Enrolment ServerLoop
begin

text \<open>
  The two programs together: the client program (\<^verbatim>\<open>c/bin/client.c\<close>) over UDP or TCP, and the server program
  (\<^verbatim>\<open>c/bin/server.c\<close>) that answers its packets. The network delivers to the client exactly what the server's dispatch
  replies to the packets the client has sent.
\<close>

subsection \<open>A network that carries the replies\<close>

text \<open>What a packet is on the wire, and a connected socket on which exactly the packets \<open>rs\<close> will arrive.\<close>

definition wire :: "client_transport \<Rightarrow> byte list \<Rightarrow> byte list" where
  "wire t p = (if ct_kind t = TRANSPORT_UDP then p else frame p)"

definition delivers :: "client_transport \<Rightarrow> client_net \<Rightarrow> byte list list \<Rightarrow> bool" where
  "delivers t net rs \<longleftrightarrow> cn_tx net = [] \<and>
     (if ct_kind t = TRANSPORT_UDP then ud_fd (ct_udp t) \<ge> 0 \<and> (\<exists>as. length as = length rs \<and> cn_dgrams net = map Rx_data (zip rs as))
      else tc_fd (ct_tcp t) \<ge> 0 \<and> lively (cn_stream net) \<and> stream_bytes (cn_stream net) = concat (map frame rs))"

lemma wire_inj [simp]: "wire t p = wire t q \<longleftrightarrow> p = q"
  by (auto simp: wire_def frame_def)

lemma exchange_delivered:
  assumes "delivers t net (r # rs)" and p: "length p \<le> 2048" and r: "length r \<le> 2048"
  shows "\<exists>net'. exchanged t (cur (replicate 2048 0) p) net = Some (Ret (cur (replicate 2048 0) r), net') \<and>
    delivers t net' rs \<and> cn_sent net' = cn_sent net @ [wire t p]"
proof (cases "ct_kind t = TRANSPORT_UDP")
  case True
  then obtain as where as: "ud_fd (ct_udp t) \<ge> 0" "length as = length (r # rs)" "cn_dgrams net = map Rx_data (zip (r # rs) as)" "cn_tx net = []"
    using assms(1) by (auto simp: delivers_def)
  then obtain a as' where "as = a # as'" by (cases as) auto
  then have as': "cn_dgrams net = Rx_data (r, a) # map Rx_data (zip rs as')" "length as' = length rs" using as(2,3) by simp_all
  show ?thesis
    using udp_exchange [OF True as(1) p r as(4) as'(1)] True as as'(2)
    by (intro exI [of _ "net\<lparr>cn_dgrams := map Rx_data (zip rs as'), cn_sent := cn_sent net @ [p]\<rparr>"]) (auto simp: delivers_def wire_def)
next
  case False
  then have n: "tc_fd (ct_tcp t) \<ge> 0" "lively (cn_stream net)" "stream_bytes (cn_stream net) = frame r @ concat (map frame rs)" "cn_tx net = []"
    using assms(1) by (auto simp: delivers_def)
  obtain rx where rx: "auth_tcp_recv (Some (ct_tcp t)) (Some (replicate 2048 0)) 2048 5000 (cn_stream net) = Some (Ret (cur (replicate 2048 0) r), rx)"
    "lively rx" "stream_bytes rx = concat (map frame rs)"
    using tcp_recv_frame [of 5000 "ct_tcp t" r 2048 "replicate 2048 0" "cn_stream net"] n r by auto
  have "auth_tcp_send (Some (ct_tcp t)) (Some (fst (cur (replicate 2048 0) p))) (length p) [] =
      auth_tcp_send (Some (ct_tcp t)) (Some p) (length p) []"
    using p by (simp add: auth_tcp_send_def cur_def Let_def split: prod.split)
  then have s: "auth_tcp_send (Some (ct_tcp t)) (Some (fst (cur (replicate 2048 0) p))) (length p) [] = (Ret (), frame p, [])"
    using tcp_send_open [OF n(1) p] by simp
  let ?net = "net\<lparr>cn_stream := rx, cn_sent := cn_sent net @ [frame p]\<rparr>"
  have "exchanged t (cur (replicate 2048 0) p) net = Some (Ret (cur (replicate 2048 0) r), ?net)"
    using False n(4) s rx(1) by (simp add: send_then_recv_def transport_send_def transport_recv_def)
  then show ?thesis using False n rx by (intro exI [of _ ?net]) (simp add: delivers_def wire_def)
qed

subsection \<open>What a reply says about the server\<close>

lemma error_packet_refused: "length sid = 16 \<Longrightarrow> t \<noteq> AUTH_PKT_ERROR \<Longrightarrow> client_open t (Some (error_packet sid seq e)) \<noteq> Ret x"
  using packet_parse [of sid AUTH_PKT_ERROR seq "error_payload e (Some (ascii (auth_strerror e)))"]
  by (cases x) (auto simp: client_open_def error_packet_def split: cres.splits)

text \<open>A SETUP_2 comes from a SETUP_1 that was accepted and now holds a slot.\<close>

lemma dispatch_packet:
  assumes "length sid = 16"
  shows "dispatch S env (packet AUTH_PKT_SETUP_1 sid seq p) out st =
      (let (r, st) = dispatch_setup1 S env sid seq p out st in (error_reply sid seq out r, st, []))"
    "dispatch S env (packet AUTH_PKT_SETUP_3 sid seq p) out st =
      (let ((r, st), ops) = dispatch_setup3 S env sid seq p out st in (error_reply sid seq out r, st, ops))"
    "dispatch S env (packet AUTH_PKT_AUTH_1 sid seq p) out st =
      (let (r, st) = try_handle_auth1 S env sid seq p out st in (error_reply sid seq out r, st, []))"
    "dispatch S env (packet AUTH_PKT_AUTH_3 sid seq p) out st =
      (let (r, st) = dispatch_auth3 S sid seq p out st in (error_reply sid seq out r, st, []))"
  using packet_parse [OF assms] by (simp_all add: dispatch_def Let_def split: prod.splits)

lemma error_reply_accepted:
  assumes "length sid = 16" and "66 \<le> length out" and "t \<noteq> AUTH_PKT_ERROR" and "client_open t (Some reply) = Ret x"
    and "error_reply sid seq out r = Ret reply"
  shows "r = Ret reply"
proof (cases r)
  case (Fail e)
  then show ?thesis using assms error_reply_eq [OF assms(1,2), of seq] error_packet_refused [OF assms(1,3), of seq _ x] by (cases e) auto
qed (use assms(5) in \<open>simp_all add: error_reply_def\<close>)

lemma with_slot_Ret:
  assumes "wf_server st" and "with_slot st k = (Ret r, st')"
  obtains i t where "k (int i) (st\<lparr>sv_sessions := t\<rparr>) = (Ret r, st')" "i < 64" "table_view (sv_sessions st) i = None" "wf_table t"
    "table_view t = (table_view (sv_sessions st))(i \<mapsto> Reserved)"
proof (rule with_slot_cases [of st k])
  show "wf_table (sv_sessions st)" using assms(1) by (simp add: wf_server_def)
qed (use assms(2) that in simp_all)

lemma setup1_answered:
  assumes wf: "wf_server st" and sid: "length sid = 16" and out: "66 \<le> length out"
    and d: "dispatch S env (packet AUTH_PKT_SETUP_1 sid seq p) out st = (Ret r1, st1, ops1)"
    and acc: "client_open AUTH_PKT_SETUP_2 (Some r1) = Ret x"
  obtains i c pend t where
    "auth_server_handle_setup1 S (de_server_nonce env) (de_setup_challenge env) (de_setup_wide env) sid seq (Some p)
       (sv_server_sk st) (sv_server_pub st) (sv_require_pairing_token st) pending_setup_zero (Some out) = (Ret c, pend)"
    "r1 = sent c" "st1 = st\<lparr>sv_sessions := t\<rparr>" "wf_table t" "i < 64" "table_view (sv_sessions st) i = None"
    "table_view t = (table_view (sv_sessions st))(i \<mapsto> In_setup pend)"
proof -
  let ?h = "auth_server_handle_setup1 S (de_server_nonce env) (de_setup_challenge env) (de_setup_wide env) sid seq (Some p)
       (sv_server_sk st) (sv_server_pub st) (sv_require_pairing_token st) pending_setup_zero (Some out)"
  have err: "error_reply sid seq out (fst (dispatch_setup1 S env sid seq p out st)) = Ret r1"
    and st1: "snd (dispatch_setup1 S env sid seq p out st) = st1"
    using d by (auto simp: dispatch_packet [OF sid] split_beta Let_def)
  have ret: "dispatch_setup1 S env sid seq p out st = (Ret r1, st1)"
    using error_reply_accepted [OF sid out _ acc err] st1 by (cases "dispatch_setup1 S env sid seq p out st") simp
  obtain r pend where h: "?h = (r, pend)" by fastforce
  show thesis
  proof (cases rule: with_slot_Ret [OF wf ret [unfolded dispatch_setup1_def], case_names slot])
    case (slot i t)
    obtain t' where t': "auth_session_table_activate_setup (Some t) (int i) (Some pend) = Ret t'" "wf_table t'"
      "table_view t' = (table_view (sv_sessions st))(i \<mapsto> In_setup pend)"
      using table.activate_setup_ok [OF slot(4,2), of pend] slot(5) by auto
    show thesis
    proof (cases r)
      case (Ret c)
      then show thesis using that [OF h [unfolded Ret], of t' i] slot h t' by simp
    qed (use slot(1) h in \<open>simp_all add: release_slot_def split: cres.splits\<close>)
  qed
qed

text \<open>An acknowledged SETUP_3 has put the pending device into the registry and into the file, and has given the slot back.\<close>

lemma setup3_acknowledged:
  assumes wf: "wf_server st" and env: "wf_env env" and sid: "length sid = 16" and out: "66 \<le> length out"
    and d: "dispatch S env (packet AUTH_PKT_SETUP_3 sid seq p) out st = (Ret r, st', ops)"
    and acc: "client_open AUTH_PKT_SETUP_ACK (Some r) = Ret x"
  obtains i pend where "table_view (sv_sessions st) i = Some (In_setup pend)" "ps_session_id pend = sid"
    "wf_registry (sv_registry st')"
    "registry_map (sv_registry st') = (registry_map (sv_registry st))(ps_device_id pend \<mapsto> (ps_device_pub pend, ps_role_commitment pend))"
    "table_view (sv_sessions st') = (table_view (sv_sessions st))(i := None)"
    "\<And>fs. fs_run ops fs (rg_path (sv_registry st)) = Some (registry_layout (sv_registry st'))"
    "rg_path (sv_registry st') = rg_path (sv_registry st)"
proof -
  have t: "wf_table (sv_sessions st)" "wf_sessions (table_view (sv_sessions st))" using wf by (simp_all add: wf_server_def)
  have reg: "wf_registry (sv_registry st)" "distinct (registry_ids (sv_registry st))" "rg_path (sv_registry st) \<noteq> []"
    "13 + 256 * 96 \<le> length (de_stack env)"
    using wf env by (simp_all add: wf_server_def wf_env_def)
  obtain r0 st0 ops0 where d3: "dispatch_setup3 S env sid seq p out st = ((r0, st0), ops0)" by (metis prod.exhaust)
  then have err: "error_reply sid seq out r0 = Ret r" and eqs': "st0 = st'" "ops0 = ops"
    using d by (simp_all add: dispatch_packet [OF sid])
  have ret: "dispatch_setup3 S env sid seq p out st = ((Ret r, st'), ops)"
    using error_reply_accepted [OF sid out _ acc err] d3 eqs' by simp
  show thesis
  proof (cases rule: find_setup_cases [OF t(1), of sid, case_names none found])
    case none
    then show thesis using ret by (simp add: dispatch_setup3_def)
  next
    case (found i pend)
    have len: "length (ps_device_id pend) = 32" "length (ps_device_pub pend) = 32" "length (ps_role_commitment pend) = 32"
      using t(2) found(3) by (auto simp: wf_sessions_def wf_pending_setup_def)
    note eqs = found(1) slot_pending_setup [OF t(1) found(3)] dispatch_setup3_def Let_def
    obtain c where h: "auth_server_handle_setup3 S pend sid seq (Some p) (Some out) = Ret c"
      using ret by (cases "auth_server_handle_setup3 S pend sid seq (Some p) (Some out)") (simp_all add: eqs)
    show thesis
    proof (rule registry.put_cases [OF reg(1) len])
      assume "auth_registry_put (Some (sv_registry st)) (Some (ps_device_id pend)) (Some (ps_device_pub pend))
            (Some (ps_role_commitment pend)) = Fail AUTH_ERR_TOO_MANY_ACTIVE"
      then show thesis using ret h by (simp add: eqs release_slot_def split: cres.splits)
    next
      fix reg' assume put: "auth_registry_put (Some (sv_registry st)) (Some (ps_device_id pend)) (Some (ps_device_pub pend))
            (Some (ps_role_commitment pend)) = Ret reg'" "wf_registry reg'"
          "registry_map reg' = (registry_map (sv_registry st))(ps_device_id pend \<mapsto> (ps_device_pub pend, ps_role_commitment pend))"
      have path: "rg_path reg' = rg_path (sv_registry st)" using registry_put_keeps [OF reg(1,2) put(1)] by simp
      obtain ops1 w where w: "auth_registry_save (de_write env) (de_stack env) (Some reg') = (ops1, w)" by fastforce
      have aw: "atomic_write (de_write env) (rg_path reg') (registry_layout reg') (length (registry_layout reg')) = (ops1, w)"
        using w registry_save_eq [OF put(2) reg(4), of "de_write env"] path reg(3) by simp
      let ?st = "st\<lparr>sv_registry := reg'\<rparr>"
      have wt: "wf_table (sv_sessions ?st)" using t(1) by simp
      let ?r = "case w of Ret _ \<Rightarrow> Ret (sent c) | Fail err \<Rightarrow> Fail (err, sent c) | Fault \<Rightarrow> Fault"
      obtain t' where t': "release_slot (int i) ?r ?st = (?r, ?st\<lparr>sv_sessions := t'\<rparr>)" "wf_table t'"
        "table_view t' = (table_view (sv_sessions ?st))(i := None)" by (rule release_slot_eq [OF wt found(2)])
      have fin: "?r = Ret r" "st' = ?st\<lparr>sv_sessions := t'\<rparr>" "ops = ops1" using ret h put(1) w t'(1) by (simp_all add: eqs)
      have "w = Ret ()" using fin(1) by (cases w) simp_all
      then have "fs_run ops fs (rg_path reg') = Some (registry_layout reg')" for fs
        using fin(3) by (cases rule: atomic_write_cases [OF aw, of fs, case_names ok err]) auto
      then show thesis using that [OF found(3,4)] put fin(2) t'(3) path by simp
    qed
  qed
qed

subsection \<open>The steps of a successful client run\<close>

lemma do_setup_Ret:
  assumes "do_setup S rio wio rnd a t fs net = Some (Ret (), ops, net')"
  obtains creds ctx0 c1 ctx1 d2 net1 ctx2 c3 ctx3 d4 where
    "load_or_fresh rio (sr_root rnd) fs (cred_path a) = Ret creds" "setup_ctx S (sr_session rnd) creds (ar_role a) = Ret ctx0"
    "auth_client_build_setup1 S (sr_nonce rnd) (sr_blind rnd) ctx0 (map_option ascii (ar_pairing_token a))
       (length (token_bytes (map_option ascii (ar_pairing_token a)))) (Some (replicate 2048 0)) = (Ret c1, ctx1)"
    "exchanged t c1 net = Some (Ret d2, net1)"
    "auth_client_handle_setup2 S ctx1 (Some (sent d2)) (ar_allow_tofu a) = (Ret (), ctx2)"
    "auth_client_build_setup3 S (sr_client rnd) ctx2 (Some (replicate 2048 0)) = (Ret c3, ctx3)"
    "exchanged t c3 net1 = Some (Ret d4, net')"
    "auth_client_handle_setup_ack ctx3 (Some (sent d4)) = (Ret (), ctx3)"
    "auth_creds_save wio (Some (enrolled_creds creds ctx3)) (Some (cred_path a)) = (ops, Ret ())"
proof -
  let ?tok = "map_option ascii (ar_pairing_token a)"
  obtain creds ctx0 where s: "load_or_fresh rio (sr_root rnd) fs (cred_path a) = Ret creds"
    "setup_ctx S (sr_session rnd) creds (ar_role a) = Ret ctx0"
    using assms by (auto simp: do_setup_def exit_on_Ret_iff Let_def cred_path_def)
  obtain r1 ctx1 where b1: "auth_client_build_setup1 S (sr_nonce rnd) (sr_blind rnd) ctx0 ?tok (length (token_bytes ?tok)) (Some (replicate 2048 0)) = (r1, ctx1)"
    by fastforce
  note run = do_setup_def [of S rio wio rnd a t fs net, folded cred_path_def, unfolded Let_def token_length]
  note run1 = assms [unfolded run s exit_on_simps b1 split_conv exit_on_Ret_iff exchange_Ret_iff]
  then obtain c1 d2 net1 where c1: "r1 = Ret c1" "exchanged t c1 net = Some (Ret d2, net1)" by blast
  obtain r2 ctx2 where h2: "auth_client_handle_setup2 S ctx1 (Some (sent d2)) (ar_allow_tofu a) = (r2, ctx2)" by fastforce
  have r2: "r2 = Ret ()" and run2: "finish_setup S wio (sr_client rnd) (cred_path a) t creds ctx2 net1 = Some (Ret (), ops, net')"
    using run1 c1 h2 by (auto simp: exit_on_Ret_iff)
  obtain r3 ctx3 where b3: "auth_client_build_setup3 S (sr_client rnd) ctx2 (Some (replicate 2048 0)) = (r3, ctx3)" by fastforce
  note run3 = run2 [unfolded finish_setup_def b3 Let_def split_conv exit_on_Ret_iff exchange_Ret_iff]
  then obtain c3 d4 net2 where c3: "r3 = Ret c3" "exchanged t c3 net1 = Some (Ret d4, net2)" by blast
  obtain r4 where h4: "auth_client_handle_setup_ack ctx3 (Some (sent d4)) = (r4, ctx3)"
    using setup_ack_ctx [of ctx3 "Some (sent d4)"] by (metis prod.collapse)
  obtain sops r5 where sv: "auth_creds_save wio (Some (enrolled_creds creds ctx3)) (Some (cred_path a)) = (sops, r5)" by fastforce
  have "r4 = Ret ()" "(case r5 of Fault \<Rightarrow> Fault | Fail e \<Rightarrow> Fail 1 | Ret _ \<Rightarrow> Ret ()) = (Ret () :: (int, unit) cres)" "sops = ops" "net2 = net'"
    using run3 c3 h4 sv by (auto simp: exit_on_Ret_iff)
  moreover from this have "r5 = Ret ()" by (cases r5) simp_all
  ultimately show thesis using that [OF s b1 [unfolded c1(1)] c1(2) h2 [unfolded r2] b3 [unfolded c3(1)]] c3(2) h4 sv by simp
qed

lemma creds_saved:
  assumes "wf_creds c" and "creds_norm c = c" and "auth_creds_save wio (Some c) (Some path) = (ops, Ret ())"
  shows "fs_run ops fs path = Some (creds_layout c)"
proof -
  have w: "atomic_write wio path (creds_layout c) (length (creds_layout c)) = (ops, Ret ())"
    using assms by (simp add: creds_save_eq)
  show ?thesis by (cases rule: atomic_write_cases [OF w, of fs, case_names ok err]) auto
qed

text \<open>What the client sends in an enrolment, and which messages it has accepted.\<close>

lemma setup_run_sent:
  assumes R: "ristretto255 S enc" and rnd: "wf_setup_random rnd" and net: "delivers t net [r1, r2]" "cn_sent net = []"
    and len: "length r1 \<le> 2048" "length r2 \<le> 2048"
    and run: "do_setup S rio wio rnd a t fs net = Some (Ret (), ops, net')"
  obtains creds dpub s1 ctx2 p3 where "wf_creds creds" "load_or_fresh rio (sr_root rnd) fs (cred_path a) = Ret creds"
    "auth_scalarmult_base S (auth_derive_device_scalar S (cr_device_root creds)) = Ret dpub"
    "wf_setup1 s1" "setup1_norm s1 = s1" "s1_device_id s1 = auth_derive_device_id S (cr_device_root creds)" "s1_device_pub s1 = dpub"
    "s1_role_commitment s1 = cc_role_commitment ctx2"
    "cn_sent net' = [wire t (packet AUTH_PKT_SETUP_1 (sr_session rnd) 1 (setup1_layout s1)), wire t (packet AUTH_PKT_SETUP_3 (sr_session rnd) 2 p3)]"
    "\<exists>x. client_open AUTH_PKT_SETUP_2 (Some r1) = Ret x" "\<exists>x. client_open AUTH_PKT_SETUP_ACK (Some r2) = Ret x"
    "\<forall>h s2. r1 = header_layout h @ setup2_layout s2 \<longrightarrow> wf_header h \<longrightarrow> wf_setup2 s2 \<longrightarrow> cc_server_pub_pinned ctx2 = s2_server_pub s2"
    "wf_creds (enrolled_creds creds ctx2)" "fs_run ops fs (cred_path a) = Some (creds_layout (enrolled_creds creds ctx2))"
proof -
  let ?buf = "replicate 2048 0"
  have rl: "length (sr_root rnd) = 32" "length (sr_session rnd) = 16" "length (sr_nonce rnd) = 32" "length (sr_blind rnd) = 64"
    "length (sr_client rnd) = 64" using rnd by (simp_all add: wf_setup_random_def)
  obtain creds ctx0 c1 ctx1 d2 net1 ctx2 c3 ctx3 d4 where
    creds: "load_or_fresh rio (sr_root rnd) fs (cred_path a) = Ret creds" and ctx0: "setup_ctx S (sr_session rnd) creds (ar_role a) = Ret ctx0"
    and b1: "auth_client_build_setup1 S (sr_nonce rnd) (sr_blind rnd) ctx0 (map_option ascii (ar_pairing_token a))
       (length (token_bytes (map_option ascii (ar_pairing_token a)))) (Some ?buf) = (Ret c1, ctx1)"
    and e1: "exchanged t c1 net = Some (Ret d2, net1)"
    and h2: "auth_client_handle_setup2 S ctx1 (Some (sent d2)) (ar_allow_tofu a) = (Ret (), ctx2)"
    and b3: "auth_client_build_setup3 S (sr_client rnd) ctx2 (Some ?buf) = (Ret c3, ctx3)"
    and e3: "exchanged t c3 net1 = Some (Ret d4, net')"
    and h4: "auth_client_handle_setup_ack ctx3 (Some (sent d4)) = (Ret (), ctx3)"
    and sv: "auth_creds_save wio (Some (enrolled_creds creds ctx3)) (Some (cred_path a)) = (ops, Ret ())"
    by (rule do_setup_Ret [OF run])
  have wfc: "wf_creds creds" by (cases rule: load_or_fresh_cases [OF rl(1), of rio fs "cred_path a"]) (use creds in simp_all)
  obtain wf0: "wf_client ctx0" and dpub: "auth_scalarmult_base S (auth_derive_device_scalar S (cr_device_root creds)) = Ret (cc_device_pub ctx0)"
    and id0: "cc_device_id ctx0 = auth_derive_device_id S (cr_device_root creds)" "cc_session_id ctx0 = sr_session rnd" "cc_seq ctx0 = 0"
    by (cases rule: setup_ctx_cases [OF R wfc rl(2), of "ar_role a"]) (use ctx0 in auto)
  show thesis
  proof (cases rule: build_setup1_cases [OF R wf0 rl(3,4), of "map_option ascii (ar_pairing_token a)", case_names fail sent1])
    case (sent1 ctx1')
    let ?s1 = "setup1_msg ctx1' (token_bytes (map_option ascii (ar_pairing_token a)))"
    let ?p1 = "packet AUTH_PKT_SETUP_1 (sr_session rnd) 1 (setup1_layout ?s1)"
    have c1: "c1 = cur ?buf ?p1" "ctx1 = ctx1'\<lparr>cc_seq := 1\<rparr>" using b1 sent1(4) id0 by simp_all
    note f = setup1_role_fields [OF sent1(2)]
    have wf1: "wf_client ctx1" using sent1(3) by (simp add: c1(2) wf_client_def)
    have wfs1: "wf_setup1 ?s1" "setup1_norm ?s1 = ?s1" "length ?p1 \<le> 2048"
      using wf_setup1_msg [OF sent1(3,1)] sent1(1) rl(2) by simp_all
    obtain net1' where x1: "exchanged t (cur ?buf ?p1) net = Some (Ret (cur ?buf r1), net1')" "delivers t net1' [r2]" "cn_sent net1' = [wire t ?p1]"
      using exchange_delivered [OF net(1) wfs1(3) len(1)] net(2) by auto
    then have n1: "net1' = net1" "sent d2 = r1" using e1 c1(1) len(1) by auto
    have h2': "auth_client_handle_setup2 S ctx1 (Some r1) (ar_allow_tofu a) = (Ret (), ctx2)" using h2 n1(2) by simp
    have wf2: "wf_client ctx2" using wf_handle_setup2 [OF wf1, of S "Some r1" "ar_allow_tofu a"] h2' by simp
    obtain h s2 where s2: "r1 = header_layout h @ setup2_layout s2" "wf_setup2 s2" 
      "ctx2 = (tofu_pin ctx1 s2)\<lparr>cc_pending_server_pub := s2_server_pub s2, cc_pending_server_nonce := s2_server_nonce s2,
         cc_pending_setup_challenge := s2_setup_challenge s2\<rparr>"
      "cc_has_pinned_server ctx1 \<and> cc_server_pub_pinned ctx1 = s2_server_pub s2 \<or> \<not> cc_has_pinned_server ctx1 \<and> ar_allow_tofu a"
      "hdr_session_id h = cc_session_id ctx1"
      by (rule handle_setup2_Ret [OF h2'])
    have wfh: "wf_header h" using s2(5) wf1 by (simp add: wf_header_def wf_client_def)
    have op2: "\<exists>x. client_open AUTH_PKT_SETUP_2 (Some r1) = Ret x"
      using h2' by (cases "client_open AUTH_PKT_SETUP_2 (Some r1)") (auto simp: auth_client_handle_setup2_def)
    have pin: "cc_server_pub_pinned ctx2 = s2_server_pub s2" using s2(3,4) by (auto simp: tofu_pin_def)
    have keep: "cc_session_id ctx2 = sr_session rnd" "cc_seq ctx2 = 1" "cc_role_commitment ctx2 = cc_role_commitment ctx1'"
      using s2(3) f(7) id0(2) by (simp_all add: tofu_pin_def c1(2))
    show thesis
    proof (cases rule: build_setup3_cases [OF R wf2 rl(5), case_names fail sent3])
      case (sent3 cp)
      let ?p3 = "setup3_layout \<lparr>s3_client_proof = cp\<rparr>"
      have c3: "c3 = cur ?buf (packet AUTH_PKT_SETUP_3 (sr_session rnd) 2 ?p3)" "ctx3 = ctx2\<lparr>cc_seq := 2\<rparr>"
        using b3 sent3(3) keep by simp_all
      have l3: "length (packet AUTH_PKT_SETUP_3 (sr_session rnd) 2 ?p3) \<le> 2048"
        using length_setup3_layout [of "\<lparr>s3_client_proof = cp\<rparr>"] sent3(2) rl(2) by (simp add: wf_setup3_def)
      obtain net2 where x3: "exchanged t (cur ?buf (packet AUTH_PKT_SETUP_3 (sr_session rnd) 2 ?p3)) net1 = Some (Ret (cur ?buf r2), net2)"
        "cn_sent net2 = cn_sent net1 @ [wire t (packet AUTH_PKT_SETUP_3 (sr_session rnd) 2 ?p3)]"
        using exchange_delivered [OF x1(2) [unfolded n1(1)] l3 len(2)] by auto
      then have n2: "net2 = net'" "sent d4 = r2" using e3 c3(1) len(2) by auto
      have op4: "\<exists>x. client_open AUTH_PKT_SETUP_ACK (Some r2) = Ret x"
        using h4 n2(2) by (cases "client_open AUTH_PKT_SETUP_ACK (Some r2)") (auto simp: auth_client_handle_setup_ack_def)
      have same: "enrolled_creds creds ctx3 = enrolled_creds creds ctx2" by (simp add: c3(2) enrolled_creds_def)
      note wfe = wf_enrolled_creds [OF wfc wf2]
      show thesis
      proof (rule that [OF wfc creds dpub wfs1(1,2), of ctx2 ?p3])
        show "\<forall>h s2. r1 = header_layout h @ setup2_layout s2 \<longrightarrow> wf_header h \<longrightarrow> wf_setup2 s2 \<longrightarrow> cc_server_pub_pinned ctx2 = s2_server_pub s2"
          using s2(1,2) pin setup2.layout_inj [of s2] header_layout_inj [OF wfh] by auto
      qed (use f id0 keep(3) x1(3) x3(2) n1(1) n2(1) op2 op4 wfe creds_saved [OF wfe sv [unfolded same]] in \<open>simp_all add: setup1_msg_def\<close>)
    qed (use b3 in simp)
  qed (use b1 in simp)
qed

subsection \<open>Enrolment\<close>

text \<open>What both sides hold after a successful enrolment.\<close>

lemma enrolment_outcome:
  assumes R: "ristretto255 S enc" and rnd: "wf_setup_random rnd" and st: "wf_server st" and env: "wf_env env1" "wf_env env2"
    and net: "delivers t net [r1, r2]" "cn_sent net = []"
    and run: "do_setup S rio wio rnd a t fs net = Some (Ret (), ops, net')"
    and sent: "cn_sent net' = [wire t p1, wire t p2]"
    and d1: "dispatch S env1 p1 (replicate AUTH_MAX_DATAGRAM 0) st = (Ret r1, st1, sops1)"
    and d2: "dispatch S env2 p2 (replicate AUTH_MAX_DATAGRAM 0) st1 = (Ret r2, st2, sops2)"
    and fresh: "\<forall>i p. table_view (sv_sessions st) i = Some (In_setup p) \<longrightarrow> ps_session_id p \<noteq> sr_session rnd"
  shows "\<exists>creds dpub. fs_run ops fs (cred_path a) = Some (creds_layout creds) \<and> wf_creds creds \<and>
    cr_has_pinned_server creds \<and> cr_server_pub_pinned creds = sv_server_pub st \<and>
    auth_scalarmult_base S (auth_derive_device_scalar S (cr_device_root creds)) = Ret dpub \<and>
    auth_registry_get (Some (sv_registry st2)) (Some (auth_derive_device_id S (cr_device_root creds))) =
      Ret (dpub, cr_role_commitment creds) \<and>
    fs_run sops2 sfs (rg_path (sv_registry st)) = Some (registry_layout (sv_registry st2)) \<and>
    table_view (sv_sessions st2) = table_view (sv_sessions st)"
proof -
  have len: "length r1 \<le> 2048" "length r2 \<le> 2048" using dispatch_reply_fits [OF d1] dispatch_reply_fits [OF d2] by simp_all
  have sid: "length (sr_session rnd) = 16" using rnd by (simp add: wf_setup_random_def)
  obtain creds dpub s1 ctx2 p3 where c: "wf_creds creds" and "load_or_fresh rio (sr_root rnd) fs (cred_path a) = Ret creds" and c':
    "auth_scalarmult_base S (auth_derive_device_scalar S (cr_device_root creds)) = Ret dpub"
    "wf_setup1 s1" "setup1_norm s1 = s1" "s1_device_id s1 = auth_derive_device_id S (cr_device_root creds)" "s1_device_pub s1 = dpub"
    "s1_role_commitment s1 = cc_role_commitment ctx2"
    "cn_sent net' = [wire t (packet AUTH_PKT_SETUP_1 (sr_session rnd) 1 (setup1_layout s1)), wire t (packet AUTH_PKT_SETUP_3 (sr_session rnd) 2 p3)]"
    and op: "\<exists>x. client_open AUTH_PKT_SETUP_2 (Some r1) = Ret x" "\<exists>x. client_open AUTH_PKT_SETUP_ACK (Some r2) = Ret x"
    and pin: "\<forall>h s2. r1 = header_layout h @ setup2_layout s2 \<longrightarrow> wf_header h \<longrightarrow> wf_setup2 s2 \<longrightarrow> cc_server_pub_pinned ctx2 = s2_server_pub s2"
    and e: "wf_creds (enrolled_creds creds ctx2)" "fs_run ops fs (cred_path a) = Some (creds_layout (enrolled_creds creds ctx2))"
    by (rule setup_run_sent [OF R rnd net len run])
  have p: "p1 = packet AUTH_PKT_SETUP_1 (sr_session rnd) 1 (setup1_layout s1)" "p2 = packet AUTH_PKT_SETUP_3 (sr_session rnd) 2 p3"
    using sent c'(7) by simp_all
  obtain i c2 pend tab where a1: "auth_server_handle_setup1 S (de_server_nonce env1) (de_setup_challenge env1) (de_setup_wide env1) (sr_session rnd) 1
       (Some (setup1_layout s1)) (sv_server_sk st) (sv_server_pub st) (sv_require_pairing_token st) pending_setup_zero (Some (replicate 2048 0)) = (Ret c2, pend)"
    "r1 = ClientProto.sent c2" "st1 = st\<lparr>sv_sessions := tab\<rparr>" "table_view (sv_sessions st) i = None"
    "table_view tab = (table_view (sv_sessions st))(i \<mapsto> In_setup pend)"
    using op(1) by (elim exE) (rule setup1_answered [OF st sid _ d1 [unfolded p(1)]], simp_all)
  have lens: "length (sv_server_sk st) = 32" "length (sv_server_pub st) = 32" "length (de_server_nonce env1) = 32"
    "length (de_setup_challenge env1) = 16" "length (de_setup_wide env1) = 64"
    using st env(1) by (simp_all add: wf_server_def wf_env_def)
  obtain sp where sp: "wf_proof sp" "r1 = packet AUTH_PKT_SETUP_2 (sr_session rnd) 1
      (setup2_layout (setup2_msg (de_server_nonce env1) (de_setup_challenge env1) (sv_server_pub st) sp))"
    and pd: "ps_device_id pend = s1_device_id s1" "ps_device_pub pend = s1_device_pub s1" "ps_role_commitment pend = s1_role_commitment s1"
    using server_setup1_Ret [OF R sid lens c'(2,3) a1(1)] a1(2) by metis
  have key: "cc_server_pub_pinned ctx2 = sv_server_pub st"
    using pin [rule_format, OF sp(2)] sid sp(1) lens by (simp add: setup2_msg_def wf_setup2_def wf_header_def)
  have st1: "wf_server st1" using dispatch_steps [OF R st env(1) d1] by simp
  obtain j pend' where a2: "table_view (sv_sessions st1) j = Some (In_setup pend')" "ps_session_id pend' = sr_session rnd"
    "wf_registry (sv_registry st2)"
    "registry_map (sv_registry st2) = (registry_map (sv_registry st1))(ps_device_id pend' \<mapsto> (ps_device_pub pend', ps_role_commitment pend'))"
    "table_view (sv_sessions st2) = (table_view (sv_sessions st1))(j := None)"
    "\<And>fs. fs_run sops2 fs (rg_path (sv_registry st1)) = Some (registry_layout (sv_registry st2))"
    using op(2) by (elim exE) (rule setup3_acknowledged [OF st1 env(2) sid _ d2 [unfolded p(2)]], simp_all)
  have j: "j = i" "pend' = pend" using a2(1,2) a1(3,5) fresh by (auto split: if_splits)
  have "auth_registry_get (Some (sv_registry st2)) (Some (auth_derive_device_id S (cr_device_root creds))) = Ret (dpub, cc_role_commitment ctx2)"
    using registry.get_eq [OF a2(3)] a2(4) j pd c'(4-6) by simp
  moreover have "table_view (sv_sessions st2) = table_view (sv_sessions st)" using a2(5) a1(3-5) j by (simp add: fun_upd_idem)
  ultimately show ?thesis
    using e c'(1) key a2(6) a1(3)
    by (intro exI [of _ "enrolled_creds creds ctx2"] exI [of _ dpub]) (simp add: enrolled_creds_def)
qed

text \<open>C6: An enrolment that succeeds on the device has succeeded on the server. When the client program exits with 0 and
  what it received, over UDP or TCP, is what the server replied to the two packets it sent, then the server's registry,
  in memory and in its file, maps the device's identity to the device's public key and to the very role commitment that
  is in the client's credential file; the credential file pins the server's key; and the session slot is free again.\<close>

theorem enrolment_agrees:
  assumes R: "ristretto255 S enc" and rnd: "wf_setup_random rnd" and st: "wf_server st" and env: "wf_env env1" "wf_env env2"
    and net: "delivers t net [r1, r2]" "cn_sent net = []"
    and run: "do_setup S rio wio rnd a t fs net = Some (Ret (), ops, net')"
    and sent: "cn_sent net' = [wire t p1, wire t p2]"
    and d1: "dispatch S env1 p1 (replicate AUTH_MAX_DATAGRAM 0) st = (Ret r1, st1, sops1)"
    and d2: "dispatch S env2 p2 (replicate AUTH_MAX_DATAGRAM 0) st1 = (Ret r2, st2, sops2)"
    and fresh: "\<forall>i p. table_view (sv_sessions st) i = Some (In_setup p) \<longrightarrow> ps_session_id p \<noteq> sr_session rnd"
  shows "\<exists>creds dpub. fs_run ops fs (cred_path a) = Some (creds_layout creds) \<and> wf_creds creds \<and>
    cr_has_pinned_server creds \<and> cr_server_pub_pinned creds = sv_server_pub st \<and>
    auth_scalarmult_base S (auth_derive_device_scalar S (cr_device_root creds)) = Ret dpub \<and>
    auth_registry_get (Some (sv_registry st2)) (Some (auth_derive_device_id S (cr_device_root creds))) =
      Ret (dpub, cr_role_commitment creds) \<and>
    fs_run sops2 sfs (rg_path (sv_registry st)) = Some (registry_layout (sv_registry st2)) \<and>
    table_view (sv_sessions st2) = table_view (sv_sessions st)"
  using enrolment_outcome [OF assms] .

text \<open>C10: An enrolment leads to authentication. When the client program exits with 0 and what it received is what the server
  replied to the two packets it sent, then the credentials that a later run loads from the file give a client context that
  satisfies what the authentication handshake needs of its client - the device's key pair, the server's key pinned, an
  opening of the role commitment - and the server's registry maps this context's device id to exactly this context's
  public key and role commitment. A device that already has a role keeps it; its stored role must be one it can open (the
  blinding is a scalar and gives the stored commitment). A device without a role gets the requested one.\<close>

theorem enrolment_enables_auth:
  assumes R: "ristretto255 S enc" and rnd: "wf_setup_random rnd" and st: "wf_server st" and env: "wf_env env1" "wf_env env2"
    and net: "delivers t net [r1, r2]" "cn_sent net = []"
    and run: "do_setup S rio wio rnd a t fs net = Some (Ret (), ops, net')"
    and sent: "cn_sent net' = [wire t p1, wire t p2]"
    and d1: "dispatch S env1 p1 (replicate AUTH_MAX_DATAGRAM 0) st = (Ret r1, st1, sops1)"
    and d2: "dispatch S env2 p2 (replicate AUTH_MAX_DATAGRAM 0) st1 = (Ret r2, st2, sops2)"
    and fresh: "\<forall>i p. table_view (sv_sessions st) i = Some (In_setup p) \<longrightarrow> ps_session_id p \<noteq> sr_session rnd"
    and creds: "load_or_fresh rio (sr_root rnd) fs (cred_path a) = Ret creds" "cr_has_role creds \<longrightarrow> role_opens S creds"
    and load: "auth_creds_load rio' (fs_run ops fs) (Some (cred_path a)) = Ret creds'" and sid: "length random16 = 16"
  shows "\<exists>ctx. auth_ctx S random16 creds' = Ret ctx \<and> enrolled_client S ctx (sv_server_pub st) \<and>
    cc_role_code ctx = (if cr_has_role creds then cr_role_code creds else if ar_role a = 0 then 1 else ar_role a) \<and>
    auth_registry_get (Some (sv_registry st2)) (Some (cc_device_id ctx)) = Ret (cc_device_pub ctx, cc_role_commitment ctx)"
proof -
  obtain c dpub where c: "fs_run ops fs (cred_path a) = Some (creds_layout c)" "wf_creds c" "cr_server_pub_pinned c = sv_server_pub st"
    "auth_scalarmult_base S (auth_derive_device_scalar S (cr_device_root c)) = Ret dpub"
    "auth_registry_get (Some (sv_registry st2)) (Some (auth_derive_device_id S (cr_device_root c))) = Ret (dpub, cr_role_commitment c)"
    using enrolment_outcome [OF R rnd st env net run sent d1 d2 fresh] by blast
  have "creds' = c" using loads_saved [OF c(2,1) load] .
  then show ?thesis using saved_creds_enrolled [OF R rnd sid run creds(1) _ load] creds(2) c(3-5) by auto
qed

text \<open>The other direction, for the concrete run: an accepted SETUP_1 and an accepted SETUP_3 are answered.\<close>

lemma setup1_opens:
  assumes wf: "wf_server st" and sid: "length sid = 16" and free: "i < 64" "table_view (sv_sessions st) i = None"
    and h: "auth_server_handle_setup1 S (de_server_nonce env) (de_setup_challenge env) (de_setup_wide env) sid seq (Some p)
       (sv_server_sk st) (sv_server_pub st) (sv_require_pairing_token st) pending_setup_zero (Some out) = (Ret c, pend)"
  shows "\<exists>j t. dispatch S env (packet AUTH_PKT_SETUP_1 sid seq p) out st = (Ret (sent c), st\<lparr>sv_sessions := t\<rparr>, []) \<and>
    table_view t = (table_view (sv_sessions st))(j \<mapsto> In_setup pend)"
proof -
  have tb: "wf_table (sv_sessions st)" using wf by (simp add: wf_server_def)
  show ?thesis
  proof (cases rule: table.reserve_cases [OF tb, case_names full slot])
    case full
    then show ?thesis using free by blast
  next
    case (slot j t)
    obtain t' where "auth_session_table_activate_setup (Some t) (int j) (Some pend) = Ret t'"
      "table_view t' = (table_view (sv_sessions st))(j \<mapsto> In_setup pend)"
      using table.activate_setup_ok [OF slot(4,2), of pend] slot(5) by auto
    then show ?thesis
      using slot(1) h
      by (intro exI [of _ j] exI [of _ t']) (simp add: dispatch_packet [OF sid] dispatch_setup1_def with_slot_def error_reply_def)
  qed
qed

lemma setup3_enrols:
  assumes wf: "wf_server st" and env: "wf_env env" "de_write env = good_write" and sid: "length sid = 16"
    and only: "\<And>j q. table_view (sv_sessions st) j = Some (In_setup q) \<Longrightarrow> ps_session_id q = sid \<Longrightarrow> q = pend" and here: "table_view (sv_sessions st) i = Some (In_setup pend)"
    and room: "rg_n (sv_registry st) < 256" and path: "length (rg_path (sv_registry st)) < 508" and s: "ps_session_id pend = sid"
    and h: "auth_server_handle_setup3 S pend sid seq (Some p) (Some out) = Ret c"
  shows "\<exists>st' ops. dispatch S env (packet AUTH_PKT_SETUP_3 sid seq p) out st = (Ret (sent c), st', ops) \<and>
    wf_registry (sv_registry st') \<and>
    registry_map (sv_registry st') = (registry_map (sv_registry st))(ps_device_id pend \<mapsto> (ps_device_pub pend, ps_role_commitment pend))"
proof -
  have t: "wf_table (sv_sessions st)" "wf_sessions (table_view (sv_sessions st))" using wf by (simp_all add: wf_server_def)
  have reg: "wf_registry (sv_registry st)" "distinct (registry_ids (sv_registry st))" "rg_path (sv_registry st) \<noteq> []"
    "13 + 256 * 96 \<le> length (de_stack env)"
    using wf env by (simp_all add: wf_server_def wf_env_def)
  show ?thesis
  proof (cases rule: find_setup_cases [OF t(1), of sid, case_names none found])
    case none
    have "i < 64" using here table.view_dom [OF t(1)] by blast
    then show ?thesis
      using none here s table.find_setup_eq [OF t(1), of sid]
      by (cases rule: first_slot_cases [of 64 "\<lambda>i. setup_of sid (table_view (sv_sessions st) i)"]) (auto simp: setup_of_def)
  next
    case (found j q)
    have q: "q = pend" using only [OF found(3,4)] .
    have len: "length (ps_device_id pend) = 32" "length (ps_device_pub pend) = 32" "length (ps_role_commitment pend) = 32"
      using t(2) found(3) q by (auto simp: wf_sessions_def wf_pending_setup_def)
    note eqs = found(1) slot_pending_setup [OF t(1) found(3)] dispatch_setup3_def Let_def
    obtain reg' where put: "auth_registry_put (Some (sv_registry st)) (Some (ps_device_id pend)) (Some (ps_device_pub pend))
        (Some (ps_role_commitment pend)) = Ret reg'" "wf_registry reg'"
      "registry_map reg' = (registry_map (sv_registry st))(ps_device_id pend \<mapsto> (ps_device_pub pend, ps_role_commitment pend))"
      using registry.put_ok [OF reg(1) _ len] room by blast
    have pth: "length (rg_path reg') < 508" "rg_path reg' \<noteq> []" using registry_put_keeps [OF reg(1,2) put(1)] path reg(3) by simp_all
    have "snd (auth_registry_save (de_write env) (de_stack env) (Some reg')) = Ret ()"
      using registry_save_eq [OF put(2) reg(4), of "de_write env"] good_write_Ret [OF pth(1), of "registry_layout reg'"] pth(2) env(2) by simp
    then obtain ops where w: "auth_registry_save (de_write env) (de_stack env) (Some reg') = (ops, Ret ())" by (metis prod.collapse)
    let ?st = "st\<lparr>sv_registry := reg'\<rparr>"
    have wt: "wf_table (sv_sessions ?st)" using t(1) by simp
    obtain t' where "release_slot (int j) (Ret (sent c)) ?st = (Ret (sent c), ?st\<lparr>sv_sessions := t'\<rparr>)"
      by (rule release_slot_eq [OF wt found(2)])
    then show ?thesis using h put w q by (simp add: dispatch_packet [OF sid] eqs error_reply_def)
  qed
qed

subsection \<open>An undisturbed enrolment completes\<close>

text \<open>An honest server that can take the device: its key pair, a free slot, room in the registry and a file it can write.\<close>

definition server_ready :: "sodium \<Rightarrow> server_state \<Rightarrow> dispatch_env \<Rightarrow> bool" where
  "server_ready S st env \<longleftrightarrow> wf_server st \<and> canonical (sv_server_sk st) \<and>
     auth_scalarmult_base S (sv_server_sk st) = Ret (sv_server_pub st) \<and> (\<exists>i < 64. table_view (sv_sessions st) i = None) \<and>
     rg_n (sv_registry st) < 256 \<and> length (rg_path (sv_registry st)) < 508 \<and> de_write env = good_write"

text \<open>A device that can enrol with the server: its key, the role it has or asks for, the pairing token and its trust in the
  server's key.\<close>

definition device_ready :: "sodium \<Rightarrow> setup_random \<Rightarrow> args \<Rightarrow> auth_credentials \<Rightarrow> byte list \<Rightarrow> server_state \<Rightarrow> bool" where
  "device_ready S rnd a creds dpub st \<longleftrightarrow>
     auth_scalarmult_base S (auth_derive_device_scalar S (cr_device_root creds)) = Ret dpub \<and>
     (if cr_has_role creds then role_opens S creds
      else \<exists>rc. auth_make_role_commitment S (if ar_role a = 0 then 1 else ar_role a) (auth_random_scalar S (sr_blind rnd)) = Ret rc) \<and>
     length (token_bytes (map_option ascii (ar_pairing_token a))) \<le> 128 \<and>
     (\<forall>tok. sv_require_pairing_token st = Some tok \<longrightarrow> token_bytes (map_option ascii (ar_pairing_token a)) = tok) \<and>
     (cr_has_pinned_server creds \<and> cr_server_pub_pinned creds = sv_server_pub st \<or> \<not> cr_has_pinned_server creds \<and> ar_allow_tofu a) \<and>
     length (cred_path a) < 508"

text \<open>The random bytes of the two provers give a nonzero nonce, and the two proofs do not vanish. This fails with negligible
  probability, and the verifiers refuse such proofs.\<close>

definition proofs_live :: "sodium \<Rightarrow> setup_random \<Rightarrow> dispatch_env \<Rightarrow> server_state \<Rightarrow> byte list \<Rightarrow> byte list \<Rightarrow> byte list \<Rightarrow> bool" where
  "proofs_live S rnd env st root did dpub \<longleftrightarrow>
     le_int (de_setup_wide env) mod group_order \<noteq> 0 \<and> le_int (sr_client rnd) mod group_order \<noteq> 0 \<and>
     (\<forall>sp. auth_prove_setup_server S (de_setup_wide env) (sv_server_sk st) did dpub (sv_server_pub st) (sr_nonce rnd)
          (de_server_nonce env) (de_setup_challenge env) = Ret sp \<longrightarrow>
        schnorr_nonzero S (tr_setup_server did dpub (sv_server_pub st) (prf_a sp) (sr_nonce rnd) (de_server_nonce env) (de_setup_challenge env))
          (sv_server_sk st) sp) \<and>
     (\<forall>cp. auth_prove_setup_client S (sr_client rnd) (auth_derive_device_scalar S root) did dpub (sv_server_pub st) (sr_nonce rnd)
          (de_server_nonce env) (de_setup_challenge env) = Ret cp \<longrightarrow>
        schnorr_nonzero S (tr_setup_client did dpub (sv_server_pub st) (prf_a cp) (sr_nonce rnd) (de_server_nonce env) (de_setup_challenge env))
          (auth_derive_device_scalar S root) cp)"

text \<open>The client's first packet.\<close>

lemma device_starts:
  assumes R: "ristretto255 S enc" and rnd: "wf_setup_random rnd" and wfc: "wf_creds creds" and dev: "device_ready S rnd a creds dpub st"
  obtains ctx0 ctx1 s1 where "setup_ctx S (sr_session rnd) creds (ar_role a) = Ret ctx0"
    "auth_client_build_setup1 S (sr_nonce rnd) (sr_blind rnd) ctx0 (map_option ascii (ar_pairing_token a))
       (length (token_bytes (map_option ascii (ar_pairing_token a)))) (Some (replicate 2048 0)) =
       (Ret (cur (replicate 2048 0) (packet AUTH_PKT_SETUP_1 (sr_session rnd) 1 (setup1_layout s1))), ctx1)"
    "length (packet AUTH_PKT_SETUP_1 (sr_session rnd) 1 (setup1_layout s1)) \<le> 2048"
    "wf_setup1 s1" "setup1_norm s1 = s1" "wf_client ctx1" "pairing_token_ok (sv_require_pairing_token st) s1"
    "s1_device_id s1 = auth_derive_device_id S (cr_device_root creds)" "s1_device_pub s1 = dpub" "s1_client_nonce s1 = sr_nonce rnd"
    "check_point_or_identity S (s1_role_commitment s1) = Ret ()"
    "cc_session_id ctx1 = sr_session rnd" "cc_seq ctx1 = 1" "cc_client_nonce ctx1 = sr_nonce rnd"
    "cc_device_id ctx1 = auth_derive_device_id S (cr_device_root creds)" "cc_device_pub ctx1 = dpub"
    "cc_device_sk ctx1 = auth_derive_device_scalar S (cr_device_root creds)"
    "cc_has_pinned_server ctx1 = cr_has_pinned_server creds" "cc_server_pub_pinned ctx1 = cr_server_pub_pinned creds"
proof -
  let ?tok = "map_option ascii (ar_pairing_token a)"
  have len: "length (sr_session rnd) = 16" "length (sr_nonce rnd) = 32" "length (sr_blind rnd) = 64"
    using rnd by (simp_all add: wf_setup_random_def)
  have d: "auth_scalarmult_base S (auth_derive_device_scalar S (cr_device_root creds)) = Ret dpub"
    "length (token_bytes ?tok) \<le> 128" "\<And>tok. sv_require_pairing_token st = Some tok \<Longrightarrow> token_bytes ?tok = tok"
    using dev by (simp_all add: device_ready_def)
  show thesis
  proof (cases rule: setup_ctx_cases [OF R wfc len(1), of "ar_role a", case_names fail ctx])
    case (ctx ctx0)
    have pub: "cc_device_pub ctx0 = dpub" using ctx(3) d(1) by simp
    have role: "\<exists>ctx1. setup1_role S (sr_blind rnd) (ctx0\<lparr>cc_client_nonce := sr_nonce rnd\<rparr>) = Ret ctx1 \<and>
        check_point_or_identity S (cc_role_commitment ctx1) = Ret ()"
      using dev ctx(8-11) commitment_accepted [OF R]
      by (auto simp: device_ready_def role_opens_def setup1_role_def bnd_iffs Let_def split: if_splits)
    then obtain ctx1 where r1: "setup1_role S (sr_blind rnd) (ctx0\<lparr>cc_client_nonce := sr_nonce rnd\<rparr>) = Ret ctx1"
      "check_point_or_identity S (cc_role_commitment ctx1) = Ret ()" by blast
    have wf1: "wf_client ctx1" using wf_setup1_role [OF R _ len(3) r1(1)] ctx(2) len(2) by (simp add: wf_client_def)
    note f = setup1_role_fields [OF r1(1)]
    note b = build_setup1_eq [OF R ctx(2) len(2,3) d(2) r1(1)]
    note wfm = wf_setup1_msg [OF wf1 d(2)]
    show thesis
    proof (rule that [OF ctx(1), of "setup1_msg ctx1 (token_bytes ?tok)" "ctx1\<lparr>cc_seq := 1\<rparr>"])
      show "pairing_token_ok (sv_require_pairing_token st) (setup1_msg ctx1 (token_bytes ?tok))"
        using d(3) by (auto simp: pairing_token_ok_def setup1_msg_def split: option.splits)
    qed (use b wfm wf1 f r1(2) ctx pub len(1) d(2) in \<open>simp_all add: setup1_msg_def\<close>)
  qed (use d(1) in \<open>auto simp: setup_ctx_def device_ctx_def zero_client_def\<close>)
qed

text \<open>The messages of the two sides, before they are put into dispatch and the client program.\<close>

lemma honest_messages:
  assumes R: "ristretto255 S enc" and rnd: "wf_setup_random rnd" and env: "wf_env env"
    and ssk: "canonical (sv_server_sk st)" "auth_scalarmult_base S (sv_server_sk st) = Ret (sv_server_pub st)"
    and key: "cc_has_pinned_server ctx1 \<and> cc_server_pub_pinned ctx1 = sv_server_pub st \<or> \<not> cc_has_pinned_server ctx1 \<and> allow_tofu"
    and live: "proofs_live S rnd env st root (s1_device_id s1) (s1_device_pub s1)"
    and sk: "canonical (cc_device_sk ctx1)" "auth_scalarmult_base S (cc_device_sk ctx1) = Ret (cc_device_pub ctx1)"
      "cc_device_sk ctx1 = auth_derive_device_scalar S root"
    and s1: "wf_setup1 s1" "setup1_norm s1 = s1" "wf_client ctx1" "pairing_token_ok (sv_require_pairing_token st) s1"
      "s1_client_nonce s1 = sr_nonce rnd" "check_point_or_identity S (s1_role_commitment s1) = Ret ()"
    and ctx1: "cc_session_id ctx1 = sr_session rnd" "cc_seq ctx1 = 1" "cc_client_nonce ctx1 = sr_nonce rnd"
      "cc_device_id ctx1 = s1_device_id s1" "cc_device_pub ctx1 = s1_device_pub s1"
  obtains c2 pend ctx2 p3 ctx3 c4 where
    "auth_server_handle_setup1 S (de_server_nonce env) (de_setup_challenge env) (de_setup_wide env) (sr_session rnd) 1
       (Some (setup1_layout s1)) (sv_server_sk st) (sv_server_pub st) (sv_require_pairing_token st) pending_setup_zero
       (Some (replicate 2048 0)) = (Ret c2, pend)"
    "ps_session_id pend = sr_session rnd" "ps_device_id pend = s1_device_id s1" "ps_device_pub pend = s1_device_pub s1"
    "auth_client_handle_setup2 S ctx1 (Some (sent c2)) allow_tofu = (Ret (), ctx2)"
    "auth_client_build_setup3 S (sr_client rnd) ctx2 (Some (replicate 2048 0)) =
       (Ret (cur (replicate 2048 0) (packet AUTH_PKT_SETUP_3 (sr_session rnd) 2 p3)), ctx3)"
    "length (packet AUTH_PKT_SETUP_3 (sr_session rnd) 2 p3) \<le> 2048" "wf_client ctx3"
    "auth_server_handle_setup3 S pend (sr_session rnd) 2 (Some p3) (Some (replicate 2048 0)) = Ret c4"
    "auth_client_handle_setup_ack ctx3 (Some (sent c4)) = (Ret (), ctx3)"
proof -
  let ?sn = "de_server_nonce env" and ?ch = "de_setup_challenge env" and ?spub = "sv_server_pub st"
  have len: "length (sr_session rnd) = 16" "length ?sn = 32" "length ?ch = 16" "length (de_setup_wide env) = 64" "length (sr_client rnd) = 64"
    using rnd env by (simp_all add: wf_setup_random_def wf_env_def)
  have l: "length (sv_server_sk st) = 32" "length ?spub = 32"
    using ssk base_mult_length [OF R _ ssk(2)] by (simp_all add: canonical_def)
  have sk32: "length (cc_device_sk ctx1) = 32" using sk(1) by (simp add: canonical_def)
  have pt: "auth_check_point S (s1_device_pub s1) = Ret ()" using check_base_mult [OF R sk32 sk(2)] ctx1(5) by simp
  note lv = live [unfolded proofs_live_def]
  obtain c2 pend where h1: "auth_server_handle_setup1 S ?sn ?ch (de_setup_wide env) (sr_session rnd) 1 (Some (setup1_layout s1))
      (sv_server_sk st) ?spub (sv_require_pairing_token st) pending_setup_zero (Some (replicate 2048 0)) = (Ret c2, pend)"
    using server_setup1_accepts [OF R len(1-4) ssk _ s1(1,2,4) pt s1(6)] lv by blast
  obtain sp where sp: "auth_prove_setup_server S (de_setup_wide env) (sv_server_sk st) (s1_device_id s1) (s1_device_pub s1) ?spub (sr_nonce rnd) ?sn ?ch = Ret sp"
    "wf_proof sp" "sent c2 = packet AUTH_PKT_SETUP_2 (sr_session rnd) 1 (setup2_layout (setup2_msg ?sn ?ch ?spub sp))"
    and pend: "ps_session_id pend = sr_session rnd" "ps_device_id pend = s1_device_id s1" "ps_device_pub pend = s1_device_pub s1"
      "ps_client_nonce pend = sr_nonce rnd" "ps_server_nonce pend = ?sn" "ps_setup_challenge pend = ?ch" "ps_server_pub pend = ?spub"
    using server_setup1_Ret [OF R len(1) l len(2-4) s1(1,2) h1] s1(5) by metis
  define ctx2 where "ctx2 = (tofu_pin ctx1 (setup2_msg ?sn ?ch ?spub sp))\<lparr>cc_pending_server_pub := ?spub, cc_pending_server_nonce := ?sn,
        cc_pending_setup_challenge := ?ch\<rparr>"
  have h2: "auth_client_handle_setup2 S ctx1 (Some (sent c2)) allow_tofu = (Ret (), ctx2)"
    using setup2_answered [OF R s1(3) sp(2) len(2-4) ssk, of allow_tofu 1] sp key lv ctx1 by (simp add: ctx2_def)
  have wf2: "wf_client ctx2" using s1(3) l len by (simp add: ctx2_def tofu_pin_def setup2_msg_def wf_client_def)
  have f2: "cc_session_id ctx2 = sr_session rnd" "cc_seq ctx2 = 1" "cc_client_nonce ctx2 = sr_nonce rnd" "cc_device_sk ctx2 = cc_device_sk ctx1"
    "cc_device_id ctx2 = s1_device_id s1" "cc_device_pub ctx2 = s1_device_pub s1" "cc_pending_server_pub ctx2 = ?spub"
    "cc_pending_server_nonce ctx2 = ?sn" "cc_pending_setup_challenge ctx2 = ?ch"
    using ctx1 by (simp_all add: ctx2_def tofu_pin_def)
  obtain cp where cp: "auth_prove_setup_client S (sr_client rnd) (cc_device_sk ctx1) (s1_device_id s1) (s1_device_pub s1) ?spub (sr_nonce rnd) ?sn ?ch = Ret cp"
    using setup_client.complete [OF R, of "(s1_device_id s1, ?spub, sr_nonce rnd, ?sn, ?ch)" "cc_device_sk ctx1" "sr_client rnd" "s1_device_pub s1"]
      sk ctx1(5) lv len l s1(1,5) by (auto simp: wf_setup1_def)
  let ?p3 = "setup3_layout \<lparr>s3_client_proof = cp\<rparr>"
  obtain ctx3 where b3: "auth_client_build_setup3 S (sr_client rnd) ctx2 (Some (replicate 2048 0)) =
      (Ret (cur (replicate 2048 0) (packet AUTH_PKT_SETUP_3 (sr_session rnd) 2 ?p3)), ctx3)" "wf_client ctx3"
    "length (packet AUTH_PKT_SETUP_3 (sr_session rnd) 2 ?p3) \<le> 2048"
    using build_setup3_Ret [OF R wf2 len(5), of cp] cp by (auto simp: f2)
  have "setup3_outcome S (sr_client rnd) pend ctx2 (cur (replicate 2048 0) (packet AUTH_PKT_SETUP_3 (sr_session rnd) 2 ?p3)) ctx3"
    by (rule setup3_answered [OF R wf2 len(5) _ _ _ _ _ _ _ _ _ b3(1)]) (use sk pend ctx1(5) in \<open>simp_all add: f2\<close>)
  then obtain c4 where "auth_server_handle_setup3 S pend (sr_session rnd) 2 (Some ?p3) (Some (replicate 2048 0)) = Ret c4"
    "auth_client_handle_setup_ack ctx3 (Some (sent c4)) = (Ret (), ctx3)"
    using cp lv sk(3) b3(3) by (auto simp: setup3_outcome_def f2)
  then show thesis using that [OF h1 pend(1-3) h2 b3(1,3,2)] by blast
qed

lemma honest_client_run:
  assumes R: "ristretto255 S enc" and wfc: "wf_creds creds" and path: "length (cred_path a) < 508"
    and load: "load_or_fresh rio (sr_root rnd) fs (cred_path a) = Ret creds" "setup_ctx S (sr_session rnd) creds (ar_role a) = Ret ctx0"
    and b1: "auth_client_build_setup1 S (sr_nonce rnd) (sr_blind rnd) ctx0 (map_option ascii (ar_pairing_token a))
       (length (token_bytes (map_option ascii (ar_pairing_token a)))) (Some (replicate 2048 0)) = (Ret (cur (replicate 2048 0) p1), ctx1)"
      "length p1 \<le> 2048"
    and h2: "auth_client_handle_setup2 S ctx1 (Some r1) (ar_allow_tofu a) = (Ret (), ctx2)" "length r1 \<le> 2048"
    and b3: "auth_client_build_setup3 S (sr_client rnd) ctx2 (Some (replicate 2048 0)) = (Ret (cur (replicate 2048 0) p2), ctx3)"
      "length p2 \<le> 2048" "wf_client ctx3"
    and h4: "auth_client_handle_setup_ack ctx3 (Some r2) = (Ret (), ctx3)" "length r2 \<le> 2048"
    and net: "delivers t net [r1, r2]" "cn_sent net = []"
  shows "\<exists>ops net'. do_setup S rio good_write rnd a t fs net = Some (Ret (), ops, net') \<and> cn_sent net' = [wire t p1, wire t p2]"
proof -
  obtain net1 where e1: "exchanged t (cur (replicate 2048 0) p1) net = Some (Ret (cur (replicate 2048 0) r1), net1)" "delivers t net1 [r2]"
    "cn_sent net1 = [wire t p1]" using exchange_delivered [OF net(1) b1(2) h2(2)] net(2) by auto
  obtain net2 where e2: "exchanged t (cur (replicate 2048 0) p2) net1 = Some (Ret (cur (replicate 2048 0) r2), net2)"
    "cn_sent net2 = [wire t p1, wire t p2]" using exchange_delivered [OF e1(2) b3(2) h4(2)] e1(3) by auto
  note wf = wf_enrolled_creds [OF wfc b3(3)]
  have "snd (auth_creds_save good_write (Some (enrolled_creds creds ctx3)) (Some (cred_path a))) = Ret ()"
    using wf good_write_Ret [OF path] by (simp add: creds_save_eq)
  then obtain ops where sv: "auth_creds_save good_write (Some (enrolled_creds creds ctx3)) (Some (cred_path a)) = (ops, Ret ())"
    by (metis prod.collapse)
  have "do_setup S rio good_write rnd a t fs net = Some (Ret (), ops, net2)"
    by (rule do_setup_steps [OF load b1(1) e1(1) _ b3(1) e2(1) _ sv]) (use h2 h4 in simp_all)
  then show ?thesis using e2(2) by blast
qed

text \<open>The server's side: two accepted messages of one session are dispatched one after the other.\<close>

lemma honest_dispatches:
  assumes R: "ristretto255 S enc" and env: "wf_env env1" "wf_env env2" and srv: "server_ready S st env2" and sid: "length sid = 16"
    and fresh: "\<forall>i p. table_view (sv_sessions st) i = Some (In_setup p) \<longrightarrow> ps_session_id p \<noteq> sid"
    and h1: "auth_server_handle_setup1 S (de_server_nonce env1) (de_setup_challenge env1) (de_setup_wide env1) sid 1 (Some p1)
       (sv_server_sk st) (sv_server_pub st) (sv_require_pairing_token st) pending_setup_zero (Some (replicate 2048 0)) = (Ret c2, pend)"
    and pd: "ps_session_id pend = sid" and h3: "auth_server_handle_setup3 S pend sid 2 (Some p3) (Some (replicate 2048 0)) = Ret c4"
  obtains st1 st2 sops2 where "dispatch S env1 (packet AUTH_PKT_SETUP_1 sid 1 p1) (replicate 2048 0) st = (Ret (sent c2), st1, [])"
    "dispatch S env2 (packet AUTH_PKT_SETUP_3 sid 2 p3) (replicate 2048 0) st1 = (Ret (sent c4), st2, sops2)"
    "auth_registry_get (Some (sv_registry st2)) (Some (ps_device_id pend)) = Ret (ps_device_pub pend, ps_role_commitment pend)"
proof -
  let ?buf = "replicate 2048 (0 :: byte)"
  have st: "wf_server st" "rg_n (sv_registry st) < 256" "length (rg_path (sv_registry st)) < 508" "de_write env2 = good_write"
    using srv by (simp_all add: server_ready_def)
  obtain i where free: "i < 64" "table_view (sv_sessions st) i = None" using srv by (auto simp: server_ready_def)
  obtain j tab where d1: "dispatch S env1 (packet AUTH_PKT_SETUP_1 sid 1 p1) ?buf st = (Ret (sent c2), st\<lparr>sv_sessions := tab\<rparr>, [])"
    and tab: "table_view tab = (table_view (sv_sessions st))(j \<mapsto> In_setup pend)"
    using setup1_opens [OF st(1) sid free h1] by blast
  have st1: "wf_server (st\<lparr>sv_sessions := tab\<rparr>)" using dispatch_steps [OF R st(1) env(1) d1] by simp
  have only: "q = pend" if "table_view (sv_sessions (st\<lparr>sv_sessions := tab\<rparr>)) k = Some (In_setup q)" "ps_session_id q = sid" for k q
    using that fresh tab by (auto split: if_splits)
  have here: "table_view (sv_sessions (st\<lparr>sv_sessions := tab\<rparr>)) j = Some (In_setup pend)" using tab by simp
  have room: "rg_n (sv_registry (st\<lparr>sv_sessions := tab\<rparr>)) < 256" "length (rg_path (sv_registry (st\<lparr>sv_sessions := tab\<rparr>))) < 508"
    using st(2,3) by simp_all
  have "\<exists>st2 sops2. dispatch S env2 (packet AUTH_PKT_SETUP_3 sid 2 p3) ?buf (st\<lparr>sv_sessions := tab\<rparr>) = (Ret (sent c4), st2, sops2) \<and>
      wf_registry (sv_registry st2) \<and> registry_map (sv_registry st2) = (registry_map (sv_registry (st\<lparr>sv_sessions := tab\<rparr>)))
        (ps_device_id pend \<mapsto> (ps_device_pub pend, ps_role_commitment pend))"
    by (rule setup3_enrols [OF st1 env(2) st(4) sid _ here room pd h3]) (rule only)
  then obtain st2 sops2 where d2: "dispatch S env2 (packet AUTH_PKT_SETUP_3 sid 2 p3) ?buf (st\<lparr>sv_sessions := tab\<rparr>) = (Ret (sent c4), st2, sops2)"
    "wf_registry (sv_registry st2)" "registry_map (sv_registry st2) (ps_device_id pend) = Some (ps_device_pub pend, ps_role_commitment pend)"
    by auto
  show thesis by (rule that [OF d1 d2(1)]) (simp add: registry.get_eq [OF d2(2)] d2(3))
qed

text \<open>C9: An undisturbed enrolment completes. Let the device load or create its credentials, be ready to enrol with an honest
  server that has a free slot, room in its registry and a writable file, let its session id not be in use, and let the two
  Schnorr proofs not vanish. Then there are two packets to which the server's dispatch, started in its present state,
  replies, after which the registry maps the device's id to the device's public key; and the client program, on every
  network that delivers these replies over UDP or TCP and with a writable credential file, sends exactly these two packets
  and exits with 0.\<close>

theorem enrolment_completes:
  assumes R: "ristretto255 S enc" and rnd: "wf_setup_random rnd" and env: "wf_env env1" "wf_env env2"
    and srv: "server_ready S st env2" and dev: "device_ready S rnd a creds dpub st"
    and creds: "load_or_fresh rio (sr_root rnd) fs (cred_path a) = Ret creds"
    and fresh: "\<forall>i p. table_view (sv_sessions st) i = Some (In_setup p) \<longrightarrow> ps_session_id p \<noteq> sr_session rnd"
    and live: "proofs_live S rnd env1 st (cr_device_root creds) (auth_derive_device_id S (cr_device_root creds)) dpub"
  shows "\<exists>p1 p2 r1 r2 st1 st2 sops1 sops2 rc.
    dispatch S env1 p1 (replicate AUTH_MAX_DATAGRAM 0) st = (Ret r1, st1, sops1) \<and>
    dispatch S env2 p2 (replicate AUTH_MAX_DATAGRAM 0) st1 = (Ret r2, st2, sops2) \<and>
    auth_registry_get (Some (sv_registry st2)) (Some (auth_derive_device_id S (cr_device_root creds))) = Ret (dpub, rc) \<and>
    (\<forall>t net. delivers t net [r1, r2] \<and> cn_sent net = [] \<longrightarrow>
       (\<exists>ops net'. do_setup S rio good_write rnd a t fs net = Some (Ret (), ops, net') \<and> cn_sent net' = [wire t p1, wire t p2]))"
proof -
  let ?sid = "sr_session rnd" and ?buf = "replicate 2048 (0 :: byte)"
  have rl: "length (sr_root rnd) = 32" "length ?sid = 16" using rnd by (simp_all add: wf_setup_random_def)
  have wfc: "wf_creds creds" by (cases rule: load_or_fresh_cases [OF rl(1), of rio fs "cred_path a"]) (use creds in simp_all)
  have ssk: "canonical (sv_server_sk st)" "auth_scalarmult_base S (sv_server_sk st) = Ret (sv_server_pub st)"
    using srv by (simp_all add: server_ready_def)
  obtain ctx0 ctx1 s1 where c0: "setup_ctx S ?sid creds (ar_role a) = Ret ctx0"
    and b1: "auth_client_build_setup1 S (sr_nonce rnd) (sr_blind rnd) ctx0 (map_option ascii (ar_pairing_token a))
       (length (token_bytes (map_option ascii (ar_pairing_token a)))) (Some ?buf) =
       (Ret (cur ?buf (packet AUTH_PKT_SETUP_1 ?sid 1 (setup1_layout s1))), ctx1)"
      "length (packet AUTH_PKT_SETUP_1 ?sid 1 (setup1_layout s1)) \<le> 2048"
    and s1: "wf_setup1 s1" "setup1_norm s1 = s1" "wf_client ctx1" "pairing_token_ok (sv_require_pairing_token st) s1"
      "s1_device_id s1 = auth_derive_device_id S (cr_device_root creds)" "s1_device_pub s1 = dpub" "s1_client_nonce s1 = sr_nonce rnd"
      "check_point_or_identity S (s1_role_commitment s1) = Ret ()"
    and ctx1: "cc_session_id ctx1 = ?sid" "cc_seq ctx1 = 1" "cc_client_nonce ctx1 = sr_nonce rnd"
      "cc_device_id ctx1 = auth_derive_device_id S (cr_device_root creds)" "cc_device_pub ctx1 = dpub"
      "cc_device_sk ctx1 = auth_derive_device_scalar S (cr_device_root creds)"
      "cc_has_pinned_server ctx1 = cr_has_pinned_server creds" "cc_server_pub_pinned ctx1 = cr_server_pub_pinned creds"
    by (rule device_starts [OF R rnd wfc dev])
  have key: "cc_has_pinned_server ctx1 \<and> cc_server_pub_pinned ctx1 = sv_server_pub st \<or> \<not> cc_has_pinned_server ctx1 \<and> ar_allow_tofu a"
    and path: "length (cred_path a) < 508" and sk: "auth_scalarmult_base S (cc_device_sk ctx1) = Ret (cc_device_pub ctx1)"
    using dev ctx1 by (auto simp: device_ready_def)
  have can: "canonical (cc_device_sk ctx1)"
    using canonical_reduce [OF R] sodium_digests(4) [OF R] by (simp add: ctx1(6) auth_derive_device_scalar_def Let_def)
  obtain c2 pend ctx2 p3 ctx3 c4 where
    h1: "auth_server_handle_setup1 S (de_server_nonce env1) (de_setup_challenge env1) (de_setup_wide env1) ?sid 1
       (Some (setup1_layout s1)) (sv_server_sk st) (sv_server_pub st) (sv_require_pairing_token st) pending_setup_zero (Some ?buf) = (Ret c2, pend)"
    and pd: "ps_session_id pend = ?sid" "ps_device_id pend = s1_device_id s1" "ps_device_pub pend = s1_device_pub s1"
    and h2: "auth_client_handle_setup2 S ctx1 (Some (sent c2)) (ar_allow_tofu a) = (Ret (), ctx2)"
    and b3: "auth_client_build_setup3 S (sr_client rnd) ctx2 (Some ?buf) = (Ret (cur ?buf (packet AUTH_PKT_SETUP_3 ?sid 2 p3)), ctx3)"
      "length (packet AUTH_PKT_SETUP_3 ?sid 2 p3) \<le> 2048" "wf_client ctx3"
    and h3: "auth_server_handle_setup3 S pend ?sid 2 (Some p3) (Some ?buf) = Ret c4"
    and h4: "auth_client_handle_setup_ack ctx3 (Some (sent c4)) = (Ret (), ctx3)"
    by (rule honest_messages [OF R rnd env(1) ssk key _ can sk ctx1(6) s1(1-4,7,8) ctx1(1-3)]) (use live s1 ctx1 in simp_all)
  obtain st1 st2 sops2 where d1: "dispatch S env1 (packet AUTH_PKT_SETUP_1 ?sid 1 (setup1_layout s1)) ?buf st = (Ret (sent c2), st1, [])"
    and d2: "dispatch S env2 (packet AUTH_PKT_SETUP_3 ?sid 2 p3) ?buf st1 = (Ret (sent c4), st2, sops2)"
    and get: "auth_registry_get (Some (sv_registry st2)) (Some (ps_device_id pend)) = Ret (ps_device_pub pend, ps_role_commitment pend)"
    by (rule honest_dispatches [OF R env srv rl(2) fresh h1 pd(1) h3])
  have len: "length (sent c2) \<le> 2048" "length (sent c4) \<le> 2048" using dispatch_reply_fits [OF d1] dispatch_reply_fits [OF d2] by simp_all
  have "\<exists>ops net'. do_setup S rio good_write rnd a t fs net = Some (Ret (), ops, net') \<and>
      cn_sent net' = [wire t (packet AUTH_PKT_SETUP_1 ?sid 1 (setup1_layout s1)), wire t (packet AUTH_PKT_SETUP_3 ?sid 2 p3)]"
    if "delivers t net [sent c2, sent c4]" "cn_sent net = []" for t net
    by (rule honest_client_run [OF R wfc path creds c0 b1 h2 len(1) b3 h4 len(2) that])
  then show ?thesis using d1 d2 get [unfolded pd(2,3) s1(5,6)] by (simp del: split_paired_Ex) blast
qed

text \<open>The concrete run: the device of \<open>enrol_rnd\<close> and the sample server, over UDP.\<close>

definition env_enrol :: dispatch_env where
  "env_enrol = env_sample\<lparr>de_server_nonce := replicate 32 5, de_setup_challenge := replicate 16 6, de_setup_wide := le_enc 64 2\<rparr>"

lemma env_enrol_wf: "wf_env env_enrol" "de_write env_enrol = good_write"
  using env_sample_wf by (simp_all add: env_enrol_def env_sample_def wf_env_def)

lemma enrol_setup3:
  assumes len: "length (ps_device_id pend) = 32" "length (ps_client_nonce pend) = 32"
    and pend: "ps_session_id pend = replicate 16 7" "ps_device_pub pend = toy_enc device_int" "ps_server_pub pend = toy_enc 4"
      "ps_server_nonce pend = replicate 32 5" "ps_setup_challenge pend = replicate 16 6"
  shows "auth_server_handle_setup3 toy1 pend (replicate 16 7) 2
      (Some (setup3_layout \<lparr>s3_client_proof = \<lparr>prf_a = toy_enc 2, prf_s = sc (2 + device_int)\<rparr>\<rparr>)) (Some (replicate 2048 0)) =
    Ret (cur (replicate 2048 0) setup_ack_packet)"
proof -
  note R = rewound_ristretto [of 1]
  let ?p = "\<lparr>prf_a = toy_enc 2, prf_s = sc (2 + device_int)\<rparr>"
  have wfp: "wf_proof ?p" "wf_setup3 \<lparr>s3_client_proof = ?p\<rparr>" by (simp_all add: wf_proof_def wf_setup3_def length_enc [OF R])
  have nz: "sc (2 + device_int) \<noteq> sc 0" using device_int_nonzero(2) by (simp add: sc_eq_iff)
  have "auth_verify_setup_client toy1 ?p (ps_device_id pend) (toy_enc device_int) (toy_enc 4) (ps_client_nonce pend) (replicate 32 5)
      (replicate 16 6) = Ret True"
    using setup_client.honest [OF R, of "(ps_device_id pend, toy_enc 4, ps_client_nonce pend, replicate 32 5, replicate 16 6)"
        "sc device_int" "le_enc 64 2" "toy_enc device_int" ?p] enrol_proofs(2) [OF len] len
      toy1_nonzero [OF wfp(1) _ device_int_nonzero(1)] nz rewound_base [OF device_int_nonzero(1)] by (simp add: length_enc [OF R])
  moreover have "auth_setup3_decode (Some (setup3_layout \<lparr>s3_client_proof = ?p\<rparr>)) = Ret \<lparr>s3_client_proof = ?p\<rparr>"
    using setup3.dec_layout [OF wfp(2)] by simp
  ultimately show ?thesis
    using pend ack_reply [of "replicate 16 7" AUTH_PKT_SETUP_ACK 2 "replicate 2048 0"] by (simp add: auth_server_handle_setup3_def)
qed

lemma enrol_dispatch:
  assumes wf: "wf_client ctx" and dev: "cc_device_pub ctx = toy_enc device_int" and com: "cc_role_commitment ctx = toy_enc 47"
    and p: "enrol_packets ctx = [p1, p2]"
  obtains st1 st2 sops1 sops2 where
    "dispatch toy1 env_enrol p1 (replicate 2048 0) server_sample = (Ret setup2_packet, st1, sops1)"
    "dispatch toy1 env_enrol p2 (replicate 2048 0) st1 = (Ret setup_ack_packet, st2, sops2)"
    "auth_registry_get (Some (sv_registry st2)) (Some (cc_device_id ctx)) = Ret (toy_enc device_int, toy_enc 47)"
proof -
  note R = rewound_ristretto [of 1]
  have p: "p1 = packet AUTH_PKT_SETUP_1 (replicate 16 7) 1 (setup1_layout (setup1_msg ctx []))"
    "p2 = packet AUTH_PKT_SETUP_3 (replicate 16 7) 2 (setup3_layout \<lparr>s3_client_proof = \<lparr>prf_a = toy_enc 2, prf_s = sc (2 + device_int)\<rparr>\<rparr>)"
    using p by (simp_all add: enrol_packets_def)
  have ids: "length (cc_device_id ctx) = 32" "length (cc_client_nonce ctx) = 32" using wf by (simp_all add: wf_client_def)
  have srv: "sv_server_sk server_sample = sc 4" "sv_server_pub server_sample = toy_enc 4" "sv_require_pairing_token server_sample = None"
    "table_view (sv_sessions server_sample) = (\<lambda>_. None)" "rg_n (sv_registry server_sample) = 1"
    "rg_path (sv_registry server_sample) = ''registry.bin''"
    using table_zero(2) by (simp_all add: server_sample_def)
  have env: "de_server_nonce env_enrol = replicate 32 5" "de_setup_challenge env_enrol = replicate 16 6" "de_setup_wide env_enrol = le_enc 64 2"
    by (simp_all add: env_enrol_def)
  have sid: "length (replicate 16 (7 :: byte)) = 16" by simp
  obtain c2 pend where h: "auth_server_handle_setup1 toy1 (replicate 32 5) (replicate 16 6) (le_enc 64 2) (replicate 16 7) 1
       (Some (setup1_layout (setup1_msg ctx []))) (sc 4) (toy_enc 4) None pending_setup_zero (Some (replicate 2048 0)) = (Ret c2, pend)"
    using enrol_server [OF wf dev com sid, of 1] by blast
  have wfm: "wf_setup1 (setup1_msg ctx [])" "setup1_norm (setup1_msg ctx []) = setup1_msg ctx []" using wf_setup1_msg [OF wf] by simp_all
  obtain sp where sp: "auth_prove_setup_server toy1 (le_enc 64 2) (sc 4) (s1_device_id (setup1_msg ctx [])) (s1_device_pub (setup1_msg ctx []))
      (toy_enc 4) (s1_client_nonce (setup1_msg ctx [])) (replicate 32 5) (replicate 16 6) = Ret sp"
    and "wf_proof sp" and c2: "sent c2 = packet AUTH_PKT_SETUP_2 (replicate 16 7) 1 (setup2_layout (setup2_msg (replicate 32 5) (replicate 16 6) (toy_enc 4) sp))"
    and pend: "ps_session_id pend = replicate 16 7" "ps_device_id pend = s1_device_id (setup1_msg ctx [])" "ps_device_pub pend = s1_device_pub (setup1_msg ctx [])"
      "ps_role_commitment pend = s1_role_commitment (setup1_msg ctx [])" "ps_client_nonce pend = s1_client_nonce (setup1_msg ctx [])"
      "ps_server_nonce pend = replicate 32 5" "ps_setup_challenge pend = replicate 16 6" "ps_server_pub pend = toy_enc 4"
    by (rule server_setup1_Ret [OF R sid _ _ _ _ _ wfm h]) (simp_all add: length_enc [OF R])
  have r1: "sent c2 = setup2_packet" using sp c2 enrol_proofs(1) [OF ids] dev by (simp add: setup1_msg_def)
  obtain j t where d1: "dispatch toy1 env_enrol p1 (replicate 2048 0) server_sample = (Ret setup2_packet, server_sample\<lparr>sv_sessions := t\<rparr>, [])"
    and t: "table_view t = [j \<mapsto> In_setup pend]"
    using setup1_opens [OF server_sample_wf sid, of 0 toy1 env_enrol 1 "setup1_layout (setup1_msg ctx [])" "replicate 2048 0" c2 pend]
      srv env h r1 p(1) by auto
  have st1: "wf_server (server_sample\<lparr>sv_sessions := t\<rparr>)"
    using dispatch_steps [OF R server_sample_wf env_enrol_wf(1) d1] by simp
  have h3: "auth_server_handle_setup3 toy1 pend (replicate 16 7) 2 (Some (setup3_layout \<lparr>s3_client_proof = \<lparr>prf_a = toy_enc 2, prf_s = sc (2 + device_int)\<rparr>\<rparr>))
      (Some (replicate 2048 0)) = Ret (cur (replicate 2048 0) setup_ack_packet)"
    by (rule enrol_setup3) (use pend ids dev in \<open>simp_all add: setup1_msg_def\<close>)
  have "\<exists>st2 sops2. dispatch toy1 env_enrol p2 (replicate 2048 0) (server_sample\<lparr>sv_sessions := t\<rparr>) =
      (Ret (sent (cur (replicate 2048 0) setup_ack_packet)), st2, sops2) \<and> wf_registry (sv_registry st2) \<and>
      registry_map (sv_registry st2) = (registry_map (sv_registry (server_sample\<lparr>sv_sessions := t\<rparr>)))
        (ps_device_id pend \<mapsto> (ps_device_pub pend, ps_role_commitment pend))"
    unfolding p(2)
    by (rule setup3_enrols [OF st1 env_enrol_wf sid _ _ _ _ pend(1) h3, of j]) (use t srv in \<open>simp_all split: if_splits\<close>)
  then obtain st2 sops2 where d2: "dispatch toy1 env_enrol p2 (replicate 2048 0) (server_sample\<lparr>sv_sessions := t\<rparr>) = (Ret setup_ack_packet, st2, sops2)"
    "wf_registry (sv_registry st2)" "registry_map (sv_registry st2) (ps_device_id pend) = Some (ps_device_pub pend, ps_role_commitment pend)"
    by auto
  have "auth_registry_get (Some (sv_registry st2)) (Some (cc_device_id ctx)) = Ret (toy_enc device_int, toy_enc 47)"
    using registry.get_eq [OF d2(2), of "cc_device_id ctx"] d2(3) pend dev com by (simp add: setup1_msg_def)
  then show thesis using that d1 d2(1) by blast
qed

theorem enrolment_agrees_witness:
  "\<exists>ops net' p1 p2 st1 st2 sops1 sops2 creds dpub.
     do_setup toy1 good_read good_write enrol_rnd enrol_args udp_sample Map.empty enrol_net = Some (Ret (), ops, net') \<and>
     cn_sent net' = [wire udp_sample p1, wire udp_sample p2] \<and>
     dispatch toy1 env_enrol p1 (replicate 2048 0) server_sample = (Ret setup2_packet, st1, sops1) \<and>
     dispatch toy1 env_enrol p2 (replicate 2048 0) st1 = (Ret setup_ack_packet, st2, sops2) \<and>
     fs_run ops Map.empty (cred_path enrol_args) = Some (creds_layout creds) \<and> cr_server_pub_pinned creds = toy_enc 4 \<and>
     auth_registry_get (Some (sv_registry st2)) (Some (auth_derive_device_id toy1 (cr_device_root creds))) = Ret (dpub, cr_role_commitment creds)"
proof -
  obtain ops net' c ctx1 where run: "do_setup toy1 good_read good_write enrol_rnd enrol_args udp_sample Map.empty enrol_net = Some (Ret (), ops, net')"
    and "auth_creds_load good_read (fs_run ops Map.empty) (Some (cred_path enrol_args)) = Ret c"
    and ctx1: "cn_sent net' = enrol_packets ctx1" "wf_client ctx1" "cc_device_pub ctx1 = toy_enc device_int" "cc_role_commitment ctx1 = toy_enc 47"
    by (rule enrol_run)
  obtain p1 p2 where p: "enrol_packets ctx1 = [p1, p2]" by (simp add: enrol_packets_def)
  obtain st1 st2 sops1 sops2 where d: "dispatch toy1 env_enrol p1 (replicate 2048 0) server_sample = (Ret setup2_packet, st1, sops1)"
    "dispatch toy1 env_enrol p2 (replicate 2048 0) st1 = (Ret setup_ack_packet, st2, sops2)"
    by (rule enrol_dispatch [OF ctx1(2-4) p])
  have net: "delivers udp_sample enrol_net [setup2_packet, setup_ack_packet]" "cn_sent enrol_net = []"
    by (simp_all add: delivers_def udp_sample_def enrol_net_def exI [of _ "[loopback6, loopback6]"])
  have w: "cn_sent net' = [wire udp_sample p1, wire udp_sample p2]" using ctx1(1) p by (simp add: wire_def udp_sample_def)
  have d': "dispatch toy1 env_enrol p1 (replicate AUTH_MAX_DATAGRAM 0) server_sample = (Ret setup2_packet, st1, sops1)"
    "dispatch toy1 env_enrol p2 (replicate AUTH_MAX_DATAGRAM 0) st1 = (Ret setup_ack_packet, st2, sops2)"
    using d by simp_all
  have "\<forall>i p. table_view (sv_sessions server_sample) i = Some (In_setup p) \<longrightarrow> ps_session_id p \<noteq> sr_session enrol_rnd"
    using table_zero(2) by (simp add: server_sample_def)
  from enrolment_agrees [OF rewound_ristretto wf_enrol_rnd server_sample_wf env_enrol_wf(1) env_enrol_wf(1) net run w d' this]
  obtain creds dpub where "fs_run ops Map.empty (cred_path enrol_args) = Some (creds_layout creds)" "cr_server_pub_pinned creds = sv_server_pub server_sample"
    "auth_registry_get (Some (sv_registry st2)) (Some (auth_derive_device_id toy1 (cr_device_root creds))) = Ret (dpub, cr_role_commitment creds)"
    by blast
  moreover have "sv_server_pub server_sample = toy_enc 4" by (simp add: server_sample_def)
  ultimately show ?thesis using run w d by (simp del: split_paired_Ex) blast
qed

text \<open>The same run as an input of the statements on the registry.\<close>

lemma enrol_sample:
  obtains ops net' c p1 p2 st1 st2 sops1 sops2 did where
    "do_setup toy1 good_read good_write enrol_rnd enrol_args udp_sample Map.empty enrol_net = Some (Ret (), ops, net')"
    "auth_creds_load good_read (fs_run ops Map.empty) (Some (cred_path enrol_args)) = Ret c"
    "cn_sent net' = [wire udp_sample p1, wire udp_sample p2]"
    "dispatch toy1 env_enrol p1 (replicate 2048 0) server_sample = (Ret setup2_packet, st1, sops1)"
    "dispatch toy1 env_enrol p2 (replicate 2048 0) st1 = (Ret setup_ack_packet, st2, sops2)"
    "auth_registry_get (Some (sv_registry st2)) (Some did) = Ret (toy_enc device_int, toy_enc 47)"
proof -
  obtain ops net' c ctx1 where run: "do_setup toy1 good_read good_write enrol_rnd enrol_args udp_sample Map.empty enrol_net = Some (Ret (), ops, net')"
    "auth_creds_load good_read (fs_run ops Map.empty) (Some (cred_path enrol_args)) = Ret c"
    and ctx1: "cn_sent net' = enrol_packets ctx1" "wf_client ctx1" "cc_device_pub ctx1 = toy_enc device_int" "cc_role_commitment ctx1 = toy_enc 47"
    by (rule enrol_run)
  obtain p1 p2 where p: "enrol_packets ctx1 = [p1, p2]" by (simp add: enrol_packets_def)
  then have "cn_sent net' = [wire udp_sample p1, wire udp_sample p2]" using ctx1(1) by (simp add: wire_def udp_sample_def)
  then show thesis using enrol_dispatch [OF ctx1(2-4) p] that [OF run] by metis
qed

lemma device_int_three: "(device_int - 3) mod group_order \<noteq> 0"
proof -
  have "device_int = foldl (\<lambda>h b. h * 257 + uint b + 1) 5 (ascii ''device-auth-v1'' @ replicate 32 0) mod 256 ^ 64"
    by (simp add: device_int_def rewound_sodium_def toy_sodium_def toy_hash_def le_int_le_enc)
  moreover have "(foldl (\<lambda>h b. h * 257 + uint b + 1) 5 (ascii ''device-auth-v1'' @ replicate 32 0) mod 256 ^ 64 - 3) mod group_order \<noteq> 0"
    by code_simp
  ultimately show ?thesis by metis
qed

lemma sample_registry:
  "auth_registry_get (Some (sv_registry server_sample)) (Some did) \<noteq> Ret (toy_enc device_int, rc)"
proof -
  have z: "replicate 256 entry_zero = entry_zero # replicate 255 entry_zero" by (simp add: numeral_eq_Suc)
  have "toy_enc 3 \<noteq> toy_enc device_int"
    using enc_eq_iff [OF rewound_ristretto [of 1], of 3 device_int] device_int_three by (metis mod_eq_dvd_iff dvd_eq_mod_eq_0)
  then show ?thesis
    using registry.get_eq [of "sv_registry server_sample" did] server_sample_wf
    by (auto simp: wf_server_def registry_map_def entry_pair_def server_sample_def registry_zero_def z split: option.splits if_splits)
qed

theorem enrolment_authentic_witness:
  "\<exists>p1 p2 rs st' ops did p. server_run toy1 [(env_enrol, p1, replicate 2048 0), (env_enrol, p2, replicate 2048 0)] server_sample = (rs, st', ops) \<and>
     auth_registry_get (Some (sv_registry st')) (Some did) = Ret (toy_enc device_int, toy_enc 47) \<and>
     auth_registry_get (Some (sv_registry server_sample)) (Some did) \<noteq> Ret (toy_enc device_int, toy_enc 47) \<and>
     opened_by toy1 server_sample env_enrol p1 p \<and> proven_by toy1 p2 p \<and> ps_device_id p = did \<and> ps_device_pub p = toy_enc device_int"
proof -
  obtain p1 p2 st1 st2 sops1 sops2 did where d: "dispatch toy1 env_enrol p1 (replicate 2048 0) server_sample = (Ret setup2_packet, st1, sops1)"
    "dispatch toy1 env_enrol p2 (replicate 2048 0) st1 = (Ret setup_ack_packet, st2, sops2)"
    "auth_registry_get (Some (sv_registry st2)) (Some did) = Ret (toy_enc device_int, toy_enc 47)"
    by (rule enrol_sample)
  let ?pkts = "[(env_enrol, p1, replicate 2048 0), (env_enrol, p2, replicate 2048 0)]"
  have run: "server_run toy1 ?pkts server_sample = ([Ret setup2_packet, Ret setup_ack_packet], st2, sops1 @ sops2)" using d by simp
  have wf: "wf_packets ?pkts" using env_enrol_wf(1) by (simp add: wf_packets_def)
  have none: "pending_setups server_sample = {}" using table_zero(2) by (simp add: pending_setups_def server_sample_def)
  obtain j p where "enrolled_in toy1 server_sample ?pkts j p" "ps_device_id p = did" "ps_device_pub p = toy_enc device_int"
    using enrolment_authentic [OF rewound_ristretto server_sample_wf wf run d(3)] sample_registry by auto
  then have "opened_by toy1 server_sample env_enrol p1 p \<and> proven_by toy1 p2 p \<and> ps_device_id p = did \<and> ps_device_pub p = toy_enc device_int"
    using none by (cases j) (auto simp: enrolled_in_def less_Suc_eq)
  then show ?thesis using run d(3) sample_registry by blast
qed

theorem enrolment_enables_auth_witness:
  "\<exists>ops net' p1 p2 st1 st2 sops1 sops2 creds' ctx.
     do_setup toy1 good_read good_write enrol_rnd enrol_args udp_sample Map.empty enrol_net = Some (Ret (), ops, net') \<and>
     cn_sent net' = [wire udp_sample p1, wire udp_sample p2] \<and>
     dispatch toy1 env_enrol p1 (replicate 2048 0) server_sample = (Ret setup2_packet, st1, sops1) \<and>
     dispatch toy1 env_enrol p2 (replicate 2048 0) st1 = (Ret setup_ack_packet, st2, sops2) \<and>
     auth_creds_load good_read (fs_run ops Map.empty) (Some (cred_path enrol_args)) = Ret creds' \<and>
     auth_ctx toy1 (replicate 16 3) creds' = Ret ctx \<and> enrolled_client toy1 ctx (toy_enc 4) \<and> cc_role_code ctx = 2 \<and>
     auth_registry_get (Some (sv_registry st2)) (Some (cc_device_id ctx)) = Ret (cc_device_pub ctx, cc_role_commitment ctx)"
proof -
  obtain ops net' c p1 p2 st1 st2 sops1 sops2 where
    run: "do_setup toy1 good_read good_write enrol_rnd enrol_args udp_sample Map.empty enrol_net = Some (Ret (), ops, net')"
    and load: "auth_creds_load good_read (fs_run ops Map.empty) (Some (cred_path enrol_args)) = Ret c"
    and w: "cn_sent net' = [wire udp_sample p1, wire udp_sample p2]"
    and d: "dispatch toy1 env_enrol p1 (replicate 2048 0) server_sample = (Ret setup2_packet, st1, sops1)"
      "dispatch toy1 env_enrol p2 (replicate 2048 0) st1 = (Ret setup_ack_packet, st2, sops2)"
    by (rule enrol_sample)
  have net: "delivers udp_sample enrol_net [setup2_packet, setup_ack_packet]" "cn_sent enrol_net = []"
    by (simp_all add: delivers_def udp_sample_def enrol_net_def exI [of _ "[loopback6, loopback6]"])
  have d': "dispatch toy1 env_enrol p1 (replicate AUTH_MAX_DATAGRAM 0) server_sample = (Ret setup2_packet, st1, sops1)"
    "dispatch toy1 env_enrol p2 (replicate AUTH_MAX_DATAGRAM 0) st1 = (Ret setup_ack_packet, st2, sops2)"
    using d by simp_all
  have fresh: "\<forall>i p. table_view (sv_sessions server_sample) i = Some (In_setup p) \<longrightarrow> ps_session_id p \<noteq> sr_session enrol_rnd"
    using table_zero(2) by (simp add: server_sample_def)
  have role: "\<not> cr_has_role (auth_creds_init_fresh (sr_root enrol_rnd))" by (simp add: auth_creds_init_fresh_def auth_creds_zero_def)
  have "sv_server_pub server_sample = toy_enc 4" "ar_role enrol_args = 2" by (simp_all add: server_sample_def enrol_args_def default_args_def)
  then obtain ctx where "auth_ctx toy1 (replicate 16 3) c = Ret ctx" "enrolled_client toy1 ctx (toy_enc 4)" "cc_role_code ctx = 2"
    "auth_registry_get (Some (sv_registry st2)) (Some (cc_device_id ctx)) = Ret (cc_device_pub ctx, cc_role_commitment ctx)"
    using enrolment_enables_auth [OF rewound_ristretto wf_enrol_rnd server_sample_wf env_enrol_wf(1) env_enrol_wf(1) net run w d' fresh enrol_fresh
        _ load, of "replicate 16 3"] role by auto
  then show ?thesis using run load w d by blast
qed

theorem enrolment_completes_witness:
  "\<exists>p1 p2 r1 r2 st1 st2 sops1 sops2 rc ops net'.
    dispatch toy1 env_enrol p1 (replicate 2048 0) server_sample = (Ret r1, st1, sops1) \<and>
    dispatch toy1 env_enrol p2 (replicate 2048 0) st1 = (Ret r2, st2, sops2) \<and>
    auth_registry_get (Some (sv_registry st2)) (Some (auth_derive_device_id toy1 (replicate 32 0))) = Ret (toy_enc device_int, rc) \<and>
    do_setup toy1 good_read good_write enrol_rnd enrol_args udp_sample Map.empty
      \<lparr>cn_stream = [], cn_dgrams = [Rx_data (r1, loopback6), Rx_data (r2, loopback6)], cn_tx = [], cn_sent = []\<rparr> = Some (Ret (), ops, net') \<and>
    cn_sent net' = [wire udp_sample p1, wire udp_sample p2]"
proof -
  note R = rewound_ristretto [of 1]
  let ?c = "auth_creds_init_fresh (sr_root enrol_rnd)"
  have root: "cr_device_root ?c = replicate 32 0" "\<not> cr_has_role ?c" "\<not> cr_has_pinned_server ?c"
    by (simp_all add: auth_creds_init_fresh_def auth_creds_zero_def enrol_rnd_def)
  have ord: "4 mod group_order \<noteq> 0" "le_int (le_enc 64 2) mod group_order \<noteq> 0" "sc 6 \<noteq> sc 0"
    by (simp_all add: group_order_def le_int_le_enc sc_eq_iff)
  have nz: "sc (2 + device_int) \<noteq> sc 0" using device_int_nonzero(2) by (simp add: sc_eq_iff)
  have dsk: "auth_derive_device_scalar toy1 (replicate 32 0) = sc device_int"
    using reduce_sc [OF R] sodium_digests(4) [OF R] by (simp add: auth_derive_device_scalar_def device_int_def)
  have blind: "auth_random_scalar toy1 (le_enc 64 5) = sc 5" by (simp add: auth_random_scalar_def wide_sc)
  have com: "auth_make_role_commitment toy1 2 (sc 5) = Ret (toy_enc 47)"
    using commitment_enc [OF R rewound_h, of "sc 5" 2] by (simp add: enc_eq_iff [OF R] small_mods)
  have srv: "server_ready toy1 server_sample env_enrol"
    using server_sample_wf rewound_base [OF ord(1)] table_zero(2) env_enrol_wf(2) by (auto simp: server_ready_def server_sample_def intro: exI [of _ 0])
  have dev: "device_ready toy1 enrol_rnd enrol_args ?c (toy_enc device_int) server_sample"
    using root com blind rewound_base [OF device_int_nonzero(1)] enrol_path dsk
    by (simp add: device_ready_def enrol_args_def default_args_def enrol_rnd_def server_sample_def token_bytes_def)
  have did: "length (auth_derive_device_id toy1 (replicate 32 0)) = 32" by (rule length_device_id [OF R])
  have wfp: "wf_proof \<lparr>prf_a = toy_enc 2, prf_s = sc 6\<rparr>" "wf_proof \<lparr>prf_a = toy_enc 2, prf_s = sc (2 + device_int)\<rparr>"
    by (simp_all add: wf_proof_def length_enc [OF R])
  have live: "proofs_live toy1 enrol_rnd env_enrol server_sample (replicate 32 0) (auth_derive_device_id toy1 (replicate 32 0)) (toy_enc device_int)"
    using enrol_proofs [OF did, of "replicate 32 2"] dsk ord nz toy1_nonzero [OF wfp(1) _ ord(1)] toy1_nonzero [OF wfp(2) _ device_int_nonzero(1)]
    by (simp add: proofs_live_def enrol_rnd_def env_enrol_def server_sample_def)
  have fresh: "\<forall>i p. table_view (sv_sessions server_sample) i = Some (In_setup p) \<longrightarrow> ps_session_id p \<noteq> sr_session enrol_rnd"
    using table_zero(2) by (simp add: server_sample_def)
  obtain p1 p2 r1 r2 st1 st2 sops1 sops2 rc where d: "dispatch toy1 env_enrol p1 (replicate 2048 0) server_sample = (Ret r1, st1, sops1)"
    "dispatch toy1 env_enrol p2 (replicate 2048 0) st1 = (Ret r2, st2, sops2)"
    "auth_registry_get (Some (sv_registry st2)) (Some (auth_derive_device_id toy1 (replicate 32 0))) = Ret (toy_enc device_int, rc)"
    and run: "\<forall>t net. delivers t net [r1, r2] \<and> cn_sent net = [] \<longrightarrow>
       (\<exists>ops net'. do_setup toy1 good_read good_write enrol_rnd enrol_args t Map.empty net = Some (Ret (), ops, net') \<and>
          cn_sent net' = [wire t p1, wire t p2])"
    using enrolment_completes [OF R wf_enrol_rnd env_enrol_wf(1) env_enrol_wf(1) srv dev enrol_fresh fresh] live root(1)
    by (simp del: split_paired_Ex) blast
  let ?net = "\<lparr>cn_stream = [], cn_dgrams = [Rx_data (r1, loopback6), Rx_data (r2, loopback6)], cn_tx = [], cn_sent = []\<rparr>"
  have "delivers udp_sample ?net [r1, r2]" "cn_sent ?net = []"
    by (simp_all add: delivers_def udp_sample_def exI [of _ "[loopback6, loopback6]"])
  then obtain ops net' where "do_setup toy1 good_read good_write enrol_rnd enrol_args udp_sample Map.empty ?net = Some (Ret (), ops, net')"
    "cn_sent net' = [wire udp_sample p1, wire udp_sample p2]" using run by blast
  then show ?thesis using d by blast
qed

end
