(* ===== verification/AuthRun.thy ===== *)
theory AuthRun
  imports EndToEnd
begin

text \<open>
  The authentication of \<^verbatim>\<open>c/bin/client.c\<close> against the server of \<^verbatim>\<open>c/bin/server.c\<close>: the client program's
  \<^verbatim>\<open>do_auth\<close> on a network that carries to it the replies of the server's dispatch.
\<close>

subsection \<open>What a reply says about the server\<close>

text \<open>An AUTH_2 comes from an AUTH_1 that was accepted for an entry of the registry and now holds a slot.\<close>

lemma auth1_answered:
  assumes R: "ristretto255 S enc" and wf: "wf_server st" and env: "wf_env env" and sid: "length sid = 16" and out: "66 \<le> length out"
    and d: "dispatch S env (packet AUTH_PKT_AUTH_1 sid seq p) out st = (Ret r1, st1, ops1)"
    and acc: "client_open AUTH_PKT_AUTH_2 (Some r1) = Ret x"
  obtains i c pend t cache j where
    "auth_server_handle_auth1 S (de_auth env j) sid seq (Some p) (sv_server_sk st) (sv_server_pub st)
       (\<lambda>_. Ret (re_device_pub (rg_entries (sv_registry st) ! j), re_role_commitment (rg_entries (sv_registry st) ! j)))
       (Some (sv_allowed_roles st)) (sv_n_allowed st) pending_auth_zero (Some out) = (Ret c, pend)"
    "j < rg_n (sv_registry st)" "r1 = sent c" "st1 = st\<lparr>sv_replay_cache := cache, sv_sessions := t\<rparr>" "ops1 = []"
    "table_view (sv_sessions st) i = None" "table_view t = (table_view (sv_sessions st))(i \<mapsto> In_auth pend)"
proof -
  have err: "error_reply sid seq out (fst (try_handle_auth1 S env sid seq p out st)) = Ret r1"
    and st1: "snd (try_handle_auth1 S env sid seq p out st) = st1" "ops1 = []"
    using d by (auto simp: dispatch_packet [OF sid] split_beta Let_def)
  have ret: "try_handle_auth1 S env sid seq p out st = (Ret r1, st1)"
    using error_reply_accepted [OF sid out _ acc err] st1 by (cases "try_handle_auth1 S env sid seq p out st") simp
  have w: "wf_sessions (table_view (sv_sessions st))" "wf_replay_cache (sv_replay_cache st)" using wf by (simp_all add: wf_server_def)
  show thesis
  proof (cases rule: with_slot_Ret [OF wf ret [unfolded try_handle_auth1_def], case_names slot])
    case (slot i t)
    let ?st = "st\<lparr>sv_sessions := t\<rparr>"
    have wf': "wf_server ?st" using slot(4,5) w(1) by (intro wf_server_sessions [OF wf]) (auto simp: wf_sessions_def)
    obtain r cache where sc: "scan_candidates S env ?st sid seq p out 0 (rg_n (sv_registry st)) AUTH_ERR_UNKNOWN_DEVICE
        (Some (sv_replay_cache st)) = (r, cache)" by fastforce
    have "\<not> (\<exists>e. r = Fail e \<and> cache = Some (sv_replay_cache st))"
      using slot(1) sc by (auto simp: release_slot_def Let_def split: cres.splits)
    then obtain c pend a1 j where acc: "r = Ret (c, pend)" "j < rg_n (sv_registry st)"
      "ring.represents cache (replay_ring (sv_replay_cache st) @ [key_of S a1])"
      "auth_server_handle_auth1 S (de_auth env j) sid seq (Some p) (sv_server_sk st) (sv_server_pub st)
         (\<lambda>_. Ret (re_device_pub (rg_entries (sv_registry st) ! j), re_role_commitment (rg_entries (sv_registry st) ! j)))
         (Some (sv_allowed_roles st)) (sv_n_allowed st) pending_auth_zero (Some out) = (Ret c, pend)"
      using scan_candidates_cases [OF R wf' env sid, of 0 "rg_n (sv_registry st)", OF _ represents_ring [OF w(2)] sc] by auto
    obtain c' where c': "cache = Some c'" using represents_wf [OF acc(3)] by blast
    obtain t' where t': "auth_session_table_activate_auth (Some t) (int i) (Some pend) = Ret t'"
      "table_view t' = (table_view (sv_sessions st))(i \<mapsto> In_auth pend)"
      using table.activate_auth_ok [OF slot(4,2), of pend] slot(5) by auto
    show thesis
      by (rule that [OF acc(4,2) _ _ st1(2) slot(3) t'(2), of c']) (use slot(1) sc acc(1) c' t'(1) in simp_all)
  qed
qed

text \<open>An acknowledged AUTH_3 carried the confirmation tag of the slot's session, and has given the slot back.\<close>

lemma auth3_acknowledged:
  assumes wf: "wf_server st" and sid: "length sid = 16" and out: "66 \<le> length out"
    and d: "dispatch S env (packet AUTH_PKT_AUTH_3 sid seq p) out st = (Ret r, st', ops)"
    and acc: "client_open AUTH_PKT_AUTH_ACK (Some r) = Ret x"
  obtains i pend c where "table_view (sv_sessions st) i = Some (In_auth pend)" "pa_session_id pend = sid"
    "auth_server_handle_auth3 S pend sid seq (Some p) (Some out) = Ret c" "ops = []" "sv_registry st' = sv_registry st"
    "table_view (sv_sessions st') = (table_view (sv_sessions st))(i := None)"
proof -
  have t: "wf_table (sv_sessions st)" using wf by (simp add: wf_server_def)
  have err: "error_reply sid seq out (fst (dispatch_auth3 S sid seq p out st)) = Ret r"
    and st': "snd (dispatch_auth3 S sid seq p out st) = st'" "ops = []"
    using d by (auto simp: dispatch_packet [OF sid] split_beta Let_def)
  have ret: "dispatch_auth3 S sid seq p out st = (Ret r, st')"
    using error_reply_accepted [OF sid out _ acc err] st'(1) by (cases "dispatch_auth3 S sid seq p out st") simp
  show thesis
  proof (cases rule: find_auth_cases [OF t, of sid, case_names none found])
    case none
    then show thesis using ret by (simp add: dispatch_auth3_def)
  next
    case (found i pend)
    let ?h = "auth_server_handle_auth3 S pend sid seq (Some p) (Some out)"
    let ?r = "(case ?h of Fault \<Rightarrow> Fault | Fail err \<Rightarrow> Fail (err, []) | Ret c \<Rightarrow> Ret (sent c)) :: outcome"
    obtain t' where t': "release_slot (int i) ?r st = (?r, st\<lparr>sv_sessions := t'\<rparr>)"
      "table_view t' = (table_view (sv_sessions st))(i := None)" by (rule release_slot_eq [OF t found(2)])
    have eq: "?r = Ret r" "st' = st\<lparr>sv_sessions := t'\<rparr>"
      using ret t'(1) found(1) slot_pending_auth [OF t found(3)] by (simp_all add: dispatch_auth3_def)
    obtain c where "?h = Ret c" using eq(1) by (cases ?h) simp_all
    then show thesis using that [OF found(3,4) _ st'(2)] eq(2) t'(2) by simp
  qed
qed

subsection \<open>The steps of a successful client run\<close>

text \<open>What the client sends in an authentication, and which messages it has accepted.\<close>

lemma auth_run_sent:
  assumes R: "ristretto255 S enc" and rnd: "wf_auth1_random rnd" and enrolled: "enrolled_client S ctx server_pub"
    and creds: "auth_creds_load rio fs (Some (cred_path a)) = Ret creds" "auth_ctx S random16 creds = Ret ctx"
    and net: "delivers t net [r1, r2]" "cn_sent net = []" and len: "length r1 \<le> 2048" "length r2 \<le> 2048"
    and run: "do_auth S rio random16 rnd a t fs net = Some (Ret key8, ops, net')"
  obtains c1 ctx1 a1 ctx2 p3 where
    "auth_client_build_auth1 S rnd ctx (Some (ar_allowed a)) (length (ar_allowed a)) (Some (replicate 2048 0)) = (Ret c1, ctx1)"
    "sent c1 = packet AUTH_PKT_AUTH_1 (cc_session_id ctx) (cc_seq ctx + 1) (auth1_layout a1)" "wf_auth1 a1" "auth1_norm a1 = a1"
    "a1_pid a1 = auth_compute_pid S (cc_device_pub ctx) (a1_nonce_c a1) (a1_eph_c a1) server_pub" "a1_nonce_c a1 = rnd_nonce rnd"
    "auth_scalarmult_base S (auth_random_scalar S (rnd_eph rnd)) = Ret (a1_eph_c a1)"
    "auth_client_handle_auth2 S ctx1 (Some r1) = (Ret (), ctx2)" "key8 = take 8 (cc_session_key ctx2)" "cc_session_id ctx1 = cc_session_id ctx"
    "cn_sent net' = [wire t (sent c1), wire t (packet AUTH_PKT_AUTH_3 (cc_session_id ctx2) (cc_seq ctx2 + 1) p3)]"
    "\<exists>x. client_open AUTH_PKT_AUTH_2 (Some r1) = Ret x" "\<exists>x. client_open AUTH_PKT_AUTH_ACK (Some r2) = Ret x"
proof -
  let ?buf = "replicate 2048 0"
  obtain c1 ctx1 d2' net1 ctx2 c3 ctx3 d4 where
    b1: "auth_client_build_auth1 S rnd ctx (Some (ar_allowed a)) (length (ar_allowed a)) (Some ?buf) = (Ret c1, ctx1)"
    and e1: "exchanged t c1 net = Some (Ret d2', net1)" and h2: "auth_client_handle_auth2 S ctx1 (Some (sent d2')) = (Ret (), ctx2)"
    and b3: "auth_client_build_auth3 S ctx2 (Some ?buf) = (Ret c3, ctx3)" and e3: "exchanged t c3 net1 = Some (Ret d4, net')"
    and h4: "fst (auth_client_handle_auth_ack ctx3 (Some (sent d4))) = Ret ()" and k8: "key8 = take 8 (cc_session_key ctx3)"
    by (rule do_auth_Ret [OF run creds])
  obtain e where h: "auth_attr_h S = Ret (enc e)" by (rule attr_h_enc [OF R])
  let ?p1 = "\<lambda>a1. packet AUTH_PKT_AUTH_1 (cc_session_id ctx) (cc_seq ctx + 1) (auth1_layout a1)"
  obtain a1 where a1: "wf_auth1 a1" "auth1_norm a1 = a1" "sent c1 = ?p1 a1"
    and ctx1: "ctx1 = ctx\<lparr>cc_client_nonce := a1_nonce_c a1, cc_eph_secret := auth_random_scalar S (rnd_eph rnd),
                cc_eph_c := a1_eph_c a1, cc_pending_client_proof := a1_client_proof a1, cc_seq := cc_seq ctx + 1\<rparr>"
    and eph: "auth_scalarmult_base S (auth_random_scalar S (rnd_eph rnd)) = Ret (a1_eph_c a1)"
    and pid: "a1_pid a1 = auth_compute_pid S (cc_device_pub ctx) (a1_nonce_c a1) (a1_eph_c a1) server_pub"
    and c1: "c1 = cur ?buf (?p1 a1)" "length (?p1 a1) \<le> 2048"
    by (rule honest_auth1 [OF R h enrolled rnd refl b1]) blast
  have wf0: "wf_client ctx" using enrolled by (simp add: enrolled_client_def)
  have wf1: "wf_client ctx1" and "cc_client_nonce ctx1 = rnd_nonce rnd" using build_auth1_ctx [OF R wf0 rnd b1] by simp_all
  then have nonce: "a1_nonce_c a1 = rnd_nonce rnd" by (simp add: ctx1)
  obtain net1' where x1: "exchanged t (cur ?buf (?p1 a1)) net = Some (Ret (cur ?buf r1), net1')" "delivers t net1' [r2]"
    "cn_sent net1' = [wire t (?p1 a1)]"
    using exchange_delivered [OF net(1) c1(2) len(1)] net(2) by auto
  then have n1: "net1' = net1" "sent d2' = r1" using e1 c1(1) len(1) by auto
  have wf2: "wf_client ctx2" by (rule client_handlers_safe_auth2 [OF R wf1 h2])
  let ?tag = "auth_hmac_tag S (cc_kc_k_c2s ctx2) (ascii ''client finished'') (cc_kc_th ctx2)"
  let ?p3 = "packet AUTH_PKT_AUTH_3 (cc_session_id ctx2) (cc_seq ctx2 + 1) ?tag"
  have wf3: "wf_auth3 \<lparr>a3_tag_c = ?tag\<rparr>" and l3: "length ?p3 \<le> 2048"
    using wf2 by (simp_all add: wf_auth3_def length_hmac_tag [OF R] wf_client_def)
  have c3: "c3 = cur ?buf ?p3" "ctx3 = ctx2\<lparr>cc_seq := cc_seq ctx2 + 1\<rparr>"
    using b3 auth3.client_send_eq [OF wf3, of ctx2 AUTH_PKT_AUTH_3 ?buf] wf2
    by (simp_all add: auth_client_build_auth3_def wf_auth3_def wf_client_def length_hmac_tag [OF R])
  obtain net2 where x3: "exchanged t (cur ?buf ?p3) net1 = Some (Ret (cur ?buf r2), net2)" "cn_sent net2 = cn_sent net1 @ [wire t ?p3]"
    using exchange_delivered [OF x1(2) [unfolded n1(1)] l3 len(2)] by auto
  then have n2: "net2 = net'" "sent d4 = r2" using e3 c3(1) len(2) by auto
  have "\<exists>x. client_open AUTH_PKT_AUTH_2 (Some r1) = Ret x"
    using h2 n1(2) by (cases "client_open AUTH_PKT_AUTH_2 (Some r1)") (auto simp: auth_client_handle_auth2_def)
  moreover have "\<exists>x. client_open AUTH_PKT_AUTH_ACK (Some r2) = Ret x"
    using h4 n2(2) by (cases "client_open AUTH_PKT_AUTH_ACK (Some r2)") (auto simp: auth_client_handle_auth_ack_def)
  ultimately show thesis
    using that [OF b1 a1(3,1,2) pid nonce eph, of ctx2 ?tag] h2 n1 n2 k8 c3(2) x1(3) x3(2) a1(3) by (simp add: ctx1)
qed

text \<open>An AUTH_2 that the client accepts gives it the keys of the server's session.\<close>

lemma auth2_same_keys:
  assumes R: "ristretto255 S enc" and enrolled: "enrolled_client S ctx server_pub" and rnd: "wf_auth1_random rnd" "wf_auth2_random rnd2"
    and b: "auth_client_build_auth1 S rnd ctx (Some roles) (length roles) (Some buf) = (Ret c1, ctx1)"
    and key: "canonical server_sk" "auth_scalarmult_base S server_sk = Ret server_pub"
    and p: "sent c1 = packet AUTH_PKT_AUTH_1 (cc_session_id ctx) (cc_seq ctx + 1) p"
    and srv: "auth_server_handle_auth1 S rnd2 (cc_session_id ctx) (cc_seq ctx + 1) (Some p) server_sk server_pub lookup
       (Some roles') n' pending (Some buf2) = (Ret c, pend)"
    and acc: "auth_client_handle_auth2 S ctx1 (Some (sent c)) = (Ret (), ctx2)"
  shows "ctx2 = ctx1\<lparr>cc_session_key := pa_session_key pend, cc_kc_th := pa_kc_th pend,
      cc_kc_k_s2c := pa_kc_k_s2c pend, cc_kc_k_c2s := pa_kc_k_c2s pend\<rparr>"
proof -
  let ?h = "packet_header AUTH_PKT_AUTH_1 (cc_session_id ctx) (cc_seq ctx + 1)"
  have "length (cc_session_id ctx) = 16" using enrolled by (simp add: enrolled_client_def wf_client_def)
  then have hdr: "auth_header_decode (Some (sent c1)) = Ret (?h, p)" by (simp add: p packet_parse)
  have srv': "auth_server_handle_auth1 S rnd2 (hdr_session_id ?h) (hdr_seq ?h) (Some p) server_sk server_pub lookup
      (Some roles') n' pending (Some buf2) = (Ret c, pend)" using srv by simp
  show ?thesis by (rule honest_auth2 [OF R enrolled rnd refl b key hdr srv']) (use acc in auto)
qed

subsection \<open>Authentication\<close>

text \<open>C5: an authentication that succeeds on the device has succeeded on the server, with the same key. When the client
  program, started from enrolled credentials, exits with 0 and what it received, over UDP or TCP, is what the server
  replied to the two packets it sent, then between the two packets the server held a session in a slot that was free: it
  is for an entry of the registry whose public key gives the very pseudonym of the device, its nonce and ephemeral
  key are the client's, and the first eight bytes of its session key are the ones the client prints. Afterwards the slot
  is free again, the registry is as before and no file was written.\<close>

theorem authentication_agrees:
  assumes R: "ristretto255 S enc" and rnd: "wf_auth1_random rnd" and st: "wf_server st" and env: "wf_env env1" "wf_env env2"
    and key: "canonical (sv_server_sk st)" "auth_scalarmult_base S (sv_server_sk st) = Ret (sv_server_pub st)"
    and creds: "auth_creds_load rio fs (Some (cred_path a)) = Ret creds" "auth_ctx S random16 creds = Ret ctx"
    and enrolled: "enrolled_client S ctx (sv_server_pub st)"
    and net: "delivers t net [r1, r2]" "cn_sent net = []"
    and run: "do_auth S rio random16 rnd a t fs net = Some (Ret key8, ops, net')"
    and sent: "cn_sent net' = [wire t p1, wire t p2]"
    and d1: "dispatch S env1 p1 (replicate AUTH_MAX_DATAGRAM 0) st = (Ret r1, st1, sops1)"
    and d2: "dispatch S env2 p2 (replicate AUTH_MAX_DATAGRAM 0) st1 = (Ret r2, st2, sops2)"
    and fresh: "\<forall>i p. table_view (sv_sessions st) i = Some (In_auth p) \<longrightarrow> pa_session_id p \<noteq> cc_session_id ctx"
  shows "\<exists>i pend entry. entry \<in> set (take (rg_n (sv_registry st)) (rg_entries (sv_registry st))) \<and>
    table_view (sv_sessions st) i = None \<and> table_view (sv_sessions st1) = (table_view (sv_sessions st))(i \<mapsto> In_auth pend) \<and>
    pa_session_id pend = cc_session_id ctx \<and> pa_device_pub pend = re_device_pub entry \<and>
    auth_compute_pid S (re_device_pub entry) (pa_nonce_c pend) (pa_eph_c pend) (sv_server_pub st) =
      auth_compute_pid S (cc_device_pub ctx) (pa_nonce_c pend) (pa_eph_c pend) (sv_server_pub st) \<and>
    pa_nonce_c pend = rnd_nonce rnd \<and> auth_scalarmult_base S (auth_random_scalar S (rnd_eph rnd)) = Ret (pa_eph_c pend) \<and>
    key8 = take 8 (pa_session_key pend) \<and>
    table_view (sv_sessions st2) = table_view (sv_sessions st) \<and> sv_registry st2 = sv_registry st \<and> sops1 = [] \<and> sops2 = []"
proof -
  have len: "length r1 \<le> 2048" "length r2 \<le> 2048" using dispatch_reply_fits [OF d1] dispatch_reply_fits [OF d2] by simp_all
  have sid: "length (cc_session_id ctx) = 16" using enrolled by (simp add: enrolled_client_def wf_client_def)
  obtain c1 ctx1 a1 ctx2 p3 where
    b1: "auth_client_build_auth1 S rnd ctx (Some (ar_allowed a)) (length (ar_allowed a)) (Some (replicate 2048 0)) = (Ret c1, ctx1)"
    and a1: "ClientProto.sent c1 = packet AUTH_PKT_AUTH_1 (cc_session_id ctx) (cc_seq ctx + 1) (auth1_layout a1)" "wf_auth1 a1" "auth1_norm a1 = a1"
    "a1_pid a1 = auth_compute_pid S (cc_device_pub ctx) (a1_nonce_c a1) (a1_eph_c a1) (sv_server_pub st)" "a1_nonce_c a1 = rnd_nonce rnd"
    "auth_scalarmult_base S (auth_random_scalar S (rnd_eph rnd)) = Ret (a1_eph_c a1)"
    and c2: "auth_client_handle_auth2 S ctx1 (Some r1) = (Ret (), ctx2)" "key8 = take 8 (cc_session_key ctx2)" "cc_session_id ctx1 = cc_session_id ctx"
    "cn_sent net' = [wire t (ClientProto.sent c1), wire t (packet AUTH_PKT_AUTH_3 (cc_session_id ctx2) (cc_seq ctx2 + 1) p3)]"
    and op: "\<exists>x. client_open AUTH_PKT_AUTH_2 (Some r1) = Ret x" "\<exists>x. client_open AUTH_PKT_AUTH_ACK (Some r2) = Ret x"
    by (rule auth_run_sent [OF R rnd enrolled creds net len run])
  have p: "p1 = packet AUTH_PKT_AUTH_1 (cc_session_id ctx) (cc_seq ctx + 1) (auth1_layout a1)"
    "p2 = packet AUTH_PKT_AUTH_3 (cc_session_id ctx2) (cc_seq ctx2 + 1) p3"
    using sent c2(4) a1(1) by simp_all
  obtain i c pend tab cache j where srv: "auth_server_handle_auth1 S (de_auth env1 j) (cc_session_id ctx) (cc_seq ctx + 1) (Some (auth1_layout a1))
       (sv_server_sk st) (sv_server_pub st)
       (\<lambda>_. Ret (re_device_pub (rg_entries (sv_registry st) ! j), re_role_commitment (rg_entries (sv_registry st) ! j)))
       (Some (sv_allowed_roles st)) (sv_n_allowed st) pending_auth_zero (Some (replicate 2048 0)) = (Ret c, pend)"
    and j: "j < rg_n (sv_registry st)" and s1: "r1 = ClientProto.sent c" "st1 = st\<lparr>sv_replay_cache := cache, sv_sessions := tab\<rparr>" "sops1 = []"
    "table_view (sv_sessions st) i = None" "table_view tab = (table_view (sv_sessions st))(i \<mapsto> In_auth pend)"
    using op(1) by (elim exE) (rule auth1_answered [OF R st env(1) sid _ d1 [unfolded p(1)]], simp_all)
  have rnd2: "wf_auth2_random (de_auth env1 j)" using env(1) by (simp add: wf_env_def)
  have ctx2: "ctx2 = ctx1\<lparr>cc_session_key := pa_session_key pend, cc_kc_th := pa_kc_th pend,
      cc_kc_k_s2c := pa_kc_k_s2c pend, cc_kc_k_c2s := pa_kc_k_c2s pend\<rparr>"
    by (rule auth2_same_keys [OF R enrolled rnd rnd2 b1 key a1(1) srv]) (use c2(1) s1(1) in simp)
  have sid2: "cc_session_id ctx2 = cc_session_id ctx" by (simp add: ctx2 c2(3))
  have st1: "wf_server st1" using dispatch_steps [OF R st env(1) d1] by simp
  obtain k pend' where s2: "table_view (sv_sessions st1) k = Some (In_auth pend')" "pa_session_id pend' = cc_session_id ctx"
    "sops2 = []" "sv_registry st2 = sv_registry st1" "table_view (sv_sessions st2) = (table_view (sv_sessions st1))(k := None)"
    using op(2) by (elim exE) (rule auth3_acknowledged [OF st1 sid _ d2 [unfolded p(2) sid2]], simp_all)
  have k: "k = i" using s2(1,2) s1(2,5) fresh by (auto split: if_splits)
  have pend: "\<exists>dp. auth1_checks S (Some (auth1_layout a1)) (sv_server_pub st)
      (\<lambda>_. Ret (re_device_pub (rg_entries (sv_registry st) ! j), re_role_commitment (rg_entries (sv_registry st) ! j)))
      (Some (sv_allowed_roles st)) (sv_n_allowed st) = Ret (a1, dp)"
    using handle_auth1_checked [OF srv] auth1_checks_decoded auth1.dec_layout [OF a1(2)] a1(3) by (metis cres.inject(2))
  then have pa: "pa_session_id pend = cc_session_id ctx" "pa_device_pub pend = re_device_pub (rg_entries (sv_registry st) ! j)"
    "pa_nonce_c pend = a1_nonce_c a1" "pa_eph_c pend = a1_eph_c a1"
    "a1_pid a1 = auth_compute_pid S (re_device_pub (rg_entries (sv_registry st) ! j)) (a1_nonce_c a1) (a1_eph_c a1) (sv_server_pub st)"
    using handle_auth1_pending [OF srv] by (auto simp: auth1_checks_Ret_iff)
  have "rg_n (sv_registry st) \<le> length (rg_entries (sv_registry st))" using st by (simp add: wf_server_def wf_registry_def)
  then have "rg_entries (sv_registry st) ! j \<in> set (take (rg_n (sv_registry st)) (rg_entries (sv_registry st)))"
    using j by (auto simp: in_set_conv_nth)
  then show ?thesis
    using pa a1(4-6) s1 s2 k c2(2) ctx2
    by (intro exI [of _ i] exI [of _ pend] exI [of _ "rg_entries (sv_registry st) ! j"]) (simp add: fun_upd_idem)
qed

text \<open>The other direction, for the concrete run: an AUTH_1 that the handler accepts for the first entry opens a session, and
  the AUTH_3 of that session closes it.\<close>

lemma auth1_opens:
  assumes R: "ristretto255 S enc" and wf: "wf_server st" and sid: "length sid = 16" and free: "i < 64" "table_view (sv_sessions st) i = None"
    and reg: "rg_n (sv_registry st) = 1" "rg_entries (sv_registry st) ! 0 = e" and empty: "replay_ring (sv_replay_cache st) = []"
    and h: "auth_server_handle_auth1 S (de_auth env 0) sid seq (Some p) (sv_server_sk st) (sv_server_pub st)
       (\<lambda>_. Ret (re_device_pub e, re_role_commitment e)) (Some (sv_allowed_roles st)) (sv_n_allowed st) pending_auth_zero (Some out) = (Ret c, pend)"
  shows "\<exists>j t cache. dispatch S env (packet AUTH_PKT_AUTH_1 sid seq p) out st =
      (Ret (sent c), st\<lparr>sv_replay_cache := cache, sv_sessions := t\<rparr>, []) \<and> table_view t = (table_view (sv_sessions st))(j \<mapsto> In_auth pend)"
proof -
  have tb: "wf_table (sv_sessions st)" "wf_replay_cache (sv_replay_cache st)" "length (rg_entries (sv_registry st)) = 256"
    using wf by (simp_all add: wf_server_def wf_registry_def)
  obtain a1 dp where "auth1_checks S (Some p) (sv_server_pub st) (\<lambda>_. Ret (re_device_pub e, re_role_commitment e))
      (Some (sv_allowed_roles st)) (sv_n_allowed st) = Ret (a1, dp)" using handle_auth1_checked [OF h] by blast
  then have a1: "auth_auth1_decode (Some p) = Ret a1" by (rule auth1_checks_decoded)
  have rep: "ring.represents (Some (sv_replay_cache st)) []" using represents_ring [OF tb(2)] empty by simp
  have none: "set (recent 64 ([] :: byte list list)) = {}" by (simp add: recent_def)
  obtain cache where g:
    "auth_server_handle_auth1_guarded S (de_auth env 0) (Some (sv_replay_cache st)) sid seq (Some p) (sv_server_sk st) (sv_server_pub st)
        (\<lambda>_. Ret (re_device_pub e, re_role_commitment e)) (Some (sv_allowed_roles st)) (sv_n_allowed st) pending_auth_zero (Some out) =
      (Ret c, pend, Some cache)"
  proof (cases rule: guarded_decoded [OF R rep a1, of "de_auth env 0" sid seq "sv_server_sk st" "sv_server_pub st"
        "\<lambda>_. Ret (re_device_pub e, re_role_commitment e)" "sv_allowed_roles st" "sv_n_allowed st" pending_auth_zero out, case_names dec])
    case (dec c1)
    have "ring.represents c1 ([] @ [key_of S a1])" using dec(1) by (simp add: none)
    then obtain cache where "c1 = Some cache" using represents_wf by blast
    then show thesis using that dec(2) h none by simp
  qed
  have lk: "scan_lookup \<lparr>sc_candidate_pub = re_device_pub e, sc_candidate_rc = re_role_commitment e, sc_have_candidate = True\<rparr> =
      (\<lambda>_. Ret (re_device_pub e, re_role_commitment e))" by (simp add: scan_lookup_def fun_eq_iff)
  have scan: "scan_candidates S env (st\<lparr>sv_sessions := t\<rparr>) sid seq p out 0 (Suc 0) AUTH_ERR_UNKNOWN_DEVICE (Some (sv_replay_cache st)) =
      (Ret (c, pend), Some cache)" for t
    using tb(3) reg(2) g by (simp add: get_entry_def lk)
  show ?thesis
  proof (cases rule: table.reserve_cases [OF tb(1), case_names full slot])
    case full
    then show ?thesis using free by blast
  next
    case (slot j t)
    obtain t' where "auth_session_table_activate_auth (Some t) (int j) (Some pend) = Ret t'"
      "table_view t' = (table_view (sv_sessions st))(j \<mapsto> In_auth pend)"
      using table.activate_auth_ok [OF slot(4,2), of pend] slot(5) by auto
    then show ?thesis
      using slot(1) scan [of t] reg(1)
      by (intro exI [of _ j] exI [of _ t'] exI [of _ cache])
        (simp add: dispatch_packet [OF sid] try_handle_auth1_def with_slot_def error_reply_def)
  qed
qed

lemma auth3_closes:
  assumes wf: "wf_server st" and sid: "length sid = 16" and s: "pa_session_id pend = sid"
    and only: "table_view (sv_sessions st) = [i \<mapsto> In_auth pend]"
    and h: "auth_server_handle_auth3 S pend sid seq (Some p) (Some out) = Ret c"
  shows "\<exists>st'. dispatch S env (packet AUTH_PKT_AUTH_3 sid seq p) out st = (Ret (sent c), st', [])"
proof -
  have t: "wf_table (sv_sessions st)" using wf by (simp add: wf_server_def)
  have i: "i < 64" using table.view_dom [OF t, of i] only by simp
  show ?thesis
  proof (cases rule: find_auth_cases [OF t, of sid, case_names none found])
    case none
    then show ?thesis
      using i s only table.find_auth_eq [OF t, of sid]
      by (cases rule: first_slot_cases [of 64 "\<lambda>i. auth_of sid (table_view (sv_sessions st) i)"]) (auto simp: auth_of_def)
  next
    case (found j q)
    have q: "q = pend" using only found(3) by (simp split: if_splits)
    obtain t' where "release_slot (int j) (Ret (sent c)) st = (Ret (sent c), st\<lparr>sv_sessions := t'\<rparr>)" by (rule release_slot_eq [OF t found(2)])
    then show ?thesis
      using found(1) slot_pending_auth [OF t found(3)] h q by (simp add: dispatch_packet [OF sid] dispatch_auth3_def error_reply_def)
  qed
qed

text \<open>The concrete run: the device of \<open>creds_sample\<close>, which the sample server now has in its registry.\<close>

definition entry_auth :: auth_registry_entry where
  "entry_auth = \<lparr>re_device_id = replicate 32 5, re_device_pub = toy_enc device_int, re_role_commitment = toy_enc 47\<rparr>"

definition server_auth :: server_state where
  "server_auth = server_sample\<lparr>sv_registry := (sv_registry server_sample)\<lparr>rg_entries := (rg_entries (sv_registry server_sample))[0 := entry_auth]\<rparr>\<rparr>"

lemma server_auth_facts:
  "wf_server server_auth" "sv_server_sk server_auth = sc 4" "sv_server_pub server_auth = toy_enc 4" "sv_allowed_roles server_auth = [2]"
  "sv_n_allowed server_auth = 1" "table_view (sv_sessions server_auth) = (\<lambda>_. None)" "rg_n (sv_registry server_auth) = 1"
  "rg_entries (sv_registry server_auth) ! 0 = entry_auth" "replay_ring (sv_replay_cache server_auth) = []"
proof -
  have e: "wf_entry entry_auth" by (simp add: wf_entry_def entry_auth_def toy_enc_def)
  have w: "wf_registry (sv_registry server_sample)" using server_sample_wf by (simp add: wf_server_def)
  have n: "rg_n (sv_registry server_sample) = 1" "length (rg_entries (sv_registry server_sample)) = 256"
    using w by (simp_all add: server_sample_def wf_registry_def)
  then show "rg_n (sv_registry server_auth) = 1" "rg_entries (sv_registry server_auth) ! 0 = entry_auth" by (simp_all add: server_auth_def)
  have "registry_ids (sv_registry server_auth) = [re_device_id entry_auth]"
    using n by (simp add: registry_ids_def server_auth_def take_Suc_conv_app_nth)
  then show "wf_server server_auth"
    using server_sample_wf wf_registry_put [OF w e, of 0] by (simp add: wf_server_def server_auth_def)
qed (use table_zero(2) wf_cache_zero(2) in \<open>simp_all add: server_auth_def server_sample_def\<close>)

lemma device_int_seven: "(7 + device_int) mod group_order \<noteq> 0"
proof -
  have "device_int = foldl (\<lambda>h b. h * 257 + uint b + 1) 5 (ascii ''device-auth-v1'' @ replicate 32 0) mod 256 ^ 64"
    by (simp add: device_int_def rewound_sodium_def toy_sodium_def toy_hash_def le_int_le_enc)
  moreover have "(7 + foldl (\<lambda>h b. h * 257 + uint b + 1) 5 (ascii ''device-auth-v1'' @ replicate 32 0) mod 256 ^ 64) mod group_order \<noteq> 0"
    by code_simp
  ultimately show ?thesis by metis
qed

lemma auth_enrolled:
  obtains ctx0 where "auth_ctx toy1 (replicate 16 7) creds_sample = Ret ctx0" "enrolled_client toy1 ctx0 (toy_enc 4)"
    "cc_device_sk ctx0 = sc device_int" "cc_device_pub ctx0 = toy_enc device_int" "cc_role_code ctx0 = 2" "cc_role_blind ctx0 = sc 5"
    "cc_role_commitment ctx0 = toy_enc 47" "cc_session_id ctx0 = replicate 16 7" "cc_seq ctx0 = 0"
proof (cases rule: setup_ctx_cases [OF rewound_ristretto wf_creds_sample, of "replicate 16 7" 1 0, case_names len fail ctx])
  case (fail e)
  then show thesis
    using rewound_base [OF device_int_nonzero(1)] by (simp add: setup_ctx_def device_ctx_def zero_client_def creds_sample_def device_scalar)
next
  case (ctx ctx0)
  note R = rewound_ristretto [of 1]
  have start: "auth_ctx toy1 (replicate 16 7) creds_sample = Ret ctx0"
    using ctx(1) auth_ctx_eq [of creds_sample toy1 "replicate 16 7" 0] by (simp add: creds_sample_def)
  have f: "cc_device_sk ctx0 = sc device_int" "cc_device_pub ctx0 = toy_enc device_int"
    using ctx(3,5) rewound_base [OF device_int_nonzero(1)] by (simp_all add: creds_sample_def device_scalar)
  have r: "cc_role_code ctx0 = 2" "cc_role_blind ctx0 = sc 5" "cc_role_commitment ctx0 = toy_enc 47" "cc_has_role ctx0"
    "cc_has_pinned_server ctx0" "cc_server_pub_pinned ctx0 = toy_enc 4" using ctx(6-11) by (simp_all add: creds_sample_def)
  have "auth_make_role_commitment toy1 2 (sc 5) = Ret (toy_enc 47)"
    using commitment_enc [OF R rewound_h, of "sc 5" 2] by (simp add: enc_eq_iff [OF R] small_mods)
  then have "enrolled_client toy1 ctx0 (toy_enc 4)"
    using ctx(2) f r rewound_base [OF device_int_nonzero(1)] by (simp add: enrolled_client_def)
  then show thesis using that [OF start] f r ctx(12,13) by simp
qed simp

lemma auth_checks:
  assumes ec: "enrolled_client toy1 ctx (toy_enc 4)" and dev: "cc_device_sk ctx = sc device_int" "cc_device_pub ctx = toy_enc device_int"
    and role: "cc_role_code ctx = 2" "cc_role_blind ctx = sc 5" "cc_role_commitment ctx = toy_enc 47"
    and pid: "pid = auth_compute_pid toy1 (toy_enc device_int) (replicate 32 1) (toy_enc 6) (toy_enc 4)"
  shows "auth_client_build_auth1 toy1 rnd_sample ctx (Some [2]) 1 (Some (replicate 2048 0)) =
      (Ret (cur (replicate 2048 0) (packet AUTH_PKT_AUTH_1 (cc_session_id ctx) (cc_seq ctx + 1) (auth1_layout (toy_auth1 pid device_int)))),
       ctx\<lparr>cc_client_nonce := replicate 32 1, cc_eph_secret := sc 6, cc_eph_c := toy_enc 6,
         cc_pending_client_proof := \<lparr>prf_a = toy_enc 7, prf_s = sc (7 + device_int)\<rparr>, cc_seq := cc_seq ctx + 1\<rparr>)"
    and "length (packet AUTH_PKT_AUTH_1 (cc_session_id ctx) (cc_seq ctx + 1) (auth1_layout (toy_auth1 pid device_int))) \<le> 2048"
    and "auth1_checks toy1 (Some (auth1_layout (toy_auth1 pid device_int))) (toy_enc 4) (\<lambda>_. Ret (toy_enc device_int, toy_enc 47)) (Some [2]) 1 =
      Ret (toy_auth1 pid device_int, toy_enc device_int)"
    and "wf_auth1 (toy_auth1 pid device_int)"
proof -
  note R = rewound_ristretto [of 1]
  have wf: "wf_client ctx" "cc_has_role ctx" "cc_has_pinned_server ctx" "cc_server_pub_pinned ctx = toy_enc 4"
    using ec by (simp_all add: enrolled_client_def)
  note b = toy_build_auth1 [OF wf(1) dev(1) device_int_nonzero(1) role wf(2,3), of pid]
  show b1: "auth_client_build_auth1 toy1 rnd_sample ctx (Some [2]) 1 (Some (replicate 2048 0)) =
      (Ret (cur (replicate 2048 0) (packet AUTH_PKT_AUTH_1 (cc_session_id ctx) (cc_seq ctx + 1) (auth1_layout (toy_auth1 pid device_int)))),
       ctx\<lparr>cc_client_nonce := replicate 32 1, cc_eph_secret := sc 6, cc_eph_c := toy_enc 6,
         cc_pending_client_proof := \<lparr>prf_a = toy_enc 7, prf_s = sc (7 + device_int)\<rparr>, cc_seq := cc_seq ctx + 1\<rparr>)"
    and len: "length (packet AUTH_PKT_AUTH_1 (cc_session_id ctx) (cc_seq ctx + 1) (auth1_layout (toy_auth1 pid device_int))) \<le> 2048"
    using b dev(2) wf(4) pid by simp_all
  have "length pid = 32" by (simp add: pid length_pid [OF R])
  then show w: "wf_auth1 (toy_auth1 pid device_int)"
    using auth1_run_wf(1) by (simp add: toy_auth1_def wf_auth1_def wf_proof_def length_enc [OF R])
  have nrm: "auth1_norm (toy_auth1 pid device_int) = toy_auth1 pid device_int"
    by (simp add: toy_auth1_def auth1_norm_def auth1_run_def)
  obtain a1 where a1: "auth1_layout a1 = auth1_layout (toy_auth1 pid device_int)" "wf_auth1 a1" "auth1_norm a1 = a1"
    and iff: "auth1_checks toy1 (Some (auth1_layout a1)) (toy_enc 4) (\<lambda>_. Ret (toy_enc device_int, toy_enc 47)) (Some [2]) 1 =
       Ret (a1, toy_enc device_int) \<longleftrightarrow> auth1_nonzero toy1 9 rnd_sample ctx [2] a1"
    using honest_checks [OF R rewound_h ec rnd_samples_wf(1) _ b1, of "\<lambda>_. Ret (toy_enc device_int, toy_enc 47)"] dev(2) role(3) len by auto
  have "a1 = toy_auth1 pid device_int" using auth1.layout_inj [OF a1(2) w a1(1)] a1(3) nrm by simp
  moreover have "auth1_nonzero toy1 9 rnd_sample ctx [2] (toy_auth1 pid device_int)"
    using wide_sc [of 6 1] device_int_seven device_int_nonzero(1) dev role
    by (simp add: auth1_nonzero_def schnorr_nonzero_def chal_one toy_auth1_def auth1_run_def rnd_sample_def Let_def
        auth_random_scalar_def sc_eq_iff small_mods)
  ultimately show "auth1_checks toy1 (Some (auth1_layout (toy_auth1 pid device_int))) (toy_enc 4) (\<lambda>_. Ret (toy_enc device_int, toy_enc 47)) (Some [2]) 1 =
      Ret (toy_auth1 pid device_int, toy_enc device_int)" using iff by simp
qed

text \<open>The client's side of the run, once the server's handler has answered.\<close>

lemma auth_client_accepts:
  assumes ec: "enrolled_client toy1 ctx (toy_enc 4)"
    and b: "auth_client_build_auth1 toy1 rnd_sample ctx (Some [2]) 1 (Some (replicate 2048 0)) = (Ret c1, ctx1)"
    and p: "sent c1 = packet AUTH_PKT_AUTH_1 (cc_session_id ctx) (cc_seq ctx + 1) p"
    and srv: "auth_server_handle_auth1 toy1 rnd2_sample (cc_session_id ctx) (cc_seq ctx + 1) (Some p) (sc 4) (toy_enc 4) lookup
       (Some [2]) 1 pending_auth_zero (Some (replicate 2048 0)) = (Ret c2, pend)" and eph: "pa_eph_s pend = toy_enc 8"
  obtains ctx2 p3 c4 where "auth_client_handle_auth2 toy1 ctx1 (Some (sent c2)) = (Ret (), ctx2)" "cc_session_id ctx2 = cc_session_id ctx1"
    "length p3 = 32"
    "auth_client_build_auth3 toy1 ctx2 (Some (replicate 2048 0)) =
       (Ret (cur (replicate 2048 0) (packet AUTH_PKT_AUTH_3 (cc_session_id ctx1) (cc_seq ctx2 + 1) p3)), ctx2\<lparr>cc_seq := cc_seq ctx2 + 1\<rparr>)"
    "auth_server_handle_auth3 toy1 pend (cc_session_id ctx1) (cc_seq ctx2 + 1) (Some p3) (Some (replicate 2048 0)) = Ret c4"
    "auth_client_handle_auth_ack (ctx2\<lparr>cc_seq := cc_seq ctx2 + 1\<rparr>) (Some (sent c4)) = (Ret (), ctx2\<lparr>cc_seq := cc_seq ctx2 + 1, cc_auth_complete := True\<rparr>)"
    "pa_session_id pend = cc_session_id ctx1"
proof -
  note R = rewound_ristretto [of 1]
  let ?h = "packet_header AUTH_PKT_AUTH_1 (cc_session_id ctx) (cc_seq ctx + 1)"
  have s16: "length (cc_session_id ctx) = 16" using ec by (simp add: enrolled_client_def wf_client_def)
  then have hdr: "auth_header_decode (Some (sent c1)) = Ret (?h, p)" by (simp add: p packet_parse)
  have srv': "auth_server_handle_auth1 toy1 rnd2_sample (hdr_session_id ?h) (hdr_seq ?h) (Some p) (sc 4) (toy_enc 4) lookup
       (Some [2]) 1 pending_auth_zero (Some (replicate 2048 0)) = (Ret c2, pend)" using srv by simp
  have ord: "4 mod group_order \<noteq> 0" "sc 6 \<noteq> sc 0" by (simp_all add: group_order_def sc_eq_iff)
  have wfp: "wf_proof \<lparr>prf_a = toy_enc 2, prf_s = sc 6\<rparr>" by (simp add: wf_proof_def toy_enc_def)
  have n1: "length [2 :: u64] = 1" by simp
  have sel: "rnd_server rnd2_sample = le_enc 64 2" "rnd_nonce_s rnd2_sample = replicate 32 9" by (simp_all add: rnd2_sample_def)
  let ?ctx2 = "ctx1\<lparr>cc_session_key := pa_session_key pend, cc_kc_th := pa_kc_th pend,
                       cc_kc_k_s2c := pa_kc_k_s2c pend, cc_kc_k_c2s := pa_kc_k_c2s pend\<rparr>"
  have "pa_session_id pend = cc_session_id ctx1 \<and> wf_client ctx1 \<and> auth_client_handle_auth2 toy1 ctx1 (Some (sent c2)) = (Ret (), ?ctx2)"
  proof (rule honest_auth2 [OF R ec rnd_samples_wf n1 b canonical_sc rewound_base [OF ord(1)] hdr srv'])
    fix sp assume "auth_prove_auth_server toy1 (rnd_server rnd2_sample) (sc 4) (rnd_nonce_s rnd2_sample) (pa_eph_s pend) = Ret sp"
    then have "sp = \<lparr>prf_a = toy_enc 2, prf_s = sc 6\<rparr>" using prove_server_run eph sel by simp
    moreover have "schnorr_nonzero toy1 u (sc 4) \<lparr>prf_a = toy_enc 2, prf_s = sc 6\<rparr>" for u
      using toy1_nonzero [OF wfp _ ord(1)] ord(2) by simp
    moreover assume "pa_session_id pend = cc_session_id ctx1" "wf_client ctx1"
      "schnorr_nonzero toy1 (tr_auth_server (toy_enc 4) (prf_a sp) (rnd_nonce_s rnd2_sample) (pa_eph_s pend)) (sc 4) sp \<Longrightarrow>
         auth_client_handle_auth2 toy1 ctx1 (Some (sent c2)) = (Ret (), ?ctx2)"
    ultimately show ?thesis by simp
  qed
  then have h: "pa_session_id pend = cc_session_id ctx1" "auth_client_handle_auth2 toy1 ctx1 (Some (sent c2)) = (Ret (), ?ctx2)"
    and wf2: "wf_client ?ctx2" using client_handlers_safe_auth2 [OF R, of ctx1 "Some (sent c2)"] by auto
  have s2: "length (cc_session_id ctx1) = 16" using wf2 by (simp add: wf_client_def)
  let ?tag = "auth_hmac_tag toy1 (cc_kc_k_c2s ?ctx2) (ascii ''client finished'') (cc_kc_th ?ctx2)"
  let ?p3 = "packet AUTH_PKT_AUTH_3 (cc_session_id ctx1) (cc_seq ?ctx2 + 1) ?tag"
  have wf3: "wf_auth3 \<lparr>a3_tag_c = ?tag\<rparr>" by (simp add: wf_auth3_def length_hmac_tag [OF R])
  have b3: "auth_client_build_auth3 toy1 ?ctx2 (Some (replicate 2048 0)) = (Ret (cur (replicate 2048 0) ?p3), ?ctx2\<lparr>cc_seq := cc_seq ?ctx2 + 1\<rparr>)"
    using auth3.client_send_eq [OF wf3, of ?ctx2 AUTH_PKT_AUTH_3 "replicate 2048 0"] s2
    by (simp add: auth_client_build_auth3_def wf_auth3_def length_hmac_tag [OF R])
  obtain c3 ctx3 p3 c4 where d: "auth_client_build_auth3 toy1 ?ctx2 (Some (replicate 2048 0)) = (Ret c3, ctx3)"
    "sent c3 = packet AUTH_PKT_AUTH_3 (cc_session_id ?ctx2) (cc_seq ?ctx2 + 1) p3"
    "auth_server_handle_auth3 toy1 pend (cc_session_id ?ctx2) (cc_seq ?ctx2 + 1) (Some p3) (Some (replicate 2048 0)) = Ret c4"
    "auth_client_handle_auth_ack ctx3 (Some (sent c4)) = (Ret (), ctx3\<lparr>cc_auth_complete := True\<rparr>)"
    using auth3_completes [OF R wf2, of pend "replicate 2048 0" "replicate 2048 0"] h(1) by auto
  have "p3 = ?tag" "ctx3 = ?ctx2\<lparr>cc_seq := cc_seq ?ctx2 + 1\<rparr>" using d(1,2) b3 s2 by (auto simp: length_hmac_tag [OF R])
  then show thesis using that [OF h(2) _ _ b3] d(3,4) h(1) by (simp add: length_hmac_tag [OF R])
qed

theorem authentication_agrees_witness:
  "\<exists>ctx net key8 net' p1 p2 r1 r2 st1 st2 pend i. auth_ctx toy1 (replicate 16 7) creds_sample = Ret ctx \<and>
     do_auth toy1 good_read (replicate 16 7) rnd_sample auth_args udp_sample auth_fs net = Some (Ret key8, [], net') \<and>
     cn_sent net' = [wire udp_sample p1, wire udp_sample p2] \<and>
     dispatch toy1 env_sample p1 (replicate 2048 0) server_auth = (Ret r1, st1, []) \<and>
     dispatch toy1 env_sample p2 (replicate 2048 0) st1 = (Ret r2, st2, []) \<and>
     table_view (sv_sessions st1) i = Some (In_auth pend) \<and> key8 = take 8 (pa_session_key pend) \<and> pa_device_pub pend = toy_enc device_int"
proof -
  note R = rewound_ristretto [of 1] and srv = server_auth_facts
  obtain ctx where ctx: "auth_ctx toy1 (replicate 16 7) creds_sample = Ret ctx" "enrolled_client toy1 ctx (toy_enc 4)"
    "cc_device_sk ctx = sc device_int" "cc_device_pub ctx = toy_enc device_int" "cc_role_code ctx = 2" "cc_role_blind ctx = sc 5"
    "cc_role_commitment ctx = toy_enc 47" "cc_session_id ctx = replicate 16 7" "cc_seq ctx = 0"
    by (rule auth_enrolled)
  let ?a1 = "toy_auth1 (auth_compute_pid toy1 (toy_enc device_int) (replicate 32 1) (toy_enc 6) (toy_enc 4)) device_int"
  let ?p1 = "packet AUTH_PKT_AUTH_1 (replicate 16 7) 1 (auth1_layout ?a1)"
  obtain ctx1 where b1: "auth_client_build_auth1 toy1 rnd_sample ctx (Some [2]) 1 (Some (replicate 2048 0)) = (Ret (cur (replicate 2048 0) ?p1), ctx1)"
    and len1: "length ?p1 \<le> 2048" and chk: "auth1_checks toy1 (Some (auth1_layout ?a1)) (toy_enc 4) (\<lambda>_. Ret (toy_enc device_int, toy_enc 47)) (Some [2]) 1 =
      Ret (?a1, toy_enc device_int)" and wf: "wf_auth1 ?a1" and sid1: "cc_session_id ctx1 = replicate 16 7"
    using auth_checks [OF ctx(2-7) refl] ctx(8,9) by auto
  obtain c2 pend where h1: "auth_server_handle_auth1 toy1 rnd2_sample (replicate 16 7) 1 (Some (auth1_layout ?a1)) (sc 4) (toy_enc 4)
      (\<lambda>_. Ret (toy_enc device_int, toy_enc 47)) (Some [2]) 1 pending_auth_zero (Some (replicate 2048 0)) = (Ret c2, pend)"
    and es: "pa_eph_s pend = toy_enc 8"
    using toy_server_auth1 [OF chk wf, of "replicate 16 7" 1] by (auto simp: toy_auth1_def auth1_run_def)
  obtain ctx2 p3 c4 where a: "auth_client_handle_auth2 toy1 ctx1 (Some (sent c2)) = (Ret (), ctx2)" "cc_session_id ctx2 = cc_session_id ctx1" "length p3 = 32"
    "auth_client_build_auth3 toy1 ctx2 (Some (replicate 2048 0)) =
       (Ret (cur (replicate 2048 0) (packet AUTH_PKT_AUTH_3 (cc_session_id ctx1) (cc_seq ctx2 + 1) p3)), ctx2\<lparr>cc_seq := cc_seq ctx2 + 1\<rparr>)"
    "auth_server_handle_auth3 toy1 pend (cc_session_id ctx1) (cc_seq ctx2 + 1) (Some p3) (Some (replicate 2048 0)) = Ret c4"
    "auth_client_handle_auth_ack (ctx2\<lparr>cc_seq := cc_seq ctx2 + 1\<rparr>) (Some (sent c4)) = (Ret (), ctx2\<lparr>cc_seq := cc_seq ctx2 + 1, cc_auth_complete := True\<rparr>)"
    "pa_session_id pend = cc_session_id ctx1"
    by (rule auth_client_accepts [OF ctx(2) b1 _ _ es]) (use h1 ctx(8,9) len1 in simp_all)
  note a = a [unfolded sid1]
  let ?p3 = "packet AUTH_PKT_AUTH_3 (replicate 16 7) (cc_seq ctx2 + 1) p3"
  have s16: "length (replicate 16 (7 :: byte)) = 16" and len3: "length ?p3 \<le> 2048" using a(3) by simp_all
  have env: "de_auth env_sample 0 = rnd2_sample" by (simp add: env_sample_def)
  obtain j t cache where d1: "dispatch toy1 env_sample ?p1 (replicate 2048 0) server_auth =
      (Ret (sent c2), server_auth\<lparr>sv_replay_cache := cache, sv_sessions := t\<rparr>, [])" and t: "table_view t = [j \<mapsto> In_auth pend]"
    using auth1_opens [OF R srv(1) s16 _ _ srv(7,8,9), of 0 env_sample 1 "auth1_layout ?a1" "replicate 2048 0" c2 pend]
      srv h1 env by (auto simp: entry_auth_def)
  let ?st1 = "server_auth\<lparr>sv_replay_cache := cache, sv_sessions := t\<rparr>"
  have st1: "wf_server ?st1" using dispatch_steps [OF R srv(1) env_sample_wf d1] by simp
  obtain st2 where d2: "dispatch toy1 env_sample ?p3 (replicate 2048 0) ?st1 = (Ret (sent c4), st2, [])"
    using auth3_closes [OF st1 s16 a(7) _ a(5), of j env_sample] t by auto
  have len: "length (sent c2) \<le> 2048" "length (sent c4) \<le> 2048" using dispatch_reply_fits [OF d1] dispatch_reply_fits [OF d2] by simp_all
  define net where "net = auth_net\<lparr>cn_dgrams := [Rx_data (sent c2, loopback6), Rx_data (sent c4, loopback6)]\<rparr>"
  have dl: "delivers udp_sample net [sent c2, sent c4]" "cn_sent net = []"
    by (simp_all add: delivers_def udp_sample_def net_def auth_net_def exI [of _ "[loopback6, loopback6]"])
  obtain net1 where e1: "exchanged udp_sample (cur (replicate 2048 0) ?p1) net = Some (Ret (cur (replicate 2048 0) (sent c2)), net1)"
    "delivers udp_sample net1 [sent c4]" "cn_sent net1 = [wire udp_sample ?p1]"
    using exchange_delivered [OF dl(1) len1 len(1)] dl(2) by auto
  obtain net2 where e2: "exchanged udp_sample (cur (replicate 2048 0) ?p3) net1 = Some (Ret (cur (replicate 2048 0) (sent c4)), net2)"
    "cn_sent net2 = [wire udp_sample ?p1, wire udp_sample ?p3]"
    using exchange_delivered [OF e1(2) len3 len(2)] e1(3) by auto
  have flags: "cr_has_pinned_server creds_sample" "cr_has_role creds_sample" by (simp_all add: creds_sample_def)
  have b1': "auth_client_build_auth1 toy1 rnd_sample ctx (Some (ar_allowed auth_args)) (length (ar_allowed auth_args)) (Some (replicate 2048 0)) =
      (Ret (cur (replicate 2048 0) ?p1), ctx1)" using b1 by (simp add: auth_args_def)
  have run: "\<exists>key8. do_auth toy1 good_read (replicate 16 7) rnd_sample auth_args udp_sample auth_fs net = Some (Ret key8, [], net2)"
    by (rule exI, rule do_auth_steps [OF auth_loads flags ctx(1) b1' e1(1) _ a(4) e2(1)]) (use a(1,6) len in simp_all)
  then obtain key8 where run: "do_auth toy1 good_read (replicate 16 7) rnd_sample auth_args udp_sample auth_fs net = Some (Ret key8, [], net2)" by blast
  have key: "canonical (sv_server_sk server_auth)" "auth_scalarmult_base toy1 (sv_server_sk server_auth) = Ret (sv_server_pub server_auth)"
    "enrolled_client toy1 ctx (sv_server_pub server_auth)"
    using srv(2,3) rewound_base [of 4] ctx(2) by (simp_all add: group_order_def)
  have d: "dispatch toy1 env_sample ?p1 (replicate AUTH_MAX_DATAGRAM 0) server_auth = (Ret (sent c2), ?st1, [])"
    "dispatch toy1 env_sample ?p3 (replicate AUTH_MAX_DATAGRAM 0) ?st1 = (Ret (sent c4), st2, [])" using d1 d2 by simp_all
  have fresh: "\<forall>i p. table_view (sv_sessions server_auth) i = Some (In_auth p) \<longrightarrow> pa_session_id p \<noteq> cc_session_id ctx" using srv(6) by simp
  have "length (rg_entries (sv_registry server_auth)) = 256" using srv(1) by (simp add: wf_server_def wf_registry_def)
  then have ent: "set (take (rg_n (sv_registry server_auth)) (rg_entries (sv_registry server_auth))) = {entry_auth}"
    using srv(7,8) by (simp add: take_Suc_conv_app_nth)
  obtain i pend' where "table_view (sv_sessions ?st1) = (table_view (sv_sessions server_auth))(i \<mapsto> In_auth pend')"
    "pa_device_pub pend' = re_device_pub entry_auth" "key8 = take 8 (pa_session_key pend')"
    using authentication_agrees [OF R rnd_samples_wf(1) srv(1) env_sample_wf env_sample_wf key(1,2) auth_loads ctx(1) key(3) dl run e2(2) d fresh]
    unfolding ent by blast
  then have "table_view (sv_sessions ?st1) i = Some (In_auth pend') \<and> pa_device_pub pend' = toy_enc device_int \<and> key8 = take 8 (pa_session_key pend')"
    by (simp add: entry_auth_def)
  then show ?thesis using ctx(1) run e2(2) d1 d2 by blast
qed

end
