(* ===== verification/Spec2Isabelle.thy ===== *)
theory Spec2Isabelle
  imports Interleaving LineageCommit AuthRun
begin

text \<open>
  A verification development for the C implementation of ZK-ARCHE (\<^verbatim>\<open>src/c\<close>): mutual authentication of IoT devices with
  zero-knowledge proofs over ristretto255. This theory imports all the others; it states no property of its own.

  \<^bold>\<open>The program and its parts.\<close>
  A device enrols with a server (SETUP_1 to SETUP_3 and an acknowledgement) and later authenticates (AUTH_1 to AUTH_3
  and an acknowledgement). The client program (\<^verbatim>\<open>bin/client.c\<close>) loads or creates credentials, connects over UDP or TCP
  and drives the client handlers of \<^verbatim>\<open>src/proto/proto.c\<close>. The server program (\<^verbatim>\<open>bin/server.c\<close>) reads packets in UDP
  and TCP workers, parses the header, and calls the server handlers; between the messages of one run it keeps a pending
  record in the session table, it scans the device registry for AUTH_1, and the replay guard refuses a message it
  has seen. The handlers rest on the wire format, the payload codecs, the transcript engine and the proofs, and these
  on libsodium. The version 3 draft (\<^verbatim>\<open>auth_v3*.c\<close>) and lineage replacement (\<^verbatim>\<open>lineage_replace*.c\<close>) are libraries
  beside the two programs.

  \<^bold>\<open>Conventions.\<close>
  A pointer with a length is a byte list; a pointer that may be NULL is an \<open>option\<close>; \<open>size_t\<close> is \<open>nat\<close>; the fixed-width
  integers of the protocol are words. A fallible function returns \<open>cres\<close>: \<open>Ret\<close> with its outputs, \<open>Fail\<close> with the error
  code, or \<open>Fault\<close> for an access outside a buffer, so that memory safety is the statement that \<open>Fault\<close> does not
  occur. A function that changes a structure returns it, also when it fails, with the fields it has changed by then.
  Random bytes are arguments. Writing zeros over secrets has no effect on results and is not represented. The
  answers of the operating system (the segments of a stream, datagrams, the outcome of each file call) are arguments, so
  that a theorem holds for all of them.

  \<^bold>\<open>What models what.\<close>
  \<^item> \<open>Prelude\<close>: outcomes, buffers and cursors, little-endian bytes, lists; the named collections of the development.
  \<^item> \<open>Errors\<close> (\<^verbatim>\<open>auth.h\<close>, \<^verbatim>\<open>crypto.c\<close>); \<open>Codec\<close>: the locales of formats with and without trailing bytes, interpreted
    for every message; \<open>ProofTypes\<close>; \<open>Wire\<close> (\<^verbatim>\<open>wire.c\<close>); \<open>Payloads\<close> (\<^verbatim>\<open>payloads.c\<close>).
  \<^item> \<open>Sodium\<close>: libsodium as a record of functions, its laws as the predicate \<open>ristretto255\<close>, and instances that satisfy
    them; \<open>Crypto\<close> (\<^verbatim>\<open>crypto.c\<close>); \<open>Transcript\<close> (\<^verbatim>\<open>transcript.c\<close>); \<open>Proofs\<close>, \<open>RoleProofs\<close>, \<open>KeySchedule\<close> (\<^verbatim>\<open>proofs.c\<close>).
  \<^item> \<open>ClientProto\<close>, \<open>ServerProto\<close> (\<^verbatim>\<open>proto.c\<close>); \<open>Handshake\<close>: both sides of an authentication together.
  \<^item> \<open>Replay\<close> (\<^verbatim>\<open>replay.c\<close>), \<open>ReplayGuard\<close> (\<^verbatim>\<open>replay_guard.c\<close>, \<^verbatim>\<open>replay_continuity.c\<close>), \<open>SessionTable\<close>
    (\<^verbatim>\<open>session_table.c\<close>), \<open>Store\<close> and \<open>Registry\<close> (\<^verbatim>\<open>store_fs.c\<close>): each with its interface as a locale, interpreted on the
    model of the code.
  \<^item> \<open>Server\<close>, \<open>ServerRun\<close>: \<^verbatim>\<open>dispatch\<close> of \<^verbatim>\<open>server.c\<close> and the step relation of an abstract server it refines;
    \<open>Provenance\<close>: what a packet does to the pending enrolments and to the registry;
    \<open>Interleaving\<close>: the critical sections of the workers in every order; \<open>ServerLoop\<close>: command line, worker loops and
    \<^verbatim>\<open>main\<close>.
  \<^item> \<open>Transport\<close> (\<^verbatim>\<open>transport_addr.c\<close>, \<^verbatim>\<open>transport_tcp.c\<close>, \<^verbatim>\<open>transport_udp.c\<close>); \<open>Client\<close>, \<open>ClientRun\<close>: \<^verbatim>\<open>client.c\<close>;
    \<open>Enrolment\<close>: both sides of an enrolment together; \<open>EndToEnd\<close>, \<open>AuthRun\<close>: the client program against the server's
    dispatch, for enrolment and for authentication.
  \<^item> \<open>V3Context\<close>, \<open>AuthV3\<close>, \<open>V3Authz\<close>: the version 3 draft. \<open>Lineage\<close>, \<open>LineageCommit\<close>: lineage replacement over a
    storage adapter, which is a parameter with a locale for its contract.

  \<^bold>\<open>What is shown.\<close>
  \<^item> Codecs: each decoder accepts exactly the encodings of well-formed messages, without leaving its buffers; round
    trips for packets, payloads, contexts, files and TCP frames. The context parser of version 3 accepts, beyond the
    encoding document, channel-binding contexts with several entries; its theorem says so.
  \<^item> Proofs: completeness with the exact exceptions (a vanishing response or challenge), special soundness, binding of
    challenges; a non-canonical response is accepted as well. Special soundness of the role-set proof has the exception the
    code leaves: two branch challenges that are different bytes of one scalar, not both canonical.
  \<^item> Protocol: the handlers end with an error or a reply on every input and keep the context well formed; the server
    answers AUTH_1 only when all checks hold for a registered device; honest runs complete with equal keys. When the client
    program succeeds against the server's replies, server and client agree on device, commitment, pinned key and
    session key, and after an enrolment the stored credentials and the registry entry are what an authentication needs. An
    undisturbed enrolment of a ready device with a ready server completes on both sides.
  \<^item> Client program: it writes credentials only after the packet received for SETUP_1 carried a verified proof and the
    packet received for SETUP_3 was the acknowledgement; it prints a key only after the AUTH_2 packet it received carried the
    pinned key, a verified proof and the confirmation tag, and the acknowledgement arrived.
  \<^item> State: session table, replay cache and registry refine a partial map, the recent part of a log, and a map; an
    accepted AUTH_1 cannot be accepted again within 64 others; a file is old or new at every crash point; every
    packet sequence keeps the server well formed and follows the abstract server; a device in the registry was
    there before the run or was enrolled in it by a SETUP_1 and a later SETUP_3 of the same session, whose proof verifies for
    the values of that SETUP_1 and the nonce and challenge the server drew for it.
  \<^item> Programs: the client ends for every command line and network; a TCP connection handler ends, closes its descriptor
    and serves the complete frames that arrive, all of them and with all replies unless a write fails; the UDP worker answers
    every datagram; the open descriptors are always those of the start and one per live worker.
  \<^item> Weaknesses that are theorems: pending enrolments exhaust the session table; a duplicated AUTH_3 in two workers makes two
    workers hold one slot; trust on first use pins before the proof is checked; the commit of a lineage replacement
    does not depend on the digest of the authorization context.

  \<^bold>\<open>Interfaces.\<close>
  A contract between components is a locale, proved once and interpreted on the model: \<open>format_codec\<close> and \<open>canonical_format\<close> for
  the message formats, \<open>schnorr_scheme\<close> for the four Schnorr proofs, \<open>session_pool\<close> for the table the server uses,
  \<open>device_store\<close> for the registry, \<open>replay_window\<close> for the replay cache, \<open>storage_adapter\<close> for the storage of a lineage, \<open>endpoint\<close> for opening and closing
  sockets.

  \<^bold>\<open>Bounds and fuel.\<close>
  The constants are the code's: 64 session slots, 64 replay keys, 256 devices, 8 roles, datagrams of 2048 bytes, payloads of 2024
  bytes, two attempts of an exchange over UDP and one over TCP. Loops over arrays are structural recursion. Loops
  that wait for the network recurse over the list of answers the network will give; the list is arbitrary, and where it
  ends the caller would wait on, which is the result \<open>None\<close>. No other fuel is used. Theorems that a loop returns are
  stated as such. In \<open>write_all\<close> the kernel takes the rest when the list of answers ends: a send that blocks for ever is not
  represented.

  \<^bold>\<open>Assumptions.\<close>
  The theorems that speak of points and hashes assume \<open>ristretto255\<close>, the documented behaviour of libsodium: group laws of
  the encoded points, the validity test, the reduction of wide scalars and the lengths of digests. No hash is assumed to be
  injective or collision free; where a collision would matter the statement speaks of the hash input or of equal
  digests. The assumption is satisfiable: every property with hypotheses has a concrete instance.

  \<^bold>\<open>Not modelled.\<close>
  The renaming headers \<^verbatim>\<open>include/iot_auth\<close> have no behaviour. Output to the terminal, clearing of secrets, and timing
  (constant-time comparison, the length of a time-out) are not represented. Creation of threads is: each accepted connection is
  handed to a worker or closed; their scheduling is the interleaving of critical sections, and the C memory model
  inside a critical section is not modelled. The Rust implementation, the ProVerif models, tests, fuzz targets and
  build files are outside this development.
\<close>

end
